(* ===== verification/Prelude.thy ===== *)
theory Prelude
  imports Main "HOL-Library.Word" "HOL-Library.Sublist"
begin

text \<open>
  What every component of the development shares: the machine integers, Rust strings
  as their UTF-8 bytes, the string operations of the Rust standard library that the
  sources use, decimal and hexadecimal numbers read and written as Rust does, and the
  interface \<open>codec\<close> of an encoder with its partial decoder.

  A Rust \<open>str\<close> is the list of its UTF-8 bytes, so \<open>length\<close> counts what \<open>str::len\<close>
  counts. \<open>trim\<close> and \<open>split_whitespace\<close> know every Unicode white space character by
  its byte sequence; the ASCII operations touch single bytes only, as in Rust.
\<close>

section \<open>Types\<close>

type_synonym str = string
type_synonym u8 = "8 word"
type_synonym u16 = "16 word"
type_synonym u32 = "32 word"
type_synonym u64 = "64 word"
type_synonym u128 = "128 word"
type_synonym bytes = "u8 list"

abbreviation code :: "char \<Rightarrow> nat" where
  "code c \<equiv> of_char c"

named_theorems str_simps \<open>computation rules of the string operations\<close>

section \<open>Character classes\<close>

definition is_digit :: "char \<Rightarrow> bool" where
  "is_digit c \<longleftrightarrow> 48 \<le> code c \<and> code c \<le> 57"

definition is_upper :: "char \<Rightarrow> bool" where
  "is_upper c \<longleftrightarrow> 65 \<le> code c \<and> code c \<le> 90"

definition is_lower :: "char \<Rightarrow> bool" where
  "is_lower c \<longleftrightarrow> 97 \<le> code c \<and> code c \<le> 122"

definition is_alnum :: "char \<Rightarrow> bool" where
  "is_alnum c \<longleftrightarrow> is_digit c \<or> is_upper c \<or> is_lower c"

definition to_lower :: "char \<Rightarrow> char" where
  "to_lower c = (if is_upper c then char_of (code c + 32) else c)"

definition to_upper :: "char \<Rightarrow> char" where
  "to_upper c = (if is_lower c then char_of (code c - 32) else c)"

definition lower :: "str \<Rightarrow> str" where
  "lower s = map to_lower s"

definition upper :: "str \<Rightarrow> str" where
  "upper s = map to_upper s"

definition eq_ignore_case :: "str \<Rightarrow> str \<Rightarrow> bool" where
  "eq_ignore_case s t \<longleftrightarrow> lower s = lower t"

text \<open>The value of a hexadecimal digit, in either case.\<close>

definition hex_value :: "char \<Rightarrow> nat option" where
  "hex_value c =
     (if is_digit c then Some (code c - 48)
      else if 97 \<le> code c \<and> code c \<le> 102 then Some (code c - 87)
      else if 65 \<le> code c \<and> code c \<le> 70 then Some (code c - 55)
      else None)"

definition is_hexdigit :: "char \<Rightarrow> bool" where
  "is_hexdigit c \<longleftrightarrow> hex_value c \<noteq> None"

lemma code_less: "code c < 256"
proof -
  have "code (char_of (code c)) = code c mod 256"
    by (rule of_char_of)
  then show ?thesis by simp
qed

lemma code_inject: "code c = code d \<longleftrightarrow> c = d"
  by simp

lemma code_char_of: "n < 256 \<Longrightarrow> code (char_of n) = n"
  by simp

lemma lower_length [simp]: "length (lower s) = length s"
  by (simp add: lower_def)

lemma upper_length [simp]: "length (upper s) = length s"
  by (simp add: upper_def)

lemma lower_Nil [simp]: "lower [] = []"
  by (simp add: lower_def)

lemma lower_append: "lower (s @ t) = lower s @ lower t"
  by (simp add: lower_def)

lemma to_lower_idem [simp]: "to_lower (to_lower c) = to_lower c"
  by (auto simp: to_lower_def is_upper_def)

lemma lower_idem [simp]: "lower (lower s) = lower s"
  by (simp add: lower_def)

section \<open>White space\<close>

definition ws3 :: "nat \<Rightarrow> nat \<Rightarrow> nat \<Rightarrow> bool" where
  "ws3 a b c \<longleftrightarrow>
     a = 0xE1 \<and> b = 0x9A \<and> c = 0x80 \<or>
     a = 0xE2 \<and> b = 0x80 \<and> (0x80 \<le> c \<and> c \<le> 0x8A \<or> c = 0xA8 \<or> c = 0xA9 \<or> c = 0xAF) \<or>
     a = 0xE2 \<and> b = 0x81 \<and> c = 0x9F \<or>
     a = 0xE3 \<and> b = 0x80 \<and> c = 0x80"

definition ws2 :: "nat \<Rightarrow> nat \<Rightarrow> bool" where
  "ws2 a b \<longleftrightarrow> a = 0xC2 \<and> (b = 0x85 \<or> b = 0xA0)"

definition ws1 :: "nat \<Rightarrow> bool" where
  "ws1 a \<longleftrightarrow> 9 \<le> a \<and> a \<le> 13 \<or> a = 32"

text \<open>The length in bytes of the white space character a string starts (ends) with, or 0.\<close>

definition ws_head :: "str \<Rightarrow> nat" where
  "ws_head s = (case s of [] \<Rightarrow> 0 | a # t \<Rightarrow>
     if ws1 (code a) then 1
     else (case t of [] \<Rightarrow> 0 | b # u \<Rightarrow>
       if ws2 (code a) (code b) then 2
       else (case u of [] \<Rightarrow> 0 | c # _ \<Rightarrow>
         if ws3 (code a) (code b) (code c) then 3 else 0)))"

definition ws_last :: "str \<Rightarrow> nat" where
  "ws_last s = (case rev s of [] \<Rightarrow> 0 | a # t \<Rightarrow>
     if ws1 (code a) then 1
     else (case t of [] \<Rightarrow> 0 | b # u \<Rightarrow>
       if ws2 (code b) (code a) then 2
       else (case u of [] \<Rightarrow> 0 | c # _ \<Rightarrow>
         if ws3 (code c) (code b) (code a) then 3 else 0)))"

lemma ws_head_le: "ws_head s \<le> length s"
  by (auto simp: ws_head_def split: list.splits)

lemma ws_last_le: "ws_last s \<le> length s"
proof -
  have "ws_last s \<le> length (rev s)"
    unfolding ws_last_def by (auto split: list.splits)
  then show ?thesis by simp
qed

function trim_start :: "str \<Rightarrow> str" where
  "trim_start s = (if ws_head s = 0 then s else trim_start (drop (ws_head s) s))"
  by pat_completeness auto
termination
proof (relation "measure length")
  fix s assume "ws_head s \<noteq> 0"
  moreover have "ws_head s \<le> length s" by (rule ws_head_le)
  ultimately show "(drop (ws_head s) s, s) \<in> measure length" by simp
qed simp

function trim_end :: "str \<Rightarrow> str" where
  "trim_end s = (if ws_last s = 0 then s else trim_end (take (length s - ws_last s) s))"
  by pat_completeness auto
termination
proof (relation "measure length")
  fix s assume "ws_last s \<noteq> 0"
  moreover have "ws_last s \<le> length s" by (rule ws_last_le)
  ultimately show "(take (length s - ws_last s) s, s) \<in> measure length" by simp
qed simp

declare trim_start.simps [simp del] trim_end.simps [simp del]

definition trim :: "str \<Rightarrow> str" where
  "trim s = trim_end (trim_start s)"

lemma trim_start_id: "ws_head s = 0 \<Longrightarrow> trim_start s = s"
  by (simp add: trim_start.simps)

lemma trim_end_id: "ws_last s = 0 \<Longrightarrow> trim_end s = s"
  by (simp add: trim_end.simps)

lemma trim_id: "ws_head s = 0 \<Longrightarrow> ws_last s = 0 \<Longrightarrow> trim s = s"
  by (simp add: trim_def trim_start_id trim_end_id)

lemma trim_Nil [simp]: "trim [] = []"
  by (rule trim_id) (simp_all add: ws_head_def ws_last_def)

text \<open>Printable ASCII is never white space, so a string that starts and ends with it is trimmed.\<close>

definition graphic :: "char \<Rightarrow> bool" where
  "graphic c \<longleftrightarrow> 33 \<le> code c \<and> code c \<le> 126"

lemma ws_head_graphic: "graphic c \<Longrightarrow> ws_head (c # s) = 0"
  by (auto simp: ws_head_def graphic_def ws1_def ws2_def ws3_def split: list.splits)

lemma ws_last_graphic: "graphic c \<Longrightarrow> ws_last (s @ [c]) = 0"
  by (auto simp: ws_last_def graphic_def ws1_def ws2_def ws3_def split: list.splits)

lemma trim_graphic:
  assumes "\<forall>c \<in> set s. graphic c"
  shows "trim s = s"
proof (cases s rule: rev_cases)
  case Nil
  then show ?thesis by simp
next
  case (snoc t c)
  have "ws_head s = 0"
  proof (cases s)
    case Nil
    then show ?thesis by (simp add: ws_head_def)
  next
    case (Cons c t)
    with assms show ?thesis by (simp add: ws_head_graphic)
  qed
  moreover have "ws_last s = 0"
    using assms snoc ws_last_graphic by simp
  ultimately show ?thesis by (rule trim_id)
qed

text \<open>Trimming takes a part of a string.\<close>

lemma trim_start_suffix: "suffix (trim_start s) s"
proof (induction s rule: trim_start.induct)
  case (1 s)
  then show ?case
    by (subst trim_start.simps) (auto intro: suffix_order.trans suffix_drop)
qed

lemma trim_end_prefix: "prefix (trim_end s) s"
proof (induction s rule: trim_end.induct)
  case (1 s)
  then show ?case
    by (subst trim_end.simps) (auto intro: prefix_order.trans take_is_prefix)
qed

lemma trim_sublist: "sublist (trim s) s"
  unfolding trim_def
  using trim_end_prefix trim_start_suffix by (meson prefix_imp_sublist suffix_imp_sublist sublist_order.order_trans)

lemma trim_length: "length (trim s) \<le> length s"
  using trim_sublist by (rule sublist_length_le)

lemma trim_set: "set (trim s) \<subseteq> set s"
  using trim_sublist by (rule set_mono_sublist)

text \<open>\<open>s.contains(char::is_whitespace)\<close> and \<open>s.split_whitespace()\<close>.\<close>

fun has_ws :: "str \<Rightarrow> bool" where
  "has_ws [] = False"
| "has_ws (c # s) = (0 < ws_head (c # s) \<or> has_ws s)"

function split_ws_aux :: "str \<Rightarrow> str \<Rightarrow> str list" where
  "split_ws_aux acc [] = (if acc = [] then [] else [rev acc])"
| "split_ws_aux acc (c # s) =
     (if ws_head (c # s) = 0 then split_ws_aux (c # acc) s
      else (if acc = [] then [] else [rev acc]) @ split_ws_aux [] (drop (ws_head (c # s)) (c # s)))"
  by pat_completeness auto
termination
  by (relation "measure (\<lambda>(acc, s). length s)") auto

definition split_whitespace :: "str \<Rightarrow> str list" where
  "split_whitespace s = split_ws_aux [] s"

section \<open>Splitting and joining\<close>

fun split_by :: "(char \<Rightarrow> bool) \<Rightarrow> str \<Rightarrow> str list" where
  "split_by P [] = [[]]"
| "split_by P (x # xs) =
     (if P x then [] # split_by P xs
      else (case split_by P xs of [] \<Rightarrow> [[x]] | y # ys \<Rightarrow> (x # y) # ys))"

abbreviation split_on :: "char \<Rightarrow> str \<Rightarrow> str list" where
  "split_on c s \<equiv> split_by (\<lambda>x. x = c) s"

fun split_once_by :: "(char \<Rightarrow> bool) \<Rightarrow> str \<Rightarrow> (str \<times> str) option" where
  "split_once_by P [] = None"
| "split_once_by P (x # xs) =
     (if P x then Some ([], xs)
      else map_option (\<lambda>(a, b). (x # a, b)) (split_once_by P xs))"

abbreviation split_once :: "char \<Rightarrow> str \<Rightarrow> (str \<times> str) option" where
  "split_once c s \<equiv> split_once_by (\<lambda>x. x = c) s"

definition rsplit_once :: "char \<Rightarrow> str \<Rightarrow> (str \<times> str) option" where
  "rsplit_once c s = map_option (\<lambda>(a, b). (rev b, rev a)) (split_once c (rev s))"

fun splitn :: "nat \<Rightarrow> char \<Rightarrow> str \<Rightarrow> str list" where
  "splitn 0 c s = []"
| "splitn (Suc 0) c s = [s]"
| "splitn (Suc (Suc n)) c s =
     (case split_once c s of None \<Rightarrow> [s] | Some (a, b) \<Rightarrow> a # splitn (Suc n) c b)"

definition strip_prefix :: "str \<Rightarrow> str \<Rightarrow> str option" where
  "strip_prefix p s = (if prefix p s then Some (drop (length p) s) else None)"

definition strip_suffix :: "str \<Rightarrow> str \<Rightarrow> str option" where
  "strip_suffix p s = (if suffix p s then Some (take (length s - length p) s) else None)"

fun contains_str :: "str \<Rightarrow> str \<Rightarrow> bool" where
  "contains_str p [] = (p = [])"
| "contains_str p (x # xs) = (prefix p (x # xs) \<or> contains_str p xs)"

fun split_once_str :: "str \<Rightarrow> str \<Rightarrow> (str \<times> str) option" where
  "split_once_str p [] = (if p = [] then Some ([], []) else None)"
| "split_once_str p (x # xs) =
     (if prefix p (x # xs) then Some ([], drop (length p) (x # xs))
      else map_option (\<lambda>(a, b). (x # a, b)) (split_once_str p xs))"

fun join :: "str \<Rightarrow> str list \<Rightarrow> str" where
  "join sep [] = []"
| "join sep [x] = x"
| "join sep (x # y # zs) = x @ sep @ join sep (y # zs)"

text \<open>\<open>str::replace\<close>: from the left, without overlap.\<close>

function replace_str :: "str \<Rightarrow> str \<Rightarrow> str \<Rightarrow> str" where
  "replace_str p r [] = []"
| "replace_str p r (x # xs) =
     (if p \<noteq> [] \<and> prefix p (x # xs) then r @ replace_str p r (drop (length p) (x # xs))
      else x # replace_str p r xs)"
  by pat_completeness auto

termination by (relation "measure (\<lambda>(p, r, s). length s)") (auto simp: neq_Nil_conv)

definition drop_while_end :: "(char \<Rightarrow> bool) \<Rightarrow> str \<Rightarrow> str" where
  "drop_while_end P s = rev (dropWhile P (rev s))"

text \<open>\<open>str::lines\<close>: split at line feeds, one trailing carriage return removed from each
  line, no empty last line.\<close>

definition strip_cr :: "str \<Rightarrow> str" where
  "strip_cr l = (if l \<noteq> [] \<and> last l = CHR 0x0D then butlast l else l)"

definition str_lines :: "str \<Rightarrow> str list" where
  "str_lines s =
     (let ps = split_on CHR 0x0A s
      in map strip_cr (butlast ps) @ (if last ps = [] then [] else [last ps]))"

lemma split_by_not_Nil [simp]: "split_by P s \<noteq> []"
  by (cases s) (auto split: list.splits)

lemma split_by_single: "\<forall>c \<in> set s. \<not> P c \<Longrightarrow> split_by P s = [s]"
  by (induction s) auto

lemma split_by_append:
  "\<forall>c \<in> set s. \<not> P c \<Longrightarrow> P d \<Longrightarrow> split_by P (s @ d # t) = s # split_by P t"
  by (induction s) auto

lemma split_once_by_Some:
  "split_once_by P s = Some (a, b) \<longleftrightarrow>
     (\<exists>d. s = a @ d # b \<and> P d \<and> (\<forall>c \<in> set a. \<not> P c))"
proof (induction s arbitrary: a)
  case Nil
  then show ?case by simp
next
  case (Cons x xs)
  then show ?case by (cases a) auto
qed

lemma split_once_by_None: "split_once_by P s = None \<longleftrightarrow> (\<forall>c \<in> set s. \<not> P c)"
  by (induction s) auto

lemma split_once_append:
  "c \<notin> set a \<Longrightarrow> split_once c (a @ c # b) = Some (a, b)"
  by (auto simp: split_once_by_Some)

lemma split_once_Some:
  "split_once c s = Some (a, b) \<longleftrightarrow> s = a @ c # b \<and> c \<notin> set a"
  by (auto simp: split_once_by_Some)

lemma split_once_None: "split_once c s = None \<longleftrightarrow> c \<notin> set s"
  by (auto simp: split_once_by_None)

lemma rsplit_once_Some:
  "rsplit_once c s = Some (a, b) \<longleftrightarrow> s = a @ c # b \<and> c \<notin> set b"
proof
  assume "rsplit_once c s = Some (a, b)"
  then have "split_once c (rev s) = Some (rev b, rev a)"
    by (auto simp: rsplit_once_def)
  then show "s = a @ c # b \<and> c \<notin> set b"
    unfolding split_once_Some
    by (metis append.assoc append_Cons append_Nil rev.simps(2) rev_append rev_rev_ident set_rev)
next
  assume "s = a @ c # b \<and> c \<notin> set b"
  then show "rsplit_once c s = Some (a, b)"
    by (simp add: rsplit_once_def split_once_append)
qed

lemma rsplit_once_None: "rsplit_once c s = None \<longleftrightarrow> c \<notin> set s"
  by (simp add: rsplit_once_def split_once_None)

lemma prefix_Cons_simp [simp]: "prefix (x # xs) (y # ys) \<longleftrightarrow> x = y \<and> prefix xs ys"
  by simp

section \<open>Numbers\<close>

text \<open>
  \<open>str::parse\<close> for an unsigned integer type with greatest value \<open>m\<close>: an optional plus
  sign, then one or more digits, and the value must fit.
\<close>

fun digits_value :: "nat \<Rightarrow> str \<Rightarrow> nat" where
  "digits_value acc [] = acc"
| "digits_value acc (c # s) = digits_value (10 * acc + (code c - 48)) s"

definition unsigned_digits :: "str \<Rightarrow> str" where
  "unsigned_digits s = (case s of [] \<Rightarrow> [] | c # t \<Rightarrow> if c = CHR ''+'' then t else s)"

definition parse_uint :: "nat \<Rightarrow> str \<Rightarrow> nat option" where
  "parse_uint m s =
     (let d = unsigned_digits s
      in if d \<noteq> [] \<and> list_all is_digit d \<and> digits_value 0 d \<le> m then Some (digits_value 0 d) else None)"

abbreviation parse_u8 :: "str \<Rightarrow> nat option" where "parse_u8 \<equiv> parse_uint 255"
abbreviation parse_u16 :: "str \<Rightarrow> nat option" where "parse_u16 \<equiv> parse_uint 65535"
abbreviation parse_u32 :: "str \<Rightarrow> nat option" where "parse_u32 \<equiv> parse_uint 4294967295"
abbreviation parse_u64 :: "str \<Rightarrow> nat option" where "parse_u64 \<equiv> parse_uint 18446744073709551615"

definition digit_char :: "nat \<Rightarrow> char" where
  "digit_char d = char_of (48 + d)"

fun show_nat :: "nat \<Rightarrow> str" where
  "show_nat n = (if n < 10 then [digit_char n] else show_nat (n div 10) @ [digit_char (n mod 10)])"

declare show_nat.simps [simp del]

lemma digit_char_digit: "d < 10 \<Longrightarrow> is_digit (digit_char d)"
  by (simp add: is_digit_def digit_char_def)

lemma digit_char_value: "d < 10 \<Longrightarrow> code (digit_char d) - 48 = d"
  by (simp add: digit_char_def)

lemma show_nat_digits: "list_all is_digit (show_nat n)"
proof (induction n rule: show_nat.induct)
  case (1 n)
  then show ?case
    by (subst show_nat.simps) (auto simp: digit_char_digit)
qed

lemma show_nat_not_Nil [simp]: "show_nat n \<noteq> []"
  by (subst show_nat.simps) simp

lemma digits_value_append:
  "digits_value a (s @ [c]) = 10 * digits_value a s + (code c - 48)"
  by (induction s arbitrary: a) auto

lemma digits_value_show_nat [simp]: "digits_value 0 (show_nat n) = n"
proof (induction n rule: show_nat.induct)
  case (1 n)
  show ?case
  proof (cases "n < 10")
    case True
    then show ?thesis by (subst show_nat.simps) (simp add: digit_char_value)
  next
    case False
    with 1 show ?thesis
      by (subst show_nat.simps) (simp add: digits_value_append digit_char_value)
  qed
qed

lemma digit_not_plus: "is_digit c \<Longrightarrow> c \<noteq> CHR ''+''"
  by (auto simp: is_digit_def)

lemma unsigned_digits_id: "list_all is_digit s \<Longrightarrow> unsigned_digits s = s"
  by (cases s) (auto simp: unsigned_digits_def dest: digit_not_plus)

lemma parse_uint_show_nat: "n \<le> m \<Longrightarrow> parse_uint m (show_nat n) = Some n"
  by (simp add: parse_uint_def unsigned_digits_id show_nat_digits)

lemma parse_uint_bound: "parse_uint m s = Some n \<Longrightarrow> n \<le> m"
  by (auto simp: parse_uint_def Let_def split: if_splits)

lemma parse_uint_Nil [simp]: "parse_uint m [] = None"
  by (simp add: parse_uint_def unsigned_digits_def)

lemma parse_uint_digits:
  "parse_uint m s = Some n \<Longrightarrow> c \<in> set s \<Longrightarrow> is_digit c \<or> c = CHR ''+''"
  by (cases s) (auto simp: parse_uint_def unsigned_digits_def list_all_iff Let_def split: if_splits)

text \<open>Hexadecimal: \<open>from_str_radix(s, 16)\<close> and \<open>{:02x}\<close>, \<open>{:02X}\<close>.\<close>

fun hex_fold :: "nat \<Rightarrow> str \<Rightarrow> nat option" where
  "hex_fold acc [] = Some acc"
| "hex_fold acc (c # s) =
     (case hex_value c of None \<Rightarrow> None | Some v \<Rightarrow> hex_fold (16 * acc + v) s)"

definition parse_hex :: "nat \<Rightarrow> str \<Rightarrow> nat option" where
  "parse_hex m s =
     (let d = unsigned_digits s
      in if d = [] then None
         else (case hex_fold 0 d of Some n \<Rightarrow> if n \<le> m then Some n else None | None \<Rightarrow> None))"

definition hex_char :: "nat \<Rightarrow> char" where
  "hex_char d = (if d < 10 then char_of (48 + d) else char_of (87 + d))"

definition hex_char_upper :: "nat \<Rightarrow> char" where
  "hex_char_upper d = (if d < 10 then char_of (48 + d) else char_of (55 + d))"

fun hex_digits :: "nat \<Rightarrow> nat \<Rightarrow> str" where
  "hex_digits 0 n = []"
| "hex_digits (Suc k) n = hex_digits k (n div 16) @ [hex_char (n mod 16)]"

lemma hex_value_char: "d < 16 \<Longrightarrow> hex_value (hex_char d) = Some d"
  by (auto simp: hex_value_def hex_char_def is_digit_def)

lemma hex_value_char_upper: "d < 16 \<Longrightarrow> hex_value (hex_char_upper d) = Some d"
  by (auto simp: hex_value_def hex_char_upper_def is_digit_def)

lemma hex_digits_length [simp]: "length (hex_digits k n) = k"
  by (induction k arbitrary: n) auto

lemma hex_digits_Nil [simp]: "hex_digits k n = [] \<longleftrightarrow> k = 0"
  by (metis hex_digits_length length_0_conv)

lemma hex_fold_append:
  "hex_fold a (s @ t) = (case hex_fold a s of None \<Rightarrow> None | Some b \<Rightarrow> hex_fold b t)"
  by (induction s arbitrary: a) (auto split: option.splits)

lemma hex_fold_digits: "hex_fold 0 (hex_digits k n) = Some (n mod 16 ^ k)"
proof (induction k arbitrary: n)
  case 0
  then show ?case by simp
next
  case (Suc k)
  have "16 * (n div 16 mod 16 ^ k) + n mod 16 = n mod 16 ^ Suc k"
    by (simp add: mod_mult2_eq)
  then show ?case
    by (simp add: hex_fold_append Suc.IH hex_value_char)
qed

lemma hex_char_hexdigit: "d < 16 \<Longrightarrow> is_hexdigit (hex_char d)"
  by (simp add: is_hexdigit_def hex_value_char)

lemma hex_digits_hexdigits: "list_all is_hexdigit (hex_digits k n)"
  by (induction k arbitrary: n) (auto simp: hex_char_hexdigit)

lemma hexdigit_not_plus: "is_hexdigit c \<Longrightarrow> c \<noteq> CHR ''+''"
  by (auto simp: is_hexdigit_def hex_value_def is_digit_def)

lemma unsigned_digits_hex: "list_all is_hexdigit s \<Longrightarrow> unsigned_digits s = s"
  by (cases s) (auto simp: unsigned_digits_def dest: hexdigit_not_plus)

text \<open>Big-endian bytes: \<open>to_be_bytes\<close> and \<open>from_be_bytes\<close> of a \<open>k\<close>-byte integer.\<close>

fun be_bytes :: "nat \<Rightarrow> nat \<Rightarrow> u8 list" where
  "be_bytes 0 n = []"
| "be_bytes (Suc k) n = be_bytes k (n div 256) @ [word_of_nat n]"

fun be_value :: "nat \<Rightarrow> u8 list \<Rightarrow> nat" where
  "be_value acc [] = acc"
| "be_value acc (b # bs) = be_value (256 * acc + unat b) bs"

lemma be_bytes_length [simp]: "length (be_bytes k n) = k"
  by (induction k arbitrary: n) auto

lemma be_value_append: "be_value a (s @ t) = be_value (be_value a s) t"
  by (induction s arbitrary: a) auto

lemma unat_word_of_nat_u8: "unat (word_of_nat n :: u8) = n mod 256"
  by (simp add: unat_of_nat)

lemma be_value_bytes: "be_value 0 (be_bytes k n) = n mod 256 ^ k"
proof (induction k arbitrary: n)
  case 0
  then show ?case by simp
next
  case (Suc k)
  have "256 * (n div 256 mod 256 ^ k) + n mod 256 = n mod 256 ^ Suc k"
    by (simp add: mod_mult2_eq)
  then show ?case
    by (simp add: be_value_append Suc.IH unat_word_of_nat_u8)
qed

lemma be_value_bound: "be_value 0 bs < 256 ^ length bs"
proof (induction bs rule: rev_induct)
  case Nil
  then show ?case by simp
next
  case (snoc b bs)
  have "unat b < 256"
    using unsigned_less [of b, where 'a = nat] by simp
  with snoc show ?case
    by (simp add: be_value_append)
qed

text \<open>\<open>{b:02x}\<close> of every byte.\<close>

definition hex_of_bytes :: "bytes \<Rightarrow> str" where
  "hex_of_bytes bs = concat (map (\<lambda>b. hex_digits 2 (unat b)) bs)"

section \<open>Results\<close>

text \<open>The \<open>?\<close> of a fallible step, and a condition that must hold.\<close>

definition and_then :: "'e + 'a \<Rightarrow> ('a \<Rightarrow> 'e + 'b) \<Rightarrow> 'e + 'b" where
  "and_then r f = (case r of Inl e \<Rightarrow> Inl e | Inr x \<Rightarrow> f x)"

lemma and_then_Inr [simp]: "and_then r f = Inr y \<longleftrightarrow> (\<exists>x. r = Inr x \<and> f x = Inr y)"
  by (simp add: and_then_def split: sum.split)

definition demand :: "bool \<Rightarrow> 'e \<Rightarrow> 'e + unit" where
  "demand b e = (if b then Inr () else Inl e)"

lemma demand_Inr [simp]: "demand b e = Inr u \<longleftrightarrow> b"
  by (simp add: demand_def)

section \<open>The interface of a codec\<close>

text \<open>
  An encoder and its partial decoder on a set of valid values: every valid value is read
  back from what was written. A client may rely on the encoding being injective and on
  the decoder accepting whatever the encoder wrote.
\<close>

locale codec =
  fixes enc :: "'a \<Rightarrow> 'b"
    and dec :: "'b \<Rightarrow> 'a option"
    and valid :: "'a \<Rightarrow> bool"
  assumes dec_enc: "valid x \<Longrightarrow> dec (enc x) = Some x"
begin

lemma enc_inject:
  assumes "valid x" and "valid y" and "enc x = enc y"
  shows "x = y"
proof -
  have "Some x = dec (enc y)"
    using dec_enc [OF assms(1)] assms(3) by simp
  also have "\<dots> = Some y"
    by (rule dec_enc [OF assms(2)])
  finally show ?thesis by simp
qed

lemma enc_accepted: "valid x \<Longrightarrow> dec (enc x) \<noteq> None"
  by (simp add: dec_enc)

lemma map_dec_enc: "\<forall>x \<in> set xs. valid x \<Longrightarrow> map dec (map enc xs) = map Some xs"
  by (simp add: dec_enc)

end

end
