(* ===== verification/Rbac.thy ===== *)
theory Rbac
  imports Prelude
begin

text \<open>
  The permission model of \<open>shared-rs/src/rbac.rs\<close>: the organisation roles, the ten
  capabilities as bits of an \<open>i64\<close>, the bit-mask operations of \<open>PermSet\<close>, the role
  ceiling, the effective permissions of a user on a project, and the restrictions an
  agent applies at launch.

  The abstract view of a bit mask is the set of capabilities it holds (\<open>perms_of\<close>), and
  every operation is shown to implement the set operation it stands for. The two
  interfaces are \<open>bit_mask\<close> (what a client may assume of an intersecting mask) and the
  interpretation of it on the code's own \<open>intersect\<close>.
\<close>

unbundle bit_operations_syntax

section \<open>Roles and capabilities\<close>

datatype org_role = Owner | Admin | Manager | Member

datatype perm =
    View | Launch | EditProfile | EditFingerprint | EditProxy
  | RevealSecrets | ExportCookies | CreateProfile | DeleteProfile | ManageAccess

type_synonym permset = "64 word"

text \<open>The discriminants of \<open>enum Perm\<close>, as \<open>p as i64\<close> reads them.\<close>

fun perm_bit :: "perm \<Rightarrow> permset" where
  "perm_bit View = 1"
| "perm_bit Launch = 2"
| "perm_bit EditProfile = 4"
| "perm_bit EditFingerprint = 8"
| "perm_bit EditProxy = 16"
| "perm_bit RevealSecrets = 32"
| "perm_bit ExportCookies = 64"
| "perm_bit CreateProfile = 128"
| "perm_bit DeleteProfile = 256"
| "perm_bit ManageAccess = 512"

definition perm_ALL :: "perm list" where
  "perm_ALL = [View, Launch, EditProfile, EditFingerprint, EditProxy, RevealSecrets,
     ExportCookies, CreateProfile, DeleteProfile, ManageAccess]"

section \<open>The bit mask\<close>

definition NONE :: permset where
  "NONE = 0"

definition from_iter :: "perm list \<Rightarrow> permset" where
  "from_iter ps = fold (\<lambda>p acc. acc OR perm_bit p) ps 0"

definition all_perms :: permset where
  "all_perms = fold (\<lambda>p acc. acc OR perm_bit p) perm_ALL 0"

definition operator :: permset where
  "operator = from_iter [View, Launch]"

definition full_profile_work :: permset where
  "full_profile_work = from_iter [View, Launch, EditProfile, EditFingerprint, EditProxy,
     RevealSecrets, ExportCookies, CreateProfile]"

definition has :: "permset \<Rightarrow> perm \<Rightarrow> bool" where
  "has s p \<longleftrightarrow> s AND perm_bit p \<noteq> 0"

definition with_perm :: "permset \<Rightarrow> perm \<Rightarrow> permset" where
  "with_perm s p = s OR perm_bit p"

definition without_perm :: "permset \<Rightarrow> perm \<Rightarrow> permset" where
  "without_perm s p = s AND NOT (perm_bit p)"

definition intersect :: "permset \<Rightarrow> permset \<Rightarrow> permset" where
  "intersect s t = s AND t"

definition to_vec :: "permset \<Rightarrow> perm list" where
  "to_vec s = List.filter (has s) perm_ALL"

section \<open>Roles, ceilings and the effective set\<close>

definition role_ceiling :: "org_role \<Rightarrow> permset" where
  "role_ceiling r =
     (case r of Member \<Rightarrow> without_perm all_perms ManageAccess | _ \<Rightarrow> all_perms)"

definition has_implicit_project_access :: "org_role \<Rightarrow> bool" where
  "has_implicit_project_access r \<longleftrightarrow> r = Owner \<or> r = Admin"

definition effective :: "org_role \<Rightarrow> permset option \<Rightarrow> permset" where
  "effective r g =
     (if has_implicit_project_access r then all_perms
      else (case g of Some s \<Rightarrow> intersect s (role_ceiling r) | None \<Rightarrow> NONE))"

section \<open>Launch restrictions\<close>

record launch_restrictions =
  deny_cdp :: bool
  lock_devtools :: bool
  lock_data_export :: bool
  wipe_on_exit :: bool
  autofill_only :: bool

definition for_perms :: "permset \<Rightarrow> launch_restrictions" where
  "for_perms p =
     (let can_export = has p ExportCookies; can_reveal = has p RevealSecrets
      in \<lparr>deny_cdp = \<not> can_export, lock_devtools = \<not> can_export, lock_data_export = \<not> can_export,
          wipe_on_exit = \<not> can_export, autofill_only = \<not> can_reveal\<rparr>)"

section \<open>Reading a mask as a set\<close>

fun perm_index :: "perm \<Rightarrow> nat" where
  "perm_index View = 0"
| "perm_index Launch = 1"
| "perm_index EditProfile = 2"
| "perm_index EditFingerprint = 3"
| "perm_index EditProxy = 4"
| "perm_index RevealSecrets = 5"
| "perm_index ExportCookies = 6"
| "perm_index CreateProfile = 7"
| "perm_index DeleteProfile = 8"
| "perm_index ManageAccess = 9"

definition perms_of :: "permset \<Rightarrow> perm set" where
  "perms_of s = {p. has s p}"

lemma perm_bit_push: "perm_bit p = push_bit (perm_index p) 1"
  by (cases p) (simp_all add: push_bit_eq_mult)

lemma perm_index_less: "perm_index p < 10"
  by (cases p) simp_all

lemma perm_index_inject [simp]: "perm_index p = perm_index q \<longleftrightarrow> p = q"
  by (cases p; cases q) simp_all

lemma bit_perm_bit: "bit (perm_bit p) n \<longleftrightarrow> n = perm_index p"
  using perm_index_less [of p] by (auto simp: perm_bit_push bit_exp_iff)

lemma nonzero_bit: "x \<noteq> 0 \<longleftrightarrow> (\<exists>n. bit x n)" for x :: "'a::len word"
proof
  assume "x \<noteq> 0"
  show "\<exists>n. bit x n"
  proof (rule ccontr)
    assume "\<nexists>n. bit x n"
    then have "x = 0" by (intro bit_eqI) simp
    with \<open>x \<noteq> 0\<close> show False by simp
  qed
qed auto

lemma has_bit: "has s p \<longleftrightarrow> bit s (perm_index p)"
proof -
  have "s AND perm_bit p \<noteq> 0 \<longleftrightarrow> (\<exists>n. bit (s AND perm_bit p) n)"
    by (rule nonzero_bit)
  also have "\<dots> \<longleftrightarrow> bit s (perm_index p)"
    by (auto simp: bit_and_iff bit_perm_bit)
  finally show ?thesis by (simp add: has_def)
qed

lemma mem_perms_of [simp]: "p \<in> perms_of s \<longleftrightarrow> has s p"
  by (simp add: perms_of_def)

lemma has_or: "has (s OR t) p \<longleftrightarrow> has s p \<or> has t p"
  by (simp add: has_bit bit_or_iff)

lemma has_and: "has (s AND t) p \<longleftrightarrow> has s p \<and> has t p"
  by (simp add: has_bit bit_and_iff)

lemma has_perm_bit: "has (perm_bit p) q \<longleftrightarrow> p = q"
  by (auto simp: has_bit bit_perm_bit)

lemma has_fold:
  "has (fold (\<lambda>p acc. acc OR perm_bit p) ps s) q \<longleftrightarrow> has s q \<or> q \<in> set ps"
  by (induction ps arbitrary: s) (auto simp: has_or has_perm_bit)

lemma has_zero [simp]: "\<not> has 0 p"
  by (simp add: has_def)

lemma set_perm_ALL [simp]: "set perm_ALL = UNIV"
proof -
  have "p \<in> set perm_ALL" for p
    by (cases p) (simp_all add: perm_ALL_def)
  then show ?thesis by auto
qed

lemma distinct_perm_ALL [simp]: "distinct perm_ALL"
  by (simp add: perm_ALL_def)

lemma has_all [simp]: "has all_perms p"
  by (simp add: all_perms_def has_fold)

lemma has_NONE [simp]: "\<not> has NONE p"
  by (simp add: NONE_def)

lemma has_from_iter [simp]: "has (from_iter ps) p \<longleftrightarrow> p \<in> set ps"
  by (simp add: from_iter_def has_fold)

lemma has_with [simp]: "has (with_perm s p) q \<longleftrightarrow> q = p \<or> has s q"
  by (auto simp: with_perm_def has_or has_perm_bit)

lemma has_without [simp]: "has (without_perm s p) q \<longleftrightarrow> q \<noteq> p \<and> has s q"
  using perm_index_less [of q]
  by (auto simp: without_perm_def has_bit bit_and_iff bit_not_iff bit_perm_bit)

lemma has_intersect [simp]: "has (intersect s t) p \<longleftrightarrow> has s p \<and> has t p"
  by (simp add: intersect_def has_and)

lemma has_ceiling [simp]: "has (role_ceiling r) p \<longleftrightarrow> r \<noteq> Member \<or> p \<noteq> ManageAccess"
  by (cases r) (auto simp: role_ceiling_def)

lemma set_to_vec: "set (to_vec s) = perms_of s"
  by (auto simp: to_vec_def)

section \<open>The interface of a capability mask\<close>

text \<open>
  What the handlers rely on when they cap one mask by another: the capped mask holds
  exactly what both hold. Any mask capped twice by the same bound is capped once, and no
  chain of caps ever adds a capability.
\<close>

locale bit_mask =
  fixes holds :: "'m \<Rightarrow> 'p \<Rightarrow> bool"
    and cap :: "'m \<Rightarrow> 'm \<Rightarrow> 'm"
  assumes holds_cap: "holds (cap s t) p \<longleftrightarrow> holds s p \<and> holds t p"
begin

lemma cap_below: "holds (cap s t) p \<Longrightarrow> holds s p"
  by (simp add: holds_cap)

lemma fold_cap: "holds (fold (\<lambda>t s. cap s t) ts s) p \<longleftrightarrow> holds s p \<and> (\<forall>t \<in> set ts. holds t p)"
  by (induction ts arbitrary: s) (auto simp: holds_cap)

lemma cap_monotone:
  "(\<And>p. holds s p \<Longrightarrow> holds s' p) \<Longrightarrow> holds (cap s t) p \<Longrightarrow> holds (cap s' t) p"
  by (simp add: holds_cap)

end

interpretation perm_mask: bit_mask has intersect
  by unfold_locales simp

section \<open>Properties\<close>

definition effective_spec :: "org_role \<Rightarrow> perm set option \<Rightarrow> perm set" where
  "effective_spec r g =
     (if r = Owner \<or> r = Admin then UNIV
      else (case g of None \<Rightarrow> {} | Some ps \<Rightarrow> if r = Member then ps - {ManageAccess} else ps))"

text \<open>
  C1. The effective permissions implement their specification as a set: owners and admins
  hold every capability with or without a grant; anybody else holds exactly what the
  grant gives, less \<open>ManageAccess\<close> for a plain member; without a grant, nothing.
\<close>

theorem effective_refines_spec:
  "perms_of (effective r g) = effective_spec r (map_option perms_of g)"
  by (cases g; cases r)
    (auto simp: effective_def effective_spec_def has_implicit_project_access_def)

lemma effective_member_no_manage: "\<not> has (effective Member g) ManageAccess"
  by (cases g) (auto simp: effective_def has_implicit_project_access_def)

text \<open>\<open>to_vec\<close> and \<open>from_iter\<close> are inverse up to bits that are no capability.\<close>

lemma all_perms_value: "all_perms = 1023"
  by (simp add: all_perms_def perm_ALL_def)

lemma has_ext: "s AND NOT all_perms = 0 \<Longrightarrow> t AND NOT all_perms = 0 \<Longrightarrow>
    (\<And>p. has s p \<longleftrightarrow> has t p) \<Longrightarrow> s = t"
proof (rule bit_eqI)
  fix n
  assume s: "s AND NOT all_perms = 0" and t: "t AND NOT all_perms = 0"
    and eq: "\<And>p. has s p \<longleftrightarrow> has t p" and n: "possible_bit TYPE(64 word) n"
  have mask: "all_perms = mask 10"
    by (simp add: all_perms_value mask_eq_exp_minus_1)
  show "bit s n \<longleftrightarrow> bit t n"
  proof (cases "n < 10")
    case True
    then have "n \<in> {0, 1, 2, 3, 4, 5, 6, 7, 8, 9}" by auto
    then obtain p where "n = perm_index p"
      by (elim insertE emptyE) (metis perm_index.simps)+
    then show ?thesis using eq [of p] by (simp add: has_bit)
  next
    case False
    have "\<not> bit (s AND NOT all_perms) n" and "\<not> bit (t AND NOT all_perms) n"
      using s t by simp_all
    with False n show ?thesis
      by (simp add: mask bit_and_iff bit_not_iff bit_mask_iff)
  qed
qed

lemma from_iter_below: "from_iter ps AND NOT all_perms = 0"
proof -
  have "s AND NOT all_perms = 0 \<Longrightarrow>
      fold (\<lambda>p acc. acc OR perm_bit p) ps s AND NOT all_perms = 0" for s
  proof (induction ps arbitrary: s)
    case (Cons p ps)
    have "perm_bit p AND NOT all_perms = 0"
      by (cases p) (simp_all add: all_perms_value)
    then have "(s OR perm_bit p) AND NOT all_perms = 0"
      using Cons.prems by (simp add: bit.conj_disj_distrib2)
    from Cons.IH [OF this] show ?case by simp
  qed simp
  then show ?thesis by (simp add: from_iter_def)
qed

text \<open>
  A mask survives the trip through the list of capabilities the API sends: reading
  the list back gives the same mask without its unknown bits, and the list holds each
  capability once.
\<close>

lemma perms_roundtrip:
  "from_iter (to_vec s) = s AND all_perms \<and> distinct (to_vec s)"
proof
  have "(s AND all_perms) AND NOT all_perms = 0"
    by (simp add: and.assoc)
  then show "from_iter (to_vec s) = s AND all_perms"
    by (rule has_ext [OF from_iter_below]) (simp add: set_to_vec has_and)
  show "distinct (to_vec s)"
    by (simp add: to_vec_def)
qed

text \<open>
  The operator set takes nothing home: whatever role below admin it is granted to,
  the launch is locked down in every respect the agent enforces.
\<close>

theorem operator_locked_down:
  assumes "\<not> has_implicit_project_access r"
  shows "for_perms (effective r (Some operator)) =
    \<lparr>deny_cdp = True, lock_devtools = True, lock_data_export = True,
     wipe_on_exit = True, autofill_only = True\<rparr>"
  using assms by (simp add: for_perms_def effective_def operator_def Let_def)

theorem operator_locked_down_witness:
  "\<not> has_implicit_project_access Member \<and>
   deny_cdp (for_perms (effective Member (Some operator)))"
proof -
  have h: "\<not> has_implicit_project_access Member"
    by (simp add: has_implicit_project_access_def)
  show ?thesis using h operator_locked_down [OF h] by simp
qed

end
