(* ===== verification/Server_Db.thy ===== *)
theory Server_Db
  imports Rbac "HOL-Library.AList"
begin

text \<open>
  The part of the server's PostgreSQL schema that the handlers of \<open>server/src\<close> modelled
  here read and write (\<open>server/migrations\<close>): one association list per table, keyed by its
  primary key, and the error type of \<open>server/src/error.rs\<close> with its HTTP status. Row-level
  security is not modelled: it is the second line of defence below these handlers. The
  clock is an argument: \<open>now\<close> in seconds.
\<close>

type_synonym uuid = nat
type_synonym time = nat

record project_row =
  pr_org :: uuid
  pr_name :: str
  pr_description :: str
  pr_color :: "str option"
  pr_deleted :: bool

record grant_row =
  g_permissions :: permset
  g_granted_by :: uuid
  g_expires_at :: "time option"
  g_domain_lists :: "uuid list"
  g_access_role :: "uuid option"

record profile_grant_row =
  pg_permissions :: permset
  pg_granted_by :: uuid
  pg_expires_at :: "time option"
  pg_wrapped_key :: bytes
  pg_wrapped_proxy_key :: "bytes option"

text \<open>The overrides column is JSON the server hands on; here its text.\<close>

record profile_row =
  f_org :: uuid
  f_project :: uuid
  f_name :: str
  f_notes :: str
  f_tags :: "str list"
  f_status :: str
  f_persona_id :: str
  f_fp_seed :: bytes
  f_timezone :: "str option"
  f_languages :: "str list"
  f_start_urls :: "str list"
  f_overrides :: str
  f_proxy_id :: "uuid option"
  f_wrapped_cookie_key :: "bytes option"
  f_current_version :: int
  f_deleted :: bool

record proxy_row =
  x_org :: uuid
  x_project :: "uuid option"
  x_name :: str
  x_kind :: str
  x_host :: str
  x_port :: int
  x_credentials_enc :: "bytes option"
  x_wrapped_dek :: "bytes option"
  x_rotate_url_enc :: "bytes option"
  x_created_by :: "uuid option"
  x_deleted :: bool

record lock_row =
  l_user :: uuid
  l_token_hash :: bytes
  l_machine_name :: str
  l_machine_id :: str
  l_expires_at :: time

text \<open>A bundle row, without its surrogate id; \<open>s3_key\<close> is the pair of profile and version.\<close>

record bundle_row =
  b_profile :: uuid
  b_version :: int
  b_key :: "uuid \<times> int"
  b_size :: int
  b_sha256 :: str
  b_wrapped_dek :: str
  b_uploaded_by :: uuid

record access_role_row =
  ar_org :: uuid
  ar_name :: str
  ar_permissions :: permset

record domain_list_row =
  dl_org :: uuid
  dl_name :: str
  dl_body :: str

record audit_row =
  au_org :: uuid
  au_actor :: uuid
  au_action :: str
  au_target :: "uuid option"

record db =
  users :: "(uuid \<times> str) list" \<comment> \<open>id to email\<close>
  org_members :: "((uuid \<times> uuid) \<times> str) list"
  projects :: "(uuid \<times> project_row) list"
  project_grants :: "((uuid \<times> uuid) \<times> grant_row) list"
  profiles :: "(uuid \<times> profile_row) list"
  profile_grants :: "((uuid \<times> uuid) \<times> profile_grant_row) list"
  proxies :: "(uuid \<times> proxy_row) list"
  access_roles :: "(uuid \<times> access_role_row) list"
  domain_lists :: "(uuid \<times> domain_list_row) list"
  org_personas :: "((uuid \<times> str) \<times> (str \<times> uuid option)) list" \<comment> \<open>the persona and who added it\<close>
  profile_locks :: "(uuid \<times> lock_row) list"
  bundles :: "bundle_row list"
  org_generation :: "(uuid \<times> int) list"
  files :: "((uuid \<times> int) \<times> bytes) list" \<comment> \<open>the bundle directory\<close>
  audit_events :: "audit_row list"

text \<open>\<open>expires_at IS NULL OR expires_at > now()\<close>.\<close>

definition live :: "time \<Rightarrow> time option \<Rightarrow> bool" where
  "live now e = (case e of None \<Rightarrow> True | Some t \<Rightarrow> now < t)"

section \<open>The errors of a handler\<close>

datatype api_error =
    Unauthenticated
  | Denied perm
  | Refused str
  | NotFound
  | BadRequest str
  | Locked str str \<comment> \<open>the holder's email and machine name\<close>
  | Conflict str
  | Internal

definition http_status :: "api_error \<Rightarrow> nat" where
  "http_status e =
     (case e of Unauthenticated \<Rightarrow> 401 | Denied _ \<Rightarrow> 403 | Refused _ \<Rightarrow> 403 | NotFound \<Rightarrow> 404
      | BadRequest _ \<Rightarrow> 400 | Locked _ _ \<Rightarrow> 409 | Conflict _ \<Rightarrow> 409 | Internal \<Rightarrow> 500)"

datatype guard_error = NotAMember | NoSuchProject | GuardDenied perm

definition api_error_of :: "guard_error \<Rightarrow> api_error" where
  "api_error_of e =
     (case e of GuardDenied p \<Rightarrow> Denied p | NoSuchProject \<Rightarrow> NotFound | NotAMember \<Rightarrow> NotFound)"

type_synonym 'a api_result = "api_error + 'a"

record caller =
  user_id :: uuid
  org_id :: uuid
  role :: org_role

text \<open>An audit row is appended on every path that asks for one; a failed write of it is
  logged and never changes the answer, so the model appends.\<close>

definition audit :: "caller \<Rightarrow> str \<Rightarrow> uuid option \<Rightarrow> db \<Rightarrow> db" where
  "audit c action target d =
     d\<lparr>audit_events := audit_events d @
       [\<lparr>au_org = org_id c, au_actor = user_id c, au_action = action, au_target = target\<rparr>]\<rparr>"

lemma audit_frame [simp]:
  "users (audit c a t d) = users d" "org_members (audit c a t d) = org_members d"
  "projects (audit c a t d) = projects d" "project_grants (audit c a t d) = project_grants d"
  "profiles (audit c a t d) = profiles d" "profile_grants (audit c a t d) = profile_grants d"
  "proxies (audit c a t d) = proxies d" "access_roles (audit c a t d) = access_roles d"
  "domain_lists (audit c a t d) = domain_lists d" "org_personas (audit c a t d) = org_personas d"
  "profile_locks (audit c a t d) = profile_locks d"
  "bundles (audit c a t d) = bundles d" "org_generation (audit c a t d) = org_generation d"
  "files (audit c a t d) = files d"
  by (simp_all add: audit_def)

definition implicit_permissions :: "caller \<Rightarrow> permset" where
  "implicit_permissions c = (if has_implicit_project_access (role c) then all_perms else NONE)"

definition parse_role :: "str \<Rightarrow> org_role option" where
  "parse_role s =
     (if s = ''owner'' then Some Owner
      else if s = ''admin'' then Some Admin
      else if s = ''manager'' then Some Manager
      else if s = ''member'' then Some Member
      else None)"

definition role_text :: "org_role \<Rightarrow> str" where
  "role_text r = (case r of Owner \<Rightarrow> ''owner'' | Admin \<Rightarrow> ''admin'' | Manager \<Rightarrow> ''manager'' | Member \<Rightarrow> ''member'')"

interpretation role_codec: codec role_text parse_role "\<lambda>_. True"
  by unfold_locales (auto simp: role_text_def parse_role_def split: org_role.splits)

section \<open>Tables\<close>

text \<open>An upsert and a delete of one row, and what a later lookup returns.\<close>

lemma lookup_update: "map_of (AList.update k v t) k' = (if k' = k then Some v else map_of t k')"
  by (simp add: update_conv')

lemma lookup_delete: "map_of (AList.delete k t) k' = (if k' = k then None else map_of t k')"
  by (simp add: delete_conv')

lemma lookup_filter:
  "map_of (List.filter (\<lambda>(k, v). P k) t) k = (if P k then map_of t k else None)"
  by (induction t) auto

lemma map_of_adjust: "map_of (map (\<lambda>(k, r). (k, g k r)) t) k = map_option (g k) (map_of t k)"
  by (induction t) auto

lemmas table_simps = lookup_update lookup_delete lookup_filter

end
