(* ===== verification/Guard.thy ===== *)
theory Guard
  imports Server_Db
begin

text \<open>
  \<open>server/src/rbac_guard.rs\<close>: resolving what a user may do against the tables, and the
  handlers that write grants (\<open>share_profile\<close>, \<open>revoke_share\<close> of \<open>server/src/shares.rs\<close>;
  \<open>grant_access\<close>, \<open>revoke_access\<close>, \<open>may_remove\<close> of \<open>server/src/api.rs\<close>). A query with a
  join is a lookup in each of its tables; a row that the join needs and does not find
  makes the result empty.
\<close>

section \<open>Resolving permissions\<close>

text \<open>The live grant row of a user on a project, as the \<open>LEFT JOIN\<close> reads it.\<close>

definition live_grant :: "db \<Rightarrow> time \<Rightarrow> uuid \<Rightarrow> uuid \<Rightarrow> permset option" where
  "live_grant d now user project =
     (case map_of (project_grants d) (project, user) of
        Some g \<Rightarrow> if live now (g_expires_at g) then Some (g_permissions g) else None
      | None \<Rightarrow> None)"

definition permissions_for :: "db \<Rightarrow> time \<Rightarrow> uuid \<Rightarrow> uuid \<Rightarrow> guard_error + permset" where
  "permissions_for d now user project =
     (case map_of (projects d) project of
        None \<Rightarrow> Inr NONE
      | Some p \<Rightarrow>
          if pr_deleted p then Inr NONE
          else (case map_of (org_members d) (pr_org p, user) of
              None \<Rightarrow> Inr NONE
            | Some r \<Rightarrow> (case parse_role r of
                  None \<Rightarrow> Inl NotAMember
                | Some r' \<Rightarrow> Inr (effective r' (live_grant d now user project)))))"

definition permissions_for_profile :: "db \<Rightarrow> time \<Rightarrow> uuid \<Rightarrow> uuid \<Rightarrow> guard_error + permset" where
  "permissions_for_profile d now user profile =
     (case map_of (profiles d) profile of
        None \<Rightarrow> Inr NONE
      | Some f \<Rightarrow>
          if f_deleted f then Inr NONE
          else (case permissions_for d now user (f_project f) of
              Inl e \<Rightarrow> Inl e
            | Inr from_project \<Rightarrow>
                (case map_of (profile_grants d) (profile, user) of
                   Some g \<Rightarrow>
                     if live now (pg_expires_at g) then Inr (from_project OR pg_permissions g)
                     else Inr from_project
                 | None \<Rightarrow> Inr from_project)))"

definition require :: "db \<Rightarrow> time \<Rightarrow> uuid \<Rightarrow> uuid \<Rightarrow> perm \<Rightarrow> guard_error + permset" where
  "require d now user project p =
     (case permissions_for d now user project of
        Inl e \<Rightarrow> Inl e
      | Inr perms \<Rightarrow>
          if perms = NONE then Inl NoSuchProject
          else if \<not> has perms p then Inl (GuardDenied p)
          else Inr perms)"

definition holds_somewhere :: "db \<Rightarrow> time \<Rightarrow> uuid \<Rightarrow> uuid \<Rightarrow> org_role \<Rightarrow> perm \<Rightarrow> bool" where
  "holds_somewhere d now user org r p =
     (if has_implicit_project_access r then True
      else list_ex (\<lambda>((project, u), g).
             u = user
             \<and> (case map_of (projects d) project of
                   None \<Rightarrow> False
                 | Some q \<Rightarrow> pr_org q = org \<and> \<not> pr_deleted q)
             \<and> live now (g_expires_at g)
             \<and> has (effective r (Some (g_permissions g))) p) (project_grants d))"

definition may_add_proxies :: "db \<Rightarrow> time \<Rightarrow> uuid \<Rightarrow> uuid \<Rightarrow> org_role \<Rightarrow> bool" where
  "may_add_proxies d now user org r = holds_somewhere d now user org r EditProxy"

datatype proxy_change = Allowed | NotTheirs | NoLongerPermitted

definition proxy_change :: "bool \<Rightarrow> bool \<Rightarrow> bool \<Rightarrow> proxy_change" where
  "proxy_change implicit mine may_add =
     (if implicit then Allowed
      else if \<not> mine then NotTheirs
      else if may_add then Allowed
      else NoLongerPermitted)"

definition may_change_proxy ::
    "db \<Rightarrow> time \<Rightarrow> uuid \<Rightarrow> uuid \<Rightarrow> org_role \<Rightarrow> uuid \<Rightarrow> proxy_change option" where
  "may_change_proxy d now user org r proxy =
     (case map_of (proxies d) proxy of
        None \<Rightarrow> None
      | Some x \<Rightarrow>
          if x_org x \<noteq> org \<or> x_deleted x then None
          else (let implicit = has_implicit_project_access r;
                    mine = x_created_by x = Some user;
                    may_add = \<not> implicit \<and> mine \<and> may_add_proxies d now user org r
                in Some (proxy_change implicit mine may_add)))"

definition may_remove :: "org_role \<Rightarrow> org_role \<Rightarrow> unit api_result" where
  "may_remove c target =
     (if target = Owner then Inl (BadRequest ''the owner cannot be removed from the organisation'')
      else if c = Owner then Inr ()
      else if c = Admin \<and> target = Admin then Inl (Denied ManageAccess)
      else if c = Admin then Inr ()
      else Inl (Denied ManageAccess))"

text \<open>A handler's \<open>?\<close> on a guard result.\<close>

definition guarded :: "guard_error + 'a \<Rightarrow> 'a api_result" where
  "guarded r = (case r of Inl e \<Rightarrow> Inl (api_error_of e) | Inr x \<Rightarrow> Inr x)"

lemma guarded_Inr [simp]: "guarded r = Inr x \<longleftrightarrow> r = Inr x"
  by (cases r) (auto simp: guarded_def)

lemma guarded_simps: "guarded (Inr x) = Inr x" "guarded (Inl e) = Inl (api_error_of e)"
  by (auto simp: guarded_def)

section \<open>Sharing one profile\<close>

record share_request =
  sr_user :: uuid
  sr_permissions :: "perm list"
  sr_wrapped_key :: str
  sr_wrapped_proxy_key :: "str option"
  sr_expires_at :: "time option"

text \<open>
  \<open>decode64\<close> is the \<open>base64\<close> crate's standard decoder. The answer of the handler is the
  capped mask; the database is unchanged on every error. A recipient who is no user fails the
  insert, whose column refers to the users.
\<close>

definition share_profile ::
    "(str \<Rightarrow> bytes option) \<Rightarrow> db \<Rightarrow> time \<Rightarrow> caller \<Rightarrow> uuid \<Rightarrow> share_request \<Rightarrow> db \<times> permset api_result" where
  "share_profile decode64 d now c profile req =
     (case guarded (permissions_for_profile d now (user_id c) profile) of
        Inl e \<Rightarrow> (d, Inl e)
      | Inr perms \<Rightarrow>
          if \<not> has perms ManageAccess then (d, Inl (Denied ManageAccess))
          else if sr_user req = user_id c then
            (d, Inl (BadRequest ''that is your own account; you already have this profile''))
          else (case decode64 (sr_wrapped_key req) of
              None \<Rightarrow> (d, Inl (BadRequest ''wrapped_key is not base64''))
            | Some wrapped_key \<Rightarrow>
                if wrapped_key = [] then
                  (d, Inl (BadRequest ''a share with no key would give access to a profile that cannot be opened''))
                else (case (case sr_wrapped_proxy_key req of
                          Some v \<Rightarrow> if v = [] then Inr None
                             else (case decode64 v of
                                 None \<Rightarrow> Inl (BadRequest ''wrapped_proxy_key is not base64'')
                               | Some b \<Rightarrow> Inr (Some b))
                        | None \<Rightarrow> Inr None) of
                    Inl e \<Rightarrow> (d, Inl e)
                  | Inr wrapped_proxy_key \<Rightarrow>
                      (let requested = from_iter (sr_permissions req);
                           capped = requested AND perms
                       in if \<not> has capped View then
                            (d, Inl (BadRequest ''a share must at least allow seeing the profile''))
                          else if map_of (users d) (sr_user req) = None then (d, Inl Internal)
                          else
                            (audit c ''profile.share'' (Some profile) (d\<lparr>profile_grants := AList.update (profile, sr_user req)
                                 \<lparr>pg_permissions = capped, pg_granted_by = user_id c,
                                  pg_expires_at = sr_expires_at req, pg_wrapped_key = wrapped_key,
                                  pg_wrapped_proxy_key = wrapped_proxy_key\<rparr> (profile_grants d)\<rparr>),
                             Inr capped)))))"

definition revoke_share :: "db \<Rightarrow> time \<Rightarrow> caller \<Rightarrow> uuid \<Rightarrow> uuid \<Rightarrow> db \<times> unit api_result" where
  "revoke_share d now c profile user =
     (case guarded (permissions_for_profile d now (user_id c) profile) of
        Inl e \<Rightarrow> (d, Inl e)
      | Inr perms \<Rightarrow>
          if \<not> has perms ManageAccess then (d, Inl (Denied ManageAccess))
          else
            (audit c ''profile.unshare'' (Some profile)
              (d\<lparr>profile_grants := AList.delete (profile, user) (profile_grants d),
                 profile_locks := List.filter (\<lambda>(f, l). \<not> (f = profile \<and> l_user l = user)) (profile_locks d)\<rparr>),
             Inr ()))"

section \<open>Granting access to a project\<close>

record grant_request =
  gr_user :: uuid
  gr_permissions :: "perm list"
  gr_expires_at :: "time option"
  gr_domain_lists :: "uuid list option"
  gr_access_role :: "uuid option option" \<comment> \<open>absent, null, or an id\<close>

text \<open>The role of the recipient in the organisation the project belongs to.\<close>

definition target_role :: "db \<Rightarrow> uuid \<Rightarrow> uuid \<Rightarrow> str option" where
  "target_role d user project =
     (case map_of (projects d) project of
        None \<Rightarrow> None
      | Some p \<Rightarrow> map_of (org_members d) (pr_org p, user))"

definition grant_link :: "db \<Rightarrow> uuid \<Rightarrow> grant_request \<Rightarrow> uuid option" where
  "grant_link d project req =
     (case gr_access_role req of
        Some link \<Rightarrow> link
      | None \<Rightarrow> (case map_of (project_grants d) (project, gr_user req) of
            None \<Rightarrow> None
          | Some g \<Rightarrow> g_access_role g))"

definition known_lists :: "db \<Rightarrow> uuid \<Rightarrow> uuid list \<Rightarrow> uuid list" where
  "known_lists d org ids = map fst (List.filter (\<lambda>(i, l). dl_org l = org \<and> i \<in> set ids) (domain_lists d))"

definition grant_access ::
    "db \<Rightarrow> time \<Rightarrow> caller \<Rightarrow> uuid \<Rightarrow> grant_request \<Rightarrow> db \<times> permset api_result" where
  "grant_access d now c project req =
     (case guarded (require d now (user_id c) project ManageAccess) of
        Inl e \<Rightarrow> (d, Inl e)
      | Inr _ \<Rightarrow>
          (case target_role d (gr_user req) project of
             None \<Rightarrow> (d, Inl (BadRequest ''that user is not a member of this organisation''))
           | Some r \<Rightarrow>
               (case parse_role r of
                  None \<Rightarrow> (d, Inl NotFound)
                | Some r' \<Rightarrow>
                    (case (case grant_link d project req of
                             Some i \<Rightarrow> (case map_of (access_roles d) i of
                                 Some ar \<Rightarrow>
                                   if ar_org ar = org_id c then Inr (ar_permissions ar)
                                   else Inl (BadRequest ''that role does not exist in this organisation'')
                               | None \<Rightarrow> Inl (BadRequest ''that role does not exist in this organisation''))
                           | None \<Rightarrow> Inr (from_iter (gr_permissions req))) of
                       Inl e \<Rightarrow> (d, Inl e)
                     | Inr requested \<Rightarrow>
                         (let capped = intersect requested (role_ceiling r')
                          in (case (case gr_domain_lists req of
                                      None \<Rightarrow> Inr None
                                    | Some ids \<Rightarrow>
                                        if ids = [] then Inr (Some [])
                                        else if length (known_lists d (org_id c) ids) \<noteq> length ids then
                                          Inl (BadRequest ''one of the domain lists does not exist in this organisation'')
                                        else Inr (Some (known_lists d (org_id c) ids))) of
                                Inl e \<Rightarrow> (d, Inl e)
                              | Inr ls \<Rightarrow>
                                  (let kept = (case map_of (project_grants d) (project, gr_user req) of
                                         None \<Rightarrow> [] | Some g \<Rightarrow> g_domain_lists g)
                                   in (audit c ''access.grant'' (Some project) (d\<lparr>project_grants := AList.update (project, gr_user req)
                                           \<lparr>g_permissions = capped, g_granted_by = user_id c,
                                            g_expires_at = gr_expires_at req,
                                            g_domain_lists = (case ls of None \<Rightarrow> kept | Some l \<Rightarrow> l),
                                            g_access_role = grant_link d project req\<rparr>
                                           (project_grants d)\<rparr>),
                                       Inr capped))))))))"

definition revoke_access :: "db \<Rightarrow> time \<Rightarrow> caller \<Rightarrow> uuid \<Rightarrow> uuid \<Rightarrow> db \<times> unit api_result" where
  "revoke_access d now c project user =
     (case guarded (require d now (user_id c) project ManageAccess) of
        Inl e \<Rightarrow> (d, Inl e)
      | Inr _ \<Rightarrow>
          (audit c ''access.revoke'' (Some project)
            (d\<lparr>project_grants := AList.delete (project, user) (project_grants d),
               profile_locks := List.filter (\<lambda>(f, l).
                 \<not> (l_user l = user
                    \<and> (case map_of (profiles d) f of None \<Rightarrow> False | Some p \<Rightarrow> f_project p = project)))
                 (profile_locks d)\<rparr>),
           Inr ()))"


section \<open>What the resolved set can hold\<close>

lemma permissions_for_cases:
  assumes "permissions_for d now user project = Inr s" and "s \<noteq> NONE"
  obtains p r r' where "map_of (projects d) project = Some p" "\<not> pr_deleted p"
    "map_of (org_members d) (pr_org p, user) = Some r" "parse_role r = Some r'"
    "s = effective r' (live_grant d now user project)"
  using assms unfolding permissions_for_def by (auto split: option.splits if_splits)

lemma permissions_for_frame:
  "projects d' = projects d \<Longrightarrow> org_members d' = org_members d \<Longrightarrow>
   project_grants d' = project_grants d \<Longrightarrow>
   permissions_for d' now user project = permissions_for d now user project"
  by (auto simp: permissions_for_def live_grant_def split: option.split)

lemma permissions_for_profile_frame:
  assumes "projects d' = projects d" and "org_members d' = org_members d"
    and "project_grants d' = project_grants d" and "profiles d' = profiles d"
    and "profile_grants d' = profile_grants d"
  shows "permissions_for_profile d' now user profile = permissions_for_profile d now user profile"
  unfolding permissions_for_profile_def assms(4,5) permissions_for_frame [OF assms(1-3)] ..

lemma has_not_NONE: "has s p \<Longrightarrow> s \<noteq> NONE"
  by auto

text \<open>
  No grant on a project, however it got into the table, lets a plain member manage
  access to it: what the guard resolves for a member of the organisation never holds
  \<open>ManageAccess\<close>.
\<close>

theorem member_never_manages_project:
  assumes "permissions_for d now user project = Inr s"
    and "map_of (projects d) project = Some p"
    and "map_of (org_members d) (pr_org p, user) = Some (role_text Member)"
  shows "\<not> has s ManageAccess"
proof
  assume "has s ManageAccess"
  then have "s \<noteq> NONE" by (rule has_not_NONE)
  with assms(1) obtain p' r r' where "map_of (projects d) project = Some p'"
    and "map_of (org_members d) (pr_org p', user) = Some r" and "parse_role r = Some r'"
    and "s = effective r' (live_grant d now user project)"
    by (rule permissions_for_cases)
  with assms(2,3) have "s = effective Member (live_grant d now user project)"
    using role_codec.dec_enc [of Member] by auto
  with \<open>has s ManageAccess\<close> show False
    by (simp add: effective_member_no_manage)
qed

text \<open>A small organisation for the witnesses: user 3 manages project 10, user 2 is a member.\<close>

definition demo_project :: project_row where
  "demo_project = \<lparr>pr_org = 7, pr_name = ''p'', pr_description = [], pr_color = None, pr_deleted = False\<rparr>"

definition demo_profile :: profile_row where
  "demo_profile = \<lparr>f_org = 7, f_project = 10, f_name = ''shop'', f_notes = [], f_tags = [], f_status = [], f_persona_id = ''win'',
     f_fp_seed = [0, 0, 0, 0, 0, 0, 0, 1], f_timezone = None, f_languages = [], f_start_urls = [],
     f_overrides = ''{}'', f_proxy_id = Some 30, f_wrapped_cookie_key = None,
     f_current_version = 0, f_deleted = False\<rparr>"

definition demo_grant :: "permset \<Rightarrow> grant_row" where
  "demo_grant s = \<lparr>g_permissions = s, g_granted_by = 0, g_expires_at = None,
     g_domain_lists = [], g_access_role = None\<rparr>"

definition demo_proxy :: proxy_row where
  "demo_proxy = \<lparr>x_org = 7, x_project = None, x_name = ''x'', x_kind = ''http'', x_host = ''h'', x_port = 8080,
     x_credentials_enc = Some [1], x_wrapped_dek = Some [2], x_rotate_url_enc = None, x_created_by = Some 3, x_deleted = False\<rparr>"

definition demo_db :: db where
  "demo_db = \<lparr>users = [(3, ''a@x''), (2, ''b@x'')],
     org_members = [((7, 3), ''manager''), ((7, 2), ''member'')],
     projects = [(10, demo_project)],
     project_grants = [((10, 3), demo_grant all_perms), ((10, 2), demo_grant all_perms)],
     profiles = [(20, demo_profile)], profile_grants = [], proxies = [(30, demo_proxy)],
     access_roles = [], domain_lists = [], org_personas = [], profile_locks = [], bundles = [],
     org_generation = [(7, 1)], files = [], audit_events = []\<rparr>"

lemmas demo_defs = demo_db_def demo_project_def demo_profile_def demo_grant_def demo_proxy_def

lemma demo_permissions:
  "permissions_for demo_db now 3 10 = Inr all_perms"
  "permissions_for demo_db now 2 10 = Inr (intersect all_perms (role_ceiling Member))"
  "permissions_for_profile demo_db now 3 20 = Inr all_perms"
proof -
  have full: "intersect all_perms (role_ceiling Manager) = all_perms"
    by (simp add: intersect_def role_ceiling_def)
  show "permissions_for demo_db now 3 10 = Inr all_perms"
    "permissions_for demo_db now 2 10 = Inr (intersect all_perms (role_ceiling Member))"
    "permissions_for_profile demo_db now 3 20 = Inr all_perms"
    by (simp_all add: permissions_for_profile_def permissions_for_def live_grant_def live_def
        demo_defs parse_role_def effective_def has_implicit_project_access_def full)
qed

lemma demo_lookup:
  "map_of (profiles demo_db) 20 = Some demo_profile" "f_project demo_profile = 10"
  "map_of (projects demo_db) 10 = Some demo_project"
  by (simp_all add: demo_db_def demo_profile_def)

theorem member_never_manages_project_witness:
  "\<not> has (intersect all_perms (role_ceiling Member)) ManageAccess"
  by (rule member_never_manages_project [OF demo_permissions(2) [of 0], where p = demo_project])
    (simp_all add: demo_defs role_text_def)

section \<open>What a share gives\<close>

lemma share_profile_Inr:
  assumes "share_profile decode64 d now c profile req = (d', Inr capped)"
  obtains perms k pk where
    "permissions_for_profile d now (user_id c) profile = Inr perms" "has perms ManageAccess"
    "capped = from_iter (sr_permissions req) AND perms" "has capped View" "k \<noteq> []"
    "d' = audit c ''profile.share'' (Some profile) (d\<lparr>profile_grants := AList.update (profile, sr_user req)
       \<lparr>pg_permissions = capped, pg_granted_by = user_id c, pg_expires_at = sr_expires_at req,
        pg_wrapped_key = k, pg_wrapped_proxy_key = pk\<rparr> (profile_grants d)\<rparr>)"
  using assms unfolding share_profile_def Let_def
  by (auto split: sum.splits if_splits option.splits)

text \<open>
  C2. A share gives away no more than the sharer holds, and exactly what was asked of
  that: while it is live, the recipient's permissions on the profile are those of the
  project together with the capped mask, with no ceiling for the recipient's role. The
  comment in \<open>permissions_for_profile\<close> says the direct grant is still capped by the role
  ceiling; the code does not cap it.
\<close>

theorem share_gives_exactly_the_capped_mask:
  assumes "share_profile decode64 d now c profile req = (d', Inr capped)"
    and "live later (sr_expires_at req)"
    and "permissions_for_profile d now (user_id c) profile = Inr perms"
    and "map_of (profiles d) profile = Some f"
    and "permissions_for d later (sr_user req) (f_project f) = Inr from_project"
  shows "perms_of capped = set (sr_permissions req) \<inter> perms_of perms
    \<and> permissions_for_profile d' later (sr_user req) profile = Inr (from_project OR capped)"
proof -
  from assms(1) obtain perms' k pk where
    p: "permissions_for_profile d now (user_id c) profile = Inr perms'" "has perms' ManageAccess"
      "capped = from_iter (sr_permissions req) AND perms'"
      "d' = audit c ''profile.share'' (Some profile) (d\<lparr>profile_grants := AList.update (profile, sr_user req)
         \<lparr>pg_permissions = capped, pg_granted_by = user_id c, pg_expires_at = sr_expires_at req,
          pg_wrapped_key = k, pg_wrapped_proxy_key = pk\<rparr> (profile_grants d)\<rparr>)"
    by (rule share_profile_Inr)
  have eq: "perms' = perms" using p(1) assms(3) by simp
  have "\<not> f_deleted f"
    using p(1,2) assms(4) by (auto simp: permissions_for_profile_def split: if_splits)
  moreover have "permissions_for d' later (sr_user req) (f_project f) = Inr from_project"
    using assms(5) by (subst permissions_for_frame [of d' d]) (simp_all add: p(4))
  ultimately have "permissions_for_profile d' later (sr_user req) profile = Inr (from_project OR capped)"
    using assms(2,4) by (simp add: permissions_for_profile_def p(4) table_simps)
  moreover have "perms_of capped = set (sr_permissions req) \<inter> perms_of perms"
    by (auto simp: p(3) eq has_and)
  ultimately show ?thesis by simp
qed

definition demo_share :: share_request where
  "demo_share = \<lparr>sr_user = 2, sr_permissions = [View, ManageAccess], sr_wrapped_key = ''AA=='',
     sr_wrapped_proxy_key = None, sr_expires_at = None\<rparr>"

definition demo_caller :: caller where
  "demo_caller = \<lparr>user_id = 3, org_id = 7, role = Manager\<rparr>"

definition demo_decode64 :: "str \<Rightarrow> bytes option" where
  "demo_decode64 s = (if s = [] then Some [] else Some [0])"

text \<open>The witness is the divergence: a manager shares a profile, and a plain member manages it.\<close>

theorem share_gives_exactly_the_capped_mask_witness:
  "\<exists>d' s. share_profile demo_decode64 demo_db 0 demo_caller 20 demo_share
       = (d', Inr (from_iter [View, ManageAccess] AND all_perms))
     \<and> map_of (org_members d') (7, 2) = Some ''member''
     \<and> permissions_for_profile d' 5 2 20 = Inr s \<and> has s ManageAccess"
proof -
  have "user_id demo_caller = 3" "sr_user demo_share = 2" "sr_permissions demo_share = [View, ManageAccess]"
    "sr_wrapped_proxy_key demo_share = None" "demo_decode64 (sr_wrapped_key demo_share) = Some [0]"
    "map_of (users demo_db) 2 = Some ''b@x''"
    by (simp_all add: demo_caller_def demo_share_def demo_decode64_def demo_db_def)
  then obtain d' where share: "share_profile demo_decode64 demo_db 0 demo_caller 20 demo_share
       = (d', Inr (from_iter [View, ManageAccess] AND all_perms))"
    and mem: "org_members d' = org_members demo_db"
    by (simp add: share_profile_def demo_permissions guarded_simps has_and Let_def)
  have "permissions_for_profile d' 5 (sr_user demo_share) 20
      = Inr (intersect all_perms (role_ceiling Member) OR (from_iter [View, ManageAccess] AND all_perms))"
  proof (rule share_gives_exactly_the_capped_mask [OF share _ _ demo_lookup(1), THEN conjunct2])
    show "live 5 (sr_expires_at demo_share)"
      by (simp add: live_def demo_share_def)
    show "permissions_for_profile demo_db 0 (user_id demo_caller) 20 = Inr all_perms"
      by (simp add: demo_caller_def demo_permissions)
    show "permissions_for demo_db 5 (sr_user demo_share) (f_project demo_profile)
        = Inr (intersect all_perms (role_ceiling Member))"
      by (simp add: demo_share_def demo_lookup demo_permissions)
  qed
  then show ?thesis
    using share mem by (auto simp: demo_share_def has_or has_and demo_db_def)
qed

section \<open>Revocation\<close>

lemma guard_result_handler: "guarded r = Inl e \<Longrightarrow> \<exists>g. r = Inl g \<and> e = api_error_of g"
  by (cases r) (auto simp: guarded_def)

text \<open>
  Revoking access to a project takes effect at once: whoever is not owner or admin
  resolves to nothing on the project from then on, and holds no lock on any of its
  profiles.
\<close>

theorem revoke_access_takes_everything:
  assumes "revoke_access d now c project user = (d', Inr ())"
    and "map_of (projects d) project = Some p"
    and "map_of (org_members d) (pr_org p, user) = Some (role_text r)"
    and "\<not> has_implicit_project_access r"
  shows "permissions_for d' later user project = Inr NONE
    \<and> (\<forall>(f, l) \<in> set (profile_locks d').
          \<forall>q. map_of (profiles d') f = Some q \<longrightarrow> f_project q = project \<longrightarrow> l_user l \<noteq> user)"
proof -
  have d': "d' = audit c ''access.revoke'' (Some project)
      (d\<lparr>project_grants := AList.delete (project, user) (project_grants d),
         profile_locks := List.filter (\<lambda>(f, l).
           \<not> (l_user l = user
              \<and> (case map_of (profiles d) f of None \<Rightarrow> False | Some p \<Rightarrow> f_project p = project)))
           (profile_locks d)\<rparr>)"
    using assms(1) by (auto simp: revoke_access_def split: sum.splits)
  have "live_grant d' later user project = None"
    by (simp add: live_grant_def d' table_simps)
  then have "permissions_for d' later user project = Inr NONE"
    using assms(2-4) role_codec.dec_enc [of r]
    by (auto simp: permissions_for_def effective_def d')
  then show ?thesis by (auto simp: d')
qed

theorem revoke_access_takes_everything_witness:
  "permissions_for (fst (revoke_access demo_db 0 demo_caller 10 2)) 9 2 10 = Inr NONE"
proof -
  have "\<exists>d'. revoke_access demo_db 0 demo_caller 10 2 = (d', Inr ())"
    by (simp add: revoke_access_def require_def demo_caller_def demo_permissions guarded_simps
        has_not_NONE [OF has_all])
  then obtain d' where rev: "revoke_access demo_db 0 demo_caller 10 2 = (d', Inr ())" ..
  have "permissions_for d' 9 2 10 = Inr NONE"
    by (rule revoke_access_takes_everything [OF rev, where p = demo_project and r = Member, THEN conjunct1])
      (simp_all add: demo_defs role_text_def has_implicit_project_access_def)
  then show ?thesis by (simp add: rev)
qed

end
