(* ===== verification/Persona_Seed.thy ===== *)
theory Persona_Seed
  imports Prelude "HOL-Library.Multiset"
begin

text \<open>
  The deterministic core of \<open>shared-rs/src/persona.rs\<close>: the SplitMix64 mixer and the
  per-purpose seed streams, the fingerprint seed in its hexadecimal, byte and \<open>i64\<close>
  forms (\<open>mod seed\<close>), the brand list Chrome derives from its major version, the Windows
  release names and the heap limits per memory size. Machine integers keep their width:
  \<open>wrapping_add\<close> and \<open>wrapping_mul\<close> are the operations of \<open>64 word\<close>.
\<close>

unbundle bit_operations_syntax

section \<open>Seed streams\<close>

definition mix :: "u64 \<Rightarrow> u64" where
  "mix z0 =
     (let z1 = z0 + 0x9e3779b97f4a7c15;
          z2 = (z1 XOR drop_bit 30 z1) * 0xbf58476d1ce4e5b9;
          z3 = (z2 XOR drop_bit 27 z2) * 0x94d049bb133111eb
      in z3 XOR drop_bit 31 z3)"

definition sub_seed_state :: "u64 \<Rightarrow> str \<Rightarrow> u64" where
  "sub_seed_state seed purpose = fold (\<lambda>c h. mix (h XOR word_of_nat (code c))) purpose seed"

definition sub_seed :: "u64 \<Rightarrow> str \<Rightarrow> u32" where
  "sub_seed seed purpose = ucast (mix (sub_seed_state seed purpose) AND 0x7fffffff)"

section \<open>The seed's representations\<close>

definition to_hex :: "u64 \<Rightarrow> str" where
  "to_hex v = hex_digits 16 (unat v)"

definition from_hex :: "str \<Rightarrow> u64 option" where
  "from_hex s =
     (if length s \<noteq> 16 \<or> \<not> list_all is_hexdigit s then None
      else map_option word_of_nat (parse_hex 18446744073709551615 s))"

definition to_bytes :: "u64 \<Rightarrow> u8 list" where
  "to_bytes v = be_bytes 8 (unat v)"

definition from_bytes :: "u8 list \<Rightarrow> u64 option" where
  "from_bytes b = (if length b = 8 then Some (word_of_nat (be_value 0 b)) else None)"

text \<open>The \<open>i64\<close> of the local store is read as an integer.\<close>

definition to_i64 :: "u64 \<Rightarrow> int" where
  "to_i64 v = sint v"

definition from_i64 :: "int \<Rightarrow> u64" where
  "from_i64 i = word_of_int i"

section \<open>Brands, releases and limits\<close>

definition greasey_chars :: "str list" where
  "greasey_chars = ['' '', ''('', '':'', ''-'', ''.'', ''/'', '')'', '';'', ''='', ''?'', ''_'']"

definition greased_versions :: "str list" where
  "greased_versions = [''8'', ''99'', ''24'']"

definition brand_orders :: "nat list list" where
  "brand_orders = [[0, 1, 2], [0, 2, 1], [1, 0, 2], [1, 2, 0], [2, 0, 1], [2, 1, 0]]"

definition chrome_brand_list :: "nat \<Rightarrow> str \<Rightarrow> bool \<Rightarrow> str list" where
  "chrome_brand_list major version full =
     (let grease_brand = ''Not'' @ greasey_chars ! (major mod 11) @ ''A''
              @ greasey_chars ! ((major + 1) mod 11) @ ''Brand'';
          v = greased_versions ! (major mod 3);
          grease_version = (if full then v @ ''.0.0.0'' else v);
          listed = [grease_brand @ ''/'' @ grease_version, ''Chromium/'' @ version,
                    ''Google Chrome/'' @ version];
          order = brand_orders ! (major mod 6)
      in fold (\<lambda>i out. out[order ! i := listed ! i]) [0, 1, 2] [[], [], []])"

definition windows_release :: "str \<Rightarrow> str option" where
  "windows_release pv =
     (case split_on CHR ''.'' pv of
        [] \<Rightarrow> None
      | p # ps \<Rightarrow> (case parse_u32 (trim p) of
            None \<Rightarrow> None
          | Some major \<Rightarrow>
              (let minor = (case ps of [] \<Rightarrow> 0 | m # _ \<Rightarrow>
                     (case parse_u32 (trim m) of None \<Rightarrow> 0 | Some n \<Rightarrow> n))
               in if major = 0 \<and> minor = 1 then Some ''7''
                  else if major = 0 \<and> minor = 2 then Some ''8''
                  else if major = 0 \<and> minor = 3 then Some ''8.1''
                  else if 1 \<le> major \<and> major \<le> 10 then Some ''10''
                  else if 13 \<le> major then Some ''11''
                  else None)))"

definition windows_build :: "nat \<Rightarrow> str" where
  "windows_build major =
     (if major = 1 then ''1507'' else if major = 2 then ''1511'' else if major = 3 then ''1607''
      else if major = 4 then ''1703'' else if major = 5 then ''1709'' else if major = 6 then ''1803''
      else if major = 7 then ''1809'' else if major = 8 then ''1903/1909''
      else if major = 9 \<or> major = 10 then ''2004+'' else '''')"

definition windows_release_name :: "str \<Rightarrow> str option" where
  "windows_release_name pv =
     (case windows_release pv of
        None \<Rightarrow> None
      | Some release \<Rightarrow> (case parse_u32 (trim (hd (split_on CHR ''.'' pv))) of
            None \<Rightarrow> None
          | Some major \<Rightarrow>
              (let build = windows_build major
               in Some (if build = [] then ''Windows '' @ release
                        else ''Windows '' @ release @ '' '' @ build))))"

definition display_version :: "str \<Rightarrow> str \<Rightarrow> str" where
  "display_version name version =
     (if name = ''Windows'' \<and> CHR ''.'' \<in> set version
      then (case windows_release version of Some r \<Rightarrow> r | None \<Rightarrow> version)
      else version)"

definition js_heap_limit :: "nat \<Rightarrow> nat" where
  "js_heap_limit gb = (if gb \<le> 2 then 1073741824 else if gb \<le> 4 then 2197815296 else 4294705152)"

definition js_heap_limit_android :: "nat \<Rightarrow> nat" where
  "js_heap_limit_android gb =
     (if gb \<le> 2 then 1073741824 else if gb \<le> 4 then 2147483648 else 4294967296)"

section \<open>The mixer is a bijection\<close>

text \<open>
  \<open>z ^ (z >> k)\<close> is injective: the difference of two arguments with the same image equals
  itself shifted right, so all its bits vanish from the top down.
\<close>

lemma shift_fixpoint_zero:
  fixes x :: u64
  assumes "x = drop_bit k x" and "0 < k"
  shows "x = 0"
proof (rule ccontr)
  assume "x \<noteq> 0"
  then have "0 < unat x" by (simp add: unat_gt_0)
  have "unat x = unat x div 2 ^ k"
  proof -
    have "unat x = unat (drop_bit k x)"
      using assms(1) by (rule arg_cong)
    also have "\<dots> = drop_bit k (unat x)"
      by (rule unat_drop_bit_eq)
    also have "\<dots> = unat x div 2 ^ k"
      by (rule drop_bit_eq_div)
    finally show ?thesis .
  qed
  also have "\<dots> < unat x"
    using \<open>0 < unat x\<close> \<open>0 < k\<close> by (intro div_less_dividend one_less_power) auto
  finally show False by simp
qed

lemma xor_eq_zero: "a XOR b = 0 \<Longrightarrow> a = b" for a b :: u64
proof (rule bit_eqI)
  fix n
  assume "a XOR b = 0"
  then have "\<not> bit (a XOR b) n" by simp
  then show "bit a n = bit b n" by (simp add: bit_xor_iff)
qed

lemma xorshift_inject:
  fixes z w :: u64
  assumes "z XOR drop_bit k z = w XOR drop_bit k w" and "0 < k"
  shows "z = w"
proof -
  have "z XOR w = drop_bit k z XOR drop_bit k w"
  proof (rule bit_eqI)
    fix n
    have "bit (z XOR drop_bit k z) n = bit (w XOR drop_bit k w) n"
      using assms(1) by simp
    then show "bit (z XOR w) n = bit (drop_bit k z XOR drop_bit k w) n"
      by (auto simp: bit_xor_iff)
  qed
  also have "\<dots> = drop_bit k (z XOR w)"
    by (rule bit_eqI) (simp add: bit_drop_bit_eq bit_xor_iff)
  finally have "z XOR w = 0"
    using \<open>0 < k\<close> by (rule shift_fixpoint_zero)
  then show "z = w" by (rule xor_eq_zero)
qed

lemma odd_mult_inject:
  fixes a b c c' :: u64
  assumes "c' * c = 1" and "a * c = b * c"
  shows "a = b"
proof -
  have "a * c * c' = b * c * c'" using assms(2) by simp
  then show ?thesis using assms(1) by (simp add: mult.assoc mult.commute [of c])
qed

lemma mix_inject: "mix z = mix w \<Longrightarrow> z = w"
proof -
  assume eq: "mix z = mix w"
  define f1 :: "u64 \<Rightarrow> u64" where "f1 x = x + 0x9e3779b97f4a7c15" for x
  define f2 :: "u64 \<Rightarrow> u64" where "f2 x = (x XOR drop_bit 30 x) * 0xbf58476d1ce4e5b9" for x
  define f3 :: "u64 \<Rightarrow> u64" where "f3 x = (x XOR drop_bit 27 x) * 0x94d049bb133111eb" for x
  have inv2: "0x96de1b173f119089 * (0xbf58476d1ce4e5b9 :: u64) = 1" by simp
  have inv3: "0x319642b2d24d8ec3 * (0x94d049bb133111eb :: u64) = 1" by simp
  have "f3 (f2 (f1 z)) XOR drop_bit 31 (f3 (f2 (f1 z)))
      = f3 (f2 (f1 w)) XOR drop_bit 31 (f3 (f2 (f1 w)))"
    using eq unfolding mix_def f1_def f2_def f3_def Let_def .
  then have "f3 (f2 (f1 z)) = f3 (f2 (f1 w))"
    by (rule xorshift_inject) simp
  then have "f2 (f1 z) XOR drop_bit 27 (f2 (f1 z)) = f2 (f1 w) XOR drop_bit 27 (f2 (f1 w))"
    unfolding f3_def by (rule odd_mult_inject [OF inv3])
  then have "f2 (f1 z) = f2 (f1 w)"
    by (rule xorshift_inject) simp
  then have "f1 z XOR drop_bit 30 (f1 z) = f1 w XOR drop_bit 30 (f1 w)"
    unfolding f2_def by (rule odd_mult_inject [OF inv2])
  then have "f1 z = f1 w"
    by (rule xorshift_inject) simp
  then show "z = w" by (simp add: f1_def)
qed

lemma xor_right_inject: "a XOR c = b XOR c \<Longrightarrow> a = b" for a b c :: u64
proof (rule bit_eqI)
  fix n
  assume "a XOR c = b XOR c"
  then have "bit (a XOR c) n = bit (b XOR c) n" by simp
  then show "bit a n = bit b n" by (auto simp: bit_xor_iff)
qed

lemma sub_seed_state_inject:
  "sub_seed_state s p = sub_seed_state t p \<Longrightarrow> s = t"
proof (induction p arbitrary: s t)
  case Nil
  then show ?case by (simp add: sub_seed_state_def)
next
  case (Cons c p)
  have "sub_seed_state (mix (s XOR word_of_nat (code c))) p
      = sub_seed_state (mix (t XOR word_of_nat (code c))) p"
    using Cons.prems by (simp add: sub_seed_state_def)
  then have "mix (s XOR word_of_nat (code c)) = mix (t XOR word_of_nat (code c))"
    by (rule Cons.IH)
  then show ?case by (blast dest: mix_inject xor_right_inject)
qed

text \<open>
  For every purpose the derivation of a stream is injective in the profile seed: two
  profiles with different seeds never share the 64-bit state a noise seed is cut from,
  and the noise seed itself always fits the signed 32-bit integer the core reads.
\<close>

theorem seed_streams_injective_and_bounded:
  "(mix (sub_seed_state s p) = mix (sub_seed_state t p) \<longleftrightarrow> s = t)
   \<and> unat (sub_seed s p) < 2 ^ 31"
proof
  show "mix (sub_seed_state s p) = mix (sub_seed_state t p) \<longleftrightarrow> s = t"
    by (blast dest: mix_inject sub_seed_state_inject)
  have "mix (sub_seed_state s p) AND 0x7fffffff = take_bit 31 (mix (sub_seed_state s p))"
    by (simp add: take_bit_eq_mask mask_eq_exp_minus_1)
  then have "sub_seed s p = ucast (take_bit 31 (mix (sub_seed_state s p)))"
    by (simp add: sub_seed_def)
  also have "unat \<dots> < 2 ^ 31"
    by (simp add: unsigned_ucast_eq unsigned_take_bit_eq
        take_bit_nat_less_exp [of 31, simplified])
  finally show "unat (sub_seed s p) < 2 ^ 31" .
qed

section \<open>The seed survives every representation\<close>

lemma from_hex_to_hex: "from_hex (to_hex v) = Some v"
proof -
  have "unat v < 16 ^ 16"
    using unsigned_less [of v, where 'a = nat] by simp
  then show ?thesis
    by (simp add: from_hex_def to_hex_def hex_digits_hexdigits parse_hex_def Let_def
        unsigned_digits_hex hex_fold_digits)
qed

interpretation seed_hex: codec to_hex from_hex "\<lambda>_. True"
  by unfold_locales (rule from_hex_to_hex)

interpretation seed_bytes: codec to_bytes from_bytes "\<lambda>_. True"
proof
  fix v :: u64
  have "unat v < 256 ^ 8"
    using unsigned_less [of v, where 'a = nat] by simp
  then show "from_bytes (to_bytes v) = Some v"
    by (simp add: from_bytes_def to_bytes_def be_value_bytes)
qed

interpretation seed_i64: codec to_i64 "\<lambda>i. Some (from_i64 i)" "\<lambda>_. True"
  by unfold_locales (simp add: to_i64_def from_i64_def)

text \<open>
  One seed in three stores: the hexadecimal, byte and signed forms all read back to
  the seed they were written from, and no two seeds share a form in any of them, so a
  profile that crosses between the server, the local store and the agent keeps its
  machine.
\<close>

theorem seed_survives_every_store:
  "from_hex (to_hex v) = Some v \<and> from_bytes (to_bytes v) = Some v \<and> from_i64 (to_i64 v) = v
   \<and> (to_hex v = to_hex w \<longleftrightarrow> v = w) \<and> (to_bytes v = to_bytes w \<longleftrightarrow> v = w)"
  using seed_hex.dec_enc [of v] seed_bytes.dec_enc [of v] seed_i64.dec_enc [of v]
    seed_hex.enc_inject [of v w] seed_bytes.enc_inject [of v w]
  by auto

text \<open>A wire form of the wrong length or with a foreign character is refused.\<close>

lemma from_hex_refuses: "length s \<noteq> 16 \<or> \<not> list_all is_hexdigit s \<Longrightarrow> from_hex s = None"
  by (auto simp: from_hex_def)

section \<open>Brands\<close>

lemma brand_orders_perm: "o' \<in> set brand_orders \<Longrightarrow> \<exists>a b c. o' = [a, b, c] \<and> {a, b, c} = {0, 1, 2}"
  by (auto simp: brand_orders_def)

text \<open>
  Whatever the major version, the brand list is a permutation of exactly three
  entries: the greased brand, Chromium and Google Chrome, the last two with the version
  that was asked for. No entry is lost by the shuffle and none is left empty.
\<close>

lemma brand_list_permutation:
  "\<exists>grease. mset (chrome_brand_list major version full) =
     {#grease, ''Chromium/'' @ version, ''Google Chrome/'' @ version#}
   \<and> prefix ''Not'' grease"
proof -
  have "brand_orders ! (major mod 6) \<in> set brand_orders"
    by (rule nth_mem) (simp add: brand_orders_def)
  then have "brand_orders ! (major mod 6) \<in>
      {[0, 1, 2], [0, 2, 1], [1, 0, 2], [1, 2, 0], [2, 0, 1], [2, 1, 0]}"
    by (simp add: brand_orders_def)
  then show ?thesis
    unfolding chrome_brand_list_def Let_def
    by (elim insertE emptyE) (auto simp: numeral_2_eq_2 add_mset_commute)
qed

end
