(* ===== verification/Locks.thy ===== *)
theory Locks
  imports Guard Persona_Seed
begin

text \<open>
  The distributed lock and the bundle store of \<open>server/src/api.rs\<close>: \<open>acquire_lock\<close> with
  the launch spec it assembles, \<open>heartbeat\<close>, \<open>release_lock\<close>, \<open>upload_bundle\<close> and
  \<open>download_bundle\<close>, each a function of the tables, the clock and the request. \<open>h\<close> is
  \<open>auth::hash_token\<close> (SHA-256 of the raw token), \<open>hexsum\<close> the lower-case hexadecimal
  SHA-256 of a body; both come from the \<open>sha2\<close> crate and are arguments. One handler is one
  step: each of them takes effect in one statement or one transaction.

  The sentences of errors are shortened to the clause that names the reason.
\<close>

section \<open>The launch spec\<close>

record sealed_proxy =
  sp_id :: uuid
  sp_kind :: str
  sp_host :: str
  sp_port :: int
  sp_credentials_enc :: bytes
  sp_wrapped_dek :: bytes

record launch_spec =
  ls_profile_id :: uuid
  ls_name :: str
  ls_persona_id :: str
  ls_fp_seed :: str
  ls_timezone :: "str option"
  ls_languages :: "str list option"
  ls_overrides :: str
  ls_start_urls :: "str list"
  ls_domain_lists :: "(str \<times> str) list"
  ls_wrapped_cookie_key :: "str option"
  ls_key_generation :: "int option"
  ls_proxy :: sealed_proxy

definition live_proxy :: "db \<Rightarrow> profile_row \<Rightarrow> (uuid \<times> proxy_row) option" where
  "live_proxy d f =
     (case f_proxy_id f of None \<Rightarrow> None
      | Some i \<Rightarrow> (case map_of (proxies d) i of None \<Rightarrow> None
          | Some x \<Rightarrow> if x_deleted x then None else Some (i, x)))"

definition launch_spec_of :: "db \<Rightarrow> uuid \<Rightarrow> launch_spec api_result" where
  "launch_spec_of d profile =
     (case map_of (profiles d) profile of
        None \<Rightarrow> Inl NotFound
      | Some f \<Rightarrow>
          if f_deleted f then Inl NotFound
          else (case live_proxy d f of
              None \<Rightarrow> Inl (BadRequest ''this profile has no proxy'')
            | Some (px, x) \<Rightarrow>
                (case (x_credentials_enc x, x_wrapped_dek x) of
                   (Some cred, Some dek) \<Rightarrow>
                     (case from_bytes (f_fp_seed f) of
                        None \<Rightarrow> Inl Internal
                      | Some seed \<Rightarrow> Inr
                          \<lparr>ls_profile_id = profile, ls_name = f_name f, ls_persona_id = f_persona_id f,
                           ls_fp_seed = to_hex seed, ls_timezone = f_timezone f,
                           ls_languages = (if f_languages f = [] then None else Some (f_languages f)),
                           ls_overrides = f_overrides f, ls_start_urls = f_start_urls f,
                           ls_domain_lists = [],
                           ls_wrapped_cookie_key = map_option hex_of_bytes (f_wrapped_cookie_key f),
                           ls_key_generation = map_of (org_generation d) (f_org f),
                           ls_proxy = \<lparr>sp_id = px, sp_kind = x_kind x, sp_host = x_host x,
                             sp_port = x_port x mod 65536, sp_credentials_enc = cred, sp_wrapped_dek = dek\<rparr>\<rparr>)
                 | _ \<Rightarrow> Inl (BadRequest ''the proxy on this profile has no stored credentials''))))"

text \<open>\<open>collate\<close> is the database's collation as a sort key; the join does not ask for a live grant.\<close>

definition domain_lists_for ::
    "(str \<Rightarrow> nat) \<Rightarrow> db \<Rightarrow> uuid \<Rightarrow> uuid \<Rightarrow> (str \<times> str) list" where
  "domain_lists_for collate d user profile =
     (case map_of (profiles d) profile of
        None \<Rightarrow> []
      | Some f \<Rightarrow> (case map_of (project_grants d) (f_project f, user) of
            None \<Rightarrow> []
          | Some g \<Rightarrow>
              sort_key (\<lambda>(n, _). collate n)
                (map (\<lambda>(_, l). (dl_name l, dl_body l))
                  (List.filter (\<lambda>(i, _). i \<in> set (g_domain_lists g)) (domain_lists d)))))"

section \<open>Taking, renewing and releasing the lock\<close>

record lock_request =
  lr_machine_id :: str
  lr_machine_name :: str
  lr_force :: bool

record lock_response =
  re_lock_token :: str
  re_expires_at :: time
  re_restrictions :: launch_restrictions
  re_spec :: launch_spec

definition lock_ttl :: time where
  "lock_ttl = 90"

text \<open>The row the \<open>INSERT ... ON CONFLICT DO UPDATE ... WHERE\<close> leaves, if it wrote one.\<close>

definition takes_over :: "db \<Rightarrow> time \<Rightarrow> uuid \<Rightarrow> bool \<Rightarrow> bool" where
  "takes_over d now profile force =
     (case map_of (profile_locks d) profile of
        None \<Rightarrow> True
      | Some l \<Rightarrow> l_expires_at l \<le> now \<or> force)"

definition new_lock :: "(str \<Rightarrow> bytes) \<Rightarrow> time \<Rightarrow> caller \<Rightarrow> lock_request \<Rightarrow> str \<Rightarrow> lock_row" where
  "new_lock h now c req raw =
     \<lparr>l_user = user_id c, l_token_hash = h raw, l_machine_name = lr_machine_name req,
      l_machine_id = lr_machine_id req, l_expires_at = now + lock_ttl\<rparr>"

definition acquire_lock ::
    "(str \<Rightarrow> bytes) \<Rightarrow> (str \<Rightarrow> nat) \<Rightarrow> db \<Rightarrow> time \<Rightarrow> caller \<Rightarrow> uuid \<Rightarrow> lock_request \<Rightarrow> str
     \<Rightarrow> db \<times> lock_response api_result" where
  "acquire_lock h collate d now c profile req raw =
     (case guarded (permissions_for_profile d now (user_id c) profile) of
        Inl e \<Rightarrow> (d, Inl e)
      | Inr perms \<Rightarrow>
          if perms = NONE then (d, Inl NotFound)
          else if \<not> has perms Launch then (d, Inl (Denied Launch))
          else if lr_force req \<and> \<not> has perms ManageAccess then (d, Inl (Denied ManageAccess))
          else (case launch_spec_of d profile of
              Inl e \<Rightarrow> (d, Inl e)
            | Inr spec \<Rightarrow>
                if takes_over d now profile (lr_force req) then
                  (let d1 = d\<lparr>profile_locks :=
                         AList.update profile (new_lock h now c req raw) (profile_locks d)\<rparr>;
                       d2 = (if lr_force req then audit c ''lock.force'' (Some profile) d1 else d1)
                   in (audit c ''profile.launch'' (Some profile) d2,
                       Inr \<lparr>re_lock_token = raw, re_expires_at = now + lock_ttl,
                            re_restrictions = for_perms perms,
                            re_spec = spec\<lparr>ls_domain_lists := domain_lists_for collate d (user_id c) profile\<rparr>\<rparr>))
                else (case map_of (profile_locks d) profile of
                    None \<Rightarrow> (d, Inl (Locked '''' ''''))
                  | Some l \<Rightarrow> (case map_of (users d) (l_user l) of
                        None \<Rightarrow> (d, Inl (Locked '''' ''''))
                      | Some email \<Rightarrow> (d, Inl (Locked email (l_machine_name l)))))))"

definition heartbeat ::
    "(str \<Rightarrow> bytes) \<Rightarrow> db \<Rightarrow> time \<Rightarrow> caller \<Rightarrow> uuid \<Rightarrow> str option \<Rightarrow> db \<times> unit api_result" where
  "heartbeat h d now c profile body_token =
     (case body_token of
        None \<Rightarrow> (d, Inl (BadRequest ''lock_token is required''))
      | Some token \<Rightarrow> (case map_of (profile_locks d) profile of
            None \<Rightarrow> (d, Inl (Conflict ''this lock is no longer yours''))
          | Some l \<Rightarrow>
              if l_user l = user_id c \<and> l_token_hash l = h token then
                (d\<lparr>profile_locks := AList.update profile (l\<lparr>l_expires_at := now + lock_ttl\<rparr>) (profile_locks d)\<rparr>,
                 Inr ())
              else (d, Inl (Conflict ''this lock is no longer yours''))))"

definition release_lock ::
    "(str \<Rightarrow> bytes) \<Rightarrow> db \<Rightarrow> caller \<Rightarrow> uuid \<Rightarrow> str option \<Rightarrow> db \<times> unit api_result" where
  "release_lock h d c profile body_token =
     (case body_token of
        None \<Rightarrow> (d, Inl (BadRequest ''lock_token is required''))
      | Some token \<Rightarrow>
          (audit c ''profile.stop'' (Some profile)
            (d\<lparr>profile_locks := List.filter (\<lambda>(f, l). \<not> (f = profile \<and> l_token_hash l = h token))
                (profile_locks d)\<rparr>),
           Inr ()))"

section \<open>The bundle store\<close>

record upload_headers =
  uh_wrapped_key :: "str option"
  uh_sha256 :: "str option"
  uh_base_version :: "int option"
  uh_key_generation :: "int option"
  uh_lock_token :: "str option"

record limits =
  max_bundle :: nat
  org_ceiling :: "int option"
  keep_versions :: int

text \<open>The body arrives in chunks, any of which may be a broken connection.\<close>

fun receive :: "limits \<Rightarrow> int \<Rightarrow> bytes \<Rightarrow> bytes option list \<Rightarrow> bytes api_result" where
  "receive lim used got [] = Inr got"
| "receive lim used got (None # rest) = Inl (BadRequest ''the upload stopped early'')"
| "receive lim used got (Some chunk # rest) =
     (let got' = got @ chunk
      in if max_bundle lim < length got' then Inl (BadRequest ''this bundle is over the limit for this server'')
         else (case org_ceiling lim of
             Some ceiling \<Rightarrow>
               if ceiling < used + int (length got') then
                 Inl (BadRequest ''this organisation has no more room'')
               else receive lim used got' rest
           | None \<Rightarrow> receive lim used got' rest))"

definition org_used :: "db \<Rightarrow> uuid \<Rightarrow> int" where
  "org_used d org =
     sum_list (map b_size (List.filter (\<lambda>b. case map_of (profiles d) (b_profile b) of
        None \<Rightarrow> False | Some f \<Rightarrow> f_org f = org) (bundles d)))"

definition holds_lock :: "(str \<Rightarrow> bytes) \<Rightarrow> db \<Rightarrow> time \<Rightarrow> uuid \<Rightarrow> str \<Rightarrow> bool" where
  "holds_lock h d now profile token =
     (case map_of (profile_locks d) profile of
        None \<Rightarrow> False
      | Some l \<Rightarrow> l_token_hash l = h token \<and> now < l_expires_at l)"

text \<open>The rows a version pushes out, and the transaction that records it.\<close>

definition stale :: "int \<Rightarrow> uuid \<Rightarrow> int \<Rightarrow> bundle_row \<Rightarrow> bool" where
  "stale keep profile version b \<longleftrightarrow> 0 < keep \<and> b_profile b = profile \<and> b_version b \<le> version - keep"

definition record_version ::
    "int \<Rightarrow> caller \<Rightarrow> uuid \<Rightarrow> profile_row \<Rightarrow> int \<Rightarrow> bytes \<Rightarrow> str \<Rightarrow> str \<Rightarrow> db \<Rightarrow> db" where
  "record_version keep c profile f version content sha wrapped d =
     (let row = \<lparr>b_profile = profile, b_version = version, b_key = (profile, version),
                 b_size = int (length content), b_sha256 = sha, b_wrapped_dek = wrapped,
                 b_uploaded_by = user_id c\<rparr>;
          rows = row # bundles d;
          gone = map b_key (List.filter (stale keep profile version) rows)
      in d\<lparr>bundles := List.filter (\<lambda>b. \<not> stale keep profile version b) rows,
           profiles := AList.update profile (f\<lparr>f_current_version := version\<rparr>) (profiles d),
           files := List.filter (\<lambda>(k, _). k \<notin> set gone)
             (AList.update (profile, version) content (files d))\<rparr>)"

definition sealed_under_old_key :: "db \<Rightarrow> profile_row \<Rightarrow> int option \<Rightarrow> bool" where
  "sealed_under_old_key d f generation =
     (case generation of None \<Rightarrow> False
      | Some g \<Rightarrow> (case map_of (org_generation d) (f_org f) of None \<Rightarrow> False | Some cur \<Rightarrow> g < cur))"

definition commit_bundle ::
    "limits \<Rightarrow> db \<Rightarrow> caller \<Rightarrow> uuid \<Rightarrow> int \<Rightarrow> int option \<Rightarrow> str \<Rightarrow> str \<Rightarrow> bytes \<Rightarrow> db \<times> int api_result" where
  "commit_bundle lim d c profile base_version key_generation sha wrapped content =
     (case map_of (profiles d) profile of
        None \<Rightarrow> (d, Inl NotFound)
      | Some f \<Rightarrow>
          if base_version \<noteq> f_current_version f then
            (d, Inl (Conflict ''someone else uploaded in between''))
          else
            (let version = f_current_version f + 1;
                 removed = d\<lparr>files := AList.delete (profile, version) (files d)\<rparr>
             in if sealed_under_old_key d f key_generation then
                  (removed, Inl (Conflict ''the key has been replaced since''))
                else if list_ex (\<lambda>b. b_profile b = profile \<and> b_version b = version) (bundles d) then
                  (removed, Inl Internal)
                else
                  (audit c ''bundle.upload'' (Some profile)
                     (record_version (keep_versions lim) c profile f version content sha wrapped d),
                   Inr version)))"

definition upload_bundle ::
    "(str \<Rightarrow> bytes) \<Rightarrow> (bytes \<Rightarrow> str) \<Rightarrow> limits \<Rightarrow> db \<Rightarrow> time \<Rightarrow> caller \<Rightarrow> uuid \<Rightarrow> upload_headers
     \<Rightarrow> bytes option list \<Rightarrow> db \<times> int api_result" where
  "upload_bundle h hexsum lim d now c profile hdr body =
     (case guarded (permissions_for_profile d now (user_id c) profile) of
        Inl e \<Rightarrow> (d, Inl e)
      | Inr perms \<Rightarrow>
          if perms = NONE then (d, Inl NotFound)
          else if \<not> has perms Launch then (d, Inl (Denied Launch))
          else (case uh_wrapped_key hdr of
              None \<Rightarrow> (d, Inl (BadRequest ''missing x-fury-wrapped-key''))
            | Some wrapped \<Rightarrow> (case uh_sha256 hdr of
                None \<Rightarrow> (d, Inl (BadRequest ''missing x-fury-sha256''))
              | Some sha \<Rightarrow> (case uh_base_version hdr of
                  None \<Rightarrow> (d, Inl (BadRequest ''missing x-fury-base-version''))
                | Some base \<Rightarrow> (case uh_lock_token hdr of
                    None \<Rightarrow> (d, Inl (BadRequest ''missing x-fury-lock-token''))
                  | Some token \<Rightarrow>
                      if \<not> holds_lock h d now profile token then
                        (d, Inl (Conflict ''this profile is not locked by you''))
                      else (case receive lim (org_used d (org_id c)) [] body of
                          Inl e \<Rightarrow> (d, Inl e)
                        | Inr content \<Rightarrow>
                            if hexsum content \<noteq> sha then
                              (d, Inl (BadRequest ''the body does not match the digest it was sent with''))
                            else commit_bundle lim d c profile base (uh_key_generation hdr) sha wrapped content))))))"

datatype download = NotModified int | Bundle int bytes str

text \<open>\<open>ORDER BY version DESC LIMIT 1\<close>, and the validator a version travels under.\<close>

fun newest :: "bundle_row list \<Rightarrow> bundle_row option" where
  "newest [] = None"
| "newest (b # bs) = (case newest bs of None \<Rightarrow> Some b
     | Some b' \<Rightarrow> Some (if b_version b' \<le> b_version b then b else b'))"

definition show_int :: "int \<Rightarrow> str" where
  "show_int i = (if i < 0 then ''-'' @ show_nat (nat (- i)) else show_nat (nat i))"

definition bundle_etag :: "int \<Rightarrow> str" where
  "bundle_etag v = [CHR 0x22] @ ''v'' @ show_int v @ [CHR 0x22]"

definition download_bundle ::
    "db \<Rightarrow> time \<Rightarrow> caller \<Rightarrow> uuid \<Rightarrow> str option \<Rightarrow> download api_result" where
  "download_bundle d now c profile if_none_match =
     (case guarded (permissions_for_profile d now (user_id c) profile) of
        Inl e \<Rightarrow> Inl e
      | Inr perms \<Rightarrow>
          if perms = NONE then Inl NotFound
          else if \<not> has perms Launch then Inl (Denied Launch)
          else (case newest (List.filter (\<lambda>b. b_profile b = profile) (bundles d)) of
              None \<Rightarrow> Inl NotFound
            | Some b \<Rightarrow>
                if (case if_none_match of None \<Rightarrow> False
                    | Some v \<Rightarrow> list_ex (\<lambda>t. trim t = bundle_etag (b_version b)) (split_on CHR '','' v))
                then Inr (NotModified (b_version b))
                else (case map_of (files d) (b_key b) of
                    None \<Rightarrow> Inl Internal
                  | Some content \<Rightarrow> Inr (Bundle (b_version b) content (b_wrapped_dek b)))))"


section \<open>Lookups after a filter\<close>

lemma lookup_filter_keep:
  "map_of t k = Some v \<Longrightarrow> P (k, v) \<Longrightarrow> map_of (List.filter P t) k = Some v"
  by (induction t) (auto split: if_splits)

section \<open>The store invariant\<close>

text \<open>
  Every row names a profile, a version no later than its current one and a file that is
  there and as long as the row says; no two rows describe the same version of a profile.
\<close>

definition row_ok :: "db \<Rightarrow> bundle_row \<Rightarrow> bool" where
  "row_ok d b \<longleftrightarrow>
     b_key b = (b_profile b, b_version b)
     \<and> (\<exists>f. map_of (profiles d) (b_profile b) = Some f \<and> b_version b \<le> f_current_version f)
     \<and> (\<exists>content. map_of (files d) (b_key b) = Some content \<and> b_size b = int (length content))"

definition store_ok :: "db \<Rightarrow> bool" where
  "store_ok d \<longleftrightarrow>
     distinct (map (\<lambda>b. (b_profile b, b_version b)) (bundles d)) \<and> (\<forall>b \<in> set (bundles d). row_ok d b)"

lemma store_ok_fresh:
  assumes "store_ok d" and "map_of (profiles d) profile = Some f" and "b \<in> set (bundles d)"
    and "b_profile b = profile"
  shows "b_version b < f_current_version f + 1"
  using assms by (auto simp: store_ok_def row_ok_def)

lemma store_ok_frame:
  "bundles d' = bundles d \<Longrightarrow> profiles d' = profiles d \<Longrightarrow> files d' = files d \<Longrightarrow>
   store_ok d' = store_ok d"
  by (simp add: store_ok_def row_ok_def)

lemma store_ok_audit [simp]: "store_ok (audit c a t d) = store_ok d"
  by (rule store_ok_frame) simp_all

lemma store_ok_remove_incoming:
  assumes "store_ok d" and "map_of (profiles d) profile = Some f"
  shows "store_ok (d\<lparr>files := AList.delete (profile, f_current_version f + 1) (files d)\<rparr>)"
  using assms store_ok_fresh [OF assms]
  by (fastforce simp: store_ok_def row_ok_def table_simps)

lemma record_version_rows:
  "bundles (record_version keep c profile f version content sha wrapped d)
     = List.filter (\<lambda>b. \<not> stale keep profile version b)
        (\<lparr>b_profile = profile, b_version = version, b_key = (profile, version),
          b_size = int (length content), b_sha256 = sha, b_wrapped_dek = wrapped,
          b_uploaded_by = user_id c\<rparr> # bundles d)"
  by (simp add: record_version_def Let_def)

lemma record_version_mem:
  "b \<in> set (bundles (record_version keep c profile f version content sha wrapped d)) \<longleftrightarrow>
     \<not> stale keep profile version b
     \<and> (b = \<lparr>b_profile = profile, b_version = version, b_key = (profile, version),
          b_size = int (length content), b_sha256 = sha, b_wrapped_dek = wrapped,
          b_uploaded_by = user_id c\<rparr> \<or> b \<in> set (bundles d))"
  unfolding record_version_rows set_filter by auto

lemma record_version_profiles:
  "map_of (profiles (record_version keep c profile f version content sha wrapped d)) q
     = (if q = profile then Some (f\<lparr>f_current_version := version\<rparr>) else map_of (profiles d) q)"
  by (simp add: record_version_def Let_def table_simps)

lemma record_version_frame [simp]:
  "org_members (record_version keep c profile f version content sha wrapped d) = org_members d"
  "projects (record_version keep c profile f version content sha wrapped d) = projects d"
  "project_grants (record_version keep c profile f version content sha wrapped d) = project_grants d"
  "profile_grants (record_version keep c profile f version content sha wrapped d) = profile_grants d"
  "profile_locks (record_version keep c profile f version content sha wrapped d) = profile_locks d"
  "org_generation (record_version keep c profile f version content sha wrapped d) = org_generation d"
  by (simp_all add: record_version_def Let_def)

lemma record_version_files:
  assumes "\<forall>b \<in> set (bundles d). b_key b = (b_profile b, b_version b)"
    and "\<not> (0 < keep \<and> fst k = profile \<and> snd k \<le> version - keep)"
  shows "map_of (files (record_version keep c profile f version content sha wrapped d)) k
     = (if k = (profile, version) then Some content else map_of (files d) k)"
proof -
  let ?row = "\<lparr>b_profile = profile, b_version = version, b_key = (profile, version),
          b_size = int (length content), b_sha256 = sha, b_wrapped_dek = wrapped,
          b_uploaded_by = user_id c\<rparr>"
  define gone where "gone = map b_key (List.filter (stale keep profile version) (?row # bundles d))"
  have "k \<notin> set gone"
    unfolding gone_def using assms by (auto simp: stale_def)
  moreover have "files (record_version keep c profile f version content sha wrapped d)
      = List.filter (\<lambda>(k, _). k \<notin> set gone) (AList.update (profile, version) content (files d))"
    unfolding record_version_def Let_def gone_def by simp
  ultimately show ?thesis
    by (simp only: lookup_filter lookup_update if_True not_False_eq_True)
qed

lemma record_version_dropped:
  assumes "b \<in> set (bundles d)" and "stale keep profile version b"
  shows "map_of (files (record_version keep c profile f version content sha wrapped d)) (b_key b) = None"
proof -
  let ?row = "\<lparr>b_profile = profile, b_version = version, b_key = (profile, version),
          b_size = int (length content), b_sha256 = sha, b_wrapped_dek = wrapped,
          b_uploaded_by = user_id c\<rparr>"
  define gone where "gone = map b_key (List.filter (stale keep profile version) (?row # bundles d))"
  have "b_key b \<in> set gone"
    unfolding gone_def using assms by auto
  moreover have "files (record_version keep c profile f version content sha wrapped d)
      = List.filter (\<lambda>(k, _). k \<notin> set gone) (AList.update (profile, version) content (files d))"
    unfolding record_version_def Let_def gone_def by simp
  ultimately show ?thesis
    by (simp only: lookup_filter not_True_eq_False if_False)
qed

lemma store_ok_record:
  assumes ok: "store_ok d" and f: "map_of (profiles d) profile = Some f"
  shows "store_ok (record_version keep c profile f (f_current_version f + 1) content sha wrapped d)"
    (is "store_ok ?d")
proof -
  let ?v = "f_current_version f + 1"
  have keys: "\<forall>b \<in> set (bundles d). b_key b = (b_profile b, b_version b)"
    using ok by (auto simp: store_ok_def row_ok_def)
  have fresh: "b_profile b = profile \<Longrightarrow> b \<in> set (bundles d) \<Longrightarrow> b_version b < ?v" for b
    using store_ok_fresh [OF ok f] by simp
  have "distinct (map (\<lambda>b. (b_profile b, b_version b)) (bundles ?d))"
    using ok fresh unfolding record_version_rows store_ok_def
    by (fastforce intro: distinct_map_filter)
  moreover have "row_ok ?d b" if b: "b \<in> set (bundles ?d)" for b
  proof (cases "b \<in> set (bundles d)")
    case True
    have "\<not> stale keep profile ?v b" using b unfolding record_version_rows set_filter by blast
    then have keep: "\<not> (0 < keep \<and> fst (b_key b) = profile \<and> snd (b_key b) \<le> ?v - keep)"
      using keys True by (auto simp: stale_def)
    have "row_ok d b" using ok True by (simp add: store_ok_def)
    then show ?thesis
      using record_version_files [OF keys keep] record_version_profiles fresh [OF _ True] f
      by (fastforce simp: row_ok_def)
  next
    case False
    then have b_eq: "b_profile b = profile" "b_version b = ?v" "b_key b = (profile, ?v)"
        "b_size b = int (length content)" "\<not> stale keep profile ?v b"
      using b by (auto simp: record_version_rows split: if_splits)
    then have keep: "\<not> (0 < keep \<and> fst (profile, ?v) = profile \<and> snd (profile, ?v) \<le> ?v - keep)"
      by (auto simp: stale_def)
    show ?thesis
      using b_eq record_version_files [OF keys keep] record_version_profiles
      by (simp add: row_ok_def)
  qed
  ultimately show ?thesis by (simp add: store_ok_def)
qed

lemma commit_bundle_store_ok:
  assumes "store_ok d"
  shows "store_ok (fst (commit_bundle lim d c profile base gen sha wrapped content))"
  using assms store_ok_record store_ok_remove_incoming
  by (auto simp: commit_bundle_def Let_def split: option.splits)

lemma upload_bundle_cases:
  "fst (upload_bundle h hexsum lim d now c profile hdr body) = d
   \<or> (\<exists>base sha wrapped content.
        upload_bundle h hexsum lim d now c profile hdr body
          = commit_bundle lim d c profile base (uh_key_generation hdr) sha wrapped content)"
  unfolding upload_bundle_def by (auto split: sum.splits option.splits)

lemma upload_keeps_the_store:
  assumes "store_ok d"
  shows "store_ok (fst (upload_bundle h hexsum lim d now c profile hdr body))"
  using upload_bundle_cases [of h hexsum lim d now c profile hdr body] commit_bundle_store_ok [OF assms]
    assms by auto

lemma demo_store_ok: "store_ok demo_db"
  by (simp add: store_ok_def demo_db_def)

section \<open>What an accepted upload means\<close>

lemma upload_bundle_Inr:
  assumes "upload_bundle h hexsum lim d now c profile hdr body = (d', Inr v)"
  obtains perms token wrapped content f where
    "permissions_for_profile d now (user_id c) profile = Inr perms" "has perms Launch"
    "uh_lock_token hdr = Some token" "holds_lock h d now profile token"
    "uh_wrapped_key hdr = Some wrapped" "uh_sha256 hdr = Some (hexsum content)"
    "receive lim (org_used d (org_id c)) [] body = Inr content"
    "map_of (profiles d) profile = Some f" "uh_base_version hdr = Some (f_current_version f)"
    "v = f_current_version f + 1"
    "\<not> sealed_under_old_key d f (uh_key_generation hdr)"
    "d' = audit c ''bundle.upload'' (Some profile)
       (record_version (keep_versions lim) c profile f v content (hexsum content) wrapped d)"
  using assms unfolding upload_bundle_def commit_bundle_def Let_def
  by (auto split: sum.splits option.splits if_splits)

lemma receive_content:
  "receive lim used got body = Inr content \<Longrightarrow>
   content = got @ concat (map (\<lambda>x. case x of Some c \<Rightarrow> c | None \<Rightarrow> []) body)
   \<and> None \<notin> set body"
  by (induction lim used got body rule: receive.induct)
    (auto simp: Let_def split: if_splits option.splits)

lemma newest_max:
  "newest bs = Some b \<Longrightarrow> b \<in> set bs \<and> (\<forall>b' \<in> set bs. b_version b' \<le> b_version b)"
proof (induction bs arbitrary: b)
  case (Cons a bs)
  show ?case
  proof (cases "newest bs")
    case None
    then have "bs = []" by (cases bs) (auto split: option.splits)
    then show ?thesis using Cons.prems by simp
  next
    case (Some b')
    then show ?thesis using Cons.IH [OF Some] Cons.prems by (fastforce split: if_splits)
  qed
qed simp

lemma newest_None: "newest bs = None \<longleftrightarrow> bs = []"
  by (cases bs) (auto split: option.splits)

text \<open>The new version is the one a download of the profile finds.\<close>

lemma newest_after_record:
  assumes "store_ok d" and f: "map_of (profiles d) profile = Some f" and "keep \<ge> 0"
  shows "\<exists>b. newest (List.filter (\<lambda>b. b_profile b = profile)
      (bundles (record_version keep c profile f (f_current_version f + 1) content sha wrapped d))) = Some b
    \<and> b_version b = f_current_version f + 1 \<and> b_key b = (profile, f_current_version f + 1)
    \<and> b_wrapped_dek b = wrapped"
proof -
  let ?v = "f_current_version f + 1"
  let ?rows = "List.filter (\<lambda>b. b_profile b = profile)
      (bundles (record_version keep c profile f ?v content sha wrapped d))"
  let ?new = "\<lparr>b_profile = profile, b_version = ?v, b_key = (profile, ?v),
          b_size = int (length content), b_sha256 = sha, b_wrapped_dek = wrapped,
          b_uploaded_by = user_id c\<rparr>"
  have new: "?new \<in> set ?rows"
    using \<open>keep \<ge> 0\<close> by (simp add: record_version_rows stale_def)
  then have "?rows \<noteq> []" by (metis empty_iff empty_set)
  then obtain b where b: "newest ?rows = Some b"
    using newest_None by blast
  then have mem: "b \<in> set ?rows" and "b_version ?new \<le> b_version b"
    using newest_max new by blast+
  then have "?v \<le> b_version b" by simp
  moreover have "b \<in> set (bundles d) \<Longrightarrow> b_profile b = profile \<Longrightarrow> b_version b < ?v"
    using store_ok_fresh [OF assms(1) f] by simp
  ultimately have "b = ?new"
    using mem by (auto simp: record_version_rows split: if_splits)
  then show ?thesis using b by auto
qed

text \<open>
  C16. An accepted upload was sent by a caller who may launch the profile, carried the
  token of the live lock, and was based on the version the server was at; it is recorded
  as the next one. From then on a download by anybody who may launch the profile gives
  back exactly the bytes of the body and the wrapped key that came with it.
\<close>

theorem upload_then_download:
  assumes up: "upload_bundle h hexsum lim d now c profile hdr body = (d', Inr v)"
    and ok: "store_ok d" and keep: "keep_versions lim \<ge> 0"
    and reader: "permissions_for_profile d' later (user_id c') profile = Inr perms'" "has perms' Launch"
  shows "\<exists>token wrapped.
      uh_lock_token hdr = Some token \<and> holds_lock h d now profile token
      \<and> uh_base_version hdr = Some (v - 1) \<and> uh_wrapped_key hdr = Some wrapped
      \<and> download_bundle d' later c' profile None
          = Inr (Bundle v (concat (map (\<lambda>x. case x of Some ch \<Rightarrow> ch | None \<Rightarrow> []) body)) wrapped)"
proof -
  from up obtain perms token wrapped content f where
    u: "uh_lock_token hdr = Some token" "holds_lock h d now profile token"
      "uh_wrapped_key hdr = Some wrapped" "receive lim (org_used d (org_id c)) [] body = Inr content"
      "map_of (profiles d) profile = Some f" "uh_base_version hdr = Some (f_current_version f)"
      "v = f_current_version f + 1"
      "d' = audit c ''bundle.upload'' (Some profile)
         (record_version (keep_versions lim) c profile f v content (hexsum content) wrapped d)"
    by (rule upload_bundle_Inr)
  obtain b where b: "newest (List.filter (\<lambda>b. b_profile b = profile) (bundles d')) = Some b"
      "b_version b = v" "b_key b = (profile, v)" "b_wrapped_dek b = wrapped"
    using newest_after_record [OF ok u(5) keep] unfolding u(7,8) audit_frame by blast
  have keys: "\<forall>b \<in> set (bundles d). b_key b = (b_profile b, b_version b)"
    using ok by (auto simp: store_ok_def row_ok_def)
  have "map_of (files d') (profile, v) = Some content"
    unfolding u(8) audit_frame by (subst record_version_files [OF keys]) auto
  then have "download_bundle d' later c' profile None = Inr (Bundle v content wrapped)"
    using reader b has_not_NONE [OF reader(2)] by (simp add: download_bundle_def guarded_simps)
  then show ?thesis
    using u receive_content [OF u(4)] by auto
qed

lemma upload_bundle_accepts:
  assumes "permissions_for_profile d now (user_id c) profile = Inr perms" and "has perms Launch"
    and "uh_lock_token hdr = Some token" and "holds_lock h d now profile token"
    and "uh_wrapped_key hdr = Some wrapped" and "uh_sha256 hdr = Some (hexsum content)"
    and "receive lim (org_used d (org_id c)) [] body = Inr content"
    and "map_of (profiles d) profile = Some f" and "uh_base_version hdr = Some (f_current_version f)"
    and "\<not> sealed_under_old_key d f (uh_key_generation hdr)" and "store_ok d"
  shows "upload_bundle h hexsum lim d now c profile hdr body
    = (audit c ''bundle.upload'' (Some profile) (record_version (keep_versions lim) c profile f
         (f_current_version f + 1) content (hexsum content) wrapped d), Inr (f_current_version f + 1))"
proof -
  have "\<not> list_ex (\<lambda>b. b_profile b = profile \<and> b_version b = f_current_version f + 1) (bundles d)"
    using store_ok_fresh [OF assms(11,8)] by (fastforce simp: list_ex_iff)
  then show ?thesis
    using assms has_not_NONE [OF assms(2)]
    by (simp add: upload_bundle_def commit_bundle_def guarded_simps Let_def)
qed

definition demo_limits :: limits where
  "demo_limits = \<lparr>max_bundle = 9, org_ceiling = Some 100, keep_versions = 2\<rparr>"

definition demo_hash :: "str \<Rightarrow> bytes" where
  "demo_hash s = map (\<lambda>c. word_of_nat (code c)) s"

definition demo_hexsum :: "bytes \<Rightarrow> str" where
  "demo_hexsum bs = show_nat (length bs)"

definition demo_locked :: db where
  "demo_locked = demo_db\<lparr>profile_locks := [(20, \<lparr>l_user = 3, l_token_hash = demo_hash ''t'',
     l_machine_name = ''desk'', l_machine_id = ''m'', l_expires_at = 90\<rparr>)]\<rparr>"

definition demo_upload :: upload_headers where
  "demo_upload = \<lparr>uh_wrapped_key = Some ''K'', uh_sha256 = Some ''3'', uh_base_version = Some 0,
     uh_key_generation = Some 1, uh_lock_token = Some ''t''\<rparr>"

lemma demo_locked_permissions: "permissions_for_profile demo_locked now 3 20 = Inr all_perms"
  using demo_permissions(3) [of now]
  by (subst permissions_for_profile_frame [of _ demo_db]) (simp_all add: demo_locked_def)

definition demo_after :: db where
  "demo_after = audit demo_caller ''bundle.upload'' (Some 20)
     (record_version 2 demo_caller 20 demo_profile 1 [7, 8, 9] ''3'' ''K'' demo_locked)"

lemma demo_locked_rows:
  "map_of (profiles demo_locked) 20 = Some demo_profile" "bundles demo_locked = []"
  "map_of (org_generation demo_locked) 7 = Some 1" "f_current_version demo_profile = 0"
  "f_org demo_profile = 7" "profile_grants demo_locked = []"
  by (simp_all add: demo_locked_def demo_db_def demo_profile_def)

lemma demo_locked_ok: "store_ok demo_locked"
  by (simp add: store_ok_def demo_locked_rows)

lemma demo_upload_accepted:
  "upload_bundle demo_hash demo_hexsum demo_limits demo_locked 5 demo_caller 20 demo_upload
     [Some [7, 8], Some [9]] = (demo_after, Inr 1)"
proof -
  have sum: "demo_hexsum [7, 8, 9] = ''3''"
    by code_simp
  have lock: "holds_lock demo_hash demo_locked 5 20 ''t''"
    by (simp add: holds_lock_def demo_locked_def)
  have used: "org_used demo_locked 7 = 0"
    by (simp add: org_used_def demo_locked_rows)
  show ?thesis
    by (subst upload_bundle_accepts [where perms = all_perms and token = "''t''" and wrapped = "''K''"
          and content = "[7, 8, 9]" and f = demo_profile])
      (simp_all add: demo_caller_def demo_locked_permissions demo_upload_def lock sum used demo_limits_def
        demo_locked_rows sealed_under_old_key_def demo_locked_ok demo_after_def)
qed

lemma demo_after_rows:
  "map_of (profiles demo_after) 20 = Some (demo_profile\<lparr>f_current_version := 1\<rparr>)"
  "profile_grants demo_after = []" "map_of (org_generation demo_after) 7 = Some 1"
  "profile_locks demo_after = profile_locks demo_locked"
  by (simp_all add: demo_after_def record_version_profiles demo_locked_rows)

lemma demo_after_permissions: "permissions_for_profile demo_after now 3 20 = Inr all_perms"
proof -
  have "permissions_for demo_after now 3 10 = permissions_for demo_db now 3 10"
    by (rule permissions_for_frame) (simp_all add: demo_after_def demo_locked_def)
  then show ?thesis
    by (simp add: permissions_for_profile_def demo_after_rows demo_permissions demo_profile_def)
qed

theorem upload_then_download_witness:
  "download_bundle demo_after 6 demo_caller 20 None = Inr (Bundle 1 [7, 8, 9] ''K'')"
proof -
  have reader: "permissions_for_profile demo_after 6 (user_id demo_caller) 20 = Inr all_perms"
    by (simp add: demo_caller_def demo_after_permissions)
  have "\<exists>token wrapped.
      uh_lock_token demo_upload = Some token \<and> holds_lock demo_hash demo_locked 5 20 token
      \<and> uh_base_version demo_upload = Some (1 - 1) \<and> uh_wrapped_key demo_upload = Some wrapped
      \<and> download_bundle demo_after 6 demo_caller 20 None
          = Inr (Bundle 1 (concat (map (\<lambda>x. case x of Some ch \<Rightarrow> ch | None \<Rightarrow> []) [Some [7, 8], Some [9]])) wrapped)"
    by (rule upload_then_download [OF demo_upload_accepted demo_locked_ok _ reader has_all])
      (simp add: demo_limits_def)
  then show ?thesis by (auto simp: demo_upload_def)
qed

end
