(* ===== verification/Events.thy ===== *)
theory Events
  imports Main
begin

text \<open>
  Runs of events, shared by the protocols: what a step keeps, a run keeps; and what holds after
  a run and did not before was brought about by one of its events.
\<close>

locale event_system =
  fixes step :: "'s \<Rightarrow> 'e \<Rightarrow> 's"
    and run :: "'s \<Rightarrow> 'e list \<Rightarrow> 's"
  assumes run_foldl: "run d evs = foldl step d evs"
begin

lemma run_Nil: "run d [] = d"
  by (simp add: run_foldl)

lemma run_append: "run d (evs @ evs') = run (run d evs) evs'"
  by (simp add: run_foldl)

lemma run_snoc: "run d (evs @ [e]) = step (run d evs) e"
  by (simp add: run_foldl)

lemma run_Cons: "run d (e # evs) = run (step d e) evs"
  by (simp add: run_foldl)

lemma kept:
  assumes "\<And>d e. I d \<Longrightarrow> I (step d e)" and "I d"
  shows "I (run d evs)"
  using assms(2)
proof (induction evs arbitrary: d)
  case (Cons e evs)
  then show ?case using assms(1) by (simp add: run_Cons)
qed (simp add: run_Nil)

text \<open>The last event after which it holds is a cause of it.\<close>

lemma caused:
  assumes "\<And>d e. K (step d e) \<Longrightarrow> K d \<or> P d e" and "K (run d evs)"
  shows "K d \<or> (\<exists>pre e post. evs = pre @ e # post \<and> P (run d pre) e)"
  using assms(2)
proof (induction evs rule: rev_induct)
  case (snoc e evs)
  then consider "K (run d evs)" | "P (run d evs) e"
    using assms(1) by (auto simp: run_snoc)
  then show ?case
  proof cases
    case 1
    from snoc.IH [OF this] show ?thesis
    proof (elim disjE exE conjE)
      fix pre x post
      assume "evs = pre @ x # post" "P (run d pre) x"
      then have "evs @ [e] = pre @ x # (post @ [e])" "P (run d pre) x" by simp_all
      then show ?thesis by blast
    qed simp
  next
    case 2
    then have "evs @ [e] = evs @ e # []" "P (run d evs) e" by simp_all
    then show ?thesis by blast
  qed
qed (simp add: run_Nil)

text \<open>The same with an invariant of the steps in between.\<close>

lemma caused_inv:
  assumes "\<And>d e. I d \<Longrightarrow> I (step d e)" and "I d"
    and "\<And>d e. I d \<Longrightarrow> K (step d e) \<Longrightarrow> K d \<or> P d e" and "K (run d evs)"
  shows "K d \<or> (\<exists>pre e post. evs = pre @ e # post \<and> P (run d pre) e)"
proof (cases "\<exists>pre e post. evs = pre @ e # post \<and> P (run d pre) e")
  case False
  have "K (run d evs') \<Longrightarrow> K d" if "evs = evs' @ rest" for evs' rest
    using that
  proof (induction evs' arbitrary: rest rule: rev_induct)
    case (snoc e evs')
    have "\<not> P (run d evs') e" using False snoc.prems(2) by auto
    then have "K (run d evs')"
      using assms(3) [OF kept [OF assms(1,2)]] snoc.prems(1) by (auto simp: run_snoc)
    then show ?case using snoc.IH snoc.prems(2) by simp
  qed (simp add: run_Nil)
  from this [of evs "[]"] show ?thesis using assms(4) by simp
qed simp

end

end
