(* ===== verification/Lock_Protocol.thy ===== *)
theory Lock_Protocol
  imports Locks Events
begin

text \<open>
  The handlers of \<open>Locks\<close> and \<open>Guard\<close> run one after the other: an event is one request,
  served at a time, and a run is a list of them. The theorems are about what any interleaving
  of the requests of any number of callers does to one profile's lock and to its versions.
\<close>

section \<open>Requests and runs\<close>

record server_env =
  hash_token :: "str \<Rightarrow> bytes"
  sha256_hex :: "bytes \<Rightarrow> str"
  decode64 :: "str \<Rightarrow> bytes option"
  collation :: "str \<Rightarrow> nat"
  caps :: limits

datatype request =
    Acquire uuid lock_request str
  | Beat uuid "str option"
  | Release uuid "str option"
  | Upload uuid upload_headers "bytes option list"
  | Share uuid share_request
  | Unshare uuid uuid
  | Grant uuid grant_request
  | Revoke uuid uuid

definition serve :: "server_env \<Rightarrow> db \<Rightarrow> time \<times> caller \<times> request \<Rightarrow> db" where
  "serve env d ev =
     (case ev of (now, c, req) \<Rightarrow>
       (case req of
          Acquire p r raw \<Rightarrow> fst (acquire_lock (hash_token env) (collation env) d now c p r raw)
        | Beat p token \<Rightarrow> fst (heartbeat (hash_token env) d now c p token)
        | Release p token \<Rightarrow> fst (release_lock (hash_token env) d c p token)
        | Upload p hdr body \<Rightarrow> fst (upload_bundle (hash_token env) (sha256_hex env) (caps env) d now c p hdr body)
        | Share p r \<Rightarrow> fst (share_profile (decode64 env) d now c p r)
        | Unshare p u \<Rightarrow> fst (revoke_share d now c p u)
        | Grant p r \<Rightarrow> fst (grant_access d now c p r)
        | Revoke p u \<Rightarrow> fst (revoke_access d now c p u)))"

definition run :: "server_env \<Rightarrow> db \<Rightarrow> (time \<times> caller \<times> request) list \<Rightarrow> db" where
  "run env d evs = foldl (serve env) d evs"

lemma run_simps [simp]:
  "run env d [] = d" "run env d (ev # evs) = run env (serve env d ev) evs"
  "run env d (evs @ evs') = run env (run env d evs) evs'"
  by (simp_all add: run_def)

interpretation lock_events: event_system "serve env" "run env" for env
  by unfold_locales (simp add: run_def)

section \<open>What each handler does to the lock and to the bundle tables\<close>

lemma acquire_lock_locks:
  "profile_locks (fst (acquire_lock h collate d now c p r raw)) = profile_locks d
   \<or> (\<exists>perms. permissions_for_profile d now (user_id c) p = Inr perms
        \<and> (lr_force r \<longrightarrow> has perms ManageAccess)
        \<and> takes_over d now p (lr_force r)
        \<and> profile_locks (fst (acquire_lock h collate d now c p r raw))
            = AList.update p (new_lock h now c r raw) (profile_locks d))"
  unfolding acquire_lock_def Let_def by (auto split: sum.splits option.splits)

lemma commit_bundle_frame:
  "profile_locks (fst (commit_bundle lim d c p base gen sha w content)) = profile_locks d"
  unfolding commit_bundle_def Let_def by (auto split: option.splits)

lemma upload_bundle_locks:
  "profile_locks (fst (upload_bundle h hexsum lim d now c p hdr body)) = profile_locks d"
  using upload_bundle_cases [of h hexsum lim d now c p hdr body] commit_bundle_frame by metis

lemma share_profile_locks: "profile_locks (fst (share_profile dec d now c p r)) = profile_locks d"
  unfolding share_profile_def Let_def by (auto split: sum.splits option.splits)

lemma grant_access_locks: "profile_locks (fst (grant_access d now c p r)) = profile_locks d"
  unfolding grant_access_def Let_def by (auto split: sum.splits option.splits)

definition bundle_tables :: "db \<Rightarrow> bundle_row list \<times> (uuid \<times> profile_row) list \<times> ((uuid \<times> int) \<times> bytes) list" where
  "bundle_tables d = (bundles d, profiles d, files d)"

lemma bundle_tables_frame:
  "bundle_tables (fst (acquire_lock h collate d now c p r raw)) = bundle_tables d"
  "bundle_tables (fst (heartbeat h d now c p token)) = bundle_tables d"
  "bundle_tables (fst (release_lock h d c p token)) = bundle_tables d"
  "bundle_tables (fst (share_profile dec d now c p sr)) = bundle_tables d"
  "bundle_tables (fst (revoke_share d now c p u)) = bundle_tables d"
  "bundle_tables (fst (grant_access d now c p gr)) = bundle_tables d"
  "bundle_tables (fst (revoke_access d now c p u)) = bundle_tables d"
  unfolding bundle_tables_def acquire_lock_def heartbeat_def release_lock_def share_profile_def
    revoke_share_def grant_access_def revoke_access_def Let_def
  by (auto split: sum.splits option.splits)

section \<open>Who can take a live lock away\<close>

text \<open>
  The four requests that may end somebody's live lock: a forced launch by a person who may
  manage access, the release that quotes its token, and the two revocations.
\<close>

definition ends_lock :: "server_env \<Rightarrow> db \<Rightarrow> time \<times> caller \<times> request \<Rightarrow> uuid \<Rightarrow> lock_row \<Rightarrow> bool" where
  "ends_lock env d ev profile l =
     (case ev of (now, c, req) \<Rightarrow>
       (case req of
          Acquire p r raw \<Rightarrow> p = profile \<and> lr_force r
            \<and> (case permissions_for_profile d now (user_id c) p of
                 Inl _ \<Rightarrow> False | Inr perms \<Rightarrow> has perms ManageAccess)
        | Release p (Some token) \<Rightarrow> p = profile \<and> hash_token env token = l_token_hash l
        | Unshare p u \<Rightarrow> p = profile \<and> u = l_user l
            \<and> (case permissions_for_profile d now (user_id c) p of
                 Inl _ \<Rightarrow> False | Inr perms \<Rightarrow> has perms ManageAccess)
        | Revoke p u \<Rightarrow> u = l_user l
            \<and> (case map_of (profiles d) profile of None \<Rightarrow> False | Some f \<Rightarrow> f_project f = p)
            \<and> (case require d now (user_id c) p ManageAccess of Inl _ \<Rightarrow> False | Inr _ \<Rightarrow> True)
        | _ \<Rightarrow> False))"

definition held_by :: "db \<Rightarrow> uuid \<Rightarrow> lock_row \<Rightarrow> time \<Rightarrow> bool" where
  "held_by d profile l until \<longleftrightarrow>
     (\<exists>l'. map_of (profile_locks d) profile = Some l' \<and> l_user l' = l_user l
        \<and> l_token_hash l' = l_token_hash l \<and> until \<le> l_expires_at l')"

lemma held_by_frame:
  "profile_locks d' = profile_locks d \<Longrightarrow> held_by d' profile l u = held_by d profile l u"
  by (simp add: held_by_def)

lemma held_by_acquire:
  assumes "held_by d profile l until" and "now < until"
    and "\<not> ends_lock env d (now, c, Acquire p r raw) profile l"
  shows "held_by (fst (acquire_lock h collate d now c p r raw)) profile l until"
proof -
  let ?d = "fst (acquire_lock h collate d now c p r raw)"
  consider "profile_locks ?d = profile_locks d"
    | perms where "permissions_for_profile d now (user_id c) p = Inr perms"
      "lr_force r \<longrightarrow> has perms ManageAccess" "takes_over d now p (lr_force r)"
      "profile_locks ?d = AList.update p (new_lock h now c r raw) (profile_locks d)"
    using acquire_lock_locks [of h collate d now c p r raw] by blast
  then show ?thesis
  proof cases
    case 1
    then show ?thesis using assms(1) held_by_frame by blast
  next
    case 2
    have "p \<noteq> profile"
    proof
      assume p: "p = profile"
      obtain l' where "map_of (profile_locks d) profile = Some l'" "until \<le> l_expires_at l'"
        using assms(1) by (auto simp: held_by_def)
      then have "lr_force r" using 2(3) assms(2) p by (auto simp: takes_over_def)
      then show False using 2(1,2) assms(3) p by (simp add: ends_lock_def)
    qed
    then show ?thesis using assms(1) by (auto simp: held_by_def 2(4) table_simps)
  qed
qed

lemma held_by_heartbeat:
  assumes "held_by d profile l until" and "until \<le> now + lock_ttl"
  shows "held_by (fst (heartbeat h d now c p token)) profile l until"
  using assms
  by (auto simp: held_by_def heartbeat_def table_simps split: option.splits)

lemma held_by_release:
  assumes "held_by d profile l until"
    and "\<not> ends_lock env d (now, c, Release p token) profile l"
  shows "held_by (fst (release_lock (hash_token env) d c p token)) profile l until"
  using assms
  by (auto simp: held_by_def release_lock_def ends_lock_def split: option.splits
      intro!: lookup_filter_keep)

lemma held_by_unshare:
  assumes "held_by d profile l until"
    and "\<not> ends_lock env d (now, c, Unshare p u) profile l"
  shows "held_by (fst (revoke_share d now c p u)) profile l until"
  using assms
  by (auto simp: held_by_def revoke_share_def ends_lock_def guarded_def split: sum.splits
      intro!: lookup_filter_keep)

lemma held_by_revoke:
  assumes "held_by d profile l until"
    and "\<not> ends_lock env d (now, c, Revoke p u) profile l"
  shows "held_by (fst (revoke_access d now c p u)) profile l until"
  using assms
  by (auto simp: held_by_def revoke_access_def ends_lock_def guarded_def split: sum.splits option.splits
      intro!: lookup_filter_keep)

lemma held_by_serve:
  assumes "held_by d profile l until" and "now < until" and "until \<le> now + lock_ttl"
    and "\<not> ends_lock env d (now, c, req) profile l"
  shows "held_by (serve env d (now, c, req)) profile l until"
proof (cases req)
  case (Acquire p r raw)
  then show ?thesis
    using held_by_acquire [OF assms(1,2)] assms(4) by (simp add: serve_def)
next
  case (Beat p token)
  then show ?thesis using held_by_heartbeat [OF assms(1,3)] by (simp add: serve_def)
next
  case (Release p token)
  then show ?thesis using held_by_release [OF assms(1)] assms(4) by (simp add: serve_def)
next
  case (Upload p hdr body)
  then show ?thesis
    using held_by_frame [OF upload_bundle_locks] assms(1) by (simp add: serve_def)
next
  case (Share p r)
  then show ?thesis
    using held_by_frame [OF share_profile_locks] assms(1) by (simp add: serve_def)
next
  case (Unshare p u)
  then show ?thesis using held_by_unshare [OF assms(1)] assms(4) by (simp add: serve_def)
next
  case (Grant p r)
  then show ?thesis
    using held_by_frame [OF grant_access_locks] assms(1) by (simp add: serve_def)
next
  case (Revoke p u)
  then show ?thesis using held_by_revoke [OF assms(1)] assms(4) by (simp add: serve_def)
qed

definition demo_env :: server_env where
  "demo_env = \<lparr>hash_token = demo_hash, sha256_hex = demo_hexsum, decode64 = demo_decode64,
     collation = (\<lambda>_. 0), caps = demo_limits\<rparr>"

definition demo_row :: lock_row where
  "demo_row = \<lparr>l_user = 3, l_token_hash = demo_hash ''t'', l_machine_name = ''desk'',
     l_machine_id = ''m'', l_expires_at = 90\<rparr>"

definition demo_ask :: "bool \<Rightarrow> lock_request" where
  "demo_ask force = \<lparr>lr_machine_id = ''n'', lr_machine_name = ''laptop'', lr_force = force\<rparr>"

lemma demo_locked_row: "map_of (profile_locks demo_locked) 20 = Some demo_row"
  by (simp add: demo_locked_def demo_row_def)

section \<open>The store along a run\<close>

lemma store_ok_tables: "bundle_tables d' = bundle_tables d \<Longrightarrow> store_ok d' = store_ok d"
  by (rule store_ok_frame) (simp_all add: bundle_tables_def)

lemma serve_bundle_tables:
  "(\<exists>p hdr body. req = Upload p hdr body) \<or> bundle_tables (serve env d (now, c, req)) = bundle_tables d"
  by (cases req) (auto simp: serve_def bundle_tables_frame)

lemma serve_store_ok: "store_ok d \<Longrightarrow> store_ok (serve env d ev)"
proof -
  assume ok: "store_ok d"
  obtain now c req where ev: "ev = (now, c, req)" by (cases ev)
  show "store_ok (serve env d ev)"
  proof (cases "\<exists>p hdr body. req = Upload p hdr body")
    case True
    then show ?thesis
      using ok by (auto simp: ev serve_def upload_keeps_the_store)
  next
    case False
    then have "bundle_tables (serve env d ev) = bundle_tables d"
      unfolding ev using serve_bundle_tables [of req env d now c] by blast
    then show ?thesis using ok store_ok_tables by blast
  qed
qed

section \<open>Versions only grow\<close>

lemma commit_bundle_version:
  assumes "map_of (profiles d) profile = Some f"
  shows "\<exists>f'. map_of (profiles (fst (commit_bundle lim d c p base gen sha w content))) profile = Some f'
    \<and> f_current_version f \<le> f_current_version f'"
  using assms unfolding commit_bundle_def Let_def
  by (auto simp: record_version_profiles split: option.splits)

lemma serve_version:
  assumes "map_of (profiles d) profile = Some f"
  shows "\<exists>f'. map_of (profiles (serve env d ev)) profile = Some f'
    \<and> f_current_version f \<le> f_current_version f'"
proof -
  obtain now c req where ev: "ev = (now, c, req)" by (cases ev)
  show ?thesis
  proof (cases "\<exists>p hdr body. req = Upload p hdr body")
    case True
    then obtain p hdr body where "req = Upload p hdr body" by blast
    then show ?thesis
      using assms commit_bundle_version [OF assms]
        upload_bundle_cases [of "hash_token env" "sha256_hex env" "caps env" d now c p hdr body]
      by (auto simp: ev serve_def)
  next
    case False
    then have "bundle_tables (serve env d ev) = bundle_tables d"
      unfolding ev using serve_bundle_tables [of req env d now c] by blast
    then show ?thesis using assms by (auto simp: bundle_tables_def)
  qed
qed

lemma run_version:
  "map_of (profiles d) profile = Some f \<Longrightarrow>
   \<exists>f'. map_of (profiles (run env d evs)) profile = Some f' \<and> f_current_version f \<le> f_current_version f'"
proof (induction evs arbitrary: d f)
  case (Cons ev evs)
  obtain f1 where "map_of (profiles (serve env d ev)) profile = Some f1"
      "f_current_version f \<le> f_current_version f1"
    using serve_version [OF Cons.prems] by blast
  then show ?case using Cons.IH [of "serve env d ev" f1] by fastforce
qed auto

text \<open>
  C4. No accepted upload is overwritten unseen: between two accepted uploads of a profile
  any requests may be served, but the second was based on a version no earlier than the one
  the first produced, and gets a later number.
\<close>

theorem no_lost_update:
  assumes up: "upload_bundle h hexsum lim d t1 c1 profile hdr1 body1 = (d1, Inr v1)"
    and up': "upload_bundle h hexsum lim (run env d1 evs) t2 c2 profile hdr2 body2 = (d2, Inr v2)"
  shows "\<exists>base. uh_base_version hdr2 = Some base \<and> v1 \<le> base \<and> v2 = base + 1"
proof -
  from up obtain perms token w content f where
    f: "v1 = f_current_version f + 1"
      "d1 = audit c1 ''bundle.upload'' (Some profile)
         (record_version (keep_versions lim) c1 profile f v1 content (hexsum content) w d)"
    by (rule upload_bundle_Inr)
  have "map_of (profiles d1) profile = Some (f\<lparr>f_current_version := v1\<rparr>)"
    by (simp add: f(2) record_version_profiles)
  then obtain f' where f': "map_of (profiles (run env d1 evs)) profile = Some f'" "v1 \<le> f_current_version f'"
    using run_version [of d1 profile _ env evs] by fastforce
  from up' obtain f2 where "map_of (profiles (run env d1 evs)) profile = Some f2"
      "uh_base_version hdr2 = Some (f_current_version f2)" "v2 = f_current_version f2 + 1"
    by (rule upload_bundle_Inr)
  with f' show ?thesis by simp
qed

definition demo_upload2 :: upload_headers where
  "demo_upload2 = demo_upload\<lparr>uh_base_version := Some 1\<rparr>"

lemma demo_second_upload:
  "upload_bundle demo_hash demo_hexsum demo_limits demo_after 7 demo_caller 20 demo_upload2
     [Some [4, 5, 6]]
   = (audit demo_caller ''bundle.upload'' (Some 20) (record_version 2 demo_caller 20
        (demo_profile\<lparr>f_current_version := 1\<rparr>) 2 [4, 5, 6] ''3'' ''K'' demo_after), Inr 2)"
proof -
  have sum: "demo_hexsum [4, 5, 6] = ''3''"
    by code_simp
  have lock: "holds_lock demo_hash demo_after 7 20 ''t''"
    by (simp add: holds_lock_def demo_after_rows demo_locked_def)
  have used: "org_used demo_after 7 = 3"
    by (simp add: org_used_def demo_after_def record_version_rows record_version_profiles
        demo_locked_rows stale_def)
  have ok: "store_ok demo_after"
    using upload_keeps_the_store [OF demo_locked_ok, of demo_hash demo_hexsum demo_limits 5 demo_caller
        20 demo_upload "[Some [7, 8], Some [9]]"]
    by (simp add: demo_upload_accepted)
  show ?thesis
    by (subst upload_bundle_accepts [where perms = all_perms and token = "''t''" and wrapped = "''K''"
          and content = "[4, 5, 6]" and f = "demo_profile\<lparr>f_current_version := 1\<rparr>"])
      (simp_all add: demo_caller_def demo_after_permissions demo_upload2_def demo_upload_def lock sum
        used demo_limits_def demo_after_rows demo_locked_rows sealed_under_old_key_def ok)
qed

theorem no_lost_update_witness:
  "\<exists>base. uh_base_version demo_upload2 = Some base \<and> 1 \<le> base \<and> 2 = base + 1"
  by (rule no_lost_update [OF demo_upload_accepted, where evs = "[]" and env = demo_env, unfolded run_simps,
        OF demo_second_upload])

section \<open>A token that was taken over\<close>

lemma acquire_lock_Inr:
  assumes "acquire_lock h collate d now c profile r raw = (d', Inr resp)"
  shows "map_of (profile_locks d') profile = Some (new_lock h now c r raw)"
    and "re_lock_token resp = raw" and "re_expires_at resp = now + lock_ttl"
  using assms unfolding acquire_lock_def Let_def
  by (auto simp: table_simps split: sum.splits option.splits if_splits)

text \<open>
  Once a lock has been taken over, the token of the previous holder is dead: its
  heartbeat is a conflict that changes nothing, its release leaves the new row in place,
  and no upload that quotes it is accepted or changes anything, whatever it sends and
  however much later.
\<close>

theorem taken_over_token_is_dead:
  assumes "acquire_lock h collate d now c profile r raw = (d', Inr resp)"
    and "h old \<noteq> h raw"
  shows "heartbeat h d' t c' profile (Some old) = (d', Inl (Conflict ''this lock is no longer yours''))
    \<and> map_of (profile_locks (fst (release_lock h d' c' profile (Some old)))) profile
        = Some (new_lock h now c r raw)
    \<and> (uh_lock_token hdr = Some old \<longrightarrow>
        (\<exists>e. upload_bundle h hexsum lim d' t c' profile hdr body = (d', Inl e)))"
proof -
  have row: "map_of (profile_locks d') profile = Some (new_lock h now c r raw)"
    using acquire_lock_Inr [OF assms(1)] by simp
  have other: "l_token_hash (new_lock h now c r raw) \<noteq> h old"
    using assms(2) by (simp add: new_lock_def)
  have "map_of (profile_locks (fst (release_lock h d' c' profile (Some old)))) profile
        = Some (new_lock h now c r raw)"
    using row other by (auto simp: release_lock_def intro!: lookup_filter_keep)
  moreover have "\<not> holds_lock h d' t profile old"
    using row other by (simp add: holds_lock_def)
  then have "\<exists>e. upload_bundle h hexsum lim d' t c' profile hdr body = (d', Inl e)"
    if "uh_lock_token hdr = Some old"
    using that unfolding upload_bundle_def by (auto split: sum.splits option.splits)
  ultimately show ?thesis
    using row other by (auto simp: heartbeat_def)
qed

lemma demo_forced:
  "\<exists>d' resp. acquire_lock demo_hash (\<lambda>_. 0) demo_locked 8 demo_caller 20 (demo_ask True) ''z'' = (d', Inr resp)"
proof -
  have "\<exists>spec. launch_spec_of demo_locked 20 = Inr spec"
    by (simp add: launch_spec_of_def live_proxy_def demo_locked_def demo_defs from_bytes_def)
  then show ?thesis
    by (auto simp: acquire_lock_def demo_caller_def demo_locked_permissions guarded_simps
        has_not_NONE [OF has_all] demo_ask_def takes_over_def demo_locked_row Let_def)
qed

theorem taken_over_token_is_dead_witness:
  "\<exists>d'. fst (acquire_lock demo_hash (\<lambda>_. 0) demo_locked 8 demo_caller 20 (demo_ask True) ''z'') = d'
    \<and> heartbeat demo_hash d' 9 demo_caller 20 (Some ''t'') = (d', Inl (Conflict ''this lock is no longer yours''))"
proof -
  from demo_forced obtain d' resp where
    acq: "acquire_lock demo_hash (\<lambda>_. 0) demo_locked 8 demo_caller 20 (demo_ask True) ''z'' = (d', Inr resp)"
    by blast
  have "heartbeat demo_hash d' 9 demo_caller 20 (Some ''t'') = (d', Inl (Conflict ''this lock is no longer yours''))"
    by (rule taken_over_token_is_dead [OF acq, THEN conjunct1]) (simp add: demo_hash_def)
  then show ?thesis by (simp add: acq)
qed

section \<open>Old versions and the room an organisation has\<close>

text \<open>
  With a limit of \<open>n\<close> kept versions, after an accepted upload a profile has at most
  \<open>n\<close> versions, all of them among the last \<open>n\<close> numbers; the file of every version that was
  dropped is gone, and no other profile's versions are touched.
\<close>

lemma upload_prunes_old_versions:
  assumes up: "upload_bundle h hexsum lim d now c profile hdr body = (d', Inr v)"
    and ok: "store_ok d" and keep: "0 < keep_versions lim"
  shows "int (length (List.filter (\<lambda>b. b_profile b = profile) (bundles d'))) \<le> keep_versions lim
    \<and> (\<forall>b \<in> set (bundles d'). b_profile b = profile \<longrightarrow>
          v - keep_versions lim < b_version b \<and> b_version b \<le> v)
    \<and> (\<forall>b \<in> set (bundles d) - set (bundles d'). map_of (files d') (b_key b) = None)
    \<and> List.filter (\<lambda>b. b_profile b \<noteq> profile) (bundles d')
        = List.filter (\<lambda>b. b_profile b \<noteq> profile) (bundles d)"
proof -
  let ?k = "keep_versions lim"
  let ?mine = "List.filter (\<lambda>b. b_profile b = profile) (bundles d')"
  from up obtain perms token wrapped content f where
    f: "map_of (profiles d) profile = Some f" "v = f_current_version f + 1"
      "d' = audit c ''bundle.upload'' (Some profile)
         (record_version ?k c profile f v content (hexsum content) wrapped d)"
    by (rule upload_bundle_Inr)
  have fresh: "b \<in> set (bundles d) \<Longrightarrow> b_profile b = profile \<Longrightarrow> b_version b < v" for b
    using store_ok_fresh [OF ok f(1)] by (simp add: f(2))
  have range: "\<forall>b \<in> set (bundles d'). b_profile b = profile \<longrightarrow> v - ?k < b_version b \<and> b_version b \<le> v"
  proof (intro ballI impI)
    fix b assume b: "b \<in> set (bundles d')" "b_profile b = profile"
    have m: "b \<in> set (bundles (record_version ?k c profile f v content (hexsum content) wrapped d))"
      using b(1) by (simp only: f(3) audit_frame)
    have "\<not> stale ?k profile v b" and "b \<in> set (bundles d) \<or> b_version b = v"
      using m [unfolded record_version_mem] by (blast, metis bundle_row.select_convs(2))
    then show "v - ?k < b_version b \<and> b_version b \<le> v"
      using b(2) fresh [of b] keep by (auto simp: stale_def)
  qed
  have "store_ok d'"
    using upload_keeps_the_store [OF ok, of h hexsum lim now c profile hdr body] by (simp add: up)
  then have "distinct (map b_version ?mine)"
    by (auto simp: store_ok_def distinct_map inj_on_def)
  then have "length ?mine = card (b_version ` set ?mine)"
    by (metis distinct_card length_map list.set_map)
  also have "\<dots> \<le> card {v - ?k<..v}"
    using range by (intro card_mono) auto
  finally have "int (length ?mine) \<le> ?k"
    using keep by simp
  moreover have "map_of (files d') (b_key b) = None"
    if b: "b \<in> set (bundles d) - set (bundles d')" for b
  proof -
    have "stale ?k profile v b"
      using b unfolding f(3) audit_frame Diff_iff record_version_mem by blast
    then have "map_of (files (record_version ?k c profile f v content (hexsum content) wrapped d)) (b_key b) = None"
      using b by (intro record_version_dropped) auto
    then show ?thesis by (simp add: f(3))
  qed
  moreover have "List.filter (\<lambda>b. b_profile b \<noteq> profile) (bundles d')
        = List.filter (\<lambda>b. b_profile b \<noteq> profile) (bundles d)"
    by (auto simp: f(3) record_version_rows stale_def intro: filter_cong)
  ultimately show ?thesis using range by blast
qed

lemma upload_prunes_old_versions_witness:
  "int (length (List.filter (\<lambda>b. b_profile b = 20) (bundles demo_after))) \<le> 2"
  using upload_prunes_old_versions [OF demo_upload_accepted demo_locked_ok]
  by (simp add: demo_limits_def)

lemma receive_bound:
  assumes "receive lim used got body = Inr content" and "org_ceiling lim = Some ceiling"
    and "used + int (length got) \<le> ceiling"
  shows "used + int (length content) \<le> ceiling"
  using assms
  by (induction lim used got body rule: receive.induct) (auto simp: Let_def split: if_splits)

lemma org_used_record:
  assumes "store_ok d" and "map_of (profiles d) profile = Some f"
  shows "org_used (record_version keep c profile f v content sha wrapped d) org
    \<le> (if f_org f = org then int (length content) else 0) + org_used d org"
proof -
  let ?in = "\<lambda>b. case map_of (profiles d) (b_profile b) of None \<Rightarrow> False | Some f \<Rightarrow> f_org f = org"
  let ?d = "record_version keep c profile f v content sha wrapped d"
  have same: "(case map_of (profiles ?d) (b_profile b) of None \<Rightarrow> False | Some f \<Rightarrow> f_org f = org) = ?in b" for b
    using assms(2) by (simp add: record_version_profiles)
  have pos: "\<forall>b \<in> set (bundles d). 0 \<le> b_size b"
    using assms(1) by (auto simp: store_ok_def row_ok_def)
  have less: "sum_list (map b_size (List.filter ?in (List.filter P bs)))
      \<le> sum_list (map b_size (List.filter ?in bs))" if "\<forall>b \<in> set bs. 0 \<le> b_size b" for P bs
    using that by (induction bs) (auto simp del: filter_filter)
  let ?rows = "\<lparr>b_profile = profile, b_version = v, b_key = (profile, v),
          b_size = int (length content), b_sha256 = sha, b_wrapped_dek = wrapped,
          b_uploaded_by = user_id c\<rparr> # bundles d"
  have "org_used ?d org \<le> sum_list (map b_size (List.filter ?in ?rows))"
    unfolding org_used_def same record_version_rows by (rule less) (use pos in simp)
  also have "\<dots> = (if f_org f = org then int (length content) else 0) + org_used d org"
    using assms(2) by (simp add: org_used_def)
  finally show ?thesis .
qed

text \<open>
  An upload can not take an organisation over its ceiling: if it was at or under it
  before, it is after every accepted upload of one of its own profiles.
\<close>

theorem upload_stays_under_the_ceiling:
  assumes up: "upload_bundle h hexsum lim d now c profile hdr body = (d', Inr v)"
    and ok: "store_ok d" and ceiling: "org_ceiling lim = Some ceiling"
    and own: "map_of (profiles d) profile = Some f" "f_org f = org_id c"
    and before: "org_used d (org_id c) \<le> ceiling"
  shows "org_used d' (org_id c) \<le> ceiling"
proof -
  from up obtain perms token wrapped content f' where
    f: "map_of (profiles d) profile = Some f'"
      "receive lim (org_used d (org_id c)) [] body = Inr content"
      "d' = audit c ''bundle.upload'' (Some profile)
         (record_version (keep_versions lim) c profile f' v content (hexsum content) wrapped d)"
    by (rule upload_bundle_Inr)
  have "org_used d (org_id c) + int (length content) \<le> ceiling"
    using receive_bound [OF f(2) ceiling] before by simp
  moreover have "org_used d' (org_id c) \<le> int (length content) + org_used d (org_id c)"
    using org_used_record [OF ok f(1), of "keep_versions lim" c v content "hexsum content" wrapped "org_id c"]
      own f(1) by (simp add: f(3) org_used_def)
  ultimately show ?thesis by simp
qed

theorem upload_stays_under_the_ceiling_witness: "org_used demo_after 7 \<le> 100"
proof -
  have "org_used demo_after (org_id demo_caller) \<le> 100"
    by (rule upload_stays_under_the_ceiling [OF demo_upload_accepted demo_locked_ok _ demo_locked_rows(1)])
      (simp_all add: demo_limits_def demo_caller_def demo_locked_rows org_used_def)
  then show ?thesis by (simp add: demo_caller_def)
qed

section \<open>A lock that ran out\<close>

text \<open>
  A lock that has run out is not lost for good: as long as nobody has taken it, the
  first heartbeat of its holder brings it back for a whole period, however late it comes,
  and an upload with its token passes the lock check again. (\<open>agent/src/sync.rs\<close> says of a
  lapsed lock that no later renewal can bring it back.)
\<close>

theorem late_heartbeat_revives_the_lock:
  assumes "map_of (profile_locks d) profile = Some l"
    and "l_user l = user_id c" and "l_token_hash l = h token"
    and "now \<le> t" and "t < now + lock_ttl"
  shows "\<exists>d'. heartbeat h d now c profile (Some token) = (d', Inr ())
    \<and> holds_lock h d' t profile token
    \<and> (l_expires_at l \<le> now \<longrightarrow> \<not> holds_lock h d now profile token)"
  using assms by (auto simp: heartbeat_def holds_lock_def table_simps)

theorem late_heartbeat_revives_the_lock_witness:
  "\<not> holds_lock demo_hash demo_locked 5000 20 ''t''
   \<and> (\<exists>d'. heartbeat demo_hash demo_locked 5000 demo_caller 20 (Some ''t'') = (d', Inr ())
        \<and> holds_lock demo_hash d' 5010 20 ''t'')"
  using late_heartbeat_revives_the_lock [OF demo_locked_row, of demo_caller demo_hash "''t''" 5000 5010]
  by (auto simp: demo_row_def demo_caller_def lock_ttl_def)

end
