(* ===== verification/Keys.thy ===== *)
theory Keys
  imports Prelude
begin

text \<open>
  The key hierarchy of \<open>shared-rs/src/keys.rs\<close> and the machine vault of
  \<open>agent/src/vault.rs\<close>. The primitives come from crates (XChaCha20-Poly1305, X25519, HKDF,
  base64) and are the fields of \<open>crypto\<close>; random bytes are arguments. \<open>sound_crypto\<close> states
  what the code relies on of them. A string is its UTF-8 bytes.
\<close>

section \<open>The primitives\<close>

record crypto =
  aead_encrypt :: "bytes \<Rightarrow> bytes \<Rightarrow> bytes \<Rightarrow> bytes" \<comment> \<open>key, nonce, plain text\<close>
  aead_decrypt :: "bytes \<Rightarrow> bytes \<Rightarrow> bytes \<Rightarrow> bytes option"
  base64_encode :: "bytes \<Rightarrow> str"
  base64_decode :: "str \<Rightarrow> bytes option"
  public_of :: "bytes \<Rightarrow> bytes"
  diffie_hellman :: "bytes \<Rightarrow> bytes \<Rightarrow> bytes" \<comment> \<open>secret, public\<close>
  hkdf :: "bytes \<Rightarrow> bytes \<Rightarrow> bytes \<Rightarrow> nat \<Rightarrow> bytes" \<comment> \<open>salt, key material, info, length\<close>

definition sound_crypto :: "crypto \<Rightarrow> bool" where
  "sound_crypto cr \<longleftrightarrow>
     (\<forall>k n p. aead_decrypt cr k n (aead_encrypt cr k n p) = Some p
        \<and> length (aead_encrypt cr k n p) = length p + 16)
     \<and> (\<forall>b. base64_decode cr (base64_encode cr b) = Some b)
     \<and> (\<forall>s t. diffie_hellman cr s (public_of cr t) = diffie_hellman cr t (public_of cr s)
        \<and> length (public_of cr s) = 32)"

definition text_bytes :: "str \<Rightarrow> bytes" where
  "text_bytes s = map (\<lambda>c. word_of_nat (code c)) s"

definition bytes_text :: "bytes \<Rightarrow> str" where
  "bytes_text b = map (\<lambda>w. char_of (unat w)) b"

text \<open>What \<open>String::from_utf8\<close> accepts.\<close>

definition continuation :: "u8 \<Rightarrow> bool" where
  "continuation b \<longleftrightarrow> 128 \<le> b \<and> b \<le> 191"

fun utf8_ok :: "bytes \<Rightarrow> bool" where
  "utf8_ok [] = True"
| "utf8_ok (a # bs) =
     (if a < 128 then utf8_ok bs
      else (case bs of
          [] \<Rightarrow> False
        | b # cs \<Rightarrow>
            if 194 \<le> a \<and> a \<le> 223 then continuation b \<and> utf8_ok cs
            else (case cs of
                [] \<Rightarrow> False
              | c # ds \<Rightarrow>
                  if 224 \<le> a \<and> a \<le> 239 then
                    continuation b \<and> continuation c \<and> (a = 224 \<longrightarrow> 160 \<le> b) \<and> (a = 237 \<longrightarrow> b \<le> 159) \<and> utf8_ok ds
                  else (case ds of
                      [] \<Rightarrow> False
                    | d # es \<Rightarrow> 240 \<le> a \<and> a \<le> 244 \<and> continuation b \<and> continuation c \<and> continuation d
                        \<and> (a = 240 \<longrightarrow> 144 \<le> b) \<and> (a = 244 \<longrightarrow> b \<le> 143) \<and> utf8_ok es))))"

definition from_utf8 :: "bytes \<Rightarrow> str option" where
  "from_utf8 b = (if utf8_ok b then Some (bytes_text b) else None)"

section \<open>Sealing under a key\<close>

datatype key_error = OpenFailed | BadLength nat nat | UnusableKey

definition nonce_len :: nat where
  "nonce_len = 24"

definition key_len :: nat where
  "key_len = 32"

definition wrap :: "crypto \<Rightarrow> bytes \<Rightarrow> bytes \<Rightarrow> bytes \<Rightarrow> bytes" where
  "wrap cr nonce key plain = nonce @ aead_encrypt cr key nonce plain"

definition unwrap :: "crypto \<Rightarrow> bytes \<Rightarrow> bytes \<Rightarrow> key_error + bytes" where
  "unwrap cr key blob =
     (if length blob \<le> nonce_len then Inl (BadLength (nonce_len + 1) (length blob))
      else (case aead_decrypt cr key (take nonce_len blob) (drop nonce_len blob) of
          None \<Rightarrow> Inl OpenFailed
        | Some p \<Rightarrow> Inr p))"

section \<open>Sealing to a public key\<close>

text \<open>\<open>was_contributory\<close> is false exactly when the shared secret is all zeros.\<close>

definition was_contributory :: "bytes \<Rightarrow> bool" where
  "was_contributory shared \<longleftrightarrow> \<not> list_all (\<lambda>b. b = 0) shared"

definition derive :: "crypto \<Rightarrow> bytes \<Rightarrow> bytes \<Rightarrow> bytes \<Rightarrow> bytes" where
  "derive cr shared eph_public recipient =
     hkdf cr (eph_public @ recipient) shared (text_bytes ''fury-seal-v1'') key_len"

definition seal_to :: "crypto \<Rightarrow> bytes \<Rightarrow> bytes \<Rightarrow> bytes \<Rightarrow> bytes \<Rightarrow> key_error + bytes" where
  "seal_to cr eph nonce recipient_public plain =
     (let eph_public = public_of cr eph;
          shared = diffie_hellman cr eph recipient_public
      in if \<not> was_contributory shared then Inl UnusableKey
         else Inr (eph_public @ wrap cr nonce (derive cr shared eph_public recipient_public) plain))"

definition open_sealed :: "crypto \<Rightarrow> bytes \<Rightarrow> bytes \<Rightarrow> key_error + bytes" where
  "open_sealed cr secret blob =
     (if length blob \<le> key_len + nonce_len then
        Inl (BadLength (key_len + nonce_len + 1) (length blob))
      else (let eph_public = take key_len blob;
                recipient_public = public_of cr secret;
                shared = diffie_hellman cr secret eph_public
            in if \<not> was_contributory shared then Inl UnusableKey
               else unwrap cr (derive cr shared eph_public recipient_public) (drop key_len blob)))"

section \<open>Keys for one object\<close>

definition subkey_info :: "str \<Rightarrow> str \<Rightarrow> bytes" where
  "subkey_info label i = text_bytes label @ [0] @ text_bytes i"

definition subkey :: "crypto \<Rightarrow> bytes \<Rightarrow> str \<Rightarrow> str \<Rightarrow> bytes" where
  "subkey cr ork label i = hkdf cr [] ork (subkey_info label i) key_len"

definition os_crypt_key :: "crypto \<Rightarrow> bytes \<Rightarrow> str \<Rightarrow> bytes" where
  "os_crypt_key cr profile_key profile = subkey cr profile_key ''fury-oscrypt-v1'' profile"

definition key_fingerprint :: "crypto \<Rightarrow> bytes \<Rightarrow> str" where
  "key_fingerprint cr key =
     hex_of_bytes (hkdf cr [] key (text_bytes ''fury-oscrypt-id-v1'') 8)"

definition shared_bundle_prefix :: str where
  "shared_bundle_prefix = ''fury:ork1:''"

section \<open>The machine vault\<close>

text \<open>The key is read from the credential store (\<open>load\<close>) when it is first needed.\<close>

datatype vault_key = Unread | Have bytes | Failed

definition vault_read :: "bytes option \<Rightarrow> vault_key \<Rightarrow> vault_key" where
  "vault_read load k = (case k of Unread \<Rightarrow> (case load of Some key \<Rightarrow> Have key | None \<Rightarrow> Failed) | _ \<Rightarrow> k)"

definition vault_get :: "bytes option \<Rightarrow> vault_key \<Rightarrow> vault_key \<times> bytes option" where
  "vault_get load k =
     (let k' = vault_read load k in (k', case k' of Have key \<Rightarrow> Some key | _ \<Rightarrow> None))"

definition vault_retry :: "bytes option \<Rightarrow> vault_key \<Rightarrow> vault_key \<times> bool" where
  "vault_retry load k =
     (let (k', key) = vault_get load (case k of Failed \<Rightarrow> Unread | _ \<Rightarrow> k) in (k', key \<noteq> None))"

definition vault_prefix :: str where
  "vault_prefix = ''fury:v1:''"

definition vault_seal :: "crypto \<Rightarrow> bytes option \<Rightarrow> bytes \<Rightarrow> str \<Rightarrow> str" where
  "vault_seal cr key nonce plain =
     (case key of
        None \<Rightarrow> plain
      | Some k \<Rightarrow> vault_prefix @ base64_encode cr (nonce @ aead_encrypt cr k nonce (text_bytes plain)))"

definition vault_try_open :: "crypto \<Rightarrow> bytes option \<Rightarrow> str \<Rightarrow> str option" where
  "vault_try_open cr key stored =
     (case strip_prefix vault_prefix stored of
        None \<Rightarrow> Some stored
      | Some rest \<Rightarrow> (case key of
            None \<Rightarrow> None
          | Some k \<Rightarrow> (case base64_decode cr rest of
                None \<Rightarrow> None
              | Some blob \<Rightarrow>
                  if length blob \<le> nonce_len then None
                  else (case aead_decrypt cr k (take nonce_len blob) (drop nonce_len blob) of
                      None \<Rightarrow> None
                    | Some p \<Rightarrow> from_utf8 p))))"

definition vault_open_value :: "crypto \<Rightarrow> bytes option \<Rightarrow> str \<Rightarrow> str" where
  "vault_open_value cr key stored = (case vault_try_open cr key stored of None \<Rightarrow> [] | Some s \<Rightarrow> s)"

definition vault_opens :: "crypto \<Rightarrow> bytes option \<Rightarrow> str \<Rightarrow> bool" where
  "vault_opens cr key stored = (vault_try_open cr key stored \<noteq> None)"

definition vault_available :: "bytes option \<Rightarrow> bool" where
  "vault_available key = (key \<noteq> None)"

section \<open>Text and bytes\<close>

lemma bytes_text_bytes [simp]: "bytes_text (text_bytes s) = s"
proof -
  have "char_of (unat (word_of_nat (code c) :: u8)) = c" for c
    by (simp add: unat_of_nat)
  then show ?thesis by (simp add: text_bytes_def bytes_text_def comp_def map_idI)
qed

lemma text_bytes_append: "text_bytes (s @ t) = text_bytes s @ text_bytes t"
  by (simp add: text_bytes_def)

lemma text_bytes_inject: "text_bytes s = text_bytes t \<longleftrightarrow> s = t"
  by (metis bytes_text_bytes)

lemma text_bytes_length [simp]: "length (text_bytes s) = length s"
  by (simp add: text_bytes_def)

lemma utf8_ascii: "list_all (\<lambda>c. code c < 128) s \<Longrightarrow> utf8_ok (text_bytes s)"
proof (induction s)
  case (Cons c s)
  then have "code c < 128" by simp
  then have "unat (word_of_nat (code c) :: u8) < unat (128 :: u8)"
    by (simp add: unat_word_of_nat_u8)
  then have "(word_of_nat (code c) :: u8) < 128"
    by (simp only: word_less_nat_alt)
  then show ?case
    using Cons by (simp add: text_bytes_def)
qed (simp add: text_bytes_def)

section \<open>What was sealed opens\<close>

lemma unwrap_wrap:
  assumes "sound_crypto cr" and "length nonce = nonce_len"
  shows "unwrap cr key (wrap cr nonce key plain) = Inr plain"
  using assms by (simp add: sound_crypto_def wrap_def unwrap_def)

lemma wrap_length:
  "sound_crypto cr \<Longrightarrow> length nonce = nonce_len \<Longrightarrow>
   length (wrap cr nonce key plain) = nonce_len + length plain + 16"
  by (simp add: sound_crypto_def wrap_def)

text \<open>
  A value sealed to a member's public key is opened by the holder of the private key
  and gives back what was sealed; a public key whose exchange yields the all-zero secret is
  refused rather than sealed to.
\<close>

theorem sealed_to_a_member_opens:
  assumes "sound_crypto cr" and "length nonce = nonce_len"
  shows "seal_to cr eph nonce (public_of cr secret) plain = Inl UnusableKey
       \<and> \<not> was_contributory (diffie_hellman cr eph (public_of cr secret))
    \<or> (\<exists>blob. seal_to cr eph nonce (public_of cr secret) plain = Inr blob
        \<and> open_sealed cr secret blob = Inr plain)"
proof -
  let ?shared = "diffie_hellman cr eph (public_of cr secret)"
  let ?key = "derive cr ?shared (public_of cr eph) (public_of cr secret)"
  have sym: "diffie_hellman cr secret (public_of cr eph) = ?shared"
    and len: "length (public_of cr eph) = key_len"
    using assms(1) by (simp_all add: sound_crypto_def key_len_def)
  have "open_sealed cr secret (public_of cr eph @ wrap cr nonce ?key plain) = Inr plain"
    if "was_contributory ?shared"
    using that unwrap_wrap [OF assms] len wrap_length [OF assms]
    by (simp add: open_sealed_def Let_def sym)
  then show ?thesis by (simp add: seal_to_def Let_def)
qed

text \<open>A toy cipher that keeps the laws: the key and nonce are prepended.\<close>

definition toy_crypto :: crypto where
  "toy_crypto = \<lparr>aead_encrypt = (\<lambda>k n p. p @ replicate 16 0),
     aead_decrypt = (\<lambda>k n c. Some (take (length c - 16) c)),
     base64_encode = bytes_text, base64_decode = (\<lambda>s. Some (text_bytes s)),
     public_of = (\<lambda>s. replicate 32 (if s = [] then 0 else hd s)),
     diffie_hellman = (\<lambda>s p. [(if s = [] then 0 else hd s) + hd p]),
     hkdf = (\<lambda>salt ikm info n. take n (ikm @ info))\<rparr>"

lemma text_bytes_text [simp]: "text_bytes (bytes_text b) = b"
proof -
  have "word_of_nat (code (char_of (unat w))) = w" for w :: u8
  proof -
    have "unat w < 256" using unsigned_less [of w, where 'a = nat] by simp
    then show ?thesis by simp
  qed
  then show ?thesis by (simp add: text_bytes_def bytes_text_def comp_def map_idI)
qed

lemma toy_sound: "sound_crypto toy_crypto"
  by (simp add: sound_crypto_def toy_crypto_def add.commute)

theorem sealed_to_a_member_opens_witness:
  "\<exists>blob. seal_to toy_crypto [3] (replicate 24 9) (public_of toy_crypto [4]) [5, 6] = Inr blob
     \<and> open_sealed toy_crypto [4] blob = Inr [5, 6]"
  using sealed_to_a_member_opens [OF toy_sound, of "replicate 24 9" "[3]" "[4]" "[5, 6]"]
  by (simp add: nonce_len_def was_contributory_def toy_crypto_def)

section \<open>One key per object\<close>

lemma append_separator:
  "x \<notin> set a \<Longrightarrow> x \<notin> set b \<Longrightarrow> a @ x # s = b @ x # t \<longleftrightarrow> a = b \<and> s = t"
proof (induction a arbitrary: b)
  case Nil
  then show ?case by (cases b) auto
next
  case (Cons y a)
  then show ?case by (cases b) auto
qed

lemma text_bytes_zero: "CHR 0x00 \<notin> set s \<Longrightarrow> 0 \<notin> set (text_bytes s)"
proof
  assume "CHR 0x00 \<notin> set s" and "0 \<in> set (text_bytes s)"
  then obtain c where c: "c \<in> set s" and "word_of_nat (code c) = (0 :: u8)"
    by (auto simp: text_bytes_def)
  then have "unat (word_of_nat (code c) :: u8) = 0" by simp
  then have "code c mod 256 = 0"
    by (simp only: unat_word_of_nat_u8)
  then have "code c = 0"
    using code_less [of c] by simp
  then have "c = char_of (0 :: nat)"
    by (metis char_of_char)
  moreover have "char_of (0 :: nat) = CHR 0x00"
    by (simp add: char_of_def)
  ultimately have "c = CHR 0x00" by simp
  with c \<open>CHR 0x00 \<notin> set s\<close> show False by simp
qed

text \<open>
  A label and an identifier can not be cut anew to give the same derivation input: for
  labels without a zero byte, equal inputs come from the same label and the same
  identifier, so no two objects share a key for that reason.
\<close>

lemma subkey_inputs_do_not_collide:
  assumes "CHR 0x00 \<notin> set label" and "CHR 0x00 \<notin> set label'"
    and "subkey_info label i = subkey_info label' i'"
  shows "label = label' \<and> i = i'"
  using assms append_separator [OF text_bytes_zero [OF assms(1)] text_bytes_zero [OF assms(2)]]
  by (simp add: subkey_info_def text_bytes_inject)

theorem subkey_inputs_do_not_collide_witness:
  "subkey_info ''ab'' ''c'' \<noteq> subkey_info ''a'' ''bc''"
  using subkey_inputs_do_not_collide [of "''ab''" "''a''" "''c''" "''bc''"] by auto

section \<open>What the vault gives back\<close>

lemma strip_prefix_append [simp]: "strip_prefix p (p @ s) = Some s"
  by (simp add: strip_prefix_def)

text \<open>
  A text sealed by the vault reads back as it was. Without a machine key it is stored
  as typed and reads back too, unless it starts like a sealed value; a sealed value is then
  never handed out, it reads as empty. A value stored before the vault existed reads as it
  is.
\<close>

theorem vault_gives_back_what_was_sealed:
  assumes "sound_crypto cr" and "length nonce = nonce_len" and "utf8_ok (text_bytes plain)"
    and "key = None \<Longrightarrow> strip_prefix vault_prefix plain = None"
  shows "vault_open_value cr key (vault_seal cr key nonce plain) = plain
    \<and> vault_opens cr key (vault_seal cr key nonce plain)
    \<and> vault_open_value cr None (vault_prefix @ rest) = []
    \<and> (strip_prefix vault_prefix old = None \<longrightarrow> vault_open_value cr key old = old)"
  using assms
  by (cases key)
    (auto simp: vault_open_value_def vault_opens_def vault_try_open_def vault_seal_def sound_crypto_def
      from_utf8_def)

theorem vault_gives_back_what_was_sealed_witness:
  "vault_open_value toy_crypto (Some [1]) (vault_seal toy_crypto (Some [1]) (replicate 24 0) ''pw'') = ''pw''"
  using vault_gives_back_what_was_sealed [OF toy_sound, of "replicate 24 0" "''pw''" "Some [1]"]
  by (simp add: nonce_len_def text_bytes_def)

end
