(* ===== verification/Profile_Bundle.thy ===== *)
theory Profile_Bundle
  imports Keys
begin

text \<open>
  The profile bundle of \<open>agent/src/bundle.rs\<close>: which files of a profile directory are
  packed, how the archive is sealed and its key wrapped, and how a bundle is unpacked over
  a directory. The tar and gzip crates are the fields of \<open>archiver\<close>; a file system is a map
  from absolute paths to contents. I/O failures of single reads and writes are not modelled.
\<close>

section \<open>What is packed\<close>

datatype fs_entry = File bytes | Dir "(str \<times> fs_entry) list" | Other

definition skip_names :: "str list" where
  "skip_names = [''SingletonLock'', ''SingletonSocket'', ''SingletonCookie'', ''lockfile'',
     ''DevToolsActivePort'']"

definition skip_components :: "str list" where
  "skip_components =
     [''WasmTtsEngine'', ''OnDeviceHeadSuggestModel'', ''ActorSafetyLists'',
      ''AmountExtractionHeuristicRegexes'', ''CaptchaProviders'', ''Crowd Deny'', ''FileTypePolicies'',
      ''FirstPartySetsPreloaded'', ''MEIPreload'', ''OptimizationHints'', ''OriginTrials'', ''PKIMetadata'',
      ''PrivacySandboxAttestationsPreloaded'', ''SSLErrorAssistant'', ''SafetyTips'',
      ''TrustTokenKeyCommitments'', ''ZxcvbnData'', ''GPUPersistentCache'', ''extensions_crx_cache'',
      ''BrowserMetrics'', ''BrowserMetrics-spare.pma'', ''hyphen-data'', ''WidevineCdm'']"

definition skip_caches :: "str list" where
  "skip_caches =
     [''download_cache'', ''GraphiteDawnCache'', ''component_crx_cache'', ''CertificateRevocation'',
      ''Subresource Filter'', ''segmentation_platform'', ''Cache'', ''Code Cache'', ''GPUCache'',
      ''DawnGraphiteCache'', ''DawnWebGPUCache'', ''ShaderCache'', ''GrShaderCache'', ''Shared Dictionary'',
      ''optimization_guide_hint_cache_store'', ''CacheStorage'']"

definition is_cache_dir :: "str \<Rightarrow> bool" where
  "is_cache_dir name = list_ex (\<lambda>s. s = name) skip_caches"

definition skipped :: "bool \<Rightarrow> str \<Rightarrow> bool" where
  "skipped at_root name \<longleftrightarrow>
     name \<in> set skip_names \<or> name \<in> set skip_caches
     \<or> at_root \<and> (name \<in> set skip_components \<or> suffix ''.bdic'' name)"

function append_dir :: "bool \<Rightarrow> (str \<times> fs_entry) list \<Rightarrow> (str list \<times> bytes) list" where
  "append_dir at_root [] = []"
| "append_dir at_root ((name, e) # rest) =
     (if skipped at_root name then []
      else (case e of
          Dir es \<Rightarrow> map (\<lambda>(p, c). (name # p, c)) (append_dir False es)
        | File c \<Rightarrow> [([name], c)]
        | Other \<Rightarrow> [])) @ append_dir at_root rest"
  by pat_completeness auto
termination
  by (relation "measure (\<lambda>(_, es). size_list (size_prod (\<lambda>_. 0) size) es)") auto

section \<open>Sealing a bundle\<close>

datatype component = RootDir | CurDir | ParentDir | Normal str

record tar_entry =
  te_path :: "component list"
  te_file :: bool
  te_data :: bytes

record archiver =
  tar_gz :: "(str list \<times> bytes) list \<Rightarrow> bytes"
  untar_gz :: "bytes \<Rightarrow> tar_entry option list option" \<comment> \<open>an entry may be broken\<close>
  sha256_digest :: "bytes \<Rightarrow> bytes"

definition sound_archiver :: "archiver \<Rightarrow> bool" where
  "sound_archiver ar \<longleftrightarrow>
     (\<forall>xs. untar_gz ar (tar_gz ar xs)
        = Some (map (\<lambda>(p, c). Some \<lparr>te_path = map Normal p, te_file = True, te_data = c\<rparr>) xs))"

text \<open>A vault is the key it could read, if any.\<close>

datatype sealer = Machine "bytes option" | Shared bytes "bytes option option"

definition sealer_seal :: "crypto \<Rightarrow> sealer \<Rightarrow> bytes \<Rightarrow> str \<Rightarrow> str" where
  "sealer_seal cr s nonce plain =
     (case s of
        Machine v \<Rightarrow> vault_seal cr v nonce plain
      | Shared key _ \<Rightarrow> shared_bundle_prefix @ base64_encode cr (wrap cr nonce key (text_bytes plain)))"

definition sealer_open :: "crypto \<Rightarrow> sealer \<Rightarrow> str \<Rightarrow> str" where
  "sealer_open cr s stored =
     (case s of
        Machine v \<Rightarrow>
          if prefix shared_bundle_prefix stored then [] else vault_open_value cr v stored
      | Shared key vault \<Rightarrow>
          (case strip_prefix shared_bundle_prefix stored of
             None \<Rightarrow> (case vault of None \<Rightarrow> [] | Some v \<Rightarrow> vault_open_value cr v stored)
           | Some rest \<Rightarrow> (case base64_decode cr rest of
                 None \<Rightarrow> []
               | Some blob \<Rightarrow> (case unwrap cr key blob of
                     Inl _ \<Rightarrow> []
                   | Inr v \<Rightarrow> (case from_utf8 v of None \<Rightarrow> [] | Some t \<Rightarrow> t)))))"

definition sealer_available :: "sealer \<Rightarrow> bool" where
  "sealer_available s = (case s of Machine v \<Rightarrow> vault_available v | Shared _ _ \<Rightarrow> True)"

definition magic :: bytes where
  "magic = text_bytes ''FURY-BN1''"

fun unhex_pairs :: "str \<Rightarrow> bytes option" where
  "unhex_pairs [] = Some []"
| "unhex_pairs [_] = None"
| "unhex_pairs (a # b # s) =
     (case parse_hex 255 [a, b] of
        None \<Rightarrow> None
      | Some n \<Rightarrow> map_option ((#) (word_of_nat n)) (unhex_pairs s))"

definition unhex :: "str \<Rightarrow> bytes option" where
  "unhex s = (if length s \<noteq> 64 then None else unhex_pairs s)"

record sealed =
  sl_bytes :: bytes
  sl_wrapped_key :: str
  sl_sha256 :: str

datatype bundle_error =
  NoCredentialStore | NotABundle | KeyDoesNotOpen | Unreadable | BadArchive | EscapingPath

text \<open>The data key and the two nonces are random.\<close>

definition pack ::
    "crypto \<Rightarrow> archiver \<Rightarrow> bytes \<Rightarrow> bytes \<Rightarrow> bytes \<Rightarrow> sealer \<Rightarrow> (str \<times> fs_entry) list option
     \<Rightarrow> bundle_error + sealed" where
  "pack cr ar data_key nonce key_nonce s dir =
     (let compressed = tar_gz ar (case dir of None \<Rightarrow> [] | Some es \<Rightarrow> append_dir True es);
          bs = magic @ nonce @ aead_encrypt cr data_key nonce compressed;
          wrapped = sealer_seal cr s key_nonce (hex_of_bytes data_key)
      in if \<not> sealer_available s then Inl NoCredentialStore
         else Inr \<lparr>sl_bytes = bs, sl_wrapped_key = wrapped,
                   sl_sha256 = hex_of_bytes (sha256_digest ar bs)\<rparr>)"

section \<open>Unpacking\<close>

type_synonym file_system = "str list \<Rightarrow> bytes option"

fun normals :: "component list \<Rightarrow> str list" where
  "normals [] = []"
| "normals (Normal n # cs) = n # normals cs"
| "normals (_ # cs) = normals cs"

text \<open>\<open>dest.join(path)\<close>: an absolute path replaces the destination.\<close>

definition join_path :: "str list \<Rightarrow> component list \<Rightarrow> str list" where
  "join_path dest path =
     (case path of RootDir # p \<Rightarrow> normals p | _ \<Rightarrow> dest @ normals path)"

fun write_entries ::
    "str list \<Rightarrow> file_system \<Rightarrow> nat \<Rightarrow> tar_entry option list \<Rightarrow> file_system \<times> (bundle_error + nat)" where
  "write_entries dest fs n [] = (fs, Inr n)"
| "write_entries dest fs n (None # es) = (fs, Inl BadArchive)"
| "write_entries dest fs n (Some e # es) =
     (if ParentDir \<in> set (te_path e) then (fs, Inl EscapingPath)
      else if \<not> te_file e then write_entries dest fs n es
      else write_entries dest (fs(join_path dest (te_path e) \<mapsto> te_data e)) (n + 1) es)"

definition unpack ::
    "crypto \<Rightarrow> archiver \<Rightarrow> sealer \<Rightarrow> str list \<Rightarrow> file_system \<Rightarrow> bytes \<Rightarrow> str
     \<Rightarrow> file_system \<times> (bundle_error + nat)" where
  "unpack cr ar s dest fs content wrapped_key =
     (if length content < length magic + nonce_len \<or> take (length magic) content \<noteq> magic then (fs, Inl NotABundle)
      else (case unhex (sealer_open cr s wrapped_key) of
          None \<Rightarrow> (fs, Inl KeyDoesNotOpen)
        | Some key \<Rightarrow>
            (let nonce = take nonce_len (drop (length magic) content);
                 body = drop (length magic + nonce_len) content
             in case aead_decrypt cr key nonce body of
                  None \<Rightarrow> (fs, Inl Unreadable)
                | Some compressed \<Rightarrow> (case untar_gz ar compressed of
                      None \<Rightarrow> (fs, Inl BadArchive)
                    | Some es \<Rightarrow> write_entries dest fs 0 es))))"

section \<open>The paths that are packed\<close>

function names_distinct :: "(str \<times> fs_entry) list \<Rightarrow> bool" where
  "names_distinct [] = True"
| "names_distinct ((name, e) # rest) \<longleftrightarrow>
     name \<notin> fst ` set rest \<and> (case e of Dir es \<Rightarrow> names_distinct es | _ \<Rightarrow> True) \<and> names_distinct rest"
  by pat_completeness auto
termination
  by (relation "measure (size_list (size_prod (\<lambda>_. 0) size))") auto

lemma append_dir_mem:
  "(p, c) \<in> set (append_dir r ((name, e) # rest)) \<longleftrightarrow>
     \<not> skipped r name \<and> (\<exists>es q. e = Dir es \<and> p = name # q \<and> (q, c) \<in> set (append_dir False es))
     \<or> \<not> skipped r name \<and> e = File c \<and> p = [name]
     \<or> (p, c) \<in> set (append_dir r rest)"
  by (cases e) auto

lemma append_dir_head: "(p, c) \<in> set (append_dir r es) \<Longrightarrow> \<exists>n q. p = n # q \<and> n \<in> fst ` set es"
proof (induction es)
  case (Cons x rest)
  obtain name e where x: "x = (name, e)" by (cases x)
  show ?case using Cons unfolding x append_dir_mem by force
qed simp

lemma append_dir_distinct: "names_distinct es \<Longrightarrow> distinct (map fst (append_dir r es))"
proof (induction r es rule: append_dir.induct)
  case (2 r name e rest)
  have rest: "distinct (map fst (append_dir r rest))"
    using 2 by simp
  have other: "(name # q, c) \<notin> set (append_dir r rest)" for q c
    using append_dir_head [of "name # q" c r rest] 2(3) by auto
  show ?case
  proof (cases e)
    case (Dir es)
    let ?own = "map (\<lambda>(p, c). (name # p, c)) (append_dir False es)"
    have fsts: "map fst ?own = map ((#) name) (map fst (append_dir False es))"
      by (simp add: comp_def case_prod_beta)
    have "distinct ps \<Longrightarrow> distinct (map ((#) name) ps)" for ps
      by (simp add: distinct_map)
    moreover have "skipped r name \<or> distinct (map fst (append_dir False es))"
      using 2 Dir by auto
    ultimately have "skipped r name \<or> distinct (map fst ?own)"
      unfolding fsts by blast
    moreover have "fst ` set ?own \<inter> fst ` set (append_dir r rest) = {}"
      using other by auto
    ultimately show ?thesis
      using rest Dir by auto
  qed (use rest other in auto)
qed simp

text \<open>Nothing that is skipped, at whatever depth, is in the archive.\<close>

lemma append_dir_skips:
  "(p, c) \<in> set (append_dir r es) \<Longrightarrow>
   \<not> skipped r (hd p) \<and> (\<forall>n \<in> set p. \<not> skipped False n)"
proof (induction r es arbitrary: p c rule: append_dir.induct)
  case (2 r name e rest)
  have at_root: "\<not> skipped r name \<Longrightarrow> \<not> skipped False name"
    by (simp add: skipped_def)
  consider es q where "\<not> skipped r name" "e = Dir es" "p = name # q" "(q, c) \<in> set (append_dir False es)"
    | "\<not> skipped r name" "p = [name]"
    | "(p, c) \<in> set (append_dir r rest)"
    using 2(3) unfolding append_dir_mem by blast
  then show ?case
  proof cases
    case 1
    then show ?thesis using 2(1) at_root by auto
  next
    case 2
    then show ?thesis using at_root by simp
  next
    case 3
    then show ?thesis using 2(2) by simp
  qed
qed simp

section \<open>A bundle gives back the directory\<close>

lemma normals_map [simp]: "normals (map Normal p) = p"
  by (induction p) auto

lemma join_path_normal [simp]: "join_path dest (map Normal p) = dest @ p"
  by (cases p) (auto simp: join_path_def)

lemma write_entries_plain:
  "write_entries dest fs n (map (\<lambda>(p, c). Some \<lparr>te_path = map Normal p, te_file = True, te_data = c\<rparr>) xs)
     = (foldl (\<lambda>m (p, c). m(dest @ p \<mapsto> c)) fs xs, Inr (n + length xs))"
  by (induction xs arbitrary: fs n) auto

lemma foldl_update_other:
  "(\<forall>(p, c) \<in> set xs. q \<noteq> dest @ p) \<Longrightarrow> foldl (\<lambda>m (p, c). m(dest @ p \<mapsto> c)) fs xs q = fs q"
  by (induction xs arbitrary: fs) auto

lemma foldl_update_mem:
  "distinct (map fst xs) \<Longrightarrow> (p, c) \<in> set xs \<Longrightarrow>
   foldl (\<lambda>m (p, c). m(dest @ p \<mapsto> c)) fs xs (dest @ p) = Some c"
proof (induction xs arbitrary: fs)
  case (Cons x xs)
  show ?case
  proof (cases "x = (p, c)")
    case True
    then have "\<forall>(q, d) \<in> set xs. dest @ p \<noteq> dest @ q"
      using Cons.prems(1) by (force simp: image_iff)
    then have "foldl (\<lambda>m (p, c). m(dest @ p \<mapsto> c)) (fs(dest @ p \<mapsto> c)) xs (dest @ p)
        = (fs(dest @ p \<mapsto> c)) (dest @ p)"
      by (rule foldl_update_other)
    then show ?thesis by (simp only: True foldl_Cons prod.case fun_upd_same)
  next
    case False
    then show ?thesis using Cons by (cases x) auto
  qed
qed simp

text \<open>The wrapped key opens to the data key.\<close>

lemma hexdigit_ascii: "is_hexdigit c \<Longrightarrow> code c < 128"
  by (auto simp: is_hexdigit_def hex_value_def is_digit_def split: if_splits)

lemma hex_of_bytes_hexdigits: "list_all is_hexdigit (hex_of_bytes b)"
  by (induction b) (auto simp: hex_of_bytes_def hex_digits_hexdigits simp del: hex_digits.simps)

lemma hex_of_bytes_ascii: "utf8_ok (text_bytes (hex_of_bytes b))"
  using hex_of_bytes_hexdigits [of b] by (intro utf8_ascii) (auto simp: list_all_iff hexdigit_ascii)

lemma hex_of_bytes_length: "length (hex_of_bytes b) = 2 * length b"
  by (induction b) (auto simp: hex_of_bytes_def simp del: hex_digits.simps)

lemma u8_bound: "unat (w :: u8) < 256"
  using unsigned_less [of w, where 'a = nat] by simp

lemma parse_hex_two: "parse_hex 255 (hex_digits 2 (unat (w :: u8))) = Some (unat w)"
  using u8_bound [of w] hex_digits_hexdigits [of 2 "unat w"]
  by (simp add: parse_hex_def unsigned_digits_hex hex_fold_digits del: hex_digits.simps)

lemma unhex_pairs_hex: "unhex_pairs (hex_of_bytes b) = Some b"
proof (induction b)
  case (Cons w b)
  obtain x y where xy: "hex_digits 2 (unat w) = [x, y]"
    by (simp add: numeral_2_eq_2)
  then have "hex_of_bytes (w # b) = x # y # hex_of_bytes b"
    by (simp add: hex_of_bytes_def del: hex_digits.simps)
  then show ?case
    using Cons parse_hex_two [of w] xy by simp
qed (simp add: hex_of_bytes_def)

interpretation key_text: codec hex_of_bytes unhex "\<lambda>b. length b = 32"
  by unfold_locales (simp add: unhex_def hex_of_bytes_length unhex_pairs_hex)

definition opens_with :: "sealer \<Rightarrow> sealer \<Rightarrow> bool" where
  "opens_with s t \<longleftrightarrow>
     (\<exists>k v v'. s = Shared k v \<and> t = Shared k v')
     \<or> (\<exists>k. s = Machine (Some k) \<and> (t = Machine (Some k) \<or> (\<exists>k'. t = Shared k' (Some (Some k)))))"

lemma prefixes_differ [simp]:
  "strip_prefix shared_bundle_prefix (vault_prefix @ x) = None"
  "\<not> prefix shared_bundle_prefix (vault_prefix @ x)"
  by (simp_all add: strip_prefix_def shared_bundle_prefix_def vault_prefix_def)

lemma sealer_open_seal:
  assumes "sound_crypto cr" and "length nonce = nonce_len" and "opens_with s t"
  shows "sealer_open cr t (sealer_seal cr s nonce (hex_of_bytes b)) = hex_of_bytes b"
  using assms hex_of_bytes_ascii [of b]
  by (auto simp: opens_with_def sealer_open_def sealer_seal_def vault_seal_def vault_open_value_def
      vault_try_open_def unwrap_wrap from_utf8_def sound_crypto_def)

text \<open>
  C29. A packed profile unpacks to the same files, on another machine too: whoever holds the
  profile key (or, for a bundle packed without one, the key of the machine that packed it)
  finds every file the rules select under the destination with the packed content, and no
  other path of the file system is touched. What the rules never select, at whatever depth:
  the lock files and caches.
\<close>

theorem unpack_gives_back_what_was_packed:
  assumes cr: "sound_crypto cr" and ar: "sound_archiver ar"
    and len: "length data_key = 32" "length nonce = nonce_len" "length key_nonce = nonce_len"
    and names: "names_distinct tree" and opens: "opens_with s t"
    and packed: "pack cr ar data_key nonce key_nonce s (Some tree) = Inr b"
  shows "\<exists>fs'. unpack cr ar t dest fs (sl_bytes b) (sl_wrapped_key b)
        = (fs', Inr (length (append_dir True tree)))
    \<and> (\<forall>(p, c) \<in> set (append_dir True tree). fs' (dest @ p) = Some c \<and> (\<forall>n \<in> set p. \<not> skipped False n))
    \<and> (\<forall>q. (\<forall>(p, c) \<in> set (append_dir True tree). q \<noteq> dest @ p) \<longrightarrow> fs' q = fs q)"
proof -
  let ?xs = "append_dir True tree"
  let ?fs = "foldl (\<lambda>m (p, c). m(dest @ p \<mapsto> c)) fs ?xs"
  have b: "sl_bytes b = magic @ nonce @ aead_encrypt cr data_key nonce (tar_gz ar ?xs)"
    "sl_wrapped_key b = sealer_seal cr s key_nonce (hex_of_bytes data_key)"
    using packed by (auto simp: pack_def Let_def split: if_splits)
  have key: "unhex (sealer_open cr t (sl_wrapped_key b)) = Some data_key"
    using sealer_open_seal [OF cr len(3) opens] key_text.dec_enc [OF len(1)] by (simp add: b)
  have open_body: "aead_decrypt cr data_key nonce (aead_encrypt cr data_key nonce p) = Some p" for p
    using cr by (simp add: sound_crypto_def)
  have "unpack cr ar t dest fs (sl_bytes b) (sl_wrapped_key b) = (?fs, Inr (length ?xs))"
    using key ar len(2) by (simp add: unpack_def b(1) open_body sound_archiver_def write_entries_plain Let_def)
  moreover have "?fs (dest @ p) = Some c \<and> (\<forall>n \<in> set p. \<not> skipped False n)"
    if "(p, c) \<in> set ?xs" for p c
    using foldl_update_mem [OF append_dir_distinct [OF names] that] append_dir_skips [OF that] by blast
  ultimately show ?thesis
    using foldl_update_other by (auto simp: case_prod_beta)
qed

text \<open>An archiver that keeps its law, for the witness: items are preceded by 1, ended by 0.\<close>

definition put_bytes :: "bytes \<Rightarrow> bytes" where
  "put_bytes bs = concat (map (\<lambda>b. [1, b]) bs) @ [0]"

fun get_bytes :: "bytes \<Rightarrow> bytes \<times> bytes" where
  "get_bytes (a # b # r) = (if a = 1 then (case get_bytes r of (x, r') \<Rightarrow> (b # x, r')) else ([], b # r))"
| "get_bytes r = ([], [])"

definition put_chunks :: "bytes list \<Rightarrow> bytes" where
  "put_chunks cs = concat (map (\<lambda>c. 1 # put_bytes c) cs) @ [0]"

fun get_chunks :: "nat \<Rightarrow> bytes \<Rightarrow> bytes list" where
  "get_chunks (Suc n) (a # r) = (if a = 1 then (case get_bytes r of (c, r') \<Rightarrow> c # get_chunks n r') else [])"
| "get_chunks _ _ = []"

lemma get_put_bytes: "get_bytes (put_bytes bs @ r) = (bs, r)"
proof (induction bs)
  case Nil
  then show ?case by (cases r) (auto simp: put_bytes_def)
qed (simp add: put_bytes_def)

lemma get_put_chunks: "length cs \<le> n \<Longrightarrow> get_chunks n (put_chunks cs) = cs"
proof (induction cs arbitrary: n)
  case Nil
  then show ?case by (cases n) (auto simp: put_chunks_def)
next
  case (Cons c cs)
  then obtain m where "n = Suc m" "length cs \<le> m" by (cases n) auto
  then show ?case
    using Cons.IH get_put_bytes [of c "put_chunks cs"] by (simp add: put_chunks_def)
qed

lemma put_chunks_length: "length cs \<le> length (put_chunks cs)"
  by (induction cs) (auto simp: put_chunks_def)

definition toy_archiver :: archiver where
  "toy_archiver = \<lparr>tar_gz = (\<lambda>xs. put_chunks (map (\<lambda>(p, c). put_chunks (c # map text_bytes p)) xs)),
     untar_gz = (\<lambda>b. Some (map (\<lambda>e. case get_chunks (length e) e of
        [] \<Rightarrow> None
      | c # p \<Rightarrow> Some \<lparr>te_path = map (\<lambda>n. Normal (bytes_text n)) p, te_file = True, te_data = c\<rparr>)
        (get_chunks (length b) b))),
     sha256_digest = (\<lambda>_. [])\<rparr>"

lemma toy_archiver_sound: "sound_archiver toy_archiver"
proof -
  have "get_chunks (length (put_chunks cs)) (put_chunks cs) = cs" for cs
    by (rule get_put_chunks) (rule put_chunks_length)
  then show ?thesis
    by (simp add: sound_archiver_def toy_archiver_def case_prod_beta comp_def)
qed

definition demo_tree :: "(str \<times> fs_entry) list" where
  "demo_tree = [(''Default'', Dir [(''Cookies'', File [7]), (''GPUCache'', Dir [(''x'', File [9])])]),
     (''SafetyTips'', Dir [(''y'', File [1])]), (''lockfile'', File [])]"

lemma demo_tree_packed: "append_dir True demo_tree = [([''Default'', ''Cookies''], [7])]"
  by (simp add: demo_tree_def skipped_def skip_names_def skip_caches_def skip_components_def
      suffix_def Cons_eq_append_conv)

theorem unpack_gives_back_what_was_packed_witness:
  "\<exists>b fs'. pack toy_crypto toy_archiver (replicate 32 5) (replicate 24 6) (replicate 24 8)
       (Shared [3] None) (Some demo_tree) = Inr b
     \<and> unpack toy_crypto toy_archiver (Shared [3] None) [''p''] (\<lambda>_. None) (sl_bytes b) (sl_wrapped_key b)
         = (fs', Inr 1)
     \<and> fs' [''p'', ''Default'', ''Cookies''] = Some [7]"
proof -
  obtain b where b: "pack toy_crypto toy_archiver (replicate 32 5) (replicate 24 6) (replicate 24 8)
       (Shared [3] None) (Some demo_tree) = Inr b"
    by (simp add: pack_def sealer_available_def Let_def)
  have "names_distinct demo_tree"
    by (simp add: demo_tree_def)
  moreover have "opens_with (Shared [3] None) (Shared [3] None)"
    by (simp add: opens_with_def)
  ultimately have "\<exists>fs'. unpack toy_crypto toy_archiver (Shared [3] None) [''p''] (\<lambda>_. None)
        (sl_bytes b) (sl_wrapped_key b) = (fs', Inr (length (append_dir True demo_tree)))
    \<and> (\<forall>(p, c) \<in> set (append_dir True demo_tree). fs' ([''p''] @ p) = Some c \<and> (\<forall>n \<in> set p. \<not> skipped False n))
    \<and> (\<forall>q. (\<forall>(p, c) \<in> set (append_dir True demo_tree). q \<noteq> [''p''] @ p) \<longrightarrow> fs' q = (\<lambda>_. None) q)"
    by (intro unpack_gives_back_what_was_packed [OF toy_sound toy_archiver_sound _ _ _ _ _ b])
      (simp_all add: nonce_len_def)
  then show ?thesis using b by (auto simp: demo_tree_packed)
qed

section \<open>A path that leaves the destination\<close>

definition relative :: "component list \<Rightarrow> bool" where
  "relative p = (case p of RootDir # _ \<Rightarrow> False | _ \<Rightarrow> True)"

lemma join_path_relative: "relative p \<Longrightarrow> prefix dest (join_path dest p)"
  by (auto simp: relative_def join_path_def split: list.splits component.splits)

text \<open>
  A bundle whose paths are relative writes nothing outside the destination, even one
  that is refused half way: an entry with a parent component ends the unpacking. The test
  looks for parent components only; an absolute path passes it and replaces the
  destination.
\<close>

theorem unpack_stays_in_the_destination:
  assumes "\<forall>e. Some e \<in> set es \<longrightarrow> te_file e \<longrightarrow> relative (te_path e)" and "\<not> prefix dest q"
  shows "fst (write_entries dest fs n es) q = fs q
    \<and> (\<forall>bad. ParentDir \<in> set (te_path bad) \<longrightarrow>
         write_entries dest fs n (Some bad # es) = (fs, Inl EscapingPath))"
proof -
  have "fst (write_entries dest fs n es) q = fs q" if "\<forall>e. Some e \<in> set es \<longrightarrow> te_file e \<longrightarrow> relative (te_path e)"
    for fs n es using that assms(2)
  proof (induction dest fs n es rule: write_entries.induct)
    case (3 dest fs n e es)
    have "te_file e \<Longrightarrow> q \<noteq> join_path dest (te_path e)"
      using 3(3,4) join_path_relative [of "te_path e" dest] by auto
    then show ?case using 3 by (simp add: fun_upd_def)
  qed auto
  then show ?thesis using assms(1) by simp
qed

text \<open>The witness adds the divergence: an absolute entry is written where it says.\<close>

definition absolute_entry :: tar_entry where
  "absolute_entry = \<lparr>te_path = [RootDir, Normal ''etc'', Normal ''x''], te_file = True, te_data = [1]\<rparr>"

theorem unpack_stays_in_the_destination_witness:
  "fst (write_entries [''p''] (\<lambda>_. None) 0 [Some \<lparr>te_path = [Normal ''a''], te_file = True, te_data = [2]\<rparr>])
       [''etc'', ''x''] = None
   \<and> fst (write_entries [''p''] (\<lambda>_. None) 0 [Some absolute_entry]) [''etc'', ''x''] = Some [1]"
proof
  show "fst (write_entries [''p''] (\<lambda>_. None) 0 [Some \<lparr>te_path = [Normal ''a''], te_file = True, te_data = [2]\<rparr>])
       [''etc'', ''x''] = None"
    by (rule unpack_stays_in_the_destination [THEN conjunct1]) (simp_all add: relative_def)
  show "fst (write_entries [''p''] (\<lambda>_. None) 0 [Some absolute_entry]) [''etc'', ''x''] = Some [1]"
    by (simp add: absolute_entry_def join_path_def)
qed

end
