(* ===== verification/Sync.thy ===== *)
theory Sync
  imports Lock_Protocol
begin

text \<open>
  The agent's side of a team profile: the marker and the version record beside the profile
  directory (\<open>agent/src/unsynced.rs\<close>), what asking for a bundle comes back with
  (\<open>agent/src/sync.rs\<close>), the pull of a launch and the push of a close
  (\<open>agent/src/ipc.rs\<close>, \<open>launch\<close> and \<open>stop\<close>). The content of a profile directory is
  the list of the sessions whose work is in it. Writing and removing the two small files is assumed
  to succeed; moving the directory and unpacking may fail.
\<close>

section \<open>What is on the machine\<close>

type_synonym content = "nat list"

record local_copy =
  profile_dir :: "content option"
  marker :: "int option"
  held_file :: "int option"
  aside :: "(time \<times> content) list"

definition mark :: "int \<Rightarrow> local_copy \<Rightarrow> local_copy" where
  "mark base_version m = m\<lparr>marker := Some base_version\<rparr>"

definition unsent_base :: "local_copy \<Rightarrow> int option" where
  "unsent_base m = marker m"

definition clear :: "local_copy \<Rightarrow> local_copy" where
  "clear m = m\<lparr>marker := None\<rparr>"

text \<open>The name carries the second, so a second move within it does not succeed.\<close>

definition set_aside :: "time \<Rightarrow> local_copy \<Rightarrow> local_copy option" where
  "set_aside now m =
     (case profile_dir m of
        None \<Rightarrow> None
      | Some c \<Rightarrow>
          if now \<in> fst ` set (aside m) then None
          else Some (clear m\<lparr>profile_dir := None, aside := (now, c) # aside m\<rparr>\<lparr>held_file := None\<rparr>))"

definition held :: "local_copy \<Rightarrow> int option" where
  "held m = (case profile_dir m of None \<Rightarrow> None | Some _ \<Rightarrow> held_file m)"

definition record_held :: "int \<Rightarrow> local_copy \<Rightarrow> local_copy" where
  "record_held version m = m\<lparr>held_file := Some version\<rparr>"

datatype pull = Unpack | KeepLocal | SetAsideThenUnpack

definition decide :: "int option \<Rightarrow> int \<Rightarrow> pull" where
  "decide local_base server =
     (case local_base of
        None \<Rightarrow> Unpack
      | Some base \<Rightarrow> if base = server then KeepLocal else SetAsideThenUnpack)"

section \<open>What the server answered\<close>

definition agent_etag :: "int \<Rightarrow> str" where
  "agent_etag version = [CHR 0x22] @ ''v'' @ show_int version @ [CHR 0x22]"

text \<open>\<open>opened\<close> is what unpacking the bytes under the wrapped key makes of them, if anything.\<close>

datatype fetched = Nothing | Unchanged int | Fetched int "content option"

datatype sync_error = RefusedBundle nat | CouldNotMove | CouldNotUnpack

definition fetch_bundle ::
    "(bytes \<Rightarrow> str \<Rightarrow> content option) \<Rightarrow> int option \<Rightarrow> download api_result \<Rightarrow> sync_error + fetched" where
  "fetch_bundle opened have_version response =
     (case response of
        Inl e \<Rightarrow> if http_status e = 404 then Inr Nothing else Inl (RefusedBundle (http_status e))
      | Inr (NotModified _) \<Rightarrow> (case have_version of
            Some v \<Rightarrow> Inr (Unchanged v) | None \<Rightarrow> Inl (RefusedBundle 304))
      | Inr (Bundle v bs wrapped) \<Rightarrow> Inr (Fetched v (opened bs wrapped)))"

definition if_none_match :: "int option \<Rightarrow> str option" where
  "if_none_match have_version = map_option agent_etag have_version"

section \<open>Launch and close\<close>

text \<open>\<open>launch\<close> creates the directory before it asks what is in it.\<close>

definition prepare :: "local_copy \<Rightarrow> local_copy" where
  "prepare m = m\<lparr>profile_dir := Some (case profile_dir m of None \<Rightarrow> [] | Some c \<Rightarrow> c)\<rparr>"

definition unpack_over :: "int \<Rightarrow> content option \<Rightarrow> local_copy \<Rightarrow> local_copy \<times> (sync_error + int)" where
  "unpack_over version opened m =
     (case opened of
        None \<Rightarrow> (m, Inl CouldNotUnpack)
      | Some c \<Rightarrow> (record_held version (m\<lparr>profile_dir := Some c\<rparr>), Inr version))"

definition launch_pull ::
    "time \<Rightarrow> sync_error + fetched \<Rightarrow> local_copy \<Rightarrow> local_copy \<times> (sync_error + int)" where
  "launch_pull now response m =
     (case response of
        Inl e \<Rightarrow> (m, Inl e)
      | Inr Nothing \<Rightarrow> (m, Inr 0)
      | Inr (Unchanged version) \<Rightarrow> (m, Inr version)
      | Inr (Fetched version opened) \<Rightarrow>
          if held m = Some version then (m, Inr version)
          else (case decide (unsent_base m) version of
              KeepLocal \<Rightarrow> (m, Inr version)
            | SetAsideThenUnpack \<Rightarrow> (case set_aside now m of
                  None \<Rightarrow> (m, Inl CouldNotMove)
                | Some m' \<Rightarrow> unpack_over version opened m')
            | Unpack \<Rightarrow> unpack_over version opened m))"

definition close_push :: "int \<Rightarrow> 'e + int \<Rightarrow> local_copy \<Rightarrow> local_copy" where
  "close_push base pushed m =
     (case pushed of
        Inr version \<Rightarrow> record_held version (clear m)
      | Inl _ \<Rightarrow> mark base m)"

section \<open>One machine over time\<close>

text \<open>
  A close is not one step: \<open>stop\<close> takes the profile off the list of running ones, waits for the browser, packs and
  uploads, and only then writes what became of it. Until it has, the session is closed and nothing on the disk says
  it is unsent; the agent may be killed, and a launch of the same profile is not kept out. The server may answer
  anything at any time. \<open>pushing\<close> are the closes that have not come to their end, with the base and what was packed.
  The rest are ghosts: the sessions that were closed, those in a copy the server is known to have accepted, those of
  a close that was cut off, and whether a launch ever began during a close.
\<close>

record world =
  machine :: local_copy
  running :: "int option"
  pushing :: "(int \<times> content) list"
  closed :: "nat set"
  accepted :: "nat set"
  cut_off :: "nat set"
  overlapped :: bool

inductive step :: "world \<Rightarrow> world \<Rightarrow> bool" where
  launch: "running w = None \<Longrightarrow> launch_pull now response (prepare (machine w)) = (m', r) \<Longrightarrow>
     step w (w\<lparr>machine := m', running := (case r of Inr v \<Rightarrow> Some v | Inl _ \<Rightarrow> None),
       overlapped := overlapped w \<or> pushing w \<noteq> []\<rparr>)"
| work: "running w = Some base \<Longrightarrow> profile_dir (machine w) = Some c \<Longrightarrow>
     step w (w\<lparr>machine := (machine w)\<lparr>profile_dir := Some (session # c)\<rparr>\<rparr>)"
| stop: "running w = Some base \<Longrightarrow> profile_dir (machine w) = Some c \<Longrightarrow>
     step w (w\<lparr>running := None, pushing := (base, c) # pushing w, closed := closed w \<union> set c\<rparr>)"
| settle: "(base, c) \<in> set (pushing w) \<Longrightarrow>
     step w (w\<lparr>machine := close_push base (pushed :: str + int) (machine w), pushing := remove1 (base, c) (pushing w),
       accepted := (case pushed of Inr _ \<Rightarrow> accepted w \<union> set c | Inl _ \<Rightarrow> accepted w), cut_off := cut_off w - set c\<rparr>)"
| extension: "running w = None \<Longrightarrow> held (machine w) = Some v \<Longrightarrow> marker (machine w) = None \<Longrightarrow>
     step w (w\<lparr>machine := mark v (machine w)\<rparr>)"
| killed: "step w (w\<lparr>running := None, pushing := [], cut_off := cut_off w \<union> (\<Union>(_, c) \<in> set (pushing w). set c)\<rparr>)"

text \<open>\<open>extension\<close> is \<open>extensions.copy_with_state\<close>, which writes into the directory of a closed profile and marks it.\<close>

inductive reachable :: "world \<Rightarrow> world \<Rightarrow> bool" where
  here: "reachable w w"
| further: "reachable w w1 \<Longrightarrow> step w1 w2 \<Longrightarrow> reachable w w2"

inductive_cases step_cases: "step w w'"





lemmas local_defs = mark_def unsent_base_def clear_def record_held_def held_def








definition demo_world :: world where
  "demo_world = \<lparr>machine = \<lparr>profile_dir = None, marker = None, held_file = None, aside = []\<rparr>,
     running = None, pushing = [], closed = {}, accepted = {}, cut_off = {}, overlapped = False\<rparr>"

text \<open>A first session, closed, its upload at work.\<close>

definition demo_closing :: world where
  "demo_closing = \<lparr>machine = \<lparr>profile_dir = Some [4], marker = None, held_file = None, aside = []\<rparr>,
     running = None, pushing = [(0, [4])], closed = {4}, accepted = {}, cut_off = {}, overlapped = False\<rparr>"

lemma demo_closing_reachable: "reachable demo_world demo_closing"
proof -
  let ?m = "\<lparr>profile_dir = Some [], marker = None, held_file = None, aside = []\<rparr>"
  have 1: "step demo_world (demo_world\<lparr>machine := ?m, running := Some 0\<rparr>)" (is "step _ ?w1")
    using step.launch [of demo_world 5 "Inr Nothing" ?m "Inr 0"]
    by (simp add: demo_world_def launch_pull_def prepare_def)
  have 2: "step ?w1 (?w1\<lparr>machine := ?m\<lparr>profile_dir := Some [4]\<rparr>\<rparr>)" (is "step _ ?w2")
    using step.work [of ?w1 0 "[]" 4] by simp
  have 3: "step ?w2 demo_closing"
    using step.stop [of ?w2 0 "[4]"] by (simp add: demo_world_def demo_closing_def)
  show ?thesis
    using reachable.here [of demo_world] reachable.further 1 2 3 by blast
qed




text \<open>
  What the two exceptions are for. Killed while it uploads, the agent leaves a closed session that nothing marks,
  and the next launch unpacks a version a colleague uploaded since over it. A launch during the upload does the
  same with nobody killed, and the marker that is written afterwards is for a directory without the session.
\<close>

definition nowhere :: "world \<Rightarrow> nat \<Rightarrow> bool" where
  "nowhere w s \<longleftrightarrow> s \<in> closed w \<and> s \<notin> accepted w \<and> (\<forall>(t, c) \<in> set (aside (machine w)). s \<notin> set c)
     \<and> (\<forall>c. profile_dir (machine w) = Some c \<longrightarrow> s \<notin> set c)"

lemma a_close_that_is_killed_loses_its_session: "\<exists>w. reachable demo_world w \<and> \<not> overlapped w \<and> nowhere w 4"
proof -
  have 1: "step demo_closing (demo_closing\<lparr>pushing := [], cut_off := {4}\<rparr>)" (is "step _ ?w1")
    using step.killed [of demo_closing] by (simp add: demo_closing_def)
  have 2: "step ?w1 (?w1\<lparr>machine := \<lparr>profile_dir = Some [1], marker = None, held_file = Some 3, aside = []\<rparr>, running := Some 3\<rparr>)"
    (is "step _ ?w2")
    using step.launch [of ?w1 9 "Inr (Fetched 3 (Some [1]))"
        "\<lparr>profile_dir = Some [1], marker = None, held_file = Some 3, aside = []\<rparr>" "Inr 3"]
    by (simp add: demo_closing_def launch_pull_def prepare_def decide_def unpack_over_def local_defs)
  show ?thesis
    using reachable.further [OF reachable.further [OF demo_closing_reachable 1] 2]
    by (intro exI [of _ ?w2]) (simp add: nowhere_def demo_closing_def)
qed

lemma a_launch_during_a_close_loses_its_session: "\<exists>w. reachable demo_world w \<and> cut_off w = {} \<and> pushing w = [] \<and> nowhere w 4"
proof -
  have 1: "step demo_closing (demo_closing\<lparr>machine := \<lparr>profile_dir = Some [1], marker = None, held_file = Some 3, aside = []\<rparr>,
      running := Some 3, overlapped := True\<rparr>)" (is "step _ ?w1")
    using step.launch [of demo_closing 9 "Inr (Fetched 3 (Some [1]))"
        "\<lparr>profile_dir = Some [1], marker = None, held_file = Some 3, aside = []\<rparr>" "Inr 3"]
    by (simp add: demo_closing_def launch_pull_def prepare_def decide_def unpack_over_def local_defs)
  have 2: "step ?w1 (?w1\<lparr>machine := (machine ?w1)\<lparr>marker := Some 0\<rparr>, pushing := []\<rparr>)" (is "step _ ?w2")
    using step.settle [of 0 "[4]" ?w1 "Inl ''conflict''"] by (simp add: demo_closing_def close_push_def mark_def)
  show ?thesis
    using reachable.further [OF reachable.further [OF demo_closing_reachable 1] 2]
    by (intro exI [of _ ?w2]) (simp add: nowhere_def demo_closing_def)
qed

section \<open>The agent and the server agree on versions\<close>

lemma show_nat_inject: "show_nat m = show_nat n \<longleftrightarrow> m = n"
  by (metis digits_value_show_nat)

lemma show_nat_no_minus: "CHR ''-'' \<notin> set (show_nat n)"
  using show_nat_digits [of n] by (auto simp: list_all_iff is_digit_def)

lemma minus_not_show_nat: "CHR ''-'' # s \<noteq> show_nat n" "show_nat n \<noteq> CHR ''-'' # s"
  using show_nat_no_minus [of n] by (metis list.set_intros(1))+

lemma show_int_inject: "show_int i = show_int j \<longleftrightarrow> i = j"
  by (auto simp: show_int_def show_nat_inject minus_not_show_nat)

lemma etag_chars: "c \<in> set (agent_etag v) \<Longrightarrow> graphic c \<and> c \<noteq> CHR '',''"
  using show_nat_digits [of "nat v"] show_nat_digits [of "nat (- v)"]
  by (auto simp: agent_etag_def show_int_def list_all_iff is_digit_def graphic_def split: if_splits)

lemma etag_matches:
  "list_ex (\<lambda>t. trim t = bundle_etag v) (split_on CHR '','' (agent_etag u)) \<longleftrightarrow> u = v"
proof -
  have "split_on CHR '','' (agent_etag u) = [agent_etag u]"
    using etag_chars by (intro split_by_single) blast
  moreover have "trim (agent_etag u) = agent_etag u"
    using etag_chars by (intro trim_graphic) blast
  moreover have "agent_etag u = bundle_etag v \<longleftrightarrow> u = v"
    by (simp add: agent_etag_def bundle_etag_def show_int_inject)
  ultimately show ?thesis by simp
qed

text \<open>
  The machine that uploaded a profile does not download it again: after an accepted
  push, a launch on the same machine, with nobody having uploaded since, sends the version
  it recorded, is answered that it is unchanged, leaves its copy alone and starts from that
  version; and any other machine that may launch it gets the bundle itself.
\<close>

theorem own_upload_is_not_downloaded_again:
  assumes up: "upload_bundle h hexsum lim d t c profile hdr body = (d', Inr v)"
    and ok: "store_ok d" and keep: "0 \<le> keep_versions lim"
    and reader: "permissions_for_profile d' later (user_id c') profile = Inr perms'" "has perms' Launch"
    and dir: "profile_dir m = Some files_here"
  shows "let m' = close_push base (Inr v) m;
             ask = (\<lambda>have_version. fetch_bundle opened have_version
                (download_bundle d' later c' profile (if_none_match have_version)))
    in launch_pull now (ask (held (prepare m'))) (prepare m') = (m', Inr v)
       \<and> profile_dir m' = profile_dir m
       \<and> (\<forall>u. u \<noteq> v \<longrightarrow> (\<exists>bytes wrapped. ask (Some u) = Inr (Fetched v (opened bytes wrapped))))"
proof -
  from up obtain perms token wrapped content f where
    u: "map_of (profiles d) profile = Some f" "v = f_current_version f + 1"
      "d' = audit c ''bundle.upload'' (Some profile)
         (record_version (keep_versions lim) c profile f v content (hexsum content) wrapped d)"
    by (rule upload_bundle_Inr)
  obtain b where b: "newest (List.filter (\<lambda>b. b_profile b = profile) (bundles d')) = Some b"
      "b_version b = v" "b_key b = (profile, v)"
    using newest_after_record [OF ok u(1) keep] unfolding u(2,3) audit_frame by blast
  have keys: "\<forall>b \<in> set (bundles d). b_key b = (b_profile b, b_version b)"
    using ok by (auto simp: store_ok_def row_ok_def)
  have stored: "map_of (files d') (profile, v) = Some content"
    using keep unfolding u(3) audit_frame by (subst record_version_files [OF keys]) auto
  have same: "download_bundle d' later c' profile (if_none_match (Some v)) = Inr (NotModified v)"
    using reader b etag_matches [of v v] has_not_NONE [OF reader(2)]
    by (simp add: download_bundle_def guarded_simps if_none_match_def)
  have other: "download_bundle d' later c' profile (if_none_match (Some u)) = Inr (Bundle v content (b_wrapped_dek b))"
    if "u \<noteq> v" for u
    using reader b stored etag_matches [of v u] has_not_NONE [OF reader(2)] that
    by (simp add: download_bundle_def guarded_simps if_none_match_def)
  have "prepare (close_push base (Inr v) m) = close_push base (Inr v) m"
    using dir by (simp add: prepare_def close_push_def local_defs)
  moreover have "held (close_push base (Inr v) m) = Some v"
    using dir by (simp add: close_push_def local_defs)
  ultimately show ?thesis
    using same other dir by (auto simp: Let_def fetch_bundle_def launch_pull_def close_push_def local_defs)
qed

theorem own_upload_is_not_downloaded_again_witness:
  "launch_pull 9 (fetch_bundle (\<lambda>_ _. None) (Some 1)
       (download_bundle demo_after 8 demo_caller 20 (if_none_match (Some 1))))
     \<lparr>profile_dir = Some [4], marker = None, held_file = Some 1, aside = []\<rparr>
   = (\<lparr>profile_dir = Some [4], marker = None, held_file = Some 1, aside = []\<rparr>, Inr 1)"
proof -
  have reader: "permissions_for_profile demo_after 8 (user_id demo_caller) 20 = Inr all_perms"
    by (simp add: demo_caller_def demo_after_permissions)
  have "let m' = close_push 0 (Inr 1 :: str + int) \<lparr>profile_dir = Some [4], marker = None, held_file = None, aside = []\<rparr>;
             ask = (\<lambda>have_version. fetch_bundle (\<lambda>_ _. None) have_version
                (download_bundle demo_after 8 demo_caller 20 (if_none_match have_version)))
    in launch_pull 9 (ask (held (prepare m'))) (prepare m') = (m', Inr 1)
       \<and> profile_dir m' = Some [4]
       \<and> (\<forall>u. u \<noteq> 1 \<longrightarrow> (\<exists>bytes wrapped. ask (Some u) = Inr (Fetched 1 ((\<lambda>_ _. None) bytes wrapped))))"
    using own_upload_is_not_downloaded_again [OF demo_upload_accepted demo_locked_ok _ reader has_all,
        where m = "\<lparr>profile_dir = Some [4], marker = None, held_file = None, aside = []\<rparr>"
        and files_here = "[4]" and base = 0 and now = 9 and opened = "\<lambda>_ _. None"]
    by (simp add: demo_limits_def)
  then show ?thesis
    by (simp add: Let_def close_push_def prepare_def local_defs)
qed

section \<open>A directory that was deleted\<close>

text \<open>
  \<open>held\<close> answers nothing for a profile whose directory is gone, so that the server's
  copy is fetched; but a launch creates the directory before it asks. After the directory
  was deleted, a launch with the version record still there is told that nothing changed,
  starts from an empty directory, and its close sends the empty profile to the server on
  top of the full one, which accepts it.
\<close>

theorem deleted_directory_starts_empty:
  assumes "profile_dir m = None" and "held_file m = Some v"
    and "response = (if held (prepare m) = Some v then Inr (Unchanged v) else Inr (Fetched v (Some c)))"
  shows "held m = None
    \<and> (\<exists>m'. launch_pull now response (prepare m) = (m', Inr v) \<and> profile_dir m' = Some [])"
  using assms by (simp add: prepare_def launch_pull_def local_defs)

theorem deleted_directory_starts_empty_witness:
  "\<exists>m'. launch_pull 3 (Inr (Unchanged 7))
       (prepare \<lparr>profile_dir = None, marker = None, held_file = Some 7, aside = []\<rparr>) = (m', Inr 7)
     \<and> profile_dir m' = Some []"
  using deleted_directory_starts_empty [of "\<lparr>profile_dir = None, marker = None, held_file = Some 7, aside = []\<rparr>" 7
      "Inr (Unchanged 7)" "[]" 3]
  by (simp add: prepare_def local_defs)

end
