(* ===== verification/Ip_Addr.thy ===== *)
theory Ip_Addr
  imports Prelude
begin

text \<open>
  Rust's \<open>IpAddr\<close> as the sources use it: the textual syntax \<open>FromStr\<close> accepts, addresses
  as words, network masks, and the block of addresses a prefix names. The CIDR code of
  \<open>shared-rs/src/domains.rs\<close> and of \<open>server/src/security.rs\<close> shares this theory and the
  interface \<open>address_block\<close>.
\<close>

unbundle bit_operations_syntax

section \<open>Addresses\<close>

datatype ip = V4 u32 | V6 u128

fun is_ipv4 :: "ip \<Rightarrow> bool" where
  "is_ipv4 (V4 _) = True"
| "is_ipv4 (V6 _) = False"

definition to_ipv4_mapped :: "u128 \<Rightarrow> u32 option" where
  "to_ipv4_mapped a = (if drop_bit 32 a = 0xffff then Some (ucast a) else None)"

section \<open>The textual syntax\<close>

text \<open>A number of at most \<open>m\<close> digits; a leading zero only where it is allowed.\<close>

definition read_decimal :: "str \<Rightarrow> (nat \<times> str) option" where
  "read_decimal s =
     (let ds = takeWhile is_digit s; n = digits_value 0 ds
      in if ds = [] \<or> 3 < length ds \<or> (hd ds = CHR ''0'' \<and> 1 < length ds) \<or> 255 < n then None
         else Some (n, dropWhile is_digit s))"

definition read_group :: "str \<Rightarrow> (nat \<times> str) option" where
  "read_group s =
     (let ds = takeWhile is_hexdigit s
      in if ds = [] \<or> 4 < length ds then None
         else map_option (\<lambda>n. (n, dropWhile is_hexdigit s)) (hex_fold 0 ds))"

definition read_char :: "char \<Rightarrow> str \<Rightarrow> str option" where
  "read_char c s = (case s of [] \<Rightarrow> None | x # r \<Rightarrow> if x = c then Some r else None)"

text \<open>An optional separator in front of every item but the first.\<close>

definition after_separator :: "char \<Rightarrow> nat \<Rightarrow> (str \<Rightarrow> ('a \<times> str) option) \<Rightarrow> str \<Rightarrow> ('a \<times> str) option" where
  "after_separator c i p s =
     (if i = 0 then p s else (case read_char c s of None \<Rightarrow> None | Some r \<Rightarrow> p r))"

fun read_octets :: "nat \<Rightarrow> nat \<Rightarrow> nat \<Rightarrow> str \<Rightarrow> (nat \<times> str) option" where
  "read_octets 0 i acc s = Some (acc, s)"
| "read_octets (Suc n) i acc s =
     (case after_separator CHR ''.'' i read_decimal s of
        None \<Rightarrow> None
      | Some (v, r) \<Rightarrow> read_octets n (Suc i) (256 * acc + v) r)"

definition read_ipv4 :: "str \<Rightarrow> (nat \<times> str) option" where
  "read_ipv4 s = read_octets 4 0 0 s"

text \<open>
  Up to \<open>n\<close> more groups, the \<open>i\<close>-th first; an IPv4 address may stand for the last two that
  are left. The flag says that one did.
\<close>

fun read_groups :: "nat \<Rightarrow> nat \<Rightarrow> str \<Rightarrow> nat list \<times> bool \<times> str" where
  "read_groups 0 i s = ([], False, s)"
| "read_groups (Suc n) i s =
     (case (if n = 0 then None else after_separator CHR '':'' i read_ipv4 s) of
        Some (v, r) \<Rightarrow> ([v div 65536, v mod 65536], True, r)
      | None \<Rightarrow> (case after_separator CHR '':'' i read_group s of
            None \<Rightarrow> ([], False, s)
          | Some (g, r) \<Rightarrow> (case read_groups n (Suc i) r of (gs, v4, r') \<Rightarrow> (g # gs, v4, r'))))"

definition read_ipv6 :: "str \<Rightarrow> (nat list \<times> str) option" where
  "read_ipv6 s =
     (case read_groups 8 0 s of (first_part, v4, r) \<Rightarrow>
        if length first_part = 8 then Some (first_part, r)
        else if v4 then None
        else (case read_char CHR '':'' r of
            None \<Rightarrow> None
          | Some r1 \<Rightarrow> (case read_char CHR '':'' r1 of
                None \<Rightarrow> None
              | Some r2 \<Rightarrow> (case read_groups (7 - length first_part) 0 r2 of (last_part, _, r3) \<Rightarrow>
                  Some (first_part @ replicate (8 - length first_part - length last_part) 0 @ last_part, r3)))))"

definition groups_word :: "nat list \<Rightarrow> u128" where
  "groups_word gs = word_of_nat (fold (\<lambda>g acc. 65536 * acc + g) gs 0)"

definition parse_ip :: "str \<Rightarrow> ip option" where
  "parse_ip s =
     (case read_ipv4 s of
        Some (v, []) \<Rightarrow> Some (V4 (word_of_nat v))
      | Some (v, _) \<Rightarrow> None
      | None \<Rightarrow> (case read_ipv6 s of
            Some (gs, []) \<Rightarrow> Some (V6 (groups_word gs))
          | _ \<Rightarrow> None))"

text \<open>Evaluation of an IPv4 address.\<close>

lemma four_octets: "read_ipv4 s = read_octets (Suc (Suc (Suc (Suc 0)))) 0 0 s"
  by (simp add: read_ipv4_def numeral_eq_Suc)

lemmas octet_simps = four_octets after_separator_def read_decimal_def read_char_def is_digit_def

section \<open>Masks and blocks\<close>

definition net_mask :: "nat \<Rightarrow> 'a::len word" where
  "net_mask bits = (if bits = 0 then 0 else push_bit (LENGTH('a) - bits) (- 1))"

definition block_first :: "'a::len word \<Rightarrow> nat \<Rightarrow> 'a word" where
  "block_first a bits = a AND net_mask bits"

definition block_last :: "'a::len word \<Rightarrow> nat \<Rightarrow> 'a word" where
  "block_last a bits = (a AND net_mask bits) OR NOT (net_mask bits)"

lemma word_bound: "unat (a :: 'a::len word) < 2 ^ LENGTH('a)"
  by (rule unsigned_less)

lemma block_first_unat:
  fixes a :: "'a::len word"
  assumes "bits \<le> LENGTH('a)"
  shows "unat (block_first a bits) = unat a div 2 ^ (LENGTH('a) - bits) * 2 ^ (LENGTH('a) - bits)"
proof (cases "bits = 0")
  case True
  then show ?thesis using word_bound [of a] by (simp add: block_first_def net_mask_def)
next
  case False
  let ?k = "LENGTH('a) - bits"
  have "block_first a bits = push_bit ?k (drop_bit ?k a)"
    using False by (auto simp: block_first_def net_mask_def intro!: bit_eqI simp: bit_simps)
  also have "unat \<dots> = take_bit LENGTH('a) (unat a div 2 ^ ?k * 2 ^ ?k)"
    by (simp only: unsigned_push_bit_eq unat_drop_bit_eq) (simp add: push_bit_eq_mult drop_bit_eq_div)
  also have "\<dots> = unat a div 2 ^ ?k * 2 ^ ?k"
  proof (rule take_bit_nat_eq_self)
    have "unat a div 2 ^ ?k * 2 ^ ?k \<le> unat a"
      by (rule div_times_less_eq_dividend)
    then show "unat a div 2 ^ ?k * 2 ^ ?k < 2 ^ LENGTH('a)"
      using word_bound [of a] by (rule order.strict_trans1)
  qed
  finally show ?thesis .
qed

lemma block_last_unat:
  fixes a :: "'a::len word"
  assumes "bits \<le> LENGTH('a)"
  shows "unat (block_last a bits) = unat (block_first a bits) + (2 ^ (LENGTH('a) - bits) - 1)"
proof -
  let ?k = "LENGTH('a) - bits"
  have inv: "NOT (net_mask bits :: 'a word) = Bit_Operations.mask ?k"
    by (auto simp: net_mask_def bit_simps intro!: bit_eqI)
  have disj: "block_first a bits AND Bit_Operations.mask ?k = 0"
    by (auto simp: block_first_def net_mask_def bit_simps intro!: bit_eqI)
  have "unat (block_last a bits) = unat (block_first a bits) OR unat (Bit_Operations.mask ?k :: 'a word)"
    by (simp add: block_last_def inv flip: block_first_def) (simp add: unsigned_or_eq)
  moreover have "unat (block_first a bits) AND unat (Bit_Operations.mask ?k :: 'a word) = 0"
    using disj by (metis unsigned_0 unsigned_and_eq)
  moreover have "unat (Bit_Operations.mask ?k :: 'a word) = 2 ^ ?k - 1"
  proof -
    have "unat (Bit_Operations.mask ?k :: 'a word) = Bit_Operations.mask ?k"
      by (auto intro!: bit_eqI simp: bit_unsigned_iff bit_simps)
    then show ?thesis by (simp only: mask_eq_exp_minus_1)
  qed
  ultimately show ?thesis
    by (metis disjunctive_add_eq_or)
qed

text \<open>Two addresses share a block exactly if they agree on its leading bits.\<close>

lemma block_first_eq:
  fixes a b :: "'a::len word"
  assumes "bits \<le> LENGTH('a)"
  shows "block_first a bits = block_first b bits \<longleftrightarrow>
    unat a div 2 ^ (LENGTH('a) - bits) = unat b div 2 ^ (LENGTH('a) - bits)"
proof -
  have "block_first a bits = block_first b bits \<longleftrightarrow> unat (block_first a bits) = unat (block_first b bits)"
    by (simp add: word_unat_eq_iff)
  then show ?thesis
    by (simp add: block_first_unat [OF assms])
qed

lemma block_between:
  fixes a b :: "'a::len word"
  assumes "bits \<le> LENGTH('a)" and "block_first a bits = block_first b bits"
  shows "unat (block_first b bits) \<le> unat a \<and> unat a \<le> unat (block_last b bits)"
proof -
  let ?m = "2 ^ (LENGTH('a) - bits) :: nat"
  have "unat (block_first a bits) \<le> unat a \<and> unat a < unat (block_first a bits) + ?m"
    unfolding block_first_unat [OF assms(1)]
  proof -
    have "unat a mod ?m < ?m" by simp
    then show "unat a div ?m * ?m \<le> unat a \<and> unat a < unat a div ?m * ?m + ?m"
      using div_mult_mod_eq [of "unat a" ?m] by linarith
  qed
  then show ?thesis
    unfolding block_last_unat [OF assms(1)] assms(2) by linarith
qed

section \<open>The interface of an address block\<close>

text \<open>
  What the callers of the CIDR code rely on: membership means agreeing on the leading bits,
  so the block is closed upwards in the prefix length, and it is the interval from its first
  address to its last.
\<close>

locale address_block =
  fixes contains :: "'n \<Rightarrow> 'a \<Rightarrow> bool"
    and prefix_of :: "'n \<Rightarrow> nat"
    and network :: "'n \<Rightarrow> 'a"
    and agree :: "nat \<Rightarrow> 'a \<Rightarrow> 'a \<Rightarrow> bool"
  assumes contains_iff: "contains n a \<longleftrightarrow> agree (prefix_of n) (network n) a"
    and agree_refl: "agree k a a"
    and agree_sym: "agree k a b \<Longrightarrow> agree k b a"
    and agree_trans: "agree k a b \<Longrightarrow> agree k b c \<Longrightarrow> agree k a c"
    and agree_shorter: "agree k a b \<Longrightarrow> j \<le> k \<Longrightarrow> agree j a b"
begin

lemma contains_network: "contains n (network n)"
  by (simp add: contains_iff agree_refl)

lemma contains_transfer:
  assumes "contains n a" and "agree (prefix_of n) a b"
  shows "contains n b"
  using assms agree_trans by (auto simp: contains_iff)

lemma nested:
  assumes "prefix_of m \<le> prefix_of n" and "contains m (network n)" and "contains n a"
  shows "contains m a"
  using assms agree_shorter agree_trans unfolding contains_iff by blast

lemma disjoint_or_nested:
  assumes "prefix_of m \<le> prefix_of n" and "contains m a" and "contains n a"
  shows "contains m (network n)"
  using assms agree_shorter agree_trans agree_sym unfolding contains_iff by blast

end

definition leading_bits_agree :: "nat \<Rightarrow> 'a::len word \<Rightarrow> 'a word \<Rightarrow> bool" where
  "leading_bits_agree k a b \<longleftrightarrow> unat a div 2 ^ (LENGTH('a) - k) = unat b div 2 ^ (LENGTH('a) - k)"

lemma leading_bits_shorter:
  fixes a b :: "'a::len word"
  assumes "leading_bits_agree k a b" and "j \<le> k"
  shows "leading_bits_agree j a b"
proof -
  have "LENGTH('a) - j = (LENGTH('a) - k) + ((LENGTH('a) - j) - (LENGTH('a) - k))"
    using assms(2) by simp
  then have "unat c div 2 ^ (LENGTH('a) - j)
      = unat c div 2 ^ (LENGTH('a) - k) div 2 ^ ((LENGTH('a) - j) - (LENGTH('a) - k))" for c :: "'a word"
    by (metis div_mult2_eq power_add)
  then show ?thesis using assms(1) by (simp add: leading_bits_agree_def)
qed

lemma block_first_agree:
  "k \<le> LENGTH('a) \<Longrightarrow> block_first a k = block_first b k \<longleftrightarrow> leading_bits_agree k (a :: 'a::len word) b"
  by (simp add: block_first_eq leading_bits_agree_def)

lemma block_laws:
  "(case n of (b, k) \<Rightarrow> leading_bits_agree k b a) \<longleftrightarrow> leading_bits_agree (snd n) (fst n) a"
  "leading_bits_agree k a a"
  "leading_bits_agree k a b \<Longrightarrow> leading_bits_agree k b a"
  "leading_bits_agree k a b \<Longrightarrow> leading_bits_agree k b c \<Longrightarrow> leading_bits_agree k a c"
  by (auto simp: leading_bits_agree_def split: prod.split)

interpretation v4_block: address_block
  "\<lambda>(n :: u32, k) a. leading_bits_agree k n a" snd fst leading_bits_agree
  by unfold_locales (use block_laws leading_bits_shorter in blast)+

interpretation v6_block: address_block
  "\<lambda>(n :: u128, k) a. leading_bits_agree k n a" snd fst leading_bits_agree
  by unfold_locales (use block_laws leading_bits_shorter in blast)+

end
