(* ===== verification/Domains.thy ===== *)
theory Domains
  imports Ip_Addr
begin

text \<open>
  \<open>shared-rs/src/domains.rs\<close>: reading a list in any of its three kinds, folding lists
  together, and the two questions the relay asks of the result, \<open>blocks\<close> and
  \<open>reached_locally\<close>, with the address arithmetic below them.
\<close>

unbundle bit_operations_syntax

section \<open>Networks\<close>

definition is_private_v4 :: "u32 \<Rightarrow> bool" where
  "is_private_v4 a =
     (let o0 = unat a div 2 ^ 24; o1 = unat a div 2 ^ 16 mod 256
      in o0 = 10 \<or> (o0 = 172 \<and> 16 \<le> o1 \<and> o1 \<le> 31) \<or> (o0 = 192 \<and> o1 = 168)
         \<or> (o0 = 100 \<and> 64 \<le> o1 \<and> o1 \<le> 127))"

definition segment0 :: "u128 \<Rightarrow> u16" where
  "segment0 a = ucast (drop_bit 112 a)"

definition is_private_network :: "ip \<Rightarrow> bool" where
  "is_private_network i =
     (case i of
        V4 a \<Rightarrow> is_private_v4 a
      | V6 a \<Rightarrow> (case to_ipv4_mapped a of
            Some v4 \<Rightarrow> is_private_v4 v4
          | None \<Rightarrow> segment0 a AND 0xfe00 = 0xfc00))"

definition net_bounds :: "ip \<Rightarrow> nat \<Rightarrow> ip \<times> ip" where
  "net_bounds i bits =
     (case i of
        V4 a \<Rightarrow> (V4 (block_first a bits), V4 (block_last a bits))
      | V6 a \<Rightarrow> (V6 (block_first a bits), V6 (block_last a bits)))"

definition unmapped :: "ip \<Rightarrow> ip" where
  "unmapped i =
     (case i of V4 a \<Rightarrow> V4 a
      | V6 a \<Rightarrow> (case to_ipv4_mapped a of Some v4 \<Rightarrow> V4 v4 | None \<Rightarrow> V6 a))"

definition in_net :: "ip \<Rightarrow> ip \<Rightarrow> nat \<Rightarrow> bool" where
  "in_net i net bits =
     (let i' = unmapped i in is_ipv4 i' = is_ipv4 net \<and> fst (net_bounds i' bits) = net)"

definition trim_brackets :: "str \<Rightarrow> str" where
  "trim_brackets s = drop_while_end (\<lambda>c. c = CHR '']'') (dropWhile (\<lambda>c. c = CHR ''['') s)"

definition parse_net :: "str \<Rightarrow> (ip \<times> nat) option" where
  "parse_net entry =
     (case (case split_once CHR ''/'' entry of
              Some (a, b) \<Rightarrow> map_option (Pair a) (parse_u8 b)
            | None \<Rightarrow> Some (entry, if CHR '':'' \<in> set entry then 128 else 32)) of
        None \<Rightarrow> None
      | Some (addr, bits) \<Rightarrow>
          (case parse_ip (trim_brackets addr) of
             None \<Rightarrow> None
           | Some i \<Rightarrow>
               (let width = (if is_ipv4 i then 32 else 128) in
                if width < bits then None
                else (let (first_ip, last_ip) = net_bounds i bits
                      in if is_private_network first_ip \<and> is_private_network last_ip
                         then Some (first_ip, bits) else None))))"

definition is_address :: "str \<Rightarrow> bool" where
  "is_address s = (parse_ip s \<noteq> None)"

definition looks_like_address :: "str \<Rightarrow> bool" where
  "looks_like_address entry \<longleftrightarrow> CHR ''/'' \<in> set entry \<or> CHR '':'' \<in> set entry \<or> parse_ip entry \<noteq> None"

section \<open>Reading a list\<close>

definition allow_only_tag :: str where
  "allow_only_tag = ''@allow-only''"

definition local_tag :: str where
  "local_tag = ''@local''"

record blocklist =
  domains :: "str set"
  allowed :: "str set option"
  local_names :: "str set"
  local_nets :: "(ip \<times> nat) list"

definition empty_list :: blocklist where
  "empty_list = \<lparr>domains = {}, allowed = None, local_names = {}, local_nets = []\<rparr>"

definition normalise :: "str \<Rightarrow> str option" where
  "normalise raw =
     (let s = hd (split_on CHR '':'' (drop_while_end (\<lambda>c. c = CHR ''.'') (trim raw)))
      in if s = [] \<or> CHR ''.'' \<notin> set s then None
         else if parse_ip s \<noteq> None then None
         else if \<not> list_all (\<lambda>c. is_alnum c \<or> c = CHR ''.'' \<or> c = CHR ''-'' \<or> c = CHR ''_'') s then None
         else Some (lower s))"

definition list_lines :: "str \<Rightarrow> str list" where
  "list_lines text =
     List.filter (\<lambda>l. l \<noteq> [] \<and> hd l \<noteq> CHR ''!'')
       (map (\<lambda>raw. trim (hd (split_on CHR ''#'' raw))) (str_lines text))"

text \<open>The name a line of an ordinary list stands for, if it has a shape that is known.\<close>

definition candidate :: "str \<Rightarrow> str option" where
  "candidate line =
     (case strip_prefix ''||'' line of
        Some rest \<Rightarrow> (case split_once CHR 0x5E rest of
            Some (domain, t) \<Rightarrow> if t = [] then Some domain else None
          | None \<Rightarrow> None)
      | None \<Rightarrow> (case split_whitespace line of
            [] \<Rightarrow> Some []
          | [first_field] \<Rightarrow> Some first_field
          | first_field # name # _ \<Rightarrow> if is_address first_field then Some name else None))"

definition add_line :: "str set \<times> bool \<Rightarrow> str \<Rightarrow> str set \<times> bool" where
  "add_line acc line =
     (case acc of (ds, allow_only) \<Rightarrow>
       if eq_ignore_case line allow_only_tag then (ds, True)
       else (case candidate line of
           None \<Rightarrow> (ds, allow_only)
         | Some name \<Rightarrow> (case normalise name of
               None \<Rightarrow> (ds, allow_only)
             | Some d \<Rightarrow> (insert d ds, allow_only))))"

definition add_local_line :: "blocklist \<Rightarrow> str \<Rightarrow> blocklist" where
  "add_local_line l line =
     (if eq_ignore_case line local_tag \<or> eq_ignore_case line allow_only_tag then l
      else (let entry = (case split_whitespace line of [] \<Rightarrow> [] | e # _ \<Rightarrow> e)
            in case parse_net entry of
                 Some net \<Rightarrow> l\<lparr>local_nets := local_nets l @ [net]\<rparr>
               | None \<Rightarrow>
                   if looks_like_address entry then l
                   else (case normalise entry of
                       None \<Rightarrow> l
                     | Some name \<Rightarrow> l\<lparr>local_names := insert name (local_names l)\<rparr>)))"

definition parse_local :: "str list \<Rightarrow> blocklist" where
  "parse_local ls = foldl add_local_line empty_list ls"

definition parse_list :: "str \<Rightarrow> blocklist" where
  "parse_list text =
     (let ls = list_lines text
      in if list_ex (\<lambda>l. eq_ignore_case l local_tag) ls then parse_local ls
         else (case foldl add_line ({}, False) ls of (ds, allow_only) \<Rightarrow>
             if allow_only then empty_list\<lparr>allowed := Some ds\<rparr> else empty_list\<lparr>domains := ds\<rparr>))"

section \<open>Using a list\<close>

definition merge_lists :: "blocklist \<Rightarrow> blocklist \<Rightarrow> blocklist" where
  "merge_lists l r =
     \<lparr>domains = domains l \<union> domains r,
      allowed = (case allowed r of
          None \<Rightarrow> allowed l
        | Some theirs \<Rightarrow> Some ((case allowed l of None \<Rightarrow> {} | Some mine \<Rightarrow> mine) \<union> theirs)),
      local_names = local_names l \<union> local_names r,
      local_nets = local_nets l @ local_nets r\<rparr>"

definition list_len :: "blocklist \<Rightarrow> nat" where
  "list_len l =
     card (domains l) + (case allowed l of None \<Rightarrow> 0 | Some a \<Rightarrow> card a)
     + card (local_names l) + length (local_nets l)"

definition refuses_nothing :: "blocklist \<Rightarrow> bool" where
  "refuses_nothing l \<longleftrightarrow> domains l = {} \<and> allowed l = None"

definition is_allow_only :: "blocklist \<Rightarrow> bool" where
  "is_allow_only l \<longleftrightarrow> allowed l \<noteq> None"

definition is_local :: "blocklist \<Rightarrow> bool" where
  "is_local l \<longleftrightarrow> local_names l \<noteq> {} \<or> local_nets l \<noteq> []"

definition list_is_empty :: "blocklist \<Rightarrow> bool" where
  "list_is_empty l \<longleftrightarrow> refuses_nothing l \<and> \<not> is_local l"

definition reached_locally :: "blocklist \<Rightarrow> str \<Rightarrow> bool" where
  "reached_locally l host =
     (if \<not> is_local l then False
      else (case parse_ip (trim_brackets host) of
          Some i \<Rightarrow> list_ex (\<lambda>(net, bits). in_net i net bits) (local_nets l)
        | None \<Rightarrow> (case normalise host of None \<Rightarrow> False | Some n \<Rightarrow> n \<in> local_names l)))"

function parent_matches :: "str set \<Rightarrow> str \<Rightarrow> bool" where
  "parent_matches names rest =
     (if rest \<in> names then True
      else (case split_once CHR ''.'' rest of
          Some (_, parent) \<Rightarrow> if parent \<noteq> [] then parent_matches names parent else False
        | None \<Rightarrow> False))"
  by pat_completeness auto
termination
  by (relation "measure (\<lambda>(_, s). length s)") (auto simp: split_once_Some)

declare parent_matches.simps [simp del]

definition matches_or_parent :: "str set \<Rightarrow> str \<Rightarrow> bool" where
  "matches_or_parent names host = (if names = {} then False else parent_matches names host)"

definition blocks :: "blocklist \<Rightarrow> str \<Rightarrow> bool" where
  "blocks l host =
     (if refuses_nothing l then False
      else (case normalise host of
          None \<Rightarrow> allowed l \<noteq> None
        | Some name \<Rightarrow>
            if (case allowed l of Some a \<Rightarrow> \<not> matches_or_parent a name | None \<Rightarrow> False) then True
            else matches_or_parent (domains l) name))"

record summary =
  su_entries :: nat
  su_allow_only :: bool
  su_local :: bool

definition summarise :: "str \<Rightarrow> summary" where
  "summarise body =
     (let l = parse_list body
      in \<lparr>su_entries = list_len l, su_allow_only = is_allow_only l, su_local = is_local l\<rparr>)"

section \<open>A name and its parents\<close>

lemma parent_matches_iff:
  "parent_matches names h \<longleftrightarrow> h \<in> names \<or> (\<exists>p \<in> names. p \<noteq> [] \<and> suffix (CHR ''.'' # p) h)"
proof (induction "length h" arbitrary: h rule: less_induct)
  case less
  show ?case
  proof (cases "split_once CHR ''.'' h")
    case None
    then have "CHR ''.'' \<notin> set h" by (simp add: split_once_None)
    then have "\<not> suffix (CHR ''.'' # p) h" for p
      by (auto simp: suffix_def)
    then show ?thesis
      using None by (subst parent_matches.simps) simp
  next
    case (Some ab)
    then obtain a b where ab: "split_once CHR ''.'' h = Some (a, b)" by (cases ab) auto
    then have h: "h = a @ CHR ''.'' # b" "CHR ''.'' \<notin> set a" by (simp_all add: split_once_Some)
    have step: "suffix (CHR ''.'' # p) h \<longleftrightarrow> p = b \<or> suffix (CHR ''.'' # p) b" for p
    proof
      assume "suffix (CHR ''.'' # p) h"
      then obtain q where "a @ CHR ''.'' # b = q @ CHR ''.'' # p" by (auto simp: suffix_def h)
      then show "p = b \<or> suffix (CHR ''.'' # p) b"
        using h(2) by (auto simp: append_eq_append_conv2 Cons_eq_append_conv append_eq_Cons_conv suffix_def)
    next
      assume "p = b \<or> suffix (CHR ''.'' # p) b"
      then show "suffix (CHR ''.'' # p) h"
        by (auto simp: h suffix_def)
    qed
    have "parent_matches names h \<longleftrightarrow> h \<in> names \<or> (b \<noteq> [] \<and> parent_matches names b)"
      using ab by (subst parent_matches.simps) simp
    also have "\<dots> \<longleftrightarrow> h \<in> names \<or> (b \<noteq> [] \<and> (b \<in> names \<or> (\<exists>p \<in> names. p \<noteq> [] \<and> suffix (CHR ''.'' # p) b)))"
      using less [of b] h by simp
    also have "\<dots> \<longleftrightarrow> h \<in> names \<or> (\<exists>p \<in> names. p \<noteq> [] \<and> suffix (CHR ''.'' # p) h)"
      unfolding step by (auto simp: suffix_def)
    finally show ?thesis .
  qed
qed

definition covers :: "str set \<Rightarrow> str \<Rightarrow> bool" where
  "covers names h \<longleftrightarrow> (\<exists>p \<in> names. h = p \<or> (p \<noteq> [] \<and> suffix (CHR ''.'' # p) h))"

definition refused_spec :: "blocklist \<Rightarrow> str \<Rightarrow> bool" where
  "refused_spec l host =
     (case normalise host of
        None \<Rightarrow> is_allow_only l
      | Some h \<Rightarrow> covers (domains l) h \<or> (\<exists>a. allowed l = Some a \<and> \<not> covers a h))"

lemma matches_covers: "matches_or_parent names h = covers names h"
  by (auto simp: matches_or_parent_def parent_matches_iff covers_def)

lemma blocks_spec: "blocks l host = refused_spec l host"
  by (auto simp: blocks_def refused_spec_def refuses_nothing_def is_allow_only_def matches_covers covers_def
      split: option.splits)

text \<open>
  C34. A host is refused exactly when the specification over sets says so: its normal form
  or a proper parent of it, label by label, is in the blocklists, or a whitelist is there
  and neither is in it; what has no normal form (an address, a single label) is refused by a
  whitelist and let through by a blocklist. A name that merely ends in the letters of a
  listed one is not matched.
\<close>

theorem blocks_refines_spec:
  "blocks l host \<longleftrightarrow>
     (case normalise host of
        None \<Rightarrow> allowed l \<noteq> None
      | Some h \<Rightarrow> covers (domains l) h \<or> (case allowed l of None \<Rightarrow> False | Some a \<Rightarrow> \<not> covers a h))"
  by (auto simp: blocks_spec refused_spec_def is_allow_only_def split: option.splits)

lemma covers_union: "covers (a \<union> b) h \<longleftrightarrow> covers a h \<or> covers b h"
  by (auto simp: covers_def)

text \<open>
  Folding a list into another refuses what the two together should: an ordinary
  blocklist only adds refusals and takes none away, and its names never become
  permissions; folding two whitelists admits what either of them admits.
\<close>

lemma merge_adds_refusals:
  "(allowed r = None \<longrightarrow> blocks (merge_lists l r) host = (blocks l host \<or> blocks r host))
   \<and> (allowed l = None \<longrightarrow> blocks (merge_lists l r) host = (blocks l host \<or> blocks r host))
   \<and> (allowed l \<noteq> None \<longrightarrow> allowed r \<noteq> None \<longrightarrow> domains l = {} \<longrightarrow> domains r = {} \<longrightarrow>
        normalise host \<noteq> None \<longrightarrow>
        blocks (merge_lists l r) host = (blocks l host \<and> blocks r host))"
  by (auto simp: blocks_spec refused_spec_def merge_lists_def is_allow_only_def covers_union
      split: option.splits)

definition demo_platform :: blocklist where
  "demo_platform = empty_list\<lparr>allowed := Some {''shop.example''}\<rparr>"

definition demo_ads :: blocklist where
  "demo_ads = empty_list\<lparr>domains := {''ads.shop.example''}\<rparr>"

theorem merge_adds_refusals_witness:
  "blocks (merge_lists demo_platform demo_ads) ''x.ads.shop.example''
     = (blocks demo_platform ''x.ads.shop.example'' \<or> blocks demo_ads ''x.ads.shop.example'')"
  using merge_adds_refusals [of demo_ads demo_platform] by (simp add: demo_ads_def empty_list_def)

section \<open>Only private addresses are reached locally\<close>

text \<open>The private ranges in units of 65536 addresses; none of them ends on a multiple of 512 units.\<close>

definition private_unit :: "nat \<Rightarrow> bool" where
  "private_unit s \<longleftrightarrow> 2560 \<le> s \<and> s < 2816 \<or> 44048 \<le> s \<and> s < 44064 \<or> s = 49320 \<or> 25664 \<le> s \<and> s < 25728"

lemma private_unit_split:
  assumes "y < 256"
  shows "private_unit (256 * x + y) \<longleftrightarrow> x = 10 \<or> x = 172 \<and> 16 \<le> y \<and> y \<le> 31 \<or> x = 192 \<and> y = 168
      \<or> x = 100 \<and> 64 \<le> y \<and> y \<le> 127" (is "_ \<longleftrightarrow> ?rhs")
proof
  show "?rhs \<Longrightarrow> private_unit (256 * x + y)"
    using assms by (auto simp: private_unit_def)
next
  assume "private_unit (256 * x + y)"
  then consider "2560 \<le> 256 * x + y" "256 * x + y < 2816"
    | "44048 \<le> 256 * x + y" "256 * x + y < 44064"
    | "256 * x + y = 49320"
    | "25664 \<le> 256 * x + y" "256 * x + y < 25728"
    unfolding private_unit_def by blast
  then show ?rhs
  proof cases
    case 1
    then have "x = 10" using assms by linarith
    then show ?thesis by simp
  next
    case 2
    then have "x = 172" using assms by linarith
    then show ?thesis using 2 by simp
  next
    case 3
    then have "x = 192" using assms by linarith
    then show ?thesis using 3 by simp
  next
    case 4
    then have "x = 100" using assms by linarith
    then show ?thesis using 4 by simp
  qed
qed

lemma is_private_v4_unit: "is_private_v4 a = private_unit (unat a div 65536)"
proof -
  let ?s = "unat a div 65536"
  have o0: "unat a div 2 ^ 24 = ?s div 256"
    using div_mult2_eq [of "unat a" 65536 256] by simp
  have "private_unit (256 * (?s div 256) + ?s mod 256) = is_private_v4 a"
    unfolding is_private_v4_def Let_def o0 by (subst private_unit_split) simp_all
  then show ?thesis by simp
qed

lemma private_unit_convex:
  assumes "private_unit s" and "private_unit t" and "s \<le> x" and "x \<le> t"
    and "s div 256 = t div 256 \<or> 512 dvd t + 1"
  shows "private_unit x"
proof -
  have "\<not> 512 dvd t + 1"
  proof
    assume "512 dvd t + 1"
    then obtain m where "t + 1 = 512 * m" by (elim dvdE)
    moreover have "m \<le> 5 \<or> 6 \<le> m" "m \<le> 50 \<or> 51 \<le> m" "m \<le> 86 \<or> 87 \<le> m" "m \<le> 96 \<or> 97 \<le> m"
      by linarith+
    ultimately show False using assms(2) unfolding private_unit_def by - (elim disjE conjE; linarith)
  qed
  then have same: "s div 256 = t div 256"
    using assms(5) by blast
  define n u w where "n = s div 256" and "u = s mod 256" and "w = t mod 256"
  have st: "s = 256 * n + u" "t = 256 * n + w" "u < 256" "w < 256"
    using div_mult_mod_eq [of s 256] div_mult_mod_eq [of t 256]
    by (simp_all add: n_def u_def w_def same [symmetric] mult.commute del: div_mult_mod_eq)
  define z where "z = x - 256 * n"
  have x: "x = 256 * n + z" "u \<le> z" "z \<le> w" "z < 256"
    using assms(3,4) st by (simp_all add: z_def)
  show ?thesis
    using assms(1,2) x(2,3) unfolding x(1) st(1,2) private_unit_split [OF x(4)]
      private_unit_split [OF st(3)] private_unit_split [OF st(4)] by auto
qed

lemma block_units:
  fixes v :: nat
  assumes "k \<le> 32"
  defines "s \<equiv> v div 2 ^ k * 2 ^ k"
  shows "s div 65536 div 256 = (s + (2 ^ k - 1)) div 65536 div 256 \<or> 512 dvd (s + (2 ^ k - 1)) div 65536 + 1"
proof (cases "k \<le> 24")
  case True
  have two: "(2::nat) ^ 24 = 2 ^ k * 2 ^ (24 - k)"
    using True by (simp flip: power_add)
  have "n div 65536 div 256 = n div 2 ^ k div 2 ^ (24 - k)" for n :: nat
  proof -
    have "n div 65536 div 256 = n div 2 ^ 24"
      using div_mult2_eq [of n 65536 256] by simp
    also have "\<dots> = n div 2 ^ k div 2 ^ (24 - k)"
      unfolding two by (rule div_mult2_eq)
    finally show ?thesis .
  qed
  moreover have "(s + (2 ^ k - 1)) div 2 ^ k = s div 2 ^ k"
    unfolding s_def by (subst div_mult_self3) simp_all
  ultimately show ?thesis by simp
next
  case False
  define j where "j = k - 25"
  have k: "(2::nat) ^ k = 2 ^ j * 512 * 65536"
  proof -
    have "(2::nat) ^ k = 2 ^ (j + 25)" using False by (simp add: j_def)
    then show ?thesis by (simp add: power_add)
  qed
  define q where "q = v div 2 ^ k"
  define N where "N = (q + 1) * (2 ^ j * 512)"
  have "N \<noteq> 0" by (simp add: N_def)
  then obtain n where n: "N = Suc n" using not0_implies_Suc by blast
  have "s = q * 2 ^ k" by (simp add: s_def q_def)
  then have "s + (2 ^ k - 1) = N * 65536 - 1"
    unfolding k N_def by (simp add: algebra_simps)
  also have "\<dots> = 65535 + n * 65536"
    by (simp add: n)
  finally have "(s + (2 ^ k - 1)) div 65536 = n"
    by simp
  then have "(s + (2 ^ k - 1)) div 65536 + 1 = 512 * ((q + 1) * 2 ^ j)"
    using n by (simp add: N_def)
  then show ?thesis by (metis dvd_triv_left)
qed

lemma private_v4_block:
  fixes a :: u32
  assumes "bits \<le> 32" and "is_private_v4 (block_first a bits)" and "is_private_v4 (block_last a bits)"
  shows "is_private_v4 a"
proof -
  let ?s = "unat (block_first a bits)" and ?t = "unat (block_last a bits)"
  have "?s \<le> unat a \<and> unat a \<le> ?t"
    by (rule block_between) (use assms(1) in simp_all)
  then have le: "?s div 65536 \<le> unat a div 65536" "unat a div 65536 \<le> ?t div 65536"
    by (simp_all add: div_le_mono)
  have "?s div 65536 div 256 = ?t div 65536 div 256 \<or> 512 dvd ?t div 65536 + 1"
    using block_units [of "32 - bits" "unat a"] assms(1)
    by (simp add: block_first_unat block_last_unat)
  then show ?thesis
    using private_unit_convex [OF _ _ le] assms(2,3) by (simp add: is_private_v4_unit)
qed

lemma mask7: "(net_mask 7 :: u16) = 0xfe00"
  by code_simp

lemma unique_local_unit: "segment0 a AND 0xfe00 = 0xfc00 \<longleftrightarrow> unat a div 2 ^ 121 = 126"
proof -
  have "unat a div 2 ^ 112 < 2 ^ 16"
    using word_bound [of a] by (simp add: less_mult_imp_div_less)
  then have seg: "unat (segment0 a) = unat a div 2 ^ 112"
    unfolding segment0_def unsigned_ucast_eq unat_drop_bit_eq by (simp add: drop_bit_eq_div take_bit_nat_eq_self)
  have "segment0 a AND 0xfe00 = 0xfc00 \<longleftrightarrow> block_first (segment0 a) 7 = block_first 0xfc00 7"
    by (simp add: block_first_def mask7)
  also have "\<dots> \<longleftrightarrow> unat a div 2 ^ 112 div 2 ^ 9 = 126"
    by (simp add: block_first_eq seg)
  also have "unat a div 2 ^ 112 div 2 ^ 9 = unat a div 2 ^ 121"
    by (simp flip: div_mult2_eq)
  finally show ?thesis .
qed

lemma mapped_unit: "to_ipv4_mapped a \<noteq> None \<longleftrightarrow> unat a div 2 ^ 32 = 65535"
proof -
  have "drop_bit 32 a = 0xffff \<longleftrightarrow> unat (drop_bit 32 a) = unat (0xffff :: u128)"
    by (simp only: word_unat_eq_iff)
  then show ?thesis
    unfolding to_ipv4_mapped_def unat_drop_bit_eq by (simp add: drop_bit_eq_div)
qed

lemma private_v6_block:
  fixes a :: u128
  assumes "bits \<le> 128" and "to_ipv4_mapped a = None"
    and "is_private_network (V6 (block_first a bits))" and "is_private_network (V6 (block_last a bits))"
  shows "is_private_network (V6 a)"
proof -
  let ?s = "unat (block_first a bits)" and ?t = "unat (block_last a bits)"
  have le: "?s \<le> unat a" "unat a \<le> ?t"
    using block_between [of bits a a] assms(1) by simp_all
  have cls: "b div 2 ^ 32 = 65535 \<or> b div 2 ^ 121 = 126" if "b = ?s \<or> b = ?t" for b
    using that assms(3,4) mapped_unit unique_local_unit
    by (auto simp: is_private_network_def split: option.splits)
  have not_mapped: "unat a div 2 ^ 32 \<noteq> 65535"
    using assms(2) mapped_unit [of a] by simp
  have range: "b div m = n \<Longrightarrow> 0 < m \<Longrightarrow> n * m \<le> b \<and> b < n * m + m" for b m n :: nat
  proof -
    assume n: "b div m = n" and m: "0 < m"
    show "n * m \<le> b \<and> b < n * m + m"
      using div_mult_mod_eq [of b m] mod_less_divisor [OF m, of b] unfolding n by linarith
  qed
  have mono: "?s div m \<le> unat a div m" "unat a div m \<le> ?t div m" for m
    using le by (simp_all add: div_le_mono)
  consider "?s div 2 ^ 121 = 126" "?t div 2 ^ 121 = 126"
    | "?s div 2 ^ 32 = 65535" "?t div 2 ^ 32 = 65535"
    | "?s div 2 ^ 121 = 126" "?t div 2 ^ 32 = 65535"
    | "?s div 2 ^ 32 = 65535" "?t div 2 ^ 121 = 126"
    using cls by blast
  then show ?thesis
  proof cases
    case 1
    then have "unat a div 2 ^ 121 = 126"
      using mono [of "2 ^ 121"] by simp
    then show ?thesis
      using assms(2) unique_local_unit by (simp add: is_private_network_def)
  next
    case 2
    then show ?thesis
      using mono [of "2 ^ 32"] not_mapped by simp
  next
    case 3
    then show ?thesis
      using range [of ?s "2 ^ 121" 126] range [of ?t "2 ^ 32" 65535] le by simp
  next
    case 4
    let ?k = "128 - bits"
    have t: "?t = ?s + (2 ^ ?k - 1)"
      using block_last_unat [of bits a] assms(1) by simp
    have "?s < 2 ^ 48" "0 < ?s" "126 * 2 ^ 121 \<le> ?t"
      using range [of ?s "2 ^ 32" 65535] range [of ?t "2 ^ 121" 126] 4 by simp_all
    then have "?s < 2 ^ ?k" using t by simp
    moreover have "2 ^ ?k dvd ?s"
      using block_first_unat [of bits a] assms(1) by simp
    ultimately show ?thesis
      using \<open>0 < ?s\<close> nat_dvd_not_less by blast
  qed
qed

lemma parse_net_bounds:
  assumes "parse_net entry = Some (net, bits)"
  shows "\<exists>i l. net_bounds i bits = (net, l) \<and> bits \<le> (if is_ipv4 i then 32 else 128)
    \<and> is_private_network net \<and> is_private_network l"
proof -
  let ?c = "case split_once CHR ''/'' entry of
              Some (a, b) \<Rightarrow> map_option (Pair a) (parse_u8 b)
            | None \<Rightarrow> Some (entry, if CHR '':'' \<in> set entry then 128 else 32)"
  obtain a k where ak: "?c = Some (a, k)"
  proof (cases ?c)
    case None
    then show ?thesis using assms unfolding parse_net_def by simp
  next
    case (Some x)
    then show ?thesis using that by (cases x) simp
  qed
  show ?thesis
  proof (cases "parse_ip (trim_brackets a)")
    case None
    then show ?thesis using assms unfolding parse_net_def ak by simp
  next
    case (Some i)
    obtain f l where fl: "net_bounds i k = (f, l)" by (cases "net_bounds i k")
    have "\<not> (if is_ipv4 i then 32 else 128) < k \<and> is_private_network f \<and> is_private_network l
        \<and> net = f \<and> bits = k"
      using assms unfolding parse_net_def ak by (simp add: Some fl Let_def split: if_splits)
    then show ?thesis
      by (intro exI [of _ i] exI [of _ l]) (simp add: fl not_less)
  qed
qed

lemma unmapped_private: "is_private_network (unmapped i) = is_private_network i"
  by (auto simp: is_private_network_def unmapped_def split: ip.splits option.splits)

lemma unmapped_V6: "unmapped i = V6 a \<Longrightarrow> to_ipv4_mapped a = None"
  by (auto simp: unmapped_def split: ip.splits option.splits)

lemma in_parsed_net_private:
  assumes "parse_net entry = Some (net, bits)" and "in_net i net bits"
  shows "is_private_network i"
proof -
  from parse_net_bounds [OF assms(1)] obtain j l where
    "net_bounds j bits = (net, l)" and len: "bits \<le> (if is_ipv4 j then 32 else 128)"
    and "is_private_network net" "is_private_network l"
    by blast
  then have j: "net = fst (net_bounds j bits)" "bits \<le> (if is_ipv4 j then 32 else 128)"
    "is_private_network (fst (net_bounds j bits))" "is_private_network (snd (net_bounds j bits))"
    by simp_all
  have "is_private_network (unmapped i)"
  proof (cases "unmapped i")
    case (V4 a)
    then obtain b where b: "j = V4 b" "block_first a bits = block_first b bits"
      using assms(2) j(1) by (cases j) (auto simp: in_net_def net_bounds_def)
    then have "block_last a bits = block_last b bits"
      by (simp add: block_last_def block_first_def)
    then show ?thesis
      using V4 b j private_v4_block [of bits a] by (simp add: is_private_network_def net_bounds_def)
  next
    case (V6 a)
    then obtain b where b: "j = V6 b" "block_first a bits = block_first b bits"
      using assms(2) j(1) by (cases j) (auto simp: in_net_def net_bounds_def)
    then have "block_last a bits = block_last b bits"
      by (simp add: block_last_def block_first_def)
    then show ?thesis
      using V6 b j private_v6_block [of bits a] unmapped_V6 [OF V6] by (simp add: net_bounds_def)
  qed
  then show ?thesis by (simp add: unmapped_private)
qed

definition nets_parsed :: "blocklist \<Rightarrow> bool" where
  "nets_parsed l \<longleftrightarrow> (\<forall>net \<in> set (local_nets l). \<exists>entry. parse_net entry = Some net)"

lemma nets_parsed_parse_local: "nets_parsed (parse_local ls)"
proof -
  have "nets_parsed l \<Longrightarrow> nets_parsed (add_local_line l line)" for l line
    by (auto simp: nets_parsed_def add_local_line_def Let_def split: option.split)
  then have "nets_parsed l \<Longrightarrow> nets_parsed (foldl add_local_line l ls)" for l
    by (induction ls arbitrary: l) auto
  moreover have "nets_parsed empty_list"
    by (simp add: nets_parsed_def empty_list_def)
  ultimately show ?thesis
    unfolding parse_local_def by blast
qed

lemma nets_parsed_parse: "nets_parsed (parse_list text)"
proof (cases "list_ex (\<lambda>l. eq_ignore_case l local_tag) (list_lines text)")
  case True
  then show ?thesis
    using nets_parsed_parse_local by (simp add: parse_list_def Let_def)
next
  case False
  then have "local_nets (parse_list text) = []"
    by (auto simp: parse_list_def Let_def empty_list_def split: prod.split)
  then show ?thesis by (simp add: nets_parsed_def)
qed

lemma nets_parsed_merge: "nets_parsed l \<Longrightarrow> nets_parsed r \<Longrightarrow> nets_parsed (merge_lists l r)"
  by (auto simp: nets_parsed_def merge_lists_def)

lemma nets_parsed_fold: "nets_parsed (foldl merge_lists empty_list (map parse_list texts))"
proof -
  have "nets_parsed l \<Longrightarrow> nets_parsed (foldl merge_lists l (map parse_list texts))" for l
    by (induction texts arbitrary: l) (auto simp: nets_parsed_merge nets_parsed_parse)
  moreover have "nets_parsed empty_list"
    by (simp add: nets_parsed_def empty_list_def)
  ultimately show ?thesis by blast
qed

text \<open>
  Whatever lists were read and folded together, an address the relay reaches from this
  machine is on a private network: loopback, link-local and public addresses can not be
  opened by any line of any list.
\<close>

theorem only_private_addresses_are_reached:
  assumes "reached_locally (foldl merge_lists empty_list (map parse_list texts)) host"
    and "parse_ip (trim_brackets host) = Some i"
  shows "is_private_network i \<and> \<not> (\<exists>a. i = V4 a \<and> (unat a div 2 ^ 24 = 127 \<or> unat a div 2 ^ 16 = 43518))"
proof -
  let ?l = "foldl merge_lists empty_list (map parse_list texts)"
  obtain net bits where "(net, bits) \<in> set (local_nets ?l)" "in_net i net bits"
    using assms by (auto simp: reached_locally_def list_ex_iff split: if_splits)
  then have "is_private_network i"
    using nets_parsed_fold in_parsed_net_private unfolding nets_parsed_def by blast
  moreover have "\<not> is_private_v4 a" if "unat a div 2 ^ 24 = 127 \<or> unat a div 2 ^ 16 = 43518" for a
  proof -
    have "unat a div 2 ^ 24 = unat a div 2 ^ 16 div 256"
      using div_mult2_eq [of "unat a" 65536 256] by simp
    then show ?thesis using that by (auto simp: is_private_v4_def Let_def)
  qed
  ultimately show ?thesis by (auto simp: is_private_network_def)
qed

definition demo_local_text :: str where
  "demo_local_text = ''@local'' @ [CHR 0x0A] @ ''100.64.0.0/10'' @ [CHR 0x0A] @ ''10.0.0.0/7''"

lemma demo_addresses:
  "parse_ip (trim_brackets ''100.64.0.0'') = Some (V4 1681915904)"
  "parse_ip (trim_brackets ''10.0.0.0'') = Some (V4 167772160)"
  "parse_ip (trim_brackets ''100.100.1.2'') = Some (V4 1684275458)"
  by (simp_all add: parse_ip_def octet_simps trim_brackets_def drop_while_end_def)

lemma demo_blocks:
  "block_first (1681915904 :: u32) 10 = 1681915904" "block_last (1681915904 :: u32) 10 = 1686110207"
  "block_first (167772160 :: u32) 7 = 167772160" "block_last (167772160 :: u32) 7 = 201326591"
  "block_first (1684275458 :: u32) 10 = 1681915904"
  by code_simp+

lemma demo_nets:
  "parse_net ''100.64.0.0/10'' = Some (V4 1681915904, 10)"
  "parse_net ''10.0.0.0/7'' = None"
proof -
  have "parse_u8 ''10'' = Some 10" "parse_u8 ''7'' = Some 7"
    by code_simp+
  then show "parse_net ''100.64.0.0/10'' = Some (V4 1681915904, 10)" "parse_net ''10.0.0.0/7'' = None"
    by (simp_all add: parse_net_def demo_addresses net_bounds_def demo_blocks is_private_network_def
        is_private_v4_def)
qed

lemma demo_lines: "list_lines demo_local_text = [''@local'', ''100.64.0.0/10'', ''10.0.0.0/7'']"
  by code_simp

lemma demo_fields:
  "split_whitespace ''100.64.0.0/10'' = [''100.64.0.0/10'']" "split_whitespace ''10.0.0.0/7'' = [''10.0.0.0/7'']"
  "eq_ignore_case ''@local'' local_tag" "\<not> eq_ignore_case ''100.64.0.0/10'' local_tag"
  "\<not> eq_ignore_case ''10.0.0.0/7'' local_tag" "\<not> eq_ignore_case ''100.64.0.0/10'' allow_only_tag"
  "\<not> eq_ignore_case ''10.0.0.0/7'' allow_only_tag"
  by code_simp+

lemma demo_list: "local_nets (parse_list demo_local_text) = [(V4 1681915904, 10)]"
  by (simp add: parse_list_def demo_lines demo_fields parse_local_def add_local_line_def demo_nets
      looks_like_address_def empty_list_def)

theorem only_private_addresses_are_reached_witness:
  "reached_locally (foldl merge_lists empty_list (map parse_list [demo_local_text])) ''100.100.1.2''
   \<and> is_private_network (V4 1684275458)"
proof -
  have reached: "reached_locally (foldl merge_lists empty_list (map parse_list [demo_local_text])) ''100.100.1.2''"
    by (simp add: reached_locally_def is_local_def merge_lists_def demo_list demo_addresses in_net_def
        unmapped_def net_bounds_def demo_blocks)
  then show ?thesis
    using only_private_addresses_are_reached [of "[demo_local_text]" "''100.100.1.2''" "V4 1684275458"]
      demo_addresses(3) by blast
qed

end
