(* ===== verification/Base32.thy ===== *)
theory Base32
  imports Prelude
begin

text \<open>
  The base32 of RFC 4648 that authenticators use, from \<open>shared-rs/src/totp.rs\<close>: the decoder
  and the encoder with their accumulator loops, and the proof that the text of a secret reads
  back as the secret. Both loops are related to one bit string.
\<close>

unbundle bit_operations_syntax

section \<open>Base32\<close>

definition base32_alphabet :: str where
  "base32_alphabet = ''ABCDEFGHIJKLMNOPQRSTUVWXYZ234567''"

fun position :: "char \<Rightarrow> str \<Rightarrow> nat option" where
  "position c [] = None"
| "position c (x # xs) = (if x = c then Some 0 else map_option Suc (position c xs))"

definition base32_skip :: "char \<Rightarrow> bool" where
  "base32_skip c \<longleftrightarrow> c = CHR '' '' \<or> c = CHR ''-'' \<or> c = CHR ''='' \<or> c = CHR 0x0A \<or> c = CHR 0x0D \<or> c = CHR 0x09"

fun base32_decode_aux :: "u32 \<Rightarrow> nat \<Rightarrow> str \<Rightarrow> bytes option" where
  "base32_decode_aux bits nbits [] = Some []"
| "base32_decode_aux bits nbits (c # s) =
     (if base32_skip c then base32_decode_aux bits nbits s
      else (case position (to_upper c) base32_alphabet of
          None \<Rightarrow> None
        | Some v \<Rightarrow>
            (let bits' = push_bit 5 bits OR word_of_nat v; n = nbits + 5
             in if 8 \<le> n then map_option ((#) (ucast (drop_bit (n - 8) bits'))) (base32_decode_aux bits' (n - 8) s)
                else base32_decode_aux bits' n s)))"

definition base32_decode :: "str \<Rightarrow> bytes option" where
  "base32_decode s =
     (case base32_decode_aux 0 0 s of None \<Rightarrow> None | Some out \<Rightarrow> if out = [] then None else Some out)"

definition base32_char :: "u32 \<Rightarrow> char" where
  "base32_char v = base32_alphabet ! unat (v AND 0x1f)"

text \<open>The characters the loop \<open>while nbits >= 5\<close> pushes, and the count that is left.\<close>

fun base32_emit :: "u32 \<Rightarrow> nat \<Rightarrow> str" where
  "base32_emit bits nbits =
     (if 5 \<le> nbits then base32_char (drop_bit (nbits - 5) bits) # base32_emit bits (nbits - 5) else [])"

fun base32_left :: "nat \<Rightarrow> nat" where
  "base32_left nbits = (if 5 \<le> nbits then base32_left (nbits - 5) else nbits)"

declare base32_emit.simps [simp del] base32_left.simps [simp del]

fun base32_encode_aux :: "u32 \<Rightarrow> nat \<Rightarrow> bytes \<Rightarrow> str" where
  "base32_encode_aux bits nbits [] =
     (if 0 < nbits then [base32_char (push_bit (5 - nbits) bits)] else [])"
| "base32_encode_aux bits nbits (b # bs) =
     (let bits' = push_bit 8 bits OR ucast b
      in base32_emit bits' (nbits + 8) @ base32_encode_aux bits' (base32_left (nbits + 8)) bs)"

definition base32_encode :: "bytes \<Rightarrow> str" where
  "base32_encode bs = base32_encode_aux 0 0 bs"

section \<open>Base32 is lossless\<close>

text \<open>The \<open>n\<close> lowest bits of a word, highest first.\<close>

definition low_bits :: "nat \<Rightarrow> u32 \<Rightarrow> bool list" where
  "low_bits n w = map (bit w) (rev [0..<n])"

lemma low_bits_length [simp]: "length (low_bits n w) = n"
  by (simp add: low_bits_def)

lemma low_bits_0 [simp]: "low_bits 0 w = []"
  by (simp add: low_bits_def)

lemma low_bits_Suc: "low_bits (Suc n) w = bit w n # low_bits n w"
  by (simp add: low_bits_def)

lemma low_bits_split: "low_bits (k + n) w = low_bits k (drop_bit n w) @ low_bits n w"
  by (induction k) (simp_all add: low_bits_Suc bit_drop_bit_eq add.commute)

lemma low_bits_cong: "(\<And>i. i < n \<Longrightarrow> bit v i = bit w i) \<Longrightarrow> low_bits n v = low_bits n w"
  by (simp add: low_bits_def)

lemma low_bits_shift_in:
  assumes "k + n \<le> 32" and "\<And>i. bit v i \<Longrightarrow> i < k"
  shows "low_bits (n + k) (push_bit k w OR v) = low_bits n w @ low_bits k v"
proof -
  have "low_bits n (drop_bit k (push_bit k w OR v)) = low_bits n w"
    by (rule low_bits_cong) (use assms in \<open>auto simp: bit_simps\<close>)
  moreover have "low_bits k (push_bit k w OR v) = low_bits k v"
    by (rule low_bits_cong) (auto simp: bit_simps)
  ultimately show ?thesis by (simp add: low_bits_split)
qed

lemma low_bits_inject:
  assumes "low_bits 8 v = low_bits 8 w"
  shows "(ucast v :: u8) = ucast w"
proof (rule bit_word_eqI)
  fix i assume "i < LENGTH(8)"
  then have i: "i < 8" by simp
  have "low_bits 8 v ! (7 - i) = bit v i" "low_bits 8 w ! (7 - i) = bit w i"
    using i by (simp_all add: low_bits_def rev_nth)
  then show "bit (ucast v :: u8) i = bit (ucast w :: u8) i"
    using assms i by (simp add: bit_simps)
qed

definition byte_bits :: "u8 \<Rightarrow> bool list" where
  "byte_bits b = low_bits 8 (ucast b)"

definition char_bits :: "char \<Rightarrow> bool list" where
  "char_bits c = (case position c base32_alphabet of None \<Rightarrow> [] | Some v \<Rightarrow> low_bits 5 (word_of_nat v))"

lemma alphabet_position: "i < 32 \<Longrightarrow> position (base32_alphabet ! i) base32_alphabet = Some i"
proof -
  have "\<forall>i \<in> set [0..<32]. position (base32_alphabet ! i) base32_alphabet = Some i"
    by code_simp
  then show "i < 32 \<Longrightarrow> ?thesis" by simp
qed

lemma alphabet_plain:
  "i < 32 \<Longrightarrow> to_upper (base32_alphabet ! i) = base32_alphabet ! i \<and> \<not> base32_skip (base32_alphabet ! i)"
proof -
  have "\<forall>i \<in> set [0..<32]. to_upper (base32_alphabet ! i) = base32_alphabet ! i
    \<and> \<not> base32_skip (base32_alphabet ! i)"
    by code_simp
  then show "i < 32 \<Longrightarrow> ?thesis" by simp
qed

text \<open>What the encoder writes is the bit string of its input, padded with zeros.\<close>

lemma and_31: "(v :: u32) AND 0x1f = take_bit 5 v"
proof -
  have "(0x1f :: u32) = Bit_Operations.mask 5" by (simp add: mask_eq_exp_minus_1)
  then show ?thesis by (simp only: take_bit_eq_mask)
qed

lemma low_bits_take: "low_bits 5 (take_bit 5 v) = low_bits 5 v"
  by (rule low_bits_cong) (simp add: bit_simps)

lemma base32_char_index: "unat (take_bit 5 (v :: u32)) < 32"
  by (simp add: unsigned_take_bit_eq take_bit_nat_less_exp [of 5, simplified])

lemma base32_char_bits: "char_bits (base32_char v) = low_bits 5 v"
  by (simp add: char_bits_def base32_char_def and_31 alphabet_position base32_char_index low_bits_take)

lemma base32_emit_bits:
  "concat (map char_bits (base32_emit w n)) @ low_bits (base32_left n) w = low_bits n w"
proof (induction n rule: less_induct)
  case (less n)
  show ?case
  proof (cases "5 \<le> n")
    case True
    then have "low_bits n w = low_bits 5 (drop_bit (n - 5) w) @ low_bits (n - 5) w"
      using low_bits_split [of 5 "n - 5" w] by simp
    then show ?thesis
      using True less [of "n - 5"] by (simp add: base32_emit.simps [of w n] base32_left.simps [of n] base32_char_bits)
  next
    case False
    then show ?thesis by (simp add: base32_emit.simps base32_left.simps)
  qed
qed

lemma base32_left_less: "base32_left n < 5"
  by (induction n rule: base32_left.induct) (simp add: base32_left.simps)

lemma base32_encode_bits:
  "n < 5 \<Longrightarrow> \<exists>pad. length pad < 5 \<and>
     concat (map char_bits (base32_encode_aux w n bs)) = low_bits n w @ concat (map byte_bits bs) @ pad"
proof (induction bs arbitrary: w n)
  case Nil
  show ?case
  proof (cases "n = 0")
    case False
    then have "low_bits 5 (push_bit (5 - n) w) = low_bits n w @ low_bits (5 - n) (push_bit (5 - n) w)"
      using Nil low_bits_split [of n "5 - n" "push_bit (5 - n) w"]
        low_bits_cong [of n "drop_bit (5 - n) (push_bit (5 - n) w)" w]
      by (force simp: bit_simps)
    then show ?thesis
      using False by (intro exI [of _ "low_bits (5 - n) (push_bit (5 - n) w)"]) (simp add: base32_char_bits)
  qed simp
next
  case (Cons b bs)
  let ?w = "push_bit 8 w OR ucast b"
  have "low_bits (n + 8) ?w = low_bits n w @ byte_bits b"
    unfolding byte_bits_def
    by (rule low_bits_shift_in) (use Cons.prems in \<open>auto simp: bit_simps dest: bit_imp_le_length\<close>)
  then have "concat (map char_bits (base32_emit ?w (n + 8))) @ low_bits (base32_left (n + 8)) ?w
      = low_bits n w @ byte_bits b"
    using base32_emit_bits [of ?w "n + 8"] by simp
  moreover obtain pad where "length pad < 5"
    "concat (map char_bits (base32_encode_aux ?w (base32_left (n + 8)) bs))
       = low_bits (base32_left (n + 8)) ?w @ concat (map byte_bits bs) @ pad"
    using Cons.IH [OF base32_left_less] by blast
  ultimately show ?case
    by (intro exI [of _ pad]) (simp add: Let_def flip: append_assoc)
qed

definition base32_text :: "str \<Rightarrow> bool" where
  "base32_text s \<longleftrightarrow> (\<forall>c \<in> set s. \<exists>i < 32. c = base32_alphabet ! i)"

lemma base32_char_text: "\<exists>i < 32. base32_char v = base32_alphabet ! i"
  using base32_char_index [of v] by (auto simp: base32_char_def and_31)

lemma base32_emit_text: "c \<in> set (base32_emit w n) \<Longrightarrow> \<exists>i < 32. c = base32_alphabet ! i"
proof (induction n rule: less_induct)
  case (less n)
  show ?case
  proof (cases "5 \<le> n")
    case True
    then show ?thesis
      using less(1) [of "n - 5"] less(2) base32_char_text by (auto simp: base32_emit.simps [of w n])
  next
    case False
    then show ?thesis using less(2) by (simp add: base32_emit.simps)
  qed
qed

lemma base32_encode_text: "base32_text (base32_encode_aux w n bs)"
proof (induction bs arbitrary: w n)
  case Nil
  then show ?case using base32_char_text by (simp add: base32_text_def)
next
  case (Cons b bs)
  then show ?case
    using base32_emit_text by (fastforce simp: base32_text_def Let_def)
qed

lemma byte_bits_ucast: "byte_bits (ucast (w :: u32)) = low_bits 8 w"
  unfolding byte_bits_def by (rule low_bits_cong) (simp add: bit_simps)

lemma base32_decode_bits:
  "base32_text s \<Longrightarrow> n < 8 \<Longrightarrow>
   \<exists>out rest. base32_decode_aux w n s = Some out \<and> length rest < 8
     \<and> low_bits n w @ concat (map char_bits s) = concat (map byte_bits out) @ rest"
proof (induction s arbitrary: w n)
  case Nil
  then show ?case by (intro exI [of _ "[]"] exI [of _ "low_bits n w"]) simp
next
  case (Cons c s)
  obtain v where v: "v < 32" "c = base32_alphabet ! v"
    using Cons.prems by (auto simp: base32_text_def)
  let ?w = "push_bit 5 w OR word_of_nat v"
  have pos: "position (to_upper c) base32_alphabet = Some v" "\<not> base32_skip c"
    using v alphabet_plain [OF v(1)] alphabet_position [OF v(1)] by simp_all
  have "v = take_bit 5 v"
    using v(1) by (simp add: take_bit_nat_eq_self)
  then have "(word_of_nat v :: u32) = take_bit 5 (word_of_nat v)"
    by (metis of_nat_take_bit)
  then have small: "i < 5" if "bit (word_of_nat v :: u32) i" for i
    using that by (metis bit_take_bit_iff)
  have bits: "low_bits (n + 5) ?w = low_bits n w @ char_bits c"
  proof -
    have "low_bits (n + 5) ?w = low_bits n w @ low_bits 5 (word_of_nat v)"
      by (rule low_bits_shift_in) (use Cons.prems small in auto)
    then show ?thesis
      using alphabet_position [OF v(1)] by (simp add: char_bits_def v(2))
  qed
  have plain: "base32_text s" using Cons.prems by (simp add: base32_text_def)
  show ?case
  proof (cases "8 \<le> n + 5")
    case True
    have "n + 5 - 8 < 8" using Cons.prems by simp
    from Cons.IH [OF plain this, of ?w] obtain out rest where
      IH: "base32_decode_aux ?w (n + 5 - 8) s = Some out" "length rest < 8"
        "low_bits (n + 5 - 8) ?w @ concat (map char_bits s) = concat (map byte_bits out) @ rest"
      by blast
    have "8 + (n + 5 - 8) = n + 5" using True by simp
    then have "low_bits (n + 5) ?w = byte_bits (ucast (drop_bit (n + 5 - 8) ?w)) @ low_bits (n + 5 - 8) ?w"
      using low_bits_split [of 8 "n + 5 - 8" ?w] unfolding byte_bits_ucast by (simp only:)
    then have "low_bits n w @ char_bits c @ concat (map char_bits s)
        = byte_bits (ucast (drop_bit (n + 5 - 8) ?w)) @ concat (map byte_bits out) @ rest"
      using bits IH(3) by (metis append_assoc)
    moreover have "base32_decode_aux w n (c # s) = Some (ucast (drop_bit (n + 5 - 8) ?w) # out)"
      using True IH(1) pos by (simp add: Let_def)
    ultimately show ?thesis
      using IH(2) by (intro exI [of _ "ucast (drop_bit (n + 5 - 8) ?w) # out"] exI [of _ rest]) simp
  next
    case False
    then have "n + 5 < 8" by simp
    from Cons.IH [OF plain this, of ?w] obtain out rest where
      IH: "base32_decode_aux ?w (n + 5) s = Some out" "length rest < 8"
        "low_bits (n + 5) ?w @ concat (map char_bits s) = concat (map byte_bits out) @ rest"
      by blast
    have "base32_decode_aux w n (c # s) = Some out"
      using False IH(1) pos by (simp add: Let_def)
    then show ?thesis
      using IH(2,3) bits by (intro exI [of _ out] exI [of _ rest]) simp
  qed
qed

lemma byte_bits_length [simp]: "length (byte_bits b) = 8"
  by (simp add: byte_bits_def)

lemma byte_bits_inject: "byte_bits a = byte_bits b \<Longrightarrow> a = b"
proof -
  assume "byte_bits a = byte_bits b"
  then have "(ucast (ucast a :: u32) :: u8) = ucast (ucast b :: u32)"
    unfolding byte_bits_def by (rule low_bits_inject)
  moreover have "ucast (ucast c :: u32) = c" for c :: u8
    by (rule bit_word_eqI) (simp add: bit_simps)
  ultimately show "a = b" by simp
qed

lemma concat_byte_bits_length: "length (concat (map byte_bits bs)) = 8 * length bs"
  by (induction bs) simp_all

lemma concat_byte_bits_inject:
  "concat (map byte_bits as) @ r = concat (map byte_bits bs) @ s \<Longrightarrow> length r < 8 \<Longrightarrow> length s < 8 \<Longrightarrow> as = bs"
proof (induction as arbitrary: bs)
  case Nil
  have "length r = 8 * length bs + length s"
    using arg_cong [OF Nil(1), of length] by (simp add: concat_byte_bits_length)
  then have "length bs = 0" using Nil(2) by linarith
  then show ?case by simp
next
  case (Cons a as)
  show ?case
  proof (cases bs)
    case Nil
    then show ?thesis
      using arg_cong [OF Cons.prems(1), of length] Cons.prems(3) by (simp add: concat_byte_bits_length)
  next
    case (Cons b bs')
    then show ?thesis
      using Cons.prems Cons.IH [of bs'] byte_bits_inject by auto
  qed
qed

lemma base32_roundtrip:
  assumes "bs \<noteq> []"
  shows "base32_decode (base32_encode bs) = Some bs"
proof -
  obtain pad where pad: "length pad < 5"
    "concat (map char_bits (base32_encode bs)) = concat (map byte_bits bs) @ pad"
    using base32_encode_bits [of 0 0 bs] by (auto simp: base32_encode_def)
  have "base32_text (base32_encode bs)"
    unfolding base32_encode_def by (rule base32_encode_text)
  then obtain out rest where out: "base32_decode_aux 0 0 (base32_encode bs) = Some out" "length rest < 8"
    "concat (map char_bits (base32_encode bs)) = concat (map byte_bits out) @ rest"
    using base32_decode_bits [of _ 0 0] by force
  then have "out = bs"
    using pad concat_byte_bits_inject [of out rest bs pad] by simp
  then show ?thesis
    using out assms by (simp add: base32_decode_def)
qed

interpretation base32: codec base32_encode base32_decode "\<lambda>bs. bs \<noteq> []"
  by unfold_locales (rule base32_roundtrip)

end
