(* ===== verification/Totp.thy ===== *)
theory Totp
  imports Keys Base32
begin

text \<open>
  \<open>shared-rs/src/totp.rs\<close>: percent coding, the generator record with its
  \<open>otpauth://\<close> link read and written, and the code of a moment. HMAC comes from the \<open>hmac\<close>
  crate and is an argument.
\<close>

unbundle bit_operations_syntax

section \<open>Algorithms\<close>

datatype algorithm = Sha1 | Sha256 | Sha512

definition algorithm_parse :: "str \<Rightarrow> algorithm option" where
  "algorithm_parse s =
     (let t = List.filter (\<lambda>c. c \<noteq> CHR ''-'') (upper s)
      in if t = ''SHA1'' then Some Sha1 else if t = ''SHA256'' then Some Sha256
         else if t = ''SHA512'' then Some Sha512 else None)"

definition algorithm_text :: "algorithm \<Rightarrow> str" where
  "algorithm_text a = (case a of Sha1 \<Rightarrow> ''SHA1'' | Sha256 \<Rightarrow> ''SHA256'' | Sha512 \<Rightarrow> ''SHA512'')"

interpretation algorithm_name: codec algorithm_text algorithm_parse "\<lambda>_. True"
proof
  have "algorithm_parse ''SHA1'' = Some Sha1" "algorithm_parse ''SHA256'' = Some Sha256"
      "algorithm_parse ''SHA512'' = Some Sha512"
    by code_simp+
  then show "algorithm_parse (algorithm_text a) = Some a" for a
    by (cases a) (simp_all add: algorithm_text_def)
qed

section \<open>Percent coding\<close>

definition unreserved :: "char \<Rightarrow> bool" where
  "unreserved c \<longleftrightarrow> is_alnum c \<or> c = CHR ''-'' \<or> c = CHR ''_'' \<or> c = CHR ''.'' \<or> c = CHR ''~'' \<or> c = CHR 0x40"

definition percent_encode :: "str \<Rightarrow> str" where
  "percent_encode s =
     concat (map (\<lambda>c. if unreserved c then [c]
        else [CHR ''%'', hex_char_upper (code c div 16), hex_char_upper (code c mod 16)]) s)"

text \<open>
  The bytes of the loop. Slicing two bytes that cut a character panics in the source; here
  such a pair is no number and the percent sign stays.
\<close>

definition plus_space :: "char \<Rightarrow> char" where
  "plus_space c = (if c = CHR ''+'' then CHR '' '' else c)"

fun percent_bytes :: "str \<Rightarrow> str" where
  "percent_bytes (c # a # b # r) =
     (case (if c = CHR ''%'' then parse_hex 255 [a, b] else None) of
        Some n \<Rightarrow> char_of n # percent_bytes r
      | None \<Rightarrow> plus_space c # percent_bytes (a # b # r))"
| "percent_bytes s = map plus_space s"

text \<open>\<open>from_utf8_lossy\<close>: the length of the character at the front, or of the part that is not one.\<close>

definition utf8_step :: "bytes \<Rightarrow> bool \<times> nat" where
  "utf8_step s =
     (case s of
        [] \<Rightarrow> (True, 0)
      | a # r \<Rightarrow>
          (let b1 = (case r of b # _ \<Rightarrow> continuation b | [] \<Rightarrow> False);
               b2 = (case r of _ # c # _ \<Rightarrow> continuation c | _ \<Rightarrow> False);
               b3 = (case r of _ # _ # d # _ \<Rightarrow> continuation d | _ \<Rightarrow> False);
               b = (case r of b # _ \<Rightarrow> b | [] \<Rightarrow> 0)
           in if a < 128 then (True, 1)
              else if 194 \<le> a \<and> a \<le> 223 then (if b1 then (True, 2) else (False, 1))
              else if 224 \<le> a \<and> a \<le> 239 then
                (if b1 \<and> (a = 224 \<longrightarrow> 160 \<le> b) \<and> (a = 237 \<longrightarrow> b \<le> 159) then
                   (if b2 then (True, 3) else (False, 2)) else (False, 1))
              else if 240 \<le> a \<and> a \<le> 244 then
                (if b1 \<and> (a = 240 \<longrightarrow> 144 \<le> b) \<and> (a = 244 \<longrightarrow> b \<le> 143) then
                   (if b2 then (if b3 then (True, 4) else (False, 3)) else (False, 2)) else (False, 1))
              else (False, 1)))"

definition replacement :: bytes where
  "replacement = [0xEF, 0xBF, 0xBD]"

fun utf8_lossy_aux :: "nat \<Rightarrow> bytes \<Rightarrow> bytes" where
  "utf8_lossy_aux 0 s = []"
| "utf8_lossy_aux (Suc fuel) s =
     (if s = [] then []
      else (case utf8_step s of (ok, n) \<Rightarrow>
          (if ok then take n s else replacement) @ utf8_lossy_aux fuel (drop n s)))"

text \<open>Every step consumes at least one byte, so the length is fuel enough.\<close>

definition utf8_lossy :: "bytes \<Rightarrow> bytes" where
  "utf8_lossy s = utf8_lossy_aux (length s) s"

definition percent_decode :: "str \<Rightarrow> str" where
  "percent_decode s = bytes_text (utf8_lossy (text_bytes (percent_bytes s)))"

section \<open>The generator\<close>

record totp =
  t_secret :: bytes
  t_digits :: nat
  t_period :: nat
  t_algorithm :: algorithm
  t_label :: "str option"
  t_issuer :: "str option"

datatype totp_error = Empty | NotBase32 | BadUri | NotTotp | NoSecret

definition from_secret :: "str \<Rightarrow> totp_error + totp" where
  "from_secret s =
     (case base32_decode s of
        None \<Rightarrow> Inl NotBase32
      | Some b \<Rightarrow> Inr \<lparr>t_secret = b, t_digits = 6, t_period = 30, t_algorithm = Sha1,
                      t_label = None, t_issuer = None\<rparr>)"

record uri_query =
  q_secret :: "bytes option"
  q_digits :: nat
  q_period :: nat
  q_algorithm :: algorithm
  q_issuer :: "str option"

definition query_pair :: "uri_query \<Rightarrow> str \<Rightarrow> uri_query" where
  "query_pair q pair =
     (let (k, raw) = (case split_once CHR ''='' pair of None \<Rightarrow> (pair, []) | Some kv \<Rightarrow> kv);
          v = percent_decode raw; key = lower k
      in if key = ''secret'' then q\<lparr>q_secret := base32_decode v\<rparr>
         else if key = ''digits'' then q\<lparr>q_digits := (case parse_u32 v of Some n \<Rightarrow> n | None \<Rightarrow> 6)\<rparr>
         else if key = ''period'' then q\<lparr>q_period := (case parse_u64 v of Some n \<Rightarrow> n | None \<Rightarrow> 30)\<rparr>
         else if key = ''algorithm'' then
           q\<lparr>q_algorithm := (case algorithm_parse v of Some a \<Rightarrow> a | None \<Rightarrow> Sha1)\<rparr>
         else if key = ''issuer'' then q\<lparr>q_issuer := Some v\<rparr>
         else q)"

definition clamp :: "nat \<Rightarrow> nat \<Rightarrow> nat \<Rightarrow> nat" where
  "clamp lo hi n = (if n < lo then lo else if hi < n then hi else n)"

definition otpauth :: str where
  "otpauth = ''otpauth://''"

definition from_uri :: "str \<Rightarrow> totp_error + totp" where
  "from_uri uri =
     (case split_once CHR ''/'' (drop (length otpauth) uri) of
        None \<Rightarrow> Inl BadUri
      | Some (kind, rest) \<Rightarrow>
          if \<not> eq_ignore_case kind ''totp'' then Inl NotTotp
          else (let (label, query) = (case split_once CHR ''?'' rest of Some lq \<Rightarrow> lq | None \<Rightarrow> (rest, []));
                    q = foldl query_pair
                      \<lparr>q_secret = None, q_digits = 6, q_period = 30, q_algorithm = Sha1, q_issuer = None\<rparr>
                      (List.filter (\<lambda>p. p \<noteq> []) (split_on CHR ''&'' query));
                    decoded = percent_decode label;
                    (from_label, account) = (case split_once CHR '':'' decoded of
                        Some (i, a) \<Rightarrow> (Some (trim i), trim a)
                      | None \<Rightarrow> (None, decoded))
                in case q_secret q of
                     None \<Rightarrow> Inl NoSecret
                   | Some secret \<Rightarrow> Inr
                       \<lparr>t_secret = secret, t_digits = clamp 6 10 (q_digits q), t_period = max (q_period q) 1,
                        t_algorithm = q_algorithm q,
                        t_label = (if account \<noteq> [] then Some account else None),
                        t_issuer = (case from_label of Some i \<Rightarrow> Some i | None \<Rightarrow> q_issuer q)\<rparr>))"

definition totp_parse :: "str \<Rightarrow> totp_error + totp" where
  "totp_parse input =
     (let s = trim input
      in if s = [] then Inl Empty
         else if prefix otpauth (lower s) then from_uri s
         else from_secret s)"

definition to_uri :: "totp \<Rightarrow> str" where
  "to_uri t =
     ''otpauth://totp/'' @ percent_encode (case t_label t of Some l \<Rightarrow> l | None \<Rightarrow> ''account'')
       @ ''?secret='' @ base32_encode (t_secret t)
       @ ''&algorithm='' @ algorithm_text (t_algorithm t)
       @ ''&digits='' @ show_nat (t_digits t)
       @ ''&period='' @ show_nat (t_period t)
       @ (case t_issuer t of None \<Rightarrow> [] | Some i \<Rightarrow> ''&issuer='' @ percent_encode i)"

text \<open>
  \<open>10u32.pow(digits)\<close> wraps in a release build from ten digits on (and panics in a debug
  build); \<open>{:0width$}\<close> pads with zeros.
\<close>

definition pad_zeros :: "nat \<Rightarrow> str \<Rightarrow> str" where
  "pad_zeros width s = replicate (width - length s) CHR ''0'' @ s"

definition dynamic_truncation :: "bytes \<Rightarrow> nat" where
  "dynamic_truncation digest =
     (let off = unat (last digest AND 0x0f)
      in be_value 0 [digest ! off AND 0x7f, digest ! (off + 1), digest ! (off + 2), digest ! (off + 3)])"

definition code_at :: "(algorithm \<Rightarrow> bytes \<Rightarrow> bytes \<Rightarrow> bytes) \<Rightarrow> totp \<Rightarrow> nat \<Rightarrow> str" where
  "code_at hmac t unix_seconds =
     (let counter = unix_seconds div t_period t;
          digest = hmac (t_algorithm t) (t_secret t) (be_bytes 8 counter);
          modulus = 10 ^ t_digits t mod 2 ^ 32
      in pad_zeros (t_digits t) (show_nat (dynamic_truncation digest mod modulus)))"

definition seconds_remaining :: "totp \<Rightarrow> nat \<Rightarrow> nat" where
  "seconds_remaining t unix_seconds = t_period t - unix_seconds mod t_period t"

section \<open>Percent coding is lossless\<close>

lemma parse_hex_pair:
  assumes "n < 256"
  shows "parse_hex 255 [hex_char_upper (n div 16), hex_char_upper (n mod 16)] = Some n"
proof -
  have d: "n div 16 < 16" "n mod 16 < 16" using assms by auto
  have "hex_char_upper (n div 16) \<noteq> CHR ''+''"
    using hex_value_char_upper [OF d(1)] by (auto simp: hex_value_def is_digit_def)
  then show ?thesis
    using assms d by (simp add: parse_hex_def unsigned_digits_def hex_value_char_upper)
qed

lemma percent_bytes_plain:
  "c \<noteq> CHR ''%'' \<Longrightarrow> c \<noteq> CHR ''+'' \<Longrightarrow> percent_bytes (c # s) = c # percent_bytes s"
proof -
  assume "c \<noteq> CHR ''%''" "c \<noteq> CHR ''+''"
  then show ?thesis
    by (cases s; cases "tl s") (auto simp: plus_space_def)
qed

lemma unreserved_plain: "unreserved c \<Longrightarrow> c \<noteq> CHR ''%'' \<and> c \<noteq> CHR ''+''"
  by (auto simp: unreserved_def is_alnum_def is_digit_def is_upper_def is_lower_def)

lemma percent_bytes_encode: "percent_bytes (percent_encode s) = s"
proof (induction s)
  case (Cons c s)
  show ?case
  proof (cases "unreserved c")
    case True
    then show ?thesis
      using Cons unreserved_plain [OF True] by (simp add: percent_encode_def percent_bytes_plain)
  next
    case False
    have "percent_encode (c # s) = CHR ''%'' # hex_char_upper (code c div 16)
        # hex_char_upper (code c mod 16) # percent_encode s"
      using False by (simp add: percent_encode_def)
    then show ?thesis
      using Cons parse_hex_pair [OF code_less [of c]] by simp
  qed
qed (simp add: percent_encode_def)

lemma utf8_step_ok:
  assumes "utf8_ok s" and "s \<noteq> []"
  shows "fst (utf8_step s) \<and> 0 < snd (utf8_step s) \<and> snd (utf8_step s) \<le> length s
    \<and> utf8_ok (drop (snd (utf8_step s)) s)"
proof -
  obtain a r where s: "s = a # r" using assms(2) by (cases s) auto
  consider (one) "a < 128"
    | (two) b cs where "\<not> a < 128" "r = b # cs" "194 \<le> a \<and> a \<le> 223" "continuation b" "utf8_ok cs"
    | (three) b c ds where "\<not> a < 128" "r = b # c # ds" "\<not> (194 \<le> a \<and> a \<le> 223)" "224 \<le> a \<and> a \<le> 239"
        "continuation b" "continuation c" "a = 224 \<longrightarrow> 160 \<le> b" "a = 237 \<longrightarrow> b \<le> 159" "utf8_ok ds"
    | (four) b c d es where "\<not> a < 128" "r = b # c # d # es" "\<not> (194 \<le> a \<and> a \<le> 223)"
        "\<not> (224 \<le> a \<and> a \<le> 239)" "240 \<le> a \<and> a \<le> 244" "continuation b" "continuation c" "continuation d"
        "a = 240 \<longrightarrow> 144 \<le> b" "a = 244 \<longrightarrow> b \<le> 143" "utf8_ok es"
    using assms(1) unfolding s utf8_ok.simps
    by (simp only: split: if_splits list.splits) blast+
  then show ?thesis
  proof cases
    case one
    then show ?thesis using assms(1) by (simp add: s utf8_step_def)
  next
    case two
    then have "utf8_step s = (True, 2)" unfolding utf8_step_def s by - (simp only: list.case Let_def if_True if_False simp_thms; auto)
    then show ?thesis using two by (simp add: s)
  next
    case three
    then have "utf8_step s = (True, 3)" unfolding utf8_step_def s by - (simp only: list.case Let_def if_True if_False simp_thms; auto)
    then show ?thesis using three by (simp add: s)
  next
    case four
    then have "utf8_step s = (True, 4)" unfolding utf8_step_def s by - (simp only: list.case Let_def if_True if_False simp_thms; auto)
    then show ?thesis using four by (simp add: s)
  qed
qed

lemma utf8_lossy_aux_ok: "utf8_ok s \<Longrightarrow> length s \<le> fuel \<Longrightarrow> utf8_lossy_aux fuel s = s"
proof (induction fuel arbitrary: s)
  case (Suc fuel)
  show ?case
  proof (cases "s = []")
    case False
    obtain ok n where step: "utf8_step s = (ok, n)" by (cases "utf8_step s")
    then have "ok" "0 < n" "n \<le> length s" "utf8_ok (drop n s)"
      using utf8_step_ok [OF Suc.prems(1) False] by simp_all
    moreover have "utf8_lossy_aux fuel (drop n s) = drop n s"
      using Suc \<open>0 < n\<close> \<open>utf8_ok (drop n s)\<close> by simp
    ultimately show ?thesis using step False by simp
  qed simp
qed simp

lemma percent_roundtrip: "utf8_ok (text_bytes s) \<Longrightarrow> percent_decode (percent_encode s) = s"
  by (simp add: percent_decode_def percent_bytes_encode utf8_lossy_def utf8_lossy_aux_ok)

interpretation percent: codec percent_encode "\<lambda>s. Some (percent_decode s)" "\<lambda>s. utf8_ok (text_bytes s)"
  by unfold_locales (simp add: percent_roundtrip)

section \<open>A link is read back as it was written\<close>

text \<open>The characters the parts of a link consist of.\<close>

definition link_safe :: "char \<Rightarrow> bool" where
  "link_safe c \<longleftrightarrow> graphic c \<and> c \<noteq> CHR ''/'' \<and> c \<noteq> CHR ''?'' \<and> c \<noteq> CHR ''&'' \<and> c \<noteq> CHR ''=''
     \<and> c \<noteq> CHR ''+''"

lemma alnum_link_safe: "is_alnum c \<Longrightarrow> link_safe c"
  by (auto simp: link_safe_def graphic_def is_alnum_def is_digit_def is_upper_def is_lower_def)

lemma hex_upper_alnum: "d < 16 \<Longrightarrow> is_alnum (hex_char_upper d)"
  by (auto simp: hex_char_upper_def is_alnum_def is_digit_def is_upper_def)

lemma percent_encode_safe: "c \<in> set (percent_encode s) \<Longrightarrow> link_safe c"
proof (induction s)
  case (Cons d s)
  have "link_safe d" if "unreserved d"
    using that alnum_link_safe by (auto simp: unreserved_def link_safe_def graphic_def)
  moreover have "link_safe CHR ''%''"
    by (simp add: link_safe_def graphic_def)
  moreover have "code d div 16 < 16"
    using code_less [of d] by (simp add: less_mult_imp_div_less)
  then have "link_safe (hex_char_upper (code d div 16))" "link_safe (hex_char_upper (code d mod 16))"
    using alnum_link_safe hex_upper_alnum by simp_all
  moreover have "percent_encode (d # s) = (if unreserved d then [d]
      else [CHR ''%'', hex_char_upper (code d div 16), hex_char_upper (code d mod 16)]) @ percent_encode s"
    by (simp add: percent_encode_def)
  ultimately show ?case
    using Cons by (auto split: if_splits)
qed (simp add: percent_encode_def)

lemma base32_encode_safe: "c \<in> set (base32_encode bs) \<Longrightarrow> is_alnum c"
proof -
  have "\<forall>i \<in> set [0..<32]. is_alnum (base32_alphabet ! i)"
    by code_simp
  moreover assume "c \<in> set (base32_encode bs)"
  then obtain i where "i < 32" "c = base32_alphabet ! i"
    using base32_encode_text [of 0 0 bs] unfolding base32_encode_def base32_text_def by blast
  ultimately show "is_alnum c" by simp
qed

lemma percent_decode_plain:
  assumes "\<forall>c \<in> set s. is_alnum c"
  shows "percent_decode s = s"
proof -
  have "percent_encode s = s"
    using assms by (induction s) (auto simp: percent_encode_def unreserved_def)
  moreover have "utf8_ok (text_bytes s)"
  proof (rule utf8_ascii)
    show "list_all (\<lambda>c. code c < 128) s"
      using assms by (auto simp: list_all_iff is_alnum_def is_digit_def is_upper_def is_lower_def)
  qed
  ultimately show ?thesis by (metis percent_roundtrip)
qed

lemma split_once_skip:
  "d \<notin> set a \<Longrightarrow> split_once d (a @ d # b) = Some (a, b)"
  by (rule split_once_append)

lemma split_fields:
  assumes "\<forall>f \<in> set fs. d \<notin> set f" and "fs \<noteq> []"
  shows "split_on d (join [d] fs) = fs"
  using assms
proof (induction fs rule: induct_list012)
  case (2 f)
  then show ?case by (auto intro!: split_by_single)
next
  case (3 f g fs)
  then show ?case
    using split_by_append [of f "\<lambda>x. x = d" d "join [d] (g # fs)"] by auto
qed simp

definition uri_fields :: "totp \<Rightarrow> str list" where
  "uri_fields t =
     [''secret='' @ base32_encode (t_secret t), ''algorithm='' @ algorithm_text (t_algorithm t),
      ''digits='' @ show_nat (t_digits t), ''period='' @ show_nat (t_period t)]
     @ (case t_issuer t of None \<Rightarrow> [] | Some i \<Rightarrow> [''issuer='' @ percent_encode i])"

lemma to_uri_fields:
  "to_uri t = ''otpauth://totp/'' @ percent_encode (case t_label t of Some l \<Rightarrow> l | None \<Rightarrow> ''account'')
     @ CHR ''?'' # join [CHR ''&''] (uri_fields t)"
  by (simp add: to_uri_def uri_fields_def split: option.split)

lemma algorithm_text_alnum: "c \<in> set (algorithm_text a) \<Longrightarrow> is_alnum c"
  by (cases a) (auto simp: algorithm_text_def is_alnum_def is_digit_def is_upper_def)

lemma show_nat_alnum: "c \<in> set (show_nat n) \<Longrightarrow> is_alnum c"
  using show_nat_digits [of n] by (auto simp: list_all_iff is_alnum_def)

lemma alnum_not_amp: "is_alnum c \<Longrightarrow> c \<noteq> CHR ''&'' \<and> c \<noteq> CHR ''?''"
  using alnum_link_safe by (auto simp: link_safe_def)

lemma no_ampersand:
  "CHR ''&'' \<notin> set (base32_encode bs)" "CHR ''&'' \<notin> set (algorithm_text a)" "CHR ''&'' \<notin> set (show_nat n)"
  "CHR ''&'' \<notin> set (percent_encode s)" "CHR ''?'' \<notin> set (percent_encode s)"
  using base32_encode_safe algorithm_text_alnum show_nat_alnum alnum_not_amp percent_encode_safe
  by (blast, blast, blast) (auto simp: link_safe_def dest: percent_encode_safe)

lemma uri_fields_plain: "f \<in> set (uri_fields t) \<Longrightarrow> CHR ''&'' \<notin> set f \<and> f \<noteq> []"
  by (auto simp: uri_fields_def no_ampersand split: option.splits)

lemma query_values:
  "percent_decode (base32_encode bs) = base32_encode bs"
  "percent_decode (algorithm_text a) = algorithm_text a"
  "percent_decode (show_nat n) = show_nat n"
  by (rule percent_decode_plain, use base32_encode_safe algorithm_text_alnum show_nat_alnum in blast)+

lemma query_pairs:
  "query_pair q (''secret='' @ base32_encode bs) = q\<lparr>q_secret := base32_decode (base32_encode bs)\<rparr>"
  "query_pair q (''algorithm='' @ algorithm_text a) = q\<lparr>q_algorithm := a\<rparr>"
  "n \<le> 4294967295 \<Longrightarrow> query_pair q (''digits='' @ show_nat n) = q\<lparr>q_digits := n\<rparr>"
  "n \<le> 18446744073709551615 \<Longrightarrow> query_pair q (''period='' @ show_nat n) = q\<lparr>q_period := n\<rparr>"
  "utf8_ok (text_bytes i) \<Longrightarrow> query_pair q (''issuer='' @ percent_encode i) = q\<lparr>q_issuer := Some i\<rparr>"
  using algorithm_name.dec_enc [of a]
  by (simp_all add: query_pair_def query_values lower_def to_lower_def is_upper_def parse_uint_show_nat
      percent_roundtrip)

lemma parts_graphic:
  "list_all graphic (base32_encode bs)" "list_all graphic (algorithm_text a)"
  "list_all graphic (show_nat n)" "list_all graphic (percent_encode s)"
  using base32_encode_safe algorithm_text_alnum show_nat_alnum percent_encode_safe alnum_link_safe
  by (auto simp: list_all_iff link_safe_def)

lemma uri_graphic: "c \<in> set (to_uri t) \<Longrightarrow> graphic c"
proof -
  have "list_all graphic (to_uri t)"
    by (cases "t_issuer t") (simp_all add: to_uri_def parts_graphic, simp_all add: graphic_def)
  then show "c \<in> set (to_uri t) \<Longrightarrow> graphic c"
    by (simp add: list_all_iff)
qed

lemma query_folded:
  assumes "t_secret t \<noteq> []" and "t_digits t \<le> 10" and "t_period t < 2 ^ 64"
    and "\<And>i. t_issuer t = Some i \<Longrightarrow> utf8_ok (text_bytes i)"
  shows "foldl query_pair
      \<lparr>q_secret = None, q_digits = 6, q_period = 30, q_algorithm = Sha1, q_issuer = None\<rparr> (uri_fields t)
    = \<lparr>q_secret = Some (t_secret t), q_digits = t_digits t, q_period = t_period t,
       q_algorithm = t_algorithm t, q_issuer = t_issuer t\<rparr>"
proof -
  have "t_digits t \<le> 4294967295" "t_period t \<le> 18446744073709551615"
    using assms(2,3) by simp_all
  then show ?thesis
    using assms(1,4) base32_roundtrip
    by (cases "t_issuer t") (simp_all add: uri_fields_def query_pairs del: append_Cons)
qed

lemma link_reads_back:
  assumes "t_secret t \<noteq> []" and "6 \<le> t_digits t" "t_digits t \<le> 10"
    and "1 \<le> t_period t" "t_period t < 2 ^ 64"
    and "t_label t = Some l" "l \<noteq> []" "CHR '':'' \<notin> set l" "utf8_ok (text_bytes l)"
    and "\<And>i. t_issuer t = Some i \<Longrightarrow> utf8_ok (text_bytes i)"
  shows "totp_parse (to_uri t) = Inr t"
proof -
  have trimmed: "trim (to_uri t) = to_uri t"
    using uri_graphic by (intro trim_graphic) blast
  have starts: "prefix otpauth (lower (to_uri t))" "to_uri t \<noteq> []"
    by (simp_all add: to_uri_def otpauth_def lower_def to_lower_def is_upper_def)
  have rest: "drop (length otpauth) (to_uri t)
      = ''totp'' @ CHR ''/'' # (percent_encode l @ CHR ''?'' # join [CHR ''&''] (uri_fields t))"
    using assms(6) by (simp add: to_uri_fields otpauth_def)
  have "split_once CHR ''/'' (drop (length otpauth) (to_uri t))
      = Some (''totp'', percent_encode l @ CHR ''?'' # join [CHR ''&''] (uri_fields t))"
    unfolding rest by (rule split_once_append) simp
  moreover have "split_once CHR ''?'' (percent_encode l @ CHR ''?'' # join [CHR ''&''] (uri_fields t))
      = Some (percent_encode l, join [CHR ''&''] (uri_fields t))"
    by (rule split_once_append) (rule no_ampersand)
  moreover have "List.filter (\<lambda>p. p \<noteq> []) (split_on CHR ''&'' (join [CHR ''&''] (uri_fields t))) = uri_fields t"
    using uri_fields_plain by (subst split_fields) (auto simp: uri_fields_def filter_id_conv)
  moreover have "split_once CHR '':'' l = None"
    using assms(8) by (simp add: split_once_None)
  moreover have "eq_ignore_case ''totp'' ''totp''"
    by (simp add: eq_ignore_case_def)
  ultimately have "from_uri (to_uri t) = Inr t"
    using query_folded [OF assms(1,3,5,10)] percent_roundtrip [OF assms(9)] assms(2-7)
    by (simp add: from_uri_def clamp_def)
  then show ?thesis
    using trimmed starts by (simp add: totp_parse_def Let_def)
qed

text \<open>
  What \<open>to_uri\<close> stores is what \<open>parse\<close> reads back: the secret, the digits, the period,
  the algorithm and the issuer; the label comes back too (a missing one as "account"), as
  long as it is not empty and has no colon, which the reader takes for an issuer.
\<close>

theorem stored_link_reads_back:
  assumes "t_secret t \<noteq> []" and "6 \<le> t_digits t" "t_digits t \<le> 10"
    and "1 \<le> t_period t" "t_period t < 2 ^ 64"
    and "t_label t = Some l" "l \<noteq> []" "CHR '':'' \<notin> set l" "utf8_ok (text_bytes l)"
    and "\<And>i. t_issuer t = Some i \<Longrightarrow> utf8_ok (text_bytes i)"
  shows "totp_parse (to_uri t) = Inr t"
  by (rule link_reads_back) (use assms in auto)

definition demo_totp :: totp where
  "demo_totp = \<lparr>t_secret = [1, 2], t_digits = 6, t_period = 30, t_algorithm = Sha1,
     t_label = Some ''a b'', t_issuer = Some ''x''\<rparr>"

lemma stored_link_reads_back_witness: "totp_parse (to_uri demo_totp) = Inr demo_totp"
  by (rule stored_link_reads_back [where l = "''a b''"])
    (simp_all add: demo_totp_def text_bytes_def utf8_ok.simps)

section \<open>The shape of a code\<close>

text \<open>What is relied on of the digests: SHA-1 gives 20 bytes, the two others more.\<close>

definition digest_sizes :: "(algorithm \<Rightarrow> bytes \<Rightarrow> bytes \<Rightarrow> bytes) \<Rightarrow> bool" where
  "digest_sizes hmac \<longleftrightarrow> (\<forall>a k m. 20 \<le> length (hmac a k m))"

lemma truncate_offset: "unat (w AND 0x0f :: u8) \<le> 15"
  using word_and_le1 [of w "0x0f"] by (simp add: word_le_nat_alt)

lemma top_bit_cleared: "unat (w AND 0x7f :: u8) \<le> 127"
  using word_and_le1 [of w "0x7f"] by (simp add: word_le_nat_alt)

lemma truncate_less: "dynamic_truncation digest < 2 ^ 31"
proof -
  have below: "unat (b :: u8) < 256" for b
    using unsigned_less [of b, where 'a = nat] by simp
  define off where "off = unat (last digest AND 0x0f)"
  have "dynamic_truncation digest = 256 * (256 * (256 * unat (digest ! off AND 0x7f) + unat (digest ! (off + 1)))
      + unat (digest ! (off + 2))) + unat (digest ! (off + 3))"
    by (simp add: dynamic_truncation_def off_def Let_def)
  then show ?thesis
    using top_bit_cleared [of "digest ! off"] below [of "digest ! (off + 1)"]
      below [of "digest ! (off + 2)"] below [of "digest ! (off + 3)"] by simp
qed

lemma show_nat_length: "n < 10 ^ Suc j \<Longrightarrow> length (show_nat n) \<le> Suc j"
proof (induction j arbitrary: n)
  case 0
  then show ?case by (subst show_nat.simps) simp
next
  case (Suc j)
  have "n div 10 < 10 ^ Suc j"
    using Suc.prems by (intro less_mult_imp_div_less) (simp only: power_Suc2 [of 10 "Suc j"])
  then have "length (show_nat (n div 10)) \<le> Suc j"
    by (rule Suc.IH)
  then show ?case by (subst show_nat.simps) simp
qed

lemma digits_value_zeros: "digits_value 0 (replicate k CHR ''0'' @ s) = digits_value 0 s"
  by (induction k) simp_all

lemma same_step_within_period:
  assumes "0 < p" and "k < p - n mod p"
  shows "(n + k) div p = n div (p :: nat)"
proof -
  have "n + k = (n mod p + k) + p * (n div p)"
    using mod_mult_div_eq [of n p] by simp
  then have "(n + k) div p = n div p + (n mod p + k) div p"
    using assms(1) by (simp only: div_mult_self2)
  then show ?thesis
    using assms(2) by simp
qed

lemma code_digits: "list_all is_digit (code_at hmac t now)"
  using show_nat_digits [of "dynamic_truncation (hmac (t_algorithm t) (t_secret t) (be_bytes 8 (now div t_period t)))
      mod (10 ^ t_digits t mod 2 ^ 32)"]
  by (auto simp: code_at_def Let_def pad_zeros_def list_all_iff is_digit_def)

lemma code_shown:
  assumes "t_digits t \<le> 9"
  shows "code_at hmac t now = pad_zeros (t_digits t) (show_nat (dynamic_truncation
      (hmac (t_algorithm t) (t_secret t) (be_bytes 8 (now div t_period t))) mod 10 ^ t_digits t))"
proof -
  have "(10 :: nat) ^ t_digits t \<le> 10 ^ 9"
    using assms by (intro power_increasing) auto
  then have "10 ^ t_digits t mod 2 ^ 32 = (10 :: nat) ^ t_digits t" by simp
  then show ?thesis
    unfolding code_at_def Let_def by (simp only:)
qed

lemma code_length: "0 < t_digits t \<Longrightarrow> t_digits t \<le> 9 \<Longrightarrow> length (code_at hmac t now) = t_digits t"
  using show_nat_length [of _ "t_digits t - 1"] by (simp add: code_shown pad_zeros_def)

lemma code_value:
  "t_digits t \<le> 9 \<Longrightarrow> digits_value 0 (code_at hmac t now) = dynamic_truncation
      (hmac (t_algorithm t) (t_secret t) (be_bytes 8 (now div t_period t))) mod 10 ^ t_digits t"
  by (simp add: code_shown pad_zeros_def digits_value_zeros)

text \<open>
  For the six to nine digits an authenticator uses, a code is exactly that many decimal
  digits, and read as a number it is the truncated digest of the time step, reduced; the four
  bytes read lie inside the digest and give less than \<open>2 ^ 31\<close>. It stays the same for
  the seconds the interface announces, of which there is at least one and at most a period,
  and after them the next step begins. At ten digits, which \<open>parse\<close> admits, the power wraps in a
  release build: the code is taken modulo \<open>1410065408\<close>, so it never exceeds that.
\<close>

theorem codes_are_digits_and_last_their_period:
  fixes now :: nat
  assumes "0 < t_period t" and "digest_sizes hmac"
    and digest: "digest = hmac (t_algorithm t) (t_secret t) (be_bytes 8 (now div t_period t))"
  shows "list_all is_digit (code_at hmac t now)
    \<and> (0 < t_digits t \<and> t_digits t \<le> 9 \<longrightarrow> length (code_at hmac t now) = t_digits t
      \<and> digits_value 0 (code_at hmac t now) = dynamic_truncation digest mod 10 ^ t_digits t)
    \<and> (t_digits t = 10 \<longrightarrow> digits_value 0 (code_at hmac t now) = dynamic_truncation digest mod 1410065408)
    \<and> unat (last digest AND 0x0f) + 3 < length digest \<and> dynamic_truncation digest < 2 ^ 31
    \<and> 1 \<le> seconds_remaining t now \<and> seconds_remaining t now \<le> t_period t
    \<and> (k < seconds_remaining t now \<longrightarrow> code_at hmac t (now + k) = code_at hmac t now)
    \<and> (now + seconds_remaining t now) div t_period t = Suc (now div t_period t)"
proof (intro conjI)
  show "list_all is_digit (code_at hmac t now)"
    by (rule code_digits)
  show "0 < t_digits t \<and> t_digits t \<le> 9 \<longrightarrow> length (code_at hmac t now) = t_digits t
      \<and> digits_value 0 (code_at hmac t now) = dynamic_truncation digest mod 10 ^ t_digits t"
    using code_length code_value by (simp add: digest)
  show "t_digits t = 10 \<longrightarrow> digits_value 0 (code_at hmac t now) = dynamic_truncation digest mod 1410065408"
    by (simp add: code_at_def Let_def digest pad_zeros_def digits_value_zeros)
  have "20 \<le> length digest"
    using assms(2) by (simp add: digest_sizes_def digest)
  then show "unat (last digest AND 0x0f) + 3 < length digest"
    using truncate_offset [of "last digest"] by linarith
  show "dynamic_truncation digest < 2 ^ 31" by (rule truncate_less)
  have less: "now mod t_period t < t_period t" using assms(1) by simp
  then show "1 \<le> seconds_remaining t now" "seconds_remaining t now \<le> t_period t"
    by (simp_all add: seconds_remaining_def)
  show "k < seconds_remaining t now \<longrightarrow> code_at hmac t (now + k) = code_at hmac t now"
    using same_step_within_period [OF assms(1)] by (simp add: code_at_def seconds_remaining_def)
  have "now + seconds_remaining t now = now div t_period t * t_period t + t_period t"
    using less div_mult_mod_eq [of now "t_period t"] unfolding seconds_remaining_def by linarith
  then show "(now + seconds_remaining t now) div t_period t = Suc (now div t_period t)"
    using assms(1) by simp
qed

lemma codes_are_digits_and_last_their_period_witness:
  "length (code_at (\<lambda>a k m. replicate 20 0x11) demo_totp 59) = 6
   \<and> code_at (\<lambda>a k m. replicate 20 0x11) demo_totp (30 + 29) = code_at (\<lambda>a k m. replicate 20 0x11) demo_totp 30"
proof -
  have "0 < t_period demo_totp" "digest_sizes (\<lambda>a k m. replicate 20 0x11)"
    by (simp_all add: demo_totp_def digest_sizes_def)
  note ok = codes_are_digits_and_last_their_period [OF this refl]
  show ?thesis
    using ok [of 59 0] ok [of 30 29] by (simp add: demo_totp_def seconds_remaining_def)
qed

end
