(* ===== verification/Security.thy ===== *)
theory Security
  imports Server_Db Ip_Addr
begin

text \<open>
  The sign-in policy of an organisation, \<open>server/src/security.rs\<close>: the record with its
  defaults, the allowlist of addresses and CIDR ranges, the address of a client behind the
  reverse proxy, and the decision whether a sign-in needs a code. A policy is stored as JSON;
  the column is \<open>None\<close> where the text is not a policy, which \<open>from_json\<close> reads as the default.
\<close>

unbundle bit_operations_syntax

section \<open>Headers\<close>

text \<open>A header map: the first value of each name, with the name in lower case.\<close>

type_synonym headers = "(str \<times> str) list"

text \<open>\<open>HeaderValue::to_str\<close> reads visible ASCII, spaces and tabs.\<close>

definition header_text :: "headers \<Rightarrow> str \<Rightarrow> str option" where
  "header_text h name =
     (case map_of h name of
        None \<Rightarrow> None
      | Some v \<Rightarrow> if list_all (\<lambda>c. code c = 9 \<or> (32 \<le> code c \<and> code c < 127)) v then Some v else None)"

definition client_ip :: "headers \<Rightarrow> ip option" where
  "client_ip h =
     (case (case header_text h ''x-forwarded-for'' of
              Some v \<Rightarrow> Some (hd (split_on CHR '','' v))
            | None \<Rightarrow> header_text h ''x-real-ip'') of
        None \<Rightarrow> None
      | Some s \<Rightarrow> parse_ip (trim s))"

definition user_agent :: "headers \<Rightarrow> str option" where
  "user_agent h = map_option (take 200) (header_text h ''user-agent'')"

section \<open>Ranges\<close>

definition parse_cidr :: "str \<Rightarrow> (ip \<times> nat) option" where
  "parse_cidr entry =
     (let s = trim entry
      in case (case split_once CHR ''/'' s of
                 Some (a, b) \<Rightarrow> (case parse_ip a of
                     None \<Rightarrow> None
                   | Some i \<Rightarrow> map_option (Pair i) (parse_u8 b))
               | None \<Rightarrow> map_option (\<lambda>i. (i, if is_ipv4 i then 32 else 128)) (parse_ip s)) of
           None \<Rightarrow> None
         | Some (addr, bits) \<Rightarrow> if bits \<le> (if is_ipv4 addr then 32 else 128) then Some (addr, bits) else None)"

definition same_network :: "'a::len word \<Rightarrow> nat \<Rightarrow> 'a word \<Rightarrow> bool" where
  "same_network n bits a \<longleftrightarrow> n AND net_mask bits = a AND net_mask bits"

definition cidr_contains :: "str \<Rightarrow> ip \<Rightarrow> bool" where
  "cidr_contains entry i =
     (case parse_cidr entry of
        None \<Rightarrow> False
      | Some (net, bits) \<Rightarrow>
          (case (net, i) of
             (V4 n, V4 a) \<Rightarrow> same_network n bits a
           | (V6 n, V6 a) \<Rightarrow> same_network n bits a
           | (V4 n, V6 a) \<Rightarrow> (case to_ipv4_mapped a of
                 Some m \<Rightarrow> same_network n bits m
               | None \<Rightarrow> False)
           | (V6 n, V4 a) \<Rightarrow> False))"

section \<open>The policy\<close>

record policy =
  second_factor :: str
  ip_allowlist :: "str list"
  owner_exempt_from_allowlist :: bool
  sensitive_actions_2fa :: bool

definition default_policy :: policy where
  "default_policy = \<lparr>second_factor = ''off'', ip_allowlist = [], owner_exempt_from_allowlist = True,
     sensitive_actions_2fa = False\<rparr>"

definition from_json :: "policy option \<Rightarrow> policy" where
  "from_json v = (case v of None \<Rightarrow> default_policy | Some p \<Rightarrow> p)"

definition admits :: "policy \<Rightarrow> ip option \<Rightarrow> org_role \<Rightarrow> bool" where
  "admits p client r =
     (if ip_allowlist p = [] then True
      else if owner_exempt_from_allowlist p \<and> r = Owner then True
      else (case client of
          None \<Rightarrow> False
        | Some i \<Rightarrow> list_ex (\<lambda>entry. cidr_contains entry i) (ip_allowlist p)))"

text \<open>The message of an error names the entry; here it is the entry.\<close>

definition validate_policy :: "policy \<Rightarrow> str + unit" where
  "validate_policy p =
     (if second_factor p \<notin> {''off'', ''new_device'', ''always''} then Inl (second_factor p)
      else (case List.find (\<lambda>e. parse_cidr e = None) (ip_allowlist p) of
          Some e \<Rightarrow> Inl e
        | None \<Rightarrow> Inr ()))"

definition second_factor_required :: "policy \<Rightarrow> bool \<Rightarrow> bool \<Rightarrow> bool" where
  "second_factor_required p enrolled known_device =
     (if \<not> enrolled then False
      else if second_factor p = ''always'' then True
      else if second_factor p = ''new_device'' then \<not> known_device
      else False)"

section \<open>What a range contains\<close>

lemma parse_cidr_bound:
  "parse_cidr entry = Some (net, bits) \<Longrightarrow> bits \<le> (if is_ipv4 net then 32 else 128)"
  by (auto simp: parse_cidr_def Let_def split: option.splits prod.splits if_splits)

lemma same_network_agree:
  "bits \<le> LENGTH('a) \<Longrightarrow> same_network n bits a \<longleftrightarrow> leading_bits_agree bits n (a :: 'a::len word)"
  using block_first_agree [of bits n a] by (simp add: same_network_def block_first_def)

lemma cidr_contains_iff:
  assumes "parse_cidr e = Some (m, k)"
  shows "cidr_contains e j \<longleftrightarrow>
      (case (m, j) of
         (V4 n, V4 a) \<Rightarrow> leading_bits_agree k n a
       | (V6 n, V6 a) \<Rightarrow> leading_bits_agree k n a
       | (V4 n, V6 a) \<Rightarrow> (\<exists>b. to_ipv4_mapped a = Some b \<and> leading_bits_agree k n b)
       | (V6 _, V4 _) \<Rightarrow> False)"
  using assms parse_cidr_bound [OF assms]
  by (cases m; cases j) (simp_all add: cidr_contains_def same_network_agree split: option.split)

lemma cidr_nested:
  assumes "parse_cidr entry = Some (net, bits)" and "parse_cidr wider = Some (net', bits')"
    and "bits' \<le> bits" "is_ipv4 net' = is_ipv4 net" "cidr_contains wider net" "cidr_contains entry i"
  shows "cidr_contains wider i"
proof (cases net)
  case (V4 n)
  then obtain n' where n': "net' = V4 n'"
    using assms(4) by (cases net') auto
  then have outer: "leading_bits_agree bits' n' n"
    using assms(5) V4 by (simp add: cidr_contains_iff [OF assms(2)])
  have "leading_bits_agree bits n a \<Longrightarrow> leading_bits_agree bits' n' a" for a
    using v4_block.nested [of "(n', bits')" "(n, bits)" a] assms(3) outer by simp
  then show ?thesis
    using assms(6) V4 n' unfolding cidr_contains_iff [OF assms(1)] cidr_contains_iff [OF assms(2)]
    by (cases i) auto
next
  case (V6 n)
  then obtain n' where n': "net' = V6 n'"
    using assms(4) by (cases net') auto
  then have outer: "leading_bits_agree bits' n' n"
    using assms(5) V6 by (simp add: cidr_contains_iff [OF assms(2)])
  have "leading_bits_agree bits n a \<Longrightarrow> leading_bits_agree bits' n' a" for a
    using v6_block.nested [of "(n', bits')" "(n, bits)" a] assms(3) outer by simp
  then show ?thesis
    using assms(6) V6 n' unfolding cidr_contains_iff [OF assms(1)] cidr_contains_iff [OF assms(2)]
    by (cases i) auto
qed

text \<open>
  What the allowlist accepts: an entry contains exactly the addresses that agree with its
  network on as many leading bits as it names, an IPv4-mapped address counting as the IPv4
  address it carries against an IPv4 entry; an entry that does not parse contains
  nothing; the bits never exceed the width; the network itself is contained; and a longer
  prefix inside a shorter one is a smaller range.
\<close>

theorem allowlist_entries_are_address_blocks:
  assumes "parse_cidr entry = Some (net, bits)"
  shows "(cidr_contains entry i \<longleftrightarrow>
      (case (net, i) of
         (V4 n, V4 a) \<Rightarrow> leading_bits_agree bits n a
       | (V6 n, V6 a) \<Rightarrow> leading_bits_agree bits n a
       | (V4 n, V6 a) \<Rightarrow> (\<exists>m. to_ipv4_mapped a = Some m \<and> leading_bits_agree bits n m)
       | (V6 _, V4 _) \<Rightarrow> False))
    \<and> bits \<le> (if is_ipv4 net then 32 else 128)
    \<and> cidr_contains entry net
    \<and> (parse_cidr wider = Some (net', bits') \<and> bits' \<le> bits \<and> is_ipv4 net' = is_ipv4 net
        \<and> cidr_contains wider net \<and> cidr_contains entry i \<longrightarrow> cidr_contains wider i)
    \<and> (parse_cidr other = None \<longrightarrow> \<not> cidr_contains other i)"
proof (intro conjI)
  show "bits \<le> (if is_ipv4 net then 32 else 128)"
    by (rule parse_cidr_bound [OF assms])
  show "cidr_contains entry net"
    using v4_block.agree_refl v6_block.agree_refl by (cases net) (simp_all add: cidr_contains_iff [OF assms])
  show "parse_cidr wider = Some (net', bits') \<and> bits' \<le> bits \<and> is_ipv4 net' = is_ipv4 net
      \<and> cidr_contains wider net \<and> cidr_contains entry i \<longrightarrow> cidr_contains wider i"
    using cidr_nested [OF assms] by blast
  show "parse_cidr other = None \<longrightarrow> \<not> cidr_contains other i"
    by (simp add: cidr_contains_def)
qed (rule cidr_contains_iff [OF assms])

lemma allowlist_entries_are_address_blocks_witness:
  "parse_cidr ''10.0.0.0/8'' = Some (V4 0x0A000000, 8)
   \<and> cidr_contains ''10.0.0.0/8'' (V4 0x0A010203) \<and> \<not> cidr_contains ''10.0.0.0/8'' (V4 0x0B010203)
   \<and> cidr_contains ''10.0.0.0/8'' (V4 0x0A000000)"
proof -
  have entry: "parse_cidr ''10.0.0.0/8'' = Some (V4 0x0A000000, 8)"
  proof -
    have "trim ''10.0.0.0/8'' = ''10.0.0.0/8''" "split_once CHR ''/'' ''10.0.0.0/8'' = Some (''10.0.0.0'', ''8'')"
      "parse_u8 ''8'' = Some 8"
      by code_simp+
    moreover have "parse_ip ''10.0.0.0'' = Some (V4 0x0A000000)"
      by (simp add: parse_ip_def octet_simps)
    ultimately show ?thesis by (simp add: parse_cidr_def)
  qed
  note ok = allowlist_entries_are_address_blocks [OF entry]
  show ?thesis
    using entry ok [THEN conjunct1, of "V4 0x0A010203"] ok [THEN conjunct1, of "V4 0x0B010203"]
      ok [THEN conjunct2, THEN conjunct2, THEN conjunct1]
    by (simp add: leading_bits_agree_def)
qed

end
