(* ===== verification/Sign_In.thy ===== *)
theory Sign_In
  imports Security Totp
begin

text \<open>
  Who a request is: \<open>server/src/auth.rs\<close>, the sign-in of \<open>server/src/api.rs\<close> and the
  handlers of \<open>server/src/security.rs\<close>, over the tables they read and write. Argon2,
  SHA-256 and HMAC are arguments; so is what the server draws at random (tokens, challenge ids,
  secrets), and the clock, in seconds. The base64 of the wrapped keys is left to the transport.
\<close>

unbundle bit_operations_syntax

section \<open>The tables\<close>

record user_row =
  u_email :: str
  u_password_hash :: str
  u_totp_secret :: "bytes option"
  u_totp_enabled_at :: "time option"
  u_disabled :: bool
  u_public_key :: bytes
  u_wrapped_private_key :: bytes
  u_kdf_salt :: bytes

record member_row =
  m_role :: str
  m_wrapped_ork :: "bytes option"
  m_ork_generation :: "int option"

record session_row =
  s_user :: uuid
  s_expires_at :: time
  s_machine_name :: str
  s_machine_id :: "str option"
  s_ip :: "ip option"
  s_user_agent :: "str option"
  s_created_at :: time
  s_last_seen_at :: time
  s_totp_verified_at :: "time option"

record challenge_row =
  ch_user :: uuid
  ch_ip :: "ip option"
  ch_machine_name :: str
  ch_machine_id :: "str option"
  ch_user_agent :: "str option"
  ch_attempts :: nat
  ch_expires_at :: time

record attempt =
  le_org :: "uuid option"
  le_user :: "uuid option"
  le_email :: str
  le_outcome :: str
  le_ip :: "ip option"
  le_machine_name :: str
  le_machine_id :: "str option"
  le_user_agent :: "str option"

text \<open>Memberships are keyed by organisation and user; the journal is in the order written.\<close>

record auth_db =
  au_users :: "(uuid \<times> user_row) list"
  au_members :: "((uuid \<times> uuid) \<times> member_row) list"
  au_security :: "(uuid \<times> policy option) list"
  au_sessions :: "(bytes \<times> session_row) list"
  au_challenges :: "(uuid \<times> challenge_row) list"
  au_journal :: "(time \<times> attempt) list"
  au_audit :: "audit_row list"

record auth_env =
  verify_password :: "str \<Rightarrow> str \<Rightarrow> bool"
  token_hash :: "str \<Rightarrow> bytes"
  mac :: "algorithm \<Rightarrow> bytes \<Rightarrow> bytes \<Rightarrow> bytes"

text \<open>The first membership of a user, \<open>LIMIT 1\<close> without an order.\<close>

definition membership_of :: "auth_db \<Rightarrow> uuid \<Rightarrow> (uuid \<times> member_row) option" where
  "membership_of d user =
     map_option (\<lambda>((org, _), m). (org, m)) (List.find (\<lambda>((_, u), _). u = user) (au_members d))"

definition in_org :: "auth_db \<Rightarrow> uuid \<Rightarrow> uuid \<Rightarrow> bool" where
  "in_org d org user \<longleftrightarrow> map_of (au_members d) (org, user) \<noteq> None"

definition org_of :: "auth_db \<Rightarrow> uuid \<Rightarrow> uuid option" where
  "org_of d user = map_option fst (membership_of d user)"

definition policy_of :: "auth_db \<Rightarrow> uuid \<Rightarrow> policy" where
  "policy_of d org = (case map_of (au_security d) org of None \<Rightarrow> default_policy | Some v \<Rightarrow> from_json v)"

section \<open>Tokens and callers\<close>

definition session_ttl :: time where
  "session_ttl = 604800"

definition new_token :: "auth_env \<Rightarrow> bytes \<Rightarrow> str \<times> bytes" where
  "new_token env random = (let raw = hex_of_bytes random in (raw, token_hash env raw))"

definition bearer :: "headers \<Rightarrow> str option" where
  "bearer h = (case header_text h ''authorization'' of None \<Rightarrow> None | Some v \<Rightarrow> strip_prefix ''Bearer '' v)"

definition token_hash_from_headers :: "auth_env \<Rightarrow> headers \<Rightarrow> bytes option" where
  "token_hash_from_headers env h = map_option (token_hash env) (bearer h)"

text \<open>
  The extractor in front of every handler: the row of the session joined with a membership
  and an enabled user, and the expiry pushed out by a week.
\<close>

definition authenticate :: "auth_env \<Rightarrow> auth_db \<Rightarrow> time \<Rightarrow> headers \<Rightarrow> auth_db \<times> caller api_result" where
  "authenticate env d now h =
     (case token_hash_from_headers env h of
        None \<Rightarrow> (d, Inl Unauthenticated)
      | Some digest \<Rightarrow>
          (case map_of (au_sessions d) digest of
             None \<Rightarrow> (d, Inl Unauthenticated)
           | Some s \<Rightarrow>
               (case (membership_of d (s_user s), map_of (au_users d) (s_user s)) of
                  (Some (org, m), Some u) \<Rightarrow>
                    if now < s_expires_at s \<and> \<not> u_disabled u then
                      (case parse_role (m_role m) of
                         None \<Rightarrow> (d, Inl Unauthenticated)
                       | Some r \<Rightarrow>
                           (d\<lparr>au_sessions := AList.update digest
                                (s\<lparr>s_expires_at := now + session_ttl, s_last_seen_at := now\<rparr>) (au_sessions d)\<rparr>,
                            Inr \<lparr>user_id = s_user s, org_id = org, role = r\<rparr>))
                    else (d, Inl Unauthenticated)
                | _ \<Rightarrow> (d, Inl Unauthenticated))))"

section \<open>The journal\<close>

definition record_login :: "time \<Rightarrow> attempt \<Rightarrow> auth_db \<Rightarrow> auth_db" where
  "record_login now a d = d\<lparr>au_journal := au_journal d @ [(now, a)]\<rparr>"

text \<open>The rows the policy of the journal lets this user see, as the count is bound as them.\<close>

definition journal_count :: "auth_db \<Rightarrow> uuid \<Rightarrow> (time \<times> attempt \<Rightarrow> bool) \<Rightarrow> nat" where
  "journal_count d user wanted =
     length (List.filter
       (\<lambda>e. (case le_org (snd e) of None \<Rightarrow> False | Some org \<Rightarrow> in_org d org user)
          \<and> le_user (snd e) = Some user \<and> wanted e)
       (au_journal d))"

definition known_device :: "auth_db \<Rightarrow> uuid \<Rightarrow> str option \<Rightarrow> bool" where
  "known_device d user machine_id =
     (case machine_id of
        None \<Rightarrow> False
      | Some mid \<Rightarrow> mid \<noteq> [] \<and>
          journal_count d user (\<lambda>(_, a). le_machine_id a = Some mid \<and> le_outcome a = ''ok'') > 0)"

definition failure_burst :: "auth_db \<Rightarrow> time \<Rightarrow> uuid \<Rightarrow> str \<Rightarrow> bool" where
  "failure_burst d now user email \<longleftrightarrow>
     3 \<le> journal_count d user (\<lambda>(t, a). le_email a = email \<and> le_outcome a = ''bad_password'' \<and> now < t + 900)"

definition audit_login_event :: "uuid \<Rightarrow> uuid \<Rightarrow> str \<Rightarrow> auth_db \<Rightarrow> auth_db" where
  "audit_login_event org user action d =
     d\<lparr>au_audit := au_audit d @ [\<lparr>au_org = org, au_actor = user, au_action = action, au_target = Some user\<rparr>]\<rparr>"

definition audit_by :: "caller \<Rightarrow> str \<Rightarrow> uuid option \<Rightarrow> auth_db \<Rightarrow> auth_db" where
  "audit_by c action target d =
     d\<lparr>au_audit := au_audit d @ [\<lparr>au_org = org_id c, au_actor = user_id c, au_action = action, au_target = target\<rparr>]\<rparr>"

section \<open>Codes\<close>

definition server_totp :: "bytes \<Rightarrow> str option \<Rightarrow> str option \<Rightarrow> totp" where
  "server_totp secret label issuer =
     \<lparr>t_secret = secret, t_digits = 6, t_period = 30, t_algorithm = Sha1, t_label = label, t_issuer = issuer\<rparr>"

definition code_matches :: "auth_env \<Rightarrow> time \<Rightarrow> bytes \<Rightarrow> str \<Rightarrow> bool" where
  "code_matches env now secret typed =
     (let c = trim typed
      in length c = 6 \<and> list_all is_digit c
         \<and> list_ex (\<lambda>t. code_at (mac env) (server_totp secret None None) t = c) [now - 30, now, now + 30])"

section \<open>Signing in\<close>

record session_body =
  sb_token :: str
  sb_user :: uuid
  sb_wrapped_private_key :: bytes
  sb_kdf_salt :: bytes
  sb_org :: "uuid option"
  sb_role :: "str option"
  sb_wrapped_ork :: "bytes option"
  sb_ork_generation :: "int option"
  sb_must_enrol_totp :: bool

datatype login_answer = Signed_in session_body | Code_wanted uuid

text \<open>A token whose digest is taken fails the insert, as the digest is the primary key.\<close>

definition issue_session ::
    "auth_env \<Rightarrow> auth_db \<Rightarrow> time \<Rightarrow> uuid \<Rightarrow> str \<Rightarrow> str option \<Rightarrow> ip option \<Rightarrow> str option \<Rightarrow> bytes
     \<Rightarrow> auth_db \<times> session_body api_result" where
  "issue_session env d now user machine_name machine_id client agent random =
     (case map_of (au_users d) user of
        None \<Rightarrow> (d, Inl Internal)
      | Some u \<Rightarrow>
          (case new_token env random of (raw, digest) \<Rightarrow>
             if map_of (au_sessions d) digest \<noteq> None then (d, Inl Internal)
             else
               (d\<lparr>au_sessions := (digest,
                    \<lparr>s_user = user, s_expires_at = now + session_ttl, s_machine_name = machine_name,
                     s_machine_id = machine_id, s_ip = client, s_user_agent = agent, s_created_at = now,
                     s_last_seen_at = now, s_totp_verified_at = None\<rparr>) # au_sessions d\<rparr>,
                Inr \<lparr>sb_token = raw, sb_user = user, sb_wrapped_private_key = u_wrapped_private_key u,
                     sb_kdf_salt = u_kdf_salt u,
                     sb_org = map_option fst (membership_of d user),
                     sb_role = map_option (m_role \<circ> snd) (membership_of d user),
                     sb_wrapped_ork = Option.bind (membership_of d user) (m_wrapped_ork \<circ> snd),
                     sb_ork_generation = Option.bind (membership_of d user) (m_ork_generation \<circ> snd),
                     sb_must_enrol_totp = False\<rparr>)))"

record login_request =
  lq_email :: str
  lq_password :: str
  lq_machine_name :: str
  lq_machine_id :: "str option"

definition open_challenge ::
    "auth_db \<Rightarrow> time \<Rightarrow> uuid \<Rightarrow> uuid \<Rightarrow> ip option \<Rightarrow> str \<Rightarrow> str option \<Rightarrow> str option \<Rightarrow> auth_db \<times> uuid api_result" where
  "open_challenge d now fresh user client machine_name machine_id agent =
     (if map_of (au_challenges d) fresh \<noteq> None then (d, Inl Internal)
      else (d\<lparr>au_challenges := (fresh,
              \<lparr>ch_user = user, ch_ip = client, ch_machine_name = machine_name, ch_machine_id = machine_id,
               ch_user_agent = agent, ch_attempts = 0, ch_expires_at = now + 300\<rparr>) # au_challenges d\<rparr>,
            Inr fresh))"

text \<open>
  The row the handler fetches: the address is unique and the user is not disabled. The column
  is CITEXT, but the driver binds the address as text, so the comparison is the exact one.
\<close>

definition user_by_email :: "auth_db \<Rightarrow> str \<Rightarrow> (uuid \<times> user_row) option" where
  "user_by_email d email = List.find (\<lambda>(_, u). u_email u = email \<and> \<not> u_disabled u) (au_users d)"

definition enrolled :: "user_row \<Rightarrow> bool" where
  "enrolled u \<longleftrightarrow> u_totp_secret u \<noteq> None \<and> u_totp_enabled_at u \<noteq> None"

text \<open>The role the policy is asked about: that of the first membership, or a plain member's.\<close>

definition login_role :: "auth_db \<Rightarrow> uuid \<Rightarrow> org_role" where
  "login_role d user =
     (case membership_of d user of
        None \<Rightarrow> Member
      | Some (_, m) \<Rightarrow> (case parse_role (m_role m) of None \<Rightarrow> Member | Some r \<Rightarrow> r))"

definition login_policy :: "auth_db \<Rightarrow> uuid \<Rightarrow> policy" where
  "login_policy d user = (case org_of d user of None \<Rightarrow> default_policy | Some org \<Rightarrow> policy_of d org)"

definition note_audit :: "uuid option \<Rightarrow> uuid \<Rightarrow> str \<Rightarrow> auth_db \<Rightarrow> auth_db" where
  "note_audit org user action d = (case org of None \<Rightarrow> d | Some o' \<Rightarrow> audit_login_event o' user action d)"

definition login ::
    "auth_env \<Rightarrow> auth_db \<Rightarrow> time \<Rightarrow> headers \<Rightarrow> login_request \<Rightarrow> uuid \<Rightarrow> bytes \<Rightarrow> auth_db \<times> login_answer api_result" where
  "login env d now h req fresh random =
     (let client = client_ip h; agent = user_agent h;
          try = (\<lambda>org user outcome. record_login now
            \<lparr>le_org = org, le_user = user, le_email = lq_email req, le_outcome = outcome, le_ip = client,
             le_machine_name = lq_machine_name req, le_machine_id = lq_machine_id req, le_user_agent = agent\<rparr>)
      in case user_by_email d (lq_email req) of
           None \<Rightarrow> (try None None ''bad_password'' d, Inl Unauthenticated)
         | Some (user, u) \<Rightarrow>
             (let org = org_of d user; p = login_policy d user
              in if \<not> admits p client (login_role d user) then
                   (note_audit org user ''login.ip_refused'' (try org (Some user) ''ip_refused'' d),
                    Inl (Refused ''ip_not_allowed''))
                 else if \<not> verify_password env (lq_password req) (u_password_hash u) then
                   (let d1 = try org (Some user) ''bad_password'' d
                    in (if failure_burst d1 now user (lq_email req)
                        then note_audit org user ''login.failed_burst'' d1 else d1, Inl Unauthenticated))
                 else
                   (let known = known_device d user (lq_machine_id req)
                    in if second_factor_required p (enrolled u) known then
                         (case open_challenge d now fresh user client (lq_machine_name req) (lq_machine_id req) agent of
                            (d1, Inl e) \<Rightarrow> (d1, Inl e)
                          | (d1, Inr ch) \<Rightarrow> (try org (Some user) ''totp_required'' d1, Inr (Code_wanted ch)))
                       else
                         (case issue_session env d now user (lq_machine_name req) (lq_machine_id req) client agent random of
                            (d1, Inl e) \<Rightarrow> (d1, Inl e)
                          | (d1, Inr body) \<Rightarrow>
                              (let d2 = try org (Some user) ''ok'' d1
                               in (if known then d2 else note_audit org user ''login.new_device'' d2,
                                   Inr (Signed_in (body\<lparr>sb_must_enrol_totp :=
                                     second_factor p \<noteq> ''off'' \<and> \<not> enrolled u\<rparr>))))))))"

text \<open>
  The second half of a sign-in, in the two parts the handler has: what it reads and
  compares, and what it writes after the comparison. Between the two, other requests may run.
\<close>

record pending =
  pe_challenge :: uuid
  pe_row :: challenge_row
  pe_email :: str
  pe_matches :: bool

definition check_code ::
    "auth_env \<Rightarrow> auth_db \<Rightarrow> time \<Rightarrow> uuid \<Rightarrow> str \<Rightarrow> auth_db \<times> pending api_result" where
  "check_code env d now challenge typed =
     (case map_of (au_challenges d) challenge of
        None \<Rightarrow> (d, Inl Unauthenticated)
      | Some row \<Rightarrow>
          if \<not> now < ch_expires_at row then (d, Inl Unauthenticated)
          else if 5 \<le> ch_attempts row then
            (d\<lparr>au_challenges := AList.delete challenge (au_challenges d)\<rparr>, Inl Unauthenticated)
          else
            (case map_of (au_users d) (ch_user row) of
               None \<Rightarrow> (d, Inl Unauthenticated)
             | Some u \<Rightarrow>
                 (case (u_totp_enabled_at u, u_totp_secret u) of
                    (Some _, Some secret) \<Rightarrow>
                      (d, Inr \<lparr>pe_challenge = challenge, pe_row = row, pe_email = u_email u,
                               pe_matches = code_matches env now secret typed\<rparr>)
                  | _ \<Rightarrow> (d, Inl Unauthenticated))))"

definition count_attempt :: "uuid \<Rightarrow> auth_db \<Rightarrow> auth_db" where
  "count_attempt challenge d =
     (case map_of (au_challenges d) challenge of
        None \<Rightarrow> d
      | Some row \<Rightarrow> d\<lparr>au_challenges := AList.update challenge (row\<lparr>ch_attempts := ch_attempts row + 1\<rparr>) (au_challenges d)\<rparr>)"

definition settle_code ::
    "auth_env \<Rightarrow> auth_db \<Rightarrow> time \<Rightarrow> pending \<Rightarrow> bytes \<Rightarrow> auth_db \<times> session_body api_result" where
  "settle_code env d now pe random =
     (let row = pe_row pe; user = ch_user row;
          try = (\<lambda>d outcome. record_login now
            \<lparr>le_org = org_of d user, le_user = Some user, le_email = pe_email pe, le_outcome = outcome,
             le_ip = ch_ip row, le_machine_name = ch_machine_name row, le_machine_id = ch_machine_id row,
             le_user_agent = ch_user_agent row\<rparr> d)
      in if \<not> pe_matches pe then (try (count_attempt (pe_challenge pe) d) ''totp_failed'', Inl Unauthenticated)
         else
           (let d1 = d\<lparr>au_challenges := AList.delete (pe_challenge pe) (au_challenges d)\<rparr>
            in case issue_session env d1 now user (ch_machine_name row) (ch_machine_id row) (ch_ip row)
                      (ch_user_agent row) random of
                 (d2, Inl e) \<Rightarrow> (d2, Inl e)
               | (d2, Inr body) \<Rightarrow>
                   (let fresh = \<not> known_device d2 user (ch_machine_id row); d3 = try d2 ''ok''
                    in (if fresh then note_audit (org_of d2 user) user ''login.new_device'' d3 else d3, Inr body))))"

definition login_totp ::
    "auth_env \<Rightarrow> auth_db \<Rightarrow> time \<Rightarrow> uuid \<Rightarrow> str \<Rightarrow> bytes \<Rightarrow> auth_db \<times> session_body api_result" where
  "login_totp env d now challenge typed random =
     (case check_code env d now challenge typed of
        (d1, Inl e) \<Rightarrow> (d1, Inl e)
      | (d1, Inr pe) \<Rightarrow> settle_code env d1 now pe random)"

section \<open>A fresh code before what can not be undone\<close>

definition step_up_window :: time where
  "step_up_window = 600"

text \<open>\<open>totp_enabled_at IS NOT NULL\<close> of the caller's row, which a handler fetches or fails.\<close>

definition caller_enrolled :: "auth_db \<Rightarrow> caller \<Rightarrow> bool api_result" where
  "caller_enrolled d c =
     (case map_of (au_users d) (user_id c) of
        None \<Rightarrow> Inl Internal
      | Some u \<Rightarrow> Inr (u_totp_enabled_at u \<noteq> None))"

definition require_step_up :: "auth_env \<Rightarrow> auth_db \<Rightarrow> time \<Rightarrow> caller \<Rightarrow> headers \<Rightarrow> unit api_result" where
  "require_step_up env d now c h =
     (if \<not> sensitive_actions_2fa (policy_of d (org_id c)) then Inr ()
      else (case caller_enrolled d c of
          Inl e \<Rightarrow> Inl e
        | Inr False \<Rightarrow> Inl (Refused ''totp_enrolment_required'')
        | Inr True \<Rightarrow>
            (case token_hash_from_headers env h of
               None \<Rightarrow> Inl Unauthenticated
             | Some digest \<Rightarrow>
                 (case map_option s_totp_verified_at (map_of (au_sessions d) digest) of
                    Some (Some t) \<Rightarrow> if now < t + step_up_window then Inr () else Inl (Refused ''step_up_required'')
                  | _ \<Rightarrow> Inl (Refused ''step_up_required'')))))"

definition totp_verify ::
    "auth_env \<Rightarrow> auth_db \<Rightarrow> time \<Rightarrow> caller \<Rightarrow> headers \<Rightarrow> str \<Rightarrow> auth_db \<times> nat api_result" where
  "totp_verify env d now c h typed =
     (case map_of (au_users d) (user_id c) of
        None \<Rightarrow> (d, Inl (Refused ''totp_enrolment_required''))
      | Some u \<Rightarrow>
          (case (u_totp_enabled_at u, u_totp_secret u) of
             (Some _, Some secret) \<Rightarrow>
               if \<not> code_matches env now secret typed then (d, Inl (BadRequest ''that code does not match''))
               else (case token_hash_from_headers env h of
                   None \<Rightarrow> (d, Inl Unauthenticated)
                 | Some digest \<Rightarrow>
                     ((case map_of (au_sessions d) digest of
                         None \<Rightarrow> d
                       | Some s \<Rightarrow> d\<lparr>au_sessions :=
                           AList.update digest (s\<lparr>s_totp_verified_at := Some now\<rparr>) (au_sessions d)\<rparr>),
                      Inr 10))
           | _ \<Rightarrow> (d, Inl (Refused ''totp_enrolment_required''))))"

section \<open>Enrolling the second factor\<close>

text \<open>Enabled, when, pending, and what the organisation requires.\<close>

definition totp_status :: "auth_db \<Rightarrow> caller \<Rightarrow> bool \<times> time option \<times> bool \<times> str" where
  "totp_status d c =
     (let (secret, enabled_at) = (case map_of (au_users d) (user_id c) of
          None \<Rightarrow> (None, None)
        | Some u \<Rightarrow> (u_totp_secret u, u_totp_enabled_at u))
      in (enabled_at \<noteq> None, enabled_at, secret \<noteq> None \<and> enabled_at = None,
          second_factor (policy_of d (org_id c))))"

definition set_user :: "uuid \<Rightarrow> user_row \<Rightarrow> auth_db \<Rightarrow> auth_db" where
  "set_user user u d = d\<lparr>au_users := AList.update user u (au_users d)\<rparr>"

text \<open>
  \<open>security.rs\<close> has a base32 encoder of its own; \<open>server_base32_emit\<close> is its inner loop,
  the characters pushed and the bits that stay.
\<close>

fun server_base32_emit :: "u32 \<Rightarrow> nat \<Rightarrow> str \<times> nat" where
  "server_base32_emit buffer bits =
     (if bits < 5 then ([], bits)
      else (case server_base32_emit buffer (bits - 5) of (out, left) \<Rightarrow>
        (base32_alphabet ! unat (drop_bit (bits - 5) buffer AND 31) # out, left)))"

declare server_base32_emit.simps [simp del]

fun server_base32_loop :: "u32 \<Rightarrow> nat \<Rightarrow> bytes \<Rightarrow> str" where
  "server_base32_loop buffer bits [] =
     (if 0 < bits then [base32_alphabet ! unat (push_bit (5 - bits) buffer AND 31)] else [])"
| "server_base32_loop buffer bits (b # bs) =
     (let buffer' = push_bit 8 buffer OR ucast b
      in case server_base32_emit buffer' (bits + 8) of (out, left) \<Rightarrow> out @ server_base32_loop buffer' left bs)"

definition server_base32 :: "bytes \<Rightarrow> str" where
  "server_base32 bs = server_base32_loop 0 0 bs"

definition totp_setup :: "auth_db \<Rightarrow> caller \<Rightarrow> bytes \<Rightarrow> auth_db \<times> (str \<times> str) api_result" where
  "totp_setup d c secret =
     (case map_of (au_users d) (user_id c) of
        None \<Rightarrow> (d, Inl Internal)
      | Some u \<Rightarrow>
          if u_totp_enabled_at u \<noteq> None then
            (d, Inl (Conflict ''a second factor is already enabled; disable it first''))
          else
            (set_user (user_id c) (u\<lparr>u_totp_secret := Some secret\<rparr>) d,
             Inr (to_uri (server_totp secret (Some (u_email u)) (Some ''Fury'')), server_base32 secret)))"

definition totp_confirm :: "auth_env \<Rightarrow> auth_db \<Rightarrow> time \<Rightarrow> caller \<Rightarrow> str \<Rightarrow> auth_db \<times> bool api_result" where
  "totp_confirm env d now c typed =
     (case map_of (au_users d) (user_id c) of
        None \<Rightarrow> (d, Inl (BadRequest ''no pending second factor to confirm''))
      | Some u \<Rightarrow>
          (case (u_totp_enabled_at u, u_totp_secret u) of
             (None, Some secret) \<Rightarrow>
               if \<not> code_matches env now secret typed then
                 (d, Inl (BadRequest ''that code does not match - check the clock on the phone''))
               else
                 (audit_by c ''user.totp_enabled'' (Some (user_id c))
                    (set_user (user_id c) (u\<lparr>u_totp_enabled_at := Some now\<rparr>) d), Inr True)
           | _ \<Rightarrow> (d, Inl (BadRequest ''no pending second factor to confirm''))))"

definition totp_disable :: "auth_env \<Rightarrow> auth_db \<Rightarrow> time \<Rightarrow> caller \<Rightarrow> str \<Rightarrow> auth_db \<times> bool api_result" where
  "totp_disable env d now c typed =
     (case map_of (au_users d) (user_id c) of
        None \<Rightarrow> (d, Inr False)
      | Some u \<Rightarrow>
          (case u_totp_secret u of
             None \<Rightarrow> (d, Inr False)
           | Some secret \<Rightarrow>
               if \<not> code_matches env now secret typed then (d, Inl (BadRequest ''that code does not match''))
               else
                 (audit_by c ''user.totp_disabled'' (Some (user_id c))
                    (set_user (user_id c) (u\<lparr>u_totp_secret := None, u_totp_enabled_at := None\<rparr>) d), Inr False)))"

section \<open>The organisation's policy, and its sessions\<close>

definition manages :: "caller \<Rightarrow> bool" where
  "manages c \<longleftrightarrow> role c = Owner \<or> role c = Admin"

definition put_policy ::
    "auth_env \<Rightarrow> auth_db \<Rightarrow> time \<Rightarrow> caller \<Rightarrow> headers \<Rightarrow> policy \<Rightarrow> auth_db \<times> policy api_result" where
  "put_policy env d now c h p =
     (if role c \<noteq> Owner then (d, Inl (Denied ManageAccess))
      else (case require_step_up env d now c h of
          Inl e \<Rightarrow> (d, Inl e)
        | Inr _ \<Rightarrow>
            (case validate_policy p of
               Inl e \<Rightarrow> (d, Inl (BadRequest e))
             | Inr _ \<Rightarrow>
                 if \<not> admits p (client_ip h) (role c) then
                   (d, Inl (BadRequest ''this allowlist does not include the address you are connected from''))
                 else
                   (case (if sensitive_actions_2fa p then caller_enrolled d c else Inr True) of
                      Inl e \<Rightarrow> (d, Inl e)
                    | Inr False \<Rightarrow> (d, Inl (Refused ''totp_enrolment_required''))
                    | Inr True \<Rightarrow>
                        (audit_by c ''org.security_changed'' None
                           (d\<lparr>au_security := AList.update (org_id c) (Some p) (au_security d)\<rparr>), Inr p)))))"

definition hex_prefix :: "bytes \<Rightarrow> str" where
  "hex_prefix digest = hex_of_bytes (take 4 digest)"

record session_entry =
  se_id :: str
  se_user :: uuid
  se_email :: str
  se_machine_name :: str
  se_ip :: "ip option"
  se_user_agent :: "str option"
  se_created_at :: time
  se_last_seen_at :: time
  se_current :: bool

text \<open>The live sessions of the organisation, the last seen first; those seen together in the table's order.\<close>

definition session_entry_of :: "auth_db \<Rightarrow> bytes option \<Rightarrow> bytes \<times> session_row \<Rightarrow> session_entry" where
  "session_entry_of d mine row =
     (case row of (digest, s) \<Rightarrow>
       \<lparr>se_id = hex_prefix digest, se_user = s_user s,
        se_email = (case map_of (au_users d) (s_user s) of None \<Rightarrow> [] | Some u \<Rightarrow> u_email u),
        se_machine_name = s_machine_name s, se_ip = s_ip s, se_user_agent = s_user_agent s,
        se_created_at = s_created_at s, se_last_seen_at = s_last_seen_at s, se_current = (mine = Some digest)\<rparr>)"

definition list_sessions ::
    "auth_env \<Rightarrow> auth_db \<Rightarrow> time \<Rightarrow> caller \<Rightarrow> headers \<Rightarrow> str option \<Rightarrow> session_entry list api_result" where
  "list_sessions env d now c h all_param =
     (let everyone = (all_param = Some ''1'' \<or> all_param = Some ''true'')
      in if everyone \<and> \<not> manages c then Inl (Denied ManageAccess)
         else Inr (map (session_entry_of d (token_hash_from_headers env h))
           (rev (sort_key (\<lambda>(_, s). s_last_seen_at s)
             (rev (List.filter (\<lambda>(_, s). now < s_expires_at s \<and> in_org d (org_id c) (s_user s)
                  \<and> map_of (au_users d) (s_user s) \<noteq> None
                  \<and> (everyone \<or> s_user s = user_id c)) (au_sessions d))))))) "

text \<open>One session by the first eight hexadecimal digits of its digest: the first row that has them.\<close>

definition revoke_session :: "auth_db \<Rightarrow> caller \<Rightarrow> str \<Rightarrow> auth_db \<times> nat api_result" where
  "revoke_session d c sid =
     (if length sid \<noteq> 8 \<or> \<not> list_all is_hexdigit sid then
        (d, Inl (BadRequest ''a session id is eight hex characters''))
      else (case List.find (\<lambda>(digest, s). in_org d (org_id c) (s_user s) \<and> hex_prefix digest = sid) (au_sessions d) of
          None \<Rightarrow> (d, Inl NotFound)
        | Some (digest, s) \<Rightarrow>
            if s_user s \<noteq> user_id c \<and> \<not> manages c then (d, Inl (Denied ManageAccess))
            else
              (audit_by c ''session.revoked'' (Some (s_user s))
                 (d\<lparr>au_sessions := AList.delete digest (au_sessions d)\<rparr>), Inr 1)))"

definition revoke_member_sessions ::
    "auth_env \<Rightarrow> auth_db \<Rightarrow> time \<Rightarrow> caller \<Rightarrow> headers \<Rightarrow> uuid \<Rightarrow> auth_db \<times> nat api_result" where
  "revoke_member_sessions env d now c h user =
     (if \<not> manages c then (d, Inl (Denied ManageAccess))
      else (case require_step_up env d now c h of
          Inl e \<Rightarrow> (d, Inl e)
        | Inr _ \<Rightarrow>
            (let gone = (\<lambda>(_ :: bytes, s). s_user s = user \<and> in_org d (org_id c) user)
             in (audit_by c ''session.revoked_all'' (Some user)
                   (d\<lparr>au_sessions := List.filter (\<lambda>r. \<not> gone r) (au_sessions d)\<rparr>),
                 Inr (length (List.filter gone (au_sessions d)))))))"

section \<open>The server's base32 is the shared one\<close>

lemma server_base32_emit_shared: "server_base32_emit buffer bits = (base32_emit buffer bits, base32_left bits)"
proof (induction buffer bits rule: server_base32_emit.induct)
  case (1 buffer bits)
  then show ?case
    by (subst server_base32_emit.simps, subst base32_emit.simps, subst base32_left.simps)
      (simp add: base32_char_def)
qed

lemma server_base32_loop_shared: "server_base32_loop buffer bits bs = base32_encode_aux buffer bits bs"
  by (induction buffer bits bs rule: server_base32_loop.induct)
    (simp_all add: server_base32_emit_shared base32_char_def Let_def)

lemma server_base32_shared: "server_base32 = base32_encode"
  by (rule ext) (simp add: server_base32_def base32_encode_def server_base32_loop_shared)

end
