(* ===== verification/Sign_In_Protocol.thy ===== *)
theory Sign_In_Protocol
  imports Sign_In Events
begin

text \<open>
  The handlers of \<open>Sign_In\<close> run one after the other: where every session comes from,
  and how many codes a parked sign-in may try (and how many it may in fact, when requests
  overlap).
\<close>

section \<open>Requests and runs\<close>

datatype auth_action =
    Verify str
  | Setup bytes
  | Confirm str
  | Disable str
  | Put_policy policy
  | Revoke_session str
  | Revoke_member uuid

datatype auth_request =
    Login headers login_request uuid bytes
  | Login_code uuid str bytes
  | Act headers auth_action

type_synonym auth_event = "time \<times> auth_request"

definition outcome :: "auth_db \<times> 'a api_result \<Rightarrow> auth_db \<times> unit api_result" where
  "outcome r = map_prod id (map_sum id (\<lambda>_. ())) r"

definition act ::
    "auth_env \<Rightarrow> auth_db \<Rightarrow> time \<Rightarrow> caller \<Rightarrow> headers \<Rightarrow> auth_action \<Rightarrow> auth_db \<times> unit api_result" where
  "act env d now c h a =
     (case a of
        Verify typed \<Rightarrow> outcome (totp_verify env d now c h typed)
      | Setup secret \<Rightarrow> outcome (totp_setup d c secret)
      | Confirm typed \<Rightarrow> outcome (totp_confirm env d now c typed)
      | Disable typed \<Rightarrow> outcome (totp_disable env d now c typed)
      | Put_policy p \<Rightarrow> outcome (put_policy env d now c h p)
      | Revoke_session sid \<Rightarrow> outcome (revoke_session d c sid)
      | Revoke_member user \<Rightarrow> outcome (revoke_member_sessions env d now c h user))"

text \<open>Every handler but the two sign-ins runs behind the extractor.\<close>

definition answer :: "auth_env \<Rightarrow> auth_db \<Rightarrow> auth_event \<Rightarrow> auth_db \<times> unit api_result" where
  "answer env d ev =
     (case ev of (now, req) \<Rightarrow>
       (case req of
          Login h r fresh random \<Rightarrow> outcome (login env d now h r fresh random)
        | Login_code ch typed random \<Rightarrow> outcome (login_totp env d now ch typed random)
        | Act h a \<Rightarrow> (case authenticate env d now h of
              (d1, Inl e) \<Rightarrow> (d1, Inl e)
            | (d1, Inr c) \<Rightarrow> act env d1 now c h a)))"

definition serve_auth :: "auth_env \<Rightarrow> auth_db \<Rightarrow> auth_event \<Rightarrow> auth_db" where
  "serve_auth env d ev = fst (answer env d ev)"

definition run_auth :: "auth_env \<Rightarrow> auth_db \<Rightarrow> auth_event list \<Rightarrow> auth_db" where
  "run_auth env d evs = foldl (serve_auth env) d evs"

lemma run_auth_simps [simp]:
  "run_auth env d [] = d"
  "run_auth env d (ev # evs) = run_auth env (serve_auth env d ev) evs"
  "run_auth env d (evs @ evs') = run_auth env (run_auth env d evs) evs'"
  by (simp_all add: run_auth_def)

interpretation auth_events: event_system "serve_auth env" "run_auth env" for env
  by unfold_locales (simp add: run_auth_def)

lemma fst_outcome [simp]: "fst (outcome r) = fst r"
  by (simp add: outcome_def)

section \<open>What each handler does to each table\<close>

lemma log_frame [simp]:
  "au_users (record_login now a d) = au_users d" "au_members (record_login now a d) = au_members d"
  "au_security (record_login now a d) = au_security d" "au_sessions (record_login now a d) = au_sessions d"
  "au_challenges (record_login now a d) = au_challenges d"
  "au_users (note_audit org u what d) = au_users d" "au_members (note_audit org u what d) = au_members d"
  "au_security (note_audit org u what d) = au_security d" "au_sessions (note_audit org u what d) = au_sessions d"
  "au_challenges (note_audit org u what d) = au_challenges d"
  "au_users (audit_by c what t d) = au_users d" "au_members (audit_by c what t d) = au_members d"
  "au_security (audit_by c what t d) = au_security d" "au_sessions (audit_by c what t d) = au_sessions d"
  "au_challenges (audit_by c what t d) = au_challenges d"
  by (simp_all add: record_login_def note_audit_def audit_login_event_def audit_by_def split: option.split)

text \<open>A row of a session: its user, and the time of its last fresh code.\<close>

definition has_session :: "auth_db \<Rightarrow> bytes \<Rightarrow> uuid \<Rightarrow> bool" where
  "has_session d digest user \<longleftrightarrow> (\<exists>s. (digest, s) \<in> set (au_sessions d) \<and> s_user s = user)"

definition has_mark :: "auth_db \<Rightarrow> bytes \<Rightarrow> time \<Rightarrow> bool" where
  "has_mark d digest t \<longleftrightarrow> (\<exists>s. (digest, s) \<in> set (au_sessions d) \<and> s_totp_verified_at s = Some t)"

lemma session_cong:
  "au_sessions d' = au_sessions d \<Longrightarrow> has_session d' = has_session d"
  "au_sessions d' = au_sessions d \<Longrightarrow> has_mark d' = has_mark d"
  by (simp_all add: has_session_def has_mark_def fun_eq_iff)

lemma in_update: "(k', v') \<in> set (AList.update k v t) \<Longrightarrow> (k' = k \<and> v' = v) \<or> (k', v') \<in> set t"
  by (induction t) (auto split: if_splits)

lemma in_delete: "x \<in> set (AList.delete k t) \<Longrightarrow> x \<in> set t"
  by (auto simp: AList.delete_eq)

definition other_tables :: "auth_db \<Rightarrow> (uuid \<times> user_row) list \<times> ((uuid \<times> uuid) \<times> member_row) list
    \<times> (uuid \<times> policy option) list \<times> (uuid \<times> challenge_row) list" where
  "other_tables d = (au_users d, au_members d, au_security d, au_challenges d)"

lemma authenticate_cases:
  "authenticate env d now h = (d', r) \<Longrightarrow>
   d' = d \<and> (\<exists>e. r = Inl e)
   \<or> (\<exists>digest s u. token_hash_from_headers env h = Some digest \<and> map_of (au_sessions d) digest = Some s
        \<and> map_of (au_users d) (s_user s) = Some u \<and> \<not> u_disabled u \<and> now < s_expires_at s
        \<and> (\<exists>c. r = Inr c \<and> user_id c = s_user s \<and> membership_of d (s_user s) \<noteq> None)
        \<and> d' = d\<lparr>au_sessions := AList.update digest
            (s\<lparr>s_expires_at := now + session_ttl, s_last_seen_at := now\<rparr>) (au_sessions d)\<rparr>)"
  unfolding authenticate_def
  by (auto split: option.splits if_splits prod.splits)

lemma authenticate_frame:
  "has_session (fst (authenticate env d now h)) digest user \<Longrightarrow> has_session d digest user"
  "has_mark (fst (authenticate env d now h)) digest t \<Longrightarrow> has_mark d digest t"
  "other_tables (fst (authenticate env d now h)) = other_tables d"
  using authenticate_cases [of env d now h "fst (authenticate env d now h)" "snd (authenticate env d now h)"]
  by (auto simp: has_session_def has_mark_def other_tables_def dest!: in_update map_of_SomeD) blast+

lemma issue_session_cases:
  "issue_session env d now user mn mid client agent random = (d', r) \<Longrightarrow>
   d' = d \<and> r = Inl Internal
   \<or> (\<exists>s body. d' = d\<lparr>au_sessions := (token_hash env (hex_of_bytes random), s) # au_sessions d\<rparr>
        \<and> s_user s = user \<and> s_totp_verified_at s = None
        \<and> map_of (au_sessions d) (token_hash env (hex_of_bytes random)) = None \<and> r = Inr body)"
  by (auto simp: issue_session_def new_token_def Let_def split: option.splits if_splits)

section \<open>What a sign-in does\<close>

definition password_accepted ::
    "auth_env \<Rightarrow> auth_db \<Rightarrow> headers \<Rightarrow> login_request \<Rightarrow> uuid \<Rightarrow> user_row \<Rightarrow> bool" where
  "password_accepted env d h req user u \<longleftrightarrow>
     user_by_email d (lq_email req) = Some (user, u)
     \<and> verify_password env (lq_password req) (u_password_hash u)
     \<and> admits (login_policy d user) (client_ip h) (login_role d user)"

definition wants_code :: "auth_db \<Rightarrow> login_request \<Rightarrow> uuid \<Rightarrow> user_row \<Rightarrow> bool" where
  "wants_code d req user u \<longleftrightarrow>
     second_factor_required (login_policy d user) (enrolled u) (known_device d user (lq_machine_id req))"

lemma login_frame:
  "au_users (fst (login env d now h req fresh random)) = au_users d"
  "au_members (fst (login env d now h req fresh random)) = au_members d"
  "au_security (fst (login env d now h req fresh random)) = au_security d"
  unfolding login_def Let_def open_challenge_def issue_session_def
  by (auto split: option.split sum.split prod.split)

lemma login_cases:
  assumes "login env d now h req fresh random = (d', r)"
  shows "au_sessions d' = au_sessions d \<and> au_challenges d' = au_challenges d \<and> (\<exists>e. r = Inl e)
    \<or> (\<exists>user u row. password_accepted env d h req user u \<and> wants_code d req user u
        \<and> map_of (au_challenges d) fresh = None
        \<and> au_sessions d' = au_sessions d \<and> au_challenges d' = (fresh, row) # au_challenges d
        \<and> ch_user row = user \<and> ch_attempts row = 0 \<and> ch_expires_at row = now + 300
        \<and> r = Inr (Code_wanted fresh))
    \<or> (\<exists>user u s body. password_accepted env d h req user u \<and> \<not> wants_code d req user u
        \<and> au_challenges d' = au_challenges d
        \<and> au_sessions d' = (token_hash env (hex_of_bytes random), s) # au_sessions d
        \<and> map_of (au_sessions d) (token_hash env (hex_of_bytes random)) = None
        \<and> s_user s = user \<and> s_totp_verified_at s = None \<and> r = Inr (Signed_in body))"
proof (cases "user_by_email d (lq_email req)")
  case None
  then show ?thesis using assms by (auto simp: login_def Let_def)
next
  case (Some pair)
  then obtain user u where found: "user_by_email d (lq_email req) = Some (user, u)"
    by (cases pair) simp
  consider (refused) "\<not> admits (login_policy d user) (client_ip h) (login_role d user)"
    | (wrong) "admits (login_policy d user) (client_ip h) (login_role d user)"
        "\<not> verify_password env (lq_password req) (u_password_hash u)"
    | (asked) "password_accepted env d h req user u" "wants_code d req user u"
    | (opened) "password_accepted env d h req user u" "\<not> wants_code d req user u"
    using found by (auto simp: password_accepted_def)
  then show ?thesis
  proof cases
    case refused
    then show ?thesis using assms found by (auto simp: login_def Let_def)
  next
    case wrong
    then show ?thesis using assms found by (auto simp: login_def Let_def)
  next
    case asked
    then show ?thesis
      using assms found unfolding login_def Let_def
      by (auto simp: password_accepted_def wants_code_def open_challenge_def split: if_splits)
  next
    case opened
    then show ?thesis
      using assms found unfolding login_def Let_def
      by (auto simp: password_accepted_def wants_code_def issue_session_def new_token_def Let_def
          split: if_splits option.splits)
  qed
qed

definition code_accepted :: "auth_env \<Rightarrow> auth_db \<Rightarrow> time \<Rightarrow> uuid \<Rightarrow> str \<Rightarrow> challenge_row \<Rightarrow> bool \<Rightarrow> bool" where
  "code_accepted env d now ch typed row right \<longleftrightarrow>
     map_of (au_challenges d) ch = Some row \<and> now < ch_expires_at row \<and> ch_attempts row < 5
     \<and> (\<exists>u secret t. map_of (au_users d) (ch_user row) = Some u \<and> u_totp_secret u = Some secret
          \<and> u_totp_enabled_at u = Some t \<and> right = code_matches env now secret typed)"

lemma check_code_cases:
  "check_code env d now ch typed = (d', r) \<Longrightarrow>
   (\<exists>e. r = Inl e \<and> d' = d)
   \<or> (\<exists>row. map_of (au_challenges d) ch = Some row \<and> 5 \<le> ch_attempts row \<and> r = Inl Unauthenticated
        \<and> d' = d\<lparr>au_challenges := AList.delete ch (au_challenges d)\<rparr>)
   \<or> (\<exists>pe. r = Inr pe \<and> d' = d \<and> pe_challenge pe = ch \<and> code_accepted env d now ch typed (pe_row pe) (pe_matches pe))"
  unfolding check_code_def code_accepted_def
  by (auto split: option.splits if_splits)

lemma settle_code_cases:
  "settle_code env d now pe random = (d', r) \<Longrightarrow>
   \<not> pe_matches pe \<and> (\<exists>e. r = Inl e) \<and> au_sessions d' = au_sessions d
     \<and> au_challenges d' = au_challenges (count_attempt (pe_challenge pe) d)
   \<or> pe_matches pe \<and> au_challenges d' = AList.delete (pe_challenge pe) (au_challenges d)
     \<and> ((\<exists>e. r = Inl e) \<and> au_sessions d' = au_sessions d
        \<or> (\<exists>s body. r = Inr body \<and> s_user s = ch_user (pe_row pe) \<and> s_totp_verified_at s = None
            \<and> map_of (au_sessions d) (token_hash env (hex_of_bytes random)) = None
            \<and> au_sessions d' = (token_hash env (hex_of_bytes random), s) # au_sessions d))"
  unfolding settle_code_def Let_def count_attempt_def issue_session_def new_token_def
  by (auto split: option.splits if_splits prod.splits)

lemma login_totp_frame:
  "au_users (fst (login_totp env d now ch typed random)) = au_users d"
  "au_members (fst (login_totp env d now ch typed random)) = au_members d"
  "au_security (fst (login_totp env d now ch typed random)) = au_security d"
  unfolding login_totp_def check_code_def settle_code_def count_attempt_def issue_session_def Let_def
  by (auto split: option.split sum.split prod.split)

section \<open>Where a session comes from\<close>

definition signed_in_by :: "auth_env \<Rightarrow> auth_db \<Rightarrow> auth_event \<Rightarrow> bytes \<Rightarrow> uuid \<Rightarrow> bool" where
  "signed_in_by env d ev digest user =
     (case ev of (now, req) \<Rightarrow>
       (case req of
          Login h r fresh random \<Rightarrow> digest = token_hash env (hex_of_bytes random)
            \<and> (\<exists>u. password_accepted env d h r user u \<and> \<not> wants_code d r user u)
        | Login_code ch typed random \<Rightarrow> digest = token_hash env (hex_of_bytes random)
            \<and> (\<exists>row. code_accepted env d now ch typed row True \<and> ch_user row = user)
        | Act h a \<Rightarrow> False))"

definition parked_by :: "auth_env \<Rightarrow> auth_db \<Rightarrow> auth_event \<Rightarrow> uuid \<Rightarrow> uuid \<Rightarrow> bool" where
  "parked_by env d ev ch user =
     (case ev of (now, req) \<Rightarrow>
       (case req of
          Login h r fresh random \<Rightarrow> fresh = ch
            \<and> (\<exists>u. password_accepted env d h r user u \<and> wants_code d r user u)
        | _ \<Rightarrow> False))"

definition parked_user :: "auth_db \<Rightarrow> uuid \<Rightarrow> uuid option" where
  "parked_user d ch = map_option ch_user (map_of (au_challenges d) ch)"

lemma login_totp_cases:
  assumes "login_totp env d now ch typed random = (d', r)"
  shows "au_sessions d' = au_sessions d \<and> (\<exists>e. r = Inl e)
    \<or> (\<exists>row s body. code_accepted env d now ch typed row True \<and> r = Inr body
        \<and> s_user s = ch_user row \<and> s_totp_verified_at s = None
        \<and> map_of (au_sessions d) (token_hash env (hex_of_bytes random)) = None
        \<and> au_sessions d' = (token_hash env (hex_of_bytes random), s) # au_sessions d)"
proof -
  obtain d1 c where check: "check_code env d now ch typed = (d1, c)"
    by (cases "check_code env d now ch typed")
  show ?thesis
  proof (cases c)
    case (Inl e)
    then show ?thesis
      using assms check check_code_cases [OF check] by (auto simp: login_totp_def)
  next
    case (Inr pe)
    then have settle: "settle_code env d now pe random = (d', r)"
      and pe: "d1 = d" "code_accepted env d now ch typed (pe_row pe) (pe_matches pe)"
      using assms check check_code_cases [OF check] by (auto simp: login_totp_def)
    show ?thesis
      using settle_code_cases [OF settle] pe(2) by auto
  qed
qed

lemma parked_user_count [simp]: "parked_user (count_attempt ch d) x = parked_user d x"
  by (simp add: parked_user_def count_attempt_def lookup_update split: option.split)

lemma parked_cong: "au_challenges d' = au_challenges d \<Longrightarrow> parked_user d' = parked_user d"
  by (simp add: parked_user_def fun_eq_iff)

lemma login_totp_parked:
  assumes "login_totp env d now ch typed random = (d', r)" and "parked_user d' x = Some user"
  shows "parked_user d x = Some user"
proof -
  obtain d1 c where check: "check_code env d now ch typed = (d1, c)"
    by (cases "check_code env d now ch typed")
  show ?thesis
  proof (cases c)
    case (Inl e)
    then show ?thesis
      using assms check check_code_cases [OF check]
      by (auto simp: login_totp_def parked_user_def lookup_delete split: if_splits)
  next
    case (Inr pe)
    then have settle: "settle_code env d now pe random = (d', r)"
      using assms check check_code_cases [OF check] by (auto simp: login_totp_def)
    have "parked_user d' x = parked_user d x \<or> parked_user d' x = None"
      using settle_code_cases [OF settle] parked_user_count [of "pe_challenge pe" d x]
      by (auto simp: parked_user_def lookup_delete simp del: parked_user_count split: if_splits)
    then show ?thesis using assms(2) by auto
  qed
qed

lemma act_parked:
  "au_challenges (fst (act env d now c h a)) = au_challenges d"
  unfolding act_def totp_verify_def totp_setup_def totp_confirm_def totp_disable_def put_policy_def
    revoke_session_def revoke_member_sessions_def set_user_def Let_def
  by (auto split: auth_action.split option.split sum.split bool.split)

lemma act_session_user:
  assumes "has_session (fst (act env d now c h a)) digest user"
  shows "has_session d digest user"
  using assms
  unfolding act_def totp_verify_def totp_setup_def totp_confirm_def totp_disable_def put_policy_def
    revoke_session_def revoke_member_sessions_def set_user_def Let_def has_session_def
  by (cases a) (auto dest!: in_update in_delete map_of_SomeD
      split: option.splits sum.splits bool.splits if_splits prod.splits)

lemma serve_session_user:
  assumes "has_session (serve_auth env d ev) digest user"
  shows "has_session d digest user \<or> signed_in_by env d ev digest user"
proof -
  obtain now req where ev: "ev = (now, req)" by (cases ev)
  show ?thesis
  proof (cases req)
    case (Login h r fresh random)
    obtain d' a where result: "login env d now h r fresh random = (d', a)"
      by (cases "login env d now h r fresh random")
    then show ?thesis
      using assms login_cases [OF result] ev Login
      by (auto simp: serve_auth_def answer_def signed_in_by_def has_session_def split: if_splits)
  next
    case (Login_code ch typed random)
    obtain d' a where result: "login_totp env d now ch typed random = (d', a)"
      by (cases "login_totp env d now ch typed random")
    then show ?thesis
      using assms login_totp_cases [OF result] ev Login_code
      by (auto simp: serve_auth_def answer_def signed_in_by_def has_session_def split: if_splits) blast+
  next
    case (Act h a)
    obtain d1 c where au: "authenticate env d now h = (d1, c)"
      by (cases "authenticate env d now h")
    then have "has_session d1 digest user \<Longrightarrow> has_session d digest user"
      using authenticate_frame(1) [of env d now h digest user] by simp
    then show ?thesis
      using assms au ev Act act_session_user [of env d1 now _ h a digest user]
      by (cases c) (auto simp: serve_auth_def answer_def)
  qed
qed

lemma serve_parked_user:
  assumes "parked_user (serve_auth env d ev) ch = Some user"
  shows "parked_user d ch = Some user \<or> parked_by env d ev ch user"
proof -
  obtain now req where ev: "ev = (now, req)" by (cases ev)
  show ?thesis
  proof (cases req)
    case (Login h r fresh random)
    obtain d' a where result: "login env d now h r fresh random = (d', a)"
      by (cases "login env d now h r fresh random")
    then show ?thesis
      using assms login_cases [OF result] ev Login
      by (auto simp: serve_auth_def answer_def parked_by_def parked_user_def split: if_splits)
  next
    case (Login_code ch' typed random)
    then show ?thesis
      using assms ev login_totp_parked [of env d now ch' typed random "serve_auth env d ev"]
      by (cases "login_totp env d now ch' typed random") (auto simp: serve_auth_def answer_def)
  next
    case (Act h a)
    obtain d1 c where au: "authenticate env d now h = (d1, c)"
      by (cases "authenticate env d now h")
    then have "parked_user d1 = parked_user d"
      using authenticate_frame(3) [of env d now h] by (auto simp: other_tables_def intro: parked_cong)
    moreover have "parked_user (fst (act env d1 now x h a)) = parked_user d1" for x
      by (rule parked_cong) (rule act_parked)
    ultimately show ?thesis
      using assms au ev Act by (cases c) (auto simp: serve_auth_def answer_def)
  qed
qed

text \<open>An event of the run for which something holds in the state it is served in.\<close>

definition at_some_event ::
    "auth_env \<Rightarrow> auth_db \<Rightarrow> auth_event list \<Rightarrow> (auth_event list \<Rightarrow> auth_db \<Rightarrow> auth_event \<Rightarrow> bool) \<Rightarrow> bool" where
  "at_some_event env d evs P \<longleftrightarrow>
     (\<exists>pre ev post. evs = pre @ ev # post \<and> P pre (run_auth env d pre) ev)"

lemma run_backwards:
  assumes "\<And>d ev. K (serve_auth env d ev) \<Longrightarrow> K d \<or> P d ev"
    and "K (run_auth env d evs)"
  shows "K d \<or> at_some_event env d evs (\<lambda>_. P)"
  using auth_events.caused [of K env P d evs] assms unfolding at_some_event_def by blast

section \<open>A small server\<close>

definition demo_auth :: auth_env where
  "demo_auth = \<lparr>verify_password = (\<lambda>p stored. p = stored), token_hash = text_bytes,
     mac = (\<lambda>a k m. replicate 20 0)\<rparr>"

definition demo_user :: user_row where
  "demo_user = \<lparr>u_email = ''o'', u_password_hash = ''pw'', u_totp_secret = Some [9], u_totp_enabled_at = Some 2,
     u_disabled = False, u_public_key = [], u_wrapped_private_key = [], u_kdf_salt = []\<rparr>"

definition demo_policy :: policy where
  "demo_policy = default_policy\<lparr>second_factor := ''always'', sensitive_actions_2fa := True\<rparr>"

definition demo_server :: auth_db where
  "demo_server = \<lparr>au_users = [(7, demo_user)],
     au_members = [((3, 7), \<lparr>m_role = ''owner'', m_wrapped_ork = None, m_ork_generation = None\<rparr>)],
     au_security = [(3, Some demo_policy)], au_sessions = [], au_challenges = [], au_journal = [], au_audit = []\<rparr>"

definition demo_login :: login_request where
  "demo_login = \<lparr>lq_email = ''o'', lq_password = ''pw'', lq_machine_name = ''m'', lq_machine_id = None\<rparr>"

definition demo_bearer :: headers where
  "demo_bearer = [(''authorization'', ''Bearer 2a'')]"

lemma demo_code: "code_at (\<lambda>a k m. replicate 20 0) (server_totp [9] None None) t = ''000000''"
proof -
  have "dynamic_truncation (replicate 20 (0 :: u8)) = 0" by code_simp
  moreover have "pad_zeros 6 (show_nat 0) = ''000000''" by code_simp
  ultimately show ?thesis by (simp add: code_at_def server_totp_def)
qed

lemma demo_matches: "code_matches demo_auth now [9] ''000000''" "\<not> code_matches demo_auth now [9] ''111111''"
proof -
  have "trim ''000000'' = ''000000''" "trim ''111111'' = ''111111''" "list_all is_digit ''000000''"
    by code_simp+
  then show "code_matches demo_auth now [9] ''000000''" "\<not> code_matches demo_auth now [9] ''111111''"
    by (simp_all add: code_matches_def demo_auth_def demo_code)
qed

lemma demo_header:
  "token_hash_from_headers demo_auth demo_bearer = Some (text_bytes ''2a'')"
  "client_ip demo_bearer = None" "hex_of_bytes [0x2a] = ''2a''" "client_ip [] = None" "user_agent [] = None"
  by (code_simp, code_simp, code_simp) (simp_all add: client_ip_def user_agent_def header_text_def)

lemmas demo_simps = demo_server_def demo_user_def demo_policy_def demo_login_def demo_header demo_matches
  default_policy_def

text \<open>The owner's password parks a sign-in, the code turns it into a session.\<close>

definition demo_challenge :: challenge_row where
  "demo_challenge = \<lparr>ch_user = 7, ch_ip = None, ch_machine_name = ''m'', ch_machine_id = None,
     ch_user_agent = None, ch_attempts = 0, ch_expires_at = 310\<rparr>"

definition demo_session :: session_row where
  "demo_session = \<lparr>s_user = 7, s_expires_at = 604820, s_machine_name = ''m'', s_machine_id = None, s_ip = None,
     s_user_agent = None, s_created_at = 20, s_last_seen_at = 20, s_totp_verified_at = None\<rparr>"

lemma demo_parked:
  "au_challenges (run_auth demo_auth demo_server [(10, Login [] demo_login 5 [1])]) = [(5, demo_challenge)]"
  "au_users (run_auth demo_auth demo_server [(10, Login [] demo_login 5 [1])]) = [(7, demo_user)]"
  "au_sessions (run_auth demo_auth demo_server [(10, Login [] demo_login 5 [1])]) = []"
  by (simp_all add: serve_auth_def answer_def login_def user_by_email_def org_of_def membership_of_def
      login_policy_def policy_of_def from_json_def admits_def second_factor_required_def enrolled_def
      open_challenge_def demo_challenge_def demo_auth_def demo_simps record_login_def)

lemma demo_code_accepted:
  assumes "au_challenges d = [(5, demo_challenge)]" and "au_users d = [(7, demo_user)]" and "au_sessions d = []"
  shows "au_sessions (serve_auth demo_auth d (20, Login_code 5 ''000000'' [0x2a])) = [(text_bytes ''2a'', demo_session)]"
    and "au_users (serve_auth demo_auth d (20, Login_code 5 ''000000'' [0x2a])) = [(7, demo_user)]"
proof -
  have hash: "token_hash demo_auth = text_bytes" by (simp add: demo_auth_def)
  have checked: "check_code demo_auth d 20 5 ''000000''
      = (d, Inr \<lparr>pe_challenge = 5, pe_row = demo_challenge, pe_email = ''o'', pe_matches = True\<rparr>)"
    by (simp add: check_code_def assms demo_challenge_def demo_user_def demo_matches)
  show "au_sessions (serve_auth demo_auth d (20, Login_code 5 ''000000'' [0x2a])) = [(text_bytes ''2a'', demo_session)]"
    by (simp add: serve_auth_def answer_def login_totp_def checked settle_code_def issue_session_def new_token_def Let_def
        assms demo_challenge_def demo_session_def session_ttl_def demo_header hash)
  show "au_users (serve_auth demo_auth d (20, Login_code 5 ''000000'' [0x2a])) = [(7, demo_user)]"
    using login_totp_frame(1) [of demo_auth d 20 5 "''000000''" "[0x2a]"] assms(2)
    by (simp add: serve_auth_def answer_def)
qed

definition demo_run :: "auth_event list" where
  "demo_run = [(10, Login [] demo_login 5 [1]), (20, Login_code 5 ''000000'' [0x2a])]"

lemma demo_run_session:
  "au_sessions (run_auth demo_auth demo_server demo_run) = [(text_bytes ''2a'', demo_session)]"
  using demo_code_accepted(1) [OF demo_parked] by (simp add: demo_run_def)

section \<open>How many codes may be tried\<close>

text \<open>The events of a run in which a code was compared for this challenge.\<close>

fun comparisons :: "auth_env \<Rightarrow> uuid \<Rightarrow> auth_db \<Rightarrow> auth_event list \<Rightarrow> nat" where
  "comparisons env ch d [] = 0"
| "comparisons env ch d ((now, req) # evs) =
     (case req of
        Login_code ch' typed random \<Rightarrow>
          if ch' = ch \<and> (\<exists>pe. snd (check_code env d now ch typed) = Inr pe) then 1 else 0
      | _ \<Rightarrow> 0) + comparisons env ch (serve_auth env d (now, req)) evs"

definition never_reopened :: "uuid \<Rightarrow> auth_event list \<Rightarrow> bool" where
  "never_reopened ch evs \<longleftrightarrow> (\<forall>now h r random. (now, Login h r ch random) \<notin> set evs)"

text \<open>Guesses left: five less the attempts counted, none for a challenge that is gone.\<close>

definition guesses_left :: "auth_db \<Rightarrow> uuid \<Rightarrow> nat" where
  "guesses_left d ch = (case map_of (au_challenges d) ch of None \<Rightarrow> 0 | Some row \<Rightarrow> 5 - ch_attempts row)"

lemma guesses_cong: "au_challenges d' = au_challenges d \<Longrightarrow> guesses_left d' = guesses_left d"
  by (simp add: guesses_left_def fun_eq_iff)

lemma login_totp_guesses:
  assumes "login_totp env d now ch' typed random = (d', r)"
  shows "guesses_left d' ch \<le> guesses_left d ch"
    and "ch' = ch \<Longrightarrow> snd (check_code env d now ch typed) = Inr pe \<Longrightarrow> Suc (guesses_left d' ch) \<le> guesses_left d ch"
proof -
  obtain d1 c where check: "check_code env d now ch' typed = (d1, c)"
    by (cases "check_code env d now ch' typed")
  have bounds: "guesses_left d' ch \<le> guesses_left d ch
      \<and> (ch' = ch \<and> (\<exists>pe. c = Inr pe) \<longrightarrow> Suc (guesses_left d' ch) \<le> guesses_left d ch)"
  proof (cases c)
    case (Inl e)
    then show ?thesis
      using assms check check_code_cases [OF check]
      by (auto simp: login_totp_def guesses_left_def lookup_delete split: option.split if_splits)
  next
    case (Inr pe)
    then have settle: "settle_code env d now pe random = (d', r)"
      and pe: "pe_challenge pe = ch'" "code_accepted env d now ch' typed (pe_row pe) (pe_matches pe)"
      using assms check check_code_cases [OF check] by (auto simp: login_totp_def)
    have row: "map_of (au_challenges d) ch' = Some (pe_row pe)" "ch_attempts (pe_row pe) < 5"
      using pe(2) by (auto simp: code_accepted_def)
    have "au_challenges d' = AList.update ch' (pe_row pe\<lparr>ch_attempts := ch_attempts (pe_row pe) + 1\<rparr>) (au_challenges d)
        \<or> au_challenges d' = AList.delete ch' (au_challenges d)"
      using settle_code_cases [OF settle] pe(1) row(1) by (auto simp: count_attempt_def)
    then show ?thesis
      using row by (auto simp: guesses_left_def table_simps split: option.split if_splits)
  qed
  then show "guesses_left d' ch \<le> guesses_left d ch" by blast
  assume "ch' = ch" "snd (check_code env d now ch typed) = Inr pe"
  then show "Suc (guesses_left d' ch) \<le> guesses_left d ch"
    using bounds check by auto
qed

lemma serve_guesses:
  assumes "never_reopened ch [(now, req)]"
  shows "comparisons env ch d [(now, req)] + guesses_left (serve_auth env d (now, req)) ch \<le> guesses_left d ch"
proof (cases req)
  case (Login h r fresh random)
  obtain d' a where result: "login env d now h r fresh random = (d', a)"
    by (cases "login env d now h r fresh random")
  have "fresh \<noteq> ch" using assms Login by (auto simp: never_reopened_def)
  then show ?thesis
    using login_cases [OF result] result Login
    by (auto simp: serve_auth_def answer_def guesses_left_def split: option.split)
next
  case (Login_code ch' typed random)
  then show ?thesis
    using login_totp_guesses [of env d now ch' typed random "serve_auth env d (now, req)"
        "snd (login_totp env d now ch' typed random)" ch]
    by (auto simp: serve_auth_def answer_def)
next
  case (Act h a)
  obtain d1 c where au: "authenticate env d now h = (d1, c)"
    by (cases "authenticate env d now h")
  then have "guesses_left d1 = guesses_left d"
    using authenticate_frame(3) [of env d now h] by (auto simp: other_tables_def intro: guesses_cong)
  moreover have "guesses_left (fst (act env d1 now x h a)) = guesses_left d1" for x
    by (rule guesses_cong) (rule act_parked)
  ultimately show ?thesis
    using au Act by (cases c) (auto simp: serve_auth_def answer_def)
qed

text \<open>
  C31. Five wrong codes end a parked sign-in, over any run of requests served one after
  the other: however many codes are presented for it, at most five less the ones already
  counted are ever compared with the secret, and a sign-in that is gone stays gone. (The
  identifiers are drawn at random: no later sign-in is parked under the same one.)
\<close>

theorem at_most_five_codes_are_compared:
  assumes "never_reopened ch evs"
  shows "comparisons env ch d evs + guesses_left (run_auth env d evs) ch \<le> guesses_left d ch
    \<and> guesses_left d ch \<le> 5"
proof (rule conjI)
  show "comparisons env ch d evs + guesses_left (run_auth env d evs) ch \<le> guesses_left d ch"
    using assms
  proof (induction evs arbitrary: d)
    case (Cons ev evs)
    obtain now req where ev: "ev = (now, req)" by (cases ev)
    have "never_reopened ch [(now, req)]" "never_reopened ch evs"
      using Cons.prems ev by (auto simp: never_reopened_def)
    then show ?case
      using Cons.IH [of "serve_auth env d ev"] serve_guesses [of ch now req env d] ev by simp
  qed simp
  show "guesses_left d ch \<le> 5"
    by (simp add: guesses_left_def split: option.split)
qed

definition demo_waiting :: auth_db where
  "demo_waiting = run_auth demo_auth demo_server [(10, Login [] demo_login 5 [1])]"

lemma at_most_five_codes_are_compared_witness:
  "comparisons demo_auth 5 demo_waiting (replicate 9 (20, Login_code 5 ''111111'' [2])) \<le> 5"
proof -
  have "never_reopened 5 (replicate 9 (20, Login_code 5 ''111111'' [2]))"
    by (simp add: never_reopened_def)
  then show ?thesis
    using at_most_five_codes_are_compared [of 5 "replicate 9 (20, Login_code 5 ''111111'' [2])" demo_auth demo_waiting]
    by linarith
qed

text \<open>
  The requests of a person who sends many codes at once: each is read and compared before any
  of them is settled, then they are settled in turn.
\<close>

definition settle_all :: "auth_env \<Rightarrow> auth_db \<Rightarrow> time \<Rightarrow> (pending \<times> bytes) list \<Rightarrow> auth_db" where
  "settle_all env d now ps = foldl (\<lambda>d (pe, random). fst (settle_code env d now pe random)) d ps"

definition compared_at_once ::
    "auth_env \<Rightarrow> auth_db \<Rightarrow> time \<Rightarrow> uuid \<Rightarrow> (str \<times> bytes) list \<Rightarrow> (pending \<times> bytes) list" where
  "compared_at_once env d now ch guesses =
     List.concat (map (\<lambda>(typed, random).
       case check_code env d now ch typed of (_, Inr pe) \<Rightarrow> [(pe, random)] | _ \<Rightarrow> []) guesses)"


lemma settle_wrong:
  assumes "\<not> pe_matches pe"
  shows "au_users (fst (settle_code env d now pe random)) = au_users d"
    and "au_sessions (fst (settle_code env d now pe random)) = au_sessions d"
  using assms by (simp_all add: settle_code_def count_attempt_def Let_def split: option.split)

lemma settle_all_wrong:
  assumes "\<forall>(pe, random) \<in> set ps. \<not> pe_matches pe"
  shows "au_users (settle_all env d now ps) = au_users d \<and> au_sessions (settle_all env d now ps) = au_sessions d"
  using assms
  by (induction ps arbitrary: d) (auto simp: settle_all_def settle_wrong)

lemma settle_right:
  assumes "pe_matches pe" and "map_of (au_users d) (ch_user (pe_row pe)) \<noteq> None"
    and "map_of (au_sessions d) (token_hash env (hex_of_bytes random)) = None"
  shows "\<exists>body. snd (settle_code env d now pe random) = Inr body"
  using assms by (auto simp: settle_code_def issue_session_def new_token_def Let_def)

text \<open>
  The count of attempts does not bound guesses that arrive together: the attempts are read
  before the code is compared and written after, so for any number of wrong codes sent
  at once for a sign-in with an attempt left, every one of them is compared, and when all
  of them have been counted a right code that was sent with them still opens a session.
\<close>

theorem guesses_sent_at_once_are_all_compared:
  assumes "map_of (au_challenges d) ch = Some row" "now < ch_expires_at row" "ch_attempts row < 5"
    and "map_of (au_users d) (ch_user row) = Some u" "u_totp_enabled_at u \<noteq> None" "u_totp_secret u = Some secret"
    and "\<forall>(typed, random) \<in> set guesses. \<not> code_matches env now secret typed"
    and "code_matches env now secret right"
    and "map_of (au_sessions d) (token_hash env (hex_of_bytes random)) = None"
  shows "length (compared_at_once env d now ch guesses) = length guesses
    \<and> (\<exists>pe body. check_code env d now ch right = (d, Inr pe)
        \<and> snd (settle_code env (settle_all env d now (compared_at_once env d now ch guesses)) now pe random) = Inr body)"
proof -
  have check: "check_code env d now ch typed = (d, Inr \<lparr>pe_challenge = ch, pe_row = row, pe_email = u_email u,
      pe_matches = code_matches env now secret typed\<rparr>)" for typed
    using assms(1-6) by (auto simp: check_code_def)
  let ?ps = "compared_at_once env d now ch guesses"
  have all: "?ps = map (\<lambda>(typed, random). (\<lparr>pe_challenge = ch, pe_row = row, pe_email = u_email u,
      pe_matches = code_matches env now secret typed\<rparr>, random)) guesses"
    by (induction guesses) (auto simp: compared_at_once_def check)
  then have "length ?ps = length guesses" by simp
  have "\<forall>(pe, random) \<in> set ?ps. \<not> pe_matches pe"
    using assms(7) by (auto simp: all)
  then have "au_users (settle_all env d now ?ps) = au_users d" "au_sessions (settle_all env d now ?ps) = au_sessions d"
    using settle_all_wrong by auto
  then have "\<exists>pe body. check_code env d now ch right = (d, Inr pe)
      \<and> snd (settle_code env (settle_all env d now ?ps) now pe random) = Inr body"
    using settle_right assms(4,8,9) by (simp add: check)
  with \<open>length ?ps = length guesses\<close> show ?thesis by blast
qed

lemma guesses_sent_at_once_are_all_compared_witness:
  "length (compared_at_once demo_auth demo_waiting 20 5 (replicate 99 (''111111'', [2]))) = 99
   \<and> (\<exists>pe body. check_code demo_auth demo_waiting 20 5 ''000000'' = (demo_waiting, Inr pe)
        \<and> snd (settle_code demo_auth (settle_all demo_auth demo_waiting 20
            (compared_at_once demo_auth demo_waiting 20 5 (replicate 99 (''111111'', [2])))) 20 pe [3]) = Inr body)"
proof -
  have "map_of (au_challenges demo_waiting) 5 = Some demo_challenge" "20 < ch_expires_at demo_challenge"
    "ch_attempts demo_challenge < 5" "map_of (au_users demo_waiting) (ch_user demo_challenge) = Some demo_user"
    "u_totp_enabled_at demo_user \<noteq> None" "u_totp_secret demo_user = Some [9]"
    "\<forall>(typed, random) \<in> set (replicate 99 (''111111'', [2 :: u8])). \<not> code_matches demo_auth 20 [9] typed"
    "code_matches demo_auth 20 [9] ''000000''"
    "map_of (au_sessions demo_waiting) (token_hash demo_auth (hex_of_bytes [3])) = None"
    using demo_parked demo_matches by (simp_all add: demo_waiting_def demo_challenge_def demo_user_def)
  from guesses_sent_at_once_are_all_compared [OF this] show ?thesis by simp
qed

end
