(* ===== verification/Step_Up.thy ===== *)
theory Step_Up
  imports Sign_In_Protocol
begin

text \<open>
  What a stolen session can do to the second factor, what precedes an action that can not be
  undone, what a policy guarantees to the owner who writes it, and what ending a member's
  sessions achieves: over the runs of \<open>Sign_In_Protocol\<close>.
\<close>

section \<open>The second factor of a person\<close>

definition factor :: "auth_db \<Rightarrow> uuid \<Rightarrow> (bytes option \<times> time option) option" where
  "factor d user = map_option (\<lambda>u. (u_totp_secret u, u_totp_enabled_at u)) (map_of (au_users d) user)"

lemma factor_cong: "au_users d' = au_users d \<Longrightarrow> factor d' = factor d"
  by (simp add: factor_def fun_eq_iff)

lemma act_factor:
  assumes "factor d user = Some (Some secret, Some t)"
    and "\<And>typed. a = Disable typed \<Longrightarrow> \<not> code_matches env now secret typed"
  shows "factor (fst (act env d now c h a)) user = Some (Some secret, Some t)"
  using assms
  unfolding act_def totp_verify_def totp_setup_def totp_confirm_def totp_disable_def put_policy_def
    revoke_session_def revoke_member_sessions_def set_user_def Let_def factor_def
  by (cases a) (auto simp: table_simps split: option.splits sum.splits bool.splits)

lemma serve_factor:
  assumes "factor d user = Some (Some secret, Some t)"
    and "\<And>h typed. req = Act h (Disable typed) \<Longrightarrow> \<not> code_matches env now secret typed"
  shows "factor (serve_auth env d (now, req)) user = Some (Some secret, Some t)"
proof (cases req)
  case (Login h r fresh random)
  then show ?thesis
    using assms(1) factor_cong [OF login_frame(1)] by (simp add: serve_auth_def answer_def)
next
  case (Login_code ch typed random)
  then show ?thesis
    using assms(1) factor_cong [OF login_totp_frame(1)] by (simp add: serve_auth_def answer_def)
next
  case (Act h a)
  obtain d1 c where au: "authenticate env d now h = (d1, c)"
    by (cases "authenticate env d now h")
  then have "factor d1 = factor d"
    using authenticate_frame(3) [of env d now h] by (auto simp: other_tables_def intro: factor_cong)
  then show ?thesis
    using au Act assms act_factor [of d1 user secret t a env now]
    by (cases c) (auto simp: serve_auth_def answer_def)
qed

text \<open>
  C32. A second factor that is enabled is only removed with a code: over any run of requests,
  by anybody and with any stolen session, in which no request to disable a factor carries a
  code that matches this secret, the secret and the time of its enabling stay as they are, so
  no setup replaces it and no confirmation renews it.
\<close>

theorem factor_survives_without_its_code:
  assumes "factor d user = Some (Some secret, Some t)"
    and "\<forall>(now, req) \<in> set evs. \<forall>h typed. req = Act h (Disable typed) \<longrightarrow> \<not> code_matches env now secret typed"
  shows "factor (run_auth env d evs) user = Some (Some secret, Some t)"
  using assms
proof (induction evs arbitrary: d)
  case (Cons ev evs)
  obtain now req where ev: "ev = (now, req)" by (cases ev)
  have "factor (serve_auth env d ev) user = Some (Some secret, Some t)"
    using Cons.prems ev serve_factor [of d user secret t req env now] by auto
  then show ?case
    using Cons.IH Cons.prems(2) by simp
qed simp

lemma factor_survives_without_its_code_witness:
  "factor (run_auth demo_auth demo_server (demo_run @ [(30, Act demo_bearer (Disable ''111111'')),
     (31, Act demo_bearer (Setup [8]))])) 7 = Some (Some [9], Some 2)"
  by (rule factor_survives_without_its_code)
    (auto simp: factor_def demo_server_def demo_user_def demo_run_def demo_matches)

section \<open>Fresh codes\<close>

definition verified_by :: "auth_env \<Rightarrow> auth_db \<Rightarrow> auth_event \<Rightarrow> bytes \<Rightarrow> time \<Rightarrow> bool" where
  "verified_by env d ev digest t \<longleftrightarrow>
     (\<exists>h typed d1 c u secret. ev = (t, Act h (Verify typed)) \<and> token_hash_from_headers env h = Some digest
        \<and> authenticate env d t h = (d1, Inr c) \<and> map_of (au_users d) (user_id c) = Some u
        \<and> u_totp_enabled_at u \<noteq> None \<and> u_totp_secret u = Some secret \<and> code_matches env t secret typed)"

lemma totp_verify_cases:
  "totp_verify env d now c h typed = (d', r) \<Longrightarrow>
   au_sessions d' = au_sessions d
   \<or> (\<exists>digest s u secret. token_hash_from_headers env h = Some digest \<and> map_of (au_sessions d) digest = Some s
        \<and> map_of (au_users d) (user_id c) = Some u \<and> u_totp_enabled_at u \<noteq> None \<and> u_totp_secret u = Some secret
        \<and> code_matches env now secret typed
        \<and> au_sessions d' = AList.update digest (s\<lparr>s_totp_verified_at := Some now\<rparr>) (au_sessions d))"
  unfolding totp_verify_def by (auto split: option.splits if_splits)

lemma act_mark:
  assumes "has_mark (fst (act env d now c h a)) digest t" and "\<And>typed. a \<noteq> Verify typed"
  shows "has_mark d digest t"
  using assms
  unfolding act_def totp_setup_def totp_confirm_def totp_disable_def put_policy_def
    revoke_session_def revoke_member_sessions_def set_user_def Let_def has_mark_def
  by (cases a) (auto dest!: in_update in_delete
      split: option.splits sum.splits bool.splits if_splits prod.splits)

lemma serve_mark:
  assumes "has_mark (serve_auth env d ev) digest t"
  shows "has_mark d digest t \<or> verified_by env d ev digest t"
proof -
  obtain now req where ev: "ev = (now, req)" by (cases ev)
  show ?thesis
  proof (cases req)
    case (Login h r fresh random)
    obtain d' a where result: "login env d now h r fresh random = (d', a)"
      by (cases "login env d now h r fresh random")
    then show ?thesis
      using assms login_cases [OF result] ev Login
      by (auto simp: serve_auth_def answer_def has_mark_def)
  next
    case (Login_code ch typed random)
    obtain d' a where result: "login_totp env d now ch typed random = (d', a)"
      by (cases "login_totp env d now ch typed random")
    then show ?thesis
      using assms login_totp_cases [OF result] ev Login_code
      by (auto simp: serve_auth_def answer_def has_mark_def)
  next
    case (Act h a)
    obtain d1 r where au: "authenticate env d now h = (d1, r)"
      by (cases "authenticate env d now h")
    then have before: "has_mark d1 digest t \<Longrightarrow> has_mark d digest t" and users: "au_users d1 = au_users d"
      using authenticate_frame(2,3) [of env d now h] by (auto simp: other_tables_def)
    show ?thesis
    proof (cases r)
      case (Inl e)
      then show ?thesis using assms au ev Act before by (auto simp: serve_auth_def answer_def)
    next
      case (Inr c)
      then have after: "has_mark (fst (act env d1 now c h a)) digest t"
        using assms au ev Act by (simp add: serve_auth_def answer_def)
      show ?thesis
      proof (cases "\<exists>typed. a = Verify typed")
        case False
        then show ?thesis using act_mark [OF after] before by blast
      next
        case True
        then obtain typed where a: "a = Verify typed" by blast
        obtain d2 x where verify: "totp_verify env d1 now c h typed = (d2, x)"
          by (cases "totp_verify env d1 now c h typed")
        then have mark: "has_mark d2 digest t" using after a by (simp add: act_def)
        from totp_verify_cases [OF verify] show ?thesis
        proof (elim disjE exE conjE)
          assume "au_sessions d2 = au_sessions d1"
          then show ?thesis using mark before by (simp add: has_mark_def)
        next
          fix dg s u secret
          assume *: "token_hash_from_headers env h = Some dg" "map_of (au_sessions d1) dg = Some s"
            "map_of (au_users d1) (user_id c) = Some u" "u_totp_enabled_at u \<noteq> None"
            "u_totp_secret u = Some secret" "code_matches env now secret typed"
            "au_sessions d2 = AList.update dg (s\<lparr>s_totp_verified_at := Some now\<rparr>) (au_sessions d1)"
          from mark obtain s' where s': "(digest, s') \<in> set (au_sessions d2)" "s_totp_verified_at s' = Some t"
            by (auto simp: has_mark_def)
          then consider "digest = dg" "t = now" | "has_mark d1 digest t"
            using *(7) by (auto simp: has_mark_def dest!: in_update)
          then show ?thesis
            using before * au ev Act a Inr users by cases (auto simp: verified_by_def)
        qed
      qed
    qed
  qed
qed

text \<open>The actions that ask for a fresh code where the organisation wants one.\<close>

fun sensitive :: "auth_action \<Rightarrow> bool" where
  "sensitive (Put_policy p) = True"
| "sensitive (Revoke_member u) = True"
| "sensitive _ = False"

lemma require_step_up_mark:
  assumes "require_step_up env d now c h = Inr ()" and "sensitive_actions_2fa (policy_of d (org_id c))"
  shows "\<exists>digest t. token_hash_from_headers env h = Some digest \<and> has_mark d digest t \<and> now < t + step_up_window"
  using assms by (auto simp: require_step_up_def has_mark_def
      split: sum.splits bool.splits option.splits if_splits dest: map_of_SomeD)

lemma act_sensitive:
  "snd (act env d now c h a) = Inr () \<Longrightarrow> sensitive a \<Longrightarrow> require_step_up env d now c h = Inr ()"
  by (cases a) (auto simp: act_def outcome_def put_policy_def revoke_member_sessions_def Let_def
      split: if_splits sum.splits)

lemma demo_server_tables:
  "au_users demo_server = [(7, demo_user)]" "au_sessions demo_server = []" "au_challenges demo_server = []"
  "au_members demo_server = [((3, 7), \<lparr>m_role = ''owner'', m_wrapped_ork = None, m_ork_generation = None\<rparr>)]"
  "au_security demo_server = [(3, Some demo_policy)]"
  by (simp_all add: demo_server_def)

definition demo_verified_run :: "auth_event list" where
  "demo_verified_run = demo_run @ [(30, Act demo_bearer (Verify ''000000''))]"

definition demo_verified :: session_row where
  "demo_verified = demo_session\<lparr>s_expires_at := 604830, s_last_seen_at := 30, s_totp_verified_at := Some 30\<rparr>"

lemma demo_tables:
  "au_members (run_auth demo_auth demo_server demo_run) = au_members demo_server"
  "au_security (run_auth demo_auth demo_server demo_run) = au_security demo_server"
  "au_users (run_auth demo_auth demo_server demo_run) = au_users demo_server"
  using login_frame [of demo_auth demo_server 10 "[]" demo_login 5 "[1]"]
  by (simp_all add: demo_run_def serve_auth_def answer_def login_totp_frame)

lemma demo_authenticated:
  assumes "au_members d = au_members demo_server" "au_users d = au_users demo_server"
    and "au_sessions d = [(text_bytes ''2a'', s)]" "s_user s = 7" "now < s_expires_at s"
  shows "authenticate demo_auth d now demo_bearer
    = (d\<lparr>au_sessions := [(text_bytes ''2a'', s\<lparr>s_expires_at := now + 604800, s_last_seen_at := now\<rparr>)]\<rparr>,
       Inr \<lparr>user_id = 7, org_id = 3, role = Owner\<rparr>)"
  using assms by (simp add: authenticate_def demo_header membership_of_def demo_server_tables demo_user_def
      parse_role_def session_ttl_def)

lemma demo_verified_tables:
  "au_sessions (run_auth demo_auth demo_server demo_verified_run) = [(text_bytes ''2a'', demo_verified)]"
  "au_members (run_auth demo_auth demo_server demo_verified_run) = au_members demo_server"
  "au_security (run_auth demo_auth demo_server demo_verified_run) = au_security demo_server"
  "au_users (run_auth demo_auth demo_server demo_verified_run) = au_users demo_server"
proof -
  let ?d = "run_auth demo_auth demo_server demo_run"
  have au: "authenticate demo_auth ?d 30 demo_bearer
    = (?d\<lparr>au_sessions := [(text_bytes ''2a'', demo_session\<lparr>s_expires_at := 30 + 604800, s_last_seen_at := 30\<rparr>)]\<rparr>,
       Inr \<lparr>user_id = 7, org_id = 3, role = Owner\<rparr>)"
    by (rule demo_authenticated) (simp_all add: demo_tables demo_run_session demo_session_def)
  have run: "run_auth demo_auth demo_server demo_verified_run = serve_auth demo_auth ?d (30, Act demo_bearer (Verify ''000000''))"
    by (simp add: demo_verified_run_def)
  show "au_sessions (run_auth demo_auth demo_server demo_verified_run) = [(text_bytes ''2a'', demo_verified)]"
    "au_members (run_auth demo_auth demo_server demo_verified_run) = au_members demo_server"
    "au_security (run_auth demo_auth demo_server demo_verified_run) = au_security demo_server"
    "au_users (run_auth demo_auth demo_server demo_verified_run) = au_users demo_server"
    unfolding run serve_auth_def answer_def
    by (simp_all add: au act_def totp_verify_def demo_tables demo_matches demo_header demo_user_def demo_server_tables
        demo_verified_def)
qed

lemma demo_step_up:
  assumes "now < 630"
  shows "authenticate demo_auth (run_auth demo_auth demo_server demo_verified_run) now demo_bearer
    = ((run_auth demo_auth demo_server demo_verified_run)\<lparr>au_sessions :=
         [(text_bytes ''2a'', demo_verified\<lparr>s_expires_at := now + 604800, s_last_seen_at := now\<rparr>)]\<rparr>,
       Inr \<lparr>user_id = 7, org_id = 3, role = Owner\<rparr>)"
  using assms
  by (intro demo_authenticated) (simp_all add: demo_verified_tables demo_verified_def demo_session_def)

lemma demo_policy_read: "policy_of (run_auth demo_auth demo_server demo_verified_run) 3 = demo_policy"
  by (simp add: policy_of_def demo_verified_tables from_json_def demo_server_tables)

lemma demo_put:
  "snd (answer demo_auth (run_auth demo_auth demo_server demo_verified_run) (40, Act demo_bearer (Put_policy default_policy)))
   = Inr ()"
  by (simp add: answer_def demo_step_up act_def outcome_def put_policy_def require_step_up_def caller_enrolled_def
      policy_of_def from_json_def demo_verified_tables demo_server_tables demo_user_def demo_policy_def default_policy_def
      demo_header demo_verified_def step_up_window_def validate_policy_def admits_def)

section \<open>The policy an owner writes\<close>

lemma put_policy_cases:
  "put_policy env d now c h p = (d', r) \<Longrightarrow>
   (\<exists>e. r = Inl e) \<and> d' = d
   \<or> r = Inr p \<and> role c = Owner \<and> require_step_up env d now c h = Inr () \<and> validate_policy p = Inr ()
     \<and> admits p (client_ip h) Owner \<and> (sensitive_actions_2fa p \<longrightarrow> caller_enrolled d c = Inr True)
     \<and> d' = audit_by c ''org.security_changed'' None
          (d\<lparr>au_security := AList.update (org_id c) (Some p) (au_security d)\<rparr>)"
  unfolding put_policy_def by (auto split: if_splits sum.splits bool.splits)

definition well_formed_policy :: "policy \<Rightarrow> bool" where
  "well_formed_policy p \<longleftrightarrow>
     second_factor p \<in> {''off'', ''new_device'', ''always''} \<and> (\<forall>e \<in> set (ip_allowlist p). parse_cidr e \<noteq> None)"

lemma validate_policy_ok: "validate_policy p = Inr u \<longleftrightarrow> well_formed_policy p"
proof (cases "List.find (\<lambda>e. parse_cidr e = None) (ip_allowlist p)")
  case None
  then have "\<forall>e \<in> set (ip_allowlist p). parse_cidr e \<noteq> None"
    by (auto simp: find_None_iff)
  then show ?thesis using None by (simp add: validate_policy_def well_formed_policy_def)
next
  case (Some e)
  then have "e \<in> set (ip_allowlist p)" "parse_cidr e = None"
    by (auto simp only: find_Some_iff nth_mem)
  then have "\<not> well_formed_policy p"
    unfolding well_formed_policy_def by blast
  then show ?thesis using Some by (simp add: validate_policy_def)
qed

definition well_formed_policies :: "auth_db \<Rightarrow> bool" where
  "well_formed_policies d \<longleftrightarrow> (\<forall>org p. (org, Some p) \<in> set (au_security d) \<longrightarrow> well_formed_policy p)"

lemma act_policies:
  assumes "well_formed_policies d"
  shows "well_formed_policies (fst (act env d now c h a))"
proof (cases "\<exists>p. a = Put_policy p")
  case True
  then obtain p where a: "a = Put_policy p" by blast
  obtain d' r where put: "put_policy env d now c h p = (d', r)"
    by (cases "put_policy env d now c h p")
  show ?thesis
    using put_policy_cases [OF put] assms put
    by (auto simp: a act_def well_formed_policies_def validate_policy_ok dest!: in_update)
next
  case False
  then have "au_security (fst (act env d now c h a)) = au_security d"
    unfolding act_def totp_verify_def totp_setup_def totp_confirm_def totp_disable_def
      revoke_session_def revoke_member_sessions_def set_user_def Let_def
    by (auto split: auth_action.split option.split sum.split bool.split)
  then show ?thesis using assms by (simp add: well_formed_policies_def)
qed

lemma serve_policies:
  assumes "well_formed_policies d"
  shows "well_formed_policies (serve_auth env d ev)"
proof -
  obtain now req where ev: "ev = (now, req)" by (cases ev)
  have same: "au_security d' = au_security d \<Longrightarrow> well_formed_policies d'" for d'
    using assms by (simp add: well_formed_policies_def)
  show ?thesis
  proof (cases req)
    case (Act h a)
    obtain d1 r where au: "authenticate env d now h = (d1, r)"
      by (cases "authenticate env d now h")
    then have "well_formed_policies d1"
      using authenticate_frame(3) [of env d now h] by (auto simp: other_tables_def intro: same)
    then show ?thesis
      using au ev Act act_policies by (cases r) (auto simp: serve_auth_def answer_def)
  qed (auto simp: serve_auth_def answer_def ev login_frame login_totp_frame intro: same)
qed

text \<open>
  A policy that was accepted works and does not lock its writer out: it comes from an
  owner, every entry of its list parses and its second factor is one of the three words,
  the address it was written from is admitted for an owner at the next sign-in, and if
  it asks for fresh codes its writer can give them; a refused request leaves the policies
  alone, and every policy on the server stays well-formed over any run.
\<close>

theorem policies_never_lock_out_their_writer:
  assumes "answer env d (now, Act h (Put_policy p)) = (d', r)" and "well_formed_policies d"
  shows "(r = Inr () \<longrightarrow> (\<exists>d1 c. authenticate env d now h = (d1, Inr c) \<and> role c = Owner
        \<and> policy_of d' (org_id c) = p \<and> well_formed_policy p \<and> admits p (client_ip h) Owner
        \<and> (sensitive_actions_2fa p \<longrightarrow> caller_enrolled d' c = Inr True)
        \<and> (\<forall>org. org \<noteq> org_id c \<longrightarrow> policy_of d' org = policy_of d org)))
    \<and> (r \<noteq> Inr () \<longrightarrow> au_security d' = au_security d)
    \<and> well_formed_policies (run_auth env d' evs)"
proof (intro conjI impI)
  obtain d1 x where au: "authenticate env d now h = (d1, x)"
    by (cases "authenticate env d now h")
  then have tables: "au_security d1 = au_security d" "au_users d1 = au_users d"
    using authenticate_frame(3) [of env d now h] by (auto simp: other_tables_def)
  show "\<exists>d1 c. authenticate env d now h = (d1, Inr c) \<and> role c = Owner
      \<and> policy_of d' (org_id c) = p \<and> well_formed_policy p \<and> admits p (client_ip h) Owner
      \<and> (sensitive_actions_2fa p \<longrightarrow> caller_enrolled d' c = Inr True)
      \<and> (\<forall>org. org \<noteq> org_id c \<longrightarrow> policy_of d' org = policy_of d org)" if "r = Inr ()"
  proof -
    from that assms(1) au obtain c where c: "x = Inr c" and put: "outcome (put_policy env d1 now c h p) = (d', Inr ())"
      by (cases x) (auto simp: answer_def act_def)
    obtain d2 y where result: "put_policy env d1 now c h p = (d2, y)"
      by (cases "put_policy env d1 now c h p")
    have "d' = d2" "y \<noteq> Inl e" for e
      using put result by (auto simp: outcome_def)
    then show ?thesis
      using put_policy_cases [OF result] au c tables
      by (auto simp: policy_of_def from_json_def table_simps validate_policy_ok caller_enrolled_def)
  qed
  show "au_security d' = au_security d" if "r \<noteq> Inr ()"
  proof (cases x)
    case (Inr c)
    obtain d2 y where result: "put_policy env d1 now c h p = (d2, y)"
      by (cases "put_policy env d1 now c h p")
    then show ?thesis
      using put_policy_cases [OF result] that assms(1) au Inr tables
      by (auto simp: answer_def act_def outcome_def)
  qed (use assms(1) au tables in \<open>auto simp: answer_def\<close>)
  have "well_formed_policies d'"
    using serve_policies [OF assms(2)] assms(1) by (metis fst_conv serve_auth_def)
  then show "well_formed_policies (run_auth env d' evs)"
    using serve_policies by (intro auth_events.kept [where I = well_formed_policies])
qed

lemma policies_never_lock_out_their_writer_witness:
  "well_formed_policies (run_auth demo_auth (fst (answer demo_auth (run_auth demo_auth demo_server demo_verified_run)
     (40, Act demo_bearer (Put_policy default_policy)))) [])
   \<and> snd (answer demo_auth (run_auth demo_auth demo_server demo_verified_run)
     (40, Act demo_bearer (Put_policy default_policy))) = Inr ()"
proof -
  have "well_formed_policies (run_auth demo_auth demo_server demo_verified_run)"
    by (simp add: well_formed_policies_def demo_verified_tables demo_server_tables demo_policy_def default_policy_def
        well_formed_policy_def)
  then show ?thesis
    using policies_never_lock_out_their_writer [where env = demo_auth and evs = "[]" and now = 40
        and d = "run_auth demo_auth demo_server demo_verified_run" and h = demo_bearer and p = default_policy,
        OF prod.collapse [symmetric]] demo_put by simp
qed

section \<open>Sessions that were ended\<close>

lemma revoke_member_ends_sessions:
  assumes "revoke_member_sessions env d now c h user = (d', Inr n)" and "in_org d (org_id c) user"
  shows "\<not> has_session d' digest user"
  using assms by (auto simp: revoke_member_sessions_def has_session_def Let_def split: if_splits sum.splits)

lemma authenticated_has_session:
  "authenticate env d now h = (d', Inr c) \<Longrightarrow> \<exists>digest. has_session d digest (user_id c)"
  using authenticate_cases [of env d now h d' "Inr c"] map_of_SomeD unfolding has_session_def by fastforce

text \<open>
  A member whose sessions an owner or an admin ended is out: no token authenticates as
  them any more, at any time and after any run of requests, until an event of that run signs
  them in again; and a request that is refused ends nobody's session.
\<close>

theorem revoked_members_stay_out:
  assumes "authenticate env d now h = (d1, Inr c)" and "in_org d (org_id c) user"
    and "answer env d (now, Act h (Revoke_member user)) = (d', Inr ())"
    and "\<not> at_some_event env d' evs (\<lambda>_ d'' ev. \<exists>digest. signed_in_by env d'' ev digest user)"
  shows "manages c \<and> (\<forall>later h' d'' c'. authenticate env (run_auth env d' evs) later h' = (d'', Inr c') \<longrightarrow> user_id c' \<noteq> user)"
proof (intro conjI allI impI notI)
  have act: "act env d1 now c h (Revoke_member user) = (d', Inr ())"
    using assms(1,3) by (simp add: answer_def)
  obtain n where revoked: "revoke_member_sessions env d1 now c h user = (d', Inr n)"
    using act by (cases "revoke_member_sessions env d1 now c h user"; cases "snd (revoke_member_sessions env d1 now c h user)")
      (auto simp: act_def outcome_def)
  then show "manages c"
    by (auto simp: revoke_member_sessions_def split: if_splits)
  have "in_org d1 (org_id c) user"
    using assms(2) authenticate_frame(3) [of env d now h] assms(1) by (simp add: in_org_def other_tables_def)
  then have none: "\<not> has_session d' digest user" for digest
    using revoke_member_ends_sessions [OF revoked] by blast
  fix later h' d'' c'
  assume "authenticate env (run_auth env d' evs) later h' = (d'', Inr c')" "user_id c' = user"
  then obtain digest where "has_session (run_auth env d' evs) digest user"
    using authenticated_has_session by blast
  then have "at_some_event env d' evs (\<lambda>_ d'' ev. signed_in_by env d'' ev digest user)"
    using none run_backwards [where K = "\<lambda>d. has_session d digest user"
        and P = "\<lambda>d ev. signed_in_by env d ev digest user", OF serve_session_user] by blast
  then show False
    using assms(4) by (auto simp: at_some_event_def)
qed

lemma demo_revoked:
  "snd (answer demo_auth (run_auth demo_auth demo_server demo_verified_run) (40, Act demo_bearer (Revoke_member 7)))
   = Inr ()"
  by (simp add: answer_def demo_step_up act_def outcome_def revoke_member_sessions_def require_step_up_def
      caller_enrolled_def policy_of_def from_json_def demo_verified_tables demo_server_tables demo_user_def demo_policy_def
      default_policy_def demo_header demo_verified_def step_up_window_def manages_def Let_def)

lemma revoked_members_stay_out_witness:
  "\<forall>x. authenticate demo_auth (fst (answer demo_auth (run_auth demo_auth demo_server demo_verified_run)
     (40, Act demo_bearer (Revoke_member 7)))) 41 demo_bearer
   \<noteq> (x, Inr \<lparr>user_id = 7, org_id = 3, role = Owner\<rparr>)"
proof (intro allI notI)
  let ?d = "fst (answer demo_auth (run_auth demo_auth demo_server demo_verified_run) (40, Act demo_bearer (Revoke_member 7)))"
  fix x
  assume late: "authenticate demo_auth ?d 41 demo_bearer = (x, Inr \<lparr>user_id = 7, org_id = 3, role = Owner\<rparr>)"
  have member: "in_org (run_auth demo_auth demo_server demo_verified_run) (org_id \<lparr>user_id = 7, org_id = 3, role = Owner\<rparr>) 7"
    by (simp add: in_org_def demo_verified_tables demo_server_tables)
  have revoked: "answer demo_auth (run_auth demo_auth demo_server demo_verified_run) (40, Act demo_bearer (Revoke_member 7))
      = (?d, Inr ())"
    using demo_revoked by (simp add: prod_eq_iff)
  have "\<not> at_some_event demo_auth ?d [] P" for P
    by (simp add: at_some_event_def)
  then show False
    using revoked_members_stay_out [OF demo_step_up member revoked, of "[]"] late by force
qed

section \<open>Enrolling an authenticator\<close>

lemma base32_never_otpauth: "\<not> prefix otpauth (lower (base32_encode bs))"
proof
  assume "prefix otpauth (lower (base32_encode bs))"
  then have "CHR '':'' \<in> set (lower (base32_encode bs))"
    by (auto simp: prefix_def otpauth_def)
  then obtain x where x: "x \<in> set (base32_encode bs)" "to_lower x = CHR '':''"
    by (auto simp: lower_def)
  have "is_alnum x" by (rule base32_encode_safe [OF x(1)])
  moreover have "is_alnum x \<Longrightarrow> is_alnum (to_lower x)"
    by (auto simp: is_alnum_def to_lower_def is_upper_def is_lower_def is_digit_def)
  ultimately show False
    using x(2) by (simp add: is_alnum_def is_digit_def is_upper_def is_lower_def)
qed

lemma bare_secret_reads_back:
  assumes "bs \<noteq> []"
  shows "totp_parse (base32_encode bs) = Inr (server_totp bs None None)"
proof -
  have "list_all graphic (base32_encode bs)" by (rule parts_graphic)
  then have "trim (base32_encode bs) = base32_encode bs"
    by (intro trim_graphic) (simp add: list_all_iff)
  moreover have "base32_encode bs \<noteq> []"
    using base32_roundtrip [OF assms] by (auto simp: base32_decode_def)
  ultimately show ?thesis
    using base32_roundtrip [OF assms] base32_never_otpauth
    by (simp add: totp_parse_def Let_def from_secret_def server_totp_def)
qed

lemma shown_code_matches: "code_matches env now secret (code_at (mac env) (server_totp secret l i) now)"
proof -
  let ?c = "code_at (mac env) (server_totp secret l i) now"
  have digits: "list_all is_digit ?c" by (rule code_digits)
  then have "trim ?c = ?c"
    by (intro trim_graphic) (auto simp: list_all_iff is_digit_def graphic_def)
  moreover have "length ?c = 6"
    using code_length [of "server_totp secret l i"] by (simp add: server_totp_def)
  moreover have "?c = code_at (mac env) (server_totp secret None None) now"
    by (simp add: code_at_def server_totp_def)
  ultimately show ?thesis
    using digits by (simp add: code_matches_def Let_def)
qed

text \<open>
  Enrolling works from end to end: what the setup answers with, the link behind the QR
  code or the secret typed by hand, is read by the shared generator as the secret that was
  stored, the code that this generator shows confirms the factor, and from then on the
  organisation's "always" asks this person for a code.
\<close>

theorem enrolment_is_read_and_confirmed:
  assumes "map_of (au_users d) (user_id c) = Some u" "u_totp_enabled_at u = None" "secret \<noteq> []"
    and "u_email u \<noteq> []" "CHR '':'' \<notin> set (u_email u)" "utf8_ok (text_bytes (u_email u))"
    and "second_factor p = ''always''"
  shows "\<exists>d' uri shown t t'. totp_setup d c secret = (d', Inr (uri, shown))
    \<and> totp_parse uri = Inr t \<and> totp_parse shown = Inr t'
    \<and> code_at (mac env) t now = code_at (mac env) t' now
    \<and> snd (totp_confirm env d' now c (code_at (mac env) t now)) = Inr True
    \<and> (\<exists>u'. map_of (au_users (fst (totp_confirm env d' now c (code_at (mac env) t now)))) (user_id c) = Some u'
        \<and> u_password_hash u' = u_password_hash u
        \<and> second_factor_required p (enrolled u') known)"
proof -
  let ?d = "set_user (user_id c) (u\<lparr>u_totp_secret := Some secret\<rparr>) d"
  let ?t = "server_totp secret (Some (u_email u)) (Some ''Fury'')"
  have stored: "totp_setup d c secret = (?d, Inr (to_uri ?t, base32_encode secret))"
    using assms(1,2) by (simp add: totp_setup_def server_base32_shared)
  have scanned: "totp_parse (to_uri ?t) = Inr ?t"
    using assms(3-6) by (intro link_reads_back) (auto simp: server_totp_def text_bytes_def utf8_ok.simps)
  have same: "code_at (mac env) ?t now = code_at (mac env) (server_totp secret None None) now"
    by (simp add: code_at_def server_totp_def)
  have confirm: "totp_confirm env ?d now c (code_at (mac env) ?t now)
      = (audit_by c ''user.totp_enabled'' (Some (user_id c))
          (set_user (user_id c) (u\<lparr>u_totp_secret := Some secret, u_totp_enabled_at := Some now\<rparr>) ?d), Inr True)"
    using assms(2) by (simp add: totp_confirm_def set_user_def table_simps shown_code_matches)
  show ?thesis
    using stored scanned bare_secret_reads_back [OF assms(3)] same confirm assms(7)
    by (auto simp: set_user_def table_simps second_factor_required_def enrolled_def)
qed

lemma enrolment_is_read_and_confirmed_witness:
  "\<exists>d' uri shown. totp_setup (demo_server\<lparr>au_users := [(7, demo_user\<lparr>u_totp_enabled_at := None\<rparr>)]\<rparr>)
       \<lparr>user_id = 7, org_id = 3, role = Owner\<rparr> [5, 6] = (d', Inr (uri, shown))
     \<and> (\<exists>t. totp_parse uri = Inr t)"
proof -
  have "\<exists>d' uri shown t t'. totp_setup (demo_server\<lparr>au_users := [(7, demo_user\<lparr>u_totp_enabled_at := None\<rparr>)]\<rparr>)
       \<lparr>user_id = 7, org_id = 3, role = Owner\<rparr> [5, 6] = (d', Inr (uri, shown))
    \<and> totp_parse uri = Inr t \<and> totp_parse shown = Inr t'
    \<and> code_at (mac demo_auth) t 50 = code_at (mac demo_auth) t' 50
    \<and> snd (totp_confirm demo_auth d' 50 \<lparr>user_id = 7, org_id = 3, role = Owner\<rparr> (code_at (mac demo_auth) t 50)) = Inr True
    \<and> (\<exists>u'. map_of (au_users (fst (totp_confirm demo_auth d' 50 \<lparr>user_id = 7, org_id = 3, role = Owner\<rparr>
          (code_at (mac demo_auth) t 50)))) (user_id \<lparr>user_id = 7, org_id = 3, role = Owner\<rparr>) = Some u'
        \<and> u_password_hash u' = u_password_hash (demo_user\<lparr>u_totp_enabled_at := None\<rparr>)
        \<and> second_factor_required demo_policy (enrolled u') False)"
    by (rule enrolment_is_read_and_confirmed) (simp_all add: demo_user_def demo_policy_def text_bytes_def utf8_ok.simps)
  then show ?thesis by blast
qed

end
