(* ===== verification/Enrolment.thy ===== *)
theory Enrolment
  imports Step_Up Guard Keys Profile_Bundle
begin

text \<open>
  How an account comes into existence: invitations and their codes (\<open>server/src/enroll.rs\<close>),
  the confirmation of an address by a letter, the completion of an enrolment and the open
  sign-up (\<open>server/src/api.rs\<close>). The tables of \<open>Sign_In\<close> and those of \<open>Server_Db\<close> meet here in one
  record; the columns the two share (the address of a user, the role of a member) are kept in
  the former and \<open>view\<close> shows them to the handlers of the latter. Letters, base64, SHA-256 and
  what is drawn at random are arguments. A handler that runs in a transaction leaves the tables
  alone on every error.
\<close>

section \<open>The tables of a team\<close>

record enrollment_row =
  en_code_hash :: bytes
  en_email :: str
  en_org :: "uuid option"
  en_org_name :: "str option"
  en_role :: str
  en_expires_at :: time
  en_used_at :: "time option"
  en_email_code_hash :: "bytes option"
  en_email_code_expires_at :: "time option"
  en_email_code_attempts :: nat
  en_email_code_sent_at :: "time option"
  en_email_codes_sent :: nat
  en_email_proof_hash :: "bytes option"

record credential_row =
  cr_profile :: uuid
  cr_label :: str
  cr_site :: str
  cr_payload_enc :: str
  cr_wrapped_dek :: str

record team_db =
  auth :: auth_db
  store :: db
  organisations :: "(uuid \<times> str) list"
  enrollments :: "(uuid \<times> enrollment_row) list"
  credentials :: "(uuid \<times> credential_row) list"

record team_env =
  auth_part :: auth_env
  base64 :: "str \<Rightarrow> bytes option"
  hash_password :: "str \<Rightarrow> bytes \<Rightarrow> str"
  mailer :: bool
  open_signup :: bool
  max_orgs :: "nat option"

definition members :: "team_db \<Rightarrow> ((uuid \<times> uuid) \<times> member_row) list" where
  "members d = au_members (auth d)"

definition put_members :: "((uuid \<times> uuid) \<times> member_row) list \<Rightarrow> team_db \<Rightarrow> team_db" where
  "put_members ms d = d\<lparr>auth := (auth d)\<lparr>au_members := ms\<rparr>\<rparr>"

definition view :: "team_db \<Rightarrow> db" where
  "view d = (store d)\<lparr>users := map (\<lambda>(i, u). (i, u_email u)) (au_users (auth d)),
     org_members := map (\<lambda>(k, m). (k, m_role m)) (members d)\<rparr>"

text \<open>What each member is, as the handlers see it.\<close>

definition roles_of :: "team_db \<Rightarrow> uuid \<times> uuid \<Rightarrow> str option" where
  "roles_of d k = map_option m_role (map_of (members d) k)"

lemma view_fields [simp]:
  "projects (view d) = projects (store d)" "access_roles (view d) = access_roles (store d)"
  "project_grants (view d) = project_grants (store d)" "map_of (org_members (view d)) k = roles_of d k"
proof -
  have "map_of (map (\<lambda>(k, m). (k, m_role m)) t) k = map_option m_role (map_of t k)" for t :: "((uuid \<times> uuid) \<times> member_row) list"
    by (induction t) auto
  then show "map_of (org_members (view d)) k = roles_of d k" by (simp add: view_def roles_of_def)
qed (simp_all add: view_def)

definition team_audit :: "caller \<Rightarrow> str \<Rightarrow> uuid option \<Rightarrow> team_db \<Rightarrow> team_db" where
  "team_audit c action target d = d\<lparr>auth := audit_by c action target (auth d)\<rparr>"

text \<open>A transaction: the new tables, or an error and the tables as they were.\<close>

definition commit :: "team_db \<Rightarrow> (team_db \<times> 'a) api_result \<Rightarrow> team_db \<times> 'a api_result" where
  "commit d r = (case r of Inl e \<Rightarrow> (d, Inl e) | Inr (d', x) \<Rightarrow> (d', Inr x))"

lemma commit_Inr: "commit d r = (d', Inr x) \<longleftrightarrow> r = Inr (d', x)"
  by (auto simp: commit_def split: sum.split)

lemma commit_Inl: "commit d r = (d', Inl e) \<longleftrightarrow> r = Inl e \<and> d' = d"
  by (auto simp: commit_def split: sum.split)

text \<open>What holds of the tables before a transaction and of what it commits holds after it.\<close>

lemma commit_rule:
  assumes "P d" and "\<And>d' x. r = Inr (d', x) \<Longrightarrow> P d'"
  shows "P (fst (commit d r))"
  using assms by (auto simp: commit_def split: sum.split)

lemma commit_error: "snd (commit d r) = Inl e \<Longrightarrow> fst (commit d r) = d"
  by (auto simp: commit_def split: sum.splits)

text \<open>Hexadecimal in a request, named in the refusal.\<close>

definition server_unhex :: "str \<Rightarrow> str \<Rightarrow> bytes api_result" where
  "server_unhex what v =
     (if length v mod 2 \<noteq> 0 \<or> \<not> list_all is_hexdigit v then Inl (BadRequest (what @ '' is not hex''))
      else (case unhex_pairs v of None \<Rightarrow> Inl (BadRequest (what @ '' is not hex'')) | Some b \<Rightarrow> Inr b))"

section \<open>Codes\<close>

definition crockford :: str where
  "crockford = ''0123456789abcdefghjkmnpqrstvwxyz''"

definition push_code_char :: "str \<Rightarrow> char \<Rightarrow> str" where
  "push_code_char out c = (if length out mod 5 = 4 \<and> out \<noteq> [] then out @ ''-'' else out) @ [c]"

text \<open>The inner loop of \<open>new_code\<close>, with the accumulator, the bits in it and what is written so far.\<close>

fun code_emit :: "u32 \<Rightarrow> nat \<Rightarrow> str \<Rightarrow> nat \<times> str" where
  "code_emit acc bits out =
     (if bits < 5 then (bits, out)
      else code_emit acc (bits - 5)
        (push_code_char out (crockford ! unat (drop_bit (bits - 5) acc AND 0x1f))))"

declare code_emit.simps [simp del]

fun code_loop :: "u32 \<Rightarrow> nat \<Rightarrow> str \<Rightarrow> bytes \<Rightarrow> str" where
  "code_loop acc bits out [] = out"
| "code_loop acc bits out (b # bs) =
     (let acc' = push_bit 8 acc OR ucast b
      in case code_emit acc' (bits + 8) out of (left, out') \<Rightarrow> code_loop acc' left out' bs)"

definition normalise_code :: "str \<Rightarrow> str" where
  "normalise_code raw = map to_lower (List.filter is_alnum raw)"

definition hash_code :: "auth_env \<Rightarrow> str \<Rightarrow> bytes" where
  "hash_code env raw = token_hash env (normalise_code raw)"

definition new_code :: "auth_env \<Rightarrow> bytes \<Rightarrow> str \<times> bytes" where
  "new_code env random = (let out = code_loop 0 0 [] random in (out, hash_code env out))"

definition enrolment_ttl :: time where
  "enrolment_ttl = 172800"

datatype org_target = Existing uuid | New str

text \<open>The hash of a code is unique: a second row with the same one fails the insert.\<close>

definition issue ::
    "auth_env \<Rightarrow> team_db \<Rightarrow> time \<Rightarrow> str \<Rightarrow> org_target \<Rightarrow> str \<Rightarrow> uuid \<Rightarrow> bytes \<Rightarrow> (team_db \<times> str) api_result" where
  "issue env d now email target role_name fresh random =
     (case new_code env random of (raw, digest) \<Rightarrow>
        if parse_role role_name = None \<or> map_of (enrollments d) fresh \<noteq> None
           \<or> list_ex (\<lambda>(_, e). en_code_hash e = digest) (enrollments d) then Inl Internal
        else Inr (d\<lparr>enrollments := (fresh,
            \<lparr>en_code_hash = digest, en_email = email,
             en_org = (case target of Existing i \<Rightarrow> Some i | New _ \<Rightarrow> None),
             en_org_name = (case target of Existing _ \<Rightarrow> None | New n \<Rightarrow> Some n),
             en_role = role_name, en_expires_at = now + enrolment_ttl, en_used_at = None,
             en_email_code_hash = None, en_email_code_expires_at = None, en_email_code_attempts = 0,
             en_email_code_sent_at = None, en_email_codes_sent = 0, en_email_proof_hash = None\<rparr>)
            # enrollments d\<rparr>, raw))"

text \<open>The \<open>invite\<close> command at the server's own shell, after its arguments are read.\<close>

definition cli_invite ::
    "auth_env \<Rightarrow> team_db \<Rightarrow> time \<Rightarrow> str \<Rightarrow> uuid option \<Rightarrow> str option \<Rightarrow> str option \<Rightarrow> uuid \<Rightarrow> bytes
     \<Rightarrow> team_db \<times> str api_result" where
  "cli_invite env d now email org oname role_opt fresh random =
     (if (case role_opt of None \<Rightarrow> False | Some r \<Rightarrow> parse_role r = None) then
        (d, Inl (BadRequest ''--role must be one of: owner, admin, manager, member''))
      else (case (case (org, oname) of
                    (Some i, None) \<Rightarrow> Inr (Existing i)
                  | (None, Some n) \<Rightarrow> Inr (New n)
                  | (None, None) \<Rightarrow> Inl (BadRequest ''give either --org or --org-id'')
                  | (Some _, Some _) \<Rightarrow> Inl (BadRequest ''--org and --org-id are mutually exclusive'')) of
              Inl e \<Rightarrow> (d, Inl e)
            | Inr target \<Rightarrow>
                (let r = (case role_opt of Some r \<Rightarrow> r
                   | None \<Rightarrow> (case target of New _ \<Rightarrow> ''owner'' | Existing _ \<Rightarrow> ''member''))
                 in if (case target of Existing _ \<Rightarrow> r = ''owner'' | New _ \<Rightarrow> False) then
                      (d, Inl (BadRequest ''an existing organisation already has an owner''))
                    else commit d (issue env d now email target r fresh random))))"

section \<open>Inviting\<close>

definition looks_like_email :: "str \<Rightarrow> bool" where
  "looks_like_email s \<longleftrightarrow> CHR 0x40 \<in> set s \<and> 3 \<le> length s"

definition create_invitation ::
    "auth_env \<Rightarrow> team_db \<Rightarrow> time \<Rightarrow> caller \<Rightarrow> str \<Rightarrow> str \<Rightarrow> uuid \<Rightarrow> bytes \<Rightarrow> team_db \<times> str api_result" where
  "create_invitation env d now c email_text role_name fresh random =
     commit d
       (and_then (demand (manages c) (Denied ManageAccess)) (\<lambda>_.
        and_then (case parse_role role_name of None \<Rightarrow> Inl (BadRequest ''unknown role'') | Some r \<Rightarrow> Inr r) (\<lambda>r.
        and_then (demand (r \<noteq> Owner)
          (BadRequest ''an organisation has one owner. Invite as admin for the same reach'')) (\<lambda>_.
        and_then (demand (\<not> (role c = Admin \<and> r = Admin)) (Denied ManageAccess)) (\<lambda>_.
        let email = trim email_text
        in and_then (demand (looks_like_email email) (BadRequest ''that is not an email address'')) (\<lambda>_.
           and_then (demand (\<not> list_ex (\<lambda>(i, u). u_email u = email \<and> in_org (auth d) (org_id c) i) (au_users (auth d)))
             (BadRequest (email @ '' is already in this team''))) (\<lambda>_.
           map_sum id (\<lambda>(d', raw). (team_audit c ''member.invite'' None d', raw))
             (issue env d now email (Existing (org_id c)) role_name fresh random))))))))"

section \<open>The letter\<close>

definition email_code_ttl :: time where "email_code_ttl = 900"
definition email_letters_max :: nat where "email_letters_max = 5"
definition email_letter_gap :: time where "email_letter_gap = 60"
definition email_attempts_max :: nat where "email_attempts_max = 5"

definition email_check_applies :: "team_env \<Rightarrow> str \<Rightarrow> bool" where
  "email_check_applies env role_name \<longleftrightarrow> mailer env \<and> role_name \<noteq> ''owner''"

text \<open>A UUID as it is shown: hexadecimal digits in groups of 8, 4, 4, 4 and 12.\<close>

definition uuid_text :: "uuid \<Rightarrow> str" where
  "uuid_text i =
     (let h = hex_digits 32 i
      in take 8 h @ ''-'' @ take 4 (drop 8 h) @ ''-'' @ take 4 (drop 12 h) @ ''-'' @ take 4 (drop 16 h)
         @ ''-'' @ drop 20 h)"

definition email_secret_hash :: "auth_env \<Rightarrow> uuid \<Rightarrow> str \<Rightarrow> bytes" where
  "email_secret_hash env enrollment secret = token_hash env (uuid_text enrollment @ '':'' @ secret)"

text \<open>The row of a code that was neither used nor expired.\<close>

definition open_invitation :: "auth_env \<Rightarrow> team_db \<Rightarrow> time \<Rightarrow> str \<Rightarrow> (uuid \<times> enrollment_row) option" where
  "open_invitation env d now raw =
     List.find (\<lambda>(_, e). en_code_hash e = hash_code env raw \<and> en_used_at e = None \<and> now < en_expires_at e)
       (enrollments d)"

definition put_enrollment :: "uuid \<Rightarrow> enrollment_row \<Rightarrow> team_db \<Rightarrow> team_db" where
  "put_enrollment i e d = d\<lparr>enrollments := AList.update i e (enrollments d)\<rparr>"

definition invitation_org_name :: "team_db \<Rightarrow> enrollment_row \<Rightarrow> str api_result" where
  "invitation_org_name d e =
     (case (en_org_name e, en_org e) of
        (Some n, _) \<Rightarrow> Inr n
      | (None, Some i) \<Rightarrow> (case map_of (organisations d) i of None \<Rightarrow> Inl Internal | Some n \<Rightarrow> Inr n)
      | (None, None) \<Rightarrow> Inr [])"

definition email_wait :: "time \<Rightarrow> enrollment_row \<Rightarrow> nat" where
  "email_wait now e = (case en_email_code_sent_at e of None \<Rightarrow> 0 | Some t \<Rightarrow> email_letter_gap - (now - t))"

definition enroll_email_send ::
    "team_env \<Rightarrow> team_db \<Rightarrow> time \<Rightarrow> str \<Rightarrow> nat \<Rightarrow> bool \<Rightarrow> team_db \<times> (bool \<times> nat) api_result" where
  "enroll_email_send env d now raw number letter_sent =
     commit d
       (and_then (demand (mailer env) (BadRequest ''this server does not confirm addresses by email'')) (\<lambda>_.
        case open_invitation (auth_part env) d now raw of
          None \<Rightarrow> Inl NotFound
        | Some (i, e) \<Rightarrow>
            and_then (demand (email_check_applies env (en_role e))
              (BadRequest ''this invitation is not confirmed by email'')) (\<lambda>_.
            if 0 < email_wait now e then Inr (d, False, email_wait now e)
            else
              and_then (demand (en_email_codes_sent e < email_letters_max)
                (BadRequest ''five letters have been sent for this invitation already'')) (\<lambda>_.
              let digits = pad_zeros 6 (show_nat number);
                  d' = put_enrollment i (e\<lparr>en_email_code_hash := Some (email_secret_hash (auth_part env) i digits),
                     en_email_code_expires_at := Some (now + email_code_ttl), en_email_code_attempts := 0,
                     en_email_code_sent_at := Some now, en_email_codes_sent := en_email_codes_sent e + 1,
                     en_email_proof_hash := None\<rparr>) d
              in and_then (invitation_org_name d e) (\<lambda>_.
                 and_then (demand letter_sent (BadRequest ''the server could not send the letter'')) (\<lambda>_.
                 Inr (d', True, email_letter_gap)))))))"

text \<open>
  A wrong answer is an error that still writes: the count is committed before the error is returned.
\<close>

definition enroll_email_verify ::
    "team_env \<Rightarrow> team_db \<Rightarrow> time \<Rightarrow> str \<Rightarrow> str \<Rightarrow> bytes \<Rightarrow> team_db \<times> str api_result" where
  "enroll_email_verify env d now raw typed random =
     (case open_invitation (auth_part env) d now raw of
        None \<Rightarrow> (d, Inl NotFound)
      | Some (i, e) \<Rightarrow>
          (case (en_email_code_hash e, en_email_code_expires_at e) of
             (Some stored, Some t) \<Rightarrow>
               if \<not> now < t then (d, Inl (BadRequest ''the code from the letter has expired; send another letter''))
               else if email_attempts_max \<le> en_email_code_attempts e then
                 (d, Inl (BadRequest ''too many wrong codes; send another letter''))
               else if email_secret_hash (auth_part env) i (List.filter is_digit typed) \<noteq> stored then
                 (put_enrollment i (e\<lparr>en_email_code_attempts := en_email_code_attempts e + 1\<rparr>) d,
                  Inl (BadRequest ''that is not the code from the letter''))
               else
                 (let proof = hex_of_bytes random
                  in (put_enrollment i (e\<lparr>en_email_proof_hash := Some (email_secret_hash (auth_part env) i proof),
                        en_email_code_hash := None\<rparr>) d, Inr proof))
           | _ \<Rightarrow> (d, Inl (BadRequest ''the code from the letter has expired; send another letter''))))"

section \<open>Completing an enrolment\<close>

definition peek_enrollment ::
    "team_env \<Rightarrow> team_db \<Rightarrow> time \<Rightarrow> str \<Rightarrow> (str \<times> str \<times> str \<times> bool \<times> bool) api_result" where
  "peek_enrollment env d now raw =
     (case open_invitation (auth_part env) d now raw of
        None \<Rightarrow> Inl NotFound
      | Some (i, e) \<Rightarrow>
          (case (en_org_name e, en_org e) of
             (None, None) \<Rightarrow> Inl NotFound
           | _ \<Rightarrow> and_then (invitation_org_name d e) (\<lambda>org.
               Inr (en_email e, org, en_role e, en_role e = ''owner'', email_check_applies env (en_role e)))))"

definition decoded :: "team_env \<Rightarrow> str \<Rightarrow> str \<Rightarrow> bytes api_result" where
  "decoded env what v =
     (case base64 env v of None \<Rightarrow> Inl (BadRequest (what @ '' is not base64'')) | Some b \<Rightarrow> Inr b)"

record enroll_request =
  eq_code :: str
  eq_password :: str
  eq_public_key :: str
  eq_wrapped_private_key :: str
  eq_kdf_salt :: str
  eq_wrapped_ork :: "str option"
  eq_machine_name :: str
  eq_email_proof :: "str option"

text \<open>What is drawn for a new account: its id, the id of an organisation, a salt and a token.\<close>

record draw =
  dr_user :: uuid
  dr_org :: uuid
  dr_salt :: bytes
  dr_token :: bytes

text \<open>The address of a user is unique without regard to case, as the column is CITEXT.\<close>

definition insert_user :: "uuid \<Rightarrow> user_row \<Rightarrow> str \<Rightarrow> team_db \<Rightarrow> team_db api_result" where
  "insert_user i u taken d =
     (if list_ex (\<lambda>(_, u'). eq_ignore_case (u_email u') (u_email u)) (au_users (auth d)) then Inl (BadRequest taken)
      else if map_of (au_users (auth d)) i \<noteq> None then Inl Internal
      else Inr (d\<lparr>auth := (auth d)\<lparr>au_users := (i, u) # au_users (auth d)\<rparr>\<rparr>))"

definition insert_org :: "uuid \<Rightarrow> str \<Rightarrow> team_db \<Rightarrow> team_db api_result" where
  "insert_org i name d =
     (if map_of (organisations d) i \<noteq> None then Inl Internal
      else Inr (d\<lparr>organisations := (i, name) # organisations d,
                  store := (store d)\<lparr>org_generation := (i, 1) # org_generation (store d)\<rparr>\<rparr>))"

definition insert_member :: "uuid \<Rightarrow> uuid \<Rightarrow> member_row \<Rightarrow> team_db \<Rightarrow> team_db api_result" where
  "insert_member org user m d =
     (if map_of (members d) (org, user) \<noteq> None \<or> map_of (organisations d) org = None
         \<or> parse_role (m_role m) = None then Inl Internal
      else Inr (put_members (((org, user), m) # members d) d))"

definition insert_session :: "auth_env \<Rightarrow> time \<Rightarrow> uuid \<Rightarrow> str \<Rightarrow> bytes \<Rightarrow> team_db \<Rightarrow> (team_db \<times> str) api_result" where
  "insert_session env now user machine_name random d =
     (case new_token env random of (raw, digest) \<Rightarrow>
        if map_of (au_sessions (auth d)) digest \<noteq> None then Inl Internal
        else Inr (d\<lparr>auth := (auth d)\<lparr>au_sessions := (digest,
            \<lparr>s_user = user, s_expires_at = now + session_ttl, s_machine_name = machine_name, s_machine_id = None,
             s_ip = None, s_user_agent = None, s_created_at = now, s_last_seen_at = now,
             s_totp_verified_at = None\<rparr>) # au_sessions (auth d)\<rparr>\<rparr>, raw))"

definition new_user :: "str \<Rightarrow> str \<Rightarrow> bytes \<Rightarrow> bytes \<Rightarrow> bytes \<Rightarrow> user_row" where
  "new_user email digest public wrapped salt =
     \<lparr>u_email = email, u_password_hash = digest, u_totp_secret = None, u_totp_enabled_at = None, u_disabled = False,
      u_public_key = public, u_wrapped_private_key = wrapped, u_kdf_salt = salt\<rparr>"

definition email_proven :: "team_env \<Rightarrow> uuid \<Rightarrow> enrollment_row \<Rightarrow> str option \<Rightarrow> bool" where
  "email_proven env i e proof =
     (case (en_email_proof_hash e, proof) of
        (Some stored, Some p) \<Rightarrow> email_secret_hash (auth_part env) i p = stored
      | _ \<Rightarrow> False)"

definition create_account ::
    "team_env \<Rightarrow> time \<Rightarrow> enroll_request \<Rightarrow> draw \<Rightarrow> bytes \<Rightarrow> bytes \<Rightarrow> bytes \<Rightarrow> bytes option \<Rightarrow> uuid \<Rightarrow> enrollment_row
     \<Rightarrow> team_db \<Rightarrow> (team_db \<times> str \<times> uuid) api_result" where
  "create_account env now req dr public private salt ork i e d =
     and_then (case (en_org e, en_org_name e) of
         (Some org, _) \<Rightarrow> Inr (org, d)
       | (None, Some name) \<Rightarrow> map_sum id (Pair (dr_org dr)) (insert_org (dr_org dr) name d)
       | (None, None) \<Rightarrow> Inl Internal) (\<lambda>(org, d1).
     and_then (insert_user (dr_user dr)
         (new_user (en_email e) (hash_password env (eq_password req) (dr_salt dr)) public private salt)
         (en_email e @ '' already has an account on this server'') d1) (\<lambda>d2.
     and_then (insert_member org (dr_user dr) \<lparr>m_role = en_role e, m_wrapped_ork = ork,
         m_ork_generation = map_option (\<lambda>_. 1) ork\<rparr> d2) (\<lambda>d3.
     and_then (insert_session (auth_part env) now (dr_user dr) (eq_machine_name req) (dr_token dr)
         (put_enrollment i (e\<lparr>en_used_at := Some now\<rparr>) d3)) (\<lambda>(d4, raw).
     Inr (d4, raw, org)))))"

definition complete_enrollment ::
    "team_env \<Rightarrow> team_db \<Rightarrow> time \<Rightarrow> enroll_request \<Rightarrow> draw \<Rightarrow> team_db \<times> (str \<times> uuid) api_result" where
  "complete_enrollment env d now req dr =
     commit d
       (and_then (decoded env ''public_key'' (eq_public_key req)) (\<lambda>public.
        and_then (decoded env ''wrapped_private_key'' (eq_wrapped_private_key req)) (\<lambda>private.
        and_then (decoded env ''kdf_salt'' (eq_kdf_salt req)) (\<lambda>salt.
        and_then (case eq_wrapped_ork req of None \<Rightarrow> Inr None
                  | Some v \<Rightarrow> map_sum id Some (decoded env ''wrapped_ork'' v)) (\<lambda>ork.
        and_then (demand (length public = 32) (BadRequest ''public_key must be 32 bytes - X25519'')) (\<lambda>_.
        and_then (demand (12 \<le> length (eq_password req)) (BadRequest ''the password must be at least 12 characters'')) (\<lambda>_.
        case open_invitation (auth_part env) d now (eq_code req) of
          None \<Rightarrow> Inl (BadRequest ''this invitation is not valid'')
        | Some (i, e) \<Rightarrow>
            and_then (demand (email_check_applies env (en_role e) \<longrightarrow> email_proven env i e (eq_email_proof req))
              (BadRequest ''this server confirms the invited address by email first'')) (\<lambda>_.
            and_then (demand (en_role e = ''owner'' \<longrightarrow> ork \<noteq> None)
              (BadRequest ''an owner enrolment must carry the wrapped organisation key'')) (\<lambda>_.
            create_account env now req dr public private salt ork i e d)))))))))"

record signup_request =
  sq_email :: str
  sq_password :: str
  sq_org_name :: str
  sq_public_key :: str
  sq_wrapped_private_key :: str
  sq_kdf_salt :: str
  sq_wrapped_ork :: str
  sq_machine_name :: str

definition signup :: "team_env \<Rightarrow> team_db \<Rightarrow> time \<Rightarrow> signup_request \<Rightarrow> draw \<Rightarrow> team_db \<times> str api_result" where
  "signup env d now req dr =
     commit d
       (and_then (demand (open_signup env) (BadRequest ''this server does not take open sign-ups'')) (\<lambda>_.
        and_then (demand (case max_orgs env of None \<Rightarrow> True | Some m \<Rightarrow> length (organisations d) < m)
          (BadRequest ''this server is full'')) (\<lambda>_.
        and_then (decoded env ''public_key'' (sq_public_key req)) (\<lambda>public.
        and_then (decoded env ''wrapped_private_key'' (sq_wrapped_private_key req)) (\<lambda>private.
        and_then (decoded env ''kdf_salt'' (sq_kdf_salt req)) (\<lambda>salt.
        and_then (decoded env ''wrapped_ork'' (sq_wrapped_ork req)) (\<lambda>ork.
        let email = lower (trim (sq_email req)); name = trim (sq_org_name req)
        in and_then (demand (looks_like_email email) (BadRequest ''that is not an email address'')) (\<lambda>_.
           and_then (demand (name \<noteq> []) (BadRequest ''the organisation needs a name'')) (\<lambda>_.
           and_then (demand (12 \<le> length (sq_password req)) (BadRequest ''the password must be at least 12 characters'')) (\<lambda>_.
           and_then (demand (length public = 32) (BadRequest ''public_key must be 32 bytes - X25519'')) (\<lambda>_.
           and_then (insert_user (dr_user dr)
               (new_user email (hash_password env (sq_password req) (dr_salt dr)) public private salt)
               ''that address already has an account on this server. Sign in instead'' d) (\<lambda>d1.
           and_then (insert_org (dr_org dr) name d1) (\<lambda>d2.
           and_then (insert_member (dr_org dr) (dr_user dr) \<lparr>m_role = ''owner'', m_wrapped_ork = Some ork,
               m_ork_generation = Some 1\<rparr> d2) (\<lambda>d3.
           insert_session (auth_part env) now (dr_user dr) (sq_machine_name req) (dr_token dr) d3))))))))))))))"

definition logout :: "team_db \<Rightarrow> caller \<Rightarrow> team_db" where
  "logout d c = d\<lparr>auth := (auth d)\<lparr>au_sessions := List.filter (\<lambda>(_, s). s_user s \<noteq> user_id c) (au_sessions (auth d))\<rparr>\<rparr>"

definition whoami :: "team_db \<Rightarrow> caller \<Rightarrow> (str \<times> bool) api_result" where
  "whoami d c =
     (case map_of (au_users (auth d)) (user_id c) of
        None \<Rightarrow> Inl Internal
      | Some u \<Rightarrow> Inr (u_email u, list_ex (\<lambda>((_, i), m). i = user_id c \<and> m_wrapped_ork m \<noteq> None) (members d)))"

end
