(* ===== verification/Access_Roles.thy ===== *)
theory Access_Roles
  imports Enrolment
begin

text \<open>
  What a member is and what the organisation's own roles give: \<open>set_member_role\<close>, the roles of
  \<open>upsert_access_role\<close> and \<open>delete_access_role\<close> and the grants that follow them (\<open>relink\<close>), of
  \<open>server/src/api.rs\<close>.
\<close>

section \<open>Grants that follow a role\<close>

text \<open>
  The boxes a grant that follows a role holds: those of the role, capped by the person's own
  organisation role; \<open>None\<close> where the join finds no row.
\<close>

definition linked_permissions :: "db \<Rightarrow> uuid \<times> uuid \<Rightarrow> grant_row \<Rightarrow> permset option" where
  "linked_permissions d key g =
     (case key of (project, user) \<Rightarrow>
       (case (g_access_role g, map_of (projects d) project) of
          (Some i, Some p) \<Rightarrow>
            (case (map_of (access_roles d) i, map_of (org_members d) (pr_org p, user)) of
               (Some ar, Some r) \<Rightarrow> map_option (\<lambda>r'. intersect (ar_permissions ar) (role_ceiling r')) (parse_role r)
             | _ \<Rightarrow> None)
        | _ \<Rightarrow> None))"

definition relink_row :: "db \<Rightarrow> uuid option \<Rightarrow> uuid option \<Rightarrow> uuid \<times> uuid \<Rightarrow> grant_row \<Rightarrow> grant_row" where
  "relink_row d only_role only_user key g =
     (if (only_role = None \<or> g_access_role g = only_role) \<and> (only_user = None \<or> only_user = Some (snd key))
      then (case linked_permissions d key g of None \<Rightarrow> g | Some bits \<Rightarrow> g\<lparr>g_permissions := bits\<rparr>)
      else g)"

definition relink :: "db \<Rightarrow> uuid option \<Rightarrow> uuid option \<Rightarrow> ((uuid \<times> uuid) \<times> grant_row) list" where
  "relink d only_role only_user =
     map (\<lambda>(key, g). (key, relink_row d only_role only_user key g)) (project_grants d)"

definition put_grants :: "((uuid \<times> uuid) \<times> grant_row) list \<Rightarrow> team_db \<Rightarrow> team_db" where
  "put_grants gs d = d\<lparr>store := (store d)\<lparr>project_grants := gs\<rparr>\<rparr>"

text \<open>How many grants a relinking rewrites.\<close>

definition relinked_count :: "db \<Rightarrow> uuid option \<Rightarrow> uuid option \<Rightarrow> nat" where
  "relinked_count d only_role only_user =
     length (List.filter (\<lambda>(key, g). (only_role = None \<or> g_access_role g = only_role)
       \<and> (only_user = None \<or> only_user = Some (snd key)) \<and> linked_permissions d key g \<noteq> None) (project_grants d))"

section \<open>The organisation's roles\<close>

definition char_count :: "str \<Rightarrow> nat" where
  "char_count s = length (List.filter (\<lambda>c. \<not> (128 \<le> code c \<and> code c < 192)) s)"

record role_upsert =
  ru_id :: "uuid option"
  ru_name :: str
  ru_permissions :: "perm list"

text \<open>
  An id that exists belongs to the caller's organisation or the role does not exist for them;
  a name is unique in its organisation.
\<close>

definition put_roles :: "(uuid \<times> access_role_row) list \<Rightarrow> team_db \<Rightarrow> team_db" where
  "put_roles rs d = d\<lparr>store := (store d)\<lparr>access_roles := rs\<rparr>\<rparr>"

definition upsert_access_role :: "team_db \<Rightarrow> caller \<Rightarrow> role_upsert \<Rightarrow> uuid \<Rightarrow> team_db \<times> (uuid \<times> nat) api_result" where
  "upsert_access_role d c req fresh =
     commit d
       (and_then (demand (manages c) (Denied ManageAccess)) (\<lambda>_.
        let name = trim (ru_name req);
            perms = with_perm (from_iter (ru_permissions req)) View;
            i = (case ru_id req of None \<Rightarrow> fresh | Some i \<Rightarrow> i);
            others = List.filter (\<lambda>(j, ar). j \<noteq> i \<and> ar_org ar = org_id c \<and> ar_name ar = name) (access_roles (store d))
        in and_then (demand (name \<noteq> [] \<and> char_count name \<le> 64)
             (BadRequest ''a role needs a name of up to 64 characters'')) (\<lambda>_.
           and_then (demand (case map_of (access_roles (store d)) i of None \<Rightarrow> True | Some ar \<Rightarrow> ar_org ar = org_id c)
             NotFound) (\<lambda>_.
           and_then (demand (others = []) (Conflict ''a role of that name already exists'')) (\<lambda>_.
           let d1 = put_roles (AList.update i \<lparr>ar_org = org_id c, ar_name = name, ar_permissions = perms\<rparr>
                 (access_roles (store d))) d
           in Inr (team_audit c ''access_role.saved'' (Some i) (put_grants (relink (view d1) (Some i) None) d1),
                   i, relinked_count (view d1) (Some i) None))))))"

text \<open>The grants on a deleted role keep their boxes and lose the link (\<open>ON DELETE SET NULL\<close>).\<close>

definition delete_access_role :: "team_db \<Rightarrow> caller \<Rightarrow> uuid \<Rightarrow> team_db \<times> unit api_result" where
  "delete_access_role d c i =
     commit d
       (and_then (demand (manages c) (Denied ManageAccess)) (\<lambda>_.
        and_then (demand (case map_of (access_roles (store d)) i of None \<Rightarrow> False | Some ar \<Rightarrow> ar_org ar = org_id c)
          NotFound) (\<lambda>_.
        Inr (team_audit c ''access_role.deleted'' (Some i)
          (put_grants (map (\<lambda>(k, g). (k, if g_access_role g = Some i then g\<lparr>g_access_role := None\<rparr> else g))
             (project_grants (store d)))
           (put_roles (AList.delete i (access_roles (store d))) d)), ()))))"

section \<open>What a member is\<close>

text \<open>\<open>Inr False\<close>: the member is that already.\<close>

definition set_member_role ::
    "auth_env \<Rightarrow> team_db \<Rightarrow> time \<Rightarrow> caller \<Rightarrow> headers \<Rightarrow> uuid \<Rightarrow> str \<Rightarrow> team_db \<times> bool api_result" where
  "set_member_role env d now c h user role_name =
     commit d
       (and_then (demand (manages c) (Denied ManageAccess)) (\<lambda>_.
        and_then (case parse_role role_name of None \<Rightarrow> Inl (BadRequest ''unknown role'') | Some r \<Rightarrow> Inr r) (\<lambda>r.
        and_then (demand (r \<noteq> Owner)
          (BadRequest ''an organisation has one owner. Make them an admin for the same reach'')) (\<lambda>_.
        and_then (demand (user \<noteq> user_id c) (BadRequest ''your own role is changed by the owner, not by you'')) (\<lambda>_.
        case map_of (members d) (org_id c, user) of
          None \<Rightarrow> Inl NotFound
        | Some m \<Rightarrow>
            (case parse_role (m_role m) of
               None \<Rightarrow> Inl NotFound
             | Some before \<Rightarrow>
                 and_then (demand (before \<noteq> Owner) (BadRequest ''the role of the owner cannot be changed'')) (\<lambda>_.
                 and_then (demand (\<not> (role c = Admin \<and> (r = Admin \<or> before = Admin))) (Denied ManageAccess)) (\<lambda>_.
                 if before = r then Inr (d, False)
                 else
                   and_then (if r = Admin then require_step_up env (auth d) now c h else Inr ()) (\<lambda>_.
                   let d1 = put_members (AList.update (org_id c, user) (m\<lparr>m_role := role_name\<rparr>) (members d)) d;
                       d2 = put_grants (relink (view d1) None (Some user)) d1
                   in Inr (team_audit c ''member.role'' None d2, True))))))))))"

end
