(* ===== verification/Key_Rotation.thy ===== *)
theory Key_Rotation
  imports Enrolment
begin

text \<open>
  Letting a member in and replacing the organisation key (\<open>hand_over_key\<close>,
  \<open>rotation_material\<close> and \<open>rotate_org_key\<close> of \<open>server/src/api.rs\<close>). Ids of rows of different tables never meet, so the one set of ids a
  client could not read is a set of tagged ids here; a bundle is named by its profile and
  version, which are unique. The sealed keys are opaque bytes to the server and to the model.
\<close>

section \<open>Handing over the key\<close>

definition sealed_key_length :: nat where
  "sealed_key_length = 104"

definition generation_of :: "team_db \<Rightarrow> uuid \<Rightarrow> int api_result" where
  "generation_of d org =
     (case map_of (org_generation (store d)) org of None \<Rightarrow> Inl Internal | Some g \<Rightarrow> Inr g)"

definition hand_over_key :: "team_env \<Rightarrow> team_db \<Rightarrow> caller \<Rightarrow> uuid \<Rightarrow> str \<Rightarrow> team_db \<times> unit api_result" where
  "hand_over_key env d c user key_text =
     commit d
       (and_then (demand (manages c) (Denied ManageAccess)) (\<lambda>_.
        and_then (decoded env ''wrapped_ork'' key_text) (\<lambda>wrapped.
        and_then (demand (sealed_key_length \<le> length wrapped)
          (BadRequest ''that is not a sealed organisation key'')) (\<lambda>_.
        and_then (generation_of d (org_id c)) (\<lambda>g.
        case map_of (members d) (org_id c, user) of
          None \<Rightarrow> Inl NotFound
        | Some m \<Rightarrow>
            Inr (team_audit c ''member.key'' None (put_members (AList.update (org_id c, user)
              (m\<lparr>m_wrapped_ork := Some wrapped, m_ork_generation := Some g\<rparr>) (members d)) d), ()))))))"

section \<open>What a rotation has to carry\<close>

definition in_org_profiles :: "team_db \<Rightarrow> uuid \<Rightarrow> uuid \<Rightarrow> bool" where
  "in_org_profiles d org p \<longleftrightarrow> (case map_of (profiles (store d)) p of None \<Rightarrow> False | Some f \<Rightarrow> f_org f = org)"

definition rotation_profiles :: "team_db \<Rightarrow> uuid \<Rightarrow> (uuid \<times> bytes option) list" where
  "rotation_profiles d org =
     map (\<lambda>(i, f). (i, f_wrapped_cookie_key f)) (List.filter (\<lambda>(_, f). f_org f = org) (profiles (store d)))"

definition rotation_bundles :: "team_db \<Rightarrow> uuid \<Rightarrow> ((uuid \<times> int) \<times> str) list" where
  "rotation_bundles d org =
     map (\<lambda>b. ((b_profile b, b_version b), b_wrapped_dek b))
       (List.filter (\<lambda>b. in_org_profiles d org (b_profile b) \<and> prefix shared_bundle_prefix (b_wrapped_dek b))
         (bundles (store d)))"

definition rotation_credentials :: "team_db \<Rightarrow> uuid \<Rightarrow> (uuid \<times> str) list" where
  "rotation_credentials d org =
     map (\<lambda>(i, r). (i, cr_wrapped_dek r)) (List.filter (\<lambda>(_, r). in_org_profiles d org (cr_profile r)) (credentials d))"

definition rotation_shares :: "team_db \<Rightarrow> uuid \<Rightarrow> (uuid \<times> uuid) list" where
  "rotation_shares d org =
     map fst (List.filter (\<lambda>((p, u), _). in_org_profiles d org p \<and> map_of (au_users (auth d)) u \<noteq> None)
       (profile_grants (store d)))"

text \<open>Members with the key who are not disabled: id, address and public key.\<close>

definition material_members :: "team_db \<Rightarrow> uuid \<Rightarrow> (uuid \<times> str \<times> bytes) list" where
  "material_members d org =
     concat (map (\<lambda>((o', i), m). case map_of (au_users (auth d)) i of
         None \<Rightarrow> []
       | Some u \<Rightarrow> if o' = org \<and> \<not> u_disabled u \<and> m_wrapped_ork m \<noteq> None then [(i, u_email u, u_public_key u)] else [])
       (members d))"

record material =
  ma_generation :: int
  ma_members :: "(uuid \<times> str \<times> bytes) list"
  ma_proxies :: "(uuid \<times> bytes option) list"
  ma_profiles :: "(uuid \<times> bytes option) list"
  ma_bundles :: "((uuid \<times> int) \<times> str) list"
  ma_credentials :: "(uuid \<times> str) list"
  ma_shares :: "(uuid \<times> uuid) list"

definition rotation_material :: "team_db \<Rightarrow> caller \<Rightarrow> material api_result" where
  "rotation_material d c =
     and_then (demand (manages c) (Denied ManageAccess)) (\<lambda>_.
     and_then (generation_of d (org_id c)) (\<lambda>g.
     Inr \<lparr>ma_generation = g, ma_members = material_members d (org_id c),
          ma_proxies = map (\<lambda>(i, x). (i, x_wrapped_dek x))
            (List.filter (\<lambda>(_, x). x_org x = org_id c \<and> \<not> x_deleted x) (proxies (store d))),
          ma_profiles = rotation_profiles d (org_id c), ma_bundles = rotation_bundles d (org_id c),
          ma_credentials = rotation_credentials d (org_id c), ma_shares = rotation_shares d (org_id c)\<rparr>))"

section \<open>Replacing the organisation key\<close>

datatype lost = Cookie_of uuid | Bundle_of "uuid \<times> int" | Credential_of uuid

record rotate_request =
  rr_remove :: "uuid option"
  rr_members :: "(uuid \<times> str) list"
  rr_proxies :: "(uuid \<times> str) list"
  rr_generation :: int
  rr_cookie_keys :: "(uuid \<times> str) list"
  rr_bundles :: "((uuid \<times> int) \<times> str) list"
  rr_credentials :: "(uuid \<times> str) list"
  rr_shares :: "((uuid \<times> uuid) \<times> str) list"
  rr_unreadable :: "lost list"

definition unhex_or_b64 :: "team_env \<Rightarrow> str \<Rightarrow> str \<Rightarrow> bytes api_result" where
  "unhex_or_b64 env what v =
     (if length v mod 2 = 0 \<and> list_all is_hexdigit v then server_unhex what v
      else (case base64 env v of
          None \<Rightarrow> Inl (BadRequest (what @ '' is neither hex nor base64'')) | Some b \<Rightarrow> Inr b))"

text \<open>A loop over the entries of a request that stops at the first error.\<close>

fun each :: "('a \<Rightarrow> 's \<Rightarrow> 'e + 's) \<Rightarrow> 'a list \<Rightarrow> 's \<Rightarrow> 'e + 's" where
  "each f [] s = Inr s"
| "each f (x # xs) s = (case f x s of Inl e \<Rightarrow> Inl e | Inr s' \<Rightarrow> each f xs s')"

definition long_enough :: "nat \<Rightarrow> str \<Rightarrow> bytes \<Rightarrow> bytes api_result" where
  "long_enough n what b = (if length b < n then Inl (BadRequest (''that is not '' @ what)) else Inr b)"

definition remove_member :: "caller \<Rightarrow> uuid \<Rightarrow> team_db \<Rightarrow> team_db api_result" where
  "remove_member c gone d =
     (case Option.bind (map_of (members d) (org_id c, gone)) (parse_role \<circ> m_role) of
        None \<Rightarrow> Inl NotFound
      | Some target \<Rightarrow>
          and_then (may_remove (role c) target) (\<lambda>_.
          Inr (d\<lparr>auth := (auth d)\<lparr>au_members := AList.delete (org_id c, gone) (members d),
                   au_sessions := List.filter (\<lambda>(_, s). s_user s \<noteq> gone) (au_sessions (auth d))\<rparr>,
                 store := (store d)\<lparr>project_grants := List.filter (\<lambda>((_, u), _). u \<noteq> gone) (project_grants (store d)),
                   profile_locks := List.filter (\<lambda>(_, l). l_user l \<noteq> gone) (profile_locks (store d))\<rparr>\<rparr>)))"

definition keyed_members :: "team_db \<Rightarrow> uuid \<Rightarrow> uuid list" where
  "keyed_members d org =
     map (\<lambda>((_, i), _). i) (List.filter (\<lambda>((o', _), m). o' = org \<and> m_wrapped_ork m \<noteq> None) (members d))"

definition rekey_member :: "team_env \<Rightarrow> uuid \<Rightarrow> int \<Rightarrow> uuid \<times> str \<Rightarrow> team_db \<Rightarrow> team_db api_result" where
  "rekey_member env org next_gen x d =
     and_then (and_then (unhex_or_b64 env ''wrapped_ork'' (snd x)) (long_enough sealed_key_length ''a sealed organisation key'')) (\<lambda>w.
     Inr (case map_of (members d) (org, fst x) of
         None \<Rightarrow> d
       | Some m \<Rightarrow>
           if m_wrapped_ork m = None then d
           else put_members (AList.update (org, fst x)
             (m\<lparr>m_wrapped_ork := Some w, m_ork_generation := Some next_gen\<rparr>) (members d)) d))"

definition rekey_proxy :: "uuid \<Rightarrow> uuid \<times> str \<Rightarrow> team_db \<Rightarrow> team_db api_result" where
  "rekey_proxy org x d =
     and_then (and_then (server_unhex ''wrapped_dek'' (snd x)) (long_enough 40 ''a wrapped data key'')) (\<lambda>w.
     Inr (d\<lparr>store := (store d)\<lparr>proxies :=
       map (\<lambda>(i, r). (i, if i = fst x \<and> x_org r = org then r\<lparr>x_wrapped_dek := Some w\<rparr> else r)) (proxies (store d))\<rparr>\<rparr>))"

definition rekey_cookie :: "uuid \<Rightarrow> uuid \<times> str \<Rightarrow> team_db \<Rightarrow> team_db api_result" where
  "rekey_cookie org x d =
     and_then (and_then (server_unhex ''wrapped_cookie_key'' (snd x)) (long_enough 40 ''a wrapped cookie key'')) (\<lambda>w.
     Inr (d\<lparr>store := (store d)\<lparr>profiles :=
       map (\<lambda>(i, r). (i, if i = fst x \<and> f_org r = org then r\<lparr>f_wrapped_cookie_key := Some w\<rparr> else r)) (profiles (store d))\<rparr>\<rparr>))"

definition rekey_bundle :: "uuid \<Rightarrow> (uuid \<times> int) \<times> str \<Rightarrow> team_db \<Rightarrow> team_db api_result" where
  "rekey_bundle org x d =
     and_then (demand (prefix shared_bundle_prefix (snd x) \<and> 60 \<le> length (snd x))
       (BadRequest ''that is not a wrapped bundle key'')) (\<lambda>_.
     Inr (d\<lparr>store := (store d)\<lparr>bundles :=
       map (\<lambda>r. if (b_profile r, b_version r) = fst x \<and> in_org_profiles d org (b_profile r)
                then r\<lparr>b_wrapped_dek := snd x\<rparr> else r) (bundles (store d))\<rparr>\<rparr>))"

definition rekey_credential :: "uuid \<Rightarrow> uuid \<times> str \<Rightarrow> team_db \<Rightarrow> team_db api_result" where
  "rekey_credential org x d =
     and_then (and_then (server_unhex ''wrapped_dek'' (snd x)) (long_enough 40 ''a wrapped data key'')) (\<lambda>_.
     Inr (d\<lparr>credentials :=
       map (\<lambda>(i, r). (i, if i = fst x \<and> in_org_profiles d org (cr_profile r) then r\<lparr>cr_wrapped_dek := snd x\<rparr> else r))
         (credentials d)\<rparr>))"

definition rekey_share :: "team_env \<Rightarrow> uuid \<Rightarrow> (uuid \<times> uuid) \<times> str \<Rightarrow> team_db \<Rightarrow> team_db api_result" where
  "rekey_share env org x d =
     and_then (and_then (unhex_or_b64 env ''wrapped_key'' (snd x)) (long_enough 104 ''a sealed profile key'')) (\<lambda>w.
     Inr (d\<lparr>store := (store d)\<lparr>profile_grants :=
       map (\<lambda>(k, r). (k, if k = fst x \<and> in_org_profiles d org (fst k) then r\<lparr>pg_wrapped_key := w\<rparr> else r))
         (profile_grants (store d))\<rparr>\<rparr>))"

text \<open>The first id that is neither supplied nor named as unreadable refuses the rotation.\<close>

definition covered :: "'a list \<Rightarrow> 'a list \<Rightarrow> ('a \<Rightarrow> bool) \<Rightarrow> unit api_result" where
  "covered wanted supplied excused =
     demand (\<forall>i \<in> set wanted. i \<in> set supplied \<or> excused i)
       (BadRequest ''this rotation leaves a row under the old key, where nobody could open it again'')"

definition rotate_tx :: "team_env \<Rightarrow> caller \<Rightarrow> rotate_request \<Rightarrow> team_db \<Rightarrow> (team_db \<times> int) api_result" where
  "rotate_tx env c req d =
     (let org = org_id c; lost = set (rr_unreadable req)
      in and_then (generation_of d org) (\<lambda>g.
         and_then (demand (g = rr_generation req) (Conflict ''somebody else rotated in between. Start again'')) (\<lambda>_.
         and_then (case rr_remove req of None \<Rightarrow> Inr d | Some gone \<Rightarrow> remove_member c gone d) (\<lambda>d1.
         and_then (demand (\<forall>i \<in> set (keyed_members d1 org). i \<in> set (map fst (rr_members req)))
           (BadRequest ''no new key was supplied for a member; they would be locked out'')) (\<lambda>_.
         and_then (each (rekey_member env org (g + 1)) (rr_members req) d1) (\<lambda>d2.
         and_then (each (rekey_proxy org) (rr_proxies req) d2) (\<lambda>d3.
         and_then (covered (map fst (rotation_profiles d3 org)) (map fst (rr_cookie_keys req)) (\<lambda>i. Cookie_of i \<in> lost)) (\<lambda>_.
         and_then (each (rekey_cookie org) (rr_cookie_keys req) d3) (\<lambda>d4.
         and_then (covered (map fst (rotation_bundles d4 org)) (map fst (rr_bundles req)) (\<lambda>i. Bundle_of i \<in> lost)) (\<lambda>_.
         and_then (each (rekey_bundle org) (rr_bundles req) d4) (\<lambda>d5.
         and_then (covered (map fst (rotation_credentials d5 org)) (map fst (rr_credentials req))
           (\<lambda>i. Credential_of i \<in> lost)) (\<lambda>_.
         and_then (each (rekey_credential org) (rr_credentials req) d5) (\<lambda>d6.
         and_then (covered (rotation_shares d6 org) (map fst (rr_shares req)) (\<lambda>_. False)) (\<lambda>_.
         and_then (each (rekey_share env org) (rr_shares req) d6) (\<lambda>d7.
         Inr (d7\<lparr>store := (store d7)\<lparr>org_generation := AList.update org (g + 1) (org_generation (store d7))\<rparr>\<rparr>,
              g + 1))))))))))))))))"

definition rotate_org_key ::
    "team_env \<Rightarrow> team_db \<Rightarrow> time \<Rightarrow> caller \<Rightarrow> headers \<Rightarrow> rotate_request \<Rightarrow> team_db \<times> int api_result" where
  "rotate_org_key env d now c h req =
     commit d
       (and_then (demand (manages c) (Denied ManageAccess)) (\<lambda>_.
        and_then (if rr_remove req \<noteq> None then require_step_up (auth_part env) (auth d) now c h else Inr ()) (\<lambda>_.
        and_then (demand (rr_remove req \<noteq> Some (user_id c)) (BadRequest ''you cannot remove yourself'')) (\<lambda>_.
        map_sum id (\<lambda>(d', n). (team_audit c ''org.rotate'' None d', n)) (rotate_tx env c req d)))))"

end
