(* ===== verification/Team_Protocol.thy ===== *)
theory Team_Protocol
  imports Access_Roles Key_Rotation Events
begin

text \<open>
  The handlers of \<open>Enrolment\<close>, \<open>Access_Roles\<close>, \<open>Key_Rotation\<close>, \<open>Guard\<close> and \<open>Sign_In\<close> run one
  after the other over one set of tables. Who is in an organisation, and as what, is an
  abstract machine of five moves that every run refines; the theorems about owners,
  invitations and keys are about any run.
\<close>

section \<open>Requests and runs\<close>

datatype team_request =
    Cli str "uuid option" "str option" "str option" uuid bytes
  | Invite headers str str uuid bytes
  | Letter str nat bool
  | Digits str str bytes
  | Enrol enroll_request draw
  | Sign_up signup_request draw
  | Log_out headers
  | Hand_over headers uuid str
  | Set_role headers uuid str
  | Rotate headers rotate_request
  | Save_role headers role_upsert uuid
  | Drop_role headers uuid
  | Give headers uuid grant_request
  | Take headers uuid uuid
  | Account auth_request

text \<open>A handler behind the extractor, and one of \<open>Guard\<close> on the tables it reads.\<close>

definition with_caller ::
    "team_env \<Rightarrow> team_db \<Rightarrow> time \<Rightarrow> headers \<Rightarrow> (team_db \<Rightarrow> caller \<Rightarrow> team_db) \<Rightarrow> team_db" where
  "with_caller env d now h f =
     (case authenticate (auth_part env) (auth d) now h of
        (a, Inl e) \<Rightarrow> d\<lparr>auth := a\<rparr>
      | (a, Inr c) \<Rightarrow> f (d\<lparr>auth := a\<rparr>) c)"

definition on_store :: "(db \<Rightarrow> db) \<Rightarrow> team_db \<Rightarrow> team_db" where
  "on_store f d = d\<lparr>store := f (view d)\<rparr>"

definition serve_team :: "team_env \<Rightarrow> team_db \<Rightarrow> time \<times> team_request \<Rightarrow> team_db" where
  "serve_team env d ev =
     (case ev of (now, req) \<Rightarrow>
       (case req of
          Cli email org oname r fresh random \<Rightarrow> fst (cli_invite (auth_part env) d now email org oname r fresh random)
        | Invite h email r fresh random \<Rightarrow>
            with_caller env d now h (\<lambda>d c. fst (create_invitation (auth_part env) d now c email r fresh random))
        | Letter raw n sent \<Rightarrow> fst (enroll_email_send env d now raw n sent)
        | Digits raw typed random \<Rightarrow> fst (enroll_email_verify env d now raw typed random)
        | Enrol r dr \<Rightarrow> fst (complete_enrollment env d now r dr)
        | Sign_up r dr \<Rightarrow> fst (signup env d now r dr)
        | Log_out h \<Rightarrow> with_caller env d now h (\<lambda>d c. logout d c)
        | Hand_over h user key_text \<Rightarrow> with_caller env d now h (\<lambda>d c. fst (hand_over_key env d c user key_text))
        | Set_role h user r \<Rightarrow>
            with_caller env d now h (\<lambda>d c. fst (set_member_role (auth_part env) d now c h user r))
        | Rotate h r \<Rightarrow> with_caller env d now h (\<lambda>d c. fst (rotate_org_key env d now c h r))
        | Save_role h r fresh \<Rightarrow> with_caller env d now h (\<lambda>d c. fst (upsert_access_role d c r fresh))
        | Drop_role h i \<Rightarrow> with_caller env d now h (\<lambda>d c. fst (delete_access_role d c i))
        | Give h p r \<Rightarrow> with_caller env d now h (\<lambda>d c. on_store (\<lambda>s. fst (grant_access s now c p r)) d)
        | Take h p u \<Rightarrow> with_caller env d now h (\<lambda>d c. on_store (\<lambda>s. fst (revoke_access s now c p u)) d)
        | Account r \<Rightarrow> d\<lparr>auth := serve_auth (auth_part env) (auth d) (now, r)\<rparr>))"

definition run_team :: "team_env \<Rightarrow> team_db \<Rightarrow> (time \<times> team_request) list \<Rightarrow> team_db" where
  "run_team env d evs = foldl (serve_team env) d evs"

interpretation team_events: event_system "serve_team env" "run_team env" for env
  by unfold_locales (simp add: run_team_def)

section \<open>The roster as an abstract machine\<close>

type_synonym roster = "(uuid \<times> uuid \<Rightarrow> member_row option) \<times> (uuid \<Rightarrow> str option)"

definition roster :: "team_db \<Rightarrow> roster" where
  "roster d = (map_of (members d), map_of (organisations d))"

inductive roster_step :: "roster \<Rightarrow> roster \<Rightarrow> bool" where
  rekey: "ms k = Some m \<Longrightarrow> m_role m' = m_role m \<Longrightarrow> roster_step (ms, os) (ms(k \<mapsto> m'), os)"
| rerole: "ms k = Some m \<Longrightarrow> m_role m \<noteq> ''owner'' \<Longrightarrow> m_role m' \<noteq> ''owner'' \<Longrightarrow>
    roster_step (ms, os) (ms(k \<mapsto> m'), os)"
| leave: "ms k = Some m \<Longrightarrow> m_role m \<noteq> ''owner'' \<Longrightarrow> roster_step (ms, os) (ms(k := None), os)"
| join: "ms (org, u) = None \<Longrightarrow> os org \<noteq> None \<Longrightarrow> m_role m \<noteq> ''owner'' \<Longrightarrow>
    roster_step (ms, os) (ms((org, u) \<mapsto> m), os)"
| found: "ms (org, u) = None \<Longrightarrow> os org = None \<Longrightarrow> roster_step (ms, os) (ms((org, u) \<mapsto> m), os(org \<mapsto> n))"

inductive_cases roster_stepE: "roster_step (ms, os) r"

text \<open>Members belong to organisations that exist, and no organisation has two owners.\<close>

definition is_owner :: "roster \<Rightarrow> uuid \<Rightarrow> uuid \<Rightarrow> bool" where
  "is_owner r org u \<longleftrightarrow> (\<exists>m. fst r (org, u) = Some m \<and> m_role m = ''owner'')"

definition roster_ok :: "roster \<Rightarrow> bool" where
  "roster_ok r \<longleftrightarrow> (\<forall>org u. fst r (org, u) \<noteq> None \<longrightarrow> snd r org \<noteq> None)
     \<and> (\<forall>org u v. is_owner r org u \<and> is_owner r org v \<longrightarrow> u = v)"

lemma roster_step_ok:
  assumes "roster_step r r'" and "roster_ok r"
  shows "roster_ok r'"
  using assms
proof (induction rule: roster_step.induct)
  case (found ms org u os m n)
  have none: "ms (org, v) = None" for v
    using found.hyps(2) found.prems by (cases "ms (org, v)") (force simp: roster_ok_def)+
  show ?case
    using found.prems none by (auto simp: roster_ok_def is_owner_def split: if_splits)
qed (auto simp: roster_ok_def is_owner_def split: if_splits, blast+)

lemma roster_step_owner:
  assumes "roster_step r r'" and "is_owner r org u"
  shows "is_owner r' org u"
  using assms by (induction rule: roster_step.induct) (auto simp: is_owner_def)

lemma roster_steps_ok:
  assumes "roster_step\<^sup>*\<^sup>* r r'" and "roster_ok r"
  shows "roster_ok r' \<and> (is_owner r org u \<longrightarrow> is_owner r' org u)"
  using assms by (induction rule: rtranclp_induct) (auto intro: roster_step_ok roster_step_owner)

section \<open>The handlers refine it\<close>

lemma owner_text: "parse_role s = Some Owner \<longleftrightarrow> s = ''owner''" "parse_role ''owner'' = Some Owner"
  by (simp_all add: parse_role_def)

lemma roster_frame [simp]:
  "roster (team_audit c a t d) = roster d" "roster (put_enrollment i e d) = roster d"
  "roster (put_grants gs d) = roster d" "roster (put_roles rs d) = roster d"
  "roster (on_store f d) = roster d" "roster (logout d c) = roster d"
  "roster (d\<lparr>enrollments := es\<rparr>) = roster d" "roster (d\<lparr>store := s\<rparr>) = roster d"
  "roster (d\<lparr>credentials := cs\<rparr>) = roster d"
  by (simp_all add: roster_def members_def team_audit_def put_enrollment_def put_grants_def put_roles_def
      on_store_def logout_def)

lemma roster_put_members [simp]: "roster (put_members ms d) = (map_of ms, map_of (organisations d))"
  by (simp add: roster_def put_members_def members_def)

lemma roster_auth: "au_members a = au_members (auth d) \<Longrightarrow> roster (d\<lparr>auth := a\<rparr>) = roster d"
  by (simp add: roster_def members_def)

text \<open>An invitation into an organisation that exists is never an owner's.\<close>

definition invitations_ok :: "team_db \<Rightarrow> bool" where
  "invitations_ok d \<longleftrightarrow> (\<forall>i e. (i, e) \<in> set (enrollments d) \<and> en_org e \<noteq> None \<longrightarrow> en_role e \<noteq> ''owner'')"

lemma issue_cases:
  "issue env d now email target r fresh random = Inr (d', raw) \<Longrightarrow>
   \<exists>e. d' = d\<lparr>enrollments := (fresh, e) # enrollments d\<rparr> \<and> en_role e = r \<and> map_of (enrollments d) fresh = None
     \<and> en_org e = (case target of Existing i \<Rightarrow> Some i | New _ \<Rightarrow> None)
     \<and> en_code_hash e \<notin> en_code_hash ` snd ` set (enrollments d) \<and> en_used_at e = None
     \<and> en_code_hash e = hash_code env raw \<and> en_email_proof_hash e = None \<and> en_email_code_hash e = None"
  by (force simp: issue_def new_code_def Let_def list_ex_iff split: if_splits)

lemma cli_invite_cases:
  "cli_invite env d now email org oname r fresh random = (d', Inr raw) \<Longrightarrow>
   \<exists>target role. issue env d now email target role fresh random = Inr (d', raw)
     \<and> (\<forall>i. target = Existing i \<longrightarrow> role \<noteq> ''owner'')"
  unfolding cli_invite_def Let_def
  by (auto simp: commit_Inr split: if_splits option.splits sum.splits org_target.splits)

lemma create_invitation_cases:
  assumes "create_invitation env d now c email r fresh random = (d', Inr raw)"
  shows "manages c \<and> r \<noteq> ''owner'' \<and> (\<exists>d1. issue env d now (trim email) (Existing (org_id c)) r fresh random = Inr (d1, raw)
      \<and> d' = team_audit c ''member.invite'' None d1)"
  using assms unfolding create_invitation_def commit_Inr Let_def
  by (auto simp: owner_text split: option.splits) (auto simp: map_sum_def split: sum.splits)

lemma roster_update:
  "roster (put_members (AList.update k m (members d)) d) = ((map_of (members d))(k \<mapsto> m), map_of (organisations d))"
  by (simp add: update_conv')

lemma put_grants_members [simp]:
  "members (put_grants gs d) = members d" "organisations (put_grants gs d) = organisations d"
  by (simp_all add: put_grants_def members_def)

lemma rekey_refines:
  assumes "map_of (members d) k = Some m" and "m_role m' = m_role m"
  shows "roster_step\<^sup>*\<^sup>* (roster d) (roster (put_members (AList.update k m' (members d)) d))"
  unfolding roster_update
  using roster_step.rekey [of "map_of (members d)", OF assms] by (auto simp: roster_def)

lemma rerole_refines:
  assumes "map_of (members d) k = Some m" and "m_role m \<noteq> ''owner''" and "m_role m' \<noteq> ''owner''"
  shows "roster_step\<^sup>*\<^sup>* (roster d) (roster (put_members (AList.update k m' (members d)) d))"
  unfolding roster_update
  using roster_step.rerole [of "map_of (members d)", OF assms] by (auto simp: roster_def)

lemma set_member_role_refines:
  "roster_step\<^sup>*\<^sup>* (roster d) (roster (fst (set_member_role env d now c h user r)))"
  unfolding set_member_role_def
  by (rule commit_rule)
    (auto simp: owner_text Let_def simp del: roster_put_members split: option.splits if_splits
      intro!: rerole_refines)

lemma hand_over_key_refines:
  "roster_step\<^sup>*\<^sup>* (roster d) (roster (fst (hand_over_key env d c user key_text)))"
  unfolding hand_over_key_def
  by (rule commit_rule)
    (auto simp del: roster_put_members split: option.splits intro!: rekey_refines)

lemma in_each:
  assumes "each f xs d = Inr d'" and "\<And>x d d'. f x d = Inr d' \<Longrightarrow> R\<^sup>*\<^sup>* (g d) (g d')"
  shows "R\<^sup>*\<^sup>* (g d) (g d')"
  using assms(1)
proof (induction xs arbitrary: d)
  case (Cons x xs)
  then show ?case
    by (auto split: sum.splits) (blast intro: rtranclp_trans assms(2))
qed simp

lemma rekey_member_refines:
  "rekey_member env org n x d = Inr d' \<Longrightarrow> roster_step\<^sup>*\<^sup>* (roster d) (roster d')"
  by (auto simp: rekey_member_def simp del: roster_put_members split: option.splits if_splits intro!: rekey_refines)

lemma rekey_roster:
  "rekey_proxy org xp d = Inr d' \<Longrightarrow> roster d' = roster d"
  "rekey_cookie org xc d = Inr d' \<Longrightarrow> roster d' = roster d"
  "rekey_bundle org xb d = Inr d' \<Longrightarrow> roster d' = roster d"
  "rekey_credential org xr d = Inr d' \<Longrightarrow> roster d' = roster d"
  "rekey_share env org xs d = Inr d' \<Longrightarrow> roster d' = roster d"
  by (auto simp: rekey_proxy_def rekey_cookie_def rekey_bundle_def rekey_credential_def rekey_share_def)

lemma remove_member_refines:
  assumes "remove_member c gone d = Inr d'"
  shows "roster_step\<^sup>*\<^sup>* (roster d) (roster d')"
proof -
  from assms obtain m r where m: "map_of (members d) (org_id c, gone) = Some m"
    and r: "parse_role (m_role m) = Some r" "r \<noteq> Owner" and d': "roster d' = ((map_of (members d))((org_id c, gone) := None), map_of (organisations d))"
    by (auto simp: remove_member_def may_remove_def roster_def members_def delete_conv'
        split: option.splits bind_splits if_splits)
  from r have "m_role m \<noteq> ''owner''" by (auto simp: owner_text)
  from roster_step.leave [of "map_of (members d)", OF m this] show ?thesis
    unfolding d' by (auto simp: roster_def)
qed

lemma each_frame:
  assumes "each f xs d = Inr d'" and "\<And>x d d'. f x d = Inr d' \<Longrightarrow> g d' = g d"
  shows "g d' = g d"
  using assms(1)
proof (induction xs arbitrary: d)
  case (Cons x xs)
  then show ?case by (auto split: sum.splits dest: assms(2))
qed simp

lemma rotate_tx_cases:
  assumes "rotate_tx env c req d = Inr (d', n)"
  obtains d1 d2 d3 d4 d5 d6 d7 where
    "map_of (org_generation (store d)) (org_id c) = Some (rr_generation req)" "n = rr_generation req + 1"
    "(case rr_remove req of None \<Rightarrow> Inr d | Some gone \<Rightarrow> remove_member c gone d) = Inr d1"
    "\<forall>i \<in> set (keyed_members d1 (org_id c)). i \<in> fst ` set (rr_members req)"
    "each (rekey_member env (org_id c) n) (rr_members req) d1 = Inr d2"
    "each (rekey_proxy (org_id c)) (rr_proxies req) d2 = Inr d3"
    "\<forall>i \<in> set (rotation_profiles d3 (org_id c)). fst i \<in> fst ` set (rr_cookie_keys req) \<or> Cookie_of (fst i) \<in> set (rr_unreadable req)"
    "each (rekey_cookie (org_id c)) (rr_cookie_keys req) d3 = Inr d4"
    "\<forall>i \<in> set (rotation_bundles d4 (org_id c)). fst i \<in> fst ` set (rr_bundles req) \<or> Bundle_of (fst i) \<in> set (rr_unreadable req)"
    "each (rekey_bundle (org_id c)) (rr_bundles req) d4 = Inr d5"
    "\<forall>i \<in> set (rotation_credentials d5 (org_id c)). fst i \<in> fst ` set (rr_credentials req) \<or> Credential_of (fst i) \<in> set (rr_unreadable req)"
    "each (rekey_credential (org_id c)) (rr_credentials req) d5 = Inr d6"
    "\<forall>i \<in> set (rotation_shares d6 (org_id c)). i \<in> fst ` set (rr_shares req)"
    "each (rekey_share env (org_id c)) (rr_shares req) d6 = Inr d7"
    "d' = d7\<lparr>store := (store d7)\<lparr>org_generation := AList.update (org_id c) n (org_generation (store d7))\<rparr>\<rparr>"
  using assms
  unfolding rotate_tx_def Let_def covered_def and_then_Inr demand_Inr generation_of_def
  by (clarsimp split: option.split_asm; (rule that, (assumption | rule refl | simp)+))

lemma rotate_tx_refines:
  assumes "rotate_tx env c req d = Inr (d', n)"
  shows "roster_step\<^sup>*\<^sup>* (roster d) (roster d')"
  using assms
proof (cases rule: rotate_tx_cases)
  case (1 d1 d2 d3 d4 d5 d6 d7)
  have "roster_step\<^sup>*\<^sup>* (roster d) (roster d1)" "roster d' = roster d7"
    using 1 by (auto dest: remove_member_refines split: option.splits)
  moreover have "roster_step\<^sup>*\<^sup>* (roster d1) (roster d2)"
    using 1(5) by (rule in_each) (rule rekey_member_refines)
  moreover have "roster d7 = roster d2"
    using each_frame [where g = roster, OF 1(6) rekey_roster(1)] each_frame [where g = roster, OF 1(8) rekey_roster(2)]
      each_frame [where g = roster, OF 1(10) rekey_roster(3)] each_frame [where g = roster, OF 1(12) rekey_roster(4)]
      each_frame [where g = roster, OF 1(14) rekey_roster(5)] by simp
  ultimately show ?thesis by simp
qed

section \<open>Coming in\<close>

lemma insert_user_frame:
  "insert_user i u taken d = Inr d' \<Longrightarrow> members d' = members d \<and> organisations d' = organisations d
     \<and> enrollments d' = enrollments d \<and> store d' = store d \<and> credentials d' = credentials d"
  by (auto simp: insert_user_def members_def split: if_splits)

lemma insert_org_cases:
  "insert_org i name d = Inr d' \<Longrightarrow> map_of (organisations d) i = None
     \<and> organisations d' = (i, name) # organisations d \<and> members d' = members d \<and> enrollments d' = enrollments d
     \<and> auth d' = auth d"
  by (auto simp: insert_org_def members_def split: if_splits)

lemma insert_member_cases:
  "insert_member org user m d = Inr d' \<Longrightarrow> map_of (members d) (org, user) = None
     \<and> map_of (organisations d) org \<noteq> None \<and> parse_role (m_role m) \<noteq> None
     \<and> members d' = ((org, user), m) # members d \<and> organisations d' = organisations d
     \<and> enrollments d' = enrollments d"
  by (auto simp: insert_member_def members_def put_members_def split: if_splits)

lemma insert_session_frame:
  "insert_session env now user mn random d = Inr (d', raw) \<Longrightarrow> members d' = members d
     \<and> organisations d' = organisations d \<and> enrollments d' = enrollments d"
  by (auto simp: insert_session_def new_token_def Let_def members_def split: if_splits)

lemma put_enrollment_frame [simp]:
  "members (put_enrollment i e d) = members d" "organisations (put_enrollment i e d) = organisations d"
  "enrollments (put_enrollment i e d) = AList.update i e (enrollments d)"
  by (simp_all add: put_enrollment_def members_def)

lemma create_account_cases:
  assumes "create_account env now req dr pub priv salt ork i e d = Inr (d', raw, org)"
  shows "\<exists>m. m_role m = en_role e \<and> m_wrapped_ork m = ork \<and> map_of (members d) (org, dr_user dr) = None
    \<and> members d' = ((org, dr_user dr), m) # members d
    \<and> enrollments d' = AList.update i (e\<lparr>en_used_at := Some now\<rparr>) (enrollments d)
    \<and> (en_org e = Some org \<and> map_of (organisations d) org \<noteq> None \<and> organisations d' = organisations d
       \<or> en_org e = None \<and> org = dr_org dr \<and> map_of (organisations d) org = None
         \<and> (\<exists>n. en_org_name e = Some n \<and> organisations d' = (org, n) # organisations d))"
proof (cases "en_org e")
  case None
  with assms obtain n d1 d2 d3 where n: "en_org_name e = Some n" "org = dr_org dr"
    and "insert_org org n d = Inr d1"
    and "insert_user (dr_user dr) (new_user (en_email e) (hash_password env (eq_password req) (dr_salt dr)) pub priv salt)
         (en_email e @ '' already has an account on this server'') d1 = Inr d2"
    and "insert_member org (dr_user dr) \<lparr>m_role = en_role e, m_wrapped_ork = ork,
         m_ork_generation = map_option (\<lambda>_. 1) ork\<rparr> d2 = Inr d3"
    and "insert_session (auth_part env) now (dr_user dr) (eq_machine_name req) (dr_token dr)
         (put_enrollment i (e\<lparr>en_used_at := Some now\<rparr>) d3) = Inr (d', raw)"
    by (auto simp: create_account_def map_sum_def split: option.splits sum.splits)
  then show ?thesis
    using None n
    by (auto dest!: insert_user_frame insert_org_cases insert_member_cases insert_session_frame)
next
  case (Some o')
  with assms obtain d2 d3 where n: "org = o'"
    and "insert_user (dr_user dr) (new_user (en_email e) (hash_password env (eq_password req) (dr_salt dr)) pub priv salt)
         (en_email e @ '' already has an account on this server'') d = Inr d2"
    and "insert_member org (dr_user dr) \<lparr>m_role = en_role e, m_wrapped_ork = ork,
         m_ork_generation = map_option (\<lambda>_. 1) ork\<rparr> d2 = Inr d3"
    and "insert_session (auth_part env) now (dr_user dr) (eq_machine_name req) (dr_token dr)
         (put_enrollment i (e\<lparr>en_used_at := Some now\<rparr>) d3) = Inr (d', raw)"
    by (auto simp: create_account_def)
  then show ?thesis
    using Some n
    by (auto dest!: insert_user_frame insert_member_cases insert_session_frame)
qed

lemma open_invitation_cases:
  "open_invitation env d now raw = Some (i, e) \<Longrightarrow> (i, e) \<in> set (enrollments d)
     \<and> en_code_hash e = hash_code env raw \<and> en_used_at e = None \<and> now < en_expires_at e"
  by (auto simp: open_invitation_def find_Some_iff) (use nth_mem in force)

lemma complete_enrollment_cases:
  assumes "complete_enrollment env d now req dr = (d', Inr (raw, org))"
  obtains i e pub priv salt ork where
    "open_invitation (auth_part env) d now (eq_code req) = Some (i, e)"
    "length pub = 32" "12 \<le> length (eq_password req)"
    "eq_wrapped_ork req = None \<and> ork = None \<or> (\<exists>v b. eq_wrapped_ork req = Some v \<and> base64 env v = Some b \<and> ork = Some b)"
    "email_check_applies env (en_role e) \<longrightarrow> email_proven env i e (eq_email_proof req)"
    "en_role e = ''owner'' \<longrightarrow> ork \<noteq> None"
    "create_account env now req dr pub priv salt ork i e d = Inr (d', raw, org)"
  using assms
  by (auto simp: complete_enrollment_def commit_Inr decoded_def map_sum_def split: option.splits sum.splits)

lemma join_refines:
  assumes "map_of (members d) (org, user) = None" and "members d' = ((org, user), m) # members d"
    and "map_of (organisations d) org \<noteq> None \<and> organisations d' = organisations d \<and> m_role m \<noteq> ''owner''
       \<or> map_of (organisations d) org = None \<and> organisations d' = (org, n) # organisations d"
  shows "roster_step\<^sup>*\<^sup>* (roster d) (roster d')"
  using assms(3)
proof (elim disjE conjE)
  assume "map_of (organisations d) org \<noteq> None" "organisations d' = organisations d" "m_role m \<noteq> ''owner''"
  then show ?thesis
    using roster_step.join [of "map_of (members d)", OF assms(1)] assms(2) by (auto simp: roster_def)
next
  assume "map_of (organisations d) org = None" "organisations d' = (org, n) # organisations d"
  then show ?thesis
    using roster_step.found [of "map_of (members d)", OF assms(1)] assms(2) by (auto simp: roster_def)
qed

lemma complete_enrollment_refines:
  assumes "invitations_ok d"
  shows "roster_step\<^sup>*\<^sup>* (roster d) (roster (fst (complete_enrollment env d now req dr)))"
proof (cases "snd (complete_enrollment env d now req dr)")
  case (Inl e)
  then have "fst (complete_enrollment env d now req dr) = d"
    unfolding complete_enrollment_def by (rule commit_error)
  then show ?thesis by simp
next
  case (Inr y)
  obtain raw org where y: "y = (raw, org)" by force
  define d' where "d' = fst (complete_enrollment env d now req dr)"
  have "complete_enrollment env d now req dr = (d', Inr (raw, org))"
    using Inr y by (simp add: d'_def prod_eq_iff)
  then obtain i e pub priv salt ork where
    inv: "open_invitation (auth_part env) d now (eq_code req) = Some (i, e)"
    and made: "create_account env now req dr pub priv salt ork i e d = Inr (d', raw, org)"
    by (rule complete_enrollment_cases)
  have "en_org e \<noteq> None \<longrightarrow> en_role e \<noteq> ''owner''"
    using assms open_invitation_cases [OF inv] by (auto simp: invitations_ok_def)
  then have "roster_step\<^sup>*\<^sup>* (roster d) (roster d')"
    using create_account_cases [OF made] by (auto intro: join_refines)
  then show ?thesis unfolding d'_def .
qed

lemma signup_refines:
  "roster_step\<^sup>*\<^sup>* (roster d) (roster (fst (signup env d now req dr)))"
  unfolding signup_def
  by (rule commit_rule)
    (auto simp: Let_def dest!: insert_user_frame insert_org_cases insert_member_cases insert_session_frame
      intro!: join_refines)
section \<open>Invitations as an abstract machine\<close>

type_synonym invitations = "(uuid \<times> enrollment_row) list"

inductive invitation_step :: "invitations \<Rightarrow> invitations \<Rightarrow> bool" where
  stay: "invitation_step es es"
| offer: "map_of es i = None \<Longrightarrow> en_code_hash e \<notin> en_code_hash ` snd ` set es \<Longrightarrow> en_used_at e = None \<Longrightarrow>
    (en_org e \<noteq> None \<Longrightarrow> en_role e \<noteq> ''owner'') \<Longrightarrow> invitation_step es ((i, e) # es)"
| change: "(i, e) \<in> set es \<Longrightarrow> en_used_at e = None \<Longrightarrow> en_code_hash e' = en_code_hash e \<Longrightarrow>
    en_role e' = en_role e \<Longrightarrow> en_org e' = en_org e \<Longrightarrow> invitation_step es (AList.update i e' es)"

lemma invitation_step_ok:
  assumes "invitation_step es es'" and "\<And>i e. (i, e) \<in> set es \<Longrightarrow> en_org e \<noteq> None \<Longrightarrow> en_role e \<noteq> ''owner''"
    and "(j, x) \<in> set es'" and "en_org x \<noteq> None"
  shows "en_role x \<noteq> ''owner''"
  using assms
proof (induction rule: invitation_step.induct)
  case (change i e es e')
  then show ?case by (metis in_update)
qed auto

definition codes_distinct :: "invitations \<Rightarrow> bool" where
  "codes_distinct es \<longleftrightarrow> distinct (map fst es) \<and> distinct (map (en_code_hash \<circ> snd) es)"

lemma update_hashes:
  "distinct (map fst es) \<Longrightarrow> (i, e) \<in> set es \<Longrightarrow> en_code_hash e' = en_code_hash e \<Longrightarrow>
   map (en_code_hash \<circ> snd) (AList.update i e' es) = map (en_code_hash \<circ> snd) es"
  by (induction es) (auto, force)

lemma invitation_step_distinct:
  "invitation_step es es' \<Longrightarrow> codes_distinct es \<Longrightarrow> codes_distinct es'"
proof (induction rule: invitation_step.induct)
  case (offer es i e)
  then show ?case
    by (auto simp: codes_distinct_def map_of_eq_None_iff image_image)
next
  case (change i e es e')
  then show ?case
    by (auto simp: codes_distinct_def update_hashes distinct_update)
qed

text \<open>A code is spent when it was given out and every row that has it is used.\<close>

definition spent :: "bytes \<Rightarrow> invitations \<Rightarrow> bool" where
  "spent h es \<longleftrightarrow> h \<in> en_code_hash ` snd ` set es
     \<and> (\<forall>i e. (i, e) \<in> set es \<and> en_code_hash e = h \<longrightarrow> en_used_at e \<noteq> None)"

lemma invitation_step_spent:
  "invitation_step es es' \<Longrightarrow> codes_distinct es \<Longrightarrow> spent h es \<Longrightarrow> spent h es'"
proof (induction rule: invitation_step.induct)
  case (change i e es e')
  then have "en_code_hash e' \<noteq> h" unfolding spent_def by (metis option.distinct(1))
  moreover have "en_code_hash ` snd ` set (AList.update i e' es) = en_code_hash ` snd ` set es"
    using update_hashes [of es i e e'] change.hyps change.prems
    by (metis codes_distinct_def image_comp list.set_map)
  ultimately show ?case
    using change.prems by (auto simp: spent_def dest: in_update)
qed (auto simp: spent_def)

lemma use_spends:
  assumes "codes_distinct es" and "(i, e) \<in> set es" and "en_code_hash e' = en_code_hash e" and "en_used_at e' \<noteq> None"
  shows "spent (en_code_hash e) (AList.update i e' es)"
proof -
  have d: "distinct (map fst es)" "distinct (map (en_code_hash \<circ> snd) es)"
    using assms(1) by (auto simp: codes_distinct_def)
  have "map (en_code_hash \<circ> snd) (AList.update i e' es) = map (en_code_hash \<circ> snd) es"
    using update_hashes [OF d(1) assms(2,3)] .
  then have d': "distinct (map (en_code_hash \<circ> snd) (AList.update i e' es))" using d by simp
  have "(i, e') \<in> set (AList.update i e' es)"
    using map_of_SomeD [of "AList.update i e' es" i e'] by (simp add: lookup_update)
  then show ?thesis
    using d' assms(3,4) unfolding spent_def distinct_map inj_on_def
    by (force simp: image_iff)
qed
lemma enrollments_frame [simp]:
  "enrollments (team_audit c a t d) = enrollments d" "enrollments (put_grants gs d) = enrollments d"
  "enrollments (put_roles rs d) = enrollments d" "enrollments (put_members ms d) = enrollments d"
  "enrollments (on_store f d) = enrollments d" "enrollments (logout d c) = enrollments d"
  by (simp_all add: team_audit_def put_grants_def put_roles_def put_members_def on_store_def logout_def)

lemma open_invitation_change:
  assumes "open_invitation env d now raw = Some (i, e)" and "en_code_hash e' = en_code_hash e"
    and "en_role e' = en_role e" and "en_org e' = en_org e"
  shows "invitation_step (enrollments d) (AList.update i e' (enrollments d))"
  using open_invitation_cases [OF assms(1)] assms(2-) by (blast intro: invitation_step.change)

lemma issue_offers:
  assumes "issue env d now email target r fresh random = Inr (d', raw)" and "\<forall>i. target = Existing i \<longrightarrow> r \<noteq> ''owner''"
  shows "invitation_step (enrollments d) (enrollments d') \<and> roster d' = roster d"
proof -
  obtain e where d': "d' = d\<lparr>enrollments := (fresh, e) # enrollments d\<rparr>"
    and e: "map_of (enrollments d) fresh = None" "en_code_hash e \<notin> en_code_hash ` snd ` set (enrollments d)"
      "en_used_at e = None" "en_org e \<noteq> None \<Longrightarrow> en_role e \<noteq> ''owner''"
    using issue_cases [OF assms(1)] assms(2) by (force split: org_target.splits)
  show ?thesis using invitation_step.offer [OF e] d' by simp
qed

lemma cli_invite_refines:
  "invitation_step (enrollments d) (enrollments (fst (cli_invite env d now email org oname r fresh random)))
   \<and> roster (fst (cli_invite env d now email org oname r fresh random)) = roster d"
proof (cases "cli_invite env d now email org oname r fresh random")
  case (Pair d' res)
  show ?thesis
  proof (cases res)
    case (Inl e)
    then have "d' = d"
      using Pair unfolding cli_invite_def Let_def
      by (auto simp: commit_Inl split: if_splits option.splits sum.splits org_target.splits)
    then show ?thesis using Pair by (simp add: invitation_step.stay)
  next
    case (Inr raw)
    with Pair cli_invite_cases show ?thesis by (fastforce dest!: issue_offers)
  qed
qed

lemma create_invitation_refines:
  "invitation_step (enrollments d) (enrollments (fst (create_invitation env d now c email r fresh random)))
   \<and> roster (fst (create_invitation env d now c email r fresh random)) = roster d"
proof (cases "create_invitation env d now c email r fresh random")
  case (Pair d' res)
  show ?thesis
  proof (cases res)
    case (Inl e)
    with Pair have "snd (create_invitation env d now c email r fresh random) = Inl e" by simp
    then have "fst (create_invitation env d now c email r fresh random) = d"
      unfolding create_invitation_def by (rule commit_error)
    then have "d' = d" using Pair by simp
    then show ?thesis using Pair by (simp add: invitation_step.stay)
  next
    case (Inr raw)
    with Pair create_invitation_cases show ?thesis by (fastforce dest!: issue_offers)
  qed
qed

lemma letter_refines:
  "invitation_step (enrollments d) (enrollments (fst (enroll_email_send env d now raw n sent)))
   \<and> roster (fst (enroll_email_send env d now raw n sent)) = roster d"
  unfolding enroll_email_send_def
  by (rule commit_rule)
    (auto simp: Let_def split: option.splits if_splits intro!: invitation_step.stay open_invitation_change)

lemma digits_refines:
  "invitation_step (enrollments d) (enrollments (fst (enroll_email_verify env d now raw typed random)))
   \<and> roster (fst (enroll_email_verify env d now raw typed random)) = roster d"
  unfolding enroll_email_verify_def
  by (auto simp: Let_def split: option.splits if_splits intro!: invitation_step.stay open_invitation_change)

lemma complete_enrollment_invitations:
  "invitation_step (enrollments d) (enrollments (fst (complete_enrollment env d now req dr)))"
proof (cases "snd (complete_enrollment env d now req dr)")
  case (Inl e)
  then have "fst (complete_enrollment env d now req dr) = d"
    unfolding complete_enrollment_def by (rule commit_error)
  then show ?thesis by (simp add: invitation_step.stay)
next
  case (Inr y)
  obtain raw org where y: "y = (raw, org)" by force
  define d' where "d' = fst (complete_enrollment env d now req dr)"
  have "complete_enrollment env d now req dr = (d', Inr (raw, org))"
    using Inr y by (simp add: d'_def prod_eq_iff)
  then obtain i e pub priv salt ork where
    inv: "open_invitation (auth_part env) d now (eq_code req) = Some (i, e)"
    and made: "create_account env now req dr pub priv salt ork i e d = Inr (d', raw, org)"
    by (rule complete_enrollment_cases)
  have "enrollments d' = AList.update i (e\<lparr>en_used_at := Some now\<rparr>) (enrollments d)"
    using create_account_cases [OF made] by auto
  then show ?thesis unfolding d'_def [symmetric] by (simp add: open_invitation_change [OF inv])
qed

lemma signup_invitations: "enrollments (fst (signup env d now req dr)) = enrollments d"
  unfolding signup_def
  by (rule commit_rule)
    (auto simp: Let_def dest!: insert_user_frame insert_org_cases insert_member_cases insert_session_frame)

lemma rekey_invitations:
  "rekey_member env org n xm d = Inr d' \<Longrightarrow> enrollments d' = enrollments d"
  "rekey_proxy org xp d = Inr d' \<Longrightarrow> enrollments d' = enrollments d"
  "rekey_cookie org xc d = Inr d' \<Longrightarrow> enrollments d' = enrollments d"
  "rekey_bundle org xb d = Inr d' \<Longrightarrow> enrollments d' = enrollments d"
  "rekey_credential org xr d = Inr d' \<Longrightarrow> enrollments d' = enrollments d"
  "rekey_share env org xs d = Inr d' \<Longrightarrow> enrollments d' = enrollments d"
  by (auto simp: rekey_member_def rekey_proxy_def rekey_cookie_def rekey_bundle_def rekey_credential_def
      rekey_share_def split: option.splits if_splits)

lemma rotate_tx_invitations:
  assumes "rotate_tx env c req d = Inr (d', n)"
  shows "enrollments d' = enrollments d"
  using assms
proof (cases rule: rotate_tx_cases)
  case (1 d1 d2 d3 d4 d5 d6 d7)
  have "enrollments d1 = enrollments d"
    using 1(3) by (auto simp: remove_member_def split: option.splits)
  moreover have "enrollments d7 = enrollments d1"
    using each_frame [where g = enrollments, OF 1(5) rekey_invitations(1)]
      each_frame [where g = enrollments, OF 1(6) rekey_invitations(2)]
      each_frame [where g = enrollments, OF 1(8) rekey_invitations(3)]
      each_frame [where g = enrollments, OF 1(10) rekey_invitations(4)]
      each_frame [where g = enrollments, OF 1(12) rekey_invitations(5)]
      each_frame [where g = enrollments, OF 1(14) rekey_invitations(6)] by simp
  ultimately show ?thesis using 1(15) by simp
qed

lemma rotate_invitations: "enrollments (fst (rotate_org_key env d now c h req)) = enrollments d"
  unfolding rotate_org_key_def
  by (rule commit_rule) (auto simp: map_sum_def split: sum.splits if_splits dest: rotate_tx_invitations)

lemma rotate_refines: "roster_step\<^sup>*\<^sup>* (roster d) (roster (fst (rotate_org_key env d now c h req)))"
  unfolding rotate_org_key_def
  by (rule commit_rule) (auto simp: map_sum_def split: sum.splits if_splits dest: rotate_tx_refines)

lemma role_invitations:
  "enrollments (fst (set_member_role aenv d now c h user r)) = enrollments d"
  "enrollments (fst (hand_over_key env d c user key_text)) = enrollments d"
  "enrollments (fst (upsert_access_role d c ru fresh)) = enrollments d"
  "enrollments (fst (delete_access_role d c i)) = enrollments d"
  unfolding set_member_role_def hand_over_key_def upsert_access_role_def delete_access_role_def
  by ((rule commit_rule, simp), (auto simp: Let_def split: option.splits if_splits))+

lemma role_roster:
  "roster (fst (upsert_access_role d c ru fresh)) = roster d"
  "roster (fst (delete_access_role d c i)) = roster d"
  unfolding upsert_access_role_def delete_access_role_def
  by ((rule commit_rule, simp), (auto simp: Let_def split: option.splits if_splits))+
section \<open>Every run\<close>

lemma act_members: "au_members (fst (act env d now c h a)) = au_members d"
  unfolding act_def totp_verify_def totp_setup_def totp_confirm_def totp_disable_def put_policy_def
    revoke_session_def revoke_member_sessions_def set_user_def Let_def
  by (auto split: auth_action.split option.split sum.split bool.split)

lemma authenticate_members: "authenticate env d now h = (a, r) \<Longrightarrow> au_members a = au_members d"
  using authenticate_frame(3) [of env d now h] by (simp add: other_tables_def)

lemma serve_auth_members: "au_members (serve_auth env d ev) = au_members d"
  by (auto simp: serve_auth_def answer_def login_frame login_totp_frame act_members authenticate_members
      split: prod.split auth_request.split sum.split)

lemma with_caller_rule:
  assumes "\<And>a. au_members a = au_members (auth d) \<Longrightarrow> P (d\<lparr>auth := a\<rparr>)"
    and "\<And>a c. au_members a = au_members (auth d) \<Longrightarrow> P (f (d\<lparr>auth := a\<rparr>) c)"
  shows "P (with_caller env d now h f)"
  using assms authenticate_members unfolding with_caller_def by (auto split: prod.split sum.split)

lemma with_caller_refines:
  assumes "\<And>d c. roster_step\<^sup>*\<^sup>* (roster d) (roster (f d c)) \<and> invitation_step (enrollments d) (enrollments (f d c))"
  shows "roster_step\<^sup>*\<^sup>* (roster d) (roster (with_caller env d now h f))
    \<and> invitation_step (enrollments d) (enrollments (with_caller env d now h f))"
proof (rule with_caller_rule)
  fix a :: auth_db
  assume a: "au_members a = au_members (auth d)"
  then show "roster_step\<^sup>*\<^sup>* (roster d) (roster (d\<lparr>auth := a\<rparr>))
      \<and> invitation_step (enrollments d) (enrollments (d\<lparr>auth := a\<rparr>))"
    by (simp add: roster_auth invitation_step.stay)
  show "roster_step\<^sup>*\<^sup>* (roster d) (roster (f (d\<lparr>auth := a\<rparr>) c))
      \<and> invitation_step (enrollments d) (enrollments (f (d\<lparr>auth := a\<rparr>) c))" for c
    using assms [of "d\<lparr>auth := a\<rparr>" c] by (simp add: roster_auth [OF a])
qed

lemmas handler_refines =
  cli_invite_refines create_invitation_refines letter_refines digits_refines complete_enrollment_refines
  complete_enrollment_invitations signup_refines signup_invitations set_member_role_refines
  hand_over_key_refines rotate_refines rotate_invitations role_invitations role_roster invitation_step.stay

lemma serve_team_refines:
  assumes "invitations_ok d"
  shows "roster_step\<^sup>*\<^sup>* (roster d) (roster (serve_team env d ev))
    \<and> invitation_step (enrollments d) (enrollments (serve_team env d ev))"
proof -
  obtain now req where ev: "ev = (now, req)" by force
  show ?thesis
    unfolding ev serve_team_def
    by (cases req)
      (simp_all add: assms handler_refines with_caller_refines roster_auth serve_auth_members)
qed

lemma invitations_ok_step:
  assumes "invitations_ok d"
  shows "invitations_ok (serve_team env d ev)"
  using invitation_step_ok [OF serve_team_refines [OF assms, THEN conjunct2]] assms
  unfolding invitations_ok_def by blast

lemma run_team_roster:
  assumes "invitations_ok d"
  shows "roster_step\<^sup>*\<^sup>* (roster d) (roster (run_team env d evs))"
proof -
  define I where "I x \<longleftrightarrow> invitations_ok x \<and> roster_step\<^sup>*\<^sup>* (roster d) (roster x)" for x
  have "I (run_team env d evs)"
  proof (rule team_events.kept)
    show "I d" using assms by (simp add: I_def)
    show "I (serve_team env x ev)" if "I x" for x ev
      using that serve_team_refines [of x env ev] invitations_ok_step [of x env ev]
      unfolding I_def by (blast intro: rtranclp_trans)
  qed
  then show ?thesis by (simp add: I_def)
qed

definition invitations_inv :: "team_db \<Rightarrow> bool" where
  "invitations_inv d \<longleftrightarrow> invitations_ok d \<and> codes_distinct (enrollments d)"

lemma invitations_inv_step: "invitations_inv d \<Longrightarrow> invitations_inv (serve_team env d ev)"
  unfolding invitations_inv_def
  using invitations_ok_step serve_team_refines invitation_step_distinct by blast

lemma spent_run:
  assumes "invitations_inv d" and "spent h (enrollments d)"
  shows "spent h (enrollments (run_team env d evs))"
proof -
  have "invitations_inv (run_team env d evs) \<and> spent h (enrollments (run_team env d evs))"
  proof (rule team_events.kept [where I = "\<lambda>x. invitations_inv x \<and> spent h (enrollments x)"])
    fix x ev
    assume x: "invitations_inv x \<and> spent h (enrollments x)"
    then show "invitations_inv (serve_team env x ev) \<and> spent h (enrollments (serve_team env x ev))"
      using serve_team_refines [of x env ev] invitation_step_spent invitations_inv_step
      unfolding invitations_inv_def by blast
  qed (simp add: assms)
  then show ?thesis ..
qed

text \<open>A completed enrolment spends the code it was made with.\<close>

definition accepted_with :: "team_env \<Rightarrow> team_db \<Rightarrow> time \<times> team_request \<Rightarrow> bytes \<Rightarrow> bool" where
  "accepted_with env d ev h =
     (case ev of
        (now, Enrol r dr) \<Rightarrow> hash_code (auth_part env) (eq_code r) = h
          \<and> (case snd (complete_enrollment env d now r dr) of Inl _ \<Rightarrow> False | Inr _ \<Rightarrow> True)
      | _ \<Rightarrow> False)"

lemma accepted_spends:
  assumes "invitations_inv d" and "accepted_with env d ev h"
  shows "\<not> spent h (enrollments d)" and "spent h (enrollments (serve_team env d ev))"
proof -
  obtain now r dr y where ev: "ev = (now, Enrol r dr)" and h: "hash_code (auth_part env) (eq_code r) = h"
    and "snd (complete_enrollment env d now r dr) = Inr y"
    using assms(2) by (auto simp: accepted_with_def split: prod.splits team_request.splits sum.splits)
  then obtain d' raw org where done': "complete_enrollment env d now r dr = (d', Inr (raw, org))"
    by (metis prod.collapse)
  then obtain i e pub priv salt ork where
    inv: "open_invitation (auth_part env) d now (eq_code r) = Some (i, e)"
    and made: "create_account env now r dr pub priv salt ork i e d = Inr (d', raw, org)"
    by (rule complete_enrollment_cases)
  have row: "(i, e) \<in> set (enrollments d)" "en_code_hash e = h" "en_used_at e = None"
    using open_invitation_cases [OF inv] h by auto
  then show "\<not> spent h (enrollments d)" by (auto simp: spent_def)
  have "enrollments (serve_team env d ev) = AList.update i (e\<lparr>en_used_at := Some now\<rparr>) (enrollments d)"
    using create_account_cases [OF made] done' by (auto simp: serve_team_def ev)
  then show "spent h (enrollments (serve_team env d ev))"
    using use_spends [of "enrollments d" i e "e\<lparr>en_used_at := Some now\<rparr>"] row assms(1)
    by (simp add: invitations_inv_def)
qed
section \<open>A team to try it on\<close>

definition team_env_1 :: team_env where
  "team_env_1 = \<lparr>auth_part = demo_auth, base64 = (\<lambda>s. Some (text_bytes s)), hash_password = (\<lambda>p salt. p),
     mailer = False, open_signup = True, max_orgs = None\<rparr>"

definition store_1 :: db where
  "store_1 = \<lparr>users = [], org_members = [], projects = [(20, \<lparr>pr_org = 3, pr_name = ''p'', pr_description = [], pr_color = None, pr_deleted = False\<rparr>)],
     project_grants = [((20, 8), \<lparr>g_permissions = from_iter [View], g_granted_by = 7, g_expires_at = None,
       g_domain_lists = [], g_access_role = Some 30\<rparr>)],
     profiles = [], profile_grants = [], proxies = [],
     access_roles = [(30, \<lparr>ar_org = 3, ar_name = ''r'', ar_permissions = from_iter [View]\<rparr>)],
     domain_lists = [], org_personas = [], profile_locks = [], bundles = [], org_generation = [(3, 1)], files = [], audit_events = []\<rparr>"

definition invitation_1 :: enrollment_row where
  "invitation_1 = \<lparr>en_code_hash = text_bytes ''ab'', en_email = ''n'', en_org = Some 3, en_org_name = None,
     en_role = ''member'', en_expires_at = 100, en_used_at = None, en_email_code_hash = None,
     en_email_code_expires_at = None, en_email_code_attempts = 0, en_email_code_sent_at = None,
     en_email_codes_sent = 0, en_email_proof_hash = None\<rparr>"

definition team_1 :: team_db where
  "team_1 = \<lparr>auth = demo_server\<lparr>au_users := [(7, demo_user), (8, demo_user\<lparr>u_email := ''p''\<rparr>)],
       au_members := [((3, 7), \<lparr>m_role = ''owner'', m_wrapped_ork = Some [1], m_ork_generation = Some 1\<rparr>),
         ((3, 8), \<lparr>m_role = ''member'', m_wrapped_ork = None, m_ork_generation = None\<rparr>)],
       au_sessions := [(text_bytes ''2a'', demo_session)]\<rparr>,
     store = store_1, organisations = [(3, ''Acme'')], enrollments = [(1, invitation_1)], credentials = []\<rparr>"

definition request_1 :: enroll_request where
  "request_1 = \<lparr>eq_code = ''ab'', eq_password = ''correct horse'', eq_public_key = replicate 32 CHR ''k'',
     eq_wrapped_private_key = [], eq_kdf_salt = [], eq_wrapped_ork = Some ''x'', eq_machine_name = ''m'',
     eq_email_proof = None\<rparr>"

definition draw_1 :: draw where
  "draw_1 = \<lparr>dr_user = 9, dr_org = 4, dr_salt = [], dr_token = [0x33]\<rparr>"

lemmas team_1_simps = team_env_1_def store_1_def invitation_1_def team_1_def request_1_def draw_1_def demo_server_def
  demo_user_def demo_session_def

lemma hash_1: "hash_code demo_auth ''ab'' = text_bytes ''ab''" "hex_of_bytes [0x33] = ''33''"
  "token_hash demo_auth = text_bytes" "\<not> eq_ignore_case ''o'' ''n''" "\<not> eq_ignore_case ''p'' ''n''"
proof -
  have "normalise_code ''ab'' = ''ab''" by code_simp
  then show "hash_code demo_auth ''ab'' = text_bytes ''ab''" by (simp add: hash_code_def demo_auth_def)
  show "token_hash demo_auth = text_bytes" by (simp add: demo_auth_def)
qed code_simp+

lemma team_1_ok: "roster_ok (roster team_1)" "invitations_inv team_1"
  by (auto simp: roster_ok_def is_owner_def roster_def members_def invitations_inv_def invitations_ok_def
      codes_distinct_def team_1_simps split: if_splits)

text \<open>The invited member hands in a key of one byte, and holds it.\<close>

lemma request_1_made:
  "complete_enrollment team_env_1 team_1 5 request_1 draw_1 = (d', r) \<Longrightarrow>
   r = Inr (''33'', 3) \<and> (\<exists>m. map_of (members d') (3, 9) = Some m \<and> m_wrapped_ork m = Some (text_bytes ''x''))"
  by (auto simp: complete_enrollment_def decoded_def open_invitation_def team_1_simps hash_1 email_check_applies_def
      create_account_def insert_user_def new_user_def insert_member_def members_def put_members_def parse_role_def
      put_enrollment_def insert_session_def new_token_def commit_def and_then_def demand_def
      text_bytes_def)
section \<open>Owners, codes and keys over a run\<close>

text \<open>
  C18. Whatever invitations, enrolments, sign-ups, changes of role, rotations with or without a
  removal, grants and sign-ins a server handles, and in whatever order, what they do to the
  roster is a sequence of the five moves of \<open>roster_step\<close>: nobody becomes an owner except with
  a new organisation, an owner is never demoted or removed, and no organisation ever has two.
\<close>

theorem runs_refine_the_roster:
  assumes "roster_ok (roster d)" and "invitations_inv d"
  shows "roster_step\<^sup>*\<^sup>* (roster d) (roster (run_team env d evs))
    \<and> (is_owner (roster d) org u \<longrightarrow>
        (\<forall>v. is_owner (roster (run_team env d evs)) org v \<longleftrightarrow> v = u))"
proof -
  let ?r = "roster (run_team env d evs)"
  have steps: "roster_step\<^sup>*\<^sup>* (roster d) ?r"
    using assms(2) by (simp add: invitations_inv_def run_team_roster)
  have "roster_ok ?r" and "is_owner (roster d) org u \<Longrightarrow> is_owner ?r org u"
    using roster_steps_ok [OF steps assms(1), of org u] by simp_all
  then show ?thesis using steps unfolding roster_ok_def by blast
qed

lemma runs_refine_the_roster_witness:
  "is_owner (roster team_1) 3 7 \<and> \<not> is_owner (roster (run_team team_env_1 team_1 [(5, Enrol request_1 draw_1)])) 3 9"
proof -
  have "is_owner (roster team_1) 3 7" by (simp add: is_owner_def roster_def members_def team_1_simps)
  then show ?thesis
    using runs_refine_the_roster [OF team_1_ok, of team_env_1 "[(5, Enrol request_1 draw_1)]" 3 7] by simp
qed

text \<open>
  C19. One invitation, one account: after a request has completed an enrolment with a code, no
  later request completes another with the same code, whatever the server handles in between.
\<close>

theorem one_account_per_invitation:
  assumes "invitations_inv d" and "accepted_with env (run_team env d pre) e h"
  shows "\<not> accepted_with env (run_team env d (pre @ e # mid)) e' h"
proof -
  have inv: "invitations_inv (run_team env d evs)" for evs
    using team_events.kept [where I = invitations_inv] invitations_inv_step assms(1) by blast
  have "spent h (enrollments (serve_team env (run_team env d pre) e))"
    using accepted_spends [OF inv assms(2)] by simp
  then have "spent h (enrollments (run_team env (serve_team env (run_team env d pre) e) mid))"
    using spent_run [OF invitations_inv_step [OF inv]] by blast
  then show ?thesis
    using accepted_spends(1) [OF inv [of "pre @ e # mid"], of env e' h]
    by (auto simp: team_events.run_append team_events.run_Cons)
qed

lemma one_account_per_invitation_witness:
  "accepted_with team_env_1 team_1 (5, Enrol request_1 draw_1) (text_bytes ''ab'')
   \<and> \<not> accepted_with team_env_1 (run_team team_env_1 team_1 [(5, Enrol request_1 draw_1)])
       (6, Enrol request_1 (draw_1\<lparr>dr_user := 10\<rparr>)) (text_bytes ''ab'')"
proof -
  have "accepted_with team_env_1 team_1 (5, Enrol request_1 draw_1) (text_bytes ''ab'')"
    using request_1_made [of "fst (complete_enrollment team_env_1 team_1 5 request_1 draw_1)"
        "snd (complete_enrollment team_env_1 team_1 5 request_1 draw_1)"]
    by (simp add: accepted_with_def team_env_1_def request_1_def hash_1)
  then show ?thesis
    using one_account_per_invitation [OF team_1_ok(2), of team_env_1 "[]" "(5, Enrol request_1 draw_1)"
        "text_bytes ''ab''" "[]"] by (simp add: team_events.run_Nil)
qed

lemma made_member_key:
  assumes "create_account env now req dr pub priv salt ork i e d = Inr (d', raw, org)"
  shows "map_of (members d') (org, dr_user dr)
    = Some \<lparr>m_role = en_role e, m_wrapped_ork = ork, m_ork_generation = map_option (\<lambda>_. 1) ork\<rparr>"
  using assms
  by (auto simp: create_account_def insert_member_def members_def put_members_def put_enrollment_def
      insert_session_def new_token_def Let_def split: option.splits if_splits)

lemma keyed_lists: "map_of (members d) (org, u) = Some m \<Longrightarrow> m_wrapped_ork m \<noteq> None \<Longrightarrow> u \<in> set (keyed_members d org)"
  by (force simp: keyed_members_def dest: map_of_SomeD)

text \<open>
  Whoever completes an enrolment decides what their membership row holds as the sealed
  organisation key: the bytes sent are stored as they are, of any length and for any role, under
  generation 1 whatever generation is in force, and from then on a rotation is refused unless it
  carries a new key for them.
\<close>

theorem enrolment_stores_any_key:
  assumes "complete_enrollment env d now req dr = (d', Inr (raw, org))"
    and "eq_wrapped_ork req = Some v" and "base64 env v = Some b"
  shows "(\<exists>m. map_of (members d') (org, dr_user dr) = Some m \<and> m_wrapped_ork m = Some b \<and> m_ork_generation m = Some 1)
    \<and> (\<forall>c req'. org_id c = org \<and> rr_remove req' = None \<and> dr_user dr \<notin> fst ` set (rr_members req')
        \<longrightarrow> (\<exists>x. rotate_tx env c req' d' = Inl x))"
proof -
  from assms(1) obtain i e pub priv salt ork where
    ork: "eq_wrapped_ork req = None \<and> ork = None
      \<or> (\<exists>v b. eq_wrapped_ork req = Some v \<and> base64 env v = Some b \<and> ork = Some b)"
    and made: "create_account env now req dr pub priv salt ork i e d = Inr (d', raw, org)"
    by (rule complete_enrollment_cases)
  have "ork = Some b" using ork assms(2,3) by auto
  then have row: "map_of (members d') (org, dr_user dr)
      = Some \<lparr>m_role = en_role e, m_wrapped_ork = Some b, m_ork_generation = Some 1\<rparr>"
    using made_member_key [OF made] by simp
  have keyed: "dr_user dr \<in> set (keyed_members d' org)" using keyed_lists [OF row] by simp
  have "\<exists>x. rotate_tx env c req' d' = Inl x"
    if "org_id c = org" "rr_remove req' = None" "dr_user dr \<notin> fst ` set (rr_members req')" for c req'
  proof (cases "rotate_tx env c req' d'")
    case (Inr y)
    then obtain d2 n where "rotate_tx env c req' d' = Inr (d2, n)" by (cases y) simp
    then show ?thesis using that keyed by (cases rule: rotate_tx_cases) auto
  qed simp
  then show ?thesis using row by simp
qed

lemma enrolment_stores_any_key_witness:
  "\<exists>d'. (\<exists>m. map_of (members d') (3, 9) = Some m \<and> m_wrapped_ork m = Some (text_bytes ''x''))
     \<and> complete_enrollment team_env_1 team_1 5 request_1 draw_1 = (d', Inr (''33'', 3))"
proof -
  obtain d' where made: "complete_enrollment team_env_1 team_1 5 request_1 draw_1 = (d', Inr (''33'', 3))"
    using request_1_made by (metis prod.collapse)
  have "dr_user draw_1 = 9" "eq_wrapped_ork request_1 = Some ''x''" "base64 team_env_1 ''x'' = Some (text_bytes ''x'')"
    by (simp_all add: draw_1_def request_1_def team_env_1_def)
  then show ?thesis using enrolment_stores_any_key [OF made, of "''x''"] made by auto
qed
end
