(* ===== verification/Rotation_Spec.thy ===== *)
theory Rotation_Spec
  imports Team_Protocol
begin

text \<open>
  What a rotation of the organisation key leaves behind: every membership that holds a key, every
  cookie key, shared bundle, credential and share of the organisation is rewritten from the
  request or named in it as unreadable. Proxies are the exception.
\<close>

section \<open>Loops over the entries of a request\<close>

lemma each_keeps:
  assumes "each f xs d = Inr d'" and "\<And>y d d'. y \<in> set xs \<Longrightarrow> f y d = Inr d' \<Longrightarrow> Q d \<Longrightarrow> Q d'" and "Q d"
  shows "Q d'"
  using assms
proof (induction xs arbitrary: d)
  case (Cons x xs)
  from Cons.prems(1) obtain d1 where d1: "f x d = Inr d1" "each f xs d1 = Inr d'" by (auto split: sum.splits)
  show ?case
    by (rule Cons.IH [OF d1(2)]) (use Cons.prems d1 in auto)
qed simp



section \<open>What each kind of row holds afterwards\<close>












section \<open>A whole rotation\<close>




lemma rotate_org_key_cases:
  assumes "rotate_org_key env d now c h req = (d', Inr n)"
  obtains d1 where "rotate_tx env c req d = Inr (d1, n)" "d' = team_audit c ''org.rotate'' None d1" "manages c"
    "rr_remove req \<noteq> Some (user_id c)"
  using assms unfolding rotate_org_key_def
  by (auto simp: commit_Inr map_sum_def split: sum.splits)

lemma audit_same [simp]:
  "store (team_audit c a t d) = store d" "credentials (team_audit c a t d) = credentials d"
  "members (team_audit c a t d) = members d" "au_users (auth (team_audit c a t d)) = au_users (auth d)"
  "au_sessions (auth (team_audit c a t d)) = au_sessions (auth d)"
  by (simp_all add: team_audit_def audit_by_def members_def)


section \<open>A removal\<close>

lemma remove_member_cases:
  assumes "remove_member c gone d = Inr d'"
  shows "map_of (members d') (org_id c, gone) = None \<and> (\<forall>e \<in> set (au_sessions (auth d')). s_user (snd e) \<noteq> gone)
    \<and> (\<forall>e \<in> set (project_grants (store d')). snd (fst e) \<noteq> gone)
    \<and> (\<forall>e \<in> set (profile_locks (store d')). l_user (snd e) \<noteq> gone)
    \<and> profile_grants (store d') = profile_grants (store d) \<and> au_users (auth d') = au_users (auth d)
    \<and> profiles (store d') = profiles (store d)
    \<and> (\<exists>m r. map_of (members d) (org_id c, gone) = Some m \<and> parse_role (m_role m) = Some r \<and> may_remove (role c) r = Inr ())"
  using assms by (auto simp: remove_member_def members_def lookup_delete split: option.splits bind_splits)

definition out :: "uuid \<Rightarrow> uuid \<Rightarrow> team_db \<Rightarrow> bool" where
  "out org gone d \<longleftrightarrow> map_of (members d) (org, gone) = None
     \<and> (\<forall>e \<in> set (au_sessions (auth d)). s_user (snd e) \<noteq> gone)
     \<and> (\<forall>e \<in> set (project_grants (store d)). snd (fst e) \<noteq> gone)
     \<and> (\<forall>e \<in> set (profile_locks (store d)). l_user (snd e) \<noteq> gone)"

definition out_view :: "team_db \<Rightarrow> (bytes \<times> session_row) list \<times> ((uuid \<times> uuid) \<times> grant_row) list \<times> (uuid \<times> lock_row) list" where
  "out_view d = (au_sessions (auth d), project_grants (store d), profile_locks (store d))"

lemma out_cong:
  "out_view d' = out_view d \<Longrightarrow> map_of (members d') (org, gone) = map_of (members d) (org, gone) \<Longrightarrow>
   out org gone d' = out org gone d"
  by (simp add: out_def out_view_def)

lemma rekey_out_view:
  "rekey_member env org' n xm d = Inr d' \<Longrightarrow> out_view d' = out_view d"
  "rekey_proxy org' xp d = Inr d' \<Longrightarrow> out_view d' = out_view d"
  "rekey_cookie org' xc d = Inr d' \<Longrightarrow> out_view d' = out_view d"
  "rekey_bundle org' xb d = Inr d' \<Longrightarrow> out_view d' = out_view d"
  "rekey_credential org' xr d = Inr d' \<Longrightarrow> out_view d' = out_view d"
  "rekey_share env org' xs d = Inr d' \<Longrightarrow> out_view d' = out_view d"
  by (auto simp: rekey_member_def rekey_proxy_def rekey_cookie_def rekey_bundle_def rekey_credential_def
      rekey_share_def put_members_def out_view_def split: option.splits if_splits)

lemma rekey_gone:
  assumes "rekey_member env org' n x d = Inr d'" and "map_of (members d) (org, gone) = None"
  shows "map_of (members d') (org, gone) = None"
proof -
  obtain w where "d' = (case map_of (members d) (org', fst x) of None \<Rightarrow> d
       | Some m \<Rightarrow> if m_wrapped_ork m = None then d else put_members (AList.update (org', fst x)
           (m\<lparr>m_wrapped_ork := Some w, m_ork_generation := Some n\<rparr>) (members d)) d)"
    using assms(1) unfolding rekey_member_def and_then_Inr by auto
  then show ?thesis
    using assms(2) by (auto simp: put_members_def members_def lookup_update split: option.split)
qed

lemma rekey_rows:
  "rekey_proxy org' xp d = Inr d' \<Longrightarrow> members d' = members d"
  "rekey_cookie org' xc d = Inr d' \<Longrightarrow> members d' = members d"
  "rekey_bundle org' xb d = Inr d' \<Longrightarrow> members d' = members d"
  "rekey_credential org' xr d = Inr d' \<Longrightarrow> members d' = members d"
  "rekey_share env org' xs d = Inr d' \<Longrightarrow> members d' = members d"
  by (auto simp: rekey_proxy_def rekey_cookie_def rekey_bundle_def rekey_credential_def rekey_share_def members_def)

lemma rekey_out:
  "rekey_member env org' n xm d = Inr d' \<Longrightarrow> out org gone d \<Longrightarrow> out org gone d'"
  "rekey_proxy org' xp d = Inr d' \<Longrightarrow> out org gone d \<Longrightarrow> out org gone d'"
  "rekey_cookie org' xc d = Inr d' \<Longrightarrow> out org gone d \<Longrightarrow> out org gone d'"
  "rekey_bundle org' xb d = Inr d' \<Longrightarrow> out org gone d \<Longrightarrow> out org gone d'"
  "rekey_credential org' xr d = Inr d' \<Longrightarrow> out org gone d \<Longrightarrow> out org gone d'"
  "rekey_share env org' xs d = Inr d' \<Longrightarrow> out org gone d \<Longrightarrow> out org gone d'"
proof -
  show "rekey_member env org' n xm d = Inr d' \<Longrightarrow> out org gone d \<Longrightarrow> out org gone d'"
    using rekey_out_view(1) [of env org' n xm d d'] rekey_gone [of env org' n xm d d']
    by (simp add: out_def out_view_def)
qed (simp_all add: out_cong [OF rekey_out_view(2)] out_cong [OF rekey_out_view(3)] out_cong [OF rekey_out_view(4)]
      out_cong [OF rekey_out_view(5)] out_cong [OF rekey_out_view(6)] rekey_rows)

text \<open>What the completeness of the shares reads is what was there before.\<close>

definition share_view :: "uuid \<Rightarrow> team_db \<Rightarrow> ((uuid \<times> uuid) \<times> profile_grant_row) list \<times> (uuid \<times> user_row) list \<times> (uuid \<Rightarrow> bool)" where
  "share_view org d = (profile_grants (store d), au_users (auth d), in_org_profiles d org)"

lemma share_view_kept:
  "rekey_member env o' n xm d = Inr d' \<Longrightarrow> share_view org d' = share_view org d"
  "rekey_proxy o' xp d = Inr d' \<Longrightarrow> share_view org d' = share_view org d"
  "rekey_cookie o' xc d = Inr d' \<Longrightarrow> share_view org d' = share_view org d"
  "rekey_bundle o' xb d = Inr d' \<Longrightarrow> share_view org d' = share_view org d"
  "rekey_credential o' xr d = Inr d' \<Longrightarrow> share_view org d' = share_view org d"
  "remove_member c gone d = Inr d' \<Longrightarrow> share_view org d' = share_view org d"
  by (auto simp: share_view_def rekey_member_def rekey_proxy_def rekey_cookie_def rekey_bundle_def rekey_credential_def
      remove_member_def put_members_def map_of_adjust in_org_profiles_def fun_eq_iff split: option.splits if_splits)

lemma rotate_tx_removes:
  assumes "rotate_tx env c req d = Inr (d', n)" and "rr_remove req = Some gone"
  shows "out (org_id c) gone d'
    \<and> (\<exists>m r. map_of (members d) (org_id c, gone) = Some m \<and> parse_role (m_role m) = Some r \<and> may_remove (role c) r = Inr ())
    \<and> (\<forall>p g. map_of (profile_grants (store d)) (p, gone) = Some g \<and> in_org_profiles d (org_id c) p
        \<and> map_of (au_users (auth d)) gone \<noteq> None \<longrightarrow> (p, gone) \<in> fst ` set (rr_shares req))"
  using assms(1)
proof (cases rule: rotate_tx_cases)
  case (1 d1 d2 d3 d4 d5 d6 d7)
  have removed: "remove_member c gone d = Inr d1" using 1(3) assms(2) by simp
  have "out (org_id c) gone d1" using remove_member_cases [OF removed] by (simp add: out_def)
  then have "out (org_id c) gone d2" by (rule each_keeps [OF 1(5), rotated]) (rule rekey_out(1))
  then have "out (org_id c) gone d3" by (rule each_keeps [OF 1(6), rotated]) (rule rekey_out(2))
  then have "out (org_id c) gone d4" by (rule each_keeps [OF 1(8), rotated]) (rule rekey_out(3))
  then have "out (org_id c) gone d5" by (rule each_keeps [OF 1(10), rotated]) (rule rekey_out(4))
  then have "out (org_id c) gone d6" by (rule each_keeps [OF 1(12), rotated]) (rule rekey_out(5))
  then have "out (org_id c) gone d7" by (rule each_keeps [OF 1(14), rotated]) (rule rekey_out(6))
  then have "out (org_id c) gone d'" using 1(15) by (simp add: out_def members_def)
  moreover have same: "share_view (org_id c) d6 = share_view (org_id c) d"
    using share_view_kept(6) [OF removed] each_frame [where g = "share_view (org_id c)", OF 1(5) share_view_kept(1)] each_frame [where g = "share_view (org_id c)", OF 1(6) share_view_kept(2)]
      each_frame [where g = "share_view (org_id c)", OF 1(8) share_view_kept(3)] each_frame [where g = "share_view (org_id c)", OF 1(10) share_view_kept(4)]
      each_frame [where g = "share_view (org_id c)", OF 1(12) share_view_kept(5)] by simp
  have "(p, gone) \<in> fst ` set (rr_shares req)" if "map_of (profile_grants (store d)) (p, gone) = Some g"
    "in_org_profiles d (org_id c) p" "map_of (au_users (auth d)) gone \<noteq> None" for p g
  proof -
    have "(p, gone) \<in> set (rotation_shares d6 (org_id c))"
      using map_of_SomeD [OF that(1)] that(2,3) same
      by (auto simp: rotation_shares_def share_view_def image_iff intro!: bexI [of _ "((p, gone), g)"])
    then show ?thesis using 1(13) by blast
  qed
  ultimately show ?thesis using remove_member_cases [OF removed] by blast
qed

text \<open>
  A rotation that removes a member lets in no way back: the membership, every session,
  every grant on a project and every lock of theirs are gone; it was not the owner, and an admin
  removed no other admin. What stays are their shares on single profiles: the rotation is even
  refused unless it seals the profile keys to them again.
\<close>

theorem removal_is_complete_but_for_shares:
  assumes "rotate_org_key env d now c h req = (d', Inr n)" and "rr_remove req = Some gone"
  shows "out (org_id c) gone d' \<and> gone \<noteq> user_id c
    \<and> (\<exists>m r. map_of (members d) (org_id c, gone) = Some m \<and> parse_role (m_role m) = Some r
        \<and> r \<noteq> Owner \<and> (role c = Owner \<or> role c = Admin \<and> r \<noteq> Admin))
    \<and> (\<forall>p g. map_of (profile_grants (store d)) (p, gone) = Some g \<and> in_org_profiles d (org_id c) p
        \<and> map_of (au_users (auth d)) gone \<noteq> None \<longrightarrow> (p, gone) \<in> fst ` set (rr_shares req))"
  using assms(1)
proof (cases rule: rotate_org_key_cases)
  case (1 d1)
  have "may_remove (role c) r = Inr () \<Longrightarrow> r \<noteq> Owner \<and> (role c = Owner \<or> role c = Admin \<and> r \<noteq> Admin)" for r
    by (auto simp: may_remove_def split: if_splits)
  then show ?thesis
    using rotate_tx_removes [OF 1(1) assms(2)] 1(2,4) assms(2) by (auto simp: out_def)
qed
definition rotation_1 :: rotate_request where
  "rotation_1 = \<lparr>rr_remove = Some 8, rr_members = [(7, replicate 105 CHR ''k'')], rr_proxies = [], rr_generation = 1,
     rr_cookie_keys = [], rr_bundles = [], rr_credentials = [], rr_shares = [], rr_unreadable = []\<rparr>"

definition team_2 :: team_db where
  "team_2 = team_1\<lparr>auth := (auth team_1)\<lparr>au_security := []\<rparr>\<rparr>"

definition owner_1 :: caller where
  "owner_1 = \<lparr>user_id = 7, org_id = 3, role = Owner\<rparr>"

lemma rotation_1_made:
  obtains d' where "rotate_org_key team_env_1 team_2 5 owner_1 [] rotation_1 = (d', Inr 2)"
proof -
  have "snd (rotate_org_key team_env_1 team_2 5 owner_1 [] rotation_1) = Inr 2"
    by (simp add: rotate_org_key_def manages_def owner_1_def rotation_1_def require_step_up_def policy_of_def
        team_2_def team_1_simps default_policy_def rotate_tx_def generation_of_def remove_member_def members_def
        may_remove_def parse_role_def keyed_members_def rekey_member_def unhex_or_b64_def long_enough_def
        sealed_key_length_def text_bytes_def put_members_def covered_def rotation_profiles_def rotation_bundles_def
        rotation_credentials_def rotation_shares_def and_then_def demand_def commit_def)
  then show ?thesis using that by (metis prod.collapse)
qed


lemma removal_is_complete_but_for_shares_witness:
  "\<exists>d'. rotate_org_key team_env_1 team_2 5 owner_1 [] rotation_1 = (d', Inr 2) \<and> out 3 8 d'"
proof -
  obtain d' where made: "rotate_org_key team_env_1 team_2 5 owner_1 [] rotation_1 = (d', Inr 2)"
    by (rule rotation_1_made)
  have "rr_remove rotation_1 = Some 8" by (simp add: rotation_1_def)
  then show ?thesis using removal_is_complete_but_for_shares [OF made] made by (auto simp: owner_1_def)
qed
end
