(* ===== verification/Role_Links.thy ===== *)
theory Role_Links
  imports Team_Protocol
begin

text \<open>
  A grant may follow one of the organisation's roles. What it gives is then always that role's
  boxes capped by the person's own role in the organisation, over any run of the handlers: the
  handlers that change either side rewrite the grants that depend on it.
\<close>

section \<open>The invariant\<close>

definition linked_ok :: "team_db \<Rightarrow> bool" where
  "linked_ok d \<longleftrightarrow> (\<forall>key g. map_of (project_grants (store d)) key = Some g \<and> g_access_role g \<noteq> None
     \<longrightarrow> linked_permissions (view d) key g = Some (g_permissions g))"

text \<open>What it depends on: the grants, the projects, the roles and what each member is.\<close>

definition role_view ::
    "team_db \<Rightarrow> ((uuid \<times> uuid) \<times> grant_row) list \<times> (uuid \<times> project_row) list \<times> (uuid \<times> access_role_row) list
       \<times> (uuid \<times> uuid \<Rightarrow> str option)" where
  "role_view d = (project_grants (store d), projects (store d), access_roles (store d), roles_of d)"

lemma linked_permissions_Some:
  "linked_permissions (view d) (p, u) g = Some b \<longleftrightarrow>
   (\<exists>i q ar r r'. g_access_role g = Some i \<and> map_of (projects (store d)) p = Some q
      \<and> map_of (access_roles (store d)) i = Some ar \<and> roles_of d (pr_org q, u) = Some r \<and> parse_role r = Some r'
      \<and> b = intersect (ar_permissions ar) (role_ceiling r'))"
  by (auto simp: linked_permissions_def split: option.splits)

lemma linked_permissions_perms [simp]:
  "linked_permissions x key (g\<lparr>g_permissions := b\<rparr>) = linked_permissions x key g"
  by (simp add: linked_permissions_def split: prod.split)

text \<open>Rows may go, and what a grant depends on may stay.\<close>

lemma linked_mono:
  assumes "linked_ok d" and "projects (store d') = projects (store d)" and "access_roles (store d') = access_roles (store d)"
    and "\<And>p u g. map_of (project_grants (store d')) (p, u) = Some g \<Longrightarrow>
      map_of (project_grants (store d)) (p, u) = Some g
      \<and> (\<forall>org r. roles_of d (org, u) = Some r \<longrightarrow> roles_of d' (org, u) = Some r)"
  shows "linked_ok d'"
  unfolding linked_ok_def
proof (intro allI impI, elim conjE)
  fix key g
  assume g: "map_of (project_grants (store d')) key = Some g" "g_access_role g \<noteq> None"
  obtain p u where key: "key = (p, u)" by (cases key)
  have old: "map_of (project_grants (store d)) (p, u) = Some g"
    and r: "\<And>org r. roles_of d (org, u) = Some r \<Longrightarrow> roles_of d' (org, u) = Some r"
    using assms(4) g(1) key by blast+
  have "linked_permissions (view d) (p, u) g = Some (g_permissions g)"
    using assms(1) old g(2) by (simp add: linked_ok_def)
  then show "linked_permissions (view d') key g = Some (g_permissions g)"
    unfolding key linked_permissions_Some assms(2,3) using r by blast
qed

lemma linked_cong:
  assumes "role_view d' = role_view d" and "linked_ok d"
  shows "linked_ok d'"
  by (rule linked_mono [OF assms(2)]) (use assms(1) in \<open>auto simp: role_view_def\<close>)

section \<open>Handlers that leave it alone\<close>

lemma role_view_frame [simp]:
  "role_view (team_audit c a t d) = role_view d" "role_view (put_enrollment i e d) = role_view d"
  "role_view (logout d c) = role_view d" "role_view (d\<lparr>enrollments := es\<rparr>) = role_view d"
  by (simp_all add: role_view_def roles_of_def members_def team_audit_def audit_by_def put_enrollment_def logout_def
      fun_eq_iff)

lemma role_view_auth: "au_members a = au_members (auth d) \<Longrightarrow> role_view (d\<lparr>auth := a\<rparr>) = role_view d"
  by (simp add: role_view_def roles_of_def members_def fun_eq_iff)

lemma invitations_role_view:
  "role_view (fst (cli_invite aenv d now email org oname ro fresh random)) = role_view d"
  "role_view (fst (create_invitation aenv d now c email r fresh random)) = role_view d"
  "role_view (fst (enroll_email_send env d now raw n sent)) = role_view d"
  "role_view (fst (enroll_email_verify env d now raw typed random)) = role_view d"
proof -
  have issue: "role_view x = role_view d" if "issue env d now email t r fresh random = Inr (x, raw)" for env email t r x raw
    using issue_cases [OF that] by auto
  show "role_view (fst (cli_invite aenv d now email org oname ro fresh random)) = role_view d"
    unfolding cli_invite_def Let_def
    by (auto simp: commit_def issue split: if_splits option.splits sum.splits org_target.splits)
  show "role_view (fst (create_invitation aenv d now c email r fresh random)) = role_view d"
    unfolding create_invitation_def
    by (rule commit_rule) (auto simp: Let_def map_sum_def issue split: sum.splits)
  show "role_view (fst (enroll_email_send env d now raw n sent)) = role_view d"
    unfolding enroll_email_send_def
    by (rule commit_rule) (auto simp: Let_def split: option.splits if_splits)
  show "role_view (fst (enroll_email_verify env d now raw typed random)) = role_view d"
    unfolding enroll_email_verify_def by (auto simp: Let_def split: option.splits)
qed

lemma hand_over_role_view: "role_view (fst (hand_over_key env d c user key_text)) = role_view d"
  unfolding hand_over_key_def
  by (rule commit_rule)
    (auto simp: role_view_def roles_of_def put_members_def members_def lookup_update team_audit_def audit_by_def fun_eq_iff
      split: option.splits)

lemma rekey_role_view:
  "rekey_member env org n xm d = Inr d' \<Longrightarrow> role_view d' = role_view d"
  "rekey_proxy org xp d = Inr d' \<Longrightarrow> role_view d' = role_view d"
  "rekey_cookie org xc d = Inr d' \<Longrightarrow> role_view d' = role_view d"
  "rekey_bundle org xb d = Inr d' \<Longrightarrow> role_view d' = role_view d"
  "rekey_credential org xr d = Inr d' \<Longrightarrow> role_view d' = role_view d"
  "rekey_share env org xs d = Inr d' \<Longrightarrow> role_view d' = role_view d"
proof -
  assume "rekey_member env org n xm d = Inr d'"
  then show "role_view d' = role_view d"
    unfolding rekey_member_def and_then_Inr
    by (auto simp: role_view_def roles_of_def put_members_def members_def lookup_update fun_eq_iff
        split: option.split_asm if_split_asm)
qed (auto simp: rekey_proxy_def rekey_cookie_def rekey_bundle_def rekey_credential_def rekey_share_def role_view_def
    roles_of_def members_def fun_eq_iff)

section \<open>Handlers that have to mind it\<close>

lemma remove_member_linked:
  assumes "remove_member c gone d = Inr d'" and "linked_ok d"
  shows "linked_ok d'"
proof -
  have d': "projects (store d') = projects (store d)" "access_roles (store d') = access_roles (store d)"
    "members d' = AList.delete (org_id c, gone) (members d)"
    "project_grants (store d') = List.filter (\<lambda>((_, u), _). u \<noteq> gone) (project_grants (store d))"
    using assms(1) by (auto simp: remove_member_def members_def split: option.splits)
  have f: "map_of (List.filter (\<lambda>((_, u), _). u \<noteq> gone) t) (p, u) = (if u \<noteq> gone then map_of t (p, u) else None)"
    for t :: "((uuid \<times> uuid) \<times> grant_row) list" and p u
    by (induction t) auto
  show ?thesis
    by (rule linked_mono [OF assms(2)]) (auto simp: d' f roles_of_def lookup_delete split: if_splits)
qed

lemma rotate_linked:
  assumes "linked_ok d"
  shows "linked_ok (fst (rotate_org_key env d now c h req))"
  unfolding rotate_org_key_def
proof (rule commit_rule [where P = linked_ok, OF assms], clarsimp simp: map_sum_def split: sum.splits)
  fix d' n
  assume "rotate_tx env c req d = Inr (d', n)"
  then show "linked_ok (team_audit c ''org.rotate'' None d')"
  proof (cases rule: rotate_tx_cases)
    case (1 d1 d2 d3 d4 d5 d6 d7)
    have "linked_ok d1" using 1(3) assms by (auto dest: remove_member_linked split: option.splits)
    moreover have "role_view d7 = role_view d1"
      using each_frame [where g = role_view, OF 1(5) rekey_role_view(1)] each_frame [where g = role_view, OF 1(6) rekey_role_view(2)]
        each_frame [where g = role_view, OF 1(8) rekey_role_view(3)] each_frame [where g = role_view, OF 1(10) rekey_role_view(4)]
        each_frame [where g = role_view, OF 1(12) rekey_role_view(5)] each_frame [where g = role_view, OF 1(14) rekey_role_view(6)]
      by simp
    moreover have "role_view d' = role_view d7"
      using 1(15) by (simp add: role_view_def roles_of_def members_def fun_eq_iff)
    ultimately show ?thesis by (auto intro: linked_cong)
  qed
qed

lemma join_linked:
  assumes "linked_ok d" and "map_of (members d) (org, user) = None" and "members d' = ((org, user), m) # members d"
    and "(project_grants (store d'), projects (store d'), access_roles (store d'))
      = (project_grants (store d), projects (store d), access_roles (store d))"
  shows "linked_ok d'"
  by (rule linked_mono [OF assms(1)]) (use assms(2-4) in \<open>auto simp: roles_of_def\<close>)

definition link_tables :: "team_db \<Rightarrow> ((uuid \<times> uuid) \<times> grant_row) list \<times> (uuid \<times> project_row) list \<times> (uuid \<times> access_role_row) list" where
  "link_tables d = (project_grants (store d), projects (store d), access_roles (store d))"

lemma insert_tables:
  "insert_user i u taken d = Inr d' \<Longrightarrow> link_tables d' = link_tables d"
  "insert_org j name d = Inr d' \<Longrightarrow> link_tables d' = link_tables d"
  "insert_member org user m d = Inr d' \<Longrightarrow> link_tables d' = link_tables d"
  "insert_session aenv now user mn random d = Inr (d', raw) \<Longrightarrow> link_tables d' = link_tables d"
  "link_tables (put_enrollment i e d) = link_tables d"
  by (auto simp: insert_user_def insert_org_def insert_member_def insert_session_def new_token_def put_members_def
      put_enrollment_def link_tables_def Let_def split: if_splits)

lemma create_account_tables:
  "create_account env now req dr pub priv salt ork i e d = Inr (d', raw, org) \<Longrightarrow> link_tables d' = link_tables d"
  by (auto simp: create_account_def map_sum_def insert_tables(5) split: option.splits sum.splits dest!: insert_tables(1-4))

lemma enrol_linked:
  assumes "linked_ok d"
  shows "linked_ok (fst (complete_enrollment env d now req dr))"
proof (cases "snd (complete_enrollment env d now req dr)")
  case (Inl e)
  then have "fst (complete_enrollment env d now req dr) = d"
    unfolding complete_enrollment_def by (rule commit_error)
  then show ?thesis using assms by simp
next
  case (Inr y)
  obtain raw org where "y = (raw, org)" by force
  with Inr have "complete_enrollment env d now req dr = (fst (complete_enrollment env d now req dr), Inr (raw, org))"
    by (simp add: prod_eq_iff)
  then obtain i e pub priv salt ork where
    made: "create_account env now req dr pub priv salt ork i e d
      = Inr (fst (complete_enrollment env d now req dr), raw, org)"
    by (rule complete_enrollment_cases)
  from create_account_cases [OF made] create_account_tables [OF made] show ?thesis
    by (auto intro: join_linked [OF assms] simp: link_tables_def)
qed

lemma signup_linked:
  assumes "linked_ok d"
  shows "linked_ok (fst (signup env d now req dr))"
  unfolding signup_def
proof (rule commit_rule [where P = linked_ok, OF assms], clarsimp simp: Let_def)
  fix pub d1 d2 d3 d' x u n m
  assume s: "insert_user (dr_user dr) u ''that address already has an account on this server. Sign in instead'' d = Inr d1"
    "insert_org (dr_org dr) n d1 = Inr d2" "insert_member (dr_org dr) (dr_user dr) m d2 = Inr d3"
    "insert_session (auth_part env) now (dr_user dr) (sq_machine_name req) (dr_token dr) d3 = Inr (d', x)"
  have "map_of (members d) (dr_org dr, dr_user dr) = None" "members d' = ((dr_org dr, dr_user dr), m) # members d"
    using insert_user_frame [OF s(1)] insert_org_cases [OF s(2)] insert_member_cases [OF s(3)] insert_session_frame [OF s(4)]
    by simp_all
  moreover have "link_tables d' = link_tables d"
    using insert_tables(1) [OF s(1)] insert_tables(2) [OF s(2)] insert_tables(3) [OF s(3)] insert_tables(4) [OF s(4)] by simp
  ultimately show "linked_ok d'" using join_linked [OF assms] by (simp add: link_tables_def)
qed

text \<open>A relinking restores the invariant on the grants it is about.\<close>

lemma map_of_relink:
  "map_of (relink x r u) key = map_option (relink_row x r u key) (map_of (project_grants x) key)"
  by (simp add: relink_def map_of_adjust)

lemma linked_permissions_cong:
  assumes "projects (store d') = projects (store d)" and "access_roles (store d') = access_roles (store d)"
    and "roles_of d' = roles_of d"
  shows "linked_permissions (view d') key g = linked_permissions (view d) key g"
proof -
  obtain p u where key: "key = (p, u)" by (cases key)
  have "linked_permissions (view d') key g = Some b \<longleftrightarrow> linked_permissions (view d) key g = Some b" for b
    by (simp add: key linked_permissions_Some assms)
  then show ?thesis by (metis option.exhaust)
qed

lemma put_grants_view:
  "projects (store (put_grants gs d)) = projects (store d)" "access_roles (store (put_grants gs d)) = access_roles (store d)"
  "project_grants (store (put_grants gs d)) = gs" "roles_of (put_grants gs d) = roles_of d"
  by (simp_all add: put_grants_def roles_of_def members_def fun_eq_iff)

lemma relink_linked:
  assumes "\<And>key g. map_of (project_grants (store d)) key = Some g \<Longrightarrow> g_access_role g \<noteq> None \<Longrightarrow>
      linked_permissions (view d) key g \<noteq> None
      \<and> ((r \<noteq> None \<and> g_access_role g \<noteq> r) \<or> (u \<noteq> None \<and> u \<noteq> Some (snd key))
         \<longrightarrow> linked_permissions (view d) key g = Some (g_permissions g))"
  shows "linked_ok (put_grants (relink (view d) r u) d)"
  unfolding linked_ok_def
proof (intro allI impI, elim conjE)
  fix key g
  let ?d = "put_grants (relink (view d) r u) d"
  assume g: "map_of (project_grants (store ?d)) key = Some g" "g_access_role g \<noteq> None"
  then obtain g0 where g0: "map_of (project_grants (store d)) key = Some g0" "g = relink_row (view d) r u key g0"
    by (auto simp: put_grants_view map_of_relink)
  have link: "g_access_role g0 \<noteq> None" using g(2) by (auto simp: g0(2) relink_row_def split: if_splits option.splits)
  have same: "linked_permissions (view ?d) key g = linked_permissions (view d) key g"
    by (rule linked_permissions_cong) (simp_all add: put_grants_view)
  obtain b where b: "linked_permissions (view d) key g0 = Some b" using assms [OF g0(1) link] by auto
  show "linked_permissions (view ?d) key g = Some (g_permissions g)"
    unfolding same using assms [OF g0(1) link] b by (auto simp: g0(2) relink_row_def)
qed
lemma set_member_role_cases:
  "fst (set_member_role env d now c h user rname) = d
   \<or> (\<exists>r m. parse_role rname = Some r \<and> map_of (members d) (org_id c, user) = Some m
      \<and> fst (set_member_role env d now c h user rname) = (let d1 = put_members
            (AList.update (org_id c, user) (m\<lparr>m_role := rname\<rparr>) (members d)) d
          in team_audit c ''member.role'' None (put_grants (relink (view d1) None (Some user)) d1)))"
  unfolding set_member_role_def
  by (rule commit_rule) (auto simp: Let_def split: option.splits if_splits)

lemma set_member_role_linked:
  assumes "linked_ok d"
  shows "linked_ok (fst (set_member_role env d now c h user rname))"
  using set_member_role_cases [of env d now c h user rname]
proof (elim disjE exE conjE)
  fix r m
  assume r: "parse_role rname = Some r" and m: "map_of (members d) (org_id c, user) = Some m"
    and new: "fst (set_member_role env d now c h user rname) = (let d1 = put_members
            (AList.update (org_id c, user) (m\<lparr>m_role := rname\<rparr>) (members d)) d
          in team_audit c ''member.role'' None (put_grants (relink (view d1) None (Some user)) d1))"
  define d1 where "d1 = put_members (AList.update (org_id c, user) (m\<lparr>m_role := rname\<rparr>) (members d)) d"
  have d1: "projects (store d1) = projects (store d)" "access_roles (store d1) = access_roles (store d)"
    "project_grants (store d1) = project_grants (store d)"
    "roles_of d1 = (roles_of d)((org_id c, user) \<mapsto> rname)"
    by (simp_all add: d1_def put_members_def roles_of_def members_def lookup_update fun_eq_iff)
  have "linked_ok (put_grants (relink (view d1) None (Some user)) d1)"
  proof (rule relink_linked)
    fix key g
    assume g: "map_of (project_grants (store d1)) key = Some g" "g_access_role g \<noteq> None"
    obtain p u where key: "key = (p, u)" by (cases key)
    have old: "linked_permissions (view d) (p, u) g = Some (g_permissions g)"
      using assms g unfolding linked_ok_def d1(3) key by blast
    then obtain i q ar r0 r1 where rows: "g_access_role g = Some i" "map_of (projects (store d)) p = Some q"
      "map_of (access_roles (store d)) i = Some ar" "roles_of d (pr_org q, u) = Some r0" "parse_role r0 = Some r1"
      "g_permissions g = intersect (ar_permissions ar) (role_ceiling r1)"
      unfolding linked_permissions_Some by blast
    have "linked_permissions (view d1) (p, u) g = Some (g_permissions g)" if "u \<noteq> user"
      using rows that by (simp add: linked_permissions_Some d1)
    moreover have "linked_permissions (view d1) (p, u) g
      = Some (intersect (ar_permissions ar) (role_ceiling (if (pr_org q, u) = (org_id c, user) then r else r1)))"
      using rows r by (simp add: linked_permissions_Some d1)
    ultimately show "linked_permissions (view d1) key g \<noteq> None
      \<and> (None \<noteq> None \<and> g_access_role g \<noteq> None \<or> Some user \<noteq> None \<and> Some user \<noteq> Some (snd key)
         \<longrightarrow> linked_permissions (view d1) key g = Some (g_permissions g))"
      by (auto simp: key)
  qed
  then have "linked_ok (team_audit c ''member.role'' None (put_grants (relink (view d1) None (Some user)) d1))"
    by (rule linked_cong [rotated]) simp
  then show ?thesis by (simp only: new Let_def d1_def)
qed (simp add: assms)

lemma put_roles_view:
  "projects (store (put_roles rs d)) = projects (store d)" "access_roles (store (put_roles rs d)) = rs"
  "project_grants (store (put_roles rs d)) = project_grants (store d)" "roles_of (put_roles rs d) = roles_of d"
  by (simp_all add: put_roles_def roles_of_def members_def fun_eq_iff)

lemma upsert_linked:
  assumes "linked_ok d"
  shows "linked_ok (fst (upsert_access_role d c ru fresh))"
  unfolding upsert_access_role_def
proof (rule commit_rule [where P = linked_ok, OF assms], unfold Let_def and_then_Inr demand_Inr, clarsimp)
  fix rs i
  define i where "i = (case ru_id ru of None \<Rightarrow> fresh | Some i \<Rightarrow> i)"
  define ar where "ar = \<lparr>ar_org = org_id c, ar_name = trim (ru_name ru),
    ar_permissions = with_perm (from_iter (ru_permissions ru)) View\<rparr>"
  define d1 where "d1 = put_roles (AList.update i ar (access_roles (store d))) d"
  have "linked_ok (put_grants (relink (view d1) (Some i) None) d1)"
  proof (rule relink_linked)
    fix key g
    assume g: "map_of (project_grants (store d1)) key = Some g" "g_access_role g \<noteq> None"
    obtain p u where key: "key = (p, u)" by (cases key)
    have old: "linked_permissions (view d) (p, u) g = Some (g_permissions g)"
      using assms g unfolding linked_ok_def d1_def put_roles_view key by blast
    then obtain j q ar0 r0 r1 where rows: "g_access_role g = Some j" "map_of (projects (store d)) p = Some q"
      "map_of (access_roles (store d)) j = Some ar0" "roles_of d (pr_org q, u) = Some r0" "parse_role r0 = Some r1"
      "g_permissions g = intersect (ar_permissions ar0) (role_ceiling r1)"
      unfolding linked_permissions_Some by blast
    have "linked_permissions (view d1) (p, u) g = Some (g_permissions g)" if "g_access_role g \<noteq> Some i"
      using rows that by (simp add: linked_permissions_Some d1_def put_roles_view lookup_update)
    moreover have "linked_permissions (view d1) (p, u) g
      = Some (intersect (ar_permissions (if j = i then ar else ar0)) (role_ceiling r1))"
      using rows by (simp add: linked_permissions_Some d1_def put_roles_view lookup_update)
    ultimately show "linked_permissions (view d1) key g \<noteq> None
      \<and> (Some i \<noteq> None \<and> g_access_role g \<noteq> Some i \<or> None \<noteq> None \<and> None \<noteq> Some (snd key)
         \<longrightarrow> linked_permissions (view d1) key g = Some (g_permissions g))"
      by (auto simp: key)
  qed
  then have "linked_ok (team_audit c ''access_role.saved'' (Some i) (put_grants (relink (view d1) (Some i) None) d1))"
    by (rule linked_cong [rotated]) simp
  then show "linked_ok (team_audit c ''access_role.saved'' (Some (case ru_id ru of None \<Rightarrow> fresh | Some i \<Rightarrow> i))
      (put_grants (relink (view (put_roles (AList.update (case ru_id ru of None \<Rightarrow> fresh | Some i \<Rightarrow> i)
         \<lparr>ar_org = org_id c, ar_name = trim (ru_name ru), ar_permissions = with_perm (from_iter (ru_permissions ru)) View\<rparr>
         (access_roles (store d))) d)) (Some (case ru_id ru of None \<Rightarrow> fresh | Some i \<Rightarrow> i)) None)
       (put_roles (AList.update (case ru_id ru of None \<Rightarrow> fresh | Some i \<Rightarrow> i)
         \<lparr>ar_org = org_id c, ar_name = trim (ru_name ru), ar_permissions = with_perm (from_iter (ru_permissions ru)) View\<rparr>
         (access_roles (store d))) d)))"
    unfolding d1_def i_def ar_def .
qed

lemma delete_role_linked:
  assumes "linked_ok d"
  shows "linked_ok (fst (delete_access_role d c i))"
  unfolding delete_access_role_def
proof (rule commit_rule [where P = linked_ok, OF assms], clarsimp)
  let ?gs = "map (\<lambda>(k, g). (k, if g_access_role g = Some i then g\<lparr>g_access_role := None\<rparr> else g)) (project_grants (store d))"
  let ?d = "put_grants ?gs (put_roles (AList.delete i (access_roles (store d))) d)"
  have lookup: "map_of ?gs key = map_option (\<lambda>g. if g_access_role g = Some i then g\<lparr>g_access_role := None\<rparr> else g)
      (map_of (project_grants (store d)) key)" for key
    by (simp add: map_of_adjust)
  have "linked_ok ?d"
    unfolding linked_ok_def
  proof (intro allI impI, elim conjE)
    fix key g
    assume g: "map_of (project_grants (store ?d)) key = Some g" "g_access_role g \<noteq> None"
    obtain p u where key: "key = (p, u)" by (cases key)
    obtain g0 where g0: "map_of (project_grants (store d)) (p, u) = Some g0"
      "g = (if g_access_role g0 = Some i then g0\<lparr>g_access_role := None\<rparr> else g0)"
      using g(1) by (auto simp: put_grants_view lookup key)
    then have "map_of (project_grants (store d)) (p, u) = Some g \<and> g_access_role g \<noteq> Some i"
      using g(2) by (cases "g_access_role g0 = Some i") auto
    with assms g(2) have "linked_permissions (view d) (p, u) g = Some (g_permissions g)" "g_access_role g \<noteq> Some i"
      by (auto simp: linked_ok_def)
    then show "linked_permissions (view ?d) key g = Some (g_permissions g)"
      by (auto simp: key linked_permissions_Some put_grants_view put_roles_view lookup_delete)
  qed
  then show "linked_ok (team_audit c ''access_role.deleted'' (Some i) ?d)"
    by (rule linked_cong [rotated]) simp
qed
section \<open>Grants\<close>

lemma grant_access_cases:
  "fst (grant_access x now c p req) = x
   \<or> (\<exists>g. fst (grant_access x now c p req)
          = audit c ''access.grant'' (Some p) (x\<lparr>project_grants := AList.update (p, gr_user req) g (project_grants x)\<rparr>)
        \<and> (g_access_role g \<noteq> None \<longrightarrow> linked_permissions x (p, gr_user req) g = Some (g_permissions g)))"
proof -
  consider (error) "fst (grant_access x now c p req) = x"
    | (plain) g where "fst (grant_access x now c p req)
        = audit c ''access.grant'' (Some p) (x\<lparr>project_grants := AList.update (p, gr_user req) g (project_grants x)\<rparr>)"
        "g_access_role g = None"
    | (linked) g q i ar r r' where "fst (grant_access x now c p req)
        = audit c ''access.grant'' (Some p) (x\<lparr>project_grants := AList.update (p, gr_user req) g (project_grants x)\<rparr>)"
        "g_access_role g = Some i" "map_of (projects x) p = Some q" "map_of (org_members x) (pr_org q, gr_user req) = Some r"
        "parse_role r = Some r'" "map_of (access_roles x) i = Some ar"
        "g_permissions g = intersect (ar_permissions ar) (role_ceiling r')"
  proof (cases "target_role x (gr_user req) p")
    case None
    then show ?thesis by (intro error) (simp add: grant_access_def split: sum.split)
  next
    case (Some r)
    then obtain q where q: "map_of (projects x) p = Some q" "map_of (org_members x) (pr_org q, gr_user req) = Some r"
      by (auto simp: target_role_def split: option.splits)
    show ?thesis
    proof (cases "parse_role r")
      case None
      then show ?thesis using Some by (intro error) (simp add: grant_access_def split: sum.split)
    next
      case role: (Some r')
      show ?thesis
      proof (cases "grant_link x p req")
        case None
        then have "fst (grant_access x now c p req) = x
          \<or> (\<exists>g. fst (grant_access x now c p req)
              = audit c ''access.grant'' (Some p) (x\<lparr>project_grants := AList.update (p, gr_user req) g (project_grants x)\<rparr>)
            \<and> g_access_role g = None)"
          using Some role
          by (cases "guarded (require x now (user_id c) p ManageAccess)", simp add: grant_access_def)
            (simp add: grant_access_def Let_def guarded_simps split: sum.split, intro allI impI disjI2 exI conjI, rule refl, simp)
        then show ?thesis using error plain by blast
      next
        case link: (Some i)
        have "fst (grant_access x now c p req) = x
          \<or> (\<exists>g ar. fst (grant_access x now c p req)
              = audit c ''access.grant'' (Some p) (x\<lparr>project_grants := AList.update (p, gr_user req) g (project_grants x)\<rparr>)
            \<and> g_access_role g = Some i \<and> map_of (access_roles x) i = Some ar
            \<and> g_permissions g = intersect (ar_permissions ar) (role_ceiling r'))"
        proof (cases "guarded (require x now (user_id c) p ManageAccess)")
          case ok: (Inr u)
          show ?thesis
          proof (cases "map_of (access_roles x) i")
            case None
            then show ?thesis using Some role link ok by (simp add: grant_access_def guarded_simps)
          next
            case row: (Some ar)
            then show ?thesis
              using Some role link ok
              by (simp add: grant_access_def Let_def guarded_simps split: sum.split)
                (intro allI impI disjI2 exI conjI, rule refl, simp_all)
          qed
        qed (simp add: grant_access_def)
        then show ?thesis using error linked [OF _ _ q role] by blast
      qed
    qed
  qed
  then show ?thesis
  proof cases
    case linked
    then show ?thesis by (auto simp: linked_permissions_def)
  qed auto
qed

lemma linked_permissions_view:
  "linked_permissions (view (d\<lparr>store := x\<rparr>)) key g = linked_permissions (view d) key g"
  if "projects x = projects (store d)" "access_roles x = access_roles (store d)"
  by (rule linked_permissions_cong) (simp_all add: that roles_of_def members_def fun_eq_iff)

lemma give_linked:
  assumes "linked_ok d"
  shows "linked_ok (on_store (\<lambda>s. fst (grant_access s now c p req)) d)"
  using grant_access_cases [of "view d" now c p req]
proof (elim disjE exE conjE)
  assume "fst (grant_access (view d) now c p req) = view d"
  then show ?thesis
    by (intro linked_cong [OF _ assms])
      (simp add: on_store_def role_view_def roles_of_def members_def fun_eq_iff)
next
  fix g
  let ?x = "audit c ''access.grant'' (Some p) (view d\<lparr>project_grants := AList.update (p, gr_user req) g (project_grants (store d))\<rparr>)"
  assume new: "fst (grant_access (view d) now c p req)
      = audit c ''access.grant'' (Some p) (view d\<lparr>project_grants := AList.update (p, gr_user req) g (project_grants (view d))\<rparr>)"
    and link: "g_access_role g \<noteq> None \<longrightarrow> linked_permissions (view d) (p, gr_user req) g = Some (g_permissions g)"
  have d': "on_store (\<lambda>s. fst (grant_access s now c p req)) d = d\<lparr>store := ?x\<rparr>"
    by (simp add: on_store_def new)
  have "linked_permissions (view (d\<lparr>store := ?x\<rparr>)) key g' = linked_permissions (view d) key g'" for key g'
    by (rule linked_permissions_view) simp_all
  moreover have "project_grants (store (d\<lparr>store := ?x\<rparr>)) = AList.update (p, gr_user req) g (project_grants (store d))"
    by simp
  ultimately show ?thesis
    unfolding d' linked_ok_def using assms link by (auto simp: linked_ok_def lookup_update split: if_splits)
qed

lemma take_linked:
  assumes "linked_ok d"
  shows "linked_ok (on_store (\<lambda>s. fst (revoke_access s now c p u)) d)"
proof (rule linked_mono [OF assms])
  let ?d = "on_store (\<lambda>s. fst (revoke_access s now c p u)) d"
  show "projects (store ?d) = projects (store d)" "access_roles (store ?d) = access_roles (store d)"
    by (auto simp: on_store_def revoke_access_def split: sum.split)
  fix q v g
  assume "map_of (project_grants (store ?d)) (q, v) = Some g"
  then show "map_of (project_grants (store d)) (q, v) = Some g
      \<and> (\<forall>org r. roles_of d (org, v) = Some r \<longrightarrow> roles_of ?d (org, v) = Some r)"
    by (auto simp: on_store_def revoke_access_def lookup_delete roles_of_def members_def split: sum.splits if_splits)
qed

section \<open>Every run\<close>

lemma with_caller_linked:
  assumes "linked_ok d" and "\<And>d c. linked_ok d \<Longrightarrow> linked_ok (f d c)"
  shows "linked_ok (with_caller env d now h f)"
proof (rule with_caller_rule)
  fix a :: auth_db
  assume "au_members a = au_members (auth d)"
  then have "linked_ok (d\<lparr>auth := a\<rparr>)" using linked_cong [OF role_view_auth assms(1)] by blast
  then show "linked_ok (d\<lparr>auth := a\<rparr>)" "linked_ok (f (d\<lparr>auth := a\<rparr>) c)" for c
    using assms(2) by blast+
qed

lemma serve_linked:
  assumes "linked_ok d"
  shows "linked_ok (serve_team env d ev)"
proof -
  obtain now req where ev: "ev = (now, req)" by force
  note same = linked_cong [OF invitations_role_view(1)] linked_cong [OF invitations_role_view(2)]
    linked_cong [OF invitations_role_view(3)] linked_cong [OF invitations_role_view(4)] linked_cong [OF hand_over_role_view]
    linked_cong [OF role_view_frame(3)] linked_cong [OF role_view_auth [OF serve_auth_members]]
  show ?thesis
    unfolding ev serve_team_def
    by (cases req)
      (auto intro: assms same with_caller_linked enrol_linked signup_linked set_member_role_linked rotate_linked
        upsert_linked delete_role_linked give_linked take_linked)
qed

text \<open>
  C21. A grant that follows one of the organisation's roles never drifts from it: over any run of
  enrolments, changes of a member's role, edits and deletions of roles, grants, revocations and
  removals, the boxes such a grant holds are those of its role capped by what the person's own
  role in the organisation allows.
\<close>

theorem linked_grants_follow_their_role:
  assumes "linked_ok d"
    and "map_of (project_grants (store (run_team env d evs))) (project, user) = Some g" and "g_access_role g = Some i"
  shows "\<exists>p ar m r. map_of (projects (store (run_team env d evs))) project = Some p
    \<and> map_of (access_roles (store (run_team env d evs))) i = Some ar
    \<and> map_of (members (run_team env d evs)) (pr_org p, user) = Some m \<and> parse_role (m_role m) = Some r
    \<and> g_permissions g = intersect (ar_permissions ar) (role_ceiling r)"
proof -
  have "linked_ok (run_team env d evs)"
    using team_events.kept [where I = linked_ok] serve_linked assms(1) by blast
  with assms(2,3) have "linked_permissions (view (run_team env d evs)) (project, user) g = Some (g_permissions g)"
    by (simp add: linked_ok_def)
  then show ?thesis
    using assms(3) by (auto simp: linked_permissions_Some roles_of_def)
qed

lemma linked_grants_follow_their_role_witness:
  "\<exists>m r. map_of (members (run_team team_env_1 team_1 [])) (3, 8) = Some m \<and> parse_role (m_role m) = Some r
     \<and> from_iter [View] = intersect (from_iter [View]) (role_ceiling r)"
proof -
  have ok: "linked_ok team_1"
  proof -
    have "intersect (from_iter [View]) (role_ceiling Member) = from_iter [View]" by code_simp
    then show ?thesis
      by (auto simp: linked_ok_def linked_permissions_def view_def team_1_simps members_def parse_role_def split: if_splits)
  qed
  have row: "map_of (project_grants (store (run_team team_env_1 team_1 []))) (20, 8)
      = Some \<lparr>g_permissions = from_iter [View], g_granted_by = 7, g_expires_at = None, g_domain_lists = [],
          g_access_role = Some 30\<rparr>"
    by (simp add: team_events.run_Nil team_1_simps)
  show ?thesis
    using linked_grants_follow_their_role [OF ok row, of 30] by (auto simp: team_events.run_Nil team_1_simps members_def split: if_splits)
qed
end
