(* ===== verification/Inventory.thy ===== *)
theory Inventory
  imports Enrolment Domains Persona_Seed
begin

text \<open>
  What a team keeps on its server: projects, profiles, proxies, saved logins, domain lists and
  captured machines, and the handlers of \<open>server/src/api.rs\<close> that write them. The catalogue of
  machines and the validation of a machine are one argument (\<open>machine_rules\<close>); SHA-256 is
  another. The handlers run outside a transaction unless the text says otherwise; the write is
  the last step of each, so a refused request has written nothing, but for \<open>clone_profile\<close>.
\<close>

section \<open>Projects\<close>

type_synonym 'a db_result = "(db \<times> 'a) api_result"

text \<open>The guard of a project, when only its refusal matters.\<close>

definition demand_perm :: "db \<Rightarrow> time \<Rightarrow> caller \<Rightarrow> uuid \<Rightarrow> perm \<Rightarrow> unit api_result" where
  "demand_perm d now c project p = map_sum id (\<lambda>_. ()) (guarded (require d now (user_id c) project p))"

record project_request =
  pq_name :: str
  pq_description :: str
  pq_color :: "str option"

definition put_project :: "uuid \<Rightarrow> project_row \<Rightarrow> db \<Rightarrow> db" where
  "put_project i p d = d\<lparr>projects := AList.update i p (projects d)\<rparr>"

definition create_project :: "db \<Rightarrow> caller \<Rightarrow> project_request \<Rightarrow> uuid \<Rightarrow> uuid db_result" where
  "create_project d c req fresh =
     and_then (demand (manages c) (Denied ManageAccess)) (\<lambda>_.
     let name = trim (pq_name req)
     in and_then (demand (name \<noteq> []) (BadRequest ''a project needs a name'')) (\<lambda>_.
        and_then (demand (map_of (projects d) fresh = None) Internal) (\<lambda>_.
        Inr (audit c ''project.create'' (Some fresh) (put_project fresh
          \<lparr>pr_org = org_id c, pr_name = name, pr_description = pq_description req, pr_color = pq_color req,
           pr_deleted = False\<rparr> d), fresh))))"

definition rename_project :: "db \<Rightarrow> time \<Rightarrow> caller \<Rightarrow> uuid \<Rightarrow> project_request \<Rightarrow> unit db_result" where
  "rename_project d now c project req =
     and_then (demand_perm d now c project ManageAccess) (\<lambda>_.
     let name = trim (pq_name req)
     in and_then (demand (name \<noteq> []) (BadRequest ''a project needs a name'')) (\<lambda>_.
        Inr (audit c ''project.rename'' (Some project)
          (case map_of (projects d) project of
             None \<Rightarrow> d
           | Some p \<Rightarrow>
               if pr_org p = org_id c \<and> \<not> pr_deleted p
               then put_project project (p\<lparr>pr_name := name, pr_description := pq_description req, pr_color := pq_color req\<rparr>) d
               else d), ())))"

definition open_in :: "db \<Rightarrow> time \<Rightarrow> uuid \<Rightarrow> bool" where
  "open_in d now profile = (case map_of (profile_locks d) profile of None \<Rightarrow> False | Some l \<Rightarrow> now < l_expires_at l)"

text \<open>In one transaction: the profiles and the project, or neither.\<close>

definition delete_project :: "db \<Rightarrow> time \<Rightarrow> caller \<Rightarrow> uuid \<Rightarrow> nat db_result" where
  "delete_project d now c project =
     and_then (demand (manages c) (Denied ManageAccess)) (\<lambda>_.
     and_then (demand (\<not> list_ex (\<lambda>(f, l). now < l_expires_at l
         \<and> (case map_of (profiles d) f of None \<Rightarrow> False | Some r \<Rightarrow> f_project r = project)) (profile_locks d))
       (Conflict ''profile(s) in this project are open right now. Close them first'')) (\<lambda>_.
     let gone = (\<lambda>f. f_project f = project \<and> \<not> f_deleted f);
         d1 = d\<lparr>profiles := map (\<lambda>(i, f). (i, if gone f then f\<lparr>f_deleted := True\<rparr> else f)) (profiles d)\<rparr>
     in case map_of (projects d) project of
          None \<Rightarrow> Inl NotFound
        | Some p \<Rightarrow>
            and_then (demand (pr_org p = org_id c \<and> \<not> pr_deleted p) NotFound) (\<lambda>_.
            Inr (audit c ''project.delete'' (Some project) (put_project project (p\<lparr>pr_deleted := True\<rparr>) d1),
                 length (List.filter (\<lambda>(_, f). gone f) (profiles d))))))"

section \<open>Proxies\<close>

definition proxy_kinds :: "str list" where
  "proxy_kinds = [''http'', ''https'', ''socks5'', ''wireguard'']"

record proxy_request =
  xq_name :: str
  xq_kind :: str
  xq_host :: str
  xq_port :: int
  xq_project :: "uuid option"
  xq_credentials_enc :: str
  xq_wrapped_dek :: str
  xq_rotate_url_enc :: "str option"

definition put_proxy :: "uuid \<Rightarrow> proxy_row \<Rightarrow> db \<Rightarrow> db" where
  "put_proxy i x d = d\<lparr>proxies := AList.update i x (proxies d)\<rparr>"

definition create_proxy :: "db \<Rightarrow> time \<Rightarrow> caller \<Rightarrow> proxy_request \<Rightarrow> uuid \<Rightarrow> uuid db_result" where
  "create_proxy d now c req fresh =
     and_then (demand (may_add_proxies d now (user_id c) (org_id c) (role c)) (Denied EditProxy)) (\<lambda>_.
     and_then (demand (xq_kind req \<in> set proxy_kinds) (BadRequest ''kind must be http, https, socks5 or wireguard'')) (\<lambda>_.
     and_then (demand (1 \<le> xq_port req \<and> xq_port req \<le> 65535) (BadRequest ''port must be between 1 and 65535'')) (\<lambda>_.
     and_then (demand (trim (xq_host req) \<noteq> []) (BadRequest ''a proxy needs a host'')) (\<lambda>_.
     and_then (server_unhex ''credentials_enc'' (xq_credentials_enc req)) (\<lambda>credentials_enc.
     and_then (server_unhex ''wrapped_dek'' (xq_wrapped_dek req)) (\<lambda>wrapped_dek.
     and_then (case xq_rotate_url_enc req of None \<Rightarrow> Inr None
               | Some v \<Rightarrow> map_sum id Some (server_unhex ''rotate_url_enc'' v)) (\<lambda>rotate_url_enc.
     and_then (demand (40 \<le> length wrapped_dek \<and> 40 \<le> length credentials_enc)
       (BadRequest ''credentials_enc and wrapped_dek must be sealed values'')) (\<lambda>_.
     and_then (demand (case xq_project req of None \<Rightarrow> True
         | Some i \<Rightarrow> (case map_of (projects d) i of None \<Rightarrow> False | Some p \<Rightarrow> pr_org p = org_id c)) NotFound) (\<lambda>_.
     and_then (demand (map_of (proxies d) fresh = None) Internal) (\<lambda>_.
     Inr (audit c ''proxy.create'' (Some fresh) (put_proxy fresh
       \<lparr>x_org = org_id c, x_project = xq_project req, x_name = trim (xq_name req), x_kind = xq_kind req,
        x_host = trim (xq_host req), x_port = xq_port req, x_credentials_enc = Some credentials_enc,
        x_wrapped_dek = Some wrapped_dek, x_rotate_url_enc = rotate_url_enc, x_created_by = Some (user_id c),
        x_deleted = False\<rparr> d), fresh)))))))))))"

text \<open>
  Enough of a host to tell two proxies apart. \<open>chars\<close> are characters, not bytes: a head of three
  is the bytes up to the fourth character.
\<close>

definition continuation :: "char \<Rightarrow> bool" where
  "continuation ch \<longleftrightarrow> 128 \<le> code ch \<and> code ch < 192"

fun take_chars :: "nat \<Rightarrow> str \<Rightarrow> str" where
  "take_chars n [] = []"
| "take_chars n (ch # s) =
     (if continuation ch then ch # take_chars n s
      else (case n of 0 \<Rightarrow> [] | Suc m \<Rightarrow> ch # take_chars m s))"

definition mask_host :: "(str \<Rightarrow> bytes) \<Rightarrow> str \<Rightarrow> str" where
  "mask_host sha256 host =
     (let digest = sha256 host; tag = hex_of_bytes (take 2 digest)
      in case split_once (CHR ''.'') host of
           None \<Rightarrow> ''***'' @ tag
         | Some (first, rest) \<Rightarrow>
             if 4 < length (List.filter (\<lambda>ch. \<not> continuation ch) first)
             then take_chars 3 first @ ''***'' @ tag @ ''.'' @ rest
             else ''***'' @ tag @ ''.'' @ rest)"

record edit_proxy_request =
  eq_x_name :: str
  eq_x_kind :: str
  eq_x_host :: str
  eq_x_port :: int
  eq_x_credentials_enc :: "str option"
  eq_x_wrapped_dek :: "str option"

definition may_change :: "db \<Rightarrow> time \<Rightarrow> caller \<Rightarrow> uuid \<Rightarrow> unit api_result" where
  "may_change d now c proxy =
     (case may_change_proxy d now (user_id c) (org_id c) (role c) proxy of
        None \<Rightarrow> Inl NotFound
      | Some NotTheirs \<Rightarrow> Inl (Refused ''proxy_not_yours'')
      | Some NoLongerPermitted \<Rightarrow> Inl (Denied EditProxy)
      | Some Allowed \<Rightarrow> Inr ())"

definition edit_proxy ::
    "(str \<Rightarrow> bytes) \<Rightarrow> db \<Rightarrow> time \<Rightarrow> caller \<Rightarrow> uuid \<Rightarrow> edit_proxy_request \<Rightarrow> unit db_result" where
  "edit_proxy sha256 d now c proxy req =
     and_then (may_change d now c proxy) (\<lambda>_.
     and_then (demand (eq_x_kind req \<in> set proxy_kinds) (BadRequest ''kind must be http, https, socks5 or wireguard'')) (\<lambda>_.
     and_then (demand (1 \<le> eq_x_port req \<and> eq_x_port req \<le> 65535 \<and> trim (eq_x_host req) \<noteq> [])
       (BadRequest ''a proxy needs a host and a port'')) (\<lambda>_.
     and_then (case (eq_x_credentials_enc req, eq_x_wrapped_dek req) of
         (Some e, Some k) \<Rightarrow>
           and_then (server_unhex ''credentials_enc'' e) (\<lambda>e'.
           and_then (server_unhex ''wrapped_dek'' k) (\<lambda>k'.
           and_then (demand (40 \<le> length e' \<and> 40 \<le> length k')
             (BadRequest ''credentials_enc and wrapped_dek must be sealed values'')) (\<lambda>_. Inr (Some (e', k')))))
       | (None, None) \<Rightarrow> Inr None
       | _ \<Rightarrow> Inl (BadRequest ''credentials_enc and wrapped_dek travel together or not at all'')) (\<lambda>sealed.
     case map_of (proxies d) proxy of
       None \<Rightarrow> Inl NotFound
     | Some x \<Rightarrow>
         and_then (demand (x_org x = org_id c \<and> \<not> x_deleted x) NotFound) (\<lambda>_.
         let host = (if trim (eq_x_host req) = mask_host sha256 (x_host x) then x_host x else trim (eq_x_host req));
             x1 = x\<lparr>x_name := trim (eq_x_name req), x_kind := eq_x_kind req, x_host := host, x_port := eq_x_port req\<rparr>;
             x2 = (case sealed of None \<Rightarrow> x1 | Some (e, k) \<Rightarrow> x1\<lparr>x_credentials_enc := Some e, x_wrapped_dek := Some k\<rparr>)
         in Inr (audit c ''proxy.edit'' (Some proxy) (put_proxy proxy x2 d), ()))))))"

definition reveal_proxy :: "db \<Rightarrow> caller \<Rightarrow> uuid \<Rightarrow> (str \<times> str \<times> int \<times> str \<times> str) db_result" where
  "reveal_proxy d c proxy =
     and_then (demand (has (implicit_permissions c) RevealSecrets) (Denied RevealSecrets)) (\<lambda>_.
     case map_of (proxies d) proxy of
       None \<Rightarrow> Inl NotFound
     | Some x \<Rightarrow>
         and_then (demand (x_org x = org_id c \<and> \<not> x_deleted x) NotFound) (\<lambda>_.
         case (x_credentials_enc x, x_wrapped_dek x) of
           (Some e, Some k) \<Rightarrow> Inr (audit c ''proxy.reveal'' (Some proxy) d,
             x_kind x, x_host x, x_port x, hex_of_bytes e, hex_of_bytes k)
         | _ \<Rightarrow> Inl (BadRequest ''this proxy has no stored credentials'')))"

definition delete_proxy :: "db \<Rightarrow> time \<Rightarrow> caller \<Rightarrow> uuid \<Rightarrow> nat db_result" where
  "delete_proxy d now c proxy =
     and_then (may_change d now c proxy) (\<lambda>_.
     case map_of (proxies d) proxy of
       None \<Rightarrow> Inl NotFound
     | Some x \<Rightarrow>
         and_then (demand (x_org x = org_id c \<and> \<not> x_deleted x) NotFound) (\<lambda>_.
         Inr (audit c ''proxy.delete'' (Some proxy) (put_proxy proxy (x\<lparr>x_deleted := True\<rparr>) d),
              length (List.filter (\<lambda>(_, f). f_proxy_id f = Some proxy \<and> \<not> f_deleted f) (profiles d)))))"

section \<open>Profiles\<close>

text \<open>
  The catalogue a server was built with and the rules of \<open>persona.rs\<close> and \<open>overrides.rs\<close>: the id
  of a machine as it is written, whether such a machine could exist, which ids are built in, and,
  given the organisation's own machines, whether overrides fit one (\<open>None\<close>: there is none of that
  id).
\<close>

record machine_rules =
  read_machine :: "str \<Rightarrow> str option"
  machine_exists :: "str \<Rightarrow> bool"
  built_in :: "str \<Rightarrow> bool"
  machine_fits :: "(str \<times> str) list \<Rightarrow> str \<Rightarrow> str \<Rightarrow> bool option"

definition own_machines :: "db \<Rightarrow> uuid \<Rightarrow> (str \<times> str) list" where
  "own_machines d org = map (\<lambda>((_, i), (p, _)). (i, p)) (List.filter (\<lambda>((o', _), _). o' = org) (org_personas d))"

definition profiles_of :: "db \<Rightarrow> uuid \<Rightarrow> int" where
  "profiles_of d org = int (length (List.filter (\<lambda>(_, f). f_org f = org \<and> \<not> f_deleted f) (profiles d)))"

definition ensure_room :: "int option \<Rightarrow> db \<Rightarrow> uuid \<Rightarrow> int \<Rightarrow> unit api_result" where
  "ensure_room max_profiles d org wanted =
     (case max_profiles of
        None \<Rightarrow> Inr ()
      | Some m \<Rightarrow> demand (profiles_of d org + wanted \<le> m) (BadRequest ''this organisation may hold no more profiles''))"

definition usable_proxy :: "db \<Rightarrow> uuid \<Rightarrow> uuid \<Rightarrow> unit api_result" where
  "usable_proxy d org proxy =
     (case map_of (proxies d) proxy of
        None \<Rightarrow> Inl (BadRequest ''no such proxy'')
      | Some x \<Rightarrow>
          and_then (demand (x_org x = org \<and> \<not> x_deleted x) (BadRequest ''no such proxy'')) (\<lambda>_.
          demand (x_credentials_enc x \<noteq> None \<and> x_wrapped_dek x \<noteq> None)
            (BadRequest ''that proxy has no stored credentials, so nothing could launch through it'')))"

definition put_profile :: "uuid \<Rightarrow> profile_row \<Rightarrow> db \<Rightarrow> db" where
  "put_profile i f d = d\<lparr>profiles := AList.update i f (profiles d)\<rparr>"

definition some_text :: "str \<Rightarrow> str option" where
  "some_text s = (let t = trim s in if t = [] then None else Some t)"

record new_profile_request =
  np_name :: str
  np_tags :: "str list"
  np_persona_id :: str
  np_fp_seed :: str
  np_timezone :: str
  np_languages :: "str list"
  np_proxy_id :: uuid
  np_start_urls :: "str list"
  np_notes :: str
  np_status :: str
  np_overrides :: str

text \<open>
  What is read before the insert, and the insert, are two statements outside a transaction; nothing holds
  the count still between them.
\<close>

definition checked_profile ::
    "machine_rules \<Rightarrow> int option \<Rightarrow> db \<Rightarrow> time \<Rightarrow> caller \<Rightarrow> uuid \<Rightarrow> new_profile_request \<Rightarrow> profile_row api_result" where
  "checked_profile rules max_profiles d now c project req =
     and_then (demand_perm d now c project CreateProfile) (\<lambda>_.
     and_then (ensure_room max_profiles d (org_id c) 1) (\<lambda>_.
     and_then (demand (trim (np_name req) \<noteq> []) (BadRequest ''a profile needs a name'')) (\<lambda>_.
     and_then (case from_hex (np_fp_seed req) of
         None \<Rightarrow> Inl (BadRequest ''fp_seed must be sixteen hex characters'') | Some s \<Rightarrow> Inr s) (\<lambda>seed.
     and_then (case machine_fits rules (own_machines d (org_id c)) (np_persona_id req) (np_overrides req) of
         None \<Rightarrow> Inl (BadRequest ''no persona of that name'')
       | Some ok \<Rightarrow> demand ok (BadRequest ''these machine settings describe a machine that does not exist'')) (\<lambda>_.
     and_then (usable_proxy d (org_id c) (np_proxy_id req)) (\<lambda>_.
     Inr \<lparr>f_org = org_id c, f_project = project, f_name = trim (np_name req), f_notes = np_notes req,
        f_tags = np_tags req, f_status = trim (np_status req), f_persona_id = np_persona_id req,
        f_fp_seed = to_bytes seed, f_timezone = some_text (np_timezone req), f_languages = np_languages req,
        f_start_urls = np_start_urls req, f_overrides = np_overrides req, f_proxy_id = Some (np_proxy_id req),
        f_wrapped_cookie_key = None, f_current_version = 0, f_deleted = False\<rparr>))))))"

definition insert_profile :: "caller \<Rightarrow> uuid \<Rightarrow> profile_row \<Rightarrow> db \<Rightarrow> uuid db_result" where
  "insert_profile c fresh row d =
     and_then (demand (map_of (profiles d) fresh = None) Internal) (\<lambda>_.
     Inr (audit c ''profile.create'' (Some fresh) (put_profile fresh row d), fresh))"

definition create_profile ::
    "machine_rules \<Rightarrow> int option \<Rightarrow> db \<Rightarrow> time \<Rightarrow> caller \<Rightarrow> uuid \<Rightarrow> new_profile_request \<Rightarrow> uuid \<Rightarrow> uuid db_result" where
  "create_profile rules max_profiles d now c project req fresh =
     and_then (checked_profile rules max_profiles d now c project req) (\<lambda>row. insert_profile c fresh row d)"

definition number_mark :: str where
  "number_mark = ''{n}''"

definition clone_pattern :: "str option \<Rightarrow> str \<Rightarrow> str" where
  "clone_pattern wanted name =
     (case Option.bind wanted some_text of
        Some n \<Rightarrow> if contains_str number_mark n then n else n @ '' '' @ number_mark
      | None \<Rightarrow> name @ '' copy '' @ number_mark)"

text \<open>
  The copies are inserted one by one outside a transaction: an insert that fails leaves those
  before it. Each draws an id and a seed of its own.
\<close>

fun insert_copies :: "profile_row \<Rightarrow> str \<Rightarrow> (nat \<times> uuid \<times> u64) list \<Rightarrow> db \<Rightarrow> db \<times> uuid list api_result" where
  "insert_copies f pattern [] d = (d, Inr [])"
| "insert_copies f pattern ((n, i, seed) # rest) d =
     (if map_of (profiles d) i \<noteq> None then (d, Inl Internal)
      else map_prod id (map_sum id ((#) i)) (insert_copies f pattern rest
        (put_profile i (f\<lparr>f_name := replace_str number_mark (show_nat n) pattern, f_fp_seed := to_bytes seed\<rparr>) d)))"

definition clone_profile ::
    "int option \<Rightarrow> db \<Rightarrow> time \<Rightarrow> caller \<Rightarrow> uuid \<Rightarrow> nat \<Rightarrow> str option \<Rightarrow> (nat \<Rightarrow> uuid \<times> u64) \<Rightarrow> db \<times> uuid list api_result" where
  "clone_profile max_profiles d now c profile copies wanted draws =
     (case and_then (demand (1 \<le> copies \<and> copies \<le> 500) (BadRequest ''count must be between 1 and 500'')) (\<lambda>_.
           and_then (ensure_room max_profiles d (org_id c) (int copies)) (\<lambda>_.
           and_then (case map_of (profiles d) profile of
               None \<Rightarrow> Inl NotFound
             | Some f \<Rightarrow> if f_org f = org_id c \<and> \<not> f_deleted f then Inr f else Inl NotFound) (\<lambda>f.
           and_then (demand_perm d now c (f_project f) CreateProfile) (\<lambda>_. Inr f)))) of
        Inl e \<Rightarrow> (d, Inl e)
      | Inr f \<Rightarrow>
          (case insert_copies
               (f\<lparr>f_org := org_id c, f_status := [], f_wrapped_cookie_key := None, f_current_version := 0\<rparr>)
               (clone_pattern wanted (f_name f)) (map (\<lambda>n. (n, draws n)) [1..<Suc copies]) d of
             (d1, Inl e) \<Rightarrow> (d1, Inl e)
           | (d1, Inr ids) \<Rightarrow> (audit c ''profile.clone'' (Some profile) d1, Inr ids)))"

record edit_profile_request =
  ep_name :: str
  ep_notes :: str
  ep_tags :: "str list"
  ep_timezone :: str
  ep_languages :: "str list"
  ep_proxy_id :: uuid
  ep_start_urls :: "str list"
  ep_status :: str
  ep_overrides :: "str option"

text \<open>The rights on one profile: one that gives none does not exist for the caller.\<close>

definition profile_perms :: "db \<Rightarrow> time \<Rightarrow> caller \<Rightarrow> uuid \<Rightarrow> perm \<Rightarrow> permset api_result" where
  "profile_perms d now c profile p =
     and_then (guarded (permissions_for_profile d now (user_id c) profile)) (\<lambda>perms.
     and_then (demand (perms \<noteq> NONE) NotFound) (\<lambda>_.
     and_then (demand (has perms p) (Denied p)) (\<lambda>_. Inr perms)))"

definition edit_profile ::
    "machine_rules \<Rightarrow> db \<Rightarrow> time \<Rightarrow> caller \<Rightarrow> uuid \<Rightarrow> edit_profile_request \<Rightarrow> unit db_result" where
  "edit_profile rules d now c profile req =
     and_then (profile_perms d now c profile EditProfile) (\<lambda>perms.
     and_then (demand (trim (ep_name req) \<noteq> []) (BadRequest ''a profile needs a name'')) (\<lambda>_.
     case map_of (profiles d) profile of
       None \<Rightarrow> Inl Internal
     | Some f \<Rightarrow>
         and_then (demand (f_proxy_id f = Some (ep_proxy_id req) \<or> has perms EditProxy) (Denied EditProxy)) (\<lambda>_.
         let overrides = (case ep_overrides req of None \<Rightarrow> f_overrides f | Some v \<Rightarrow> v)
         in and_then (if overrides = f_overrides f then Inr ()
              else and_then (demand (has perms EditFingerprint) (Denied EditFingerprint)) (\<lambda>_.
                   case machine_fits rules (own_machines d (org_id c)) (f_persona_id f) overrides of
                     None \<Rightarrow> Inl (BadRequest ''the machine of this profile is not in the catalogue'')
                   | Some ok \<Rightarrow> demand ok (BadRequest ''these machine settings describe a machine that does not exist''))) (\<lambda>_.
            and_then (usable_proxy d (org_id c) (ep_proxy_id req)) (\<lambda>_.
            Inr (audit c ''profile.edit'' (Some profile)
              (if f_deleted f then d
               else put_profile profile (f\<lparr>f_name := trim (ep_name req), f_notes := ep_notes req, f_tags := ep_tags req,
                 f_timezone := some_text (ep_timezone req), f_languages := ep_languages req,
                 f_proxy_id := Some (ep_proxy_id req), f_start_urls := ep_start_urls req, f_status := trim (ep_status req),
                 f_overrides := overrides\<rparr>) d), ()))))))"

section \<open>The trash\<close>

definition delete_profile :: "db \<Rightarrow> time \<Rightarrow> caller \<Rightarrow> uuid \<Rightarrow> unit db_result" where
  "delete_profile d now c profile =
     and_then (profile_perms d now c profile DeleteProfile) (\<lambda>_.
     and_then (demand (\<not> open_in d now profile) (Conflict ''this profile is open right now. Close it first'')) (\<lambda>_.
     case map_of (profiles d) profile of
       None \<Rightarrow> Inl NotFound
     | Some f \<Rightarrow>
         and_then (demand (\<not> f_deleted f) NotFound) (\<lambda>_.
         Inr (audit c ''profile.delete'' (Some profile) (put_profile profile (f\<lparr>f_deleted := True\<rparr>) d), ()))))"

text \<open>In one transaction.\<close>

fun move_loop :: "time \<Rightarrow> caller \<Rightarrow> uuid \<Rightarrow> uuid list \<Rightarrow> db \<Rightarrow> nat db_result" where
  "move_loop now c target [] d = Inr (d, 0)"
| "move_loop now c target (i # is) d =
     (case map_of (profiles d) i of
        None \<Rightarrow> Inl NotFound
      | Some f \<Rightarrow>
          and_then (demand (f_org f = org_id c \<and> \<not> f_deleted f) NotFound) (\<lambda>_.
          if f_project f = target then move_loop now c target is d
          else
            and_then (demand (\<not> open_in d now i) (Conflict ''one of these profiles is open right now. Close it first'')) (\<lambda>_.
            and_then (guarded (permissions_for d now (user_id c) (f_project f))) (\<lambda>perms.
            and_then (demand (has perms DeleteProfile) (Denied DeleteProfile)) (\<lambda>_.
            map_sum id (map_prod id Suc) (move_loop now c target is (put_profile i (f\<lparr>f_project := target\<rparr>) d)))))))"

definition move_profiles :: "db \<Rightarrow> time \<Rightarrow> caller \<Rightarrow> uuid list \<Rightarrow> uuid \<Rightarrow> nat db_result" where
  "move_profiles d now c ids target =
     (if ids = [] then Inr (d, 0)
      else and_then (demand_perm d now c target CreateProfile) (\<lambda>_.
           and_then (move_loop now c target ids d) (\<lambda>(d1, n).
           Inr (audit c ''profile.move'' (Some target) d1, n))))"

definition restore_profile :: "db \<Rightarrow> time \<Rightarrow> caller \<Rightarrow> uuid \<Rightarrow> unit db_result" where
  "restore_profile d now c profile =
     (case map_of (profiles d) profile of
        None \<Rightarrow> Inl NotFound
      | Some f \<Rightarrow>
          and_then (demand_perm d now c (f_project f) DeleteProfile) (\<lambda>_.
          and_then (demand (case map_of (projects d) (f_project f) of None \<Rightarrow> False | Some p \<Rightarrow> \<not> pr_deleted p)
            (BadRequest ''the project this profile was in has been deleted. Restore the project first'')) (\<lambda>_.
          Inr (audit c ''profile.restore'' (Some profile) (put_profile profile (f\<lparr>f_deleted := False\<rparr>) d), ()))))"

text \<open>
  The directory of bundles goes first, whatever the state of the row; the row goes only if it is
  in the trash, and with it all that refers to it.
\<close>

definition drop_profile :: "uuid \<Rightarrow> team_db \<Rightarrow> team_db" where
  "drop_profile i d =
     d\<lparr>store := (store d)\<lparr>profiles := AList.delete i (profiles (store d)),
         profile_grants := List.filter (\<lambda>((p, _), _). p \<noteq> i) (profile_grants (store d)),
         profile_locks := AList.delete i (profile_locks (store d)),
         bundles := List.filter (\<lambda>b. b_profile b \<noteq> i) (bundles (store d))\<rparr>,
       credentials := List.filter (\<lambda>(_, r). cr_profile r \<noteq> i) (credentials d)\<rparr>"

definition purge_profile ::
    "auth_env \<Rightarrow> team_db \<Rightarrow> time \<Rightarrow> caller \<Rightarrow> headers \<Rightarrow> uuid \<Rightarrow> team_db \<times> unit api_result" where
  "purge_profile env d now c h profile =
     commit d
       (and_then (require_step_up env (auth d) now c h) (\<lambda>_.
        case map_of (profiles (store d)) profile of
          None \<Rightarrow> Inl NotFound
        | Some f \<Rightarrow>
            and_then (demand_perm (view d) now c (f_project f) DeleteProfile) (\<lambda>_.
            let d1 = d\<lparr>store := (store d)\<lparr>files := List.filter (\<lambda>((p, _), _). p \<noteq> profile) (files (store d))\<rparr>\<rparr>
            in Inr (team_audit c ''profile.purge'' (Some profile) (if f_deleted f then drop_profile profile d1 else d1), ()))))"
section \<open>Saved logins\<close>

record credential_body =
  cb_label :: str
  cb_site :: str
  cb_payload_enc :: str
  cb_wrapped_dek :: str

definition sealed_body :: "credential_body \<Rightarrow> unit api_result" where
  "sealed_body req =
     demand (40 \<le> length (cb_payload_enc req) \<and> 40 \<le> length (cb_wrapped_dek req))
       (BadRequest ''payload_enc and wrapped_dek must be sealed values'')"

definition credential_of :: "uuid \<Rightarrow> credential_body \<Rightarrow> credential_row" where
  "credential_of profile req =
     \<lparr>cr_profile = profile, cr_label = cb_label req, cr_site = cb_site req, cr_payload_enc = cb_payload_enc req,
      cr_wrapped_dek = cb_wrapped_dek req\<rparr>"

definition put_credential :: "uuid \<Rightarrow> credential_row \<Rightarrow> team_db \<Rightarrow> team_db" where
  "put_credential i r d = d\<lparr>credentials := AList.update i r (credentials d)\<rparr>"

text \<open>The logins of a profile, in the table's order (the database orders by label); reading some is audited.\<close>

definition list_credentials :: "team_db \<Rightarrow> time \<Rightarrow> caller \<Rightarrow> uuid \<Rightarrow> team_db \<times> (uuid \<times> credential_row) list api_result" where
  "list_credentials d now c profile =
     commit d
       (and_then (profile_perms (view d) now c profile RevealSecrets) (\<lambda>_.
        let rows = List.filter (\<lambda>(_, r). cr_profile r = profile) (credentials d)
        in Inr (if rows = [] then d else team_audit c ''credential.reveal'' (Some profile) d, rows)))"

definition create_credential ::
    "team_db \<Rightarrow> time \<Rightarrow> caller \<Rightarrow> uuid \<Rightarrow> credential_body \<Rightarrow> uuid \<Rightarrow> team_db \<times> uuid api_result" where
  "create_credential d now c profile req fresh =
     commit d
       (and_then (profile_perms (view d) now c profile RevealSecrets) (\<lambda>_.
        and_then (sealed_body req) (\<lambda>_.
        and_then (demand (map_of (credentials d) fresh = None) Internal) (\<lambda>_.
        Inr (team_audit c ''credential.create'' (Some profile) (put_credential fresh (credential_of profile req) d), fresh)))))"

definition edit_credential ::
    "team_db \<Rightarrow> time \<Rightarrow> caller \<Rightarrow> uuid \<Rightarrow> uuid \<Rightarrow> credential_body \<Rightarrow> team_db \<times> unit api_result" where
  "edit_credential d now c profile i req =
     commit d
       (and_then (profile_perms (view d) now c profile RevealSecrets) (\<lambda>_.
        and_then (sealed_body req) (\<lambda>_.
        and_then (demand (case map_of (credentials d) i of None \<Rightarrow> False | Some r \<Rightarrow> cr_profile r = profile) NotFound) (\<lambda>_.
        Inr (team_audit c ''credential.edit'' (Some profile) (put_credential i (credential_of profile req) d), ())))))"

definition delete_credential :: "team_db \<Rightarrow> time \<Rightarrow> caller \<Rightarrow> uuid \<Rightarrow> uuid \<Rightarrow> team_db \<times> unit api_result" where
  "delete_credential d now c profile i =
     commit d
       (and_then (profile_perms (view d) now c profile RevealSecrets) (\<lambda>_.
        and_then (demand (case map_of (credentials d) i of None \<Rightarrow> False | Some r \<Rightarrow> cr_profile r = profile) NotFound) (\<lambda>_.
        Inr (team_audit c ''credential.delete'' (Some profile) (d\<lparr>credentials := AList.delete i (credentials d)\<rparr>), ()))))"

section \<open>Domain lists\<close>

record domain_list_upsert =
  du_id :: "uuid option"
  du_name :: str
  du_body :: str

text \<open>
  The upsert names no organisation in its conflict clause. What keeps it from the row of another one is the
  policy of the table in \<open>migrations/0011\<close>, which the handler relies on: it admits the rows of every
  organisation the caller is a member of, and a row it does not admit fails the statement. A row that is
  there keeps its organisation. A name is unique in its organisation.
\<close>

definition user_in_org :: "db \<Rightarrow> uuid \<Rightarrow> uuid \<Rightarrow> bool" where
  "user_in_org d user org \<longleftrightarrow> map_of (org_members d) (org, user) \<noteq> None"

definition upsert_domain_list :: "db \<Rightarrow> caller \<Rightarrow> domain_list_upsert \<Rightarrow> uuid \<Rightarrow> (uuid \<times> nat) db_result" where
  "upsert_domain_list d c req fresh =
     and_then (demand (manages c) (Denied ManageAccess)) (\<lambda>_.
     let name = trim (du_name req); entries = su_entries (summarise (du_body req));
         i = (case du_id req of None \<Rightarrow> fresh | Some i \<Rightarrow> i);
         row = (case map_of (domain_lists d) i of
             None \<Rightarrow> \<lparr>dl_org = org_id c, dl_name = name, dl_body = du_body req\<rparr>
           | Some l \<Rightarrow> l\<lparr>dl_name := name, dl_body := du_body req\<rparr>)
     in and_then (demand (name \<noteq> [] \<and> length name \<le> 64) (BadRequest ''a list needs a name of up to 64 characters'')) (\<lambda>_.
        and_then (demand (0 < entries) (BadRequest ''the list names no domains'')) (\<lambda>_.
        and_then (demand (user_in_org d (user_id c) (dl_org row)) Internal) (\<lambda>_.
        and_then (demand (\<not> list_ex (\<lambda>(j, l). j \<noteq> i \<and> dl_org l = dl_org row \<and> dl_name l = name) (domain_lists d))
          (Conflict ''a list of that name already exists'')) (\<lambda>_.
        Inr (audit c ''domain_list.saved'' (Some i) (d\<lparr>domain_lists := AList.update i row (domain_lists d)\<rparr>), i, entries))))))"

definition forget_list :: "db \<Rightarrow> uuid \<Rightarrow> uuid \<Rightarrow> (uuid \<times> uuid) \<times> grant_row \<Rightarrow> (uuid \<times> uuid) \<times> grant_row" where
  "forget_list d org i row =
     (case row of ((p, u), g) \<Rightarrow>
       ((p, u), if (case map_of (projects d) p of None \<Rightarrow> False | Some q \<Rightarrow> pr_org q = org)
                then g\<lparr>g_domain_lists := removeAll i (g_domain_lists g)\<rparr> else g))"

definition delete_domain_list :: "db \<Rightarrow> caller \<Rightarrow> uuid \<Rightarrow> unit db_result" where
  "delete_domain_list d c i =
     and_then (demand (manages c) (Denied ManageAccess)) (\<lambda>_.
     and_then (demand (case map_of (domain_lists d) i of None \<Rightarrow> False | Some l \<Rightarrow> dl_org l = org_id c) NotFound) (\<lambda>_.
     Inr (audit c ''domain_list.deleted'' (Some i)
       (d\<lparr>domain_lists := AList.delete i (domain_lists d),
          project_grants := map (forget_list d (org_id c) i) (project_grants d)\<rparr>), ())))"

section \<open>The organisation's machines\<close>

definition persona_id_ok :: "str \<Rightarrow> bool" where
  "persona_id_ok i \<longleftrightarrow> i \<noteq> [] \<and> length i \<le> 100 \<and> list_all (\<lambda>b. is_alnum b \<or> b = CHR ''-'' \<or> b = CHR ''_'') i"

definition add_org_persona :: "machine_rules \<Rightarrow> db \<Rightarrow> time \<Rightarrow> caller \<Rightarrow> str \<Rightarrow> str db_result" where
  "add_org_persona rules d now c persona =
     and_then (demand (holds_somewhere d now (user_id c) (org_id c) (role c) CreateProfile) (Denied CreateProfile)) (\<lambda>_.
     and_then (case read_machine rules persona of None \<Rightarrow> Inl (BadRequest ''this is not a persona'') | Some i \<Rightarrow> Inr i) (\<lambda>i.
     and_then (demand (persona_id_ok i) (BadRequest ''a persona id is letters, digits, - and _, up to 100'')) (\<lambda>_.
     and_then (demand (\<not> built_in rules i) (BadRequest ''that id is already in the built-in catalogue'')) (\<lambda>_.
     and_then (demand (machine_exists rules persona) (BadRequest ''this machine could not exist'')) (\<lambda>_.
     and_then (demand (case map_of (org_personas d) (org_id c, i) of
         None \<Rightarrow> True
       | Some (_, author) \<Rightarrow> author = Some (user_id c) \<or> has_implicit_project_access (role c))
       (Refused ''persona_not_yours'')) (\<lambda>_.
     Inr (audit c ''persona.saved'' None
       (d\<lparr>org_personas := AList.update (org_id c, i)
            (persona, case map_of (org_personas d) (org_id c, i) of None \<Rightarrow> Some (user_id c) | Some (_, a) \<Rightarrow> a)
            (org_personas d)\<rparr>), i)))))))"

definition delete_org_persona :: "db \<Rightarrow> caller \<Rightarrow> str \<Rightarrow> unit db_result" where
  "delete_org_persona d c i =
     (case map_of (org_personas d) (org_id c, i) of
        None \<Rightarrow> Inl NotFound
      | Some (_, author) \<Rightarrow>
          and_then (demand (author = Some (user_id c) \<or> has_implicit_project_access (role c)) (Refused ''persona_not_yours'')) (\<lambda>_.
          and_then (demand (\<not> list_ex (\<lambda>(_, f). f_org f = org_id c \<and> f_persona_id f = i \<and> \<not> f_deleted f) (profiles d))
            (Conflict ''profile(s) are on this machine; move them to another first'')) (\<lambda>_.
          Inr (audit c ''persona.deleted'' None (d\<lparr>org_personas := AList.delete (org_id c, i) (org_personas d)\<rparr>), ()))))"

section \<open>What a caller sees\<close>

text \<open>
  The listings leave the order of names to the database's collation: rows are in the table's order
  here. The query of the projects admits a grant by its presence, not by what it holds.
\<close>

definition lists_project :: "db \<Rightarrow> time \<Rightarrow> caller \<Rightarrow> uuid \<times> project_row \<Rightarrow> bool" where
  "lists_project d now c row =
     (case row of (i, p) \<Rightarrow> \<not> pr_deleted p \<and> map_of (org_members d) (pr_org p, user_id c) \<noteq> None
        \<and> (has_implicit_project_access (role c) \<or> live_grant d now (user_id c) i \<noteq> None))"

record project_summary =
  pj_id :: uuid
  pj_name :: str
  pj_description :: str
  pj_color :: "str option"
  pj_profiles :: nat
  pj_permissions :: "perm list"

definition list_projects :: "db \<Rightarrow> time \<Rightarrow> caller \<Rightarrow> project_summary list" where
  "list_projects d now c =
     map (\<lambda>(i, p). \<lparr>pj_id = i, pj_name = pr_name p, pj_description = pr_description p, pj_color = pr_color p,
           pj_profiles = length (List.filter (\<lambda>(_, f). f_project f = i \<and> \<not> f_deleted f) (profiles d)),
           pj_permissions = to_vec (effective (role c) (live_grant d now (user_id c) i))\<rparr>)
       (List.filter (lists_project d now c) (projects d))"

record proxy_summary =
  px_id :: uuid
  px_name :: str
  px_kind :: str
  px_display :: str

record profile_summary =
  ps_id :: uuid
  ps_project :: uuid
  ps_project_name :: str
  ps_profile :: profile_row
  ps_proxy :: "proxy_summary option"
  ps_lock :: "(uuid \<times> str \<times> str) option"
  ps_permissions :: "perm list"
  ps_bundle_bytes :: "int option"
  ps_shared_with :: nat

definition host_port :: "proxy_row \<Rightarrow> str" where
  "host_port x = x_host x @ '':'' @ show_nat (nat (x_port x))"

definition proxy_display :: "(str \<Rightarrow> bytes) \<Rightarrow> bool \<Rightarrow> str \<Rightarrow> str" where
  "proxy_display sha256 reveal h =
     (if reveal then h
      else (case rsplit_once (CHR '':'') h of
          Some (host, port) \<Rightarrow> mask_host sha256 host @ '':'' @ port
        | None \<Rightarrow> mask_host sha256 h))"

text \<open>The listing query joined with what \<open>with_share_counts\<close> adds.\<close>

definition profile_summary_of ::
    "(str \<Rightarrow> bytes) \<Rightarrow> db \<Rightarrow> time \<Rightarrow> permset \<Rightarrow> project_row \<Rightarrow> uuid \<times> profile_row \<Rightarrow> profile_summary" where
  "profile_summary_of sha256 d now perms p row =
     (case row of (i, f) \<Rightarrow>
       \<lparr>ps_id = i, ps_project = f_project f, ps_project_name = pr_name p, ps_profile = f,
        ps_proxy = (case Option.bind (f_proxy_id f) (map_of (proxies d)) of
            None \<Rightarrow> None
          | Some x \<Rightarrow> if x_deleted x then None
              else Some \<lparr>px_id = the (f_proxy_id f), px_name = x_name x, px_kind = x_kind x,
                px_display = proxy_display sha256 (has perms RevealSecrets) (host_port x)\<rparr>),
        ps_lock = (case map_of (profile_locks d) i of
            None \<Rightarrow> None
          | Some l \<Rightarrow> if now < l_expires_at l
              then Some (l_user l, case map_of (users d) (l_user l) of None \<Rightarrow> [] | Some e \<Rightarrow> e, l_machine_name l) else None),
        ps_permissions = to_vec perms,
        ps_bundle_bytes = map_option b_size (List.find (\<lambda>b. b_profile b = i \<and> b_version b = f_current_version f) (bundles d)),
        ps_shared_with = length (List.filter (\<lambda>((q, _), g). q = i \<and> live now (pg_expires_at g)) (profile_grants d))\<rparr>)"

definition profiles_in :: "(str \<Rightarrow> bytes) \<Rightarrow> db \<Rightarrow> time \<Rightarrow> caller \<Rightarrow> uuid \<Rightarrow> profile_summary list api_result" where
  "profiles_in sha256 d now c project =
     and_then (guarded (permissions_for d now (user_id c) project)) (\<lambda>perms.
     and_then (demand (perms \<noteq> NONE) NotFound) (\<lambda>_.
     and_then (demand (has perms View) (Denied View)) (\<lambda>_.
     case map_of (projects d) project of
       None \<Rightarrow> Inr []
     | Some p \<Rightarrow> Inr (map (profile_summary_of sha256 d now perms p)
         (List.filter (\<lambda>(_, f). f_project f = project \<and> \<not> f_deleted f) (profiles d))))))"

text \<open>The listing across projects stops at the first that refuses.\<close>

fun gather :: "('a \<Rightarrow> 'b list api_result) \<Rightarrow> 'a list \<Rightarrow> 'b list api_result" where
  "gather f [] = Inr []"
| "gather f (x # xs) = and_then (f x) (\<lambda>ys. map_sum id ((@) ys) (gather f xs))"

definition list_all_profiles :: "(str \<Rightarrow> bytes) \<Rightarrow> db \<Rightarrow> time \<Rightarrow> caller \<Rightarrow> profile_summary list api_result" where
  "list_all_profiles sha256 d now c =
     gather (\<lambda>(i, _). profiles_in sha256 d now c i) (List.filter (lists_project d now c) (projects d))"

definition list_trash :: "db \<Rightarrow> time \<Rightarrow> caller \<Rightarrow> (uuid \<times> profile_row) list" where
  "list_trash d now c =
     List.filter (\<lambda>(_, f). f_deleted f
       \<and> (case map_of (projects d) (f_project f) of
            None \<Rightarrow> False
          | Some p \<Rightarrow> map_of (org_members d) (pr_org p, user_id c) \<noteq> None
              \<and> (has_implicit_project_access (role c) \<or> live_grant d now (user_id c) (f_project f) \<noteq> None)))
       (profiles d)"
text \<open>The proxies of the organisation, each with whether the caller may change it.\<close>

definition list_proxies ::
    "(str \<Rightarrow> bytes) \<Rightarrow> db \<Rightarrow> time \<Rightarrow> caller \<Rightarrow> (proxy_summary \<times> nat \<times> str option \<times> bool) list" where
  "list_proxies sha256 d now c =
     (let reveal = has (implicit_permissions c) RevealSecrets;
          implicit = has_implicit_project_access (role c);
          may_add = \<not> implicit \<and> may_add_proxies d now (user_id c) (org_id c) (role c)
      in map (\<lambda>(i, x). (\<lparr>px_id = i, px_name = x_name x, px_kind = x_kind x,
              px_display = (if reveal then x_host x else mask_host sha256 (x_host x)) @ '':'' @ show_nat (nat (x_port x))\<rparr>,
            length (List.filter (\<lambda>(_, f). f_proxy_id f = Some i \<and> \<not> f_deleted f) (profiles d)),
            Option.bind (x_created_by x) (map_of (users d)),
            proxy_change implicit (x_created_by x = Some (user_id c)) may_add = Allowed))
          (List.filter (\<lambda>(_, x). x_org x = org_id c \<and> \<not> x_deleted x) (proxies d)))"
end
