(* ===== verification/Tenants.thy ===== *)
theory Tenants
  imports Inventory Events
begin

text \<open>
  The handlers of \<open>Inventory\<close> run one after the other. What belongs to an organisation is its
  \<open>estate\<close>; a request from outside it leaves the estate alone. A profile keeps the machine it was
  made on for as long as it exists.
\<close>

section \<open>Requests and runs\<close>

datatype inventory_request =
    New_project project_request uuid
  | Rename_project uuid project_request
  | Delete_project uuid
  | New_proxy proxy_request uuid
  | Edit_proxy uuid edit_proxy_request
  | Reveal_proxy uuid
  | Delete_proxy uuid
  | New_profile uuid new_profile_request uuid
  | Clone_profile uuid nat "str option" "nat \<Rightarrow> uuid \<times> u64"
  | Edit_profile uuid edit_profile_request
  | Trash_profile uuid
  | Move_profiles "uuid list" uuid
  | Restore_profile uuid
  | Purge_profile headers uuid
  | Logins_of uuid
  | New_login uuid credential_body uuid
  | Edit_login uuid uuid credential_body
  | Delete_login uuid uuid
  | Save_list domain_list_upsert uuid
  | Delete_list uuid
  | Save_machine str
  | Delete_machine str

record inventory_env =
  ie_auth :: auth_env
  ie_rules :: machine_rules
  ie_max_profiles :: "int option"
  ie_sha256 :: "str \<Rightarrow> bytes"

definition on_db :: "(db \<Rightarrow> 'a db_result) \<Rightarrow> team_db \<Rightarrow> team_db" where
  "on_db f d = (case f (view d) of Inl _ \<Rightarrow> d | Inr (s, _) \<Rightarrow> d\<lparr>store := s\<rparr>)"

text \<open>An event is the time, the caller the extractor found, and the request.\<close>

definition serve_inventory :: "inventory_env \<Rightarrow> team_db \<Rightarrow> time \<times> caller \<times> inventory_request \<Rightarrow> team_db" where
  "serve_inventory env d ev =
     (case ev of (now, c, req) \<Rightarrow>
       (case req of
          New_project r fresh \<Rightarrow> on_db (\<lambda>s. create_project s c r fresh) d
        | Rename_project p r \<Rightarrow> on_db (\<lambda>s. rename_project s now c p r) d
        | Delete_project p \<Rightarrow> on_db (\<lambda>s. delete_project s now c p) d
        | New_proxy r fresh \<Rightarrow> on_db (\<lambda>s. create_proxy s now c r fresh) d
        | Edit_proxy x r \<Rightarrow> on_db (\<lambda>s. edit_proxy (ie_sha256 env) s now c x r) d
        | Reveal_proxy x \<Rightarrow> on_db (\<lambda>s. reveal_proxy s c x) d
        | Delete_proxy x \<Rightarrow> on_db (\<lambda>s. delete_proxy s now c x) d
        | New_profile p r fresh \<Rightarrow> on_db (\<lambda>s. create_profile (ie_rules env) (ie_max_profiles env) s now c p r fresh) d
        | Clone_profile f n wanted draws \<Rightarrow>
            d\<lparr>store := fst (clone_profile (ie_max_profiles env) (view d) now c f n wanted draws)\<rparr>
        | Edit_profile f r \<Rightarrow> on_db (\<lambda>s. edit_profile (ie_rules env) s now c f r) d
        | Trash_profile f \<Rightarrow> on_db (\<lambda>s. delete_profile s now c f) d
        | Move_profiles fs p \<Rightarrow> on_db (\<lambda>s. move_profiles s now c fs p) d
        | Restore_profile f \<Rightarrow> on_db (\<lambda>s. restore_profile s now c f) d
        | Purge_profile h f \<Rightarrow> fst (purge_profile (ie_auth env) d now c h f)
        | Logins_of f \<Rightarrow> fst (list_credentials d now c f)
        | New_login f r fresh \<Rightarrow> fst (create_credential d now c f r fresh)
        | Edit_login f i r \<Rightarrow> fst (edit_credential d now c f i r)
        | Delete_login f i \<Rightarrow> fst (delete_credential d now c f i)
        | Save_list r fresh \<Rightarrow> on_db (\<lambda>s. upsert_domain_list s c r fresh) d
        | Delete_list i \<Rightarrow> on_db (\<lambda>s. delete_domain_list s c i) d
        | Save_machine p \<Rightarrow> on_db (\<lambda>s. add_org_persona (ie_rules env) s now c p) d
        | Delete_machine i \<Rightarrow> on_db (\<lambda>s. delete_org_persona s c i) d))"

definition run_inventory :: "inventory_env \<Rightarrow> team_db \<Rightarrow> (time \<times> caller \<times> inventory_request) list \<Rightarrow> team_db" where
  "run_inventory env d evs = foldl (serve_inventory env) d evs"

interpretation inventory_events: event_system "serve_inventory env" "run_inventory env" for env
  by unfold_locales (simp add: run_inventory_def)

section \<open>What belongs to an organisation\<close>

definition owned :: "('v \<Rightarrow> bool) \<Rightarrow> 'v option \<Rightarrow> 'v option" where
  "owned P x = (case x of None \<Rightarrow> None | Some v \<Rightarrow> if P v then Some v else None)"

definition profile_in :: "db \<Rightarrow> uuid \<Rightarrow> uuid \<Rightarrow> bool" where
  "profile_in d org f \<longleftrightarrow> (case map_of (profiles d) f of None \<Rightarrow> False | Some r \<Rightarrow> f_org r = org)"

definition project_in :: "db \<Rightarrow> uuid \<Rightarrow> uuid \<Rightarrow> bool" where
  "project_in d org p \<longleftrightarrow> (case map_of (projects d) p of None \<Rightarrow> False | Some q \<Rightarrow> pr_org q = org)"

record estate =
  es_projects :: "uuid \<Rightarrow> project_row option"
  es_grants :: "uuid \<times> uuid \<Rightarrow> grant_row option"
  es_profiles :: "uuid \<Rightarrow> profile_row option"
  es_shares :: "uuid \<times> uuid \<Rightarrow> profile_grant_row option"
  es_proxies :: "uuid \<Rightarrow> proxy_row option"
  es_lists :: "uuid \<Rightarrow> domain_list_row option"
  es_machines :: "str \<Rightarrow> (str \<times> uuid option) option"
  es_locks :: "uuid \<Rightarrow> lock_row option"
  es_bundles :: "bundle_row list"
  es_files :: "((uuid \<times> int) \<times> bytes) list"
  es_logins :: "uuid \<Rightarrow> credential_row option"

definition estate_of :: "uuid \<Rightarrow> db \<Rightarrow> (uuid \<times> credential_row) list \<Rightarrow> estate" where
  "estate_of org d cs =
     \<lparr>es_projects = (\<lambda>i. owned (\<lambda>p. pr_org p = org) (map_of (projects d) i)),
      es_grants = (\<lambda>(p, u). if project_in d org p then map_of (project_grants d) (p, u) else None),
      es_profiles = (\<lambda>i. owned (\<lambda>f. f_org f = org) (map_of (profiles d) i)),
      es_shares = (\<lambda>(f, u). if profile_in d org f then map_of (profile_grants d) (f, u) else None),
      es_proxies = (\<lambda>i. owned (\<lambda>x. x_org x = org) (map_of (proxies d) i)),
      es_lists = (\<lambda>i. owned (\<lambda>l. dl_org l = org) (map_of (domain_lists d) i)),
      es_machines = (\<lambda>i. map_of (org_personas d) (org, i)),
      es_locks = (\<lambda>f. if profile_in d org f then map_of (profile_locks d) f else None),
      es_bundles = List.filter (\<lambda>b. profile_in d org (b_profile b)) (bundles d),
      es_files = List.filter (\<lambda>((f, _), _). profile_in d org f) (files d),
      es_logins = (\<lambda>i. owned (\<lambda>r. profile_in d org (cr_profile r)) (map_of cs i))\<rparr>"

definition estate_in :: "uuid \<Rightarrow> team_db \<Rightarrow> estate" where
  "estate_in org d = estate_of org (store d) (credentials d)"

text \<open>Writes that are not in the organisation leave its estate alone.\<close>

lemma estate_audit [simp]: "estate_of org (audit c a t d) cs = estate_of org d cs"
  by (simp add: estate_of_def profile_in_def project_in_def fun_eq_iff)

lemma estate_team_audit [simp]: "estate_in org (team_audit c a t d) = estate_in org d"
  by (simp add: estate_in_def team_audit_def)

lemma put_frame [simp]:
  "project_grants (put_project i p d) = project_grants d"
  "profiles (put_project i p d) = profiles d"
  "profile_grants (put_project i p d) = profile_grants d"
  "proxies (put_project i p d) = proxies d"
  "domain_lists (put_project i p d) = domain_lists d"
  "org_personas (put_project i p d) = org_personas d"
  "profile_locks (put_project i p d) = profile_locks d"
  "bundles (put_project i p d) = bundles d"
  "files (put_project i p d) = files d"
  "org_members (put_project i p d) = org_members d"
  "users (put_project i p d) = users d"
  "projects (put_profile i f d) = projects d"
  "project_grants (put_profile i f d) = project_grants d"
  "profile_grants (put_profile i f d) = profile_grants d"
  "proxies (put_profile i f d) = proxies d"
  "domain_lists (put_profile i f d) = domain_lists d"
  "org_personas (put_profile i f d) = org_personas d"
  "profile_locks (put_profile i f d) = profile_locks d"
  "bundles (put_profile i f d) = bundles d"
  "files (put_profile i f d) = files d"
  "org_members (put_profile i f d) = org_members d"
  "users (put_profile i f d) = users d"
  "projects (put_proxy i x d) = projects d"
  "project_grants (put_proxy i x d) = project_grants d"
  "profiles (put_proxy i x d) = profiles d"
  "profile_grants (put_proxy i x d) = profile_grants d"
  "domain_lists (put_proxy i x d) = domain_lists d"
  "org_personas (put_proxy i x d) = org_personas d"
  "profile_locks (put_proxy i x d) = profile_locks d"
  "bundles (put_proxy i x d) = bundles d"
  "files (put_proxy i x d) = files d"
  "org_members (put_proxy i x d) = org_members d"
  "users (put_proxy i x d) = users d"
  by (simp_all add: put_project_def put_profile_def put_proxy_def)

lemma put_rows:
  "map_of (projects (put_project i p d)) = (map_of (projects d))(i \<mapsto> p)"
  "map_of (profiles (put_profile i f d)) = (map_of (profiles d))(i \<mapsto> f)"
  "map_of (proxies (put_proxy i x d)) = (map_of (proxies d))(i \<mapsto> x)"
  by (simp_all add: put_project_def put_profile_def put_proxy_def update_conv')

lemma estate_put_project:
  assumes "pr_org p \<noteq> org" and "\<And>q. map_of (projects d) i = Some q \<Longrightarrow> pr_org q \<noteq> org"
  shows "estate_of org (put_project i p d) cs = estate_of org d cs"
proof -
  have "project_in (put_project i p d) org = project_in d org"
    using assms by (auto simp: project_in_def put_rows fun_eq_iff split: option.splits)
  moreover have "profile_in (put_project i p d) = profile_in d" by (simp add: profile_in_def fun_eq_iff)
  moreover have "owned (\<lambda>p. pr_org p = org) (((map_of (projects d))(i \<mapsto> p)) j)
      = owned (\<lambda>p. pr_org p = org) (map_of (projects d) j)" for j
    using assms by (auto simp: owned_def split: option.splits)
  ultimately show ?thesis by (simp add: estate_of_def put_rows cong: if_cong)
qed

lemma estate_put_profile:
  assumes "f_org f \<noteq> org" and "\<And>q. map_of (profiles d) i = Some q \<Longrightarrow> f_org q \<noteq> org"
  shows "estate_of org (put_profile i f d) cs = estate_of org d cs"
proof -
  have "profile_in (put_profile i f d) org = profile_in d org"
    using assms by (auto simp: profile_in_def put_rows fun_eq_iff split: option.splits)
  moreover have "project_in (put_profile i f d) = project_in d" by (simp add: project_in_def fun_eq_iff)
  moreover have "owned (\<lambda>p. f_org p = org) (((map_of (profiles d))(i \<mapsto> f)) j)
      = owned (\<lambda>p. f_org p = org) (map_of (profiles d) j)" for j
    using assms by (auto simp: owned_def split: option.splits)
  ultimately show ?thesis by (simp add: estate_of_def put_rows cong: if_cong)
qed

lemma estate_put_proxy:
  assumes "x_org x \<noteq> org" and "\<And>q. map_of (proxies d) i = Some q \<Longrightarrow> x_org q \<noteq> org"
  shows "estate_of org (put_proxy i x d) cs = estate_of org d cs"
proof -
  have "owned (\<lambda>p. x_org p = org) (((map_of (proxies d))(i \<mapsto> x)) j)
      = owned (\<lambda>p. x_org p = org) (map_of (proxies d) j)" for j
    using assms by (auto simp: owned_def split: option.splits)
  moreover have "project_in (put_proxy i x d) = project_in d" "profile_in (put_proxy i x d) = profile_in d"
    by (simp_all add: project_in_def profile_in_def fun_eq_iff)
  ultimately show ?thesis by (simp add: estate_of_def put_rows cong: if_cong)
qed

section \<open>Rows that refer to one another\<close>

text \<open>A profile is in a project of its organisation, and a share is on a profile that exists.\<close>

definition coherent :: "db \<Rightarrow> bool" where
  "coherent s \<longleftrightarrow> (\<forall>i f. map_of (profiles s) i = Some f \<longrightarrow> project_in s (f_org f) (f_project f))
     \<and> (\<forall>f u. map_of (profile_grants s) (f, u) \<noteq> None \<longrightarrow> map_of (profiles s) f \<noteq> None)"

text \<open>
  A caller of one organisation: a member of no other, and nobody outside it has shared a
  profile with them.
\<close>

definition of_one_org :: "db \<Rightarrow> caller \<Rightarrow> bool" where
  "of_one_org s c \<longleftrightarrow> (\<forall>o'. map_of (org_members s) (o', user_id c) \<noteq> None \<longrightarrow> o' = org_id c)
     \<and> (\<forall>f. map_of (profile_grants s) (f, user_id c) \<noteq> None \<longrightarrow> profile_in s (org_id c) f)"

definition tidy :: "db \<Rightarrow> db \<Rightarrow> bool" where
  "tidy s s' \<longleftrightarrow> coherent s' \<and> org_members s' = org_members s
     \<and> (\<forall>f u. map_of (profile_grants s') (f, u) \<noteq> None \<longrightarrow>
          map_of (profile_grants s) (f, u) \<noteq> None \<and> (\<forall>org. profile_in s org f \<longrightarrow> profile_in s' org f))"

lemma tidy_one_org: "tidy s s' \<Longrightarrow> of_one_org s c \<Longrightarrow> of_one_org s' c"
  unfolding tidy_def of_one_org_def by metis

lemma tidy_trans: "tidy s s' \<Longrightarrow> tidy s' s'' \<Longrightarrow> tidy s s''"
  unfolding tidy_def by metis

lemma tidy_cong:
  assumes "coherent s" and "projects s' = projects s" and "profiles s' = profiles s"
    and "profile_grants s' = profile_grants s" and "org_members s' = org_members s"
  shows "tidy s s'"
  using assms unfolding tidy_def coherent_def project_in_def profile_in_def by simp

lemma tidy_audit [simp]: "tidy s (audit c a t s') = tidy s s'"
  by (simp add: tidy_def coherent_def project_in_def profile_in_def)

lemma tidy_put_project:
  assumes "coherent s" and "\<And>q. map_of (projects s) i = Some q \<Longrightarrow> pr_org q = pr_org p"
  shows "tidy s (put_project i p s)"
proof -
  have "project_in s org j \<Longrightarrow> project_in (put_project i p s) org j" for org j
    using assms(2) by (auto simp: project_in_def put_rows split: option.splits)
  then show ?thesis
    using assms(1) unfolding tidy_def coherent_def profile_in_def by simp
qed

lemma tidy_put_profile:
  assumes "coherent s" and "project_in s (f_org f) (f_project f)"
    and "\<And>q. map_of (profiles s) i = Some q \<Longrightarrow> f_org q = f_org f"
  shows "tidy s (put_profile i f s)"
proof -
  have "profile_in s org j \<Longrightarrow> profile_in (put_profile i f s) org j" for org j
    using assms(3) by (auto simp: profile_in_def put_rows split: option.splits)
  moreover have "project_in (put_profile i f s) = project_in s" by (simp add: project_in_def fun_eq_iff)
  ultimately show ?thesis
    using assms(1,2) unfolding tidy_def coherent_def by (auto simp: put_rows)
qed

section \<open>What a caller of one organisation reaches\<close>

lemma demanded_project:
  assumes "demand_perm s now c p perm = Inr u" and "of_one_org s c"
  shows "project_in s (org_id c) p"
proof -
  from assms(1) obtain perms where "require s now (user_id c) p perm = Inr perms"
    by (auto simp: demand_perm_def map_sum_def split: sum.splits)
  then have "permissions_for s now (user_id c) p = Inr perms" "perms \<noteq> NONE"
    by (auto simp: require_def split: sum.splits if_splits)
  then obtain q r r' where "map_of (projects s) p = Some q" "map_of (org_members s) (pr_org q, user_id c) = Some r"
    by (rule permissions_for_cases)
  then show ?thesis using assms(2) by (auto simp: of_one_org_def project_in_def)
qed

lemma reached_profile:
  assumes "profile_perms s now c f perm = Inr perms" and "of_one_org s c" and "coherent s"
  shows "profile_in s (org_id c) f"
proof -
  from assms(1) have perms: "permissions_for_profile s now (user_id c) f = Inr perms" "perms \<noteq> NONE"
    by (auto simp: profile_perms_def)
  then obtain r s0 where r: "map_of (profiles s) f = Some r" and s0: "permissions_for s now (user_id c) (f_project r) = Inr s0"
    by (auto simp: permissions_for_profile_def split: option.splits if_splits sum.splits)
  show ?thesis
  proof (cases "s0 = NONE")
    case True
    then have "map_of (profile_grants s) (f, user_id c) \<noteq> None"
      using perms r s0 by (auto simp: permissions_for_profile_def split: option.splits if_splits)
    then show ?thesis using assms(2) by (simp add: of_one_org_def)
  next
    case False
    from s0 False obtain q r1 r' where q: "map_of (projects s) (f_project r) = Some q"
      and "map_of (org_members s) (pr_org q, user_id c) = Some r1"
      by (rule permissions_for_cases)
    then have "pr_org q = org_id c" using assms(2) by (auto simp: of_one_org_def)
    moreover have "project_in s (f_org r) (f_project r)" using assms(3) r by (auto simp: coherent_def)
    ultimately show ?thesis using r q by (simp add: profile_in_def project_in_def)
  qed
qed

section \<open>Every handler stays in the caller's organisation\<close>

definition stays_out :: "uuid \<Rightarrow> db \<Rightarrow> db \<Rightarrow> bool" where
  "stays_out org s s' \<longleftrightarrow> tidy s s' \<and> (\<forall>cs. estate_of org s' cs = estate_of org s cs)"

lemma stays_out_refl: "coherent s \<Longrightarrow> stays_out org s s"
  by (simp add: stays_out_def tidy_cong)

lemma stays_out_trans: "stays_out org s s' \<Longrightarrow> stays_out org s' s'' \<Longrightarrow> stays_out org s s''"
  unfolding stays_out_def using tidy_trans by metis

lemma stays_out_audit [simp]: "stays_out org s (audit c a t s') = stays_out org s s'"
  by (simp add: stays_out_def)

lemma out_project:
  assumes "coherent s" and "pr_org p \<noteq> org" and "\<And>q. map_of (projects s) i = Some q \<Longrightarrow> pr_org q = pr_org p"
  shows "stays_out org s (put_project i p s)"
  unfolding stays_out_def using tidy_put_project [OF assms(1,3)] estate_put_project [OF assms(2)] assms(2,3) by metis

lemma out_profile:
  assumes "coherent s" and "project_in s (f_org f) (f_project f)" and "f_org f \<noteq> org"
    and "\<And>q. map_of (profiles s) i = Some q \<Longrightarrow> f_org q = f_org f"
  shows "stays_out org s (put_profile i f s)"
  unfolding stays_out_def using tidy_put_profile [OF assms(1,2,4)] estate_put_profile [OF assms(3)] assms(3,4) by metis

lemma out_proxy:
  assumes "coherent s" and "x_org x \<noteq> org" and "\<And>q. map_of (proxies s) i = Some q \<Longrightarrow> x_org q = x_org x"
  shows "stays_out org s (put_proxy i x s)"
  unfolding stays_out_def using tidy_cong [OF assms(1)] estate_put_proxy [OF assms(2)] assms(2,3)
  by (metis put_frame)

text \<open>The two listings of a write: what it leaves of the rest.\<close>

lemma out_other_tables:
  assumes "coherent s" and "projects s' = projects s" and "profiles s' = profiles s" and "profile_grants s' = profile_grants s"
    and "org_members s' = org_members s" and "\<And>cs. estate_of org s' cs = estate_of org s cs"
  shows "stays_out org s s'"
  using tidy_cong [OF assms(1-5)] assms(6) by (simp add: stays_out_def)

lemma projects_stay_out:
  assumes "coherent s" and "of_one_org s c" and "org_id c \<noteq> org"
  shows "create_project s c r fresh = Inr (s', x1) \<Longrightarrow> stays_out org s s'"
    and "rename_project s now c p r = Inr (s', x2) \<Longrightarrow> stays_out org s s'"
proof -
  show "create_project s c r fresh = Inr (s', x1) \<Longrightarrow> stays_out org s s'"
    using assms(1,3) by (auto simp: create_project_def Let_def intro!: out_project)
  show "rename_project s now c p r = Inr (s', x2) \<Longrightarrow> stays_out org s s'"
    using assms(1,3) by (auto simp: rename_project_def Let_def stays_out_refl split: option.splits intro!: out_project)
qed

lemma trash_project_stays_out:
  assumes "coherent s" and "project_in s o' p" and "o' \<noteq> org"
  shows "stays_out org s (s\<lparr>profiles := map (\<lambda>(i, f). (i, if f_project f = p \<and> \<not> f_deleted f then f\<lparr>f_deleted := True\<rparr> else f))
     (profiles s)\<rparr>)" (is "stays_out org s ?s")
proof -
  have rows: "map_of (profiles ?s) i = map_option (\<lambda>f. if f_project f = p \<and> \<not> f_deleted f then f\<lparr>f_deleted := True\<rparr> else f)
      (map_of (profiles s) i)" for i
    by (simp add: map_of_adjust)
  have at_p: "f_org f = o'" if "map_of (profiles s) i = Some f" "f_project f = p" for i f
    using assms(1,2) that by (auto simp: coherent_def project_in_def split: option.splits)
  have prof: "profile_in ?s = profile_in s"
    unfolding profile_in_def rows by (auto simp: fun_eq_iff split: option.split)
  have proj: "project_in ?s = project_in s" by (simp add: project_in_def fun_eq_iff)
  have own: "owned (\<lambda>f. f_org f = org) (map_of (profiles ?s) i) = owned (\<lambda>f. f_org f = org) (map_of (profiles s) i)" for i
    unfolding rows using at_p [of i] assms(3) by (cases "map_of (profiles s) i") (auto simp: owned_def)
  have "coherent ?s"
    using assms(1) unfolding coherent_def proj rows by (fastforce split: if_splits)
  then have "tidy s ?s" using assms(1) by (simp add: tidy_def prof)
  moreover have "estate_of org ?s cs = estate_of org s cs" for cs
    using own by (simp add: estate_of_def prof proj cong: if_cong)
  ultimately show ?thesis by (simp add: stays_out_def)
qed

lemma delete_project_stays_out:
  assumes "coherent s" and "org_id c \<noteq> org" and "delete_project s now c p = Inr (s', x)"
  shows "stays_out org s s'"
proof -
  let ?s1 = "s\<lparr>profiles := map (\<lambda>(i, f). (i, if f_project f = p \<and> \<not> f_deleted f then f\<lparr>f_deleted := True\<rparr> else f)) (profiles s)\<rparr>"
  from assms(3) obtain q where q: "map_of (projects s) p = Some q" "pr_org q = org_id c"
    and s': "s' = audit c ''project.delete'' (Some p) (put_project p (q\<lparr>pr_deleted := True\<rparr>) ?s1)"
    by (auto simp: delete_project_def Let_def split: option.splits)
  have "project_in s (org_id c) p" using q by (simp add: project_in_def)
  then have one: "stays_out org s ?s1" using trash_project_stays_out assms(1,2) by blast
  then have "coherent ?s1" by (simp add: stays_out_def tidy_def)
  then have "stays_out org ?s1 (put_project p (q\<lparr>pr_deleted := True\<rparr>) ?s1)"
    using q assms(2) by (intro out_project) auto
  then show ?thesis using stays_out_trans [OF one] by (simp add: s')
qed

lemma proxies_stay_out:
  assumes "coherent s" and "org_id c \<noteq> org"
  shows "create_proxy s now c xr fresh = Inr (s', x1) \<Longrightarrow> stays_out org s s'"
    and "edit_proxy sha s now c x er = Inr (s', x2) \<Longrightarrow> stays_out org s s'"
    and "reveal_proxy s c x = Inr (s', x3) \<Longrightarrow> stays_out org s s'"
    and "delete_proxy s now c x = Inr (s', x4) \<Longrightarrow> stays_out org s s'"
proof -
  show "create_proxy s now c xr fresh = Inr (s', x1) \<Longrightarrow> stays_out org s s'"
    using assms by (auto simp: create_proxy_def intro!: out_proxy)
  show "edit_proxy sha s now c x er = Inr (s', x2) \<Longrightarrow> stays_out org s s'"
    using assms
    by (cases "map_of (proxies s) x") (auto simp: edit_proxy_def Let_def split: option.splits intro!: out_proxy)
  show "reveal_proxy s c x = Inr (s', x3) \<Longrightarrow> stays_out org s s'"
    using assms by (auto simp: reveal_proxy_def stays_out_refl split: option.splits)
  show "delete_proxy s now c x = Inr (s', x4) \<Longrightarrow> stays_out org s s'"
    using assms by (auto simp: delete_proxy_def split: option.splits intro!: out_proxy)
qed

lemma checked_profile_Inr:
  assumes "checked_profile rules m s now c p r = Inr f"
  shows "demand_perm s now c p CreateProfile = Inr ()" and "ensure_room m s (org_id c) 1 = Inr ()"
    and "f_org f = org_id c" and "f_project f = p" and "\<not> f_deleted f"
  using assms by (auto simp: checked_profile_def)

lemma create_profile_cases:
  assumes "create_profile rules m s now c p r fresh = Inr (s', x)"
  obtains f where "demand_perm s now c p CreateProfile = Inr ()" and "ensure_room m s (org_id c) 1 = Inr ()"
    and "map_of (profiles s) fresh = None" and "f_org f = org_id c" and "f_project f = p" and "\<not> f_deleted f"
    and "s' = audit c ''profile.create'' (Some fresh) (put_profile fresh f s)"
proof -
  from assms obtain f where f: "checked_profile rules m s now c p r = Inr f" and "map_of (profiles s) fresh = None"
    and "s' = audit c ''profile.create'' (Some fresh) (put_profile fresh f s)"
    by (auto simp: create_profile_def insert_profile_def)
  then show ?thesis using checked_profile_Inr [OF f] that by blast
qed

lemma create_profile_stays_out:
  assumes "coherent s" and "of_one_org s c" and "org_id c \<noteq> org"
    and "create_profile rules m s now c p r fresh = Inr (s', x)"
  shows "stays_out org s s'"
proof -
  from assms(4) obtain f where guard: "demand_perm s now c p CreateProfile = Inr ()" and new: "map_of (profiles s) fresh = None"
    and f: "f_org f = org_id c" "f_project f = p"
    and s': "s' = audit c ''profile.create'' (Some fresh) (put_profile fresh f s)"
    by (rule create_profile_cases)
  show ?thesis
    unfolding s' stays_out_audit using demanded_project [OF guard assms(2)] new f assms(1,3)
    by (intro out_profile) simp_all
qed

lemma stays_out_coherent: "stays_out org s s' \<Longrightarrow> coherent s'"
  by (simp add: stays_out_def tidy_def)

lemma insert_copies_stay_out:
  assumes "coherent s" and "project_in s (f_org f) (f_project f)" and "f_org f \<noteq> org"
  shows "stays_out org s (fst (insert_copies f pattern ns s))"
  using assms(1,2)
proof (induction ns arbitrary: s)
  case Nil
  then show ?case by (simp add: stays_out_refl)
next
  case (Cons n ns)
  obtain k i seed where n: "n = (k, i, seed)" by (cases n)
  show ?case
  proof (cases "map_of (profiles s) i")
    case None
    let ?s = "put_profile i (f\<lparr>f_name := replace_str number_mark (show_nat k) pattern, f_fp_seed := to_bytes seed\<rparr>) s"
    have one: "stays_out org s ?s" using Cons.prems assms(3) None by (intro out_profile) simp_all
    moreover have "project_in ?s (f_org f) (f_project f)" using Cons.prems(2) by (simp add: project_in_def)
    ultimately have "stays_out org ?s (fst (insert_copies f pattern ns ?s))"
      using Cons.IH stays_out_coherent by blast
    then show ?thesis using stays_out_trans [OF one] None by (simp add: n)
  next
    case (Some r)
    then show ?thesis using Cons.prems by (simp add: n stays_out_refl)
  qed
qed

definition copy_of :: "uuid \<Rightarrow> profile_row \<Rightarrow> profile_row" where
  "copy_of org r = r\<lparr>f_org := org, f_status := [], f_wrapped_cookie_key := None, f_current_version := 0\<rparr>"

lemma clone_profile_cases:
  assumes "clone_profile m s now c f n wanted draws = (s', x)"
  shows "s' = s \<and> (\<exists>e. x = Inl e)
    \<or> (\<exists>r y. map_of (profiles s) f = Some r \<and> f_org r = org_id c \<and> \<not> f_deleted r
        \<and> demand_perm s now c (f_project r) CreateProfile = Inr () \<and> ensure_room m s (org_id c) (int n) = Inr ()
        \<and> insert_copies (copy_of (org_id c) r) (clone_pattern wanted (f_name r)) (map (\<lambda>n. (n, draws n)) [1..<Suc n]) s = y
        \<and> (s' = fst y \<or> s' = audit c ''profile.clone'' (Some f) (fst y)) \<and> x = snd y)"
proof (cases "and_then (demand (1 \<le> n \<and> n \<le> 500) (BadRequest ''count must be between 1 and 500'')) (\<lambda>_.
           and_then (ensure_room m s (org_id c) (int n)) (\<lambda>_.
           and_then (case map_of (profiles s) f of
               None \<Rightarrow> Inl NotFound
             | Some f \<Rightarrow> if f_org f = org_id c \<and> \<not> f_deleted f then Inr f else Inl NotFound) (\<lambda>f.
           and_then (demand_perm s now c (f_project f) CreateProfile) (\<lambda>_. Inr f))))")
  case (Inl e)
  then have "s' = s \<and> x = Inl e" using assms by (auto simp: clone_profile_def)
  then show ?thesis by blast
next
  case (Inr r)
  then have r: "map_of (profiles s) f = Some r \<and> f_org r = org_id c \<and> \<not> f_deleted r
        \<and> demand_perm s now c (f_project r) CreateProfile = Inr () \<and> ensure_room m s (org_id c) (int n) = Inr ()"
    by (auto split: option.splits if_splits)
  obtain t y where ins: "insert_copies (copy_of (org_id c) r) (clone_pattern wanted (f_name r)) (map (\<lambda>n. (n, draws n)) [1..<Suc n]) s = (t, y)"
    by force
  have "(s' = t \<or> s' = audit c ''profile.clone'' (Some f) t) \<and> x = y"
    using assms ins unfolding clone_profile_def Inr copy_of_def by (cases y) (auto simp del: upt_Suc)
  then show ?thesis
    using r ins by (intro disjI2 exI [of _ r] exI [of _ "(t, y)"]) (simp del: upt_Suc)
qed

lemma clone_profile_stays_out:
  assumes "coherent s" and "org_id c \<noteq> org"
  shows "stays_out org s (fst (clone_profile m s now c f n wanted draws))"
proof -
  obtain s' x where run: "clone_profile m s now c f n wanted draws = (s', x)" by force
  from clone_profile_cases [OF run] have "stays_out org s s'"
  proof (elim disjE exE conjE)
    fix r y
    assume r: "map_of (profiles s) f = Some r" "f_org r = org_id c"
      and y: "insert_copies (copy_of (org_id c) r) (clone_pattern wanted (f_name r)) (map (\<lambda>n. (n, draws n)) [1..<Suc n]) s = y"
    have "project_in s (org_id c) (f_project r)" using assms(1) r unfolding coherent_def by metis
    then have out: "stays_out org s (fst y)"
      unfolding y [symmetric] using assms by (intro insert_copies_stay_out) (simp_all add: copy_of_def)
    show "s' = fst y \<Longrightarrow> stays_out org s s'" "s' = audit c ''profile.clone'' (Some f) (fst y) \<Longrightarrow> stays_out org s s'"
      using out by simp_all
  qed (simp add: assms(1) stays_out_refl)
  then show ?thesis using run by simp
qed

lemma profile_in_row: "profile_in s o' i \<Longrightarrow> map_of (profiles s) i = Some f \<Longrightarrow> f_org f = o'"
  by (simp add: profile_in_def)

lemma coherent_row: "coherent s \<Longrightarrow> map_of (profiles s) i = Some f \<Longrightarrow> project_in s (f_org f) (f_project f)"
  by (simp add: coherent_def)

lemma edit_profile_stays_out:
  assumes "coherent s" and "of_one_org s c" and "org_id c \<noteq> org" and "edit_profile rules s now c i r = Inr (s', x)"
  shows "stays_out org s s'"
proof -
  from assms(4) obtain perms where guard: "profile_perms s now c i EditProfile = Inr perms"
    by (auto simp: edit_profile_def)
  show ?thesis
  proof (cases "map_of (profiles s) i")
    case None
    then show ?thesis using assms(4) by (simp add: edit_profile_def)
  next
    case (Some f)
    have f: "f_org f = org_id c" using profile_in_row [OF reached_profile [OF guard assms(2,1)] Some] .
    show ?thesis
      using assms(1,3,4) Some f coherent_row [OF assms(1) Some]
      by (auto simp: edit_profile_def Let_def stays_out_refl split: if_splits intro!: out_profile)
  qed
qed

lemma delete_profile_stays_out:
  assumes "coherent s" and "of_one_org s c" and "org_id c \<noteq> org" and "delete_profile s now c i = Inr (s', x)"
  shows "stays_out org s s'"
proof -
  from assms(4) obtain perms where guard: "profile_perms s now c i DeleteProfile = Inr perms"
    by (auto simp: delete_profile_def)
  show ?thesis
  proof (cases "map_of (profiles s) i")
    case (Some f)
    have "f_org f = org_id c" using profile_in_row [OF reached_profile [OF guard assms(2,1)] Some] .
    then show ?thesis
      using assms(1,3,4) Some coherent_row [OF assms(1) Some]
      by (auto simp: delete_profile_def intro!: out_profile)
  qed (use assms(4) in \<open>simp add: delete_profile_def\<close>)
qed

lemma move_loop_stays_out:
  assumes "coherent s" and "project_in s (org_id c) target" and "org_id c \<noteq> org" and "move_loop now c target is s = Inr (s', n)"
  shows "stays_out org s s'"
  using assms(1,2,4)
proof (induction "is" arbitrary: s n)
  case Nil
  then show ?case by (simp add: stays_out_refl)
next
  case (Cons i rest)
  then obtain f where f: "map_of (profiles s) i = Some f" "f_org f = org_id c" by (auto split: option.splits)
  show ?case
  proof (cases "f_project f = target")
    case True
    then show ?thesis using Cons f by simp
  next
    case False
    let ?s = "put_profile i (f\<lparr>f_project := target\<rparr>) s"
    have one: "stays_out org s ?s" using Cons.prems(1,2) f assms(3) by (intro out_profile) simp_all
    obtain k where "move_loop now c target rest ?s = Inr (s', k)"
      using Cons.prems(3) f False by (auto simp: map_sum_def split: sum.splits)
    moreover have "coherent ?s" "project_in ?s (org_id c) target"
      using one Cons.prems(2) by (simp_all add: stays_out_def tidy_def project_in_def)
    ultimately show ?thesis using Cons.IH stays_out_trans [OF one] by blast
  qed
qed

lemma move_profiles_stays_out:
  assumes "coherent s" and "of_one_org s c" and "org_id c \<noteq> org" and "move_profiles s now c ids target = Inr (s', n)"
  shows "stays_out org s s'"
proof (cases "ids = []")
  case True
  then show ?thesis using assms by (simp add: move_profiles_def stays_out_refl)
next
  case False
  then obtain s1 where guard: "demand_perm s now c target CreateProfile = Inr ()"
    and "move_loop now c target ids s = Inr (s1, n)" and s': "s' = audit c ''profile.move'' (Some target) s1"
    using assms(4) by (auto simp: move_profiles_def)
  then show ?thesis
    using move_loop_stays_out [OF assms(1) demanded_project [OF guard assms(2)] assms(3)] by simp
qed

lemma restore_profile_stays_out:
  assumes "coherent s" and "of_one_org s c" and "org_id c \<noteq> org" and "restore_profile s now c i = Inr (s', x)"
  shows "stays_out org s s'"
proof (cases "map_of (profiles s) i")
  case (Some f)
  then have guard: "demand_perm s now c (f_project f) DeleteProfile = Inr ()"
    using assms(4) by (auto simp: restore_profile_def)
  have "f_org f = org_id c"
    using demanded_project [OF guard assms(2)] coherent_row [OF assms(1) Some]
    by (auto simp: project_in_def split: option.splits)
  then show ?thesis
    using assms(1,3,4) Some coherent_row [OF assms(1) Some]
    by (auto simp: restore_profile_def intro!: out_profile)
qed (use assms(4) in \<open>simp add: restore_profile_def\<close>)
end
