(* ===== verification/Isolation.thy ===== *)
theory Isolation
  imports Tenants Team_Protocol
begin

text \<open>
  Requests of callers outside an organisation leave its estate alone, one by one and over a run.
\<close>

lemma lists_stay_out:
  assumes "coherent s" and "of_one_org s c" and "org_id c \<noteq> org"
  shows "upsert_domain_list s c r fresh = Inr (s', x1) \<Longrightarrow> stays_out org s s'"
    and "delete_domain_list s c i = Inr (s', x2) \<Longrightarrow> stays_out org s s'"
    and "add_org_persona rules s now c p = Inr (s', x3) \<Longrightarrow> stays_out org s s'"
    and "delete_org_persona s c k = Inr (s', x4) \<Longrightarrow> stays_out org s s'"
proof -
  assume saved: "upsert_domain_list s c r fresh = Inr (s', x1)"
  define i where "i = (case du_id r of None \<Rightarrow> fresh | Some i \<Rightarrow> i)"
  define row where "row = (case map_of (domain_lists s) i of
      None \<Rightarrow> \<lparr>dl_org = org_id c, dl_name = trim (du_name r), dl_body = du_body r\<rparr>
    | Some l \<Rightarrow> l\<lparr>dl_name := trim (du_name r), dl_body := du_body r\<rparr>)"
  from saved have "user_in_org s (user_id c) (dl_org row)"
    and s': "s' = audit c ''domain_list.saved'' (Some i) (s\<lparr>domain_lists := AList.update i row (domain_lists s)\<rparr>)"
    unfolding upsert_domain_list_def Let_def i_def [symmetric] row_def [symmetric] and_then_Inr demand_Inr
    by (elim exE conjE; simp)+
  then have "dl_org row = org_id c" using assms(2) by (auto simp: user_in_org_def of_one_org_def)
  then have "owned (\<lambda>l. dl_org l = org) (if j = i then Some row else map_of (domain_lists s) j)
      = owned (\<lambda>l. dl_org l = org) (map_of (domain_lists s) j)" for j
    using assms(3) by (auto simp: owned_def row_def split: option.splits)
  then show "stays_out org s s'"
    unfolding s' stays_out_audit
    by (intro out_other_tables [OF assms(1)])
      (simp_all add: estate_of_def lookup_update profile_in_def project_in_def cong: if_cong)
next
  assume "delete_domain_list s c i = Inr (s', x2)"
  then obtain l where old: "map_of (domain_lists s) i = Some l" "dl_org l = org_id c"
    and s': "s' = audit c ''domain_list.deleted'' (Some i)
       (s\<lparr>domain_lists := AList.delete i (domain_lists s), project_grants := map (forget_list s (org_id c) i) (project_grants s)\<rparr>)"
    by (auto simp: delete_domain_list_def split: option.splits)
  have "owned (\<lambda>l. dl_org l = org) (if j = i then None else map_of (domain_lists s) j)
      = owned (\<lambda>l. dl_org l = org) (map_of (domain_lists s) j)" for j
    using old assms(3) by (auto simp: owned_def split: option.splits)
  moreover have "map_of (map (forget_list s (org_id c) i) t) (q, u) = map_of t (q, u)" if "project_in s org q" for t q u
    using that assms(3) by (induction t) (auto simp: forget_list_def project_in_def split: option.splits)
  ultimately show "stays_out org s s'"
    unfolding s' stays_out_audit
    by (intro out_other_tables [OF assms(1)])
      (simp_all add: estate_of_def lookup_delete profile_in_def project_in_def fun_eq_iff cong: if_cong)
next
  assume "add_org_persona rules s now c p = Inr (s', x3)"
  then obtain i v where s': "s' = audit c ''persona.saved'' None
      (s\<lparr>org_personas := AList.update (org_id c, i) v (org_personas s)\<rparr>)"
    by (auto simp: add_org_persona_def)
  show "stays_out org s s'"
    unfolding s' stays_out_audit using assms(3)
    by (intro out_other_tables [OF assms(1)])
      (simp_all add: estate_of_def lookup_update profile_in_def project_in_def cong: if_cong)
next
  assume "delete_org_persona s c k = Inr (s', x4)"
  then have s': "s' = audit c ''persona.deleted'' None (s\<lparr>org_personas := AList.delete (org_id c, k) (org_personas s)\<rparr>)"
    by (auto simp: delete_org_persona_def split: option.splits)
  show "stays_out org s s'"
    unfolding s' stays_out_audit using assms(3)
    by (intro out_other_tables [OF assms(1)])
      (simp_all add: estate_of_def lookup_delete profile_in_def project_in_def cong: if_cong)
qed

section \<open>The same for a whole request\<close>

text \<open>The primary key of the saved logins.\<close>

definition unique_logins :: "team_db \<Rightarrow> bool" where
  "unique_logins d \<longleftrightarrow> distinct (map fst (credentials d))"

lemma unique_logins_frame [simp]:
  "unique_logins (d\<lparr>store := s\<rparr>) = unique_logins d"
  "unique_logins (team_audit c a t d) = unique_logins d"
  by (simp_all add: unique_logins_def team_audit_def)

definition keeps_out :: "uuid \<Rightarrow> team_db \<Rightarrow> team_db \<Rightarrow> bool" where
  "keeps_out org d d' \<longleftrightarrow> estate_in org d' = estate_in org d \<and> tidy (view d) (view d')
     \<and> (unique_logins d \<longrightarrow> unique_logins d')"

lemma view_same [simp]:
  "profile_grants (view d) = profile_grants (store d)" "profiles (view d) = profiles (store d)"
  "proxies (view d) = proxies (store d)" "domain_lists (view d) = domain_lists (store d)"
  "org_personas (view d) = org_personas (store d)" "profile_locks (view d) = profile_locks (store d)"
  "bundles (view d) = bundles (store d)" "files (view d) = files (store d)"
  by (simp_all add: view_def)

lemma estate_view: "estate_of org (view d) cs = estate_of org (store d) cs"
proof -
  have "profile_in (view d) = profile_in (store d)" "project_in (view d) = project_in (store d)"
    by (simp_all add: profile_in_def project_in_def fun_eq_iff)
  then show ?thesis by (simp add: estate_of_def cong: if_cong)
qed

lemma view_store:
  "org_members s = org_members (view d) \<Longrightarrow>
   projects (view (d\<lparr>store := s\<rparr>)) = projects s \<and> profiles (view (d\<lparr>store := s\<rparr>)) = profiles s
   \<and> profile_grants (view (d\<lparr>store := s\<rparr>)) = profile_grants s \<and> org_members (view (d\<lparr>store := s\<rparr>)) = org_members s"
  by (simp add: view_def members_def)

lemma tidy_store:
  assumes "tidy (view d) s"
  shows "tidy (view d) (view (d\<lparr>store := s\<rparr>))"
proof -
  have "org_members s = org_members (view d)" using assms by (simp add: tidy_def)
  from view_store [OF this] show ?thesis
    using assms unfolding tidy_def coherent_def project_in_def profile_in_def by simp
qed

lemma keeps_out_store: "stays_out org (view d) s \<Longrightarrow> keeps_out org d (d\<lparr>store := s\<rparr>)"
  by (simp add: keeps_out_def stays_out_def estate_in_def estate_view tidy_store)

lemma keeps_out_refl: "coherent (view d) \<Longrightarrow> keeps_out org d d"
  by (simp add: keeps_out_def tidy_cong)

lemma keeps_out_trans: "keeps_out org d d' \<Longrightarrow> keeps_out org d' d'' \<Longrightarrow> keeps_out org d d''"
  unfolding keeps_out_def using tidy_trans by metis

lemma on_db_keeps_out:
  assumes "coherent (view d)" and "\<And>s x. f (view d) = Inr (s, x) \<Longrightarrow> stays_out org (view d) s"
  shows "keeps_out org d (on_db f d)"
proof (cases "f (view d)")
  case (Inr y)
  then show ?thesis using assms(2) [of "fst y" "snd y"] by (cases y) (simp add: on_db_def keeps_out_store)
qed (simp add: on_db_def keeps_out_refl [OF assms(1)])

lemma view_team_audit: "view (team_audit c a t d) = view d"
  by (simp add: view_def team_audit_def audit_by_def members_def)

lemma keeps_out_audit [simp]: "keeps_out org d (team_audit c a t d') = keeps_out org d d'"
  by (simp add: keeps_out_def view_team_audit)

lemma logins_keep_out:
  assumes "coherent (view d)" and "unique_logins d \<Longrightarrow> distinct (map fst cs)"
    and "\<And>i. map_of cs i \<noteq> map_of (credentials d) i \<Longrightarrow>
      (\<forall>r. map_of cs i = Some r \<longrightarrow> \<not> profile_in (store d) org (cr_profile r))
      \<and> (\<forall>r. map_of (credentials d) i = Some r \<longrightarrow> \<not> profile_in (store d) org (cr_profile r))"
  shows "keeps_out org d (d\<lparr>credentials := cs\<rparr>)"
proof -
  have "owned (\<lambda>r. profile_in (store d) org (cr_profile r)) (map_of cs i)
      = owned (\<lambda>r. profile_in (store d) org (cr_profile r)) (map_of (credentials d) i)" for i
    using assms(3) [of i] by (cases "map_of cs i = map_of (credentials d) i") (auto simp: owned_def split: option.splits)
  moreover have "view (d\<lparr>credentials := cs\<rparr>) = view d" by (simp add: view_def members_def)
  ultimately show ?thesis
    using tidy_cong [OF assms(1)] assms(2)
    by (simp add: keeps_out_def estate_in_def estate_of_def unique_logins_def)
qed

lemma credentials_keep_out:
  assumes "coherent (view d)" and "of_one_org (view d) c" and "org_id c \<noteq> org"
  shows "keeps_out org d (fst (list_credentials d now c f))"
    and "keeps_out org d (fst (create_credential d now c f r fresh))"
    and "keeps_out org d (fst (edit_credential d now c f i r))"
    and "keeps_out org d (fst (delete_credential d now c f i))"
proof -
  have f: False if "profile_in (store d) org g" "profile_perms (view d) now c g RevealSecrets = Inr perms" for g perms
    using reached_profile [OF that(2) assms(2,1)] that(1) assms(3) by (auto simp: profile_in_def split: option.splits)
  show "keeps_out org d (fst (list_credentials d now c f))"
    unfolding list_credentials_def
    by (rule commit_rule) (auto simp: Let_def keeps_out_refl assms(1))
  show "keeps_out org d (fst (create_credential d now c f r fresh))"
    unfolding create_credential_def put_credential_def
    by (rule commit_rule, auto simp: keeps_out_refl assms(1) credential_of_def lookup_update distinct_update unique_logins_def
        intro!: logins_keep_out split: if_splits, (erule (1) f)+)
  show "keeps_out org d (fst (edit_credential d now c f i r))"
    unfolding edit_credential_def put_credential_def
    by (rule commit_rule, auto simp: keeps_out_refl assms(1) credential_of_def lookup_update distinct_update unique_logins_def
        intro!: logins_keep_out split: if_splits option.splits, (erule (1) f)+)
  show "keeps_out org d (fst (delete_credential d now c f i))"
    unfolding delete_credential_def
    by (rule commit_rule, auto simp: keeps_out_refl assms(1) lookup_delete distinct_delete unique_logins_def
        intro!: logins_keep_out split: if_splits option.splits, (erule (1) f)+)
qed

lemma view_files: "view (d\<lparr>store := (store d)\<lparr>files := fs\<rparr>\<rparr>) = (view d)\<lparr>files := fs\<rparr>"
  by (simp add: view_def members_def)

lemma trim_files_keeps_out:
  assumes "coherent (view d)" and "\<not> profile_in (store d) org i"
  shows "keeps_out org d (d\<lparr>store := (store d)\<lparr>files := List.filter (\<lambda>((p, _), _). p \<noteq> i) (files (store d))\<rparr>\<rparr>)"
    (is "keeps_out org d ?d")
proof -
  have same: "profile_in (store ?d) = profile_in (store d)" "project_in (store ?d) = project_in (store d)"
    by (simp_all add: profile_in_def project_in_def fun_eq_iff)
  have "List.filter (\<lambda>((f, _), _). profile_in (store d) org f) (List.filter (\<lambda>((p, _), _). p \<noteq> i) t)
      = List.filter (\<lambda>((f, _), _). profile_in (store d) org f) t" for t :: "((uuid \<times> int) \<times> bytes) list"
    using assms(2) by (induction t) auto
  then have "estate_in org ?d = estate_in org d"
    unfolding estate_in_def estate_of_def same by (simp cong: if_cong)
  moreover have "tidy (view d) (view ?d)"
    unfolding view_files by (rule tidy_cong) (simp_all add: assms(1))
  ultimately show ?thesis by (simp add: keeps_out_def)
qed

lemma lookup_drop_row:
  assumes "distinct (map fst t)"
  shows "map_of (List.filter (\<lambda>(_, r). cr_profile r \<noteq> i) t) j =
     (case map_of t j of None \<Rightarrow> None | Some r \<Rightarrow> if cr_profile r = i then None else Some r)"
  using assms by (induction t) (auto split: option.splits simp: map_of_eq_None_iff image_iff)

lemma drop_profile_keeps_out:
  assumes "coherent (view d)" and "unique_logins d" and "map_of (profiles (store d)) i = Some f" and "f_org f \<noteq> org"
  shows "keeps_out org d (drop_profile i d)" (is "keeps_out org d ?d")
proof -
  have out: "\<not> profile_in (store d) org i" using assms(3,4) by (simp add: profile_in_def)
  have rows: "map_of (profiles (store ?d)) = (map_of (profiles (store d)))(i := None)"
    by (simp add: drop_profile_def delete_conv')
  have prof: "profile_in (store ?d) o' j \<longleftrightarrow> profile_in (store d) o' j \<and> j \<noteq> i" for o' j
    by (simp add: profile_in_def rows)
  then have prof': "profile_in (store ?d) org = profile_in (store d) org" using out by (auto simp: fun_eq_iff)
  have proj: "project_in (store ?d) = project_in (store d)"
    by (simp add: project_in_def drop_profile_def fun_eq_iff)
  have grants: "map_of (List.filter (\<lambda>((p, _), _). p \<noteq> i) t) (g, u) = (if g = i then None else map_of t (g, u))"
    for t :: "((uuid \<times> uuid) \<times> profile_grant_row) list" and g u
    by (induction t) auto
  have bun: "List.filter (\<lambda>b. profile_in (store d) org (b_profile b)) (List.filter (\<lambda>b. b_profile b \<noteq> i) t)
      = List.filter (\<lambda>b. profile_in (store d) org (b_profile b)) t" for t
    using out by (induction t) auto
  have "owned (\<lambda>r. profile_in (store d) org (cr_profile r)) (map_of (credentials ?d) j)
      = owned (\<lambda>r. profile_in (store d) org (cr_profile r)) (map_of (credentials d) j)" for j
    using assms(2) out by (auto simp: drop_profile_def unique_logins_def lookup_drop_row owned_def split: option.splits)
  moreover have "owned (\<lambda>f. f_org f = org) (map_of (profiles (store ?d)) j) = owned (\<lambda>f. f_org f = org) (map_of (profiles (store d)) j)" for j
    using assms(3,4) by (auto simp: rows owned_def split: option.splits)
  moreover have "(if profile_in (store d) org g then map_of (profile_grants (store ?d)) (g, u) else None)
      = (if profile_in (store d) org g then map_of (profile_grants (store d)) (g, u) else None)" for g u
    using out by (auto simp: drop_profile_def grants)
  moreover have "(if profile_in (store d) org g then map_of (profile_locks (store ?d)) g else None)
      = (if profile_in (store d) org g then map_of (profile_locks (store d)) g else None)" for g
    using out by (auto simp: drop_profile_def lookup_delete)
  moreover have "projects (store ?d) = projects (store d)" "project_grants (store ?d) = project_grants (store d)"
    "proxies (store ?d) = proxies (store d)" "domain_lists (store ?d) = domain_lists (store d)"
    "org_personas (store ?d) = org_personas (store d)" "files (store ?d) = files (store d)"
    "bundles (store ?d) = List.filter (\<lambda>b. b_profile b \<noteq> i) (bundles (store d))"
    by (simp_all add: drop_profile_def)
  ultimately have estate: "estate_in org ?d = estate_in org d"
    unfolding estate_in_def estate_of_def prof' proj by (simp only: bun)
  have shares: "map_of (profile_grants (view ?d)) (g, u) = (if g = i then None else map_of (profile_grants (view d)) (g, u))" for g u
    by (simp add: drop_profile_def grants)
  have "coherent (view ?d)"
    using assms(1) unfolding coherent_def shares
    by (auto simp: rows project_in_def drop_profile_def view_def lookup_delete)
  then have "tidy (view d) (view ?d)"
    unfolding tidy_def shares using prof
    by (auto simp: view_def members_def drop_profile_def profile_in_def lookup_delete)
  moreover have "unique_logins ?d"
    using assms(2) by (simp add: unique_logins_def drop_profile_def distinct_map_filter)
  ultimately show ?thesis using estate by (simp add: keeps_out_def)
qed

lemma purge_keeps_out:
  assumes "coherent (view d)" and "unique_logins d" and "of_one_org (view d) c" and "org_id c \<noteq> org"
  shows "keeps_out org d (fst (purge_profile env d now c h i))"
  unfolding purge_profile_def
proof (rule commit_rule)
  fix d' x
  assume run: "and_then (require_step_up env (auth d) now c h) (\<lambda>_.
        case map_of (profiles (store d)) i of
          None \<Rightarrow> Inl NotFound
        | Some f \<Rightarrow>
            and_then (demand_perm (view d) now c (f_project f) DeleteProfile) (\<lambda>_.
            let d1 = d\<lparr>store := (store d)\<lparr>files := List.filter (\<lambda>((p, _), _). p \<noteq> i) (files (store d))\<rparr>\<rparr>
            in Inr (team_audit c ''profile.purge'' (Some i) (if f_deleted f then drop_profile i d1 else d1), ()))) = Inr (d', x)"
  let ?d1 = "d\<lparr>store := (store d)\<lparr>files := List.filter (\<lambda>((p, _), _). p \<noteq> i) (files (store d))\<rparr>\<rparr>"
  from run obtain f where f: "map_of (profiles (store d)) i = Some f"
    and guard: "demand_perm (view d) now c (f_project f) DeleteProfile = Inr ()"
    and d': "d' = team_audit c ''profile.purge'' (Some i) (if f_deleted f then drop_profile i ?d1 else ?d1)"
    by (auto simp: Let_def split: option.splits)
  have "f_org f = org_id c"
    using demanded_project [OF guard assms(3)] coherent_row [OF assms(1), of i f] f
    by (auto simp: project_in_def split: option.splits)
  then have f': "f_org f \<noteq> org" using assms(4) by simp
  then have one: "keeps_out org d ?d1"
    using f by (intro trim_files_keeps_out [OF assms(1)]) (simp add: profile_in_def)
  moreover have "keeps_out org ?d1 (drop_profile i ?d1)"
    using one assms(2) f f' by (intro drop_profile_keeps_out) (simp_all add: keeps_out_def tidy_def)
  ultimately show "keeps_out org d d'"
    unfolding d' keeps_out_audit using keeps_out_trans [OF one] by simp
qed (rule keeps_out_refl [OF assms(1)])

lemma serve_keeps_out:
  assumes "coherent (view d)" and "unique_logins d" and "of_one_org (view d) c" and "org_id c \<noteq> org"
  shows "keeps_out org d (serve_inventory env d (now, c, req))"
  using assms
  by (cases req)
    (auto simp: serve_inventory_def purge_keeps_out credentials_keep_out
      intro!: on_db_keeps_out keeps_out_store clone_profile_stays_out
      intro: projects_stay_out delete_project_stays_out proxies_stay_out create_profile_stays_out edit_profile_stays_out
        delete_profile_stays_out move_profiles_stays_out restore_profile_stays_out lists_stay_out)

text \<open>
  C22. The tenants of a server are apart, for outsiders who are outsiders: whatever requests of the inventory are
  served to callers of other organisations, each a member of no organisation but their own and with no share on a
  profile from outside it, the estate of an organisation (its projects, grants, profiles, shares, proxies, lists,
  machines, locks, bundles, files and logins) is afterwards what it was. For domain lists, whose handler does not look
  at the organisation of the row it is given, this rests on the row policy of the database, which is modelled there.
\<close>

theorem tenants_are_apart:
  assumes "coherent (view d)" and "unique_logins d"
    and "\<And>now c req. (now, c, req) \<in> set evs \<Longrightarrow> org_id c \<noteq> org \<and> of_one_org (view d) c"
  shows "estate_in org (run_inventory env d evs) = estate_in org d"
proof -
  have "keeps_out org d (run_inventory env d evs)"
    using assms
  proof (induction evs arbitrary: d)
    case Nil
    then show ?case by (simp add: run_inventory_def keeps_out_refl)
  next
    case (Cons ev evs)
    obtain now c req where ev: "ev = (now, c, req)" by (cases ev)
    let ?d = "serve_inventory env d ev"
    have "org_id c \<noteq> org" "of_one_org (view d) c" using Cons.prems(3) ev by auto
    then have one: "keeps_out org d ?d" using serve_keeps_out Cons.prems(1,2) ev by blast
    then have "coherent (view ?d)" "unique_logins ?d"
      using Cons.prems(2) by (simp_all add: keeps_out_def tidy_def)
    moreover have "org_id c' \<noteq> org \<and> of_one_org (view ?d) c'" if "(now', c', req') \<in> set evs" for now' c' req'
      using Cons.prems(3) [of now' c' req'] that one tidy_one_org by (auto simp: keeps_out_def)
    ultimately have "keeps_out org ?d (run_inventory env ?d evs)" using Cons.IH by blast
    then show ?case using keeps_out_trans [OF one] by (simp add: run_inventory_def)
  qed
  then show ?thesis by (simp add: keeps_out_def)
qed

text \<open>Two organisations; the owner of the second tries to delete what the first one has.\<close>

definition inventory_env_1 :: inventory_env where
  "inventory_env_1 = \<lparr>ie_auth = demo_auth,
     ie_rules = \<lparr>read_machine = (\<lambda>p. Some p), machine_exists = (\<lambda>_. True), built_in = (\<lambda>i. i = ''win''),
       machine_fits = (\<lambda>own i ov. Some True)\<rparr>,
     ie_max_profiles = Some 1, ie_sha256 = text_bytes\<rparr>"

definition profile_1 :: profile_row where
  "profile_1 = demo_profile\<lparr>f_org := 3, f_project := 20\<rparr>"

definition house_1 :: team_db where
  "house_1 = team_1\<lparr>auth := (auth team_1)\<lparr>au_members :=
       [((3, 7), \<lparr>m_role = ''owner'', m_wrapped_ork = Some [1], m_ork_generation = Some 1\<rparr>),
        ((4, 8), \<lparr>m_role = ''owner'', m_wrapped_ork = Some [1], m_ork_generation = Some 1\<rparr>)]\<rparr>,
     store := store_1\<lparr>projects := [(20, demo_project\<lparr>pr_org := 3\<rparr>), (21, demo_project\<lparr>pr_org := 4\<rparr>)],
       project_grants := [], access_roles := [], profiles := [(40, profile_1)]\<rparr>\<rparr>"

definition outsider_1 :: caller where
  "outsider_1 = \<lparr>user_id = 8, org_id = 4, role = Owner\<rparr>"

lemmas house_1_simps = house_1_def team_1_simps profile_1_def demo_project_def demo_profile_def outsider_1_def inventory_env_1_def

lemma house_1_ok: "coherent (view house_1)" "unique_logins house_1" "of_one_org (view house_1) outsider_1"
  by (auto simp: coherent_def unique_logins_def of_one_org_def project_in_def view_def members_def house_1_simps split: if_splits)

theorem tenants_are_apart_witness:
  "es_profiles (estate_in 3 (run_inventory inventory_env_1 house_1
     [(5, outsider_1, Delete_project 20), (6, outsider_1, Trash_profile 40), (7, outsider_1, Purge_profile [] 40)])) 40 = Some profile_1"
proof -
  have org: "org_id outsider_1 = 4" by (simp add: outsider_1_def)
  have "estate_in 3 (run_inventory inventory_env_1 house_1
     [(5, outsider_1, Delete_project 20), (6, outsider_1, Trash_profile 40), (7, outsider_1, Purge_profile [] 40)]) = estate_in 3 house_1"
    by (rule tenants_are_apart [OF house_1_ok(1,2)]) (use house_1_ok(3) in \<open>auto simp: org\<close>)
  then show ?thesis by (simp add: estate_in_def estate_of_def owned_def house_1_simps)
qed
end
