(* ===== verification/Shelf.thy ===== *)
theory Shelf
  imports Isolation
begin

text \<open>
  What the requests of \<open>Inventory\<close> do to the table of profiles is one of five moves. A ceiling on
  the profiles of an organisation and the machine of a profile are invariants of the moves.
\<close>

section \<open>The moves of the table\<close>

type_synonym shelf = "(uuid \<times> profile_row) list"

definition held_by_org :: "shelf \<Rightarrow> uuid \<Rightarrow> int" where
  "held_by_org t org = int (length (List.filter (\<lambda>(_, f). f_org f = org \<and> \<not> f_deleted f) t))"

definition same_machine :: "profile_row \<Rightarrow> profile_row \<Rightarrow> bool" where
  "same_machine f f' \<longleftrightarrow> f_org f' = f_org f \<and> f_persona_id f' = f_persona_id f \<and> f_fp_seed f' = f_fp_seed f"

text \<open>
  \<open>m\<close> is the ceiling, \<open>r\<close> says whether profiles come back from the trash, \<open>A\<close> are the ids that are
  drawn.
\<close>

inductive shelf_step :: "int option \<Rightarrow> bool \<Rightarrow> uuid set \<Rightarrow> shelf \<Rightarrow> shelf \<Rightarrow> bool" for m r A where
  add: "map_of t i = None \<Longrightarrow> i \<in> A \<Longrightarrow> (\<And>k. m = Some k \<Longrightarrow> held_by_org t (f_org f) < k) \<Longrightarrow>
    shelf_step m r A t (AList.update i f t)"
| change: "map_of t i = Some f \<Longrightarrow> same_machine f f' \<Longrightarrow> (f_deleted f \<longrightarrow> f_deleted f') \<Longrightarrow>
    shelf_step m r A t (AList.update i f' t)"
| restore: "r \<Longrightarrow> map_of t i = Some f \<Longrightarrow> shelf_step m r A t (AList.update i (f\<lparr>f_deleted := False\<rparr>) t)"
| trash: "shelf_step m r A t (map (\<lambda>(i, f). (i, if P f then f\<lparr>f_deleted := True\<rparr> else f)) t)"
| drop: "shelf_step m r A t (AList.delete i t)"

abbreviation shelf_run :: "int option \<Rightarrow> bool \<Rightarrow> uuid set \<Rightarrow> shelf \<Rightarrow> shelf \<Rightarrow> bool" where
  "shelf_run m r A \<equiv> (shelf_step m r A)\<^sup>*\<^sup>*"

lemma shelf_step_mono:
  assumes "shelf_step m r A t t'" and "r \<longrightarrow> r'" and "A \<subseteq> B"
  shows "shelf_step m r' B t t'"
  using assms(1)
proof cases
  case (add i f)
  then show ?thesis using assms(3) by (auto intro: shelf_step.add)
next
  case (change i f f')
  then show ?thesis using shelf_step.change by blast
next
  case (restore i f)
  then show ?thesis using assms(2) shelf_step.restore by blast
qed (auto intro: shelf_step.trash shelf_step.drop)

lemma shelf_run_mono:
  assumes "shelf_run m r A t t'" and "r \<longrightarrow> r'" and "A \<subseteq> B"
  shows "shelf_run m r' B t t'"
  using assms(1)
  by (induction rule: rtranclp_induct) (auto intro: rtranclp.rtrancl_into_rtrancl shelf_step_mono [OF _ assms(2,3)])

section \<open>Counting\<close>

lemma held_update:
  "held_by_org (AList.update i f t) org =
     held_by_org t org + (if f_org f = org \<and> \<not> f_deleted f then 1 else 0)
     - (case map_of t i of None \<Rightarrow> 0 | Some g \<Rightarrow> if f_org g = org \<and> \<not> f_deleted g then 1 else 0)"
  by (induction t) (auto simp: held_by_org_def split: option.splits)

lemma length_filter_map_le: "(\<And>x. P (g x) \<Longrightarrow> Q x) \<Longrightarrow> length (List.filter P (map g t)) \<le> length (List.filter Q t)"
  by (induction t) auto

lemma held_delete: "held_by_org (AList.delete i t) org \<le> held_by_org t org"
  unfolding held_by_org_def AList.delete_eq by (induction t) auto

lemma held_trash:
  "held_by_org (map (\<lambda>(i, f). (i, if P f then f\<lparr>f_deleted := True\<rparr> else f)) t) org \<le> held_by_org t org"
  unfolding held_by_org_def of_nat_le_iff by (rule length_filter_map_le) (auto split: if_splits)

lemma shelf_run_ceiling:
  assumes "shelf_run (Some k) False A t t'" and "held_by_org t org \<le> k"
  shows "held_by_org t' org \<le> k"
  using assms
proof (induction rule: rtranclp_induct)
  case (step t1 t2)
  from step.hyps(2) step.IH [OF step.prems] show ?case
  proof (cases rule: shelf_step.cases)
    case (add i f)
    then show ?thesis using step.IH [OF step.prems] by (auto simp: held_update)
  next
    case (change i f f')
    then show ?thesis using step.IH [OF step.prems] by (auto simp: held_update same_machine_def)
  qed (auto intro: order_trans [OF held_delete] order_trans [OF held_trash])
qed simp

lemma shelf_run_machine:
  assumes "shelf_run m r A t t'" and "i \<notin> A" and "map_of t i = Some f" and "map_of t' i = Some f'"
  shows "same_machine f f'"
proof -
  have "case map_of t' i of None \<Rightarrow> True | Some f' \<Rightarrow> same_machine f f'"
    using assms(1)
  proof (induction rule: rtranclp_induct)
    case base
    then show ?case using assms(3) by (simp add: same_machine_def)
  next
    case (step t1 t2)
    from step.hyps(2) step.IH show ?case
    proof (cases rule: shelf_step.cases)
      case (add j g)
      then show ?thesis using step.IH assms(2) by (auto simp: lookup_update)
    next
      case (change j g g')
      then show ?thesis using step.IH by (auto simp: lookup_update same_machine_def split: option.splits)
    next
      case (restore j g)
      then show ?thesis using step.IH by (auto simp: lookup_update same_machine_def split: option.splits)
    next
      case (trash P)
      then show ?thesis using step.IH
        by (auto simp: map_of_adjust same_machine_def split: option.splits)
    next
      case (drop j)
      then show ?thesis using step.IH by (auto simp: lookup_delete)
    qed
  qed
  then show ?thesis using assms(4) by simp
qed

section \<open>Every request is a run of moves\<close>

definition drawn :: "inventory_request \<Rightarrow> uuid set" where
  "drawn req =
     (case req of New_profile _ _ fresh \<Rightarrow> {fresh}
      | Clone_profile _ n _ draws \<Rightarrow> (\<lambda>k. fst (draws k)) ` {1..n}
      | _ \<Rightarrow> {})"

definition brings_back :: "inventory_request \<Rightarrow> bool" where
  "brings_back req = (case req of Restore_profile _ \<Rightarrow> True | _ \<Rightarrow> False)"

lemma shelf_same: "profiles s' = profiles s \<Longrightarrow> shelf_run m r A (profiles s) (profiles s')"
  by simp

lemma shelf_put:
  "shelf_step m r A (profiles s) (AList.update i f (profiles s)) \<Longrightarrow> shelf_run m r A (profiles s) (profiles (put_profile i f s))"
  by (simp add: put_profile_def r_into_rtranclp)

lemma shelf_change:
  "map_of (profiles s) i = Some f \<Longrightarrow> same_machine f f' \<Longrightarrow> (f_deleted f \<longrightarrow> f_deleted f') \<Longrightarrow>
   shelf_run m r A (profiles s) (profiles (put_profile i f' s))"
  by (rule shelf_put, rule shelf_step.change)

text \<open>The handlers that leave the profiles alone.\<close>

lemma other_tables:
  "create_project s c pr fresh = Inr (s', x1) \<Longrightarrow> profiles s' = profiles s"
  "rename_project s now c p pr = Inr (s', x2) \<Longrightarrow> profiles s' = profiles s"
  "create_proxy s now c xr fresh = Inr (s', x3) \<Longrightarrow> profiles s' = profiles s"
  "edit_proxy sha s now c i er = Inr (s', x4) \<Longrightarrow> profiles s' = profiles s"
  "reveal_proxy s c i = Inr (s', x5) \<Longrightarrow> profiles s' = profiles s"
  "delete_proxy s now c i = Inr (s', x6) \<Longrightarrow> profiles s' = profiles s"
  "upsert_domain_list s c lr fresh = Inr (s', x7) \<Longrightarrow> profiles s' = profiles s"
  "delete_domain_list s c i = Inr (s', x8) \<Longrightarrow> profiles s' = profiles s"
  "add_org_persona rules s now c t = Inr (s', x9) \<Longrightarrow> profiles s' = profiles s"
  "delete_org_persona s c t = Inr (s', x10) \<Longrightarrow> profiles s' = profiles s"
proof -
  show "edit_proxy sha s now c i er = Inr (s', x4) \<Longrightarrow> profiles s' = profiles s"
    by (cases "map_of (proxies s) i") (auto simp: edit_proxy_def Let_def split: option.splits)
  show "upsert_domain_list s c lr fresh = Inr (s', x7) \<Longrightarrow> profiles s' = profiles s"
    by (auto simp: upsert_domain_list_def Let_def)
qed (auto simp: create_project_def rename_project_def create_proxy_def reveal_proxy_def delete_proxy_def
    delete_domain_list_def add_org_persona_def delete_org_persona_def Let_def split: option.splits if_splits)

lemma delete_project_moves:
  assumes "delete_project s now c p = Inr (s', x)"
  shows "shelf_run m r A (profiles s) (profiles s')"
proof -
  from assms have "profiles s' = map (\<lambda>(i, f). (i, if f_project f = p \<and> \<not> f_deleted f then f\<lparr>f_deleted := True\<rparr> else f)) (profiles s)"
    by (auto simp: delete_project_def Let_def split: option.splits)
  then show ?thesis
    using shelf_step.trash [of m r A "profiles s" "\<lambda>f. f_project f = p \<and> \<not> f_deleted f"] by (simp add: r_into_rtranclp)
qed

lemma ensure_room_Inr: "ensure_room (Some k) s org n = Inr () \<longleftrightarrow> held_by_org (profiles s) org + n \<le> k"
  by (simp add: ensure_room_def profiles_of_def held_by_org_def)

lemma create_profile_moves:
  assumes "create_profile rules m s now c p rq fresh = Inr (s', x)"
  shows "shelf_run m r {fresh} (profiles s) (profiles s')"
proof -
  from assms obtain f where room: "ensure_room m s (org_id c) 1 = Inr ()" and new: "map_of (profiles s) fresh = None"
    and f: "f_org f = org_id c" and s': "s' = audit c ''profile.create'' (Some fresh) (put_profile fresh f s)"
    by (rule create_profile_cases)
  show ?thesis
    unfolding s' audit_frame using room new f by (intro shelf_put shelf_step.add) (auto simp: ensure_room_Inr)
qed

lemma insert_copies_moves:
  assumes "\<And>k. m = Some k \<Longrightarrow> held_by_org (profiles s) (f_org f) + int (length ns) \<le> k"
    and "(\<lambda>(n, i, seed). i) ` set ns \<subseteq> A" and "\<not> f_deleted f"
  shows "shelf_run m r A (profiles s) (profiles (fst (insert_copies f pattern ns s)))"
  using assms(1,2)
proof (induction ns arbitrary: s)
  case Nil
  then show ?case by simp
next
  case (Cons n ns)
  obtain k i seed where n: "n = (k, i, seed)" by (cases n)
  show ?case
  proof (cases "map_of (profiles s) i")
    case None
    let ?f = "f\<lparr>f_name := replace_str number_mark (show_nat k) pattern, f_fp_seed := to_bytes seed\<rparr>"
    have one: "shelf_run m r A (profiles s) (profiles (put_profile i ?f s))"
      using Cons.prems n None by (intro shelf_put shelf_step.add) fastforce+
    have "held_by_org (profiles (put_profile i ?f s)) (f_org f) = held_by_org (profiles s) (f_org f) + 1"
      using None assms(3) by (simp add: put_profile_def held_update)
    then have "shelf_run m r A (profiles (put_profile i ?f s)) (profiles (fst (insert_copies f pattern ns (put_profile i ?f s))))"
      using Cons.prems by (intro Cons.IH) fastforce+
    then show ?thesis using one None by (simp add: n)
  qed (simp add: n)
qed

lemma clone_profile_moves:
  "shelf_run m r ((\<lambda>k. fst (draws k)) ` {1..n}) (profiles s) (profiles (fst (clone_profile m s now c f n wanted draws)))"
proof -
  obtain s' x where run: "clone_profile m s now c f n wanted draws = (s', x)" by force
  from clone_profile_cases [OF run] have "shelf_run m r ((\<lambda>k. fst (draws k)) ` {1..n}) (profiles s) (profiles s')"
  proof (elim disjE exE conjE)
    fix g y
    assume g: "\<not> f_deleted g" and room: "ensure_room m s (org_id c) (int n) = Inr ()"
      and y: "insert_copies (copy_of (org_id c) g) (clone_pattern wanted (f_name g)) (map (\<lambda>n. (n, draws n)) [1..<Suc n]) s = y"
    have "shelf_run m r ((\<lambda>k. fst (draws k)) ` {1..n}) (profiles s) (profiles (fst y))"
      unfolding y [symmetric] using room g
      by (intro insert_copies_moves)
        (simp_all add: ensure_room_Inr copy_of_def image_image split_beta atLeastLessThanSuc_atLeastAtMost del: upt_Suc)
    then show "s' = fst y \<Longrightarrow> ?thesis" "s' = audit c ''profile.clone'' (Some f) (fst y) \<Longrightarrow> ?thesis"
      using run by simp_all
  qed simp
  then show ?thesis using run by simp
qed

lemma edit_profile_moves:
  assumes "edit_profile rules s now c i q = Inr (s', x)"
  shows "shelf_run m r A (profiles s) (profiles s')"
proof (cases "map_of (profiles s) i")
  case None
  then show ?thesis using assms by (auto simp: edit_profile_def)
next
  case (Some f)
  then show ?thesis
    using assms by (auto simp: edit_profile_def Let_def same_machine_def split: if_splits intro!: shelf_change)
qed

lemma delete_profile_moves:
  assumes "delete_profile s now c i = Inr (s', x)"
  shows "shelf_run m r A (profiles s) (profiles s')"
  using assms
  by (auto simp: delete_profile_def same_machine_def split: option.splits intro!: shelf_change)

lemma move_loop_moves:
  "move_loop now c target is s = Inr (s', n) \<Longrightarrow> shelf_run m r A (profiles s) (profiles s')"
proof (induction "is" arbitrary: s n)
  case (Cons i rest)
  then obtain f where f: "map_of (profiles s) i = Some f" by (auto split: option.splits)
  show ?case
  proof (cases "f_project f = target")
    case True
    then show ?thesis using Cons f by simp
  next
    case False
    let ?s = "put_profile i (f\<lparr>f_project := target\<rparr>) s"
    obtain k where "move_loop now c target rest ?s = Inr (s', k)"
      using Cons.prems f False by (auto simp: map_sum_def split: sum.splits)
    moreover have "shelf_run m r A (profiles s) (profiles ?s)"
      using f by (rule shelf_change) (simp_all add: same_machine_def)
    ultimately show ?thesis using Cons.IH rtranclp_trans [of "shelf_step m r A"] by blast
  qed
qed simp

lemma move_profiles_moves:
  "move_profiles s now c is target = Inr (s', n) \<Longrightarrow> shelf_run m r A (profiles s) (profiles s')"
  by (auto simp: move_profiles_def intro: move_loop_moves split: if_splits)

lemma restore_profile_moves:
  "restore_profile s now c i = Inr (s', x) \<Longrightarrow> shelf_run m True A (profiles s) (profiles s')"
  by (auto simp: restore_profile_def split: option.splits intro!: shelf_put shelf_step.restore)

lemma purge_profile_moves:
  "shelf_run m r A (profiles (store d)) (profiles (store (fst (purge_profile env d now c h i))))"
  unfolding purge_profile_def
  by (rule commit_rule)
    (auto simp: Let_def drop_profile_def team_audit_def intro: shelf_step.drop split: option.splits)

lemma logins_move_nothing:
  "store (fst (list_credentials d now c f)) = store d"
  "store (fst (create_credential d now c f q fresh)) = store d"
  "store (fst (edit_credential d now c f i q)) = store d"
  "store (fst (delete_credential d now c f i)) = store d"
proof -
  show "store (fst (list_credentials d now c f)) = store d"
    unfolding list_credentials_def by (rule commit_rule) (auto simp: Let_def team_audit_def)
  show "store (fst (create_credential d now c f q fresh)) = store d"
    unfolding create_credential_def by (rule commit_rule) (auto simp: team_audit_def put_credential_def)
  show "store (fst (edit_credential d now c f i q)) = store d"
    unfolding edit_credential_def by (rule commit_rule) (auto simp: team_audit_def put_credential_def)
  show "store (fst (delete_credential d now c f i)) = store d"
    unfolding delete_credential_def by (rule commit_rule) (auto simp: team_audit_def)
qed

lemmas other_moves = other_tables [THEN shelf_same]

lemma on_db_moves:
  assumes "\<And>s x. f (view d) = Inr (s, x) \<Longrightarrow> shelf_run m r A (profiles (view d)) (profiles s)"
  shows "shelf_run m r A (profiles (store d)) (profiles (store (on_db f d)))"
  using assms by (cases "f (view d)") (auto simp: on_db_def)

lemma serve_moves:
  "shelf_run (ie_max_profiles env) (brings_back req) (drawn req) (profiles (store d))
     (profiles (store (serve_inventory env d (now, c, req))))"
proof -
  have clone: "shelf_run m r ((\<lambda>k. fst (draws k)) ` {1..n}) (profiles (store d))
      (profiles (store (d\<lparr>store := fst (clone_profile m (view d) now c f n wanted draws)\<rparr>)))" for m r f n wanted draws
    using clone_profile_moves [of m r draws n "view d"] by simp
  show ?thesis
    by (cases req)
      (auto simp: serve_inventory_def brings_back_def drawn_def logins_move_nothing clone [simplified] purge_profile_moves
        intro!: on_db_moves intro: other_moves delete_project_moves create_profile_moves edit_profile_moves delete_profile_moves
          move_profiles_moves restore_profile_moves)
qed

lemma run_moves:
  assumes "\<And>now c req. (now, c, req) \<in> set evs \<Longrightarrow> (brings_back req \<longrightarrow> r) \<and> drawn req \<subseteq> A"
  shows "shelf_run (ie_max_profiles env) r A (profiles (store d)) (profiles (store (run_inventory env d evs)))"
  using assms
proof (induction evs arbitrary: d)
  case Nil
  then show ?case by (simp add: run_inventory_def)
next
  case (Cons ev evs)
  obtain now c req where ev: "ev = (now, c, req)" by (cases ev)
  have "shelf_run (ie_max_profiles env) r A (profiles (store d)) (profiles (store (serve_inventory env d ev)))"
    using shelf_run_mono [OF serve_moves [of env req d now c], of r A] Cons.prems [of now c req] ev by simp
  moreover have "shelf_run (ie_max_profiles env) r A (profiles (store (serve_inventory env d ev)))
      (profiles (store (run_inventory env (serve_inventory env d ev) evs)))"
    by (rule Cons.IH) (rule Cons.prems, erule list.set_intros(2))
  ultimately show ?case by (simp add: run_inventory_def)
qed

section \<open>The properties\<close>

text \<open>
  The count is read before the insert and nothing holds it still: two requests that are both checked before
  either has inserted take an organisation with room for one profile over its ceiling.
\<close>

lemma creations_at_once_go_over:
  assumes "checked_profile rules (Some k) s now c p r = Inr f" and "checked_profile rules (Some k) s now' c' p' r' = Inr f'"
    and "org_id c' = org_id c" and "profiles_of s (org_id c) = k - 1"
    and "map_of (profiles s) i = None" and "map_of (profiles s) j = None" and "i \<noteq> j"
  shows "\<exists>s1 s2 x y. insert_profile c i f s = Inr (s1, x) \<and> insert_profile c' j f' s1 = Inr (s2, y)
    \<and> profiles_of s2 (org_id c) = k + 1"
  using assms(3-7) checked_profile_Inr(3,5) [OF assms(1)] checked_profile_Inr(3,5) [OF assms(2)]
  by (simp add: insert_profile_def put_profile_def profiles_of_def lookup_update held_update [unfolded held_by_org_def])

text \<open>
  C23. Served one after the other, requests keep the ceiling: an organisation that holds no more profiles than it
  may holds no more of them after any sequence of requests, clones of hundreds at a time included, in which none
  is brought back from the trash. Requests that overlap go over it (\<open>creations_at_once_go_over\<close>).
\<close>

theorem profiles_stay_under_the_ceiling:
  assumes "ie_max_profiles env = Some k" and "profiles_of (store d) org \<le> k"
    and "\<And>now c f. (now, c, Restore_profile f) \<notin> set evs"
  shows "profiles_of (store (run_inventory env d evs)) org \<le> k"
proof -
  have "shelf_run (Some k) False UNIV (profiles (store d)) (profiles (store (run_inventory env d evs)))"
    using assms(3) unfolding assms(1) [symmetric]
    by (intro run_moves) (auto simp: brings_back_def split: inventory_request.splits)
  from shelf_run_ceiling [OF this] show ?thesis
    using assms(2) by (simp add: profiles_of_def held_by_org_def)
qed

text \<open>
  A profile keeps its organisation, its persona and its seed for as long as it exists, whatever
  is done to it or beside it: edits, moves, the trash and back; an id is assumed to be drawn once.
\<close>

theorem profiles_keep_their_machine:
  assumes "map_of (profiles (store d)) i = Some f" and "map_of (profiles (store (run_inventory env d evs))) i = Some f'"
    and "\<And>now c req. (now, c, req) \<in> set evs \<Longrightarrow> i \<notin> drawn req"
  shows "f_org f' = f_org f \<and> f_persona_id f' = f_persona_id f \<and> f_fp_seed f' = f_fp_seed f"
proof -
  have "shelf_run (ie_max_profiles env) True (- {i}) (profiles (store d)) (profiles (store (run_inventory env d evs)))"
    using assms(3) by (intro run_moves) auto
  from shelf_run_machine [OF this _ assms(1,2)] show ?thesis by (simp add: same_machine_def)
qed

text \<open>A ceiling of one, and one profile in the trash beside the one that is open.\<close>

definition shelf_1 :: team_db where
  "shelf_1 = house_1\<lparr>store := (store house_1)\<lparr>profiles := [(40, profile_1), (41, profile_1\<lparr>f_deleted := True\<rparr>)]\<rparr>\<rparr>"

definition insider_1 :: caller where
  "insider_1 = \<lparr>user_id = 7, org_id = 3, role = Owner\<rparr>"

lemmas shelf_1_simps = shelf_1_def house_1_simps insider_1_def

theorem profiles_stay_under_the_ceiling_witness:
  "profiles_of (store (run_inventory inventory_env_1 shelf_1
     [(5, insider_1, Clone_profile 40 1 None (\<lambda>_. (42, 9))), (6, insider_1, Trash_profile 40),
      (7, insider_1, Clone_profile 41 1 None (\<lambda>_. (43, 9)))])) 3 \<le> 1"
  by (rule profiles_stay_under_the_ceiling) (auto simp: profiles_of_def shelf_1_simps)

theorem profiles_keep_their_machine_witness:
  "case map_of (profiles (store (run_inventory inventory_env_1 shelf_1
     [(5, insider_1, Trash_profile 40), (6, insider_1, Clone_profile 40 1 None (\<lambda>_. (42, 9))),
      (7, insider_1, Restore_profile 40)]))) 40 of None \<Rightarrow> True | Some f \<Rightarrow> f_fp_seed f = f_fp_seed profile_1"
proof -
  have "map_of (profiles (store shelf_1)) 40 = Some profile_1" by (simp add: shelf_1_simps)
  note kept = profiles_keep_their_machine [OF this, of inventory_env_1 "[(5, insider_1, Trash_profile 40),
      (6, insider_1, Clone_profile 40 1 None (\<lambda>_. (42, 9))), (7, insider_1, Restore_profile 40)]"]
  show ?thesis
    by (cases "map_of (profiles (store (run_inventory inventory_env_1 shelf_1 [(5, insider_1, Trash_profile 40),
      (6, insider_1, Clone_profile 40 1 None (\<lambda>_. (42, 9))), (7, insider_1, Restore_profile 40)]))) 40")
      (simp, use kept in \<open>force simp: drawn_def\<close>)
qed

text \<open>Bringing a profile back asks for no room.\<close>

lemma restore_goes_over_the_ceiling:
  "profiles_of (store shelf_1) 3 = 1
   \<and> profiles_of (store (run_inventory inventory_env_1 shelf_1 [(5, insider_1, Restore_profile 41)])) 3 = 2"
proof -
  have "require (view shelf_1) 5 7 20 DeleteProfile = Inr all_perms"
    using has_not_NONE [of all_perms DeleteProfile]
    by (simp add: require_def permissions_for_def effective_def has_implicit_project_access_def parse_role_def view_def members_def
        shelf_1_simps)
  then have guard: "demand_perm (view shelf_1) 5 insider_1 20 DeleteProfile = Inr ()"
    by (simp add: demand_perm_def guarded_def insider_1_def)
  have rows: "map_of (profiles (store shelf_1)) 41 = Some (profile_1\<lparr>f_deleted := True\<rparr>)" "f_project profile_1 = 20"
    "map_of (projects (store shelf_1)) 20 = Some (demo_project\<lparr>pr_org := 3\<rparr>)" "\<not> pr_deleted demo_project"
    by (simp_all add: shelf_1_simps)
  have table: "profiles (store shelf_1) = [(40, profile_1), (41, profile_1\<lparr>f_deleted := True\<rparr>)]"
    "f_org profile_1 = 3" "\<not> f_deleted profile_1"
    by (simp_all add: shelf_1_simps)
  show ?thesis
    by (simp add: profiles_of_def run_inventory_def serve_inventory_def on_db_def restore_profile_def guard rows put_profile_def table and_then_def demand_def)
qed
end
