(* ===== verification/Listings.thy ===== *)
theory Listings
  imports Shelf Locks
begin

text \<open>
  What the listings of \<open>Inventory\<close> show against what the guards of the handlers admit, and what
  purging does to a profile that is not in the trash.
\<close>

section \<open>Listing the profiles of every project\<close>

definition sees :: "db \<Rightarrow> time \<Rightarrow> caller \<Rightarrow> uuid \<Rightarrow> bool" where
  "sees d now c project =
     (case permissions_for d now (user_id c) project of Inl _ \<Rightarrow> False | Inr perms \<Rightarrow> has perms View)"

definition listed_projects :: "db \<Rightarrow> time \<Rightarrow> caller \<Rightarrow> uuid list" where
  "listed_projects d now c = map fst (List.filter (lists_project d now c) (projects d))"

definition shown_in :: "(str \<Rightarrow> bytes) \<Rightarrow> db \<Rightarrow> time \<Rightarrow> caller \<Rightarrow> uuid \<Rightarrow> profile_summary list" where
  "shown_in sha256 d now c project = (case profiles_in sha256 d now c project of Inl _ \<Rightarrow> [] | Inr ps \<Rightarrow> ps)"

lemma gather_Inr:
  "gather f xs = Inr ys \<longleftrightarrow> list_all (\<lambda>x. \<exists>zs. f x = Inr zs) xs
     \<and> ys = concat (map (\<lambda>x. case f x of Inl _ \<Rightarrow> [] | Inr zs \<Rightarrow> zs) xs)"
proof (induction xs arbitrary: ys)
  case (Cons x xs)
  then show ?case by (cases "f x"; cases "gather f xs") auto
qed auto

lemma profiles_in_Inr: "(\<exists>ps. profiles_in sha256 d now c project = Inr ps) \<longleftrightarrow> sees d now c project"
  by (cases "permissions_for d now (user_id c) project")
    (auto simp: profiles_in_def sees_def guarded_simps has_not_NONE split: option.splits)

lemma gather_fst: "gather (\<lambda>(i, _). f i) xs = gather f (map fst xs)"
  by (induction xs) auto

lemma all_profiles_gather: "list_all_profiles sha256 d now c = gather (profiles_in sha256 d now c) (listed_projects d now c)"
  by (simp add: list_all_profiles_def listed_projects_def gather_fst)

text \<open>
  The listing of the profiles of every project succeeds exactly when the caller may view each
  project it lists, and is then the listings of the projects one after the other; one project that
  is listed and may not be viewed refuses all of it.
\<close>

theorem one_blind_grant_hides_every_profile:
  "list_all_profiles sha256 d now c = Inr ps \<longleftrightarrow>
     list_all (sees d now c) (listed_projects d now c)
     \<and> ps = concat (map (shown_in sha256 d now c) (listed_projects d now c))"
  by (simp add: all_profiles_gather gather_Inr profiles_in_Inr shown_in_def [abs_def])

section \<open>Whether a proxy may be changed\<close>

text \<open>
  The flag that the listing of proxies carries for each says exactly whether the guard of an
  edit or a deletion would admit the caller.
\<close>

theorem the_listing_offers_what_the_guard_allows:
  assumes "distinct (map fst (proxies d))" and "(x, n, by, may) \<in> set (list_proxies sha256 d now c)"
  shows "may \<longleftrightarrow> may_change d now c (px_id x) = Inr ()"
proof -
  from assms obtain i r where r: "map_of (proxies d) i = Some r" "x_org r = org_id c" "\<not> x_deleted r" and i: "px_id x = i"
    and may: "may \<longleftrightarrow> proxy_change (has_implicit_project_access (role c)) (x_created_by r = Some (user_id c))
       (\<not> has_implicit_project_access (role c) \<and> may_add_proxies d now (user_id c) (org_id c) (role c)) = Allowed"
    by (auto simp: list_proxies_def Let_def)
  show ?thesis
    using r by (auto simp: i may may_change_def may_change_proxy_def proxy_change_def Let_def split: proxy_change.splits)
qed

section \<open>Purging what is not in the trash\<close>

text \<open>
  C24. Purging a profile that is not in the trash answers that it is purged: its row, its lock and
  the rows of its bundles stay, and no download of it gives a bundle again.
\<close>

theorem purging_a_live_profile_loses_its_bundles:
  assumes "map_of (profiles (store d)) i = Some f" and "\<not> f_deleted f" and "store_ok (store d)"
    and "require_step_up env (auth d) now c h = Inr ()"
    and "demand_perm (view d) now c (f_project f) DeleteProfile = Inr ()"
  shows "\<exists>d'. purge_profile env d now c h i = (d', Inr ())
     \<and> profiles (store d') = profiles (store d) \<and> profile_locks (store d') = profile_locks (store d)
     \<and> bundles (store d') = bundles (store d)
     \<and> (\<forall>now' c' tag v content k. download_bundle (view d') now' c' i tag \<noteq> Inr (Bundle v content k))"
proof -
  let ?d = "team_audit c ''profile.purge'' (Some i)
    (d\<lparr>store := (store d)\<lparr>files := List.filter (\<lambda>((p, _), _). p \<noteq> i) (files (store d))\<rparr>\<rparr>)"
  have "purge_profile env d now c h i = (?d, Inr ())"
    using assms by (simp add: purge_profile_def commit_def and_then_def)
  moreover have "map_of (files (store ?d)) (i, v) = None" for v
    by (auto simp: team_audit_def map_of_eq_None_iff)
  moreover have "b_key b = (i, b_version b)" if "b \<in> set (bundles (store d))" "b_profile b = i" for b
    using assms(3) that by (auto simp: store_ok_def row_ok_def)
  ultimately show ?thesis
    by (intro exI [of _ ?d])
      (auto simp: download_bundle_def team_audit_def split: option.splits sum.splits if_splits dest!: newest_max)
qed

text \<open>The listing of the demonstration organisation has a proxy, and the guard agrees on it.\<close>

theorem the_listing_offers_what_the_guard_allows_witness:
  "list_proxies text_bytes demo_db 5 demo_caller \<noteq> []
   \<and> list_all (\<lambda>(x, n, by, may). may = (may_change demo_db 5 demo_caller (px_id x) = Inr ()))
       (list_proxies text_bytes demo_db 5 demo_caller)"
proof -
  have "distinct (map fst (proxies demo_db))" by (simp add: demo_db_def)
  note same = the_listing_offers_what_the_guard_allows [OF this]
  have "list_proxies text_bytes demo_db 5 demo_caller \<noteq> []"
    by (simp add: list_proxies_def Let_def demo_db_def demo_proxy_def demo_caller_def)
  then show ?thesis using same by (fastforce simp: list_all_iff)
qed

text \<open>A member with a grant on two projects, one of them to launch and not to view.\<close>

definition blind_1 :: db where
  "blind_1 = demo_db\<lparr>projects := [(10, demo_project), (11, demo_project)],
     project_grants := [((10, 2), demo_grant (from_iter [View])), ((11, 2), demo_grant (from_iter [Launch]))]\<rparr>"

definition member_1 :: caller where
  "member_1 = \<lparr>user_id = 2, org_id = 7, role = Member\<rparr>"

lemma member_1_rights:
  "permissions_for blind_1 5 2 10 = Inr (intersect (from_iter [View]) (role_ceiling Member))"
  "permissions_for blind_1 5 2 11 = Inr (intersect (from_iter [Launch]) (role_ceiling Member))"
  by (simp_all add: permissions_for_def live_grant_def live_def effective_def has_implicit_project_access_def
      parse_role_def blind_1_def demo_db_def demo_project_def demo_grant_def)

lemma a_grant_without_view_hides_the_rest:
  "profiles_in text_bytes blind_1 5 member_1 10 \<noteq> Inr [] \<and> sees blind_1 5 member_1 10
   \<and> listed_projects blind_1 5 member_1 = [10, 11]
   \<and> list_all_profiles text_bytes blind_1 5 member_1 = Inl (Denied View)"
proof -
  have sees: "sees blind_1 5 member_1 10" by (simp add: sees_def member_1_def member_1_rights)
  moreover have "\<exists>ps. profiles_in text_bytes blind_1 5 member_1 10 = Inr ps" using sees by (simp add: profiles_in_Inr)
  moreover have "intersect (from_iter [Launch]) (role_ceiling Member) \<noteq> NONE"
    using has_not_NONE [of "intersect (from_iter [Launch]) (role_ceiling Member)" Launch] by simp
  then have "profiles_in text_bytes blind_1 5 member_1 11 = Inl (Denied View)"
    by (simp add: profiles_in_def guarded_simps member_1_def member_1_rights and_then_def demand_def)
  moreover have "listed_projects blind_1 5 member_1 = [10, 11]"
    by (simp add: listed_projects_def lists_project_def live_grant_def live_def member_1_def blind_1_def demo_db_def
        demo_project_def demo_grant_def)
  moreover have "profiles_in text_bytes blind_1 5 member_1 10 \<noteq> Inr []"
    by (simp add: profiles_in_def guarded_simps member_1_def member_1_rights)
      (simp add: blind_1_def demo_db_def demo_profile_def demo_project_def and_then_def)
  ultimately show ?thesis
    by (auto simp: all_profiles_gather and_then_def)
qed

text \<open>A profile with one bundle, open for work, is purged.\<close>

definition purge_1 :: team_db where
  "purge_1 = shelf_1\<lparr>auth := (auth shelf_1)\<lparr>au_security := []\<rparr>,
     store := (store shelf_1)\<lparr>profiles := [(40, profile_1\<lparr>f_current_version := 1\<rparr>)],
       bundles := [\<lparr>b_profile = 40, b_version = 1, b_key = (40, 1), b_size = 1, b_sha256 = [], b_wrapped_dek = [], b_uploaded_by = 7\<rparr>],
       files := [((40, 1), [5])]\<rparr>\<rparr>"

lemma purge_1_guard: "demand_perm (view purge_1) 5 insider_1 20 DeleteProfile = Inr ()"
proof -
  have "require (view purge_1) 5 7 20 DeleteProfile = Inr all_perms"
    using has_not_NONE [of all_perms DeleteProfile]
    by (simp add: require_def permissions_for_def effective_def has_implicit_project_access_def parse_role_def view_def members_def
        purge_1_def shelf_1_simps)
  then show ?thesis by (simp add: demand_perm_def guarded_def insider_1_def)
qed

theorem purging_a_live_profile_loses_its_bundles_witness:
  "\<exists>d'. purge_profile demo_auth purge_1 5 insider_1 [] 40 = (d', Inr ())
     \<and> map_of (profiles (store d')) 40 = Some (profile_1\<lparr>f_current_version := 1\<rparr>)
     \<and> download_bundle (view d') 6 insider_1 40 None \<noteq> Inr (Bundle 1 [5] [])"
proof -
  let ?f = "profile_1\<lparr>f_current_version := 1\<rparr>"
  have row: "profiles (store purge_1) = [(40, ?f)]" by (simp add: purge_1_def)
  moreover have "\<not> f_deleted ?f" "f_project ?f = 20" by (simp_all add: shelf_1_simps)
  moreover have "store_ok (store purge_1)"
    by (simp add: store_ok_def row_ok_def purge_1_def)
  moreover have "require_step_up demo_auth (auth purge_1) 5 insider_1 [] = Inr ()"
    by (simp add: require_step_up_def policy_of_def purge_1_def default_policy_def)
  ultimately obtain d' where "purge_profile demo_auth purge_1 5 insider_1 [] 40 = (d', Inr ())"
    and "profiles (store d') = profiles (store purge_1)"
    and "\<And>now' c' tag v content k. download_bundle (view d') now' c' 40 tag \<noteq> Inr (Bundle v content k)"
    using purging_a_live_profile_loses_its_bundles [of purge_1 40 ?f demo_auth 5 insider_1 "[]"] purge_1_guard by auto
  then show ?thesis using row by auto
qed

text \<open>The refusal that names the deleted project is never given: the guard answers first.\<close>

lemma restoring_into_a_deleted_project:
  assumes "map_of (profiles s) i = Some f" and "map_of (projects s) (f_project f) = Some p" and "pr_deleted p"
  shows "restore_profile s now c i = Inl NotFound"
  using assms
  by (simp add: restore_profile_def demand_perm_def require_def permissions_for_def guarded_def api_error_of_def and_then_def)
end
