(* ===== verification/Server_Frames.thy ===== *)
theory Server_Frames
  imports Lock_Protocol Team_Protocol Shelf
begin

text \<open>
  What each handler of the server leaves alone of the locks, the bundles and the sign-ins, for the runs of
  \<open>Server_Runs\<close> in which all of them take part.
\<close>

section \<open>Locks, bundles and profiles under the requests of a team\<close>

definition held_parts :: "team_db \<Rightarrow> (uuid \<times> lock_row) list \<times> bundle_row list \<times> ((uuid \<times> int) \<times> bytes) list \<times> (uuid \<times> profile_row) list" where
  "held_parts d = (profile_locks (store d), bundles (store d), files (store d), profiles (store d))"

lemma held_parts_frame [simp]:
  "held_parts (team_audit c a t d) = held_parts d" "held_parts (put_enrollment i e d) = held_parts d"
  "held_parts (put_grants gs d) = held_parts d" "held_parts (put_roles rs d) = held_parts d"
  "held_parts (put_members ms d) = held_parts d" "held_parts (logout d c) = held_parts d"
  "held_parts (d\<lparr>auth := x\<rparr>) = held_parts d" "held_parts (d\<lparr>enrollments := es\<rparr>) = held_parts d"
  by (simp_all add: held_parts_def team_audit_def put_enrollment_def put_grants_def put_roles_def put_members_def logout_def)

lemma issue_parts: "issue env d now email target r fresh random = Inr (d', raw) \<Longrightarrow> held_parts d' = held_parts d \<and> auth d' = auth d"
  by (auto dest!: issue_cases)

lemma invite_parts:
  "held_parts (fst (cli_invite env d now email org oname r fresh random)) = held_parts d"
  "held_parts (fst (create_invitation env d now c email r' fresh random)) = held_parts d"
proof -
  show "held_parts (fst (cli_invite env d now email org oname r fresh random)) = held_parts d"
    unfolding cli_invite_def Let_def
    by (auto simp: commit_def issue_parts split: if_splits option.splits sum.splits org_target.splits)
  show "held_parts (fst (create_invitation env d now c email r' fresh random)) = held_parts d"
    unfolding create_invitation_def
    by (rule commit_rule) (auto simp: Let_def map_sum_def issue_parts split: sum.splits)
qed

lemma email_parts:
  "held_parts (fst (enroll_email_send tenv d now raw n sent)) = held_parts d"
  "held_parts (fst (enroll_email_verify tenv d now raw typed random)) = held_parts d"
proof -
  show "held_parts (fst (enroll_email_send tenv d now raw n sent)) = held_parts d"
    unfolding enroll_email_send_def by (rule commit_rule) (auto simp: Let_def split: option.splits if_splits)
  show "held_parts (fst (enroll_email_verify tenv d now raw typed random)) = held_parts d"
    unfolding enroll_email_verify_def by (auto simp: Let_def split: option.splits if_splits)
qed

lemma insert_parts:
  "insert_user i u taken d = Inr d1 \<Longrightarrow> held_parts d1 = held_parts d"
  "insert_org o' name d = Inr d2 \<Longrightarrow> held_parts d2 = held_parts d"
  "insert_member o' i m d = Inr d3 \<Longrightarrow> held_parts d3 = held_parts d"
  "insert_session aenv now i mn random d = Inr (d4, raw) \<Longrightarrow> held_parts d4 = held_parts d"
  by (auto simp: insert_user_def insert_org_def insert_member_def insert_session_def new_token_def held_parts_def put_members_def
      Let_def split: if_splits)

lemma account_parts:
  "held_parts (fst (complete_enrollment tenv d now rq dr)) = held_parts d"
  "held_parts (fst (signup tenv d now sq dr)) = held_parts d"
proof -
  have made: "create_account tenv now rq dr pub priv salt ork i e d = Inr (d', raw, org) \<Longrightarrow> held_parts d' = held_parts d"
    for pub priv salt ork i e d' raw org
    by (auto simp: create_account_def map_sum_def split: option.splits sum.splits dest!: insert_parts)
  show "held_parts (fst (complete_enrollment tenv d now rq dr)) = held_parts d"
  proof (cases "snd (complete_enrollment tenv d now rq dr)")
    case (Inl e)
    then have "fst (complete_enrollment tenv d now rq dr) = d" unfolding complete_enrollment_def by (rule commit_error)
    then show ?thesis by simp
  next
    case (Inr x)
    obtain raw org where "x = (raw, org)" by force
    then have "complete_enrollment tenv d now rq dr = (fst (complete_enrollment tenv d now rq dr), Inr (raw, org))"
      using Inr by (simp add: prod_eq_iff)
    then show ?thesis by (rule complete_enrollment_cases) (rule made)
  qed
  show "held_parts (fst (signup tenv d now sq dr)) = held_parts d"
    unfolding signup_def
    by (rule commit_rule, simp, unfold Let_def and_then_Inr demand_Inr, elim exE conjE) (metis insert_parts)
qed

lemma role_parts:
  "held_parts (fst (set_member_role aenv d now c h user r)) = held_parts d"
  "held_parts (fst (hand_over_key env d c user key_text)) = held_parts d"
  "held_parts (fst (upsert_access_role d c ru fresh)) = held_parts d"
  "held_parts (fst (delete_access_role d c i)) = held_parts d"
  unfolding set_member_role_def hand_over_key_def upsert_access_role_def delete_access_role_def
  by ((rule commit_rule, simp), (auto simp: Let_def split: option.splits if_splits))+

section \<open>A rotation\<close>

text \<open>What the store of bundles depends on: the files, the rows without their wrapped key, and the version of every profile.\<close>

definition outline :: "bundle_row \<Rightarrow> uuid \<times> int \<times> (uuid \<times> int) \<times> int" where
  "outline b = (b_profile b, b_version b, b_key b, b_size b)"

definition keeps_bundles :: "db \<Rightarrow> db \<Rightarrow> bool" where
  "keeps_bundles s s' \<longleftrightarrow> files s' = files s \<and> map outline (bundles s') = map outline (bundles s)
     \<and> (\<forall>i f. map_of (profiles s) i = Some f \<longrightarrow> (\<exists>f'. map_of (profiles s') i = Some f' \<and> f_current_version f' = f_current_version f))"

lemma keeps_bundles_refl [simp]: "keeps_bundles s s"
  by (simp add: keeps_bundles_def)

lemma keeps_bundles_trans: "keeps_bundles s s1 \<Longrightarrow> keeps_bundles s1 s2 \<Longrightarrow> keeps_bundles s s2"
  unfolding keeps_bundles_def by metis

lemma keeps_bundles_same:
  "bundles s' = bundles s \<Longrightarrow> files s' = files s \<Longrightarrow> profiles s' = profiles s \<Longrightarrow> keeps_bundles s s'"
  by (simp add: keeps_bundles_def)

lemma keeps_bundles_ok:
  assumes "keeps_bundles s s'" and "store_ok s"
  shows "store_ok s'"
proof -
  have o: "map outline (bundles s') = map outline (bundles s)" using assms(1) by (simp add: keeps_bundles_def)
  have k: "map (\<lambda>b. (b_profile b, b_version b)) bs = map (\<lambda>(p, v, _). (p, v)) (map outline bs)" for bs
    by (induction bs) (simp_all add: outline_def)
  have "distinct (map (\<lambda>b. (b_profile b, b_version b)) (bundles s'))"
    using assms(2) unfolding store_ok_def k o by simp
  moreover have "row_ok s' b" if "b \<in> set (bundles s')" for b
  proof -
    have "outline b \<in> outline ` set (bundles s)" using that o by (metis image_set imageI)
    then obtain b0 where b0: "b0 \<in> set (bundles s)" "outline b = outline b0" by blast
    then have "row_ok s b0" using assms(2) by (simp add: store_ok_def)
    then show ?thesis using b0(2) assms(1) unfolding row_ok_def keeps_bundles_def outline_def by auto metis
  qed
  ultimately show ?thesis by (simp add: store_ok_def)
qed

lemma rekey_bundles:
  "rekey_member env org n xm d = Inr d' \<Longrightarrow> keeps_bundles (store d) (store d') \<and> profile_locks (store d') = profile_locks (store d)"
  "rekey_proxy org xp d = Inr d' \<Longrightarrow> keeps_bundles (store d) (store d') \<and> profile_locks (store d') = profile_locks (store d)"
  "rekey_cookie org xc d = Inr d' \<Longrightarrow> keeps_bundles (store d) (store d') \<and> profile_locks (store d') = profile_locks (store d)"
  "rekey_bundle org xb d = Inr d' \<Longrightarrow> keeps_bundles (store d) (store d') \<and> profile_locks (store d') = profile_locks (store d)"
  "rekey_credential org xr d = Inr d' \<Longrightarrow> keeps_bundles (store d) (store d') \<and> profile_locks (store d') = profile_locks (store d)"
  "rekey_share env org xs d = Inr d' \<Longrightarrow> keeps_bundles (store d) (store d') \<and> profile_locks (store d') = profile_locks (store d)"
proof -
  show "rekey_cookie org xc d = Inr d' \<Longrightarrow> keeps_bundles (store d) (store d') \<and> profile_locks (store d') = profile_locks (store d)"
    by (auto simp: rekey_cookie_def keeps_bundles_def map_of_adjust)
  show "rekey_bundle org xb d = Inr d' \<Longrightarrow> keeps_bundles (store d) (store d') \<and> profile_locks (store d') = profile_locks (store d)"
    by (auto simp: rekey_bundle_def keeps_bundles_def outline_def)
qed (auto simp: rekey_member_def rekey_proxy_def rekey_credential_def rekey_share_def put_members_def
    intro!: keeps_bundles_same split: option.splits if_splits)

lemma each_held:
  assumes "each f xs d = Inr d'" and "\<And>x d d'. f x d = Inr d' \<Longrightarrow> R d d'" and "\<And>d. R d d"
    and "\<And>d d' d''. R d d' \<Longrightarrow> R d' d'' \<Longrightarrow> R d d''"
  shows "R d d'"
  using assms(1)
proof (induction xs arbitrary: d)
  case (Cons x xs)
  then show ?case using assms(2,4) by (auto split: sum.splits) blast
qed (simp add: assms(3))

lemma rotate_tx_bundles:
  fixes d d' :: team_db
  assumes "rotate_tx env c req d = Inr (d', n)"
  shows "keeps_bundles (store d) (store d')
    \<and> (profile_locks (store d') = profile_locks (store d)
       \<or> (\<exists>gone. rr_remove req = Some gone \<and> profile_locks (store d') = List.filter (\<lambda>(_, l). l_user l \<noteq> gone) (profile_locks (store d))))"
  using assms
proof (cases rule: rotate_tx_cases)
  case (1 d1 d2 d3 d4 d5 d6 d7)
  define R :: "team_db \<Rightarrow> team_db \<Rightarrow> bool" where "R x y \<longleftrightarrow> keeps_bundles (store x) (store y) \<and> profile_locks (store y) = profile_locks (store x)" for x y
  have R: "R x x" "R x y \<Longrightarrow> R y z \<Longrightarrow> R x z" for x y z using keeps_bundles_trans by (auto simp: R_def)
  note step = rekey_bundles [folded R_def]
  have "R d1 d2" using 1(5) by (rule each_held) (use step(1) R in blast)+
  moreover have "R d2 d3" using 1(6) by (rule each_held) (use step(2) R in blast)+
  moreover have "R d3 d4" using 1(8) by (rule each_held) (use step(3) R in blast)+
  moreover have "R d4 d5" using 1(10) by (rule each_held) (use step(4) R in blast)+
  moreover have "R d5 d6" using 1(12) by (rule each_held) (use step(5) R in blast)+
  moreover have "R d6 d7" using 1(14) by (rule each_held) (use step(6) R in blast)+
  ultimately have "R d1 d7" using R(2) by blast
  moreover have "R d7 d'" unfolding 1(15) R_def by (auto intro: keeps_bundles_same)
  ultimately have "R d1 d'" using R(2) by blast
  moreover have "keeps_bundles (store d) (store d1) \<and> (profile_locks (store d1) = profile_locks (store d)
       \<or> (\<exists>gone. rr_remove req = Some gone \<and> profile_locks (store d1) = List.filter (\<lambda>(_, l). l_user l \<noteq> gone) (profile_locks (store d))))"
    using 1(3) by (auto simp: remove_member_def split: option.splits intro!: keeps_bundles_same)
  ultimately show ?thesis unfolding R_def using keeps_bundles_trans by auto
qed

lemma rotate_bundles: "keeps_bundles (store d) (store (fst (rotate_org_key env d now c h req)))"
  unfolding rotate_org_key_def
  by (rule commit_rule)
    (auto simp: map_sum_def team_audit_def split: sum.splits if_splits dest: rotate_tx_bundles)

lemma rotate_locks:
  "profile_locks (store (fst (rotate_org_key env d now c h req))) = profile_locks (store d)
   \<or> (\<exists>gone n. rr_remove req = Some gone \<and> snd (rotate_org_key env d now c h req) = Inr n
       \<and> profile_locks (store (fst (rotate_org_key env d now c h req))) = List.filter (\<lambda>(_, l). l_user l \<noteq> gone) (profile_locks (store d)))"
proof (cases "snd (rotate_org_key env d now c h req)")
  case (Inl e)
  then have "fst (rotate_org_key env d now c h req) = d" unfolding rotate_org_key_def by (rule commit_error)
  then show ?thesis by simp
next
  case (Inr n)
  then obtain d' where r: "rotate_org_key env d now c h req = (d', Inr n)" by (cases "rotate_org_key env d now c h req") auto
  then obtain d1 where "rotate_tx env c req d = Inr (d1, n)" "store d' = store d1"
    by (auto simp: rotate_org_key_def commit_Inr map_sum_def team_audit_def split: sum.splits)
  then show ?thesis using rotate_tx_bundles [of env c req d d1 n] r by auto
qed

section \<open>Locks and bundles under the requests of the inventory\<close>

definition spares :: "db \<Rightarrow> db \<Rightarrow> bool" where
  "spares s s' \<longleftrightarrow> profile_locks s' = profile_locks s \<and> keeps_bundles s s'"

lemma spares_refl [simp]: "spares s s"
  by (simp add: spares_def)

lemma spares_trans: "spares s s1 \<Longrightarrow> spares s1 s2 \<Longrightarrow> spares s s2"
  unfolding spares_def using keeps_bundles_trans by metis

lemma spares_audit [simp]: "spares s (audit c a t s') = spares s s'"
  by (simp add: spares_def keeps_bundles_def)

lemma spares_same:
  "profile_locks s' = profile_locks s \<Longrightarrow> bundles s' = bundles s \<Longrightarrow> files s' = files s \<Longrightarrow> profiles s' = profiles s \<Longrightarrow> spares s s'"
  by (simp add: spares_def keeps_bundles_same)

lemma spares_put:
  assumes "case map_of (profiles s) i of None \<Rightarrow> True | Some f \<Rightarrow> f_current_version f' = f_current_version f"
  shows "spares s (put_profile i f' s)"
  using assms by (auto simp: spares_def keeps_bundles_def put_profile_def lookup_update)

lemma other_tables_spared:
  "create_project s c pr fresh = Inr (s', x1) \<Longrightarrow> spares s s'"
  "rename_project s now c p pr = Inr (s', x2) \<Longrightarrow> spares s s'"
  "create_proxy s now c xr fresh = Inr (s', x3) \<Longrightarrow> spares s s'"
  "edit_proxy sha s now c i er = Inr (s', x4) \<Longrightarrow> spares s s'"
  "reveal_proxy s c i = Inr (s', x5) \<Longrightarrow> spares s s'"
  "delete_proxy s now c i = Inr (s', x6) \<Longrightarrow> spares s s'"
  "upsert_domain_list s c lr fresh = Inr (s', x7) \<Longrightarrow> spares s s'"
  "delete_domain_list s c i = Inr (s', x8) \<Longrightarrow> spares s s'"
  "add_org_persona rules s now c t = Inr (s', x9) \<Longrightarrow> spares s s'"
  "delete_org_persona s c t = Inr (s', x10) \<Longrightarrow> spares s s'"
proof -
  show "edit_proxy sha s now c i er = Inr (s', x4) \<Longrightarrow> spares s s'"
    by (cases "map_of (proxies s) i") (auto simp: edit_proxy_def Let_def intro!: spares_same split: option.splits)
  show "upsert_domain_list s c lr fresh = Inr (s', x7) \<Longrightarrow> spares s s'"
    by (auto simp: upsert_domain_list_def Let_def intro!: spares_same)
qed (auto simp: create_project_def rename_project_def create_proxy_def reveal_proxy_def delete_proxy_def
    delete_domain_list_def add_org_persona_def delete_org_persona_def Let_def intro!: spares_same split: option.splits if_splits)

lemma delete_project_spares:
  assumes "delete_project s now c p = Inr (s', x)"
  shows "spares s s'"
proof -
  have "spares s (s\<lparr>profiles := map (\<lambda>(i, f). (i, if f_project f = p \<and> \<not> f_deleted f then f\<lparr>f_deleted := True\<rparr> else f)) (profiles s)\<rparr>)" (is "spares s ?s1")
    by (auto simp: spares_def keeps_bundles_def map_of_adjust)
  moreover have "spares ?s1 s'"
    using assms by (auto simp: delete_project_def Let_def intro!: spares_same split: option.splits)
  ultimately show ?thesis by (rule spares_trans)
qed

lemma create_profile_spares: "create_profile rules m s now c p rq fresh = Inr (s', x) \<Longrightarrow> spares s s'"
  by (erule create_profile_cases) (simp add: spares_put)

lemma insert_copies_spares: "spares s (fst (insert_copies f pattern ns s))"
proof (induction ns arbitrary: s)
  case (Cons n ns)
  obtain k i seed where n: "n = (k, i, seed)" by (cases n)
  show ?case
  proof (cases "map_of (profiles s) i")
    case None
    then have "spares s (put_profile i (f\<lparr>f_name := replace_str number_mark (show_nat k) pattern, f_fp_seed := to_bytes seed\<rparr>) s)"
      by (simp add: spares_put)
    then show ?thesis using None Cons.IH by (simp add: n) (rule spares_trans)
  qed (simp add: n)
qed simp

lemma clone_profile_spares: "spares s (fst (clone_profile m s now c f n wanted draws))"
proof -
  have copies: "insert_copies g pat ns s = (s1, r) \<Longrightarrow> spares s s1" for g pat ns s1 r
    using insert_copies_spares [of s g pat ns] by simp
  show ?thesis
    unfolding clone_profile_def by (auto simp del: insert_copies.simps split: sum.splits prod.splits dest: copies)
qed

lemma edit_profile_spares: "edit_profile rules s now c i q = Inr (s', x) \<Longrightarrow> spares s s'"
  by (cases "map_of (profiles s) i") (auto simp: edit_profile_def Let_def spares_put split: if_splits)

lemma trash_spares:
  "delete_profile s now c i = Inr (s', x1) \<Longrightarrow> spares s s'"
  "restore_profile s now c i = Inr (s', x2) \<Longrightarrow> spares s s'"
  by (auto simp: delete_profile_def restore_profile_def spares_put split: option.splits)

lemma move_loop_spares: "move_loop now c target is s = Inr (s', n) \<Longrightarrow> spares s s'"
proof (induction "is" arbitrary: s n)
  case (Cons i rest)
  then obtain f where f: "map_of (profiles s) i = Some f" by (auto split: option.splits)
  show ?case
  proof (cases "f_project f = target")
    case False
    let ?s = "put_profile i (f\<lparr>f_project := target\<rparr>) s"
    obtain k where "move_loop now c target rest ?s = Inr (s', k)"
      using Cons.prems f False by (auto simp: map_sum_def split: sum.splits)
    moreover have "spares s ?s" using f by (simp add: spares_put)
    ultimately show ?thesis using Cons.IH spares_trans by blast
  qed (use Cons f in simp)
qed simp

lemma move_profiles_spares: "move_profiles s now c is target = Inr (s', n) \<Longrightarrow> spares s s'"
  by (auto simp: move_profiles_def intro: move_loop_spares split: if_splits)

lemma spares_view [simp]: "spares (view d) s' = spares (store d) s'" "spares s' (view d) = spares s' (store d)"
  by (simp_all add: spares_def keeps_bundles_def view_def)

lemma on_db_spares:
  assumes "\<And>s x. f (view d) = Inr (s, x) \<Longrightarrow> spares (view d) s"
  shows "spares (store d) (store (on_db f d))"
  using assms by (cases "f (view d)") (auto simp: on_db_def)

lemma serve_inventory_spares:
  assumes "\<And>h f. req \<noteq> Purge_profile h f"
  shows "spares (store d) (store (serve_inventory env d (now, c, req)))"
  using assms clone_profile_spares [where s = "view d"]
  by (cases req)
    (auto simp: serve_inventory_def logins_move_nothing
      intro!: on_db_spares intro: other_tables_spared delete_project_spares create_profile_spares edit_profile_spares trash_spares
        move_profiles_spares)

text \<open>A purge of what is in the trash takes one profile with all that is its; of one that is not, its files.\<close>

lemma purge_bundles:
  assumes "store_ok (store d)" and "case map_of (profiles (store d)) i of None \<Rightarrow> True | Some f \<Rightarrow> f_deleted f"
  shows "store_ok (store (fst (purge_profile env d now c h i)))"
  unfolding purge_profile_def
proof (rule commit_rule)
  show "store_ok (store d)" by (rule assms(1))
next
  fix d' x
  let ?d1 = "d\<lparr>store := (store d)\<lparr>files := List.filter (\<lambda>((p, _), _). p \<noteq> i) (files (store d))\<rparr>\<rparr>"
  assume "and_then (require_step_up env (auth d) now c h) (\<lambda>_.
        case map_of (profiles (store d)) i of
          None \<Rightarrow> Inl NotFound
        | Some f \<Rightarrow>
            and_then (demand_perm (view d) now c (f_project f) DeleteProfile) (\<lambda>_.
            let d1 = ?d1
            in Inr (team_audit c ''profile.purge'' (Some i) (if f_deleted f then drop_profile i d1 else d1), ()))) = Inr (d', x)"
  then have d': "store d' = store (drop_profile i ?d1)"
    using assms(2) by (auto simp: Let_def team_audit_def split: option.splits)
  have content: "map_of (List.filter (\<lambda>((p, _), _). p \<noteq> i) t) (k, v) = map_of t (k, v)" if "k \<noteq> i" for t k v
    using that by (induction t) auto
  have "row_ok (store d') b" if "b \<in> set (bundles (store d'))" for b
  proof -
    have b: "b \<in> set (bundles (store d))" "b_profile b \<noteq> i" using that unfolding d' by (auto simp: drop_profile_def)
    then have "row_ok (store d) b" using assms(1) by (simp add: store_ok_def)
    then show ?thesis using b(2) by (auto simp: row_ok_def d' drop_profile_def lookup_delete content)
  qed
  moreover have "distinct (map (\<lambda>b. (b_profile b, b_version b)) (bundles (store d')))"
    using assms(1) unfolding d' by (simp add: drop_profile_def store_ok_def distinct_map_filter)
  ultimately show "store_ok (store d')" by (simp add: store_ok_def)
qed

lemma purge_locks:
  assumes "f \<noteq> i \<or> (case map_of (profiles (store d)) i of None \<Rightarrow> True | Some row \<Rightarrow> \<not> f_deleted row)"
  shows "map_of (profile_locks (store (fst (purge_profile env d now c h i)))) f = map_of (profile_locks (store d)) f"
  unfolding purge_profile_def
proof (rule commit_rule)
  fix d' x
  assume "and_then (require_step_up env (auth d) now c h) (\<lambda>_.
        case map_of (profiles (store d)) i of
          None \<Rightarrow> Inl NotFound
        | Some f \<Rightarrow>
            and_then (demand_perm (view d) now c (f_project f) DeleteProfile) (\<lambda>_.
            let d1 = d\<lparr>store := (store d)\<lparr>files := List.filter (\<lambda>((p, _), _). p \<noteq> i) (files (store d))\<rparr>\<rparr>
            in Inr (team_audit c ''profile.purge'' (Some i) (if f_deleted f then drop_profile i d1 else d1), ()))) = Inr (d', x)"
  then obtain row where "map_of (profiles (store d)) i = Some row"
    and "profile_locks (store d') = (if f_deleted row then AList.delete i (profile_locks (store d)) else profile_locks (store d))"
    by (auto simp: Let_def team_audit_def drop_profile_def split: option.splits)
  then show "map_of (profile_locks (store d')) f = map_of (profile_locks (store d)) f"
    using assms by (auto simp: lookup_delete)
qed simp

section \<open>Sessions and parked sign-ins\<close>

text \<open>No session and no parked sign-in that was not there, and no mark of a fresh code.\<close>

definition signs_shrink :: "team_db \<Rightarrow> team_db \<Rightarrow> bool" where
  "signs_shrink d d' \<longleftrightarrow> set (au_sessions (auth d')) \<subseteq> set (au_sessions (auth d)) \<and> au_challenges (auth d') = au_challenges (auth d)"

lemma signs_shrink_refl [simp]: "signs_shrink d d"
  by (simp add: signs_shrink_def)

lemma signs_shrink_trans: "signs_shrink d d1 \<Longrightarrow> signs_shrink d1 d2 \<Longrightarrow> signs_shrink d d2"
  by (auto simp: signs_shrink_def)

lemma signs_frame [simp]:
  "signs_shrink d (team_audit c a t d') = signs_shrink d d'" "signs_shrink d (put_enrollment i e d') = signs_shrink d d'"
  "signs_shrink d (put_grants gs d') = signs_shrink d d'" "signs_shrink d (put_roles rs d') = signs_shrink d d'"
  "signs_shrink d (put_members ms d') = signs_shrink d d'" "signs_shrink d (d'\<lparr>store := st\<rparr>) = signs_shrink d d'"
  "signs_shrink d (d'\<lparr>enrollments := es\<rparr>) = signs_shrink d d'" "signs_shrink d (d'\<lparr>credentials := cs\<rparr>) = signs_shrink d d'"
  "signs_shrink d (on_store g d') = signs_shrink d d'"
  by (simp_all add: signs_shrink_def team_audit_def put_enrollment_def put_grants_def put_roles_def put_members_def on_store_def)

lemma signs_same_auth: "auth d' = auth d \<Longrightarrow> signs_shrink d d'"
  by (simp add: signs_shrink_def)

lemma shrink_back:
  assumes "signs_shrink d d'"
  shows "has_session (auth d') digest user \<Longrightarrow> has_session (auth d) digest user"
    and "has_mark (auth d') digest t \<Longrightarrow> has_mark (auth d) digest t"
    and "parked_user (auth d') = parked_user (auth d)"
  using assms by (auto simp: signs_shrink_def has_session_def has_mark_def intro: parked_cong)

lemma invite_signs:
  "signs_shrink d (fst (cli_invite env d now email org oname r fresh random))"
  "signs_shrink d (fst (create_invitation env d now c email r' fresh random))"
proof -
  show "signs_shrink d (fst (cli_invite env d now email org oname r fresh random))"
    unfolding cli_invite_def Let_def
    by (auto simp: commit_def issue_parts signs_same_auth split: if_splits option.splits sum.splits org_target.splits)
  show "signs_shrink d (fst (create_invitation env d now c email r' fresh random))"
    unfolding create_invitation_def
    by (rule commit_rule) (auto simp: Let_def map_sum_def issue_parts signs_same_auth split: sum.splits)
qed

lemma email_signs:
  "signs_shrink d (fst (enroll_email_send tenv d now raw n sent))"
  "signs_shrink d (fst (enroll_email_verify tenv d now raw typed random))"
proof -
  show "signs_shrink d (fst (enroll_email_send tenv d now raw n sent))"
    unfolding enroll_email_send_def by (rule commit_rule) (auto simp: Let_def split: option.splits if_splits)
  show "signs_shrink d (fst (enroll_email_verify tenv d now raw typed random))"
    unfolding enroll_email_verify_def by (auto simp: Let_def split: option.splits if_splits)
qed

lemma role_signs:
  "signs_shrink d (fst (set_member_role aenv d now c h user r))"
  "signs_shrink d (fst (hand_over_key env d c user key_text))"
  "signs_shrink d (fst (upsert_access_role d c ru fresh))"
  "signs_shrink d (fst (delete_access_role d c i))"
  unfolding set_member_role_def hand_over_key_def upsert_access_role_def delete_access_role_def
  by ((rule commit_rule, simp), (auto simp: Let_def split: option.splits if_splits))+

lemma logout_signs: "signs_shrink d (logout d c)"
  by (auto simp: logout_def signs_shrink_def)

lemma rekey_signs:
  "rekey_member env org n xm d = Inr d' \<Longrightarrow> signs_shrink d d'"
  "rekey_proxy org xp d = Inr d' \<Longrightarrow> signs_shrink d d'"
  "rekey_cookie org xc d = Inr d' \<Longrightarrow> signs_shrink d d'"
  "rekey_bundle org xb d = Inr d' \<Longrightarrow> signs_shrink d d'"
  "rekey_credential org xr d = Inr d' \<Longrightarrow> signs_shrink d d'"
  "rekey_share env org xs d = Inr d' \<Longrightarrow> signs_shrink d d'"
  by (auto simp: rekey_member_def rekey_proxy_def rekey_cookie_def rekey_bundle_def rekey_credential_def
      rekey_share_def split: option.splits if_splits)

lemma rotate_signs: "signs_shrink d (fst (rotate_org_key env d now c h req))"
proof (cases "snd (rotate_org_key env d now c h req)")
  case (Inl e)
  then have "fst (rotate_org_key env d now c h req) = d" unfolding rotate_org_key_def by (rule commit_error)
  then show ?thesis by simp
next
  case (Inr n)
  then obtain d' where "rotate_org_key env d now c h req = (d', Inr n)" by (cases "rotate_org_key env d now c h req") simp
  then obtain d0 where d0: "rotate_tx env c req d = Inr (d0, n)" "d' = team_audit c ''org.rotate'' None d0"
    by (auto simp: rotate_org_key_def commit_Inr map_sum_def split: sum.splits)
  from d0(1) have "signs_shrink d d0"
  proof (cases rule: rotate_tx_cases)
    case (1 d1 d2 d3 d4 d5 d6 d7)
    note R = signs_shrink_refl signs_shrink_trans
    have "signs_shrink d1 d2" using 1(5) by (rule each_held) (use rekey_signs(1) R in blast)+
    moreover have "signs_shrink d2 d3" using 1(6) by (rule each_held) (use rekey_signs(2) R in blast)+
    moreover have "signs_shrink d3 d4" using 1(8) by (rule each_held) (use rekey_signs(3) R in blast)+
    moreover have "signs_shrink d4 d5" using 1(10) by (rule each_held) (use rekey_signs(4) R in blast)+
    moreover have "signs_shrink d5 d6" using 1(12) by (rule each_held) (use rekey_signs(5) R in blast)+
    moreover have "signs_shrink d6 d7" using 1(14) by (rule each_held) (use rekey_signs(6) R in blast)+
    ultimately have "signs_shrink d1 d7" by (meson R(2))
    then have "signs_shrink d1 d0" unfolding 1(15) by simp
    moreover have "signs_shrink d d1" using 1(3) by (auto simp: remove_member_def signs_shrink_def split: option.splits)
    ultimately show ?thesis by (meson R(2))
  qed
  then show ?thesis using d0(2) \<open>rotate_org_key env d now c h req = (d', Inr n)\<close> by simp
qed

text \<open>A new account comes with a session of its own, and no other.\<close>

definition opens_session :: "auth_env \<Rightarrow> draw \<Rightarrow> team_db \<Rightarrow> team_db \<Rightarrow> bool" where
  "opens_session env dr d d' \<longleftrightarrow> au_challenges (auth d') = au_challenges (auth d)
     \<and> map_of (au_users (auth d)) (dr_user dr) = None
     \<and> (\<exists>s. s_user s = dr_user dr \<and> s_totp_verified_at s = None
          \<and> au_sessions (auth d') = (token_hash env (hex_of_bytes (dr_token dr)), s) # au_sessions (auth d))"

lemma insert_signs:
  "insert_org o' name d = Inr d2 \<Longrightarrow> auth d2 = auth d"
  "insert_user i u taken d = Inr d1 \<Longrightarrow> au_sessions (auth d1) = au_sessions (auth d) \<and> au_challenges (auth d1) = au_challenges (auth d)
     \<and> map_of (au_users (auth d)) i = None"
  "insert_member o' i m d = Inr d3 \<Longrightarrow> au_sessions (auth d3) = au_sessions (auth d) \<and> au_challenges (auth d3) = au_challenges (auth d)"
  "insert_session env now i mn random d = Inr (d4, raw) \<Longrightarrow> au_challenges (auth d4) = au_challenges (auth d)
     \<and> (\<exists>s. s_user s = i \<and> s_totp_verified_at s = None \<and> au_sessions (auth d4) = (token_hash env (hex_of_bytes random), s) # au_sessions (auth d))"
  by (auto simp: insert_user_def insert_org_def insert_member_def insert_session_def new_token_def put_members_def Let_def split: if_splits)

lemma put_enrollment_auth [simp]: "auth (put_enrollment i e d) = auth d"
  by (simp add: put_enrollment_def)

lemma create_account_signs:
  assumes "create_account env now req dr pub priv salt ork i e d = Inr (d', raw, org)"
  shows "opens_session (auth_part env) dr d d'"
proof -
  obtain d1 where d1: "auth d1 = auth d" and
    rest: "and_then (insert_user (dr_user dr)
         (new_user (en_email e) (hash_password env (eq_password req) (dr_salt dr)) pub priv salt)
         (en_email e @ '' already has an account on this server'') d1) (\<lambda>d2.
     and_then (insert_member org (dr_user dr) \<lparr>m_role = en_role e, m_wrapped_ork = ork,
         m_ork_generation = map_option (\<lambda>_. 1) ork\<rparr> d2) (\<lambda>d3.
     and_then (insert_session (auth_part env) now (dr_user dr) (eq_machine_name req) (dr_token dr)
         (put_enrollment i (e\<lparr>en_used_at := Some now\<rparr>) d3)) (\<lambda>(d4, raw).
     Inr (d4, raw, org)))) = Inr (d', raw, org)"
    using assms by (auto simp: create_account_def map_sum_def dest: insert_signs(1) split: option.splits sum.splits)
  then obtain d2 d3 where
    "insert_user (dr_user dr) (new_user (en_email e) (hash_password env (eq_password req) (dr_salt dr)) pub priv salt)
         (en_email e @ '' already has an account on this server'') d1 = Inr d2"
    "insert_member org (dr_user dr) \<lparr>m_role = en_role e, m_wrapped_ork = ork, m_ork_generation = map_option (\<lambda>_. 1) ork\<rparr> d2 = Inr d3"
    "insert_session (auth_part env) now (dr_user dr) (eq_machine_name req) (dr_token dr)
         (put_enrollment i (e\<lparr>en_used_at := Some now\<rparr>) d3) = Inr (d', raw)"
    by auto
  from insert_signs(2) [OF this(1)] insert_signs(3) [OF this(2)] insert_signs(4) [OF this(3)] show ?thesis
    using d1 by (auto simp: opens_session_def)
qed

lemma enrolment_signs:
  "fst (complete_enrollment env d now rq dr) = d
   \<or> (\<exists>x i e. snd (complete_enrollment env d now rq dr) = Inr x \<and> open_invitation (auth_part env) d now (eq_code rq) = Some (i, e)
        \<and> opens_session (auth_part env) dr d (fst (complete_enrollment env d now rq dr)))"
proof (cases "snd (complete_enrollment env d now rq dr)")
  case (Inl e)
  then have "fst (complete_enrollment env d now rq dr) = d" unfolding complete_enrollment_def by (rule commit_error)
  then show ?thesis by simp
next
  case (Inr x)
  obtain raw org where "x = (raw, org)" by force
  then have "complete_enrollment env d now rq dr = (fst (complete_enrollment env d now rq dr), Inr (raw, org))"
    using Inr by (simp add: prod_eq_iff)
  then show ?thesis by (rule complete_enrollment_cases) (use Inr create_account_signs in blast)
qed

lemma signup_signs:
  "fst (signup env d now sq dr) = d
   \<or> (\<exists>x. snd (signup env d now sq dr) = Inr x \<and> open_signup env \<and> opens_session (auth_part env) dr d (fst (signup env d now sq dr)))"
proof (cases "snd (signup env d now sq dr)")
  case (Inl e)
  then have "fst (signup env d now sq dr) = d" unfolding signup_def by (rule commit_error)
  then show ?thesis by simp
next
  case (Inr raw)
  then obtain d' where r: "signup env d now sq dr = (d', Inr raw)" by (cases "signup env d now sq dr") simp
  then obtain name u taken org d1 d2 m d3 where
    "open_signup env" "insert_user (dr_user dr) u taken d = Inr d1" "insert_org org name d1 = Inr d2"
    "insert_member org (dr_user dr) m d2 = Inr d3"
    "insert_session (auth_part env) now (dr_user dr) (sq_machine_name sq) (dr_token dr) d3 = Inr (d', raw)"
    unfolding signup_def commit_Inr Let_def and_then_Inr demand_Inr by (elim exE conjE) (rule that)
  from this(1) insert_signs(2) [OF this(2)] insert_signs(1) [OF this(3)] insert_signs(3) [OF this(4)] insert_signs(4) [OF this(5)]
  have "opens_session (auth_part env) dr d d' \<and> open_signup env" by (auto simp: opens_session_def)
  then show ?thesis using r by simp
qed

lemma opens_back:
  assumes "opens_session env dr d d'"
  shows "has_session (auth d') digest user \<Longrightarrow>
      has_session (auth d) digest user \<or> digest = token_hash env (hex_of_bytes (dr_token dr)) \<and> user = dr_user dr"
    and "has_mark (auth d') digest t \<Longrightarrow> has_mark (auth d) digest t"
    and "parked_user (auth d') = parked_user (auth d)"
  using assms by (auto simp: opens_session_def has_session_def has_mark_def intro: parked_cong)

lemma inventory_signs: "signs_shrink d (serve_inventory env d (now, c, req))"
proof -
  have db: "signs_shrink d (on_db g d)" for g :: "db \<Rightarrow> 'x db_result"
    by (auto simp: on_db_def split: sum.splits)
  have logins: "signs_shrink d (fst (list_credentials d now c f))" "signs_shrink d (fst (create_credential d now c f q fresh))"
    "signs_shrink d (fst (edit_credential d now c f i q))" "signs_shrink d (fst (delete_credential d now c f i))" for f q fresh i
  proof -
    show "signs_shrink d (fst (list_credentials d now c f))"
      unfolding list_credentials_def by (rule commit_rule) (auto simp: Let_def)
    show "signs_shrink d (fst (create_credential d now c f q fresh))"
      unfolding create_credential_def by (rule commit_rule) (auto simp: put_credential_def)
    show "signs_shrink d (fst (edit_credential d now c f i q))"
      unfolding edit_credential_def by (rule commit_rule) (auto simp: put_credential_def)
    show "signs_shrink d (fst (delete_credential d now c f i))"
      unfolding delete_credential_def by (rule commit_rule) auto
  qed
  have purge: "signs_shrink d (fst (purge_profile aenv d now c h i))" for aenv h i
    unfolding purge_profile_def by (rule commit_rule) (auto simp: Let_def drop_profile_def split: option.splits)
  show ?thesis by (cases req) (simp_all add: serve_inventory_def db logins purge)
qed

text \<open>Behind the extractor.\<close>

lemma with_caller_signs:
  assumes "\<And>d c. signs_shrink d (f d c)"
  shows "has_session (auth (with_caller env d now h f)) digest user \<Longrightarrow> has_session (auth d) digest user"
    and "has_mark (auth (with_caller env d now h f)) digest t \<Longrightarrow> has_mark (auth d) digest t"
    and "parked_user (auth (with_caller env d now h f)) = parked_user (auth d)"
proof -
  obtain a r where au: "authenticate (auth_part env) (auth d) now h = (a, r)" by force
  have before: "has_session a digest user \<Longrightarrow> has_session (auth d) digest user"
    "has_mark a digest t \<Longrightarrow> has_mark (auth d) digest t" "parked_user a = parked_user (auth d)"
    using authenticate_frame [of "auth_part env" "auth d" now h] au by (auto simp: other_tables_def intro: parked_cong)
  show "has_session (auth (with_caller env d now h f)) digest user \<Longrightarrow> has_session (auth d) digest user"
    "has_mark (auth (with_caller env d now h f)) digest t \<Longrightarrow> has_mark (auth d) digest t"
    "parked_user (auth (with_caller env d now h f)) = parked_user (auth d)"
    using before shrink_back [OF assms] au by (cases r; simp add: with_caller_def; fastforce)+
qed

end
