(* ===== verification/Server_Runs.thy ===== *)
theory Server_Runs
  imports Server_Frames
begin

text \<open>
  The whole server: the requests on locks and bundles, those of a team and its accounts, and those of the
  inventory, served one after the other to callers the extractor finds. What holds over any such run of a live
  lock, of the store of bundles, of the sessions, and of the actions an organisation wants a fresh code for.
\<close>

section \<open>Requests and runs\<close>

datatype server_request =
    Team team_request
  | Locking headers request
  | Stock headers inventory_request

record server =
  sv_team :: team_env
  sv_locks :: server_env
  sv_rules :: machine_rules
  sv_max_profiles :: "int option"
  sv_sha256 :: "str \<Rightarrow> bytes"

type_synonym server_event = "time \<times> server_request"

abbreviation sv_auth :: "server \<Rightarrow> auth_env" where
  "sv_auth s \<equiv> auth_part (sv_team s)"

definition stock_env :: "server \<Rightarrow> inventory_env" where
  "stock_env s = \<lparr>ie_auth = sv_auth s, ie_rules = sv_rules s, ie_max_profiles = sv_max_profiles s, ie_sha256 = sv_sha256 s\<rparr>"

text \<open>A purge asks for the mark of the session its headers name.\<close>

definition own_headers :: "headers \<Rightarrow> inventory_request \<Rightarrow> inventory_request" where
  "own_headers h req = (case req of Purge_profile _ f \<Rightarrow> Purge_profile h f | _ \<Rightarrow> req)"

definition serve_server :: "server \<Rightarrow> team_db \<Rightarrow> server_event \<Rightarrow> team_db" where
  "serve_server s d ev =
     (case ev of (now, req) \<Rightarrow>
       (case req of
          Team r \<Rightarrow> serve_team (sv_team s) d (now, r)
        | Locking h r \<Rightarrow> with_caller (sv_team s) d now h (\<lambda>d c. on_store (\<lambda>st. serve (sv_locks s) st (now, c, r)) d)
        | Stock h r \<Rightarrow> with_caller (sv_team s) d now h (\<lambda>d c. serve_inventory (stock_env s) d (now, c, own_headers h r))))"

definition run_server :: "server \<Rightarrow> team_db \<Rightarrow> server_event list \<Rightarrow> team_db" where
  "run_server s d evs = foldl (serve_server s) d evs"

interpretation server_events: event_system "serve_server s" "run_server s" for s
  by unfold_locales (simp add: run_server_def)

lemmas run_server_simps [simp] = server_events.run_Nil server_events.run_Cons server_events.run_append

text \<open>The requests of accounts alone are a run of \<open>Sign_In_Protocol\<close>.\<close>

lemma account_run:
  "run_server s d (map (\<lambda>(t, r). (t, Team (Account r))) evs) = d\<lparr>auth := run_auth (sv_auth s) (auth d) evs\<rparr>"
proof (induction evs arbitrary: d)
  case (Cons ev evs)
  obtain t r where "ev = (t, r)" by force
  then show ?case using Cons.IH by (simp add: serve_server_def serve_team_def)
qed simp

lemma with_caller_store:
  assumes "\<And>a. P (store d) (store (d\<lparr>auth := a\<rparr>))" and "\<And>a c. authenticate (auth_part env) (auth d) now h = (a, Inr c) \<Longrightarrow> P (store d) (store (f (d\<lparr>auth := a\<rparr>) c))"
  shows "P (store d) (store (with_caller env d now h f))"
  using assms unfolding with_caller_def by (auto split: prod.split sum.split)

section \<open>A live lock\<close>

text \<open>
  The requests that may end somebody's live lock: those of \<open>ends_lock\<close>, by a caller the extractor finds, the
  same revocation in the requests of a team, a rotation that removes the holder, and a purge of the profile
  from the trash.
\<close>

definition may_end_lock :: "server \<Rightarrow> team_db \<Rightarrow> server_event \<Rightarrow> uuid \<Rightarrow> lock_row \<Rightarrow> bool" where
  "may_end_lock s d ev profile l =
     (case ev of (now, req) \<Rightarrow>
       (let found = (\<lambda>h P. case authenticate (sv_auth s) (auth d) now h of (a, Inl _) \<Rightarrow> False | (a, Inr c) \<Rightarrow> P (d\<lparr>auth := a\<rparr>) c)
        in case req of
          Locking h r \<Rightarrow> found h (\<lambda>d c. ends_lock (sv_locks s) (view d) (now, c, r) profile l)
        | Team (Take h p u) \<Rightarrow> found h (\<lambda>d c. ends_lock (sv_locks s) (view d) (now, c, Revoke p u) profile l)
        | Team (Rotate h r) \<Rightarrow> found h (\<lambda>d c. rr_remove r = Some (l_user l)
            \<and> (case snd (rotate_org_key (sv_team s) d now c h r) of Inl _ \<Rightarrow> False | Inr _ \<Rightarrow> True))
        | Stock h (Purge_profile _ f) \<Rightarrow> found h (\<lambda>d c. f = profile
            \<and> (case map_of (profiles (store d)) f of None \<Rightarrow> False | Some row \<Rightarrow> f_deleted row))
        | _ \<Rightarrow> False))"

fun ended_in :: "server \<Rightarrow> team_db \<Rightarrow> server_event list \<Rightarrow> uuid \<Rightarrow> lock_row \<Rightarrow> bool" where
  "ended_in s d [] profile l = False"
| "ended_in s d (ev # evs) profile l \<longleftrightarrow>
     may_end_lock s d ev profile l \<or> ended_in s (serve_server s d ev) evs profile l"

lemma held_view [simp]: "held_by (view d) profile l u = held_by (store d) profile l u"
  by (simp add: held_by_def view_def)

lemma held_keep: "profile_locks st' = profile_locks st \<Longrightarrow> held_by st profile l u \<Longrightarrow> held_by st' profile l u"
  by (simp add: held_by_def)

lemma held_parts_locks: "held_parts d' = held_parts d \<Longrightarrow> held_by (store d') profile l u = held_by (store d) profile l u"
  by (intro held_by_frame) (simp add: held_parts_def)

lemmas team_parts = invite_parts email_parts account_parts role_parts

lemma grant_locks: "profile_locks (fst (grant_access st now c p r)) = profile_locks st"
  unfolding grant_access_def Let_def by (auto split: sum.splits option.splits)

lemma stock_locks:
  assumes "held_by (store d) profile l until"
    and "\<And>h f. r = Purge_profile h f \<Longrightarrow> f = profile \<Longrightarrow> case map_of (profiles (store d)) f of None \<Rightarrow> True | Some row \<Rightarrow> \<not> f_deleted row"
  shows "held_by (store (serve_inventory env d (now, c, r))) profile l until"
proof (cases "\<exists>h f. r = Purge_profile h f")
  case True
  then obtain h f where r: "r = Purge_profile h f" by blast
  have "map_of (profile_locks (store (fst (purge_profile (ie_auth env) d now c h f)))) profile = map_of (profile_locks (store d)) profile"
    using assms(2) [OF r] by (intro purge_locks) blast
  then show ?thesis using assms(1) by (simp add: held_by_def serve_inventory_def r)
next
  case False
  then have "spares (store d) (store (serve_inventory env d (now, c, r)))" by (intro serve_inventory_spares) blast
  then have "profile_locks (store (serve_inventory env d (now, c, r))) = profile_locks (store d)" by (simp add: spares_def)
  then show ?thesis using assms(1) by (rule held_keep)
qed

lemma held_by_rotate:
  assumes "held_by (store d) profile l until"
    and "\<not> (rr_remove r = Some (l_user l) \<and> (case snd (rotate_org_key env d now c h r) of Inl _ \<Rightarrow> False | Inr _ \<Rightarrow> True))"
  shows "held_by (store (fst (rotate_org_key env d now c h r))) profile l until"
  using rotate_locks [of env d now c h r]
proof (elim disjE exE conjE)
  assume "profile_locks (store (fst (rotate_org_key env d now c h r))) = profile_locks (store d)"
  then show ?thesis using assms(1) by (rule held_keep)
next
  fix gone n
  assume g: "rr_remove r = Some gone" "snd (rotate_org_key env d now c h r) = Inr n"
    and locks: "profile_locks (store (fst (rotate_org_key env d now c h r))) = List.filter (\<lambda>(_, x). l_user x \<noteq> gone) (profile_locks (store d))"
  then have "l_user l \<noteq> gone" using assms(2) by auto
  then show ?thesis
    using assms(1) by (auto simp: held_by_def locks intro!: lookup_filter_keep)
qed

lemma held_by_server:
  assumes "held_by (store d) profile l until" and "now < until" and "until \<le> now + lock_ttl"
    and "\<not> may_end_lock s d (now, req) profile l"
  shows "held_by (store (serve_server s d (now, req))) profile l until"
proof -
  define P where "P st st' \<longleftrightarrow> (held_by st profile l until \<longrightarrow> held_by st' profile l until)" for st st' :: db
  have step: "P (store d) (store (with_caller (sv_team s) d now h f))"
    if "\<And>a c. authenticate (sv_auth s) (auth d) now h = (a, Inr c) \<Longrightarrow> held_by (store (f (d\<lparr>auth := a\<rparr>) c)) profile l until" for h f
    by (rule with_caller_store [where P = P]) (simp_all add: P_def that)
  have same: "P (store d) (store (with_caller (sv_team s) d now h f))" if "\<And>d c. held_parts (f d c) = held_parts d" for h f
    using assms(1) that held_parts_locks [where d = d] by (intro step) (metis held_parts_frame(7))
  have "P (store d) (store (serve_server s d (now, req)))"
  proof (cases req)
    case (Locking h r)
    show ?thesis unfolding serve_server_def Locking prod.case server_request.case
    proof (rule step)
      fix a c assume au: "authenticate (sv_auth s) (auth d) now h = (a, Inr c)"
      then have "\<not> ends_lock (sv_locks s) (view (d\<lparr>auth := a\<rparr>)) (now, c, r) profile l"
        using assms(4) Locking by (simp add: may_end_lock_def)
      then have "held_by (serve (sv_locks s) (view (d\<lparr>auth := a\<rparr>)) (now, c, r)) profile l until"
        using assms(1-3) by (intro held_by_serve) simp_all
      then show "held_by (store (on_store (\<lambda>st. serve (sv_locks s) st (now, c, r)) (d\<lparr>auth := a\<rparr>))) profile l until"
        by (simp add: on_store_def)
    qed
  next
    case (Stock h r)
    show ?thesis unfolding serve_server_def Stock prod.case server_request.case
    proof (rule step)
      fix a c assume au: "authenticate (sv_auth s) (auth d) now h = (a, Inr c)"
      show "held_by (store (serve_inventory (stock_env s) (d\<lparr>auth := a\<rparr>) (now, c, own_headers h r))) profile l until"
        using assms(1,4) Stock au
        by (intro stock_locks) (auto simp: may_end_lock_def own_headers_def split: inventory_request.splits option.splits)
    qed
  next
    case (Team r)
    have parts: "held_parts d' = held_parts d \<Longrightarrow> P (store d) (store d')" for d'
      using held_parts_locks [of d' d] by (simp add: P_def)
    show ?thesis
    proof (cases r)
      case (Rotate h q)
      show ?thesis unfolding serve_server_def Team Rotate serve_team_def prod.case server_request.case team_request.case
      proof (rule step)
        fix a c assume au: "authenticate (sv_auth s) (auth d) now h = (a, Inr c)"
        show "held_by (store (fst (rotate_org_key (sv_team s) (d\<lparr>auth := a\<rparr>) now c h q))) profile l until"
          using assms(1,4) Team Rotate au by (intro held_by_rotate) (auto simp: may_end_lock_def split: sum.splits)
      qed
    next
      case (Take h p u)
      show ?thesis unfolding serve_server_def Team Take serve_team_def prod.case server_request.case team_request.case
      proof (rule step)
        fix a c assume au: "authenticate (sv_auth s) (auth d) now h = (a, Inr c)"
        then have "\<not> ends_lock (sv_locks s) (view (d\<lparr>auth := a\<rparr>)) (now, c, Revoke p u) profile l"
          using assms(4) Team Take by (simp add: may_end_lock_def)
        then show "held_by (store (on_store (\<lambda>st. fst (revoke_access st now c p u)) (d\<lparr>auth := a\<rparr>))) profile l until"
          using assms(1) held_by_revoke [of "view (d\<lparr>auth := a\<rparr>)" profile l until "sv_locks s" now c p u]
          by (simp add: on_store_def)
      qed
    next
      case (Give h p q)
      show ?thesis unfolding serve_server_def Team Give serve_team_def prod.case server_request.case team_request.case
      proof (rule step)
        fix a c
        have "profile_locks (fst (grant_access (view (d\<lparr>auth := a\<rparr>)) now c p q)) = profile_locks (store d)"
          unfolding grant_locks by (simp add: view_def)
        then show "held_by (store (on_store (\<lambda>st. fst (grant_access st now c p q)) (d\<lparr>auth := a\<rparr>))) profile l until"
          using assms(1) held_keep [of "fst (grant_access (view (d\<lparr>auth := a\<rparr>)) now c p q)" "store d"] by (simp add: on_store_def)
      qed
    qed (simp_all add: serve_server_def serve_team_def Team parts team_parts same)
  qed
  then show ?thesis using assms(1) by (simp add: P_def)
qed

text \<open>
  C3. A lock excludes everybody else while it is live: whatever requests of all that are modelled arrive, from
  whomever and in whatever order, as long as each is served before the lock expires and none is one of those
  that may end it (a forced launch by somebody who may manage access, a release quoting the lock's own token, a
  revocation or a removal of the holder, a purge of the profile from the trash), the row still belongs to the
  same user with the same token and has not been shortened.
\<close>

theorem live_lock_survives_any_run:
  assumes "map_of (profile_locks (store d)) profile = Some l" and "l_expires_at l \<le> start + lock_ttl"
    and "\<forall>(now, _) \<in> set evs. start \<le> now \<and> now < l_expires_at l"
    and "\<not> ended_in s d evs profile l"
  shows "\<exists>l'. map_of (profile_locks (store (run_server s d evs))) profile = Some l'
    \<and> l_user l' = l_user l \<and> l_token_hash l' = l_token_hash l \<and> l_expires_at l \<le> l_expires_at l'"
proof -
  have "held_by (store d) profile l (l_expires_at l) \<Longrightarrow> \<not> ended_in s d evs profile l \<Longrightarrow>
    \<forall>(now, _) \<in> set evs. start \<le> now \<and> now < l_expires_at l \<Longrightarrow>
    held_by (store (run_server s d evs)) profile l (l_expires_at l)" for d
  proof (induction evs arbitrary: d)
    case (Cons ev evs)
    obtain now req where ev: "ev = (now, req)" by (cases ev)
    have "held_by (store (serve_server s d ev)) profile l (l_expires_at l)"
      using Cons.prems assms(2) held_by_server [of d profile l "l_expires_at l" now s req]
      by (auto simp: ev)
    then show ?case using Cons by simp
  qed simp
  then show ?thesis
    using assms by (auto simp: held_by_def)
qed

section \<open>The store of bundles\<close>

text \<open>The one request that breaks it: a purge of a profile that is not in the trash.\<close>

definition purges_live :: "team_db \<Rightarrow> server_event \<Rightarrow> bool" where
  "purges_live d ev =
     (case ev of
        (_, Stock _ (Purge_profile _ f)) \<Rightarrow> (case map_of (profiles (store d)) f of None \<Rightarrow> False | Some row \<Rightarrow> \<not> f_deleted row)
      | _ \<Rightarrow> False)"

fun purged_live :: "server \<Rightarrow> team_db \<Rightarrow> server_event list \<Rightarrow> bool" where
  "purged_live s d [] = False"
| "purged_live s d (ev # evs) \<longleftrightarrow> purges_live d ev \<or> purged_live s (serve_server s d ev) evs"

lemma store_ok_view [simp]: "store_ok (view d) = store_ok (store d)"
  by (rule store_ok_frame) (simp_all add: view_def)

lemma held_parts_store: "held_parts d' = held_parts d \<Longrightarrow> store_ok (store d') = store_ok (store d)"
  by (rule store_ok_frame) (simp_all add: held_parts_def)

lemma grants_store:
  "store_ok (fst (grant_access st now c p r)) = store_ok st" "store_ok (fst (revoke_access st now c p u)) = store_ok st"
  using bundle_tables_frame store_ok_tables by metis+

lemma serve_server_store:
  assumes ok: "store_ok (store d)" and live: "\<not> purges_live d ev"
  shows "store_ok (store (serve_server s d ev))"
proof -
  obtain now req where ev: "ev = (now, req)" by force
  define P where "P st st' \<longleftrightarrow> (store_ok st \<longrightarrow> store_ok st')" for st st' :: db
  have step: "P (store d) (store (with_caller (sv_team s) d now h f))"
    if "\<And>a c. store_ok (store (f (d\<lparr>auth := a\<rparr>) c))" for h f
    by (rule with_caller_store [where P = P]) (simp_all add: P_def that)
  have same: "P (store d) (store (with_caller (sv_team s) d now h f))" if "\<And>d c. held_parts (f d c) = held_parts d" for h f
    using ok that held_parts_store [where d = d] by (intro step) (metis held_parts_frame(7))
  have parts: "held_parts d' = held_parts d \<Longrightarrow> P (store d) (store d')" for d'
    using held_parts_store [of d' d] by (simp add: P_def)
  have "P (store d) (store (serve_server s d ev))"
  proof (cases req)
    case (Locking h r)
    show ?thesis unfolding serve_server_def ev Locking prod.case server_request.case
      by (rule step) (simp add: on_store_def serve_store_ok ok)
  next
    case (Stock h r)
    show ?thesis unfolding serve_server_def ev Stock prod.case server_request.case
    proof (rule step)
      fix a c
      show "store_ok (store (serve_inventory (stock_env s) (d\<lparr>auth := a\<rparr>) (now, c, own_headers h r)))"
      proof (cases "\<exists>h f. r = Purge_profile h f")
        case True
        then obtain h' f where r: "r = Purge_profile h' f" by blast
        then have "case map_of (profiles (store (d\<lparr>auth := a\<rparr>))) f of None \<Rightarrow> True | Some row \<Rightarrow> f_deleted row"
          using live ev Stock by (auto simp: purges_live_def split: option.splits)
        then show ?thesis using ok by (simp add: serve_inventory_def own_headers_def r purge_bundles)
      next
        case False
        then have "own_headers h r \<noteq> Purge_profile h' f" for h' f by (auto simp: own_headers_def split: inventory_request.splits)
        then have "spares (store (d\<lparr>auth := a\<rparr>)) (store (serve_inventory (stock_env s) (d\<lparr>auth := a\<rparr>) (now, c, own_headers h r)))"
          by (rule serve_inventory_spares)
        then show ?thesis using ok keeps_bundles_ok by (auto simp: spares_def)
      qed
    qed
  next
    case (Team r)
    show ?thesis
    proof (cases r)
      case (Rotate h q)
      show ?thesis unfolding serve_server_def ev Team Rotate serve_team_def prod.case server_request.case team_request.case
      proof (rule step)
        fix a c
        show "store_ok (store (fst (rotate_org_key (sv_team s) (d\<lparr>auth := a\<rparr>) now c h q)))"
          using keeps_bundles_ok [OF rotate_bundles [of "d\<lparr>auth := a\<rparr>" "sv_team s" now c h q]] ok by simp
      qed
    next
      case (Take h p u)
      show ?thesis unfolding serve_server_def ev Team Take serve_team_def prod.case server_request.case team_request.case
        by (rule step) (simp add: on_store_def grants_store ok)
    next
      case (Give h p q)
      show ?thesis unfolding serve_server_def ev Team Give serve_team_def prod.case server_request.case team_request.case
        by (rule step) (simp add: on_store_def grants_store ok)
    qed (simp_all add: serve_server_def serve_team_def ev Team parts team_parts same)
  qed
  then show ?thesis using ok by (simp add: P_def)
qed

text \<open>
  C17. No sequence of requests to the server, accepted or refused at whatever point, breaks the store of bundles,
  as long as none purges a profile that is not in the trash: every row still names a file that exists and has the
  recorded size, no version is recorded twice, and none is later than its profile's current one.
\<close>

theorem any_run_keeps_the_store:
  assumes "store_ok (store d)" and "\<not> purged_live s d evs"
  shows "store_ok (store (run_server s d evs))"
  using assms by (induction evs arbitrary: d) (simp_all add: serve_server_store)

section \<open>Where a session comes from\<close>

text \<open>
  A sign-in of \<open>Sign_In_Protocol\<close>, the completion of an enrolment with an invitation that is open, or an open
  sign-up; an account that is made did not exist, and its session is the one that is handed out with it.
\<close>

definition opened_by :: "server \<Rightarrow> team_db \<Rightarrow> server_event \<Rightarrow> bytes \<Rightarrow> uuid \<Rightarrow> bool" where
  "opened_by s d ev digest user =
     (case ev of
        (now, Team (Account r)) \<Rightarrow> signed_in_by (sv_auth s) (auth d) (now, r) digest user
      | (now, Team (Enrol r dr)) \<Rightarrow> digest = token_hash (sv_auth s) (hex_of_bytes (dr_token dr)) \<and> user = dr_user dr
          \<and> map_of (au_users (auth d)) user = None \<and> open_invitation (sv_auth s) d now (eq_code r) \<noteq> None
          \<and> (case snd (complete_enrollment (sv_team s) d now r dr) of Inl _ \<Rightarrow> False | Inr _ \<Rightarrow> True)
      | (now, Team (Sign_up r dr)) \<Rightarrow> digest = token_hash (sv_auth s) (hex_of_bytes (dr_token dr)) \<and> user = dr_user dr
          \<and> map_of (au_users (auth d)) user = None \<and> open_signup (sv_team s)
          \<and> (case snd (signup (sv_team s) d now r dr) of Inl _ \<Rightarrow> False | Inr _ \<Rightarrow> True)
      | _ \<Rightarrow> False)"

definition parks :: "server \<Rightarrow> team_db \<Rightarrow> server_event \<Rightarrow> uuid \<Rightarrow> uuid \<Rightarrow> bool" where
  "parks s d ev ch user =
     (case ev of (now, Team (Account r)) \<Rightarrow> parked_by (sv_auth s) (auth d) (now, r) ch user | _ \<Rightarrow> False)"

lemma on_store_signs: "signs_shrink d (on_store g d)"
  by simp

lemmas team_signs = invite_signs email_signs role_signs logout_signs rotate_signs on_store_signs inventory_signs

lemma enrolment_back:
  assumes e: "e = complete_enrollment tenv d now r dr"
  shows "has_session (auth (fst e)) digest user \<Longrightarrow> has_session (auth d) digest user
       \<or> digest = token_hash (auth_part tenv) (hex_of_bytes (dr_token dr)) \<and> user = dr_user dr
         \<and> map_of (au_users (auth d)) user = None \<and> open_invitation (auth_part tenv) d now (eq_code r) \<noteq> None
         \<and> (case snd e of Inl _ \<Rightarrow> False | Inr _ \<Rightarrow> True)"
    and "has_mark (auth (fst e)) digest t \<Longrightarrow> has_mark (auth d) digest t"
    and "parked_user (auth (fst e)) = parked_user (auth d)"
proof -
  consider "fst e = d" | x i row where "snd e = Inr x" "open_invitation (auth_part tenv) d now (eq_code r) = Some (i, row)"
      "opens_session (auth_part tenv) dr d (fst e)"
    using enrolment_signs [of tenv d now r dr] unfolding e [symmetric] by blast
  note cases = this
  show "has_session (auth (fst e)) digest user \<Longrightarrow> has_session (auth d) digest user
       \<or> digest = token_hash (auth_part tenv) (hex_of_bytes (dr_token dr)) \<and> user = dr_user dr
         \<and> map_of (au_users (auth d)) user = None \<and> open_invitation (auth_part tenv) d now (eq_code r) \<noteq> None
         \<and> (case snd e of Inl _ \<Rightarrow> False | Inr _ \<Rightarrow> True)"
    by (cases rule: cases) (simp, use opens_back(1) in \<open>fastforce simp: opens_session_def\<close>)
  show "has_mark (auth (fst e)) digest t \<Longrightarrow> has_mark (auth d) digest t"
    by (cases rule: cases) (simp, use opens_back(2) in blast)
  show "parked_user (auth (fst e)) = parked_user (auth d)"
    by (cases rule: cases) (simp, use opens_back(3) in blast)
qed

lemma signup_back:
  assumes e: "e = signup tenv d now r dr"
  shows "has_session (auth (fst e)) digest user \<Longrightarrow> has_session (auth d) digest user
       \<or> digest = token_hash (auth_part tenv) (hex_of_bytes (dr_token dr)) \<and> user = dr_user dr
         \<and> map_of (au_users (auth d)) user = None \<and> open_signup tenv \<and> (case snd e of Inl _ \<Rightarrow> False | Inr _ \<Rightarrow> True)"
    and "has_mark (auth (fst e)) digest t \<Longrightarrow> has_mark (auth d) digest t"
    and "parked_user (auth (fst e)) = parked_user (auth d)"
proof -
  consider "fst e = d" | x where "snd e = Inr x" "open_signup tenv" "opens_session (auth_part tenv) dr d (fst e)"
    using signup_signs [of tenv d now r dr] unfolding e [symmetric] by blast
  note cases = this
  show "has_session (auth (fst e)) digest user \<Longrightarrow> has_session (auth d) digest user
       \<or> digest = token_hash (auth_part tenv) (hex_of_bytes (dr_token dr)) \<and> user = dr_user dr
         \<and> map_of (au_users (auth d)) user = None \<and> open_signup tenv \<and> (case snd e of Inl _ \<Rightarrow> False | Inr _ \<Rightarrow> True)"
    by (cases rule: cases) (simp, use opens_back(1) in \<open>fastforce simp: opens_session_def\<close>)
  show "has_mark (auth (fst e)) digest t \<Longrightarrow> has_mark (auth d) digest t"
    by (cases rule: cases) (simp, use opens_back(2) in blast)
  show "parked_user (auth (fst e)) = parked_user (auth d)"
    by (cases rule: cases) (simp, use opens_back(3) in blast)
qed

lemma serve_server_back:
  shows "has_session (auth (serve_server s d ev)) digest user \<Longrightarrow> has_session (auth d) digest user \<or> opened_by s d ev digest user"
    and "has_mark (auth (serve_server s d ev)) digest t \<Longrightarrow>
      has_mark (auth d) digest t \<or> (\<exists>now r. ev = (now, Team (Account r)) \<and> verified_by (sv_auth s) (auth d) (now, r) digest t)"
    and "parked_user (auth (serve_server s d ev)) ch = Some user \<Longrightarrow> parked_user (auth d) ch = Some user \<or> parks s d ev ch user"
proof -
  obtain now req where ev: "ev = (now, req)" by force
  note caller = with_caller_signs [where env = "sv_team s" and d = d and now = now]
  consider (account) r where "req = Team (Account r)" | (enrol) r dr where "req = Team (Enrol r dr)"
    | (signup) r dr where "req = Team (Sign_up r dr)"
    | (called) h f where "serve_server s d ev = with_caller (sv_team s) d now h f" "\<And>d c. signs_shrink d (f d c)"
    | (other) "signs_shrink d (serve_server s d ev)"
  proof (cases req)
    case (Team r)
    then show thesis
      by (cases r; simp add: serve_server_def serve_team_def ev) (use that team_signs in \<open>(simp add: serve_server_def serve_team_def ev; fail | blast)+\<close>)
  next
    case (Locking h r)
    show thesis by (rule called [of h "\<lambda>d c. on_store (\<lambda>st. serve (sv_locks s) st (now, c, r)) d"]) (simp_all add: serve_server_def ev Locking)
  next
    case (Stock h r)
    show thesis by (rule called [of h "\<lambda>d c. serve_inventory (stock_env s) d (now, c, own_headers h r)"])
        (simp_all add: serve_server_def ev Stock inventory_signs)
  qed
  note cases = this
  show "has_session (auth (serve_server s d ev)) digest user \<Longrightarrow> has_session (auth d) digest user \<or> opened_by s d ev digest user"
  proof (cases rule: cases)
    case (account r)
    then show "has_session (auth (serve_server s d ev)) digest user \<Longrightarrow> ?thesis"
      using serve_session_user [of "sv_auth s" "auth d" "(now, r)" digest user]
      by (auto simp: serve_server_def serve_team_def ev opened_by_def)
  next
    case (enrol r dr)
    then show "has_session (auth (serve_server s d ev)) digest user \<Longrightarrow> ?thesis"
      using enrolment_back(1) [OF refl, of "sv_team s" d now r dr digest user] by (simp add: serve_server_def serve_team_def ev opened_by_def)
  next
    case (signup r dr)
    then show "has_session (auth (serve_server s d ev)) digest user \<Longrightarrow> ?thesis"
      using signup_back(1) [OF refl, of "sv_team s" d now r dr digest user] by (simp add: serve_server_def serve_team_def ev opened_by_def)
  qed (use caller(1) shrink_back(1) in \<open>metis+\<close>)
  show "has_mark (auth (serve_server s d ev)) digest t \<Longrightarrow>
      has_mark (auth d) digest t \<or> (\<exists>now r. ev = (now, Team (Account r)) \<and> verified_by (sv_auth s) (auth d) (now, r) digest t)"
  proof (cases rule: cases)
    case (account r)
    then show "has_mark (auth (serve_server s d ev)) digest t \<Longrightarrow> ?thesis"
      using serve_mark [of "sv_auth s" "auth d" "(now, r)" digest t] by (auto simp: serve_server_def serve_team_def ev)
  next
    case (enrol r dr)
    then show "has_mark (auth (serve_server s d ev)) digest t \<Longrightarrow> ?thesis"
      using enrolment_back(2) [OF refl, of "sv_team s" d now r dr digest t] by (simp add: serve_server_def serve_team_def ev)
  next
    case (signup r dr)
    then show "has_mark (auth (serve_server s d ev)) digest t \<Longrightarrow> ?thesis"
      using signup_back(2) [OF refl, of "sv_team s" d now r dr digest t] by (simp add: serve_server_def serve_team_def ev)
  qed (use caller(2) shrink_back(2) in \<open>metis+\<close>)
  show "parked_user (auth (serve_server s d ev)) ch = Some user \<Longrightarrow> parked_user (auth d) ch = Some user \<or> parks s d ev ch user"
  proof (cases rule: cases)
    case (account r)
    then show "parked_user (auth (serve_server s d ev)) ch = Some user \<Longrightarrow> ?thesis"
      using serve_parked_user [of "sv_auth s" "auth d" "(now, r)" ch user] by (auto simp: serve_server_def serve_team_def ev parks_def)
  next
    case (enrol r dr)
    then show "parked_user (auth (serve_server s d ev)) ch = Some user \<Longrightarrow> ?thesis"
      using enrolment_back(3) [OF refl, of "sv_team s" d now r dr] by (simp add: serve_server_def serve_team_def ev)
  next
    case (signup r dr)
    then show "parked_user (auth (serve_server s d ev)) ch = Some user \<Longrightarrow> ?thesis"
      using signup_back(3) [OF refl, of "sv_team s" d now r dr] by (simp add: serve_server_def serve_team_def ev)
  next
    case (called h f)
    then show "parked_user (auth (serve_server s d ev)) ch = Some user \<Longrightarrow> ?thesis" using caller(3) [of f h] by simp
  next
    case other
    then show "parked_user (auth (serve_server s d ev)) ch = Some user \<Longrightarrow> ?thesis" using shrink_back(3) [OF other] by simp
  qed
qed

text \<open>
  C30. Where every session comes from, over any run of requests from a server with no session and no parked
  sign-in: a session of a user was opened by an event of the run that presented the user's password from an address
  the policy admits, in a state where no code was wanted; or by a code that matches the user's enabled secret, within
  five minutes and five attempts, for a sign-in that an earlier event of the run parked after the password was
  accepted; or it is the session that came with the account, of an enrolment with an open invitation or an open
  sign-up, which made the user.
\<close>

theorem every_session_has_its_origin:
  assumes "au_sessions (auth d) = []" and "au_challenges (auth d) = []"
    and "has_session (auth (run_server s d evs)) digest user"
  shows "\<exists>pre ev post. evs = pre @ ev # post \<and> opened_by s (run_server s d pre) ev digest user
    \<and> (\<forall>now ch typed random. ev = (now, Team (Account (Login_code ch typed random)))
         \<longrightarrow> (\<exists>pre' ev' post'. pre = pre' @ ev' # post' \<and> parks s (run_server s d pre') ev' ch user))"
proof -
  have "\<not> has_session (auth d) digest user" using assms(1) by (simp add: has_session_def)
  then obtain pre ev post where split: "evs = pre @ ev # post" "opened_by s (run_server s d pre) ev digest user"
    using server_events.caused [where K = "\<lambda>d. has_session (auth d) digest user"
        and P = "\<lambda>d ev. opened_by s d ev digest user", OF serve_server_back(1) assms(3)] by blast
  have "\<exists>pre' ev' post'. pre = pre' @ ev' # post' \<and> parks s (run_server s d pre') ev' ch user"
    if "ev = (now, Team (Account (Login_code ch typed random)))" for now ch typed random
  proof -
    have "parked_user (auth (run_server s d pre)) ch = Some user"
      using split(2) that by (auto simp: opened_by_def signed_in_by_def code_accepted_def parked_user_def)
    moreover have "parked_user (auth d) ch = None" using assms(2) by (simp add: parked_user_def)
    ultimately show ?thesis
      using server_events.caused [where K = "\<lambda>d. parked_user (auth d) ch = Some user"
          and P = "\<lambda>d ev. parks s d ev ch user", OF serve_server_back(3)] by fastforce
  qed
  then show ?thesis using split by blast
qed

section \<open>Fresh codes\<close>

text \<open>
  The actions that ask for a fresh code where the organisation wants it: the policy, the sessions of a member,
  a member made an admin, a rotation that removes somebody, and a purge. Such a request is served when its
  handler, behind the extractor, answers with success.
\<close>

definition serves_sensitive :: "server \<Rightarrow> team_db \<Rightarrow> time \<Rightarrow> headers \<Rightarrow> caller \<Rightarrow> server_request \<Rightarrow> bool" where
  "serves_sensitive s d now h c req =
     (case authenticate (sv_auth s) (auth d) now h of
        (a, Inl _) \<Rightarrow> False
      | (a, Inr c') \<Rightarrow> c' = c \<and>
          (let d1 = d\<lparr>auth := a\<rparr>; done = (\<lambda>r. case r of Inl _ \<Rightarrow> False | Inr _ \<Rightarrow> True)
           in case req of
             Team (Account (Act h' x)) \<Rightarrow> h' = h \<and> sensitive x \<and> done (snd (act (sv_auth s) a now c h x))
           | Team (Set_role h' user r) \<Rightarrow> h' = h \<and> parse_role r = Some Admin
               \<and> (case snd (set_member_role (sv_auth s) d1 now c h user r) of Inr changed \<Rightarrow> changed | Inl _ \<Rightarrow> False)
           | Team (Rotate h' q) \<Rightarrow> h' = h \<and> rr_remove q \<noteq> None
               \<and> (case snd (rotate_org_key (sv_team s) d1 now c h q) of Inr _ \<Rightarrow> True | Inl _ \<Rightarrow> False)
           | Stock h' (Purge_profile _ f) \<Rightarrow> h' = h \<and> done (snd (purge_profile (sv_auth s) d1 now c h f))
           | _ \<Rightarrow> False))"

lemma commit_done: "(case snd (commit d r) of Inl _ \<Rightarrow> False | Inr _ \<Rightarrow> True) \<longleftrightarrow> (\<exists>x. r = Inr x)"
  by (auto simp: commit_def split: sum.splits)

lemma set_role_step_up:
  assumes "snd (set_member_role env d now c h user r) = Inr True" and "parse_role r = Some Admin"
  shows "require_step_up env (auth d) now c h = Inr ()"
proof -
  obtain d' where "set_member_role env d now c h user r = (d', Inr True)" using assms(1) by (cases "set_member_role env d now c h user r") simp
  then show ?thesis
    using assms(2) unfolding set_member_role_def commit_Inr Let_def and_then_Inr demand_Inr
    by (elim exE conjE) (simp split: option.splits if_splits)
qed

lemma rotate_step_up:
  assumes "snd (rotate_org_key env d now c h q) = Inr n" and "rr_remove q \<noteq> None"
  shows "require_step_up (auth_part env) (auth d) now c h = Inr ()"
  using assms by (auto simp: rotate_org_key_def commit_def map_sum_def split: sum.splits)

lemma purge_step_up: "snd (purge_profile env d now c h f) = Inr u \<Longrightarrow> require_step_up env (auth d) now c h = Inr ()"
  by (auto simp: purge_profile_def commit_def split: sum.splits)

lemma serves_sensitive_step_up:
  assumes "serves_sensitive s d now h c req"
  obtains a where "authenticate (sv_auth s) (auth d) now h = (a, Inr c)" "require_step_up (sv_auth s) a now c h = Inr ()"
proof -
  obtain a c' where au: "authenticate (sv_auth s) (auth d) now h = (a, Inr c')" "c' = c"
    using assms by (auto simp: serves_sensitive_def split: prod.splits sum.splits)
  have "require_step_up (sv_auth s) a now c h = Inr ()"
  proof (cases req)
    case (Team r)
    show ?thesis
    proof (cases r)
      case (Account x)
      then obtain y u where "sensitive y" "snd (act (sv_auth s) a now c h y) = Inr u"
        using assms au Team by (auto simp: serves_sensitive_def split: auth_request.splits sum.splits)
      then show ?thesis using act_sensitive [of "sv_auth s" a now c h y] by simp
    next
      case (Set_role h' user q)
      then show ?thesis
        using assms au Team set_role_step_up [of "sv_auth s" "d\<lparr>auth := a\<rparr>" now c h user q]
        by (auto simp: serves_sensitive_def split: sum.splits)
    next
      case (Rotate h' q)
      then show ?thesis
        using assms au Team rotate_step_up [of "sv_team s" "d\<lparr>auth := a\<rparr>" now c h q]
        by (auto simp: serves_sensitive_def split: sum.splits)
    qed (use assms au Team in \<open>simp_all add: serves_sensitive_def\<close>)
  next
    case (Stock h' r)
    then show ?thesis
      using assms au purge_step_up [of "sv_auth s" "d\<lparr>auth := a\<rparr>" now c h]
      by (auto simp: serves_sensitive_def split: inventory_request.splits sum.splits)
  qed (use assms au in \<open>simp add: serves_sensitive_def\<close>)
  then show thesis using that au by simp
qed

text \<open>
  C33. Where an organisation wants it, what can not be undone asks for a fresh code: over any run from a server
  with no session, a change of the policy, the revocation of a member's sessions, a member made an admin, a rotation
  that removes somebody and a purge are only served to a session for which, less than ten minutes before, an earlier
  event of the run presented that very token with a code that matched the enabled secret of the user signed in with it.
\<close>

theorem sensitive_actions_follow_a_fresh_code:
  assumes "au_sessions (auth d) = []" and "serves_sensitive s (run_server s d evs) now h c req"
    and "sensitive_actions_2fa (policy_of (auth (run_server s d evs)) (org_id c))"
  shows "\<exists>digest t. token_hash_from_headers (sv_auth s) h = Some digest \<and> now < t + 600
    \<and> (\<exists>pre ev post. evs = pre @ ev # post
        \<and> (\<exists>time r. ev = (time, Team (Account r)) \<and> verified_by (sv_auth s) (auth (run_server s d pre)) (time, r) digest t))"
proof -
  let ?d = "run_server s d evs"
  obtain a where au: "authenticate (sv_auth s) (auth ?d) now h = (a, Inr c)" "require_step_up (sv_auth s) a now c h = Inr ()"
    using serves_sensitive_step_up [OF assms(2)] by blast
  have "other_tables a = other_tables (auth ?d)" using authenticate_frame(3) [of "sv_auth s" "auth ?d" now h] au(1) by simp
  then have "policy_of a (org_id c) = policy_of (auth ?d) (org_id c)" by (simp add: policy_of_def other_tables_def)
  then obtain digest t where mark: "token_hash_from_headers (sv_auth s) h = Some digest" "has_mark a digest t" "now < t + step_up_window"
    using require_step_up_mark [OF au(2)] assms(3) by auto
  have "has_mark (auth ?d) digest t"
    using mark(2) authenticate_frame(2) [of "sv_auth s" "auth ?d" now h] au(1) by simp
  moreover have "\<not> has_mark (auth d) digest t" using assms(1) by (simp add: has_mark_def)
  moreover define P where "P d' ev \<longleftrightarrow> (\<exists>time r. ev = (time, Team (Account r)) \<and> verified_by (sv_auth s) (auth d') (time, r) digest t)"
    for d' :: team_db and ev
  have "has_mark (auth (serve_server s d' ev)) digest t \<Longrightarrow> has_mark (auth d') digest t \<or> P d' ev" for d' ev
    unfolding P_def by (rule serve_server_back(2))
  from server_events.caused [where K = "\<lambda>d. has_mark (auth d) digest t" and P = P, OF this]
  have "has_mark (auth ?d) digest t \<Longrightarrow> has_mark (auth d) digest t \<or> (\<exists>pre ev post. evs = pre @ ev # post \<and> P (run_server s d pre) ev)" .
  ultimately have "\<exists>pre ev post. evs = pre @ ev # post \<and> P (run_server s d pre) ev" by blast
  then show ?thesis using mark(1,3) unfolding P_def step_up_window_def by blast
qed

section \<open>A small server\<close>

definition server_1 :: server where
  "server_1 = \<lparr>sv_team = team_env_1, sv_locks = demo_env, sv_rules = ie_rules inventory_env_1, sv_max_profiles = Some 1,
     sv_sha256 = text_bytes\<rparr>"

definition lock_8 :: lock_row where
  "lock_8 = \<lparr>l_user = 8, l_token_hash = demo_hash ''t'', l_machine_name = ''desk'', l_machine_id = ''m'', l_expires_at = 90\<rparr>"

definition site_1 :: team_db where
  "site_1 = team_1\<lparr>store := store_1\<lparr>profiles := [(40, profile_1\<lparr>f_current_version := 1\<rparr>)], profile_locks := [(40, lock_8)],
     bundles := [\<lparr>b_profile = 40, b_version = 1, b_key = (40, 1), b_size = 1, b_sha256 = [], b_wrapped_dek = [], b_uploaded_by = 7\<rparr>],
     files := [((40, 1), [5])]\<rparr>\<rparr>"

text \<open>The owner asks for a profile a member has open, throws it away, and would empty the trash of another.\<close>

definition visits_1 :: "server_event list" where
  "visits_1 = [(5, Stock demo_bearer (Purge_profile [] 41)), (6, Locking demo_bearer (Acquire 40 (demo_ask False) ''z'')),
     (7, Stock demo_bearer (Trash_profile 40)), (60, Locking demo_bearer (Beat 40 None))]"

lemma site_1_simps:
  "map_of (profile_locks (store site_1)) 40 = Some lock_8" "l_expires_at lock_8 = 90" "l_user lock_8 = 8"
  "map_of (profiles (store site_1)) 41 = None" "store_ok (store site_1)"
  by (simp_all add: site_1_def lock_8_def store_1_def store_ok_def row_ok_def)

lemma visits_1_mild: "\<not> ended_in server_1 site_1 visits_1 40 lock_8" "\<not> purged_live server_1 site_1 visits_1"
  by (simp_all add: visits_1_def may_end_lock_def ends_lock_def purges_live_def demo_ask_def site_1_simps split: sum.split prod.split)

theorem live_lock_survives_any_run_witness:
  "\<exists>l'. map_of (profile_locks (store (run_server server_1 site_1 visits_1))) 40 = Some l'
     \<and> l_user l' = 8 \<and> 90 \<le> l_expires_at l'"
proof -
  have "\<forall>(now, _) \<in> set visits_1. 0 \<le> now \<and> now < l_expires_at lock_8" by (simp add: visits_1_def site_1_simps)
  from live_lock_survives_any_run [OF site_1_simps(1) _ this visits_1_mild(1)] show ?thesis
    by (auto simp: site_1_simps lock_ttl_def)
qed

theorem any_run_keeps_the_store_witness: "store_ok (store (run_server server_1 site_1 visits_1))"
  by (rule any_run_keeps_the_store [OF site_1_simps(5) visits_1_mild(2)])

definition sign_in_1 :: team_db where
  "sign_in_1 = team_1\<lparr>auth := demo_server\<rparr>"

abbreviation accounts :: "auth_event list \<Rightarrow> server_event list" where
  "accounts evs \<equiv> map (\<lambda>(t, r). (t, Team (Account r))) evs"

lemma sign_in_1_auth: "auth sign_in_1 = demo_server" "sv_auth server_1 = demo_auth"
  "au_sessions demo_server = []" "au_challenges demo_server = []"
  by (simp_all add: sign_in_1_def server_1_def team_env_1_def demo_server_def)

theorem every_session_has_its_origin_witness:
  "\<exists>pre ev post. accounts demo_run = pre @ ev # post
     \<and> opened_by server_1 (run_server server_1 sign_in_1 pre) ev (text_bytes ''2a'') 7"
proof -
  have "has_session (auth (run_server server_1 sign_in_1 (accounts demo_run))) (text_bytes ''2a'') 7"
    by (simp add: account_run sign_in_1_auth has_session_def demo_run_session demo_session_def)
  from every_session_has_its_origin [OF _ _ this] show ?thesis unfolding sign_in_1_auth by blast
qed

theorem sensitive_actions_follow_a_fresh_code_witness:
  "\<exists>digest t. token_hash_from_headers demo_auth demo_bearer = Some digest \<and> 40 < t + 600
    \<and> (\<exists>pre ev post. accounts demo_verified_run = pre @ ev # post
        \<and> (\<exists>time r. ev = (time, Team (Account r))
            \<and> verified_by demo_auth (auth (run_server server_1 sign_in_1 pre)) (time, r) digest t))"
proof -
  let ?c = "\<lparr>user_id = 7, org_id = 3, role = Owner\<rparr>" and ?d = "run_auth demo_auth demo_server demo_verified_run"
  have d: "auth (run_server server_1 sign_in_1 (accounts demo_verified_run)) = ?d"
    by (simp add: account_run sign_in_1_auth)
  have "snd (act demo_auth (fst (authenticate demo_auth ?d 40 demo_bearer)) 40 ?c demo_bearer (Put_policy default_policy)) = Inr ()"
    using demo_put by (simp add: answer_def demo_step_up)
  then have "serves_sensitive server_1 (run_server server_1 sign_in_1 (accounts demo_verified_run)) 40 demo_bearer ?c
      (Team (Account (Act demo_bearer (Put_policy default_policy))))"
    by (simp add: serves_sensitive_def d sign_in_1_auth demo_step_up)
  moreover have "sensitive_actions_2fa (policy_of ?d (org_id ?c))" by (simp add: demo_policy_read) (simp add: demo_policy_def)
  ultimately show ?thesis
    using sensitive_actions_follow_a_fresh_code [of sign_in_1 server_1 "accounts demo_verified_run" 40 demo_bearer ?c]
    unfolding sign_in_1_auth d by simp
qed

end
