(* ===== verification/Proxy_Lines.thy ===== *)
theory Proxy_Lines
  imports Prelude
begin

text \<open>
  Reading a pasted block of proxies (\<open>shared-rs/src/proxy_list.rs\<close>), the address the agent dials
  (\<open>parse_upstream\<close> of \<open>agent/src/main.rs\<close>) and the link between them. An error is its code; the
  sentence beside it is left out. A port is the natural number a \<open>u16\<close> holds.
\<close>

section \<open>Data\<close>

datatype shape = Url | HostPort | HostPortUserPass | AtSign | UserPassHostPort | HostPortAtUserPass

record parsed_proxy =
  pp_scheme :: str
  pp_host :: str
  pp_port :: nat
  pp_user :: "str option"
  pp_pass :: "str option"
  pp_shape :: shape

type_synonym 'a parsed = "str + 'a"

definition proxy_url :: "parsed_proxy \<Rightarrow> str" where
  "proxy_url p =
     (case (pp_user p, pp_pass p) of
        (Some u, Some w) \<Rightarrow> pp_scheme p @ ''://'' @ u @ '':'' @ w @ ''@'' @ pp_host p @ '':'' @ show_nat (pp_port p)
      | _ \<Rightarrow> pp_scheme p @ ''://'' @ pp_host p @ '':'' @ show_nat (pp_port p))"

section \<open>Fields\<close>

definition looks_like_host :: "str \<Rightarrow> bool" where
  "looks_like_host s \<longleftrightarrow>
     s \<noteq> [] \<and> (eq_ignore_case s ''localhost''
       \<or> CHR ''.'' \<in> set s \<and> list_all (\<lambda>c. is_alnum c \<or> c = CHR ''.'' \<or> c = CHR ''-'') s)"

definition normalise_scheme :: "str \<Rightarrow> str parsed" where
  "normalise_scheme scheme =
     (let s = lower (trim scheme)
      in if s = ''http'' then Inr ''http''
         else if s = ''https'' then Inr ''https''
         else if s = ''socks5'' \<or> s = ''socks5h'' then Inr ''socks5''
         else if s = ''socks4'' \<or> s = ''socks4a'' then Inl ''socks4''
         else Inl ''badScheme'')"

definition parse_port :: "str \<Rightarrow> nat parsed" where
  "parse_port s =
     (case parse_u16 (trim s) of
        None \<Rightarrow> Inl ''notANumber''
      | Some port \<Rightarrow> if port = 0 then Inl ''zeroPort'' else Inr port)"

text \<open>\<open>s.parse::<u16>().is_ok_and(|p| p != 0)\<close>: no white space here.\<close>

definition is_port :: "str \<Rightarrow> bool" where
  "is_port s = (case parse_u16 s of None \<Rightarrow> False | Some p \<Rightarrow> p \<noteq> 0)"

definition split_at_sign :: "str \<Rightarrow> (str option \<times> str option \<times> str) parsed" where
  "split_at_sign rest =
     (case rsplit_once (CHR ''@'') rest of
        None \<Rightarrow> Inr (None, None, rest)
      | Some (auth, hostport) \<Rightarrow>
          (case split_once (CHR '':'') auth of
             None \<Rightarrow> Inl ''badCredentials''
           | Some (u, p) \<Rightarrow> if u = [] then Inl ''emptyUsername'' else Inr (Some u, Some p, hostport)))"

definition split_host_port :: "str \<Rightarrow> (str \<times> nat) parsed" where
  "split_host_port hostport =
     (case strip_prefix ''['' hostport of
        Some inner \<Rightarrow>
          (case split_once (CHR '']'') inner of
             None \<Rightarrow> Inl ''unclosedBracket''
           | Some (host, rest) \<Rightarrow>
               (case strip_prefix '':'' rest of
                  None \<Rightarrow> Inl ''noPortV6''
                | Some port \<Rightarrow> and_then (parse_port port) (\<lambda>n. Inr (host, n))))
      | None \<Rightarrow>
          (case rsplit_once (CHR '':'') hostport of
             None \<Rightarrow> Inl ''noPort''
           | Some (host, port) \<Rightarrow>
               if host = [] then Inl ''emptyHost'' else and_then (parse_port port) (\<lambda>n. Inr (host, n))))"

definition split_colons :: "str \<Rightarrow> str list parsed" where
  "split_colons line =
     (if prefix ''['' line then and_then (split_host_port line) (\<lambda>(host, port). Inr [host, show_nat port])
      else Inr (map trim (split_on (CHR '':'') line)))"

section \<open>The shapes of one line\<close>

definition parse_url :: "str \<Rightarrow> str \<Rightarrow> parsed_proxy parsed" where
  "parse_url scheme rest =
     (let parts = splitn 4 (CHR '':'') rest
      in if CHR ''@'' \<notin> set rest \<and> \<not> prefix ''['' rest
            \<and> length parts = 4 \<and> is_port (parts ! 1) \<and> parts ! 0 \<noteq> []
         then and_then (parse_port (parts ! 1)) (\<lambda>port.
           Inr \<lparr>pp_scheme = scheme, pp_host = parts ! 0, pp_port = port, pp_user = Some (parts ! 2),
             pp_pass = Some (parts ! 3), pp_shape = Url\<rparr>)
         else and_then (split_at_sign rest) (\<lambda>(user, pass, hostport).
           and_then (split_host_port hostport) (\<lambda>(host, port).
           Inr \<lparr>pp_scheme = scheme, pp_host = host, pp_port = port, pp_user = user, pp_pass = pass,
             pp_shape = Url\<rparr>)))"

definition parse_at :: "str \<Rightarrow> parsed_proxy parsed" where
  "parse_at line =
     and_then (split_at_sign line) (\<lambda>(user, pass, hostport).
       case split_host_port hostport of
         Inr (host, port) \<Rightarrow>
           Inr \<lparr>pp_scheme = ''http'', pp_host = host, pp_port = port, pp_user = user, pp_pass = pass, pp_shape = AtSign\<rparr>
       | Inl e \<Rightarrow>
           (case split_once (CHR ''@'') line of
              None \<Rightarrow> Inl e
            | Some (front, back) \<Rightarrow>
                (case (split_host_port front, split_once (CHR '':'') back) of
                   (Inr (host, port), Some (u, p)) \<Rightarrow>
                     if u = [] then Inl e
                     else Inr \<lparr>pp_scheme = ''http'', pp_host = host, pp_port = port, pp_user = Some u, pp_pass = Some p,
                       pp_shape = HostPortAtUserPass\<rparr>
                 | _ \<Rightarrow> Inl e)))"

definition parse_colons :: "str \<Rightarrow> parsed_proxy parsed" where
  "parse_colons line =
     and_then (split_colons line) (\<lambda>parts.
       if parts \<noteq> [] \<and> has_ws (hd parts) then Inl ''spaceInHost''
       else if length parts = 2 then
         and_then (parse_port (parts ! 1)) (\<lambda>port.
           Inr \<lparr>pp_scheme = ''http'', pp_host = parts ! 0, pp_port = port, pp_user = None, pp_pass = None, pp_shape = HostPort\<rparr>)
       else if length parts = 4 then
         (if is_port (parts ! 1) then
            Inr \<lparr>pp_scheme = ''http'', pp_host = parts ! 0, pp_port = the (parse_u16 (parts ! 1)), pp_user = Some (parts ! 2),
              pp_pass = Some (parts ! 3), pp_shape = HostPortUserPass\<rparr>
          else if is_port (parts ! 3) \<and> looks_like_host (parts ! 2) then
            Inr \<lparr>pp_scheme = ''http'', pp_host = parts ! 2, pp_port = the (parse_u16 (parts ! 3)), pp_user = Some (parts ! 0),
              pp_pass = Some (parts ! 1), pp_shape = UserPassHostPort\<rparr>
          else if parse_u16 (parts ! 3) \<noteq> None then Inl ''reversed''
          else Inl ''notAPort'')
       else if length parts = 3 then Inl ''threeFields''
       else Inl ''wrongFieldCount'')"

definition parse_shapes :: "str \<Rightarrow> parsed_proxy parsed" where
  "parse_shapes line =
     (case split_once_str ''://'' line of
        Some (scheme, rest) \<Rightarrow> and_then (normalise_scheme scheme) (\<lambda>s. parse_url s rest)
      | None \<Rightarrow>
          let parts = splitn 4 (CHR '':'') line
          in if CHR ''@'' \<in> set line \<and> length parts = 4 \<and> looks_like_host (parts ! 0) \<and> is_port (parts ! 1)
                \<and> parts ! 2 \<noteq> [] \<and> CHR ''@'' \<notin> set (parts ! 2) \<and> CHR ''@'' \<in> set (parts ! 3)
             then and_then (parse_port (parts ! 1)) (\<lambda>port.
               Inr \<lparr>pp_scheme = ''http'', pp_host = parts ! 0, pp_port = port, pp_user = Some (parts ! 2),
                 pp_pass = Some (parts ! 3), pp_shape = HostPortUserPass\<rparr>)
             else if CHR ''@'' \<in> set line then parse_at line
             else parse_colons line)"

section \<open>One line, whatever separates its fields\<close>

definition header_names :: "str list" where
  "header_names = [''host'', ''ip'', ''address'', ''server'', ''proxy'']"

definition separator :: "char \<Rightarrow> bool" where
  "separator c \<longleftrightarrow> c = CHR '' '' \<or> c = CHR 0x09 \<or> c = CHR '';'' \<or> c = CHR ''|''"

definition word_end :: "char \<Rightarrow> bool" where
  "word_end c \<longleftrightarrow> c = CHR '' '' \<or> c = CHR 0x09 \<or> c = CHR '':''"

definition other_separators :: "str \<Rightarrow> str" where
  "other_separators line = join '':'' (List.filter (\<lambda>f. f \<noteq> []) (split_by separator line))"

definition csv_fields :: "str \<Rightarrow> str list" where
  "csv_fields line = map trim (split_on (CHR '','') line)"

definition is_csv :: "str \<Rightarrow> bool" where
  "is_csv line \<longleftrightarrow> CHR '','' \<in> set line \<and> CHR '':'' \<notin> set line \<and> \<not> contains_str ''://'' line"

text \<open>What the readers hand to one another has no more commas and is no longer.\<close>

lemma count_join: "count_list (join '':'' fs) (CHR '','') = sum_list (map (\<lambda>f. count_list f (CHR '','')) fs)"
  by (induction "'':''" fs rule: join.induct) auto

lemma join_length: "length (join '':'' fs) \<le> sum_list (map (\<lambda>f. Suc (length f)) fs) - 1"
  by (induction "'':''" fs rule: join.induct) auto

lemma split_by_length: "sum_list (map (\<lambda>f. Suc (length f)) (split_by P s)) = Suc (length s)"
  by (induction s) (auto split: list.splits)

lemma split_by_parts: "f \<in> set (split_by P s) \<Longrightarrow> c \<in> set f \<Longrightarrow> c \<in> set s \<and> \<not> P c"
proof (induction s arbitrary: f)
  case (Cons x xs)
  obtain g gs where xs: "split_by P xs = g # gs" by (cases "split_by P xs") auto
  show ?case
  proof (cases "f \<in> set (g # gs)")
    case True
    then show ?thesis using Cons.IH [of f] Cons.prems xs by auto
  next
    case False
    then show ?thesis using Cons.IH [of g] Cons.prems xs by (auto split: if_splits)
  qed
qed simp

lemma split_by_count: "sum_list (map (\<lambda>f. count_list f c) (split_by P s)) = count_list (List.filter (\<lambda>x. \<not> P x) s) c"
  by (induction s) (auto split: list.splits)

lemma trim_count: "count_list (trim s) c \<le> count_list s c"
proof -
  obtain u v where "s = u @ trim s @ v" using trim_sublist [of s] by (auto simp: sublist_def)
  then have "count_list s c = count_list u c + count_list (trim s) c + count_list v c" by (metis add.assoc count_list_append)
  then show ?thesis by simp
qed

lemma sum_filter_le: "sum_list (map (g :: str \<Rightarrow> nat) (List.filter P fs)) \<le> sum_list (map g fs)"
  by (induction fs) auto

lemma csv_shrinks:
  assumes "is_csv line"
  shows "count_list (join '':'' (csv_fields line)) (CHR '','') < count_list line (CHR '','')"
proof -
  have "CHR '','' \<notin> set f" if "f \<in> set (csv_fields line)" for f
    using that split_by_parts trim_set by (fastforce simp: csv_fields_def)
  then have "map (\<lambda>f. count_list f (CHR '','')) (csv_fields line) = map (\<lambda>_. 0) (csv_fields line)"
    by (simp add: count_list_0_iff)
  then have "sum_list (map (\<lambda>f. count_list f (CHR '','')) (csv_fields line)) = 0"
    by (simp only: sum_list_0)
  moreover have "count_list line (CHR '','') \<noteq> 0"
    using assms by (simp add: is_csv_def count_list_0_iff)
  ultimately show ?thesis unfolding count_join by linarith
qed

lemma other_separators_shrink:
  "count_list (other_separators line) (CHR '','') \<le> count_list line (CHR '','')"
  "length (other_separators line) \<le> length line"
proof -
  let ?fs = "List.filter (\<lambda>f. f \<noteq> []) (split_by separator line)"
  have "count_list (List.filter (\<lambda>x. \<not> separator x) line) (CHR '','') \<le> count_list line (CHR '','')"
    by (induction line) auto
  then show "count_list (other_separators line) (CHR '','') \<le> count_list line (CHR '','')"
    using sum_filter_le [of "\<lambda>f. count_list f (CHR '','')" "\<lambda>f. f \<noteq> []" "split_by separator line"]
    by (simp add: other_separators_def count_join split_by_count)
  have "length (other_separators line) \<le> sum_list (map (\<lambda>f. Suc (length f)) ?fs) - 1"
    unfolding other_separators_def by (rule join_length)
  also have "\<dots> \<le> sum_list (map (\<lambda>f. Suc (length f)) (split_by separator line)) - 1"
    by (rule diff_le_mono) (rule sum_filter_le)
  finally show "length (other_separators line) \<le> length line" by (simp add: split_by_length)
qed

lemma word_shrinks:
  assumes "split_once_by P line = Some (head, rest)"
  shows "count_list rest (CHR '','') \<le> count_list line (CHR '','') \<and> length rest < length line"
  using assms by (auto simp: split_once_by_Some)

text \<open>
  A second reading is taken only when the first fails, whose error is kept; the first word of a line
  is its scheme when the rest has none. \<open>parse_line\<close> and \<open>parse_strict\<close> call one another: a row of commas becomes the colon form, and a word in
  front is taken off. The commas, then the length, then which of the two decrease.
\<close>

definition or_else :: "'a parsed \<Rightarrow> 'a parsed \<Rightarrow> 'a parsed" where
  "or_else r r' = (case r of Inr x \<Rightarrow> Inr x | Inl e \<Rightarrow> (case r' of Inr x \<Rightarrow> Inr x | Inl _ \<Rightarrow> Inl e))"

definition with_scheme :: "str parsed \<Rightarrow> parsed_proxy parsed \<Rightarrow> parsed_proxy parsed" where
  "with_scheme s r =
     and_then s (\<lambda>scheme. and_then r (\<lambda>p.
       if pp_shape p \<noteq> Url then Inr (p\<lparr>pp_scheme := scheme, pp_shape := Url\<rparr>) else Inl []))"

function parse_line :: "str \<Rightarrow> parsed_proxy parsed" and parse_strict :: "str \<Rightarrow> parsed_proxy parsed" where
  "parse_line line =
     or_else
       (or_else (parse_strict line)
         (case split_once_by word_end (trim line) of
            None \<Rightarrow> Inl []
          | Some (head, rest) \<Rightarrow>
              if prefix ''//'' rest then Inl [] else with_scheme (normalise_scheme head) (parse_line rest)))
       (if \<not> contains_str ''://'' (trim line) \<and> CHR ''@'' \<notin> set (trim line) \<and> list_ex separator (trim line)
        then parse_strict (other_separators (trim line)) else Inl [])"
| "parse_strict line =
     (let t = trim line
      in if t = [] then Inl ''empty''
         else if is_csv t then
           (let fields = csv_fields t
            in if lower (hd fields) \<in> set header_names then Inl ''header''
               else if length fields = 2 \<or> length fields = 4 then parse_line (join '':'' fields)
               else Inl ''csv-fields'')
         else parse_shapes t)"
  by pat_completeness auto

termination
proof (relation "measures [case_sum (\<lambda>l. count_list l (CHR '','')) (\<lambda>l. count_list l (CHR '','')),
    case_sum length length, case_sum (\<lambda>_. 1) (\<lambda>_. 0)]", goal_cases)
  case 1
  then show ?case by simp
next
  case (2 line)
  then show ?case by simp
next
  case (3 line x head rest)
  then have "split_once_by word_end (trim line) = Some (head, rest)" by simp
  then show ?case
    using word_shrinks trim_count [of line "CHR '',''"] trim_length [of line] by fastforce
next
  case (4 line)
  then show ?case
    using other_separators_shrink [of "trim line"] trim_count [of line "CHR '',''"] trim_length [of line]
    by (simp, arith)
next
  case (5 line t fields)
  then show ?case
    using csv_shrinks [of "trim line"] trim_count [of line "CHR '',''"] by simp
qed

declare parse_line.simps [simp del] parse_strict.simps [simp del]

definition skipped_line :: "str \<Rightarrow> bool" where
  "skipped_line line \<longleftrightarrow> line = [] \<or> prefix ''#'' line \<or> prefix ''//'' line"

definition parse_block :: "str \<Rightarrow> (nat \<times> parsed_proxy parsed) list" where
  "parse_block text =
     List.map_filter (\<lambda>(i, raw). let line = trim raw in if skipped_line line then None else Some (i + 1, parse_line line))
       (enumerate 0 (str_lines text))"

section \<open>What an accepted line gives\<close>

definition proxy_ok :: "parsed_proxy \<Rightarrow> bool" where
  "proxy_ok p \<longleftrightarrow>
     pp_scheme p \<in> {''http'', ''https'', ''socks5''} \<and> 1 \<le> pp_port p \<and> pp_port p \<le> 65535
     \<and> CHR ''@'' \<notin> set (pp_host p)
     \<and> (case (pp_user p, pp_pass p) of
          (None, None) \<Rightarrow> True
        | (Some u, Some _) \<Rightarrow> CHR '':'' \<notin> set u
        | _ \<Rightarrow> False)"

lemma normalise_scheme_Inr: "normalise_scheme s = Inr t \<Longrightarrow> t \<in> {''http'', ''https'', ''socks5''}"
  by (auto simp: normalise_scheme_def Let_def split: if_splits)

lemma parse_port_Inr: "parse_port s = Inr n \<Longrightarrow> 1 \<le> n \<and> n \<le> 65535"
  by (auto simp: parse_port_def dest: parse_uint_bound split: option.splits if_splits)

lemma is_port_value: "is_port s \<Longrightarrow> 1 \<le> the (parse_u16 s) \<and> the (parse_u16 s) \<le> 65535"
  by (auto simp: is_port_def dest: parse_uint_bound split: option.splits)

lemma splitn_4:
  assumes "length (splitn 4 c s) = 4"
  obtains a b d e where "splitn 4 c s = [a, b, d, e]" and "s = a @ c # b @ c # d @ c # e"
    and "c \<notin> set a" "c \<notin> set b" "c \<notin> set d"
proof -
  from assms obtain a b d e where s: "s = a @ c # b @ c # d @ c # e" "c \<notin> set a" "c \<notin> set b" "c \<notin> set d"
    by (auto simp: eval_nat_numeral split_once_Some split: option.splits prod.splits)
  then have "splitn 4 c s = [a, b, d, e]"
    by (simp add: eval_nat_numeral split_once_append)
  with s show thesis by (intro that)
qed

lemma split_host_port_Inr:
  assumes "split_host_port hp = Inr (h, n)"
  shows "1 \<le> n \<and> n \<le> 65535 \<and> set h \<subseteq> set hp"
  using assms
  by (auto simp: split_host_port_def strip_prefix_def split_once_Some rsplit_once_Some prefix_def
      dest: parse_port_Inr split: option.splits if_splits prod.splits)

lemma split_at_sign_Inr:
  assumes "split_at_sign s = Inr (u, p, hp)"
  shows "CHR ''@'' \<notin> set hp \<and> (case (u, p) of (None, None) \<Rightarrow> True | (Some v, Some _) \<Rightarrow> CHR '':'' \<notin> set v | _ \<Rightarrow> False)"
  using assms
  by (auto simp: split_at_sign_def split_once_Some rsplit_once_Some rsplit_once_None split: option.splits if_splits prod.splits)

lemma no_at_in_host:
  assumes "looks_like_host s"
  shows "CHR ''@'' \<notin> set s"
proof
  assume at_sign: "CHR ''@'' \<in> set s"
  then have "to_lower (CHR ''@'') \<in> set (lower s)" by (simp add: lower_def)
  moreover have "to_lower (CHR ''@'') = CHR ''@''" by code_simp
  moreover have "lower ''localhost'' = ''localhost''" by code_simp
  ultimately have "\<not> eq_ignore_case s ''localhost''" by (auto simp: eq_ignore_case_def)
  then have "list_all (\<lambda>c. is_alnum c \<or> c = CHR ''.'' \<or> c = CHR ''-'') s" using assms by (simp add: looks_like_host_def)
  then show False
    using at_sign by (auto simp: list_all_iff is_alnum_def is_digit_def is_upper_def is_lower_def)
qed

lemma parse_url_ok:
  assumes "parse_url s rest = Inr p" and "s \<in> {''http'', ''https'', ''socks5''}"
  shows "proxy_ok p"
proof (cases "CHR ''@'' \<notin> set rest \<and> \<not> prefix ''['' rest \<and> length (splitn 4 (CHR '':'') rest) = 4
    \<and> is_port (splitn 4 (CHR '':'') rest ! 1) \<and> splitn 4 (CHR '':'') rest ! 0 \<noteq> []")
  case True
  then obtain a b d e where "splitn 4 (CHR '':'') rest = [a, b, d, e]" "rest = a @ CHR '':'' # b @ CHR '':'' # d @ CHR '':'' # e"
    and "CHR '':'' \<notin> set d"
    using splitn_4 by metis
  then show ?thesis
    using assms True by (auto simp: parse_url_def Let_def proxy_ok_def dest: parse_port_Inr)
next
  case False
  then obtain user pass hp h n where at_sign: "split_at_sign rest = Inr (user, pass, hp)" and hp: "split_host_port hp = Inr (h, n)"
    and p: "p = \<lparr>pp_scheme = s, pp_host = h, pp_port = n, pp_user = user, pp_pass = pass, pp_shape = Url\<rparr>"
    using assms(1) by (auto simp: parse_url_def Let_def split: prod.splits)
  then show ?thesis
    using assms(2) split_at_sign_Inr [OF at_sign] split_host_port_Inr [OF hp] by (auto simp: proxy_ok_def)
qed

lemma parse_at_ok:
  assumes "parse_at line = Inr p"
  shows "proxy_ok p"
proof -
  from assms obtain user pass hp where at_sign: "split_at_sign line = Inr (user, pass, hp)"
    by (auto simp: parse_at_def)
  show ?thesis
  proof (cases "split_host_port hp")
    case (Inr r)
    then show ?thesis
      using assms at_sign split_at_sign_Inr [OF at_sign] split_host_port_Inr [of hp "fst r" "snd r"]
      by (cases r) (auto simp: parse_at_def proxy_ok_def split: option.splits)
  next
    case (Inl e)
    then obtain front rest h n u w where "split_once (CHR ''@'') line = Some (front, rest)"
      and hp: "split_host_port front = Inr (h, n)" and u: "split_once (CHR '':'') rest = Some (u, w)"
      and p: "p = \<lparr>pp_scheme = ''http'', pp_host = h, pp_port = n, pp_user = Some u, pp_pass = Some w,
        pp_shape = HostPortAtUserPass\<rparr>"
      using assms at_sign
      by (auto simp: parse_at_def split: option.splits sum.splits prod.splits if_splits)
    then show ?thesis
      using split_host_port_Inr [OF hp] by (auto simp: proxy_ok_def split_once_Some)
  qed
qed

lemma split_colons_parts:
  assumes "split_colons line = Inr parts" and "CHR ''@'' \<notin> set line" and "f \<in> set parts"
  shows "CHR ''@'' \<notin> set f \<and> (length parts = 4 \<longrightarrow> CHR '':'' \<notin> set f)"
proof (cases "prefix ''['' line")
  case True
  then obtain h n where hp: "split_host_port line = Inr (h, n)" and "parts = [h, show_nat n]"
    using assms(1) by (auto simp: split_colons_def)
  moreover have "CHR ''@'' \<notin> set (show_nat n)"
    using show_nat_digits [of n] by (auto simp: list_all_iff is_digit_def)
  ultimately show ?thesis
    using split_host_port_Inr [OF hp] assms(2,3) by auto
next
  case False
  then have parts: "parts = map trim (split_on (CHR '':'') line)" using assms(1) by (auto simp: split_colons_def)
  then obtain g where g: "g \<in> set (split_on (CHR '':'') line)" "f = trim g" using assms(3) by auto
  then have "set f \<subseteq> set g" by (simp add: trim_set)
  then show ?thesis using split_by_parts [OF g(1)] assms(2) by auto
qed

lemma parse_colons_ok:
  assumes "parse_colons line = Inr p" and "CHR ''@'' \<notin> set line"
  shows "proxy_ok p"
proof -
  from assms(1) obtain parts where parts: "split_colons line = Inr parts" by (auto simp: parse_colons_def)
  have field: "CHR ''@'' \<notin> set (parts ! i) \<and> (length parts = 4 \<longrightarrow> CHR '':'' \<notin> set (parts ! i))" if "i < length parts" for i
    using split_colons_parts [OF parts assms(2)] that by simp
  have "CHR ''@'' \<notin> set (parts ! 0)" if "length parts = 2 \<or> length parts = 4"
    using field [of 0] that by (cases parts) auto
  moreover have "CHR '':'' \<notin> set (parts ! 0) \<and> CHR '':'' \<notin> set (parts ! 2) \<and> CHR ''@'' \<notin> set (parts ! 2)" if "length parts = 4"
    using field [of 0] field [of 2] that by (cases parts) auto
  ultimately show ?thesis
    using assms(1) parts is_port_value [of "parts ! 1"] is_port_value [of "parts ! 3"]
    by (auto simp: parse_colons_def proxy_ok_def dest: parse_port_Inr split: if_splits)
qed

lemma parse_shapes_ok:
  assumes "parse_shapes line = Inr p"
  shows "proxy_ok p"
proof (cases "split_once_str ''://'' line")
  case (Some r)
  then show ?thesis
    using assms parse_url_ok normalise_scheme_Inr by (cases r) (auto simp: parse_shapes_def)
next
  case None
  let ?parts = "splitn 4 (CHR '':'') line"
  let ?c = "CHR ''@'' \<in> set line \<and> length ?parts = 4 \<and> looks_like_host (?parts ! 0) \<and> is_port (?parts ! 1)
    \<and> ?parts ! 2 \<noteq> [] \<and> CHR ''@'' \<notin> set (?parts ! 2) \<and> CHR ''@'' \<in> set (?parts ! 3)"
  show ?thesis
  proof (cases ?c)
    case True
    then obtain a b d e where parts: "?parts = [a, b, d, e]" and "CHR '':'' \<notin> set d"
      using splitn_4 by metis
    moreover have "CHR ''@'' \<notin> set a" using True parts no_at_in_host by simp
    ultimately show ?thesis
      using assms None True by (auto simp: parse_shapes_def Let_def proxy_ok_def dest: parse_port_Inr)
  next
    case False
    then show ?thesis
      using assms None parse_at_ok parse_colons_ok by (auto simp: parse_shapes_def Let_def split: if_splits)
  qed
qed

lemma or_else_Inr: "or_else r r' = Inr x \<longleftrightarrow> r = Inr x \<or> (\<exists>e. r = Inl e) \<and> r' = Inr x"
  by (auto simp: or_else_def split: sum.splits)

lemma with_scheme_ok:
  assumes "with_scheme s r = Inr p" and "\<And>t. s = Inr t \<Longrightarrow> t \<in> {''http'', ''https'', ''socks5''}" and "\<And>q. r = Inr q \<Longrightarrow> proxy_ok q"
  shows "proxy_ok p"
proof -
  from assms(1) obtain t q where "s = Inr t" "r = Inr q" "p = q\<lparr>pp_scheme := t, pp_shape := Url\<rparr>"
    by (auto simp: with_scheme_def split: if_splits)
  then show ?thesis using assms(2) [of t] assms(3) [of q] by (simp add: proxy_ok_def)
qed

lemma accepted_lines:
  shows "\<forall>p. parse_line line = Inr p \<longrightarrow> proxy_ok p" and "\<forall>p. parse_strict row = Inr p \<longrightarrow> proxy_ok p"
proof (induction line and row rule: parse_line_parse_strict.induct)
  case (1 line)
  show ?case
  proof (intro allI impI)
    fix p assume "parse_line line = Inr p"
    then consider "parse_strict line = Inr p"
      | head rest where "split_once_by word_end (trim line) = Some (head, rest)" "\<not> prefix ''//'' rest"
          "with_scheme (normalise_scheme head) (parse_line rest) = Inr p"
      | "\<not> contains_str ''://'' (trim line) \<and> CHR ''@'' \<notin> set (trim line) \<and> list_ex separator (trim line)"
          "parse_strict (other_separators (trim line)) = Inr p"
      unfolding parse_line.simps [of line] or_else_Inr by (auto split: option.splits if_splits)
    then show "proxy_ok p"
    proof cases
      case (2 head rest)
      then show ?thesis using with_scheme_ok normalise_scheme_Inr 1(2) [OF 2(1) refl 2(2)] by metis
    qed (use 1 in blast)+
  qed
next
  case (2 row)
  show ?case
  proof (intro allI impI)
    fix p assume "parse_strict row = Inr p"
    then consider "is_csv (trim row)" "parse_line (join '':'' (csv_fields (trim row))) = Inr p" "trim row \<noteq> []"
        "lower (hd (csv_fields (trim row))) \<notin> set header_names" "length (csv_fields (trim row)) = 2 \<or> length (csv_fields (trim row)) = 4"
      | "parse_shapes (trim row) = Inr p"
      unfolding parse_strict.simps [of row] Let_def by (auto split: if_splits)
    then show "proxy_ok p"
      by cases (use 2 parse_shapes_ok in blast)+
  qed
qed

section \<open>The proxy the agent dials\<close>

text \<open>The address of \<open>relay.rs\<close>; what a WireGuard secret reads as is an argument.\<close>

datatype 'w upstream =
    Direct
  | Http str nat "(str \<times> str) option"
  | Socks5 str nat "(str \<times> str) option"
  | WireGuard 'w

definition parse_upstream :: "(str \<Rightarrow> 'w option) \<Rightarrow> str \<Rightarrow> 'w upstream option" where
  "parse_upstream from_url_secret url =
     (if url = ''direct'' \<or> url = ''direct://'' then Some Direct
      else (case split_once_str ''://'' url of
          None \<Rightarrow> None
        | Some (scheme, rest) \<Rightarrow>
            (case (case rsplit_once (CHR ''@'') rest of
                 Some (a, hp) \<Rightarrow> map_option (\<lambda>(u, p). (Some (u, p), hp)) (split_once (CHR '':'') a)
               | None \<Rightarrow> Some (None, rest)) of
               None \<Rightarrow> None
             | Some (auth, hostport) \<Rightarrow>
                 (case rsplit_once (CHR '':'') hostport of
                    None \<Rightarrow> None
                  | Some (host, port) \<Rightarrow>
                      (case parse_u16 port of
                         None \<Rightarrow> None
                       | Some n \<Rightarrow>
                           if scheme = ''http'' \<or> scheme = ''https'' then Some (Http host n auth)
                           else if scheme = ''socks5'' \<or> scheme = ''socks5h'' then Some (Socks5 host n auth)
                           else if scheme = ''wireguard'' then
                             (case auth of None \<Rightarrow> None | Some (_, p) \<Rightarrow> map_option WireGuard (from_url_secret p))
                           else None)))))"

definition login_of :: "parsed_proxy \<Rightarrow> (str \<times> str) option" where
  "login_of p = (case (pp_user p, pp_pass p) of (Some u, Some w) \<Rightarrow> Some (u, w) | _ \<Rightarrow> None)"

lemma rsplit_once_append: "c \<notin> set b \<Longrightarrow> rsplit_once c (a @ c # b) = Some (a, b)"
  by (simp add: rsplit_once_Some)

lemma show_nat_no: "c \<in> {CHR '':'', CHR ''@''} \<Longrightarrow> c \<notin> set (show_nat n)"
  using show_nat_digits [of n] by (auto simp: list_all_iff is_digit_def)

lemma scheme_first:
  assumes "scheme \<in> {''http'', ''https'', ''socks5''}"
  shows "split_once_str ''://'' (scheme @ ''://'' @ rest) = Some (scheme, rest)"
    and "contains_str ''://'' (scheme @ ''://'' @ rest)"
    and "normalise_scheme scheme = Inr scheme"
proof -
  show "split_once_str ''://'' (scheme @ ''://'' @ rest) = Some (scheme, rest)" "contains_str ''://'' (scheme @ ''://'' @ rest)"
    using assms by auto
  have "normalise_scheme ''http'' = Inr ''http''" "normalise_scheme ''https'' = Inr ''https''" "normalise_scheme ''socks5'' = Inr ''socks5''"
    by code_simp+
  then show "normalise_scheme scheme = Inr scheme" using assms by auto
qed

text \<open>The string a proxy is handed on as, with its login or without.\<close>

lemma proxy_url_cases:
  assumes "proxy_ok p"
  obtains u w where "login_of p = Some (u, w)" and "pp_user p = Some u" and "pp_pass p = Some w" and "CHR '':'' \<notin> set u"
      and "proxy_url p = pp_scheme p @ ''://'' @ (u @ CHR '':'' # w) @ CHR ''@'' # pp_host p @ CHR '':'' # show_nat (pp_port p)"
    | "login_of p = None" and "pp_user p = None" and "pp_pass p = None"
      and "proxy_url p = pp_scheme p @ ''://'' @ pp_host p @ CHR '':'' # show_nat (pp_port p)"
  using assms
  by (cases "pp_user p"; cases "pp_pass p") (auto simp: proxy_ok_def proxy_url_def login_of_def)

text \<open>
  C39. What is imported is what is dialled: the address written for a line that was accepted, in
  whatever shape it came, is dialled as a proxy of its kind at its host and port with its login. An
  address with the scheme \<open>https\<close> is dialled as a plain HTTP proxy.
\<close>

theorem imported_proxies_are_dialled:
  assumes "parse_line line = Inr p"
  shows "parse_upstream from_url_secret (proxy_url p) =
    Some ((if pp_scheme p = ''socks5'' then Socks5 else Http) (pp_host p) (pp_port p) (login_of p))"
proof -
  have ok: "proxy_ok p" using accepted_lines(1) assms by blast
  then have scheme: "pp_scheme p \<in> {''http'', ''https'', ''socks5''}" and port: "parse_u16 (show_nat (pp_port p)) = Some (pp_port p)"
    and hp: "CHR ''@'' \<notin> set (pp_host p @ CHR '':'' # show_nat (pp_port p))"
    by (auto simp: proxy_ok_def parse_uint_show_nat show_nat_no)
  have direct: "pp_scheme p @ ''://'' @ r \<noteq> ''direct''" "pp_scheme p @ ''://'' @ r \<noteq> ''direct://''" for r
    using scheme by auto
  have host: "rsplit_once (CHR '':'') (pp_host p @ CHR '':'' # show_nat (pp_port p)) = Some (pp_host p, show_nat (pp_port p))"
    by (rule rsplit_once_append) (simp add: show_nat_no)
  from ok show ?thesis
  proof (cases rule: proxy_url_cases)
    case (1 u w)
    then show ?thesis
      using scheme rsplit_once_append [OF hp, of "u @ CHR '':'' # w"]
      unfolding 1(5) parse_upstream_def scheme_first(1) [OF scheme]
      by (auto simp: split_once_append host port)
  next
    case 2
    then show ?thesis
      using scheme hp
      unfolding 2(4) parse_upstream_def scheme_first(1) [OF scheme]
      by (auto simp: rsplit_once_None [THEN iffD2] host port)
  qed
qed

section \<open>Reading what was written\<close>

lemma show_nat_trim: "trim (show_nat n) = show_nat n"
  using show_nat_digits [of n] by (intro trim_graphic) (auto simp: list_all_iff is_digit_def graphic_def)

lemma trim_url:
  assumes "scheme \<in> {''http'', ''https'', ''socks5''}"
  shows "trim (scheme @ rest @ show_nat n) = scheme @ rest @ show_nat n"
proof (rule trim_id)
  have "graphic CHR ''h''" "graphic CHR ''s''" by (simp_all add: graphic_def)
  then show "ws_head (scheme @ rest @ show_nat n) = 0" using assms by (auto simp: ws_head_graphic)
  have "is_digit (last (show_nat n))"
    using show_nat_digits [of n] last_in_set [OF show_nat_not_Nil, of n] unfolding list_all_iff by blast
  then have "graphic (last (show_nat n))" by (simp add: is_digit_def graphic_def)
  then show "ws_last (scheme @ rest @ show_nat n) = 0"
    using ws_last_graphic [of "last (show_nat n)" "scheme @ rest @ butlast (show_nat n)"] by simp
qed

lemma parse_strict_shapes: "trim s = s \<Longrightarrow> contains_str ''://'' s \<Longrightarrow> s \<noteq> [] \<Longrightarrow> parse_strict s = parse_shapes s"
  by (simp add: parse_strict.simps [of s] is_csv_def)

lemma written_host_port:
  assumes "host \<noteq> []" and "\<not> prefix ''['' host" and "1 \<le> n" and "n \<le> 65535"
  shows "split_host_port (host @ CHR '':'' # show_nat n) = Inr (host, n)"
proof -
  have "\<not> prefix ''['' (host @ CHR '':'' # show_nat n)" using assms(1,2) by (cases host) auto
  moreover have "rsplit_once (CHR '':'') (host @ CHR '':'' # show_nat n) = Some (host, show_nat n)"
    by (rule rsplit_once_append) (simp add: show_nat_no)
  moreover have "parse_port (show_nat n) = Inr n"
    using assms(3,4) by (simp add: parse_port_def show_nat_trim parse_uint_show_nat)
  ultimately show ?thesis using assms(1) by (simp add: split_host_port_def strip_prefix_def)
qed

text \<open>
  The address written for an accepted line reads back as the same proxy, as a URL, when its host
  has no bracket in front and, without a login, no colon.
\<close>

theorem written_proxies_read_back:
  assumes "parse_line line = Inr p" and "pp_host p \<noteq> []" and "\<not> prefix ''['' (pp_host p)"
    and "case pp_user p of None \<Rightarrow> CHR '':'' \<notin> set (pp_host p) | Some u \<Rightarrow> u \<noteq> []"
  shows "parse_line (proxy_url p) = Inr (p\<lparr>pp_shape := Url\<rparr>)"
proof -
  have ok: "proxy_ok p" using accepted_lines(1) assms(1) by blast
  then have scheme: "pp_scheme p \<in> {''http'', ''https'', ''socks5''}"
    and hp: "split_host_port (pp_host p @ CHR '':'' # show_nat (pp_port p)) = Inr (pp_host p, pp_port p)"
    and no_at: "CHR ''@'' \<notin> set (pp_host p @ CHR '':'' # show_nat (pp_port p))"
    using written_host_port [OF assms(2,3)] by (auto simp: proxy_ok_def show_nat_no)
  have read: "parse_line (pp_scheme p @ ''://'' @ rest) = parse_url (pp_scheme p) rest"
    if "trim (pp_scheme p @ ''://'' @ rest) = pp_scheme p @ ''://'' @ rest" "parse_url (pp_scheme p) rest = Inr q" for rest q
  proof -
    have "parse_shapes (pp_scheme p @ ''://'' @ rest) = parse_url (pp_scheme p) rest"
      unfolding parse_shapes_def scheme_first(1) [OF scheme] by (simp add: scheme_first(3) [OF scheme] and_then_def)
    moreover have "pp_scheme p @ ''://'' @ rest \<noteq> []" by simp
    ultimately have "parse_strict (pp_scheme p @ ''://'' @ rest) = Inr q"
      using parse_strict_shapes [OF that(1) scheme_first(2) [OF scheme]] that(2) by simp
    then show ?thesis using that(2) by (subst parse_line.simps) (simp add: or_else_def)
  qed
  from ok show ?thesis
  proof (cases rule: proxy_url_cases)
    case (1 u w)
    let ?rest = "(u @ CHR '':'' # w) @ CHR ''@'' # pp_host p @ CHR '':'' # show_nat (pp_port p)"
    have "u \<noteq> []" using assms(4) 1 by simp
    then have "split_at_sign ?rest = Inr (Some u, Some w, pp_host p @ CHR '':'' # show_nat (pp_port p))"
      using 1 unfolding split_at_sign_def rsplit_once_append [OF no_at] by (simp add: split_once_append)
    then have "parse_url (pp_scheme p) ?rest = Inr (p\<lparr>pp_shape := Url\<rparr>)"
      using hp 1 by (simp add: parse_url_def and_then_def)
    then show ?thesis
      using read trim_url [OF scheme, of "''://'' @ (u @ CHR '':'' # w) @ CHR ''@'' # pp_host p @ '':''"] unfolding 1(5) by simp
  next
    case 2
    let ?rest = "pp_host p @ CHR '':'' # show_nat (pp_port p)"
    have "CHR '':'' \<notin> set (pp_host p)" using assms(4) 2 by simp
    then have "splitn 4 (CHR '':'') ?rest = [pp_host p, show_nat (pp_port p)]"
      using split_once_None [of "CHR '':''" "show_nat (pp_port p)"]
      by (simp add: eval_nat_numeral split_once_append show_nat_no)
    moreover have "split_at_sign ?rest = Inr (None, None, ?rest)"
      by (simp only: split_at_sign_def rsplit_once_None [THEN iffD2, OF no_at] option.case)
    ultimately have "parse_url (pp_scheme p) ?rest = Inr (p\<lparr>pp_shape := Url\<rparr>)"
      using hp 2 by (simp add: parse_url_def and_then_def)
    then show ?thesis
      using read trim_url [OF scheme, of "''://'' @ pp_host p @ '':''"] unfolding 2(4) by simp
  qed
qed

section \<open>Four fields\<close>

definition plain_field :: "str \<Rightarrow> bool" where
  "plain_field f \<longleftrightarrow> f \<noteq> [] \<and> list_all (\<lambda>c. graphic c \<and> c \<notin> set '':@/['') f"

lemma graphic_no_ws: "list_all graphic s \<Longrightarrow> \<not> has_ws s"
  by (induction s) (auto simp: ws_head_graphic)

lemma no_scheme: "CHR ''/'' \<notin> set s \<Longrightarrow> split_once_str ''://'' s = None"
  by (induction s) (auto simp: prefix_def)

lemma plain_fieldD:
  assumes "plain_field f"
  shows "CHR '':'' \<notin> set f \<and> CHR ''@'' \<notin> set f \<and> CHR ''/'' \<notin> set f \<and> CHR ''['' \<notin> set f \<and> f \<noteq> [] \<and> list_all graphic f"
proof -
  have "\<forall>c \<in> set f. c \<notin> set '':@/[''" "f \<noteq> []" "list_all graphic f"
    using assms by (auto simp only: plain_field_def list_all_iff)
  then show ?thesis by auto
qed

definition four_fields :: "str \<Rightarrow> str \<Rightarrow> str \<Rightarrow> str \<Rightarrow> parsed_proxy parsed" where
  "four_fields a b c d =
     (if is_port b then Inr \<lparr>pp_scheme = ''http'', pp_host = a, pp_port = the (parse_u16 b), pp_user = Some c, pp_pass = Some d,
         pp_shape = HostPortUserPass\<rparr>
      else if is_port d \<and> looks_like_host c then Inr \<lparr>pp_scheme = ''http'', pp_host = c, pp_port = the (parse_u16 d),
         pp_user = Some a, pp_pass = Some b, pp_shape = UserPassHostPort\<rparr>
      else if parse_u16 d \<noteq> None then Inl ''reversed'' else Inl ''notAPort'')"

lemma strict_four_fields:
  assumes "list_all plain_field [a, b, c, d]"
  shows "parse_strict (a @ '':'' @ b @ '':'' @ c @ '':'' @ d) = four_fields a b c d"
proof -
  let ?l = "a @ CHR '':'' # b @ CHR '':'' # c @ CHR '':'' # d"
  have plain: "CHR '':'' \<notin> set f \<and> CHR ''@'' \<notin> set f \<and> CHR ''/'' \<notin> set f \<and> CHR ''['' \<notin> set f \<and> f \<noteq> [] \<and> list_all graphic f"
    if "f \<in> {a, b, c, d}" for f
    using assms that by (intro plain_fieldD) auto
  have colon: "graphic (CHR '':'')" by (simp add: graphic_def)
  have "list_all graphic f" if "f \<in> {a, b, c, d}" for f using plain [OF that] by blast
  then have g: "list_all graphic ?l" using colon by simp
  then have t: "trim ?l = ?l" by (intro trim_graphic) (auto simp: list_all_iff)
  have f: "trim f = f" if "f \<in> {a, b, c, d}" for f
    using plain [OF that] by (intro trim_graphic) (auto simp: list_all_iff)
  have "split_on (CHR '':'') ?l = [a, b, c, d]"
    using plain [of a] plain [of b] plain [of c] plain [of d]
    by (subst split_by_append split_by_single; (auto)[1])+
  moreover have "\<not> prefix ''['' ?l" using plain [of a] by (cases a) auto
  ultimately have fields: "split_colons ?l = Inr [a, b, c, d]" using f by (simp add: split_colons_def)
  have "\<not> has_ws a" using plain [of a] graphic_no_ws by blast
  moreover have "split_once_str ''://'' ?l = None" by (rule no_scheme) (use plain in auto)
  moreover have "CHR ''@'' \<notin> set ?l" using plain by auto
  ultimately have "parse_shapes ?l = four_fields a b c d"
    by (simp add: parse_shapes_def parse_colons_def fields and_then_def four_fields_def)
  then show ?thesis
    by (subst parse_strict.simps) (simp add: t is_csv_def)
qed

lemma parse_line_strict: "parse_strict line = Inr p \<Longrightarrow> parse_line line = Inr p"
  by (subst parse_line.simps) (simp add: or_else_def)

text \<open>
  Four plain fields between colons are read in one way: host and port first if the second is a port,
  the login first if it is not and the last two can be host and port.
\<close>

theorem four_fields_have_one_reading:
  assumes "list_all plain_field [a, b, c, d]"
  shows "(is_port b \<longrightarrow> parse_line (a @ '':'' @ b @ '':'' @ c @ '':'' @ d) =
      Inr \<lparr>pp_scheme = ''http'', pp_host = a, pp_port = the (parse_u16 b), pp_user = Some c, pp_pass = Some d,
        pp_shape = HostPortUserPass\<rparr>)
    \<and> (\<not> is_port b \<and> is_port d \<and> looks_like_host c \<longrightarrow> parse_line (a @ '':'' @ b @ '':'' @ c @ '':'' @ d) =
      Inr \<lparr>pp_scheme = ''http'', pp_host = c, pp_port = the (parse_u16 d), pp_user = Some a, pp_pass = Some b,
        pp_shape = UserPassHostPort\<rparr>)"
  using strict_four_fields [OF assms] parse_line_strict [of "a @ '':'' @ b @ '':'' @ c @ '':'' @ d"]
  by (auto simp: four_fields_def)

section \<open>A block of lines\<close>

text \<open>
  Every line of a pasted block that is neither empty nor a comment is reported once, under its own
  number, read or refused, and nothing else is.
\<close>

theorem block_reports_every_line:
  "parse_block text =
     map (\<lambda>i. (i + 1, parse_line (trim (str_lines text ! i))))
       (List.filter (\<lambda>i. \<not> skipped_line (trim (str_lines text ! i))) [0..<length (str_lines text)])"
proof -
  have rows: "enumerate 0 xs = map (\<lambda>i. (i, xs ! i)) [0..<length xs]" for xs :: "str list"
    by (rule nth_equalityI) (simp_all add: nth_enumerate_eq)
  have "List.map_filter f (map g is) = map (\<lambda>i. the (f (g i))) (List.filter (\<lambda>i. f (g i) \<noteq> None) is)"
    for f :: "nat \<times> str \<Rightarrow> (nat \<times> parsed_proxy parsed) option" and g :: "nat \<Rightarrow> nat \<times> str" and "is"
    by (induction "is") (auto simp: map_filter_def)
  then show ?thesis
    unfolding parse_block_def rows by (simp add: Let_def cong: filter_cong map_cong)
qed

section \<open>Examples\<close>

lemma demo_ports: "parse_u16 ''1080'' = Some 1080" "parse_u16 ''470'' = Some 470" "parse_u16 ''80'' = Some 80"
  by (simp_all add: parse_uint_def unsigned_digits_def is_digit_def)

definition demo_proxy_line :: parsed_proxy where
  "demo_proxy_line = \<lparr>pp_scheme = ''http'', pp_host = ''gw'', pp_port = 1080, pp_user = Some ''bob'',
    pp_pass = Some ''pw'', pp_shape = HostPortUserPass\<rparr>"

lemma demo_plain: "list_all plain_field [''gw'', ''1080'', ''bob'', ''pw'']"
  by code_simp

lemma demo_line: "parse_line ''gw:1080:bob:pw'' = Inr demo_proxy_line"
  using strict_four_fields [OF demo_plain]
  by (intro parse_line_strict) (simp add: four_fields_def is_port_def demo_ports demo_proxy_line_def)

theorem four_fields_have_one_reading_witness:
  "parse_line ''gw:1080:bob:pw'' = Inr demo_proxy_line"
  using four_fields_have_one_reading [OF demo_plain] by (simp add: is_port_def demo_ports demo_proxy_line_def)

theorem imported_proxies_are_dialled_witness:
  "parse_upstream (\<lambda>_. None :: unit option) (proxy_url demo_proxy_line) = Some (Http ''gw'' 1080 (Some (''bob'', ''pw'')))"
  using imported_proxies_are_dialled [OF demo_line, of "\<lambda>_. None :: unit option"] by (simp add: demo_proxy_line_def login_of_def)

theorem written_proxies_read_back_witness:
  "parse_line (proxy_url demo_proxy_line) = Inr (demo_proxy_line\<lparr>pp_shape := Url\<rparr>)"
  by (rule written_proxies_read_back [OF demo_line]) (simp_all add: demo_proxy_line_def)

text \<open>
  An IPv6 proxy whose second group is decimal: accepted, dialled as it was meant, and read back as
  another host with a login.
\<close>

lemma ipv6_reads_back_as_another_host:
  "parse_line ''[2001:470::2]:80'' = Inr \<lparr>pp_scheme = ''http'', pp_host = ''2001:470::2'', pp_port = 80, pp_user = None,
     pp_pass = None, pp_shape = HostPort\<rparr>
   \<and> parse_line ''http://2001:470::2:80'' = Inr \<lparr>pp_scheme = ''http'', pp_host = ''2001'', pp_port = 470, pp_user = Some [],
     pp_pass = Some ''2:80'', pp_shape = Url\<rparr>"
proof
  have t: "trim ''[2001:470::2]:80'' = ''[2001:470::2]:80''" "trim ''http://2001:470::2:80'' = ''http://2001:470::2:80''"
    "trim ''80'' = ''80''" "trim ''470'' = ''470''"
    by (rule trim_graphic; code_simp)+
  have n: "show_nat 80 = ''80''" by code_simp
  have scheme: "normalise_scheme ''http'' = Inr ''http''" by code_simp
  show "parse_line ''[2001:470::2]:80'' = Inr \<lparr>pp_scheme = ''http'', pp_host = ''2001:470::2'', pp_port = 80, pp_user = None,
     pp_pass = None, pp_shape = HostPort\<rparr>"
    by (rule parse_line_strict) (simp add: parse_strict.simps [of "''[2001:470::2]:80''"] t is_csv_def
        parse_shapes_def parse_colons_def split_colons_def split_host_port_def strip_prefix_def parse_port_def demo_ports n
        and_then_def ws_head_graphic graphic_def)
  show "parse_line ''http://2001:470::2:80'' = Inr \<lparr>pp_scheme = ''http'', pp_host = ''2001'', pp_port = 470, pp_user = Some [],
     pp_pass = Some ''2:80'', pp_shape = Url\<rparr>"
  proof (rule parse_line_strict)
    have parts: "splitn 4 (CHR '':'') ''2001:470::2:80'' = [''2001'', ''470'', [], ''2:80'']" by code_simp
    have "split_once_str ''://'' ''http://2001:470::2:80'' = Some (''http'', ''2001:470::2:80'')"
      "\<not> is_csv ''http://2001:470::2:80''" "CHR ''@'' \<notin> set ''2001:470::2:80''" by code_simp+
    then show "parse_strict ''http://2001:470::2:80'' = Inr \<lparr>pp_scheme = ''http'', pp_host = ''2001'', pp_port = 470,
        pp_user = Some [], pp_pass = Some ''2:80'', pp_shape = Url\<rparr>"
      unfolding parse_strict.simps [of "''http://2001:470::2:80''"] t Let_def parse_shapes_def
      by (simp add: scheme parse_url_def parts parse_port_def is_port_def t demo_ports and_then_def)
  qed
qed

text \<open>The refusal of an empty host is missing from the colon shapes.\<close>

lemma empty_host_is_accepted:
  "parse_line '':80'' = Inr \<lparr>pp_scheme = ''http'', pp_host = [], pp_port = 80, pp_user = None, pp_pass = None, pp_shape = HostPort\<rparr>"
proof -
  have "trim '':80'' = '':80''" "trim ''80'' = ''80''" by (rule trim_graphic; code_simp)+
  then show ?thesis
    by (intro parse_line_strict) (simp add: parse_strict.simps [of "'':80''"] is_csv_def parse_shapes_def parse_colons_def
        split_colons_def parse_port_def demo_ports and_then_def)
qed
end
