(* ===== verification/Relay_Wire.thy ===== *)
theory Relay_Wire
  imports Proxy_Lines Keys
begin

text \<open>
  The handshakes of the agent's relay (\<open>agent/src/relay.rs\<close>) with the proxy of a profile: SOCKS5
  with its login, HTTP \<open>CONNECT\<close> with \<open>Proxy-Authorization\<close>, and the reader of a head that both
  sides of the relay use. A connection is what each read of it finds, what the far end does after
  that, and what was written to it. A write to a connection that is gone is seen at the next read.
\<close>

section \<open>Connections\<close>

datatype ending = Closes | Resets | Silent | Breaks

record link =
  arrives :: "bytes list"
  ending :: ending
  sent :: bytes

datatype saw = Closed_unanswered | Answered_http | Answered_byte u8 | No_status_line | Said_nothing

datatype relay_error =
    Upstream_unreachable
  | Auth_rejected
  | No_login_accepted
  | Wrong_protocol saw
  | Connect_rejected str
  | Bad_request
  | Io_hung_up
  | Io_error
  | Timed_out \<comment> \<open>a read that never returns; \<open>handshake\<close> reports it\<close>

text \<open>A step on a connection, and the \<open>?\<close> that runs one after another.\<close>

type_synonym 'a wire = "link \<Rightarrow> (relay_error + 'a) \<times> link"

definition ret :: "'a \<Rightarrow> 'a wire" where
  "ret x l = (Inr x, l)"

definition fail :: "relay_error \<Rightarrow> 'a wire" where
  "fail e l = (Inl e, l)"

definition onward :: "'a wire \<Rightarrow> ('a \<Rightarrow> 'b wire) \<Rightarrow> 'b wire" where
  "onward f g l = (case f l of (Inl e, l') \<Rightarrow> (Inl e, l') | (Inr x, l') \<Rightarrow> g x l')"

definition write_all :: "bytes \<Rightarrow> unit wire" where
  "write_all bs l = (Inr (), l\<lparr>sent := sent l @ bs\<rparr>)"

fun read_exact :: "nat \<Rightarrow> bytes list \<Rightarrow> (bytes \<times> bytes list) option" where
  "read_exact n [] = (if n = 0 then Some ([], []) else None)"
| "read_exact n (c # cs) =
     (if n \<le> length c then Some (take n c, drop n c # cs)
      else map_option (\<lambda>(b, r). (c @ b, r)) (read_exact (n - length c) cs))"

definition end_error :: "ending \<Rightarrow> relay_error" where
  "end_error e = (case e of Closes \<Rightarrow> Io_hung_up | Resets \<Rightarrow> Io_hung_up | Silent \<Rightarrow> Timed_out | Breaks \<Rightarrow> Io_error)"

definition receive :: "nat \<Rightarrow> bytes wire" where
  "receive n l =
     (case read_exact n (arrives l) of
        Some (b, r) \<Rightarrow> (Inr b, l\<lparr>arrives := r\<rparr>)
      | None \<Rightarrow> (Inl (end_error (ending l)), l\<lparr>arrives := []\<rparr>))"

text \<open>What a step that failed is reported as instead.\<close>

definition relabel :: "(relay_error \<Rightarrow> relay_error) \<Rightarrow> 'a wire \<Rightarrow> 'a wire" where
  "relabel h f l = (case f l of (Inl e, l') \<Rightarrow> (Inl (h e), l') | r \<Rightarrow> r)"

definition handshake :: "'a wire \<Rightarrow> 'a wire" where
  "handshake f = relabel (\<lambda>e. if e = Timed_out then Wrong_protocol Said_nothing else e) f"

section \<open>SOCKS5\<close>

definition show_target :: "str \<Rightarrow> nat \<Rightarrow> str" where
  "show_target host port = host @ CHR '':'' # show_nat port"

definition byte_of :: "nat \<Rightarrow> u8" where
  "byte_of n = word_of_nat n"

definition socks5_reply_reason :: "u8 \<Rightarrow> str" where
  "socks5_reply_reason c =
     (if c = 1 then ''general SOCKS server failure''
      else if c = 2 then ''connection not allowed by ruleset''
      else if c = 3 then ''network unreachable''
      else if c = 4 then ''host unreachable''
      else if c = 5 then ''connection refused''
      else if c = 6 then ''TTL expired''
      else if c = 7 then ''command not supported''
      else if c = 8 then ''address type not supported''
      else ''unknown'')"

definition offered :: "(str \<times> str) option \<Rightarrow> bytes" where
  "offered auth = (if auth \<noteq> None then [0, 2] else [0])"

definition socks5_greet :: "(str \<times> str) option \<Rightarrow> u8 wire" where
  "socks5_greet auth =
     onward (write_all ([5, byte_of (length (offered auth))] @ offered auth)) (\<lambda>_.
     onward (relabel (\<lambda>e. if e = Io_hung_up then Wrong_protocol Closed_unanswered else e) (receive 2)) (\<lambda>resp.
     if resp ! 0 \<noteq> 5 then
       fail (Wrong_protocol (if resp ! 0 = 72 then Answered_http else Answered_byte (resp ! 0)))
     else ret (resp ! 1)))"

definition login_request :: "str \<Rightarrow> str \<Rightarrow> bytes" where
  "login_request user pass =
     [1, byte_of (length user)] @ text_bytes user @ [byte_of (length pass)] @ text_bytes pass"

definition socks5_login :: "(str \<times> str) option \<Rightarrow> u8 \<Rightarrow> unit wire" where
  "socks5_login auth choice =
     (if choice = 0 then ret ()
      else if choice = 2 then
        (case auth of
           None \<Rightarrow> fail Auth_rejected
         | Some (user, pass) \<Rightarrow>
             onward (write_all (login_request user pass)) (\<lambda>_.
             onward (receive 2) (\<lambda>ar. if ar ! 1 \<noteq> 0 then fail Auth_rejected else ret ())))
      else if choice = 255 \<and> auth \<noteq> None then fail No_login_accepted
      else fail Auth_rejected)"

definition connect_request :: "str \<Rightarrow> nat \<Rightarrow> bytes" where
  "connect_request host port = [5, 1, 0, 3, byte_of (length host)] @ text_bytes host @ be_bytes 2 port"

definition skip_bound_address :: "u8 \<Rightarrow> unit wire" where
  "skip_bound_address atyp =
     (if atyp = 1 then onward (receive (4 + 2)) (\<lambda>_. ret ())
      else if atyp = 3 then onward (receive 1) (\<lambda>len. onward (receive (unat (len ! 0) + 2)) (\<lambda>_. ret ()))
      else if atyp = 4 then onward (receive (16 + 2)) (\<lambda>_. ret ())
      else fail Bad_request)"

definition socks5_request :: "str \<Rightarrow> nat \<Rightarrow> unit wire" where
  "socks5_request host port =
     (if 255 < length host then fail Bad_request
      else onward (write_all (connect_request host port)) (\<lambda>_.
           onward (receive 4) (\<lambda>head.
           if head ! 1 \<noteq> 0 then fail (Connect_rejected (socks5_reply_reason (head ! 1)))
           else skip_bound_address (head ! 3))))"

definition socks5_connect :: "str \<Rightarrow> nat \<Rightarrow> (str \<times> str) option \<Rightarrow> unit wire" where
  "socks5_connect host port auth =
     onward (socks5_greet auth) (\<lambda>choice. onward (socks5_login auth choice) (\<lambda>_. socks5_request host port))"

section \<open>Heads\<close>

definition crlf2 :: bytes where
  "crlf2 = [13, 10, 13, 10]"

fun find_headers_end :: "bytes \<Rightarrow> nat option" where
  "find_headers_end [] = None"
| "find_headers_end (b # bs) =
     (if prefix crlf2 (b # bs) then Some 4 else map_option Suc (find_headers_end bs))"

text \<open>A head and what came with it, from the reads of a connection.\<close>

fun read_head :: "ending \<Rightarrow> bytes \<Rightarrow> bytes list \<Rightarrow> relay_error + (bytes \<times> bytes) \<times> bytes list" where
  "read_head e buf [] = Inl (if e = Closes then Bad_request else end_error e)"
| "read_head e buf (c # cs) =
     (case find_headers_end (buf @ c) of
        Some p \<Rightarrow> Inr ((take p (buf @ c), drop p (buf @ c)), cs)
      | None \<Rightarrow> if 64 * 1024 < length (buf @ c) then Inl Bad_request else read_head e (buf @ c) cs)"

definition read_request_head :: "(bytes \<times> bytes) wire" where
  "read_request_head l =
     (case read_head (ending l) [] (arrives l) of
        Inl e \<Rightarrow> (Inl e, l\<lparr>arrives := []\<rparr>)
      | Inr (hl, cs) \<Rightarrow> (Inr hl, l\<lparr>arrives := cs\<rparr>))"

section \<open>HTTP CONNECT\<close>

definition base64_table :: str where
  "base64_table = ''ABCDEFGHIJKLMNOPQRSTUVWXYZabcdefghijklmnopqrstuvwxyz0123456789+/''"

definition sextet :: "nat \<Rightarrow> nat \<Rightarrow> char" where
  "sextet k n = base64_table ! (n div 64 ^ k mod 64)"

fun base64 :: "bytes \<Rightarrow> str" where
  "base64 [] = []"
| "base64 [a] = (let n = be_value 0 [a, 0, 0] in [sextet 3 n, sextet 2 n, CHR ''='', CHR ''=''])"
| "base64 [a, b] = (let n = be_value 0 [a, b, 0] in [sextet 3 n, sextet 2 n, sextet 1 n, CHR ''=''])"
| "base64 (a # b # c # bs) =
     (let n = be_value 0 [a, b, c] in [sextet 3 n, sextet 2 n, sextet 1 n, sextet 0 n] @ base64 bs)"

definition crlf :: str where
  "crlf = [CHR 0x0D, CHR 0x0A]"

definition connect_head :: "str \<Rightarrow> nat \<Rightarrow> (str \<times> str) option \<Rightarrow> str" where
  "connect_head host port auth =
     ''CONNECT '' @ show_target host port @ '' HTTP/1.1'' @ crlf @ ''Host: '' @ show_target host port @ crlf
     @ (case auth of
          None \<Rightarrow> []
        | Some (user, pass) \<Rightarrow>
            ''Proxy-Authorization: Basic '' @ base64 (text_bytes (user @ CHR '':'' # pass)) @ crlf)
     @ ''Proxy-Connection: Keep-Alive'' @ crlf @ crlf"

definition reply_status :: "str \<Rightarrow> nat" where
  "reply_status head =
     (case split_whitespace head of
        _ # c # _ \<Rightarrow> (case parse_u16 c of None \<Rightarrow> 0 | Some n \<Rightarrow> n)
      | _ \<Rightarrow> 0)"

definition http_connect :: "str \<Rightarrow> nat \<Rightarrow> (str \<times> str) option \<Rightarrow> unit wire" where
  "http_connect host port auth =
     onward (write_all (text_bytes (connect_head host port auth))) (\<lambda>_.
     onward (relabel (\<lambda>e. if e = Io_hung_up \<or> e = Bad_request then Wrong_protocol Closed_unanswered else e)
              read_request_head) (\<lambda>(head_bytes, _).
     let head = bytes_text head_bytes
     in if \<not> prefix ''HTTP/'' head then fail (Wrong_protocol No_status_line)
        else
          (let status = reply_status head
           in if 200 \<le> status \<and> status \<le> 299 then ret ()
              else if status = 407 then fail Auth_rejected
              else fail (Connect_rejected (''HTTP '' @ show_nat status)))))"

section \<open>Steps on a connection\<close>

lemma onward_Inr: "onward f g l = (Inr y, l'') \<longleftrightarrow> (\<exists>x l'. f l = (Inr x, l') \<and> g x l' = (Inr y, l''))"
  by (auto simp: onward_def split: prod.split sum.split)

lemma onward_step: "f l = (Inr x, l') \<Longrightarrow> onward f g l = g x l'"
  by (simp add: onward_def)

lemma onward_stop: "f l = (Inl e, l') \<Longrightarrow> onward f g l = (Inl e, l')"
  by (simp add: onward_def)

lemma relabel_Inr: "relabel h f l = (Inr x, l') \<longleftrightarrow> f l = (Inr x, l')"
  by (auto simp: relabel_def split: prod.split sum.split)

lemma read_exact_enough:
  "n \<le> length (concat cs) \<Longrightarrow> \<exists>r. read_exact n cs = Some (take n (concat cs), r) \<and> concat r = drop n (concat cs)"
proof (induction n cs rule: read_exact.induct)
  case (2 n c cs)
  then show ?case by (cases "n \<le> length c") auto
qed simp

lemma read_exact_short: "length (concat cs) < n \<Longrightarrow> read_exact n cs = None"
  by (induction n cs rule: read_exact.induct) auto

lemma receive_step:
  assumes "concat (arrives l) = b @ rest" and "length b = n"
  obtains l' where "receive n l = (Inr b, l')" and "concat (arrives l') = rest" and "sent l' = sent l"
    and "ending l' = ending l"
proof -
  have "n \<le> length (concat (arrives l))" and parts: "take n (concat (arrives l)) = b" "drop n (concat (arrives l)) = rest"
    using assms by simp_all
  from read_exact_enough [OF this(1)]
  obtain r where r: "read_exact n (arrives l) = Some (b, r)" "concat r = rest"
    unfolding parts by blast
  show thesis
    by (rule that [of "l\<lparr>arrives := r\<rparr>"]) (simp_all add: receive_def r)
qed

lemma receive_Inr:
  assumes "receive n l = (Inr b, l')"
  shows "concat (arrives l) = b @ concat (arrives l')" and "length b = n" and "sent l' = sent l" and "ending l' = ending l"
proof -
  have "\<not> length (concat (arrives l)) < n"
    using assms read_exact_short [of "arrives l" n] by (auto simp: receive_def)
  then have enough: "n \<le> length (concat (arrives l))" by simp
  with assms read_exact_enough [OF enough]
  show "concat (arrives l) = b @ concat (arrives l')" "length b = n" "sent l' = sent l" "ending l' = ending l"
    by (auto simp: receive_def simp del: length_concat)
qed

lemma receive_Inl:
  assumes "length (concat (arrives l)) < n"
  shows "receive n l = (Inl (end_error (ending l)), l\<lparr>arrives := []\<rparr>)"
  by (simp only: receive_def read_exact_short [OF assms]) simp

section \<open>Heads\<close>

lemma find_headers_end_le: "find_headers_end bs = Some p \<Longrightarrow> 4 \<le> p \<and> p \<le> length bs"
proof (induction bs arbitrary: p)
  case (Cons b bs)
  then show ?case
    using prefix_length_le [of crlf2 "b # bs"] by (fastforce simp: crlf2_def split: if_splits)
qed simp

lemma prefix_append_long: "length p \<le> length xs \<Longrightarrow> prefix p (xs @ ys) \<longleftrightarrow> prefix p xs"
  by (metis prefix_prefix prefix_length_prefix prefixI)

lemma find_headers_end_append: "find_headers_end bs = Some p \<Longrightarrow> find_headers_end (bs @ cs) = Some p"
proof (induction bs arbitrary: p)
  case (Cons b bs)
  then have "length crlf2 \<le> length (b # bs)"
    using find_headers_end_le [OF Cons.prems] by (simp add: crlf2_def)
  from prefix_append_long [OF this, of cs] show ?case
    using Cons by (auto split: if_splits)
qed simp

lemma find_headers_end_later:
  assumes "find_headers_end bs = None" and "find_headers_end (bs @ cs) = Some p"
  shows "length bs < p"
proof (rule ccontr)
  assume "\<not> length bs < p"
  then have "p \<le> length bs" by simp
  with assms show False
  proof (induction bs arbitrary: p)
    case Nil
    then show ?case using find_headers_end_le [OF Nil(2)] by simp
  next
    case (Cons b bs)
    have p: "4 \<le> p" using find_headers_end_le [OF Cons.prems(2)] by simp
    have "length crlf2 \<le> length (b # bs)" using p Cons.prems(3) by (simp add: crlf2_def)
    from prefix_append_long [OF this, of cs] show ?case
      using Cons.prems Cons.IH [of "p - 1"] by (auto split: if_splits)
  qed
qed

text \<open>
  C40. A head is read the same however it arrives: whatever the reads of a connection are, a head of
  at most 64 KiB is the bytes to the first empty line, and what came with it and what is still to be
  read are the bytes after it.
\<close>

theorem head_does_not_depend_on_reads:
  assumes "find_headers_end (concat cs) = Some p" and "p \<le> 64 * 1024"
  shows "\<exists>leftover rest. read_head e [] cs = Inr ((take p (concat cs), leftover), rest)
    \<and> leftover @ concat rest = drop p (concat cs)"
proof -
  have "find_headers_end (buf @ concat cs) = Some p \<Longrightarrow> find_headers_end buf = None \<Longrightarrow>
      \<exists>leftover rest. read_head e buf cs = Inr ((take p (buf @ concat cs), leftover), rest)
        \<and> leftover @ concat rest = drop p (buf @ concat cs)" for buf
  proof (induction cs arbitrary: buf)
    case (Cons c cs)
    show ?case
    proof (cases "find_headers_end (buf @ c)")
      case None
      moreover have "length (buf @ c) < p"
        using Cons.prems(1) by (intro find_headers_end_later [OF None, of "concat cs"]) simp
      ultimately show ?thesis
        using Cons.IH [of "buf @ c"] Cons.prems assms(2) by simp
    next
      case (Some q)
      then have "q = p" and "p \<le> length (buf @ c)"
        using find_headers_end_append [OF Some, of "concat cs"] find_headers_end_le [OF Some] Cons.prems(1) by simp_all
      with Some show ?thesis by simp
    qed
  qed simp
  from this [of "[]"] show ?thesis using assms by simp
qed

lemma read_head_bounded:
  assumes "\<forall>c \<in> set cs. length c \<le> 1024" and "length buf \<le> 64 * 1024"
    and "read_head e buf cs = Inr ((head, leftover), rest)"
  shows "length (head @ leftover) \<le> 65 * 1024"
  using assms
proof (induction e buf cs rule: read_head.induct)
  case (2 e buf c cs)
  then show ?case by (auto split: option.splits if_splits)
qed simp

section \<open>What the far end of a SOCKS5 handshake reads\<close>

text \<open>
  RFC 1928 and RFC 1929 from the server's side: the methods offered, the login when the server chose
  one, and the host and port asked for, when the client sent exactly that.
\<close>

definition rfc_login :: "bytes \<Rightarrow> ((bytes \<times> bytes) \<times> bytes) option" where
  "rfc_login bs =
     (case bs of
        v # n # r \<Rightarrow>
          (case drop (unat n) r of
             m # q \<Rightarrow> if v = 1 \<and> unat m \<le> length q then Some ((take (unat n) r, take (unat m) q), drop (unat m) q) else None
           | [] \<Rightarrow> None)
      | _ \<Rightarrow> None)"

definition rfc_connect :: "bytes \<Rightarrow> (bytes \<times> nat) option" where
  "rfc_connect bs =
     (case bs of
        v # cmd # rsv # atyp # n # r \<Rightarrow>
          if v = 5 \<and> cmd = 1 \<and> atyp = 3 \<and> length r = unat n + 2
          then Some (take (unat n) r, be_value 0 (drop (unat n) r)) else None
      | _ \<Rightarrow> None)"

definition rfc_server :: "bool \<Rightarrow> bytes \<Rightarrow> (bytes \<times> (bytes \<times> bytes) option \<times> bytes \<times> nat) option" where
  "rfc_server login bs =
     (case bs of
        v # n # r \<Rightarrow>
          if v \<noteq> 5 \<or> length r < unat n then None
          else if login then
            Option.bind (rfc_login (drop (unat n) r)) (\<lambda>(c, q).
              map_option (\<lambda>t. (take (unat n) r, Some c, t)) (rfc_connect q))
          else map_option (\<lambda>t. (take (unat n) r, None, t)) (rfc_connect (drop (unat n) r))
      | _ \<Rightarrow> None)"

lemma unat_byte_of: "n \<le> 255 \<Longrightarrow> unat (byte_of n) = n"
  by (simp add: byte_of_def unat_of_nat)

lemma rfc_login_request:
  assumes "length u \<le> 255" and "length w \<le> 255"
  shows "rfc_login (login_request u w @ q) = Some ((text_bytes u, text_bytes w), q)"
  using assms by (simp add: rfc_login_def login_request_def unat_byte_of)

lemma rfc_connect_request:
  assumes "length host \<le> 255" and "port \<le> 65535"
  shows "rfc_connect (connect_request host port) = Some (text_bytes host, port)"
  using assms by (simp add: rfc_connect_def connect_request_def unat_byte_of be_value_bytes del: be_bytes.simps)

lemma offered_length: "unat (byte_of (length (offered auth))) = length (offered auth)"
  by (rule unat_byte_of) (simp add: offered_def)

lemma rfc_server_plain:
  assumes "length host \<le> 255" and "port \<le> 65535"
  shows "rfc_server False ([5, byte_of (length (offered auth))] @ offered auth @ connect_request host port) =
    Some (offered auth, None, text_bytes host, port)"
  using assms by (simp add: rfc_server_def offered_length rfc_connect_request)

lemma rfc_server_login:
  assumes "length host \<le> 255" and "port \<le> 65535" and "length u \<le> 255" and "length w \<le> 255"
  shows "rfc_server True (5 # byte_of (length (offered auth)) # offered auth @ login_request u w @ connect_request host port) =
    Some (offered auth, Some (text_bytes u, text_bytes w), text_bytes host, port)"
  using assms by (simp add: rfc_server_def offered_length rfc_connect_request rfc_login_request)

text \<open>The address a SOCKS5 server is bound to, as its reply carries it.\<close>

definition bound_address :: "u8 \<Rightarrow> bytes \<Rightarrow> bool" where
  "bound_address atyp a \<longleftrightarrow>
     atyp = 1 \<and> length a = 6 \<or> atyp = 4 \<and> length a = 18
     \<or> atyp = 3 \<and> (\<exists>n name. a = n # name \<and> length name = unat n + 2)"

lemma skip_step:
  assumes "bound_address t a" and "concat (arrives l) = a @ payload"
  obtains l' where "skip_bound_address t l = (Inr (), l')" and "concat (arrives l') = payload" and "sent l' = sent l"
proof -
  consider "t = 1" "length a = 6" | "t = 4" "length a = 18"
    | n name where "t = 3" "a = n # name" "length name = unat n + 2"
    using assms(1) by (auto simp: bound_address_def)
  then show thesis
  proof cases
    case 1
    obtain l' where "receive 6 l = (Inr a, l')" "concat (arrives l') = payload" "sent l' = sent l"
      by (rule receive_step [OF assms(2) 1(2)])
    then show thesis using 1 by (intro that [of l']) (simp_all add: skip_bound_address_def onward_step ret_def)
  next
    case 2
    obtain l' where "receive 18 l = (Inr a, l')" "concat (arrives l') = payload" "sent l' = sent l"
      by (rule receive_step [OF assms(2) 2(2)])
    then show thesis using 2 by (intro that [of l']) (simp_all add: skip_bound_address_def onward_step ret_def)
  next
    case (3 n name)
    have "concat (arrives l) = [n] @ name @ payload" using assms(2) 3(2) by simp
    then obtain l1 where l1: "receive 1 l = (Inr [n], l1)" "concat (arrives l1) = name @ payload" "sent l1 = sent l"
      by (rule receive_step) simp_all
    obtain l2 where "receive (unat n + 2) l1 = (Inr name, l2)" "concat (arrives l2) = payload" "sent l2 = sent l1"
      by (rule receive_step [OF l1(2) 3(3)])
    with l1 3 show thesis by (intro that [of l2]) (simp_all add: skip_bound_address_def onward_step ret_def)
  qed
qed

lemma skip_Inr:
  assumes "skip_bound_address t l = (Inr (), l')"
  shows "\<exists>a. bound_address t a \<and> concat (arrives l) = a @ concat (arrives l')"
proof -
  consider "t = 1" "onward (receive 6) (\<lambda>_. ret ()) l = (Inr (), l')" | "t = 4" "onward (receive 18) (\<lambda>_. ret ()) l = (Inr (), l')"
    | "t = 3" "onward (receive 1) (\<lambda>len. onward (receive (unat (len ! 0) + 2)) (\<lambda>_. ret ())) l = (Inr (), l')"
    using assms by (auto simp: skip_bound_address_def fail_def split: if_splits)
  then show ?thesis
  proof cases
    case 3
    then obtain b l1 c where b: "receive 1 l = (Inr b, l1)" "receive (unat (b ! 0) + 2) l1 = (Inr c, l')"
      by (auto simp: onward_Inr ret_def)
    obtain n where n: "b = [n]" using receive_Inr(2) [OF b(1)] by (auto simp: length_Suc_conv)
    have "bound_address t (n # c)" using 3(1) receive_Inr(2) [OF b(2)] n by (simp add: bound_address_def)
    moreover have "concat (arrives l) = (n # c) @ concat (arrives l')"
      using receive_Inr(1) [OF b(1)] receive_Inr(1) [OF b(2)] n by simp
    ultimately show ?thesis by blast
  qed (auto simp: onward_Inr ret_def bound_address_def dest: receive_Inr(1,2))
qed

lemma write_step: "onward (write_all bs) g l = g () (l\<lparr>sent := sent l @ bs\<rparr>)"
  by (simp add: onward_def write_all_def)

lemma greet_step:
  assumes "concat (arrives l) = [5, m] @ rest"
  obtains l' where "socks5_greet auth l = (Inr m, l')" and "concat (arrives l') = rest"
    and "sent l' = sent l @ [5, byte_of (length (offered auth))] @ offered auth"
proof -
  let ?l = "l\<lparr>sent := sent l @ [5, byte_of (length (offered auth))] @ offered auth\<rparr>"
  have "concat (arrives ?l) = [5, m] @ rest" using assms by simp
  then obtain l' where "receive 2 ?l = (Inr [5, m], l')" "concat (arrives l') = rest" "sent l' = sent ?l"
    by (rule receive_step [where n = 2]) simp_all
  then show thesis
    by (intro that [of l'])
      (simp_all add: socks5_greet_def write_step onward_step relabel_Inr [THEN iffD2] ret_def)
qed

lemma greet_Inr:
  assumes "socks5_greet auth l = (Inr m, l')"
  shows "concat (arrives l) = [5, m] @ concat (arrives l')"
proof -
  let ?l = "l\<lparr>sent := sent l @ [5, byte_of (length (offered auth))] @ offered auth\<rparr>"
  obtain b where b: "receive 2 ?l = (Inr b, l')" "b ! 0 = 5" "b ! 1 = m"
    using assms by (auto simp: socks5_greet_def write_step onward_Inr relabel_Inr ret_def fail_def split: if_splits)
  obtain x y where "b = [x, y]" using receive_Inr(2) [OF b(1)] by (auto simp: length_Suc_conv numeral_2_eq_2)
  with b receive_Inr(1) [OF b(1)] show ?thesis by simp
qed

text \<open>What a server says of the login, and what of the address asked for.\<close>

definition login_answer :: "(str \<times> str) option \<Rightarrow> u8 \<Rightarrow> bytes \<Rightarrow> bool" where
  "login_answer auth m a \<longleftrightarrow> m = 0 \<and> a = [] \<or> m = 2 \<and> auth \<noteq> None \<and> (\<exists>v. a = [v, 0])"

definition request_answer :: "bytes \<Rightarrow> bool" where
  "request_answer a \<longleftrightarrow> (\<exists>v r t b. a = [v, 0, r, t] @ b \<and> bound_address t b)"

lemma login_step:
  assumes "login_answer auth m a" and "concat (arrives l) = a @ rest"
  obtains l' where "socks5_login auth m l = (Inr (), l')" and "concat (arrives l') = rest"
    and "sent l' = sent l @ (case auth of Some (u, w) \<Rightarrow> if m = 2 then login_request u w else [] | None \<Rightarrow> [])"
proof (cases "m = 0")
  case True
  with assms show thesis
    by (intro that [of l]) (auto simp: socks5_login_def ret_def login_answer_def split: option.splits)
next
  case False
  with assms(1) obtain v u w where m: "m = 2" "auth = Some (u, w)" "a = [v, 0]"
    by (auto simp: login_answer_def)
  let ?l = "l\<lparr>sent := sent l @ login_request u w\<rparr>"
  have "concat (arrives ?l) = [v, 0] @ rest" using assms m by simp
  then obtain l' where "receive 2 ?l = (Inr [v, 0], l')" "concat (arrives l') = rest" "sent l' = sent ?l"
    by (rule receive_step [where n = 2]) simp_all
  with m show thesis by (intro that [of l']) (simp_all add: socks5_login_def write_step onward_step ret_def)
qed

lemma login_Inr:
  assumes "socks5_login auth m l = (Inr (), l')"
  shows "\<exists>a. login_answer auth m a \<and> concat (arrives l) = a @ concat (arrives l')"
proof (cases "m = 0")
  case True
  with assms show ?thesis by (auto simp: socks5_login_def ret_def login_answer_def)
next
  case False
  with assms obtain u w where m: "m = 2" "auth = Some (u, w)"
    by (auto simp: socks5_login_def fail_def split: if_splits option.splits)
  let ?l = "l\<lparr>sent := sent l @ login_request u w\<rparr>"
  obtain b where b: "receive 2 ?l = (Inr b, l')" "b ! 1 = 0"
    using assms m by (auto simp: socks5_login_def write_step onward_Inr ret_def fail_def split: if_splits)
  obtain x y where "b = [x, y]" using receive_Inr(2) [OF b(1)] by (auto simp: length_Suc_conv numeral_2_eq_2)
  with b m receive_Inr(1) [OF b(1)] show ?thesis by (auto simp: login_answer_def)
qed

lemma request_step:
  assumes "request_answer a" and "concat (arrives l) = a @ payload" and "length host \<le> 255"
  obtains l' where "socks5_request host port l = (Inr (), l')" and "concat (arrives l') = payload"
    and "sent l' = sent l @ connect_request host port"
proof -
  obtain v r t b where a: "a = [v, 0, r, t] @ b" "bound_address t b"
    using assms(1) by (auto simp: request_answer_def)
  let ?l = "l\<lparr>sent := sent l @ connect_request host port\<rparr>"
  have "concat (arrives ?l) = [v, 0, r, t] @ b @ payload" using assms(2) a by simp
  then obtain l1 where l1: "receive 4 ?l = (Inr [v, 0, r, t], l1)" "concat (arrives l1) = b @ payload" "sent l1 = sent ?l"
    by (rule receive_step [where n = 4]) simp_all
  obtain l2 where "skip_bound_address t l1 = (Inr (), l2)" "concat (arrives l2) = payload" "sent l2 = sent l1"
    by (rule skip_step [OF a(2) l1(2)])
  with l1 assms(3) show thesis
    by (intro that [of l2]) (simp_all add: socks5_request_def write_step onward_step)
qed

lemma request_Inr:
  assumes "socks5_request host port l = (Inr (), l')"
  shows "length host \<le> 255 \<and> (\<exists>a. request_answer a \<and> concat (arrives l) = a @ concat (arrives l'))"
proof -
  let ?l = "l\<lparr>sent := sent l @ connect_request host port\<rparr>"
  have host: "length host \<le> 255"
    using assms by (auto simp: socks5_request_def fail_def split: if_splits)
  with assms obtain h l1 where h: "receive 4 ?l = (Inr h, l1)" "h ! 1 = 0" "skip_bound_address (h ! 3) l1 = (Inr (), l')"
    by (auto simp: socks5_request_def write_step onward_Inr fail_def split: if_splits)
  obtain v x r t where "h = [v, x, r, t]"
    using receive_Inr(2) [OF h(1)] by (auto simp: length_Suc_conv eval_nat_numeral)
  with h receive_Inr(1) [OF h(1)] skip_Inr [OF h(3)] obtain b where
    "bound_address t b" "concat (arrives l) = [v, 0, r, t] @ b @ concat (arrives l')" by auto
  then have "request_answer ([v, 0, r, t] @ b)" "concat (arrives l) = ([v, 0, r, t] @ b) @ concat (arrives l')"
    by (auto simp: request_answer_def)
  with host show ?thesis by blast
qed

text \<open>
  C38. The tunnel through a SOCKS5 proxy: when the server chooses a method it was offered, takes the
  login and grants the request, the handshake succeeds, the connection is left at the first byte of
  the payload, and the server has read the methods offered, the login and the host and port of the
  profile and nothing else. The version byte of its answer to the login and the reserved byte of its
  reply may be anything.
\<close>

theorem socks5_server_reads_what_was_meant:
  assumes "login_answer auth m a" and "request_answer r" and "concat (arrives l) = [5, m] @ a @ r @ payload"
    and "sent l = []" and "length host \<le> 255" and "port \<le> 65535"
    and "\<forall>u w. auth = Some (u, w) \<longrightarrow> length u \<le> 255 \<and> length w \<le> 255"
  shows "\<exists>l'. handshake (socks5_connect host port auth) l = (Inr (), l') \<and> concat (arrives l') = payload
    \<and> rfc_server (m = 2) (sent l') =
        Some (offered auth, if m = 2 then map_option (\<lambda>(u, w). (text_bytes u, text_bytes w)) auth else None,
              text_bytes host, port)"
proof -
  obtain l1 where l1: "socks5_greet auth l = (Inr m, l1)" "concat (arrives l1) = a @ r @ payload"
      "sent l1 = [5, byte_of (length (offered auth))] @ offered auth"
    by (rule greet_step [OF assms(3)]) (simp add: assms(4))
  obtain l2 where l2: "socks5_login auth m l1 = (Inr (), l2)" "concat (arrives l2) = r @ payload"
      "sent l2 = sent l1 @ (case auth of Some (u, w) \<Rightarrow> if m = 2 then login_request u w else [] | None \<Rightarrow> [])"
    by (rule login_step [OF assms(1) l1(2)])
  obtain l3 where l3: "socks5_request host port l2 = (Inr (), l3)" "concat (arrives l3) = payload"
      "sent l3 = sent l2 @ connect_request host port"
    by (rule request_step [OF assms(2) l2(2) assms(5)])
  have "socks5_connect host port auth l = (Inr (), l3)"
    using l1(1) l2(1) l3(1) by (simp add: socks5_connect_def onward_step)
  then have "handshake (socks5_connect host port auth) l = (Inr (), l3)"
    by (simp add: handshake_def relabel_Inr)
  moreover have "rfc_server (m = 2) (sent l3) =
      Some (offered auth, if m = 2 then map_option (\<lambda>(u, w). (text_bytes u, text_bytes w)) auth else None,
            text_bytes host, port)"
  proof (cases "m = 2")
    case True
    with assms(1) obtain u w where "auth = Some (u, w)" by (auto simp: login_answer_def)
    with True assms(5-7) show ?thesis by (simp add: l3(3) l2(3) l1(3) rfc_server_login)
  next
    case False
    then have "sent l3 = [5, byte_of (length (offered auth))] @ offered auth @ connect_request host port"
      by (simp add: l3(3) l2(3) l1(3) split: option.split)
    with False assms(5,6) show ?thesis by (simp only: rfc_server_plain) simp
  qed
  ultimately show ?thesis using l3(2) by blast
qed

text \<open>
  A tunnel is never taken for granted: a SOCKS5 handshake succeeds only when the far end said
  that it speaks the protocol, chose no login or took the one of the profile, and granted the
  request; what is left to read then is what came after that.
\<close>

theorem tunnel_only_when_granted:
  assumes "handshake (socks5_connect host port auth) l = (Inr (), l')"
  shows "\<exists>m a r. login_answer auth m a \<and> request_answer r \<and> length host \<le> 255
    \<and> concat (arrives l) = [5, m] @ a @ r @ concat (arrives l')"
proof -
  obtain m l1 l2 where steps: "socks5_greet auth l = (Inr m, l1)" "socks5_login auth m l1 = (Inr (), l2)"
      "socks5_request host port l2 = (Inr (), l')"
    using assms by (auto simp: handshake_def relabel_Inr socks5_connect_def onward_Inr)
  from greet_Inr [OF steps(1)] login_Inr [OF steps(2)] request_Inr [OF steps(3)] show ?thesis
    by (metis append.assoc)
qed

section \<open>Base64\<close>

text \<open>The decoder of RFC 4648, section 4.\<close>

definition base64_position :: "char \<Rightarrow> nat option" where
  "base64_position c =
     (if c \<in> set base64_table then Some (length (takeWhile (\<lambda>d. d \<noteq> c) base64_table)) else None)"

definition quad :: "nat \<Rightarrow> nat \<Rightarrow> nat \<Rightarrow> nat \<Rightarrow> bytes" where
  "quad p q r s = [byte_of (p * 4 + q div 16), byte_of (q mod 16 * 16 + r div 4), byte_of (r mod 4 * 64 + s)]"

fun base64_reader :: "str \<Rightarrow> bytes option" where
  "base64_reader [] = Some []"
| "base64_reader (a # b # c # d # s) =
     (case (base64_position a, base64_position b) of
        (Some p, Some q) \<Rightarrow>
          if c = CHR ''='' then (if d = CHR ''='' \<and> s = [] then Some (take 1 (quad p q 0 0)) else None)
          else (case base64_position c of
              None \<Rightarrow> None
            | Some r \<Rightarrow>
                if d = CHR ''='' then (if s = [] then Some (take 2 (quad p q r 0)) else None)
                else (case base64_position d of
                    None \<Rightarrow> None
                  | Some t \<Rightarrow> map_option ((@) (quad p q r t)) (base64_reader s)))
      | _ \<Rightarrow> None)"
| "base64_reader _ = None"

lemma base64_position_table: "k < 64 \<Longrightarrow> base64_position (base64_table ! k) = Some k"
proof -
  have "list_all (\<lambda>k. base64_position (base64_table ! k) = Some k) [0..<64]" by code_simp
  then show "k < 64 \<Longrightarrow> ?thesis" by (simp add: list_all_iff)
qed

lemma base64_position_sextet: "base64_position (sextet k n) = Some (n div 64 ^ k mod 64)"
  by (simp add: sextet_def base64_position_table)

lemma base64_table_plain: "list_all (\<lambda>c. is_alnum c \<or> c = CHR ''+'' \<or> c = CHR ''/'') base64_table"
  by code_simp

lemma sextet_table: "sextet k n \<in> set base64_table"
  unfolding sextet_def by (rule nth_mem) (simp add: base64_table_def)

lemma sextet_not_pad: "sextet k n \<noteq> CHR ''=''"
  using sextet_table [of k n] base64_table_plain by (auto simp: list_all_iff is_alnum_def is_digit_def is_upper_def is_lower_def)

lemma four_sextets:
  fixes n p q r s :: nat
  assumes "n = ((p * 64 + q) * 64 + r) * 64 + s" and "p < 64" and "q < 64" and "r < 64" and "s < 64"
  shows "n div 64 ^ 3 mod 64 = p" and "n div 64 ^ 2 mod 64 = q" and "n div 64 ^ 1 mod 64 = r" and "n div 64 ^ 0 mod 64 = s"
proof -
  have a: "n div 64 = (p * 64 + q) * 64 + r" using assms by simp
  then have b: "n div 64 div 64 = p * 64 + q" using assms(4) by simp
  then have c: "n div 64 div 64 div 64 = p" using assms(3) by simp
  have d: "n div 64 ^ 2 = n div 64 div 64" "n div 64 ^ 3 = n div 64 div 64 div 64"
    by (simp_all add: div_mult2_eq [symmetric])
  show "n div 64 ^ 3 mod 64 = p" using assms(2) by (simp only: c d(2) mod_less)
  show "n div 64 ^ 2 mod 64 = q" using assms(3) unfolding b d(1) by simp
  show "n div 64 ^ 1 mod 64 = r" using assms(4) by (simp only: a power_one_right mod_mult_self3 mod_less)
  show "n div 64 ^ 0 mod 64 = s" using assms(5) unfolding assms(1) by (simp only: power_0 div_by_1 mod_mult_self3 mod_less)
qed

lemma quad_sextets:
  fixes a b c :: u8
  defines "n \<equiv> be_value 0 [a, b, c]"
  shows "quad (n div 64 ^ 3 mod 64) (n div 64 ^ 2 mod 64) (n div 64 ^ 1 mod 64) (n div 64 ^ 0 mod 64) = [a, b, c]"
proof -
  have bound: "unat x < 256" for x :: u8 using unsigned_less [of x, where 'a = nat] by simp
  define p q r t where "p = unat a div 4" and "q = unat a mod 4 * 16 + unat b div 16"
    and "r = unat b mod 16 * 4 + unat c div 64" and "t = unat c mod 64"
  note pqrt = this
  have "n = ((p * 64 + q) * 64 + r) * 64 + t"
  proof -
    have "256 * (256 * x + y) + z = ((x1 * 64 + (x0 * 16 + y1)) * 64 + (y0 * 4 + z1)) * 64 + z0"
      if "x1 * 4 + x0 = x" "y1 * 16 + y0 = y" "z1 * 64 + z0 = z" for x x1 x0 y y1 y0 z z1 z0 :: nat
      using that by (auto simp: algebra_simps)
    from this [OF div_mult_mod_eq div_mult_mod_eq div_mult_mod_eq] show ?thesis
      unfolding n_def pqrt by simp
  qed
  moreover have "p < 64" "q < 64" "r < 64" "t < 64"
    using bound [of a] bound [of b] bound [of c] by (simp_all add: pqrt)
  ultimately have "quad (n div 64 ^ 3 mod 64) (n div 64 ^ 2 mod 64) (n div 64 ^ 1 mod 64) (n div 64 ^ 0 mod 64) = quad p q r t"
    by (simp only: four_sextets)
  also have "\<dots> = [a, b, c]"
    using bound [of a] bound [of b] bound [of c] by (simp add: quad_def byte_of_def pqrt)
  finally show ?thesis .
qed

lemma base64_reads_back: "base64_reader (base64 bs) = Some bs"
proof (induction bs rule: base64.induct)
  case (2 a)
  have "take 1 (quad (n div 64 ^ 3 mod 64) (n div 64 ^ 2 mod 64) 0 0) = [a]" if "n = be_value 0 [a, 0, 0]" for n
    using quad_sextets [of a 0 0] that by (simp add: quad_def)
  then show ?case by (simp add: Let_def base64_position_sextet)
next
  case (3 a b)
  have "take 2 (quad (n div 64 ^ 3 mod 64) (n div 64 ^ 2 mod 64) (n div 64 ^ 1 mod 64) 0) = [a, b]" if "n = be_value 0 [a, b, 0]" for n
    using quad_sextets [of a b 0] that by (simp add: quad_def)
  then show ?case by (simp add: Let_def base64_position_sextet sextet_not_pad)
next
  case (4 a b c bs)
  then show ?case
    using quad_sextets [of a b c] by (simp add: Let_def base64_position_sextet sextet_not_pad)
qed simp

lemma base64_graphic: "list_all graphic (base64 bs)"
proof -
  have "list_all graphic base64_table" by code_simp
  then have "graphic (sextet k n)" for k n using sextet_table by (simp add: list_all_iff)
  moreover have "graphic (CHR ''='')" by code_simp
  ultimately show ?thesis by (induction bs rule: base64.induct) (simp_all add: Let_def)
qed

lemma greet_depends:
  "offered a = offered b \<Longrightarrow> socks5_greet a = socks5_greet b"
  by (simp add: socks5_greet_def)

text \<open>
  C37. The login of a profile is shown only to a SOCKS5 server that asked for it: unless the first two
  bytes of the far end are version 5 and the login method, everything that is sent, and all that
  comes of the handshake, is the same for every login and password.
\<close>

theorem login_goes_only_to_who_asked:
  assumes "take 2 (concat (arrives l)) \<noteq> [5, 2]"
  shows "handshake (socks5_connect host port (Some (u, w))) l = handshake (socks5_connect host port (Some (u', w'))) l"
proof -
  have greet: "socks5_greet (Some (u', w')) = socks5_greet (Some (u, w))"
    by (rule greet_depends) (simp add: offered_def)
  have "socks5_connect host port (Some (u, w)) l = socks5_connect host port (Some (u', w')) l"
  proof (cases "socks5_greet (Some (u, w)) l")
    case (Pair res l')
    show ?thesis
    proof (cases res)
      case (Inr m)
      then have "concat (arrives l) = [5, m] @ concat (arrives l')"
        using Pair greet_Inr by simp
      with assms have "m \<noteq> 2" by auto
      then have "socks5_login (Some (u, w)) m = socks5_login (Some (u', w')) m"
        by (simp add: socks5_login_def)
      then show ?thesis by (simp add: socks5_connect_def onward_def greet Pair Inr)
    qed (simp add: socks5_connect_def onward_def greet Pair)
  qed
  then show ?thesis by (simp add: handshake_def relabel_def)
qed

text \<open>
  A refusal is named for what it was: silence, a hang-up and an answer in another protocol say
  that the far end is no SOCKS5 proxy (an \<open>H\<close> says that it is an HTTP proxy), and only a SOCKS5 server
  that turned the login down, or that takes no login at all, is reported as such.
\<close>

theorem refusals_are_named:
  "(length (concat (arrives l)) < 2 \<longrightarrow>
      fst (handshake (socks5_connect host port auth) l) =
        Inl (case ending l of Silent \<Rightarrow> Wrong_protocol Said_nothing | Breaks \<Rightarrow> Io_error
             | _ \<Rightarrow> Wrong_protocol Closed_unanswered))
   \<and> (\<forall>v m rest. concat (arrives l) = v # m # rest \<longrightarrow>
      fst (handshake (socks5_connect host port auth) l) =
        (if v = 72 then Inl (Wrong_protocol Answered_http)
         else if v \<noteq> 5 then Inl (Wrong_protocol (Answered_byte v))
         else if m = 255 \<and> auth \<noteq> None then Inl No_login_accepted
         else if m \<noteq> 0 \<and> (m \<noteq> 2 \<or> auth = None) then Inl Auth_rejected
         else fst (handshake (socks5_connect host port auth) l)))"
proof (intro conjI impI allI)
  let ?l = "l\<lparr>sent := sent l @ [5, byte_of (length (offered auth))] @ offered auth\<rparr>"
  assume "length (concat (arrives l)) < 2"
  then have "length (concat (arrives ?l)) < 2" by simp
  note short = receive_Inl [OF this]
  show "fst (handshake (socks5_connect host port auth) l) =
        Inl (case ending l of Silent \<Rightarrow> Wrong_protocol Said_nothing | Breaks \<Rightarrow> Io_error
             | _ \<Rightarrow> Wrong_protocol Closed_unanswered)"
    unfolding handshake_def relabel_def [of "\<lambda>e. if e = Timed_out then Wrong_protocol Said_nothing else e"]
      socks5_connect_def socks5_greet_def onward_def [of "onward _ _"] write_step
    unfolding onward_def relabel_def short
    by (cases "ending l") (simp_all add: end_error_def)
next
  fix v m rest
  let ?l = "l\<lparr>sent := sent l @ [5, byte_of (length (offered auth))] @ offered auth\<rparr>"
  assume "concat (arrives l) = v # m # rest"
  then have "concat (arrives ?l) = [v, m] @ rest" by simp
  then obtain l1 where l1: "receive 2 ?l = (Inr [v, m], l1)" by (rule receive_step [where n = 2]) simp_all
  then have greet: "socks5_greet auth l =
      (if v \<noteq> 5 then (Inl (Wrong_protocol (if v = 72 then Answered_http else Answered_byte v)), l1) else (Inr m, l1))"
    by (simp add: socks5_greet_def write_step onward_step relabel_Inr [THEN iffD2] fail_def ret_def)
  show "fst (handshake (socks5_connect host port auth) l) =
        (if v = 72 then Inl (Wrong_protocol Answered_http)
         else if v \<noteq> 5 then Inl (Wrong_protocol (Answered_byte v))
         else if m = 255 \<and> auth \<noteq> None then Inl No_login_accepted
         else if m \<noteq> 0 \<and> (m \<noteq> 2 \<or> auth = None) then Inl Auth_rejected
         else fst (handshake (socks5_connect host port auth) l))"
    by (auto simp: handshake_def relabel_def socks5_connect_def onward_def greet socks5_login_def fail_def)
qed

text \<open>
  The length of a login is one byte: a SOCKS5 server reads the login of a profile exactly when the
  name and the password have at most 255 bytes each; a longer one is written with its length cut.
\<close>

theorem login_is_read_if_short:
  "rfc_login (login_request u w @ q) = Some ((text_bytes u, text_bytes w), q)
   \<longleftrightarrow> length u \<le> 255 \<and> length w \<le> 255"
proof
  assume read: "rfc_login (login_request u w @ q) = Some ((text_bytes u, text_bytes w), q)"
  have cut: "unat (byte_of n) \<le> 255" for n
    using unsigned_less [of "byte_of n", where 'a = nat] by simp
  from read have u: "take (unat (byte_of (length u))) (text_bytes u @ byte_of (length w) # text_bytes w @ q) = text_bytes u"
    by (auto simp: rfc_login_def login_request_def split: list.splits if_splits)
  then have "length (take (unat (byte_of (length u))) (text_bytes u @ byte_of (length w) # text_bytes w @ q)) = length u"
    by simp
  then have lu: "length u \<le> 255"
    using cut [of "length u"] by simp
  from read have "take (unat (byte_of (length w))) (text_bytes w @ q) = text_bytes w"
    using lu by (simp add: rfc_login_def login_request_def unat_byte_of split: if_splits)
  then have "length (take (unat (byte_of (length w))) (text_bytes w @ q)) = length w" by simp
  then have "length w \<le> 255" using cut [of "length w"] by simp
  with lu show "length u \<le> 255 \<and> length w \<le> 255" by simp
qed (simp add: rfc_login_request)

section \<open>HTTP CONNECT\<close>

definition basic_login :: "str \<Rightarrow> (str \<times> str) option" where
  "basic_login t = Option.bind (base64_reader t) (\<lambda>b. split_once (CHR '':'') (bytes_text b))"

lemma onward_sent:
  assumes "sent (snd (f l)) = sent l" and "\<And>x l'. sent (snd (g x l')) = sent l'"
  shows "sent (snd (onward f g l)) = sent l"
  using assms by (auto simp: onward_def split: prod.split sum.split)

lemma relabel_snd [simp]: "snd (relabel h f l) = snd (f l)"
  by (auto simp: relabel_def split: prod.split sum.split)

lemma step_sent [simp]:
  "sent (snd (read_request_head l)) = sent l" "sent (snd (receive n l)) = sent l" "sent (snd (ret x l)) = sent l"
  "sent (snd (fail e l)) = sent l"
  by (simp_all add: read_request_head_def receive_def ret_def fail_def split: sum.split option.split prod.split)

lemma http_connect_sent:
  "sent (snd (http_connect host port auth l)) = sent l @ text_bytes (connect_head host port auth)"
  unfolding http_connect_def write_step by (subst onward_sent) (auto simp: Let_def)

text \<open>
  The login of an imported proxy is the one its HTTP proxy is shown: the request carries it in a
  \<open>Proxy-Authorization\<close> header of one line from which RFC 7617 reads the name and the password back.
\<close>

theorem imported_login_reaches_the_proxy:
  assumes "parse_line line = Inr p" and "login_of p = Some (u, w)"
  shows "\<exists>a t b. sent (snd (http_connect host port (login_of p) l)) =
      sent l @ text_bytes (a @ crlf @ ''Proxy-Authorization: Basic '' @ t @ crlf @ b)
    \<and> list_all graphic t \<and> basic_login t = Some (u, w)"
proof -
  let ?t = "base64 (text_bytes (u @ CHR '':'' # w))"
  have "proxy_ok p" using accepted_lines(1) assms(1) by blast
  then have "CHR '':'' \<notin> set u"
    using assms(2) by (auto simp: proxy_ok_def login_of_def split: option.splits)
  then have login: "basic_login ?t = Some (u, w)"
    by (simp add: basic_login_def base64_reads_back split_once_append)
  have head: "connect_head host port (login_of p) =
      (''CONNECT '' @ show_target host port @ '' HTTP/1.1'' @ crlf @ ''Host: '' @ show_target host port)
      @ crlf @ ''Proxy-Authorization: Basic '' @ ?t @ crlf @ ''Proxy-Connection: Keep-Alive'' @ crlf @ crlf"
    by (simp add: connect_head_def assms(2))
  show ?thesis
    unfolding http_connect_sent head by (rule exI, rule exI [of _ ?t]) (blast intro: login base64_graphic)
qed

lemma read_head_Inr:
  assumes "read_head e buf cs = Inr ((head, leftover), rest)"
  shows "buf @ concat cs = head @ leftover @ concat rest \<and> find_headers_end (head @ leftover) = Some (length head)"
  using assms
proof (induction e buf cs rule: read_head.induct)
  case (2 e buf c cs)
  show ?case
  proof (cases "find_headers_end (buf @ c)")
    case None
    with 2 show ?thesis by (auto split: if_splits)
  next
    case (Some p)
    with 2(2) have parts: "head = take p (buf @ c)" "leftover = drop p (buf @ c)" "rest = cs" by auto
    then have "head @ leftover = buf @ c" by (simp only: append_take_drop_id)
    moreover have "length head = p"
      using find_headers_end_le [OF Some] by (simp only: parts length_take) simp
    ultimately show ?thesis using Some parts(3) by (metis append.assoc concat.simps(2))
  qed
qed simp

lemma http_tunnel_only_when_granted:
  assumes "handshake (http_connect host port auth) l = (Inr (), l')"
  shows "\<exists>head rest n. concat (arrives l) = head @ rest \<and> find_headers_end (head @ rest) = Some (length head)
    \<and> prefix ''HTTP/'' (bytes_text head) \<and> reply_status (bytes_text head) = n \<and> 200 \<le> n \<and> n \<le> 299"
proof -
  obtain head rest l1 where h: "read_request_head (l\<lparr>sent := sent l @ text_bytes (connect_head host port auth)\<rparr>) = (Inr (head, rest), l1)"
    and ok: "prefix ''HTTP/'' (bytes_text head)" "200 \<le> reply_status (bytes_text head)" "reply_status (bytes_text head) \<le> 299"
    using assms by (auto simp: handshake_def relabel_Inr http_connect_def write_step onward_Inr Let_def fail_def split: if_splits)
  then have "read_head (ending l) [] (arrives l) = Inr ((head, rest), arrives l1)"
    by (auto simp: read_request_head_def split: sum.splits prod.splits)
  from read_head_Inr [OF this] find_headers_end_append ok show ?thesis by (metis append.assoc append_Nil)
qed

section \<open>Which protocol an address speaks\<close>

text \<open>What one probe finds, and when: \<open>None\<close> is an answer that never comes.\<close>

definition answers_http :: "link option \<Rightarrow> bool" where
  "answers_http far =
     (case far of
        None \<Rightarrow> False
      | Some l \<Rightarrow>
          (case receive 5 l of (Inr head, _) \<Rightarrow> bytes_text head = ''HTTP/'' | (Inl _, _) \<Rightarrow> False))"

definition answers_socks5 :: "link option \<Rightarrow> bool" where
  "answers_socks5 far =
     (case far of
        None \<Rightarrow> False
      | Some l \<Rightarrow>
          (case receive 2 l of
             (Inr resp, _) \<Rightarrow> resp ! 0 = 5 \<and> (resp ! 1 = 0 \<or> resp ! 1 = 2 \<or> resp ! 1 = 255)
           | (Inl _, _) \<Rightarrow> False))"

type_synonym probe = "(nat \<times> bool) option"

definition within :: "nat \<Rightarrow> probe \<Rightarrow> nat \<times> bool" where
  "within limit pr = (case pr of Some (t, b) \<Rightarrow> if t < limit then (t, b) else (limit, False) | None \<Rightarrow> (limit, False))"

datatype kind = Is_http | Is_socks5

definition sniff_kind_within :: "nat \<Rightarrow> nat \<Rightarrow> bool \<Rightarrow> probe \<Rightarrow> probe \<Rightarrow> kind option" where
  "sniff_kind_within limit grace tie http socks =
     (let (th, h) = within limit http; (ts, s) = within limit socks;
          first_http = (th < ts \<or> th = ts \<and> tie);
          wait = (if (if first_http then h else s) then grace else limit);
          second = (if first_http then ts - th < wait \<and> s else th - ts < wait \<and> h);
          (h', s') = (if first_http then (h, second) else (second, s))
      in if h' \<and> \<not> s' then Some Is_http else if s' \<and> \<not> h' then Some Is_socks5 else None)"

lemma sniffed_kind_answered:
  assumes "0 < grace" and "grace \<le> limit"
  shows "sniff_kind_within limit grace tie http socks = Some Is_http \<longleftrightarrow>
      (\<exists>t < limit. http = Some (t, True) \<and> (\<forall>t' < limit. socks = Some (t', True) \<longrightarrow> t + grace \<le> t'))"
  using assms
  by (cases http; cases socks)
    (auto simp: sniff_kind_within_def within_def Let_def split: prod.splits if_splits)

section \<open>Examples\<close>

definition demo_far :: "bytes list \<Rightarrow> ending \<Rightarrow> link" where
  "demo_far reads e = \<lparr>arrives = reads, ending = e, sent = []\<rparr>"

text \<open>The reply of an HTTP proxy, and the first words of a server behind it.\<close>

definition demo_reply :: bytes where
  "demo_reply = text_bytes (''HTTP/1.1 200 OK'' @ crlf @ crlf)"

lemma demo_reply_bytes: "demo_reply = [72, 84, 84, 80, 47, 49, 46, 49, 32, 50, 48, 48, 32, 79, 75, 13, 10, 13, 10]"
  by code_simp

theorem head_does_not_depend_on_reads_witness:
  "\<exists>leftover rest. read_head Closes [] [take 17 demo_reply, drop 17 demo_reply @ [50, 50], [48]] =
     Inr ((demo_reply, leftover), rest) \<and> leftover @ concat rest = [50, 50, 48]"
proof -
  have "find_headers_end (concat [take 17 demo_reply, drop 17 demo_reply @ [50, 50], [48]]) = Some 19"
    by (simp add: demo_reply_bytes crlf2_def)
  from head_does_not_depend_on_reads [OF this, of Closes] show ?thesis
    by (simp add: demo_reply_bytes)
qed

text \<open>A server that chose the login, took it and granted the request, and the start of a payload.\<close>

definition demo_socks :: link where
  "demo_socks = demo_far [[5], [2, 1], [0, 5, 0, 7, 1, 10, 0, 0], [1, 4, 56, 83]] Closes"

lemma demo_socks_bytes: "concat (arrives demo_socks) = [5, 2] @ [1, 0] @ [5, 0, 7, 1, 10, 0, 0, 1, 4, 56] @ [83]"
  by (simp add: demo_socks_def demo_far_def)

lemma demo_answers:
  "login_answer (Some (''bob'', ''pw'')) 2 [1, 0]" "request_answer [5, 0, 7, 1, 10, 0, 0, 1, 4, 56]"
proof -
  show "login_answer (Some (''bob'', ''pw'')) 2 [1, 0]" by (simp add: login_answer_def)
  have "bound_address 1 [10, 0, 0, 1, 4, 56]" by (simp add: bound_address_def)
  then show "request_answer [5, 0, 7, 1, 10, 0, 0, 1, 4, 56]" by (auto simp: request_answer_def)
qed

theorem socks5_server_reads_what_was_meant_witness:
  "\<exists>l'. handshake (socks5_connect ''a.b'' 443 (Some (''bob'', ''pw''))) demo_socks = (Inr (), l')
    \<and> concat (arrives l') = [83]
    \<and> rfc_server True (sent l') = Some ([0, 2], Some ([98, 111, 98], [112, 119]), [97, 46, 98], 443)"
proof -
  have "sent demo_socks = []" by (simp add: demo_socks_def demo_far_def)
  from socks5_server_reads_what_was_meant [OF demo_answers demo_socks_bytes this, of "''a.b''" 443]
  show ?thesis by (simp add: offered_def text_bytes_def)
qed

theorem tunnel_only_when_granted_witness:
  "\<exists>m a r. login_answer (Some (''bob'', ''pw'')) m a \<and> request_answer r
    \<and> concat (arrives demo_socks) = [5, m] @ a @ r @ [83]"
proof -
  have "handshake (socks5_connect ''a.b'' 443 (Some (''bob'', ''pw''))) demo_socks =
      (Inr (), \<lparr>arrives = [[83]], ending = Closes,
         sent = [5, 2, 0, 2, 1, 3, 98, 111, 98, 2, 112, 119, 5, 1, 0, 3, 3, 97, 46, 98, 1, 187]\<rparr>)"
    by code_simp
  from tunnel_only_when_granted [OF this] show ?thesis by auto
qed

theorem login_goes_only_to_who_asked_witness:
  "handshake (socks5_connect ''a.b'' 443 (Some (''bob'', ''pw''))) (demo_far [[72, 84, 84]] Closes)
     = handshake (socks5_connect ''a.b'' 443 (Some (''eve'', ''x''))) (demo_far [[72, 84, 84]] Closes)"
  by (rule login_goes_only_to_who_asked) (simp add: demo_far_def)

theorem refusals_are_named_witness:
  "fst (handshake (socks5_connect ''a.b'' 443 None) (demo_far [[5]] Silent)) = Inl (Wrong_protocol Said_nothing)
    \<and> fst (handshake (socks5_connect ''a.b'' 443 None) (demo_far [[5, 255]] Silent)) = Inl Auth_rejected
    \<and> fst (handshake (socks5_connect ''a.b'' 443 (Some ([], []))) (demo_far [[5, 255]] Silent)) = Inl No_login_accepted"
  using refusals_are_named [of "demo_far [[5]] Silent" "''a.b''" 443 None]
    refusals_are_named [of "demo_far [[5, 255]] Silent" "''a.b''" 443 None]
    refusals_are_named [of "demo_far [[5, 255]] Silent" "''a.b''" 443 "Some ([], [])"]
  by (simp add: demo_far_def)

theorem imported_login_reaches_the_proxy_witness:
  "\<exists>a t b. sent (snd (http_connect ''a.b'' 443 (login_of demo_proxy_line) (demo_far [demo_reply] Closes))) =
      text_bytes (a @ crlf @ ''Proxy-Authorization: Basic '' @ t @ crlf @ b)
    \<and> list_all graphic t \<and> basic_login t = Some (''bob'', ''pw'')"
proof -
  have "login_of demo_proxy_line = Some (''bob'', ''pw'')"
    by (simp add: demo_proxy_line_def login_of_def)
  from imported_login_reaches_the_proxy [OF demo_line this, of "''a.b''" 443 "demo_far [demo_reply] Closes"]
  show ?thesis by (simp add: demo_far_def)
qed

text \<open>What comes in the same read as the reply of an HTTP proxy is lost: the same bytes in two reads are not.\<close>

lemma http_connect_granted:
  assumes "read_request_head (l\<lparr>sent := sent l @ text_bytes (connect_head host port auth)\<rparr>) = (Inr (h, r), l')"
    and "prefix ''HTTP/'' (bytes_text h)" and "200 \<le> reply_status (bytes_text h)" and "reply_status (bytes_text h) \<le> 299"
  shows "handshake (http_connect host port auth) l = (Inr (), l')"
  using assms by (simp add: handshake_def relabel_Inr http_connect_def write_step onward_step Let_def ret_def)

lemma demo_head_ends:
  "find_headers_end demo_reply = Some 19" "find_headers_end (demo_reply @ [50, 50, 48]) = Some 19" "length demo_reply = 19"
  by (simp_all add: demo_reply_bytes crlf2_def)

lemma words_after_the_reply_are_lost:
  "\<exists>l'. handshake (http_connect ''a.b'' 25 None) (demo_far [demo_reply @ [50, 50, 48]] Closes) = (Inr (), l') \<and> arrives l' = []"
  "\<exists>l'. handshake (http_connect ''a.b'' 25 None) (demo_far [demo_reply, [50, 50, 48]] Closes) = (Inr (), l')
     \<and> arrives l' = [[50, 50, 48]]"
proof -
  have "split_whitespace (bytes_text demo_reply) = [''HTTP/1.1'', ''200'', ''OK'']" by code_simp
  then have status: "reply_status (bytes_text demo_reply) = 200"
    by (simp add: reply_status_def parse_uint_def unsigned_digits_def is_digit_def)
  have ok: "prefix ''HTTP/'' (bytes_text demo_reply)" "200 \<le> reply_status (bytes_text demo_reply)"
      "reply_status (bytes_text demo_reply) \<le> 299"
    by (code_simp, simp_all add: status)
  have reads: "read_request_head (l\<lparr>arrives := [demo_reply @ [50, 50, 48]]\<rparr>) = (Inr (demo_reply, [50, 50, 48]), l\<lparr>arrives := []\<rparr>)"
    "read_request_head (l\<lparr>arrives := [demo_reply, [50, 50, 48]]\<rparr>) = (Inr (demo_reply, []), l\<lparr>arrives := [[50, 50, 48]]\<rparr>)" for l
    by (simp_all add: read_request_head_def demo_head_ends)
  have far: "demo_far rs Closes\<lparr>sent := x\<rparr> = \<lparr>arrives = [], ending = Closes, sent = x\<rparr>\<lparr>arrives := rs\<rparr>" for rs x
    by (simp add: demo_far_def)
  show "\<exists>l'. handshake (http_connect ''a.b'' 25 None) (demo_far [demo_reply @ [50, 50, 48]] Closes) = (Inr (), l') \<and> arrives l' = []"
    "\<exists>l'. handshake (http_connect ''a.b'' 25 None) (demo_far [demo_reply, [50, 50, 48]] Closes) = (Inr (), l')
     \<and> arrives l' = [[50, 50, 48]]"
    by (rule exI, rule conjI, rule http_connect_granted, unfold far reads, rule refl, rule ok, rule ok, rule ok, simp)+
qed

end
