(* ===== verification/Relay.thy ===== *)
theory Relay
  imports Domains Relay_Wire
begin

text \<open>
  The relay of the agent (\<open>agent/src/relay.rs\<close>): what becomes of a request of the browser, from its
  head to the connection that is opened for it and the first bytes that go there. The resolver of the
  machine, what accepts a connection, the proxies and the WireGuard tunnels are arguments. Heads are
  the bytes of valid UTF-8 text. The body of the start page is left out.
\<close>

unbundle bit_operations_syntax

section \<open>Local targets\<close>

definition octet :: "nat \<Rightarrow> u32 \<Rightarrow> nat" where
  "octet k a = unat a div 256 ^ (3 - k) mod 256"

definition is_local_v4 :: "u32 \<Rightarrow> bool" where
  "is_local_v4 a \<longleftrightarrow>
     octet 0 a = 127
     \<or> octet 0 a = 10 \<or> (octet 0 a = 172 \<and> 16 \<le> octet 1 a \<and> octet 1 a \<le> 31) \<or> (octet 0 a = 192 \<and> octet 1 a = 168)
     \<or> (octet 0 a = 169 \<and> octet 1 a = 254)
     \<or> a = 0
     \<or> (octet 0 a = 100 \<and> 64 \<le> octet 1 a \<and> octet 1 a \<le> 127)"

definition is_local_ip :: "ip \<Rightarrow> bool" where
  "is_local_ip i =
     (case i of
        V4 a \<Rightarrow> is_local_v4 a
      | V6 a \<Rightarrow>
          a = 1 \<or> a = 0 \<or> segment0 a AND 0xfe00 = 0xfc00 \<or> segment0 a AND 0xffc0 = 0xfe80
          \<or> (case to_ipv4_mapped a of None \<Rightarrow> False | Some v4 \<Rightarrow> is_local_v4 v4))"

definition is_local_target :: "str \<Rightarrow> bool" where
  "is_local_target host =
     (let h = drop_while_end (\<lambda>c. c = CHR ''.'') (lower (trim_brackets host))
      in h = ''localhost'' \<or> suffix ''.localhost'' h \<or> suffix ''.local'' h
         \<or> (case parse_ip h of None \<Rightarrow> False | Some i \<Rightarrow> is_local_ip i))"

section \<open>Requests\<close>

definition parse_request_line :: "str \<Rightarrow> (str \<times> str) option" where
  "parse_request_line head =
     (case str_lines head of
        [] \<Rightarrow> None
      | line # _ \<Rightarrow> (case split_whitespace line of m # t # _ \<Rightarrow> Some (m, t) | _ \<Rightarrow> None))"

definition target_host_port :: "str \<Rightarrow> nat \<Rightarrow> (str \<times> nat) option" where
  "target_host_port s default_port =
     (case strip_prefix ''['' s of
        Some rest \<Rightarrow>
          map_option (\<lambda>(host, tail).
              (host, case Option.bind (strip_prefix '':'' tail) parse_u16 of None \<Rightarrow> default_port | Some p \<Rightarrow> p))
            (split_once (CHR '']'') rest)
      | None \<Rightarrow>
          (case rsplit_once (CHR '':'') s of
             Some (h, p) \<Rightarrow> if h \<noteq> [] then map_option (Pair h) (parse_u16 p) else Some (s, default_port)
           | None \<Rightarrow> Some (s, default_port)))"

definition absolute_uri_host :: "str \<Rightarrow> str option" where
  "absolute_uri_host target =
     map_option (\<lambda>rest. hd (split_on (CHR ''/'') rest))
       (case strip_prefix ''http://'' target of Some r \<Rightarrow> Some r | None \<Rightarrow> strip_prefix ''https://'' target)"

definition header_host :: "str \<Rightarrow> str option" where
  "header_host head =
     map_option (\<lambda>(_, v). trim v)
       (Option.bind (List.find (\<lambda>l. prefix ''host:'' (lower l)) (str_lines head)) (split_once (CHR '':'')))"

text \<open>From the first slash on.\<close>

definition path_of :: "str \<Rightarrow> str option" where
  "path_of r = map_option (\<lambda>(_, t). CHR ''/'' # t) (split_once (CHR ''/'') r)"

datatype route = Start | Probe | Probe_js | Probe_sw | Missing

record 'w relay =
  rl_upstream :: "'w upstream"
  rl_blocked :: blocklist
  rl_token :: str
  rl_port :: "nat option"
  rl_allow_local :: bool

definition start_host :: str where
  "start_host = ''fury.invalid''"

definition is_ours :: "str \<Rightarrow> nat option \<Rightarrow> bool" where
  "is_ours host port =
     (let (name, p) = (case rsplit_once (CHR '':'') host of Some (n, p) \<Rightarrow> (n, parse_u16 p) | None \<Rightarrow> (host, None))
      in name = start_host
         \<or> (name = ''127.0.0.1'' \<or> name = ''localhost'') \<and> p \<noteq> None \<and> p = port)"

definition route_of :: "'w relay \<Rightarrow> str \<Rightarrow> str \<Rightarrow> route option" where
  "route_of r target head =
     (let host = (case absolute_uri_host target of Some h \<Rightarrow> h | None \<Rightarrow> (case header_host head of Some h \<Rightarrow> h | None \<Rightarrow> []))
      in if \<not> is_ours host (rl_port r) then None
         else
           (let path0 = (case Option.bind (strip_prefix ''http://'' target) path_of of Some p \<Rightarrow> p | None \<Rightarrow> target);
                path = hd (split_on (CHR ''?'') path0)
            in map_option (\<lambda>rest.
                 if rest = ''/'' \<or> rest = [] then Start
                 else if rest = ''/probe/'' \<or> rest = ''/probe'' then Probe
                 else if rest = ''/probe/probe.js'' then Probe_js
                 else if rest = ''/probe/sw-probe.js'' then Probe_sw
                 else Missing)
               (Option.bind (strip_prefix ''/'' path) (strip_prefix (rl_token r)))))"

definition target_of :: "str \<Rightarrow> str \<Rightarrow> str \<Rightarrow> (str \<times> nat) option" where
  "target_of method target head =
     (if method = ''CONNECT'' then target_host_port target 443
      else Option.bind (case absolute_uri_host target of Some h \<Rightarrow> Some h | None \<Rightarrow> header_host head)
             (\<lambda>h. target_host_port h 80))"

section \<open>What is forwarded\<close>

definition hop_header :: "str \<Rightarrow> bool" where
  "hop_header l \<longleftrightarrow> prefix ''proxy-connection:'' (lower l) \<or> prefix ''proxy-authorization:'' (lower l)"

definition origin_line :: "str \<Rightarrow> str" where
  "origin_line line =
     (let ps = split_whitespace line;
          m = (case ps of x # _ \<Rightarrow> x | _ \<Rightarrow> ''GET'');
          t = (case ps of _ # x # _ \<Rightarrow> x | _ \<Rightarrow> ''/'');
          v = (case ps of _ # _ # x # _ \<Rightarrow> x | _ \<Rightarrow> ''HTTP/1.1'');
          path = (case Option.bind (case strip_prefix ''http://'' t of Some r \<Rightarrow> Some r | None \<Rightarrow> strip_prefix ''https://'' t) path_of of
                    Some p \<Rightarrow> p | None \<Rightarrow> if prefix ''http'' t then ''/'' else t)
      in m @ '' '' @ path @ '' '' @ v)"

definition strip_proxy_headers :: "str \<Rightarrow> str" where
  "strip_proxy_headers head =
     (case str_lines head of
        [] \<Rightarrow> []
      | l # ls \<Rightarrow> origin_line l @ crlf @ concat (map (\<lambda>h. h @ crlf) (List.filter (\<lambda>h. \<not> hop_header h) ls)))
     @ crlf"

section \<open>Connections\<close>

record 'w world =
  resolves :: "str \<Rightarrow> ip list"
  accepts :: "ip list \<Rightarrow> nat \<Rightarrow> bool"
  proxy_at :: "str \<Rightarrow> nat \<Rightarrow> link option"
  tunnels :: "'w \<Rightarrow> str \<Rightarrow> nat \<Rightarrow> bool"

text \<open>From this machine, through a proxy, or inside a tunnel.\<close>

datatype 'w conn = From_here "ip list" nat | Through link | In_tunnel 'w str nat

definition resolve_here :: "'w world \<Rightarrow> str \<Rightarrow> relay_error + ip list" where
  "resolve_here env host = (if resolves env host = [] then Inl Upstream_unreachable else Inr (resolves env host))"

definition connect_resolved :: "'w world \<Rightarrow> ip list \<Rightarrow> nat \<Rightarrow> relay_error + 'w conn" where
  "connect_resolved env addrs port =
     (if accepts env addrs port then Inr (From_here addrs port) else Inl Upstream_unreachable)"

definition dial_local :: "'w world \<Rightarrow> str \<Rightarrow> nat \<Rightarrow> relay_error + 'w conn" where
  "dial_local env host port =
     and_then (resolve_here env host) (\<lambda>addrs.
       if \<not> list_all is_private_network addrs then Inl (Connect_rejected ''not a private address'')
       else connect_resolved env addrs port)"

definition connect_upstream :: "'w world \<Rightarrow> str \<Rightarrow> nat \<Rightarrow> unit wire \<Rightarrow> relay_error + 'w conn" where
  "connect_upstream env phost pport steps =
     (case proxy_at env phost pport of
        None \<Rightarrow> Inl Upstream_unreachable
      | Some l \<Rightarrow> (case handshake steps l of (Inl e, _) \<Rightarrow> Inl e | (Inr _, l') \<Rightarrow> Inr (Through l')))"

definition dial :: "'w relay \<Rightarrow> 'w world \<Rightarrow> str \<Rightarrow> nat \<Rightarrow> relay_error + 'w conn" where
  "dial r env host port =
     (case rl_upstream r of
        Http phost pport auth \<Rightarrow> connect_upstream env phost pport (http_connect host port auth)
      | Socks5 phost pport auth \<Rightarrow> connect_upstream env phost pport (socks5_connect host port auth)
      | Direct \<Rightarrow>
          and_then (resolve_here env host) (\<lambda>addrs.
            if \<not> rl_allow_local r \<and> list_ex is_local_ip addrs
            then Inl (Connect_rejected ''resolves to an address on this machine or its network'')
            else connect_resolved env addrs port)
      | WireGuard w \<Rightarrow>
          if tunnels env w host port then Inr (In_tunnel w host port) else Inl (Connect_rejected ''tunnel''))"

section \<open>A request\<close>

text \<open>
  What becomes of a request: the connection is dropped, a page of the relay's own, a status line, or
  a connection to the host it asked for and the first bytes that go there; from then on the relay
  copies.
\<close>

datatype 'w outcome = Dropped | Page route | Status nat | Joined "'w conn" str

text \<open>The host and port of a request, decided on and dialled.\<close>

definition open_target :: "'w relay \<Rightarrow> 'w world \<Rightarrow> str \<Rightarrow> nat \<Rightarrow> str \<Rightarrow> 'w outcome" where
  "open_target r env host port first =
     (if blocks (rl_blocked r) host then Status 403
      else
        (let local = reached_locally (rl_blocked r) host
         in if \<not> local \<and> \<not> rl_allow_local r \<and> is_local_target host then Status 502
            else (case (if local then dial_local env host port else dial r env host port) of
                Inl _ \<Rightarrow> Status 502
              | Inr c \<Rightarrow> Joined c first)))"

definition handle_request :: "'w relay \<Rightarrow> 'w world \<Rightarrow> str \<Rightarrow> str \<Rightarrow> 'w outcome" where
  "handle_request r env head leftover =
     (case parse_request_line head of
        None \<Rightarrow> Dropped
      | Some (method, target) \<Rightarrow>
          (case (if method = ''CONNECT'' then None else route_of r target head) of
             Some p \<Rightarrow> Page p
           | None \<Rightarrow>
               (case target_of method target head of
                  None \<Rightarrow> Dropped
                | Some (host, port) \<Rightarrow>
                    open_target r env host port
                      (if method = ''CONNECT'' then [] else strip_proxy_headers head @ leftover))))"

definition handle_client :: "'w relay \<Rightarrow> 'w world \<Rightarrow> link \<Rightarrow> 'w outcome" where
  "handle_client r env client =
     (case read_request_head client of
        (Inl _, _) \<Rightarrow> Dropped
      | (Inr (head, leftover), _) \<Rightarrow> handle_request r env (bytes_text head) (bytes_text leftover))"

lemma dial_local_Inr:
  "dial_local env host port = Inr c \<Longrightarrow>
     c = From_here (resolves env host) port \<and> resolves env host \<noteq> [] \<and> list_all is_private_network (resolves env host)"
  by (auto simp: dial_local_def resolve_here_def connect_resolved_def split: if_splits)

lemma connect_upstream_Inr:
  "connect_upstream env ph pp steps = Inr c \<Longrightarrow> \<exists>l l'. proxy_at env ph pp = Some l \<and> handshake steps l = (Inr (), l') \<and> c = Through l'"
  by (auto simp: connect_upstream_def split: option.splits prod.splits sum.splits)

lemma dial_Inr:
  assumes "dial r env host port = Inr c"
  obtains "rl_upstream r = Direct" and "c = From_here (resolves env host) port" and "resolves env host \<noteq> []"
      and "rl_allow_local r \<or> \<not> list_ex is_local_ip (resolves env host)"
    | ph pp auth l l' where "rl_upstream r = Http ph pp auth" and "proxy_at env ph pp = Some l"
      and "handshake (http_connect host port auth) l = (Inr (), l')" and "c = Through l'"
    | ph pp auth l l' where "rl_upstream r = Socks5 ph pp auth" and "proxy_at env ph pp = Some l"
      and "handshake (socks5_connect host port auth) l = (Inr (), l')" and "c = Through l'"
    | w where "rl_upstream r = WireGuard w" and "c = In_tunnel w host port"
  using assms
  by (cases "rl_upstream r")
    (auto simp: dial_def resolve_here_def connect_resolved_def split: if_splits dest!: connect_upstream_Inr)

lemma open_target_Joined:
  assumes "open_target r env host port first = Joined c first'"
  shows "\<not> blocks (rl_blocked r) host" and "first' = first"
    and "if reached_locally (rl_blocked r) host then dial_local env host port = Inr c
         else dial r env host port = Inr c \<and> (rl_allow_local r \<or> \<not> is_local_target host)"
  using assms by (auto simp: open_target_def Let_def split: if_splits sum.splits)

text \<open>The host and port the head of a client asks for.\<close>

definition asked_for :: "link \<Rightarrow> (str \<times> nat) option" where
  "asked_for client =
     (case fst (read_request_head client) of
        Inl _ \<Rightarrow> None
      | Inr (head, _) \<Rightarrow>
          Option.bind (parse_request_line (bytes_text head)) (\<lambda>(m, t). target_of m t (bytes_text head)))"

lemma handle_client_Joined:
  assumes "handle_client r env client = Joined c first"
  obtains host port where "asked_for client = Some (host, port)" and "open_target r env host port first = Joined c first"
proof -
  obtain head leftover where head: "fst (read_request_head client) = Inr (head, leftover)"
      "handle_request r env (bytes_text head) (bytes_text leftover) = Joined c first"
    using assms by (auto simp: handle_client_def split: prod.splits sum.splits)
  then obtain m t where line: "parse_request_line (bytes_text head) = Some (m, t)"
    by (auto simp: handle_request_def split: option.splits)
  with head(2) obtain host port first' where o: "target_of m t (bytes_text head) = Some (host, port)"
      "open_target r env host port first' = Joined c first"
    by (auto simp: handle_request_def split: option.splits prod.splits if_splits)
  then have "open_target r env host port first = Joined c first"
    using open_target_Joined(2) [OF o(2)] by simp
  moreover have "asked_for client = Some (host, port)"
    using head(1) line o(1) by (simp add: asked_for_def)
  ultimately show thesis by (rule that [rotated])
qed

text \<open>
  C36. What the relay of a profile refuses of this machine and its network, unless it is told to allow them. It joins
  a client only to a host no list blocks. A host a list puts on the local network is reached from here, at private
  addresses only. Any other host is not the literal spelling of a local name or address; and if it is reached from here,
  as a direct profile does, none of the addresses it resolves to is local. What a proxy or a tunnel makes of a name that
  is not such a spelling is not seen: a proxy that runs on this machine can still resolve one to a local address.
\<close>

theorem local_targets_are_refused:
  assumes "\<not> rl_allow_local r" and "handle_client r env client = Joined c first"
  shows "\<exists>host port. asked_for client = Some (host, port) \<and> \<not> blocks (rl_blocked r) host
    \<and> (if reached_locally (rl_blocked r) host
       then c = From_here (resolves env host) port \<and> list_all is_private_network (resolves env host)
       else \<not> is_local_target host \<and> (\<forall>addrs p. c = From_here addrs p \<longrightarrow> addrs = resolves env host \<and> \<not> list_ex is_local_ip addrs))"
proof -
  obtain host port where asked: "asked_for client = Some (host, port)"
    and o: "open_target r env host port first = Joined c first"
    by (rule handle_client_Joined [OF assms(2)])
  note facts = open_target_Joined [OF o]
  show ?thesis
  proof (cases "reached_locally (rl_blocked r) host")
    case True
    with facts asked dial_local_Inr show ?thesis by (intro exI [of _ host] exI [of _ port]) auto
  next
    case False
    with facts assms(1) have d: "dial r env host port = Inr c" and target: "\<not> is_local_target host" by auto
    from d have "\<forall>addrs p. c = From_here addrs p \<longrightarrow> addrs = resolves env host \<and> \<not> list_ex is_local_ip addrs"
      using assms(1) by (cases rule: dial_Inr) auto
    with False facts(1) target asked show ?thesis by (intro exI [of _ host] exI [of _ port]) simp
  qed
qed

text \<open>
  C35. The kill-switch: a profile with a proxy or a tunnel and no list of local hosts never opens a
  connection from this machine; what it is joined to is a tunnel, or a proxy that answered the
  handshake of its own protocol with a grant for the host.
\<close>

theorem nothing_leaves_around_the_proxy:
  assumes "rl_upstream r \<noteq> Direct" and "\<And>host. \<not> reached_locally (rl_blocked r) host"
    and "handle_client r env client = Joined c first"
  shows "\<exists>host port. asked_for client = Some (host, port) \<and> \<not> blocks (rl_blocked r) host
    \<and> ((\<exists>w. rl_upstream r = WireGuard w \<and> c = In_tunnel w host port)
       \<or> (\<exists>ph pp auth l l'. proxy_at env ph pp = Some l \<and> c = Through l'
            \<and> (rl_upstream r = Http ph pp auth \<and> handshake (http_connect host port auth) l = (Inr (), l')
               \<or> rl_upstream r = Socks5 ph pp auth \<and> handshake (socks5_connect host port auth) l = (Inr (), l'))))"
proof -
  obtain host port where asked: "asked_for client = Some (host, port)"
    and o: "open_target r env host port first = Joined c first"
    by (rule handle_client_Joined [OF assms(3)])
  with assms(2) open_target_Joined [OF o] have "dial r env host port = Inr c" "\<not> blocks (rl_blocked r) host" by auto
  then show ?thesis
    using assms(1) asked by (cases rule: dial_Inr) (intro exI [of _ host] exI [of _ port], auto)+
qed


section \<open>Pages of the relay's own\<close>

lemma split_by_hd: "\<exists>rest. s = hd (split_by P s) @ rest"
  by (induction s) (auto split: list.split)

lemma strip_prefix_Some: "strip_prefix p s = Some t \<longleftrightarrow> s = p @ t"
  by (auto simp: strip_prefix_def prefix_def)

lemma path_of_Some: "path_of s = Some p \<Longrightarrow> suffix p s"
  by (auto simp: path_of_def split_once_Some suffix_def)

lemma route_of_Some:
  assumes "route_of r target head = Some p"
  shows "\<exists>a b. target = a @ CHR ''/'' # rl_token r @ b"
proof -
  define path0 where "path0 = (case Option.bind (strip_prefix ''http://'' target) path_of of Some p \<Rightarrow> p | None \<Rightarrow> target)"
  obtain rest where "hd (split_on (CHR ''?'') path0) = CHR ''/'' # rl_token r @ rest"
    using assms by (auto simp: route_of_def Let_def path0_def strip_prefix_Some bind_eq_Some_conv split: if_splits)
  moreover obtain q where "path0 = hd (split_on (CHR ''?'') path0) @ q"
    using split_by_hd by blast
  moreover have "suffix path0 target"
  proof (cases "Option.bind (strip_prefix ''http://'' target) path_of")
    case (Some q)
    then obtain v where v: "strip_prefix ''http://'' target = Some v" "path_of v = Some q"
      by (auto simp: bind_eq_Some_conv)
    have "path0 = q" by (simp only: path0_def Some option.case)
    moreover have "target = ''http://'' @ v" using v(1) by (simp only: strip_prefix_Some)
    ultimately show ?thesis
      by (simp only: suffix_appendI [OF path_of_Some [OF v(2)]])
  qed (simp add: path0_def)
  ultimately show ?thesis by (metis append.assoc append_Cons suffix_def)
qed

text \<open>
  The relay answers a request itself only on a path that starts with its token, and only for a
  name of its own: a page that does not know the token gets for those names what it gets for any
  other host.
\<close>

theorem own_pages_need_the_token:
  assumes "handle_client r env client = Page p"
  shows "\<exists>head rest method target a b. fst (read_request_head client) = Inr (head, rest)
    \<and> parse_request_line (bytes_text head) = Some (method, target) \<and> method \<noteq> ''CONNECT''
    \<and> target = a @ CHR ''/'' # rl_token r @ b"
proof -
  obtain head rest where head: "fst (read_request_head client) = Inr (head, rest)"
      "handle_request r env (bytes_text head) (bytes_text rest) = Page p"
    using assms by (auto simp: handle_client_def split: prod.splits sum.splits)
  have "open_target r env host port first \<noteq> Page p" for host port first
    by (auto simp: open_target_def Let_def split: sum.split)
  with head(2) obtain m t where "parse_request_line (bytes_text head) = Some (m, t)" "m \<noteq> ''CONNECT''"
      "route_of r t (bytes_text head) = Some p"
    by (auto simp: handle_request_def split: option.splits if_splits)
  with head(1) route_of_Some show ?thesis by blast
qed

section \<open>Local addresses\<close>

lemma octet_div: "octet 0 a = unat a div 2 ^ 24" "octet 1 a = unat a div 2 ^ 16 mod 256"
proof -
  have "unat a div 2 ^ 24 < 256"
    using word_bound [of a] by (simp add: less_mult_imp_div_less)
  then show "octet 0 a = unat a div 2 ^ 24" "octet 1 a = unat a div 2 ^ 16 mod 256"
    by (simp_all add: octet_def)
qed

lemma local_v4:
  "is_local_v4 a \<longleftrightarrow> is_private_v4 a \<or> unat a div 2 ^ 24 = 127 \<or> unat a div 2 ^ 16 = 169 * 256 + 254 \<or> a = 0"
proof -
  have pair: "x div 256 = 169 \<and> x mod 256 = 254 \<longleftrightarrow> x = 169 * 256 + 254" for x :: nat
  proof
    assume "x div 256 = 169 \<and> x mod 256 = 254"
    then have "x = 169 * 256 + 254" using div_mult_mod_eq [of x 256] by (elim conjE) (simp only:)
    then show "x = 169 * 256 + 254" .
  qed simp
  have "unat a div 2 ^ 24 = unat a div 2 ^ 16 div 256"
    using div_mult2_eq [of "unat a" "2 ^ 16" 256] by simp
  then have "unat a div 2 ^ 24 = 169 \<and> unat a div 2 ^ 16 mod 256 = 254 \<longleftrightarrow> unat a div 2 ^ 16 = 169 * 256 + 254"
    using pair [of "unat a div 2 ^ 16"] by simp
  then show ?thesis
    unfolding is_local_v4_def is_private_v4_def octet_div Let_def by blast
qed

lemma mapped_segment:
  assumes "to_ipv4_mapped a \<noteq> None"
  shows "segment0 a = 0" and "a \<noteq> 0" and "a \<noteq> 1"
proof -
  have d: "unat a div 2 ^ 32 = 65535" using assms mapped_unit by blast
  then have "unat a div 2 ^ 112 = 0"
    using div_mult2_eq [of "unat a" "2 ^ 32" "2 ^ 80"] by simp
  then have "unat (drop_bit 112 a) = 0" unfolding unat_drop_bit_eq by (simp add: drop_bit_eq_div)
  then have "drop_bit 112 a = 0" by (simp only: unat_eq_zero)
  then show "segment0 a = 0" by (simp add: segment0_def)
  show "a \<noteq> 0" "a \<noteq> 1" using d by auto
qed

text \<open>
  The local addresses the relay refuses are the private ones that a list may put on the local
  network, and besides them loopback, link-local and the unspecified address and nothing else, in
  either family and for an IPv4 address inside an IPv6 one too.
\<close>

theorem local_addresses:
  "is_local_ip i \<longleftrightarrow> is_private_network i
    \<or> (case unmapped i of
         V4 a \<Rightarrow> unat a div 2 ^ 24 = 127 \<or> unat a div 2 ^ 16 = 169 * 256 + 254 \<or> a = 0
       | V6 a \<Rightarrow> a = 1 \<or> a = 0 \<or> segment0 a AND 0xffc0 = 0xfe80)"
proof (cases i)
  case (V4 a)
  then show ?thesis by (simp add: is_local_ip_def is_private_network_def unmapped_def local_v4)
next
  case (V6 a)
  show ?thesis
  proof (cases "to_ipv4_mapped a")
    case None
    with V6 show ?thesis by (auto simp: is_local_ip_def is_private_network_def unmapped_def)
  next
    case (Some v4)
    with V6 mapped_segment [of a] show ?thesis
      by (simp add: is_local_ip_def is_private_network_def unmapped_def local_v4)
  qed
qed

section \<open>What is forwarded\<close>

definition whole_line :: "str \<Rightarrow> bool" where
  "whole_line l \<longleftrightarrow> CHR 0x0A \<notin> set l \<and> (l = [] \<or> last l \<noteq> CHR 0x0D)"

lemma split_on_last: "c \<notin> set s \<Longrightarrow> split_on c s = [s]"
  by (rule split_by_single) auto

lemma strip_cr_whole: "whole_line l \<Longrightarrow> strip_cr (l @ [CHR 0x0D]) = l"
  by (simp add: strip_cr_def)

lemma split_lines:
  "\<forall>l \<in> set ls. whole_line l \<Longrightarrow>
     split_on (CHR 0x0A) (concat (map (\<lambda>l. l @ crlf) ls)) = map (\<lambda>l. l @ [CHR 0x0D]) ls @ [[]]"
proof (induction ls)
  case (Cons l ls)
  have "split_on (CHR 0x0A) ((l @ [CHR 0x0D]) @ CHR 0x0A # concat (map (\<lambda>l. l @ crlf) ls)) =
      (l @ [CHR 0x0D]) # split_on (CHR 0x0A) (concat (map (\<lambda>l. l @ crlf) ls))"
    using Cons.prems by (intro split_by_append) (auto simp: whole_line_def)
  with Cons show ?case by (simp add: crlf_def)
qed simp

lemma lines_of_head:
  assumes "\<forall>l \<in> set ls. whole_line l"
  shows "str_lines (concat (map (\<lambda>l. l @ crlf) ls)) = ls"
proof -
  have "map strip_cr (map (\<lambda>l. l @ [CHR 0x0D]) ls) = ls"
    using assms by (induction ls) (simp_all add: strip_cr_whole)
  then show ?thesis by (simp add: str_lines_def split_lines [OF assms] Let_def)
qed

text \<open>
  What goes to the server of a plain request is the request line in its origin form, the headers
  in their order without those for a proxy, and two empty lines where the browser sent one: the
  body that follows starts after the second.
\<close>

theorem forwarded_head:
  assumes "whole_line line" and "\<forall>h \<in> set headers. whole_line h"
  shows "strip_proxy_headers (concat (map (\<lambda>l. l @ crlf) (line # headers @ [[]]))) =
    concat (map (\<lambda>l. l @ crlf) (origin_line line # List.filter (\<lambda>h. \<not> hop_header h) headers @ [[], []]))"
proof -
  have "whole_line []" and "\<not> hop_header []" by (simp_all add: whole_line_def hop_header_def)
  then have "str_lines (concat (map (\<lambda>l. l @ crlf) (line # headers @ [[]]))) = line # headers @ [[]]"
    using assms by (intro lines_of_head) auto
  then show ?thesis by (simp add: strip_proxy_headers_def \<open>\<not> hop_header []\<close>)
qed


section \<open>Examples\<close>

definition demo_relay :: "unit upstream \<Rightarrow> unit relay" where
  "demo_relay up = \<lparr>rl_upstream = up, rl_blocked = empty_list, rl_token = ''t0ken'', rl_port = Some 80, rl_allow_local = False\<rparr>"

definition demo_world :: "unit world" where
  "demo_world = \<lparr>resolves = (\<lambda>_. [V4 134744072]), accepts = (\<lambda>_ _. True), proxy_at = (\<lambda>_ _. Some demo_socks), tunnels = (\<lambda>_ _ _. False)\<rparr>"

definition demo_client :: "str \<Rightarrow> link" where
  "demo_client line = demo_far [text_bytes (line @ crlf @ crlf)] Silent"

lemma empty_list_lists_nothing: "\<not> blocks empty_list host" "\<not> reached_locally empty_list host"
  by (simp_all add: empty_list_def blocks_def reached_locally_def list_is_empty_def refuses_nothing_def is_local_def list_len_def)

lemma demo_request_line:
  assumes "find_headers_end (text_bytes (line @ crlf @ crlf)) = Some (length line + 4)"
  shows "handle_client r env (demo_client line) = handle_request r env (line @ crlf @ crlf) []"
    and "read_request_head (demo_client line) = (Inr (text_bytes (line @ crlf @ crlf), []), (demo_client line)\<lparr>arrives := []\<rparr>)"
proof -
  have "length (text_bytes (line @ crlf @ crlf)) = length line + 4" by (simp add: crlf_def)
  then show head: "read_request_head (demo_client line) = (Inr (text_bytes (line @ crlf @ crlf), []), (demo_client line)\<lparr>arrives := []\<rparr>)"
    using assms by (simp add: read_request_head_def demo_client_def demo_far_def)
  show "handle_client r env (demo_client line) = handle_request r env (line @ crlf @ crlf) []"
    unfolding handle_client_def head prod.case sum.case bytes_text_bytes by (simp add: bytes_text_def)
qed

lemma demo_connect_line:
  "find_headers_end (text_bytes (''CONNECT a.b:80 HTTP/1.1'' @ crlf @ crlf)) = Some (length ''CONNECT a.b:80 HTTP/1.1'' + 4)"
  by code_simp

lemma demo_port: "parse_u16 ''80'' = Some 80"
  by (simp add: parse_uint_def unsigned_digits_def is_digit_def)

lemma demo_connect:
  "handle_client (demo_relay up) demo_world (demo_client ''CONNECT a.b:80 HTTP/1.1'') =
     (case dial (demo_relay up) demo_world ''a.b'' 80 of Inl _ \<Rightarrow> Status 502 | Inr c \<Rightarrow> Joined c [])"
proof -
  have "parse_request_line (''CONNECT a.b:80 HTTP/1.1'' @ crlf @ crlf) = Some (''CONNECT'', ''a.b:80'')" by code_simp
  moreover have "rsplit_once (CHR '':'') ''a.b:80'' = Some (''a.b'', ''80'')" by code_simp
  then have "target_host_port ''a.b:80'' 443 = Some (''a.b'', 80)"
    by (simp add: target_host_port_def strip_prefix_def demo_port)
  moreover have "\<not> is_local_target ''a.b''" by code_simp
  ultimately show ?thesis
    unfolding demo_request_line(1) [OF demo_connect_line]
    by (simp add: handle_request_def target_of_def open_target_def demo_relay_def empty_list_lists_nothing)
qed

lemma demo_direct:
  "dial (demo_relay Direct) demo_world host port = Inr (From_here [V4 134744072] port)"
proof -
  have "\<not> is_local_ip (V4 134744072)"
    by (simp add: is_local_ip_def is_local_v4_def octet_def)
  then show ?thesis
    by (simp add: dial_def demo_relay_def demo_world_def resolve_here_def connect_resolved_def and_then_def)
qed

theorem local_targets_are_refused_witness:
  "\<exists>host port. asked_for (demo_client ''CONNECT a.b:80 HTTP/1.1'') = Some (host, port)
    \<and> \<not> is_local_target host \<and> \<not> list_ex is_local_ip [V4 134744072]"
proof -
  have r: "\<not> rl_allow_local (demo_relay Direct)" "rl_blocked (demo_relay Direct) = empty_list" by (simp_all add: demo_relay_def)
  have "handle_client (demo_relay Direct) demo_world (demo_client ''CONNECT a.b:80 HTTP/1.1'') = Joined (From_here [V4 134744072] 80) []"
    by (simp add: demo_connect demo_direct)
  from local_targets_are_refused [OF r(1) this] show ?thesis
    by (auto simp: r(2) empty_list_lists_nothing)
qed

lemma demo_through:
  "handshake (socks5_connect ''a.b'' 80 (Some (''bob'', ''pw''))) demo_socks =
      (Inr (), \<lparr>arrives = [[83]], ending = Closes,
         sent = [5, 2, 0, 2, 1, 3, 98, 111, 98, 2, 112, 119, 5, 1, 0, 3, 3, 97, 46, 98, 0, 80]\<rparr>)"
  by code_simp

theorem nothing_leaves_around_the_proxy_witness:
  "\<exists>c. handle_client (demo_relay (Socks5 ''gw'' 1080 (Some (''bob'', ''pw'')))) demo_world
      (demo_client ''CONNECT a.b:80 HTTP/1.1'') = Joined c []
    \<and> (\<exists>l. c = Through l)"
proof -
  let ?r = "demo_relay (Socks5 ''gw'' 1080 (Some (''bob'', ''pw'')))"
  obtain c where c: "handle_client ?r demo_world (demo_client ''CONNECT a.b:80 HTTP/1.1'') = Joined c []"
    unfolding demo_connect by (simp add: dial_def demo_relay_def connect_upstream_def demo_world_def demo_through)
  have "rl_upstream ?r \<noteq> Direct" and "\<not> reached_locally (rl_blocked ?r) host" for host
    by (simp_all add: demo_relay_def empty_list_lists_nothing)
  from nothing_leaves_around_the_proxy [OF this c] c show ?thesis
    by (auto simp: demo_relay_def)
qed

lemma demo_page_line:
  "find_headers_end (text_bytes (''GET http://fury.invalid/t0ken/ HTTP/1.1'' @ crlf @ crlf)) =
     Some (length ''GET http://fury.invalid/t0ken/ HTTP/1.1'' + 4)"
  by code_simp

theorem own_pages_need_the_token_witness:
  "\<exists>a b. ''http://fury.invalid/t0ken/'' = a @ ''/t0ken'' @ b"
proof -
  let ?h = "''GET http://fury.invalid/t0ken/ HTTP/1.1'' @ crlf @ crlf"
  have line: "parse_request_line ?h = Some (''GET'', ''http://fury.invalid/t0ken/'')" by code_simp
  have "route_of (demo_relay Direct) ''http://fury.invalid/t0ken/'' ?h = Some Start" by code_simp
  with line have "handle_client (demo_relay Direct) demo_world (demo_client ''GET http://fury.invalid/t0ken/ HTTP/1.1'') = Page Start"
    unfolding demo_request_line(1) [OF demo_page_line] handle_request_def by simp
  from own_pages_need_the_token [OF this] show ?thesis
    unfolding demo_request_line(2) [OF demo_page_line] fst_conv sum.inject prod.inject bytes_text_bytes
    using line by (auto simp: demo_relay_def)
qed

theorem forwarded_head_witness:
  "strip_proxy_headers (concat (map (\<lambda>l. l @ crlf)
      [''POST http://a.b/x HTTP/1.1'', ''Host: a.b'', ''Proxy-Connection: keep-alive'', []])) =
    concat (map (\<lambda>l. l @ crlf) [''POST /x HTTP/1.1'', ''Host: a.b'', [], []])"
proof -
  have "whole_line ''POST http://a.b/x HTTP/1.1''" "\<forall>h \<in> set [''Host: a.b'', ''Proxy-Connection: keep-alive'']. whole_line h"
    by code_simp+
  note head = forwarded_head [OF this]
  have "origin_line ''POST http://a.b/x HTTP/1.1'' = ''POST /x HTTP/1.1''"
    "List.filter (\<lambda>h. \<not> hop_header h) [''Host: a.b'', ''Proxy-Connection: keep-alive''] = [''Host: a.b'']"
    by code_simp+
  with head show ?thesis by (simp only: append.simps)
qed

end
