(* ===== verification/Farm.thy ===== *)
theory Farm
  imports Prelude "HOL-Library.Multiset" "HOL-Library.AList"
begin

text \<open>
  Farming (\<open>agent/src/farm.rs\<close>): plans that warm a set of profiles a little every day, and the pass
  over them that closes days, plans the next and starts what is due. Instants are milliseconds since
  the epoch and dates are day numbers; the calendar of a time zone and of this machine, and what is
  drawn at random, are arguments. A number drawn from a range is any number brought into it, a
  shuffle the swaps of the library with such draws.
\<close>

section \<open>Plans\<close>

definition max_days :: nat where "max_days = 90"
definition max_sites_per_day :: nat where "max_sites_per_day = 100"
definition max_at_once :: nat where "max_at_once = 6"
definition stale_ms :: nat where "stale_ms = 2 * 60 * 60 * 1000"
definition min_window_ms :: int where "min_window_ms = 10 * 60 * 1000"

record target =
  t_id :: str
  t_name :: str
  t_origin :: str
  t_timezone :: "str option"

definition target_is_local :: "target \<Rightarrow> bool" where
  "target_is_local t \<longleftrightarrow> t_origin t = ''local''"

record spec =
  sp_name :: str
  sp_urls :: "str list"
  sp_days :: nat
  sp_sites :: "nat \<times> nat"
  sp_hours :: "nat \<times> nat"
  sp_dwell :: "nat \<times> nat"
  sp_follow_link :: bool
  sp_at_once :: nat
  sp_set_stage :: bool

definition check_spec :: "spec \<Rightarrow> str + unit" where
  "check_spec sp =
     and_then (demand (\<not> list_all (\<lambda>u. trim u = []) (sp_urls sp)) ''nothing to visit'') (\<lambda>_.
     and_then (demand (1 \<le> sp_days sp \<and> sp_days sp \<le> max_days) ''days'') (\<lambda>_.
     and_then (let (lo, hi) = sp_sites sp
               in demand (\<not> (lo < 1 \<or> hi < lo \<or> max_sites_per_day < hi)) ''sites a day'') (\<lambda>_.
     and_then (let (from_hour, to_hour) = sp_hours sp
               in demand (\<not> (24 < to_hour \<or> to_hour \<le> from_hour)) ''hours'') (\<lambda>_.
     and_then (demand (1 \<le> sp_at_once sp \<and> sp_at_once sp \<le> max_at_once) ''at once'') (\<lambda>_.
     let (dlo, dhi) = sp_dwell sp in demand (\<not> (dlo < 1 \<or> dhi < dlo)) ''time per page'')))))"

datatype session_outcome = Done nat nat | Failed str | Skipped str

record session =
  se_at :: nat
  se_urls :: "str list"
  se_started :: "nat option"
  se_ended :: "session_outcome option"

definition session_in_flight :: "session \<Rightarrow> bool" where
  "session_in_flight s \<longleftrightarrow> se_started s \<noteq> None \<and> se_ended s = None"

definition session_waiting :: "session \<Rightarrow> bool" where
  "session_waiting s \<longleftrightarrow> se_started s = None \<and> se_ended s = None"

record track =
  tr_days_done :: nat
  tr_last_day :: "int option"
  tr_day :: "int option"
  tr_window_end :: nat
  tr_sessions :: "session list"
  tr_sites :: nat
  tr_cookies :: "nat option"
  tr_last_error :: "str option"
  tr_stage_pending :: "str option"

definition new_track :: track where
  "new_track = \<lparr>tr_days_done = 0, tr_last_day = None, tr_day = None, tr_window_end = 0, tr_sessions = [],
     tr_sites = 0, tr_cookies = None, tr_last_error = None, tr_stage_pending = None\<rparr>"

record farm =
  fm_id :: str
  fm_created :: nat
  fm_spec :: spec
  fm_targets :: "target list"
  fm_tracks :: "(str \<times> track) list"
  fm_paused :: bool

definition track_in_flight :: "track \<Rightarrow> nat" where
  "track_in_flight tr = length (List.filter session_in_flight (tr_sessions tr))"

definition farm_in_flight :: "farm \<Rightarrow> nat" where
  "farm_in_flight f = sum_list (map (\<lambda>(_, tr). track_in_flight tr) (fm_tracks f))"

definition farm_finished :: "farm \<Rightarrow> bool" where
  "farm_finished f \<longleftrightarrow> list_all (\<lambda>t. case map_of (fm_tracks f) (t_id t) of
       None \<Rightarrow> False | Some tr \<Rightarrow> sp_days (fm_spec f) \<le> tr_days_done tr) (fm_targets f)"

text \<open>What a warm-up reports when it ends, and the plan of one.\<close>

record progress =
  pg_done :: nat
  pg_cookies_now :: nat
  pg_stopped :: bool
  pg_error :: "str option"

record warm_plan =
  wp_urls :: "str list"
  wp_dwell :: "nat \<times> nat"
  wp_follow_link :: bool
  wp_close_after :: bool
  wp_farm_id :: "str option"

definition session_plan :: "spec \<Rightarrow> str \<Rightarrow> str list \<Rightarrow> warm_plan" where
  "session_plan sp farm urls =
     \<lparr>wp_urls = urls, wp_dwell = sp_dwell sp, wp_follow_link = sp_follow_link sp, wp_close_after = True,
      wp_farm_id = Some farm\<rparr>"

section \<open>Time zones\<close>

text \<open>
  The local date of an instant; the earliest instant at which a local clock shows an hour, counted
  from the first hour of day 0; and the last date there is.
\<close>

record clock =
  date_of :: "int \<Rightarrow> int"
  earliest :: "int \<Rightarrow> int option"
  last_date :: int

record zones =
  named_zone :: "str \<Rightarrow> clock option"
  host_zone :: clock

definition zone_of :: "zones \<Rightarrow> str option \<Rightarrow> clock" where
  "zone_of zs name = (case Option.bind name (\<lambda>n. named_zone zs (trim n)) of Some z \<Rightarrow> z | None \<Rightarrow> host_zone zs)"

definition succ_date :: "clock \<Rightarrow> int \<Rightarrow> int" where
  "succ_date z d = (if d < last_date z then d + 1 else d)"

definition zone_at :: "clock \<Rightarrow> int \<Rightarrow> nat \<Rightarrow> int" where
  "zone_at z date hour =
     (let (d, h) = (if 24 \<le> hour then (succ_date z date, 0) else (date, hour));
          n = d * 24 + int h
      in case earliest z n of
           Some t \<Rightarrow> t
         | None \<Rightarrow> (case earliest z (n + 1) of Some t \<Rightarrow> t | None \<Rightarrow> n * 3600000))"

definition ms :: "int \<Rightarrow> nat" where
  "ms t = nat t"

section \<open>Planning a day\<close>

text \<open>\<open>rng.gen_range(lo..=hi)\<close> and \<open>shuffle\<close>.\<close>

definition gen_range :: "nat \<Rightarrow> nat \<Rightarrow> nat \<Rightarrow> nat" where
  "gen_range lo hi x = lo + x mod (hi - lo + 1)"

definition swap :: "nat \<Rightarrow> nat \<Rightarrow> 'a list \<Rightarrow> 'a list" where
  "swap i j xs = xs[i := xs ! j, j := xs ! i]"

fun shuffle_from :: "nat \<Rightarrow> (nat \<Rightarrow> nat) \<Rightarrow> 'a list \<Rightarrow> 'a list" where
  "shuffle_from 0 x xs = xs"
| "shuffle_from (Suc i) x xs = shuffle_from i x (swap (Suc i) (gen_range 0 (Suc i) (x i)) xs)"

definition shuffle :: "(nat \<Rightarrow> nat) \<Rightarrow> 'a list \<Rightarrow> 'a list" where
  "shuffle x xs = shuffle_from (length xs - 1) x xs"

text \<open>What one pass draws for one profile.\<close>

record day_draw =
  dr_sites :: nat
  dr_shuffle :: "nat \<Rightarrow> nat"
  dr_parts :: nat
  dr_offset :: "nat \<Rightarrow> nat"
  dr_delay :: nat

text \<open>The first day from \<open>date\<close> on whose hours have enough left in them; the loop has no other end.\<close>

partial_function (option) find_day :: "clock \<Rightarrow> nat \<times> nat \<Rightarrow> int \<Rightarrow> int \<Rightarrow> (int \<times> int \<times> int) option" where
  "find_day z hours now date =
     (let start = zone_at z date (fst hours);
          finish = zone_at z date (snd hours);
          begins = max start (now + 60000)
      in if min_window_ms \<le> finish - begins then Some (date, begins, finish)
         else find_day z hours now (succ_date z date))"

fun make_sessions :: "nat \<Rightarrow> nat \<Rightarrow> (nat \<Rightarrow> nat) \<Rightarrow> nat \<Rightarrow> nat \<Rightarrow> str list \<Rightarrow> session list" where
  "make_sessions base slot x i 0 rest = []"
| "make_sessions base slot x i (Suc left) rest =
     (let take_now = length rest div Suc left
      in \<lparr>se_at = base + slot * i + gen_range 0 (slot * 6 div 10) (x i), se_urls = take take_now rest,
          se_started = None, se_ended = None\<rparr>
         # make_sessions base slot x (Suc i) left (drop take_now rest))"

definition sites_today :: "spec \<Rightarrow> day_draw \<Rightarrow> nat" where
  "sites_today sp dr = max 1 (min (gen_range (fst (sp_sites sp)) (snd (sp_sites sp)) (dr_sites dr)) (max 1 (length (sp_urls sp))))"

definition parts_of :: "nat \<Rightarrow> day_draw \<Rightarrow> nat" where
  "parts_of k dr = (if k \<le> 3 then 1 else gen_range 1 (min (k div 2) 3) (dr_parts dr))"

definition plan_day :: "spec \<Rightarrow> clock \<Rightarrow> int option \<Rightarrow> int \<Rightarrow> day_draw \<Rightarrow> (int \<times> nat \<times> session list) option" where
  "plan_day sp z after now dr =
     (let today = date_of z now;
          date = (case after of None \<Rightarrow> today | Some l \<Rightarrow> if today \<le> l then succ_date z l else today)
      in map_option (\<lambda>(day, begins, finish).
           let k = sites_today sp dr;
               urls = take k (shuffle (dr_shuffle dr) (sp_urls sp));
               n = parts_of k dr;
               span = ms (max (finish - begins) 1);
               slot = span div n
           in (day, ms finish, make_sessions (ms begins) slot (dr_offset dr) 0 n urls))
         (find_day z (sp_hours sp) now date))"

section \<open>Operations on the plans\<close>

definition farm_label :: "farm \<Rightarrow> str" where
  "farm_label f =
     (if trim (sp_name (fm_spec f)) = [] then show_nat (length (fm_targets f)) @ '' profiles''
      else trim (sp_name (fm_spec f)))"

definition create :: "str \<Rightarrow> spec \<Rightarrow> target list \<Rightarrow> nat \<Rightarrow> farm list \<Rightarrow> str + farm list" where
  "create new_id sp targets now_ms fs =
     and_then (check_spec sp) (\<lambda>_.
     and_then (demand (targets \<noteq> []) ''no profiles in the plan'') (\<lambda>_.
       case List.map_filter (\<lambda>t. map_option (Pair t)
           (List.find (\<lambda>f. \<not> farm_finished f \<and> t_id t \<in> t_id ` set (fm_targets f)) fs)) targets of
         (t, f) # _ \<Rightarrow> Inl (t_name t @ '' is already in the plan '' @ farm_label f)
       | [] \<Rightarrow>
           Inr (fs @ [\<lparr>fm_id = new_id, fm_created = now_ms,
             fm_spec = sp\<lparr>sp_urls := List.filter (\<lambda>u. u \<noteq> []) (map trim (sp_urls sp))\<rparr>,
             fm_targets = targets, fm_tracks = [], fm_paused = False\<rparr>])))"

definition delete_farm :: "str \<Rightarrow> farm list \<Rightarrow> farm list \<times> bool" where
  "delete_farm i fs = (let fs' = List.filter (\<lambda>f. fm_id f \<noteq> i) fs in (fs', length fs' \<noteq> length fs))"

text \<open>The first element with a property, changed.\<close>

fun change_first :: "('a \<Rightarrow> bool) \<Rightarrow> ('a \<Rightarrow> 'a) \<Rightarrow> 'a list \<Rightarrow> 'a list" where
  "change_first P g [] = []"
| "change_first P g (x # xs) = (if P x then g x # xs else x # change_first P g xs)"

definition pause :: "str \<Rightarrow> bool \<Rightarrow> farm list \<Rightarrow> farm list \<times> bool" where
  "pause i paused fs =
     (change_first (\<lambda>f. fm_id f = i) (\<lambda>f. f\<lparr>fm_paused := paused\<rparr>) fs, list_ex (\<lambda>f. fm_id f = i) fs)"

definition with_track :: "str \<Rightarrow> str \<Rightarrow> (track \<Rightarrow> track) \<Rightarrow> farm list \<Rightarrow> farm list" where
  "with_track farm profile g fs =
     change_first (\<lambda>f. fm_id f = farm)
       (\<lambda>f. case map_of (fm_tracks f) profile of
              None \<Rightarrow> f
            | Some tr \<Rightarrow> f\<lparr>fm_tracks := AList.update profile (g tr) (fm_tracks f)\<rparr>) fs"

definition ended_as :: "progress \<Rightarrow> session_outcome" where
  "ended_as p =
     (case (pg_error p, pg_done p) of
        (Some e, 0) \<Rightarrow> Failed e
      | (None, 0) \<Rightarrow> if pg_stopped p then Failed ''stopped'' else Done (pg_done p) (pg_cookies_now p)
      | _ \<Rightarrow> Done (pg_done p) (pg_cookies_now p))"

definition end_session :: "session_outcome \<Rightarrow> session \<Rightarrow> session" where
  "end_session out s = s\<lparr>se_ended := Some out\<rparr>"

definition report_track :: "progress \<Rightarrow> track \<Rightarrow> track" where
  "report_track p tr =
     (if list_ex session_in_flight (tr_sessions tr)
      then tr\<lparr>tr_sessions := change_first session_in_flight (end_session (ended_as p)) (tr_sessions tr),
              tr_sites := tr_sites tr + pg_done p,
              tr_cookies := (if 0 < pg_cookies_now p then Some (pg_cookies_now p) else tr_cookies tr),
              tr_last_error := pg_error p\<rparr>
      else tr)"

definition report :: "str \<Rightarrow> str \<Rightarrow> progress \<Rightarrow> farm list \<Rightarrow> farm list" where
  "report farm profile p fs = with_track farm profile (report_track p) fs"

definition fail_run :: "str \<Rightarrow> str \<Rightarrow> str \<Rightarrow> farm list \<Rightarrow> farm list" where
  "fail_run farm profile e fs =
     with_track farm profile (\<lambda>tr.
       tr\<lparr>tr_sessions := change_first session_in_flight (end_session (Failed e)) (tr_sessions tr),
          tr_last_error := Some e\<rparr>) fs"

definition stage_applied :: "str \<Rightarrow> str \<Rightarrow> farm list \<Rightarrow> farm list" where
  "stage_applied farm profile fs = with_track farm profile (\<lambda>tr. tr\<lparr>tr_stage_pending := None\<rparr>) fs"

text \<open>Reading the file again: what was in flight was in the agent that is no longer running.\<close>

definition load_farms :: "farm list \<Rightarrow> farm list" where
  "load_farms fs =
     map (\<lambda>f. f\<lparr>fm_tracks := map (\<lambda>(k, tr). (k, tr\<lparr>tr_sessions :=
         map (\<lambda>s. if session_in_flight s then end_session (Failed ''Fury stopped during the session'') s else s)
           (tr_sessions tr)\<rparr>)) (fm_tracks f)\<rparr>) fs"

section \<open>Sessions of team profiles\<close>

definition track_due :: "nat \<Rightarrow> track \<Rightarrow> bool" where
  "track_due now_ms tr \<longleftrightarrow>
     (case List.find session_waiting (tr_sessions tr) of None \<Rightarrow> False | Some s \<Rightarrow> se_at s \<le> now_ms)
     \<and> \<not> list_ex session_in_flight (tr_sessions tr)"

fun due_targets :: "farm \<Rightarrow> nat \<Rightarrow> str set \<Rightarrow> nat \<Rightarrow> target list \<Rightarrow> (str \<times> str) list" where
  "due_targets f now_ms opened room [] = []"
| "due_targets f now_ms opened room (t # ts) =
     (if target_is_local t then due_targets f now_ms opened room ts
      else if room = 0 then []
      else (case map_of (fm_tracks f) (t_id t) of
          None \<Rightarrow> due_targets f now_ms opened room ts
        | Some tr \<Rightarrow>
            if track_due now_ms tr \<and> t_id t \<notin> opened
            then (fm_id f, t_id t) # due_targets f now_ms opened (room - 1) ts
            else due_targets f now_ms opened room ts))"

definition due :: "int \<Rightarrow> str set \<Rightarrow> farm list \<Rightarrow> (str \<times> str) list" where
  "due now opened fs =
     concat (map (\<lambda>f. due_targets f (ms now) opened (sp_at_once (fm_spec f) - farm_in_flight f) (fm_targets f))
       (List.filter (\<lambda>f. \<not> fm_paused f) fs))"

definition start_session :: "nat \<Rightarrow> track \<Rightarrow> track" where
  "start_session now_ms tr =
     tr\<lparr>tr_sessions := change_first session_waiting (\<lambda>s. s\<lparr>se_started := Some now_ms\<rparr>) (tr_sessions tr)\<rparr>"

definition claim :: "str \<Rightarrow> str \<Rightarrow> int \<Rightarrow> str set \<Rightarrow> farm list \<Rightarrow> str + farm list \<times> warm_plan" where
  "claim farm profile now opened fs =
     (if (farm, profile) \<notin> set (due now opened fs) then Inl ''that session is not due''
      else (case List.find (\<lambda>f. fm_id f = farm) fs of
          None \<Rightarrow> Inl ''due found it''
        | Some f \<Rightarrow>
            (case Option.bind (map_of (fm_tracks f) profile) (\<lambda>tr. List.find session_waiting (tr_sessions tr)) of
               None \<Rightarrow> Inl ''due found it''
             | Some s \<Rightarrow>
                 Inr (with_track farm profile (start_session (ms now)) fs,
                      session_plan (fm_spec f) farm (se_urls s)))))"

section \<open>One pass\<close>

record start =
  st_profile :: str
  st_name :: str
  st_plan :: warm_plan

text \<open>Closing the day of a track: every session over, or the hours are.\<close>

definition close_day :: "spec \<Rightarrow> nat \<Rightarrow> track \<Rightarrow> track" where
  "close_day sp now_ms tr =
     (if tr_day tr \<noteq> None \<and> (list_all (\<lambda>s. se_ended s \<noteq> None) (tr_sessions tr) \<or> tr_window_end tr \<le> now_ms)
      then
        (let sessions = map (\<lambda>s. if session_waiting s then end_session (Skipped ''the hours of the day ran out'') s else s) (tr_sessions tr);
             read_any = list_ex (\<lambda>s. case se_ended s of Some (Done _ _) \<Rightarrow> True | _ \<Rightarrow> False) sessions;
             n = (if read_any then tr_days_done tr + 1 else tr_days_done tr)
         in tr\<lparr>tr_sessions := sessions, tr_days_done := n, tr_day := None,
               tr_stage_pending := (if sp_days sp \<le> n \<and> sp_set_stage sp then Some ''ready'' else tr_stage_pending tr)\<rparr>)
      else tr)"

definition open_day :: "spec \<Rightarrow> clock \<Rightarrow> int \<Rightarrow> day_draw \<Rightarrow> track \<Rightarrow> track option" where
  "open_day sp z now dr tr =
     (if tr_day tr \<noteq> None then Some tr
      else map_option (\<lambda>(day, finish, sessions).
        tr\<lparr>tr_day := Some day, tr_last_day := Some day, tr_window_end := finish, tr_sessions := sessions\<rparr>)
        (plan_day sp z (tr_last_day tr) now dr))"

text \<open>The first session that waits: left, put off, or started.\<close>

definition move_session ::
    "spec \<Rightarrow> str \<Rightarrow> target \<Rightarrow> nat \<Rightarrow> bool \<Rightarrow> day_draw \<Rightarrow> nat \<Rightarrow> track \<Rightarrow> track \<times> nat \<times> start list" where
  "move_session sp farm t now_ms opened dr room tr =
     (case List.find session_waiting (tr_sessions tr) of
        None \<Rightarrow> (tr, room, [])
      | Some s \<Rightarrow>
          if now_ms < se_at s then (tr, room, [])
          else if opened then
            (let later = now_ms + gen_range 20 40 (dr_delay dr) * 60 * 1000
             in (tr\<lparr>tr_sessions := change_first session_waiting (\<lambda>s.
                   if tr_window_end tr \<le> later then s\<lparr>se_at := later, se_ended := Some (Skipped ''the profile was open'')\<rparr>
                   else s\<lparr>se_at := later\<rparr>) (tr_sessions tr)\<rparr>, room, []))
          else if \<not> target_is_local t \<or> room = 0 then (tr, room, [])
          else (start_session now_ms tr, room - 1,
                [\<lparr>st_profile = t_id t, st_name = t_name t, st_plan = session_plan sp farm (se_urls s)\<rparr>]))"

definition step_track ::
    "zones \<Rightarrow> spec \<Rightarrow> str \<Rightarrow> int \<Rightarrow> str set \<Rightarrow> day_draw \<Rightarrow> target \<Rightarrow> nat \<Rightarrow> track \<Rightarrow> (track \<times> nat \<times> start list) option" where
  "step_track zs sp farm now opened dr t room tr =
     (if sp_days sp \<le> tr_days_done tr then Some (tr, room, [])
      else
        (case List.find session_in_flight (tr_sessions tr) of
           Some s \<Rightarrow>
             if stale_ms < ms now - (case se_started s of Some x \<Rightarrow> x | None \<Rightarrow> ms now)
             then Some (tr\<lparr>tr_sessions := change_first session_in_flight
                     (end_session (Failed ''the session never reported back'')) (tr_sessions tr)\<rparr>, room + 1, [])
             else Some (tr, room, [])
         | None \<Rightarrow>
             (let closed = close_day sp (ms now) tr
              in if tr_day tr \<noteq> None \<and> tr_day closed = None \<and> sp_days sp \<le> tr_days_done closed
                 then Some (closed, room, [])
                 else map_option (move_session sp farm t (ms now) (t_id t \<in> opened) dr room)
                        (open_day sp (zone_of zs (t_timezone t)) now dr closed))))"

fun step_targets ::
    "zones \<Rightarrow> int \<Rightarrow> str set \<Rightarrow> (nat \<Rightarrow> day_draw) \<Rightarrow> target list \<Rightarrow> farm \<times> nat \<Rightarrow> (farm \<times> start list) option" where
  "step_targets zs now opened x [] (f, room) = Some (f, [])"
| "step_targets zs now opened x (t # ts) (f, room) =
     (case step_track zs (fm_spec f) (fm_id f) now opened (x (length ts)) t room
             (case map_of (fm_tracks f) (t_id t) of Some tr \<Rightarrow> tr | None \<Rightarrow> new_track) of
        None \<Rightarrow> None
      | Some (tr, room', st) \<Rightarrow>
          map_option (\<lambda>(f', sts). (f', st @ sts))
            (step_targets zs now opened x ts (f\<lparr>fm_tracks := AList.update (t_id t) tr (fm_tracks f)\<rparr>, room')))"

definition step_farm :: "zones \<Rightarrow> int \<Rightarrow> str set \<Rightarrow> (nat \<Rightarrow> day_draw) \<Rightarrow> farm \<Rightarrow> (farm \<times> start list) option" where
  "step_farm zs now opened x f =
     (if fm_paused f then Some (f, [])
      else step_targets zs now opened x (fm_targets f) (f, sp_at_once (fm_spec f) - farm_in_flight f))"

fun farm_step :: "zones \<Rightarrow> int \<Rightarrow> str set \<Rightarrow> (nat \<Rightarrow> nat \<Rightarrow> day_draw) \<Rightarrow> farm list \<Rightarrow> (farm list \<times> start list) option" where
  "farm_step zs now opened x [] = Some ([], [])"
| "farm_step zs now opened x (f # fs) =
     (case step_farm zs now opened (x (length fs)) f of
        None \<Rightarrow> None
      | Some (f', st) \<Rightarrow> map_option (\<lambda>(fs', sts). (f' # fs', st @ sts)) (farm_step zs now opened x fs))"

end
