(* ===== verification/Farm_Day.thy ===== *)
theory Farm_Day
  imports Farm
begin

text \<open>
  A planned day of farming: what the search for a day finds and that it ends, how the sites are drawn
  and shared out; and the lemmas on the first element of a list that is found and changed.
\<close>

section \<open>The first that is changed\<close>

lemma change_first_cases:
  obtains "\<forall>x \<in> set xs. \<not> P x" and "change_first P g xs = xs" and "List.find P xs = None"
    | us x vs where "xs = us @ x # vs" and "P x" and "\<forall>u \<in> set us. \<not> P u" and "change_first P g xs = us @ g x # vs"
      and "List.find P xs = Some x"
proof (induction xs arbitrary: thesis)
  case (Cons x xs)
  show ?case
  proof (cases "P x")
    case True
    then show ?thesis by (intro Cons.prems(2) [of "[]" x xs]) auto
  next
    case False
    show ?thesis
    proof (rule Cons.IH)
      fix us y vs
      assume "xs = us @ y # vs" "P y" "\<forall>u \<in> set us. \<not> P u" "change_first P g xs = us @ g y # vs" "List.find P xs = Some y"
      with False show thesis by (intro Cons.prems(2) [of "x # us" y vs]) auto
    qed (use False in \<open>intro Cons.prems(1); auto\<close>)
  qed
qed auto

lemma change_first_set: "y \<in> set (change_first P g xs) \<Longrightarrow> y \<in> set xs \<or> (\<exists>x \<in> set xs. P x \<and> y = g x)"
  by (rule change_first_cases [of xs P g]) auto

lemma find_Some_set: "List.find P xs = Some x \<Longrightarrow> x \<in> set xs \<and> P x"
  by (auto simp: find_Some_iff)

lemma find_None_set: "List.find P xs = None \<longleftrightarrow> (\<forall>x \<in> set xs. \<not> P x)"
  by (auto simp: find_None_iff)

lemma change_first_count:
  assumes "List.find P xs = Some x" and "\<And>x. P x \<Longrightarrow> Q x \<noteq> Q (g x)"
  shows "length (List.filter Q (change_first P g xs)) =
    (if Q x then length (List.filter Q xs) - 1 else length (List.filter Q xs) + 1)"
  by (rule change_first_cases [of xs P g]) (use assms in auto)

lemma change_first_count_same:
  assumes "\<And>x. P x \<Longrightarrow> Q x = Q (g x)"
  shows "length (List.filter Q (change_first P g xs)) = length (List.filter Q xs)"
  by (rule change_first_cases [of xs P g]) (use assms in auto)

section \<open>Planning a day\<close>

lemma find_day_Some:
  assumes "find_day z hours now date = Some (day, begins, finish)"
  shows "date \<le> day \<and> begins = max (zone_at z day (fst hours)) (now + 60000) \<and> finish = zone_at z day (snd hours)
    \<and> min_window_ms \<le> finish - begins"
proof -
  let ?P = "\<lambda>z hours now date r. case r of (day, begins, finish) \<Rightarrow>
      date \<le> day \<and> begins = max (zone_at z day (fst hours)) (now + 60000) \<and> finish = zone_at z day (snd hours)
      \<and> min_window_ms \<le> finish - begins"
  have "?P z hours now date (day, begins, finish)"
  proof (rule find_day.raw_induct [where P = ?P, OF _ assms])
    fix rec z hours now date r
    assume rec: "\<And>z hours now date r. rec z hours now date = Some r \<Longrightarrow> ?P z hours now date r"
      and r: "(let start = zone_at z date (fst hours); finish = zone_at z date (snd hours); begins = max start (now + 60000)
        in if min_window_ms \<le> finish - begins then Some (date, begins, finish) else rec z hours now (succ_date z date)) = Some r"
    have later: "date \<le> succ_date z date" by (simp add: succ_date_def)
    show "?P z hours now date r"
    proof (cases "min_window_ms \<le> zone_at z date (snd hours) - max (zone_at z date (fst hours)) (now + 60000)")
      case True
      with r show ?thesis by (auto simp: Let_def)
    next
      case False
      with r have "rec z hours now (succ_date z date) = Some r" by (simp add: Let_def)
      from rec [OF this] later show ?thesis by auto
    qed
  qed
  then show ?thesis by simp
qed

lemma gen_range_bounds: "lo \<le> hi \<Longrightarrow> lo \<le> gen_range lo hi x \<and> gen_range lo hi x \<le> hi"
proof -
  assume "lo \<le> hi"
  moreover have "x mod (hi - lo + 1) < hi - lo + 1" by simp
  ultimately show ?thesis unfolding gen_range_def by linarith
qed

lemma swap_mset: "i < length xs \<Longrightarrow> j < length xs \<Longrightarrow> mset (swap i j xs) = mset xs"
  by (simp add: swap_def mset_swap)

lemma shuffle_from_mset: "i < length xs \<or> i = 0 \<Longrightarrow> mset (shuffle_from i x xs) = mset xs"
proof (induction i arbitrary: xs)
  case (Suc i)
  have "gen_range 0 (Suc i) (x i) < length xs"
    using gen_range_bounds [of 0 "Suc i" "x i"] Suc.prems by simp
  moreover have "length (swap j k xs) = length xs" for j k by (simp add: swap_def)
  ultimately show ?case
    using Suc.IH [of "swap (Suc i) (gen_range 0 (Suc i) (x i)) xs"] Suc.prems swap_mset [of "Suc i" xs "gen_range 0 (Suc i) (x i)"]
    by simp
qed simp

lemma shuffle_mset: "mset (shuffle x xs) = mset xs"
  unfolding shuffle_def by (rule shuffle_from_mset) (cases xs; simp)

lemma make_sessions_urls:
  "concat (map se_urls (make_sessions base slot x i n urls)) = (if n = 0 then [] else urls)"
  by (induction base slot x i n urls rule: make_sessions.induct) (auto simp: Let_def)

lemma make_sessions_length [simp]: "length (make_sessions base slot x i n urls) = n"
  by (induction base slot x i n urls rule: make_sessions.induct) (simp_all add: Let_def)

lemma make_sessions_each:
  assumes "s \<in> set (make_sessions base slot x i n urls)"
  shows "session_waiting s \<and> base + slot * i \<le> se_at s \<and> se_at s \<le> base + slot * (i + n - 1) + slot * 6 div 10"
  using assms
proof (induction base slot x i n urls rule: make_sessions.induct)
  case (2 base slot x i left rest)
  have "gen_range 0 (slot * 6 div 10) (x i) \<le> slot * 6 div 10"
    using gen_range_bounds [of 0 "slot * 6 div 10" "x i"] by simp
  moreover have le: "slot * i \<le> slot * (i + left)" "slot * i \<le> slot * Suc i" by (rule mult_le_mono2, simp)+
  ultimately have first: "base + slot * i + gen_range 0 (slot * 6 div 10) (x i) \<le> base + slot * (i + left) + slot * 6 div 10"
    by linarith
  from 2(2) consider "s = \<lparr>se_at = base + slot * i + gen_range 0 (slot * 6 div 10) (x i),
        se_urls = take (length rest div Suc left) rest, se_started = None, se_ended = None\<rparr>"
    | "s \<in> set (make_sessions base slot x (Suc i) left (drop (length rest div Suc left) rest))"
    by (auto simp: Let_def)
  then show ?case
  proof cases
    case 1
    with first show ?thesis by (simp add: session_waiting_def)
  next
    case 2
    from "2.IH" [OF refl this] le show ?thesis by (cases left) auto
  qed
qed simp

lemma make_sessions_nonempty:
  "n \<le> length urls \<Longrightarrow> s \<in> set (make_sessions base slot x i n urls) \<Longrightarrow> se_urls s \<noteq> []"
proof (induction base slot x i n urls rule: make_sessions.induct)
  case (2 base slot x i left rest)
  define m where "m = length rest div Suc left"
  have m: "1 \<le> m" using 2(2) by (simp add: m_def Suc_le_eq div_greater_zero_iff)
  have "m * Suc left \<le> length rest" by (simp only: m_def div_times_less_eq_dividend)
  moreover have "1 * left \<le> m * left" using m by (rule mult_le_mono1)
  ultimately have "left + m \<le> length rest" unfolding mult_Suc_right by linarith
  then have "left \<le> length rest - m" by simp
  then show ?case
    using 2 m by (auto simp: Let_def simp flip: m_def)
qed simp

lemma make_sessions_ordered:
  "0 < slot \<Longrightarrow> sorted_wrt (<) (map se_at (make_sessions base slot x i n urls))"
proof (induction base slot x i n urls rule: make_sessions.induct)
  case (2 base slot x i left rest)
  have "gen_range 0 (slot * 6 div 10) (x i) \<le> slot * 6 div 10"
    using gen_range_bounds [of 0 "slot * 6 div 10" "x i"] by simp
  moreover have "slot * 6 div 10 < slot" using 2(2) by simp
  ultimately have "base + slot * i + gen_range 0 (slot * 6 div 10) (x i) < base + slot * Suc i" by simp
  then show ?case
    using 2 make_sessions_each by (fastforce simp: Let_def)
qed simp

section \<open>What a planned day is\<close>

definition spec_sane :: "spec \<Rightarrow> bool" where
  "spec_sane sp \<longleftrightarrow>
     sp_urls sp \<noteq> [] \<and> 1 \<le> sp_days sp \<and> sp_days sp \<le> max_days
     \<and> 1 \<le> fst (sp_sites sp) \<and> fst (sp_sites sp) \<le> snd (sp_sites sp) \<and> snd (sp_sites sp) \<le> max_sites_per_day
     \<and> fst (sp_hours sp) < snd (sp_hours sp) \<and> snd (sp_hours sp) \<le> 24
     \<and> 1 \<le> sp_at_once sp \<and> sp_at_once sp \<le> max_at_once"

lemma sites_today_bounds:
  assumes "spec_sane sp"
  shows "1 \<le> sites_today sp dr" and "sites_today sp dr \<le> snd (sp_sites sp)" and "sites_today sp dr \<le> length (sp_urls sp)"
proof -
  have "1 \<le> length (sp_urls sp)" using assms by (cases "sp_urls sp") (simp_all add: spec_sane_def)
  moreover have "fst (sp_sites sp) \<le> gen_range (fst (sp_sites sp)) (snd (sp_sites sp)) (dr_sites dr)"
    "gen_range (fst (sp_sites sp)) (snd (sp_sites sp)) (dr_sites dr) \<le> snd (sp_sites sp)"
    using gen_range_bounds [of "fst (sp_sites sp)" "snd (sp_sites sp)"] assms by (auto simp: spec_sane_def)
  ultimately show "1 \<le> sites_today sp dr" "sites_today sp dr \<le> snd (sp_sites sp)" "sites_today sp dr \<le> length (sp_urls sp)"
    using assms by (auto simp: sites_today_def spec_sane_def)
qed

lemma parts_of_bounds: "1 \<le> k \<Longrightarrow> 1 \<le> parts_of k dr \<and> parts_of k dr \<le> k \<and> parts_of k dr \<le> 3"
proof (cases "k \<le> 3")
  case False
  then have "1 \<le> min (k div 2) 3" by simp
  then have g: "1 \<le> parts_of k dr" "parts_of k dr \<le> min (k div 2) 3"
    using gen_range_bounds [of 1 "min (k div 2) 3" "dr_parts dr"] False by (simp_all only: parts_of_def if_False simp_thms)
  have "min (k div 2) 3 \<le> 3" "min (k div 2) 3 \<le> k div 2" by (rule min.cobounded2, rule min.cobounded1)
  with g show ?thesis using div_le_dividend [of k 2] by linarith
qed (simp add: parts_of_def)

text \<open>A day of a profile: its hours, and sessions that share out some of the sites.\<close>

definition day_ok :: "spec \<Rightarrow> clock \<Rightarrow> int \<Rightarrow> nat \<Rightarrow> session list \<Rightarrow> bool" where
  "day_ok sp z day window_end ss \<longleftrightarrow>
     window_end = ms (zone_at z day (snd (sp_hours sp)))
     \<and> (\<forall>s \<in> set ss. ms (zone_at z day (fst (sp_hours sp))) \<le> se_at s \<and> (session_waiting s \<longrightarrow> se_at s < window_end))
     \<and> mset (concat (map se_urls ss)) \<subseteq># mset (sp_urls sp)
     \<and> length (concat (map se_urls ss)) \<le> snd (sp_sites sp)"

lemma planned_day:
  assumes "plan_day sp z after now dr = Some (day, finish, ss)" and "spec_sane sp" and "0 \<le> now"
  shows "day_ok sp z day finish ss \<and> 1 \<le> length ss \<and> length ss \<le> 3
    \<and> (\<forall>s \<in> set ss. session_waiting s \<and> se_urls s \<noteq> [] \<and> ms now < se_at s)
    \<and> sorted_wrt (<) (map se_at ss)
    \<and> (case after of None \<Rightarrow> date_of z now \<le> day | Some l \<Rightarrow> date_of z now \<le> day \<and> (l < last_date z \<longrightarrow> l < day))"
proof -
  define date where "date = (case after of None \<Rightarrow> date_of z now | Some l \<Rightarrow> if date_of z now \<le> l then succ_date z l else date_of z now)"
  define k where "k = sites_today sp dr"
  define n where "n = parts_of k dr"
  define urls where "urls = take k (shuffle (dr_shuffle dr) (sp_urls sp))"
  obtain b e where found: "find_day z (sp_hours sp) now date = Some (day, b, e)" and finish: "finish = ms e"
    and ss: "ss = make_sessions (ms b) (ms (max (e - b) 1) div n) (dr_offset dr) 0 n urls"
    using assms(1) by (auto simp: plan_day_def date_def k_def n_def urls_def Let_def)
  have w: "date \<le> day" "b = max (zone_at z day (fst (sp_hours sp))) (now + 60000)" "e = zone_at z day (snd (sp_hours sp))"
    "600000 \<le> e - b"
    using find_day_Some [OF found] by (auto simp: min_window_ms_def)
  define slot where "slot = ms (max (e - b) 1) div n"
  note bounds = sites_today_bounds [OF assms(2), of dr, folded k_def]
  have n: "1 \<le> n" "n \<le> k" "n \<le> 3" using parts_of_bounds [OF bounds(1), of dr] by (simp_all add: n_def)
  have len: "length urls = k" using bounds(3) mset_eq_length [OF shuffle_mset [of "dr_shuffle dr" "sp_urls sp"]]
    by (simp add: urls_def)
  have span: "600000 \<le> ms (max (e - b) 1)" using w(4) by (simp add: ms_def)
  have "200000 \<le> slot"
  proof -
    have "600000 div 3 \<le> ms (max (e - b) 1) div 3" by (rule div_le_mono [OF span])
    also have "\<dots> \<le> slot" unfolding slot_def by (rule div_le_mono2) (use n in simp_all)
    finally show ?thesis by simp
  qed
  then have ordered: "sorted_wrt (<) (map se_at ss)"
    unfolding ss slot_def [symmetric] by (intro make_sessions_ordered) simp
  have last: "ms b + slot * (n - 1) + slot * 6 div 10 < ms e"
  proof -
    have "slot * n \<le> ms (max (e - b) 1)" unfolding slot_def by (rule div_times_less_eq_dividend)
    also have "ms (max (e - b) 1) = ms e - ms b"
      using w(2,4) assms(3) by (simp add: ms_def nat_diff_distrib)
    finally have "slot * n \<le> ms e - ms b" .
    moreover have "slot * n = slot * (n - 1) + slot" using n(1) by (cases n) simp_all
    moreover have "slot * 6 div 10 < slot" using \<open>200000 \<le> slot\<close> by simp
    moreover have "ms b \<le> ms e" using w(4) by (simp add: ms_def nat_mono)
    ultimately show ?thesis by linarith
  qed
  have each: "session_waiting s \<and> ms b \<le> se_at s \<and> se_at s < ms e" if "s \<in> set ss" for s
    using make_sessions_each [of s "ms b" slot "dr_offset dr" 0 n urls] that last by (auto simp: ss slot_def)
  have begins: "ms (zone_at z day (fst (sp_hours sp))) \<le> ms b" "ms now < ms b"
  proof -
    have "zone_at z day (fst (sp_hours sp)) \<le> b" "now + 60000 \<le> b" using w(2) by simp_all
    then show "ms (zone_at z day (fst (sp_hours sp))) \<le> ms b" "ms now < ms b"
      using assms(3) by (auto simp: ms_def nat_mono)
  qed
  have part: "mset urls \<subseteq># mset (sp_urls sp)"
  proof -
    have "mset urls + mset (drop k (shuffle (dr_shuffle dr) (sp_urls sp))) = mset (sp_urls sp)"
      unfolding urls_def using shuffle_mset [of "dr_shuffle dr" "sp_urls sp"] by (metis append_take_drop_id mset_append)
    then show ?thesis by (metis mset_subset_eq_add_left)
  qed
  have urls: "concat (map se_urls ss) = urls" using n(1) by (simp add: ss make_sessions_urls)
  have "day_ok sp z day finish ss"
    unfolding day_ok_def urls using each begins part len bounds(2) w(3) finish by fastforce
  moreover have "\<forall>s \<in> set ss. session_waiting s \<and> se_urls s \<noteq> [] \<and> ms now < se_at s"
    using each begins make_sessions_nonempty [of n urls] n len unfolding ss by fastforce
  moreover have "case after of None \<Rightarrow> date_of z now \<le> day | Some l \<Rightarrow> date_of z now \<le> day \<and> (l < last_date z \<longrightarrow> l < day)"
    using w(1) by (auto simp: date_def succ_date_def split: option.splits if_splits)
  ultimately show ?thesis using ordered n by (simp add: ss)
qed

lemma checked_spec_sane: "check_spec sp = Inr () \<Longrightarrow> spec_sane sp"
proof -
  assume "check_spec sp = Inr ()"
  moreover have "sp_urls sp \<noteq> []" if "\<not> list_all (\<lambda>u. trim u = []) (sp_urls sp)" using that by auto
  ultimately show ?thesis by (auto simp: check_spec_def spec_sane_def Let_def split: prod.splits)
qed

text \<open>
  A planned day of an accepted plan: its sites are drawn from the list, each taken at most as often
  as it stands there, at least one and no more than was asked for; its one to three sessions share them
  all out, none is empty, and they start in order, after now and inside the hours of the profile.
\<close>

theorem a_planned_day:
  assumes "plan_day sp z after now dr = Some (day, finish, ss)" and "check_spec sp = Inr ()" and "0 \<le> now"
  shows "1 \<le> length ss \<and> length ss \<le> 3 \<and> sorted_wrt (<) (map se_at ss)
    \<and> mset (concat (map se_urls ss)) \<subseteq># mset (sp_urls sp)
    \<and> length (concat (map se_urls ss)) \<le> snd (sp_sites sp)
    \<and> finish = ms (zone_at z day (snd (sp_hours sp)))
    \<and> (\<forall>s \<in> set ss. se_urls s \<noteq> [] \<and> ms now < se_at s \<and> ms (zone_at z day (fst (sp_hours sp))) \<le> se_at s \<and> se_at s < finish)
    \<and> (case after of None \<Rightarrow> date_of z now \<le> day | Some l \<Rightarrow> date_of z now \<le> day \<and> (l < last_date z \<longrightarrow> l < day))"
proof -
  note day = planned_day [OF assms(1) checked_spec_sane [OF assms(2)] assms(3)]
  have "mset (concat (map se_urls ss)) \<subseteq># mset (sp_urls sp)" "length (concat (map se_urls ss)) \<le> snd (sp_sites sp)"
    "finish = ms (zone_at z day (snd (sp_hours sp)))"
    using day unfolding day_ok_def by blast+
  moreover have "\<forall>s \<in> set ss. se_urls s \<noteq> [] \<and> ms now < se_at s \<and> ms (zone_at z day (fst (sp_hours sp))) \<le> se_at s \<and> se_at s < finish"
    using day unfolding day_ok_def by blast
  ultimately show ?thesis using day by blast
qed

text \<open>A clock at Greenwich.\<close>

definition utc :: clock where
  "utc = \<lparr>date_of = (\<lambda>t. t div 86400000), earliest = (\<lambda>n. Some (n * 3600000)), last_date = 1000000\<rparr>"

definition two_sites :: spec where
  "two_sites = \<lparr>sp_name = [], sp_urls = [''https://a/'', ''https://b/''], sp_days = 2, sp_sites = (1, 2), sp_hours = (10, 22),
     sp_dwell = (8, 25), sp_follow_link = False, sp_at_once = 1, sp_set_stage = True\<rparr>"

definition draws :: day_draw where
  "draws = \<lparr>dr_sites = 1, dr_shuffle = (\<lambda>_. 0), dr_parts = 0, dr_offset = (\<lambda>_. 0), dr_delay = 0\<rparr>"

lemma utc_at [simp]: "h < 24 \<Longrightarrow> zone_at utc d h = (d * 24 + int h) * 3600000"
  by (simp add: utc_def zone_at_def)

lemma utc_simps [simp]: "date_of utc t = t div 86400000" "last_date utc = 1000000"
  by (simp_all add: utc_def)

lemma utc_day: "plan_day two_sites utc None 0 draws =
    Some (0, 79200000, [\<lparr>se_at = 36000000, se_urls = [''https://b/'', ''https://a/''], se_started = None, se_ended = None\<rparr>])"
  by (subst plan_day_def, subst find_day.simps)
    (simp add: two_sites_def draws_def min_window_ms_def sites_today_def parts_of_def gen_range_def shuffle_def swap_def ms_def
      Let_def numeral_2_eq_2)

lemma sites_trimmed [simp]: "trim ''https://a/'' = ''https://a/''" "trim ''https://b/'' = ''https://b/''"
  by (rule trim_graphic, simp add: graphic_def)+

lemma two_sites_checked: "check_spec two_sites = Inr ()"
  by (simp add: check_spec_def two_sites_def demand_def max_days_def max_sites_per_day_def max_at_once_def)

theorem a_planned_day_witness:
  "mset [''https://b/'', ''https://a/''] \<subseteq># mset (sp_urls two_sites) \<and> (36000000::nat) < 79200000"
  using a_planned_day [OF utc_day two_sites_checked] by simp

end
