(* ===== verification/Farm_Protocol.thy ===== *)
theory Farm_Protocol
  imports Farm_Day
begin

text \<open>
  What a track of a farming plan always is, and what one pass does to a plan: days opened and closed,
  a session started in its hours, and the room of the plan kept.
\<close>

section \<open>Tracks\<close>

definition track_ok :: "clock \<Rightarrow> spec \<Rightarrow> track \<Rightarrow> bool" where
  "track_ok z sp tr \<longleftrightarrow>
     tr_days_done tr \<le> sp_days sp
     \<and> track_in_flight tr \<le> 1
     \<and> (case tr_day tr of
          None \<Rightarrow> list_all (\<lambda>s. \<not> session_waiting s \<and> \<not> session_in_flight s) (tr_sessions tr)
        | Some d \<Rightarrow> tr_last_day tr = Some d \<and> day_ok sp z d (tr_window_end tr) (tr_sessions tr))"

lemma track_ok_new: "track_ok z sp new_track"
  by (simp add: track_ok_def new_track_def track_in_flight_def)

lemma none_in_flight: "List.find session_in_flight (tr_sessions tr) = None \<longleftrightarrow> track_in_flight tr = 0"
  by (simp add: find_None_set track_in_flight_def filter_empty_conv)

text \<open>A session changed into one of the same day that no longer waits keeps a day what it is.\<close>

lemma change_first_urls:
  assumes "\<And>s. P s \<Longrightarrow> se_urls (g s) = se_urls s"
  shows "map se_urls (change_first P g ss) = map se_urls ss"
  by (rule change_first_cases [of ss P g]) (use assms in auto)

lemma day_ok_map:
  assumes "day_ok sp z d w ss" and "map se_urls ss' = map se_urls ss"
    and "\<And>s'. s' \<in> set ss' \<Longrightarrow> s' \<in> set ss \<or> (\<exists>s \<in> set ss. se_at s \<le> se_at s' \<and> (session_waiting s' \<longrightarrow> se_at s' < w))"
  shows "day_ok sp z d w ss'"
  using assms unfolding day_ok_def by (metis order_trans)

lemma day_ok_change:
  assumes "day_ok sp z d w ss" and "\<And>s. P s \<Longrightarrow> se_urls (g s) = se_urls s"
    and "\<And>s. P s \<Longrightarrow> se_at s \<le> se_at (g s) \<and> (session_waiting (g s) \<longrightarrow> se_at (g s) < w)"
  shows "day_ok sp z d w (change_first P g ss)"
proof (rule day_ok_map [OF assms(1)])
  show "map se_urls (change_first P g ss) = map se_urls ss" by (rule change_first_urls) (rule assms(2))
  show "s' \<in> set ss \<or> (\<exists>s \<in> set ss. se_at s \<le> se_at s' \<and> (session_waiting s' \<longrightarrow> se_at s' < w))"
    if "s' \<in> set (change_first P g ss)" for s'
    using change_first_set [OF that] assms(3) by blast
qed

lemma end_session_simps [simp]:
  "se_urls (end_session out s) = se_urls s" "se_at (end_session out s) = se_at s"
  "\<not> session_waiting (end_session out s)" "\<not> session_in_flight (end_session out s)"
  by (simp_all add: end_session_def session_waiting_def session_in_flight_def)

lemma started_simps [simp]:
  "session_waiting s \<Longrightarrow> session_in_flight (s\<lparr>se_started := Some t\<rparr>)"
  "\<not> session_waiting (s\<lparr>se_started := Some t\<rparr>)"
  by (simp_all add: session_waiting_def session_in_flight_def)

lemma waiting_not_in_flight: "session_waiting s \<Longrightarrow> \<not> session_in_flight s"
  by (simp add: session_waiting_def session_in_flight_def)

text \<open>Ending the session in flight.\<close>

lemma end_in_flight:
  fixes out :: session_outcome
  assumes "track_ok z sp tr"
  defines "ss \<equiv> change_first session_in_flight (end_session out) (tr_sessions tr)"
  shows "track_ok z sp (tr\<lparr>tr_sessions := ss\<rparr>)" and "track_in_flight (tr\<lparr>tr_sessions := ss\<rparr>) = track_in_flight tr - 1"
proof -
  show fl: "track_in_flight (tr\<lparr>tr_sessions := ss\<rparr>) = track_in_flight tr - 1"
  proof (cases "List.find session_in_flight (tr_sessions tr)")
    case None
    then have "ss = tr_sessions tr"
      unfolding ss_def by (cases rule: change_first_cases [of "tr_sessions tr" session_in_flight "end_session out"]) auto
    then show ?thesis using None none_in_flight by simp
  next
    case (Some s)
    from change_first_count [OF Some, of session_in_flight "end_session out"] find_Some_set [OF Some]
    show ?thesis by (simp add: track_in_flight_def ss_def)
  qed
  show "track_ok z sp (tr\<lparr>tr_sessions := ss\<rparr>)"
  proof (cases "tr_day tr")
    case None
    then have "list_all (\<lambda>s. \<not> session_waiting s \<and> \<not> session_in_flight s) (tr_sessions tr)"
      using assms(1) by (simp add: track_ok_def)
    then have "list_all (\<lambda>s. \<not> session_waiting s \<and> \<not> session_in_flight s) ss"
      unfolding ss_def list_all_iff by (metis change_first_set)
    then show ?thesis using assms(1) fl None by (simp add: track_ok_def)
  next
    case (Some d)
    then show ?thesis
      using assms(1) fl by (auto simp: track_ok_def ss_def intro!: day_ok_change)
  qed
qed

text \<open>Starting the session that waits.\<close>

lemma start_waiting:
  assumes "track_ok z sp tr" and "List.find session_waiting (tr_sessions tr) = Some s" and "track_in_flight tr = 0"
  shows "track_ok z sp (start_session t tr)" and "track_in_flight (start_session t tr) = 1"
proof -
  show fl: "track_in_flight (start_session t tr) = 1"
    using change_first_count [OF assms(2), of session_in_flight "\<lambda>s. s\<lparr>se_started := Some t\<rparr>"] assms(3)
      waiting_not_in_flight find_Some_set [OF assms(2)]
    by (simp add: track_in_flight_def start_session_def)
  obtain d where "tr_day tr = Some d"
    using assms(1) find_Some_set [OF assms(2)] by (auto simp: track_ok_def list_all_iff split: option.splits)
  then show "track_ok z sp (start_session t tr)"
    using assms(1) fl by (auto simp: track_ok_def start_session_def intro!: day_ok_change)
qed

text \<open>Closing a day.\<close>

lemma close_day_in_flight [simp]: "track_in_flight (close_day sp t tr) = track_in_flight tr"
proof -
  have "length (List.filter session_in_flight (map (\<lambda>s. if session_waiting s then end_session out s else s) ss)) =
      length (List.filter session_in_flight ss)" for ss out
    by (induction ss) (auto simp: waiting_not_in_flight)
  then show ?thesis by (simp add: close_day_def track_in_flight_def Let_def)
qed

lemma close_day_last [simp]: "tr_last_day (close_day sp t tr) = tr_last_day tr"
  by (simp add: close_day_def Let_def)

lemma close_day_days:
  "tr_days_done tr \<le> tr_days_done (close_day sp t tr)" "tr_days_done (close_day sp t tr) \<le> tr_days_done tr + 1"
  by (simp_all add: close_day_def Let_def)

lemma close_day_cases:
  obtains "close_day sp t tr = tr" and "tr_day tr = None \<or> t < tr_window_end tr"
    | "tr_day (close_day sp t tr) = None" and "tr_day tr \<noteq> None"
      and "list_all (\<lambda>s. \<not> session_waiting s) (tr_sessions (close_day sp t tr))"
proof (cases "tr_day tr \<noteq> None \<and> (list_all (\<lambda>s. se_ended s \<noteq> None) (tr_sessions tr) \<or> tr_window_end tr \<le> t)")
  case True
  have "list_all (\<lambda>s. \<not> session_waiting s) (map (\<lambda>s. if session_waiting s then end_session out s else s) ss)" for out ss
    by (induction ss) auto
  then show thesis using True by (intro that(2)) (simp_all add: close_day_def Let_def)
next
  case False
  then have "close_day sp t tr = tr" unfolding close_day_def by (rule if_not_P)
  moreover have "tr_day tr = None \<or> t < tr_window_end tr" using False by auto
  ultimately show thesis by (rule that(1))
qed

lemma close_day_ok:
  assumes "track_ok z sp tr" and "track_in_flight tr = 0" and "tr_days_done tr < sp_days sp"
  shows "track_ok z sp (close_day sp t tr)"
proof (cases rule: close_day_cases [of sp t tr])
  case 1
  with assms(1) show ?thesis by simp
next
  case 2
  have "\<not> session_in_flight s" if "s \<in> set (tr_sessions (close_day sp t tr))" for s
    using close_day_in_flight [of sp t tr] assms(2) that by (auto simp: track_in_flight_def filter_empty_conv)
  moreover have "tr_days_done (close_day sp t tr) \<le> sp_days sp"
    using close_day_days(2) [of sp t tr] assms(3) by simp
  ultimately show ?thesis
    using 2 assms(2) by (auto simp: track_ok_def list_all_iff)
qed

lemma open_day_ok:
  assumes "open_day sp z now dr tr = Some tr'" and "spec_sane sp" and "0 \<le> now"
    and "track_ok z0 sp tr" and "track_in_flight tr = 0"
  shows "track_in_flight tr' = 0 \<and> (tr_day tr \<noteq> None \<longrightarrow> tr' = tr) \<and> (tr_day tr = None \<longrightarrow> track_ok z sp tr'
    \<and> (case tr_last_day tr of None \<Rightarrow> True | Some l \<Rightarrow> l < last_date z \<longrightarrow> (\<exists>d. tr_day tr' = Some d \<and> l < d)) \<and> ms now < tr_window_end tr')
    \<and> tr_days_done tr' = tr_days_done tr"
proof (cases "tr_day tr")
  case None
  then obtain day finish ss where p: "plan_day sp z (tr_last_day tr) now dr = Some (day, finish, ss)"
    and tr': "tr' = tr\<lparr>tr_day := Some day, tr_last_day := Some day, tr_window_end := finish, tr_sessions := ss\<rparr>"
    using assms(1) by (auto simp: open_day_def)
  note day = planned_day [OF p assms(2,3)]
  obtain s where s: "s \<in> set ss" using day by (cases ss) auto
  then have "ms now < se_at s" "session_waiting s" using day by blast+
  moreover have "session_waiting s \<longrightarrow> se_at s < finish" using day s unfolding day_ok_def by blast
  ultimately have "ms now < finish" by simp
  moreover have "List.filter session_in_flight ss = []"
    using day waiting_not_in_flight by (auto simp: filter_empty_conv)
  ultimately show ?thesis
    using day assms(4) None by (auto simp: tr' track_ok_def track_in_flight_def split: option.splits)
next
  case (Some d)
  with assms show ?thesis by (simp add: open_day_def)
qed


section \<open>A pass over one profile\<close>

definition in_hours :: "clock \<Rightarrow> spec \<Rightarrow> int \<Rightarrow> nat \<Rightarrow> bool" where
  "in_hours z sp day t \<longleftrightarrow> ms (zone_at z day (fst (sp_hours sp))) \<le> t \<and> t < ms (zone_at z day (snd (sp_hours sp)))"

text \<open>What a start is: the waiting session of the day, inside its hours, of a local profile nobody uses.\<close>

definition good_start :: "clock \<Rightarrow> spec \<Rightarrow> str \<Rightarrow> int \<Rightarrow> str set \<Rightarrow> target \<Rightarrow> track \<Rightarrow> start \<Rightarrow> bool" where
  "good_start z sp farm now opened t tr st \<longleftrightarrow>
     target_is_local t \<and> t_id t \<notin> opened \<and> st_profile st = t_id t
     \<and> (\<exists>d urls. tr_day tr = Some d \<and> in_hours z sp d (ms now) \<and> st_plan st = session_plan sp farm urls
          \<and> (\<exists>s \<in> set (tr_sessions tr). session_in_flight s \<and> se_started s = Some (ms now) \<and> se_urls s = urls))"

lemma move_session_ok:
  assumes "move_session sp farm t (ms now) (t_id t \<in> opened) dr room tr = (tr', room', sts)"
    and "track_ok z sp tr" and "track_in_flight tr = 0" and "tr_day tr \<noteq> None \<Longrightarrow> ms now < tr_window_end tr"
  shows "track_ok z sp tr' \<and> track_in_flight tr' + room' = room \<and> tr_days_done tr' = tr_days_done tr
    \<and> tr_last_day tr' = tr_last_day tr \<and> (\<forall>st \<in> set sts. good_start z sp farm now opened t tr' st)"
proof (cases "List.find session_waiting (tr_sessions tr)")
  case None
  with assms show ?thesis by (simp add: move_session_def)
next
  case (Some s)
  note s = find_Some_set [OF Some]
  obtain d where d: "tr_day tr = Some d" "tr_last_day tr = Some d" "day_ok sp z d (tr_window_end tr) (tr_sessions tr)"
    using assms(2) s by (auto simp: track_ok_def list_all_iff split: option.splits)
  consider "ms now < se_at s" | "se_at s \<le> ms now" "t_id t \<in> opened"
    | "se_at s \<le> ms now" "t_id t \<notin> opened" "\<not> target_is_local t \<or> room = 0"
    | "se_at s \<le> ms now" "t_id t \<notin> opened" "target_is_local t" "room \<noteq> 0"
    by fastforce
  then show ?thesis
  proof cases
    case 2
    define later where "later = ms now + gen_range 20 40 (dr_delay dr) * 60 * 1000"
    define g :: "session \<Rightarrow> session" where "g = (\<lambda>s. if tr_window_end tr \<le> later then s\<lparr>se_at := later, se_ended := Some (Skipped ''the profile was open'')\<rparr>
                   else s\<lparr>se_at := later\<rparr>)"
    have tr': "tr' = tr\<lparr>tr_sessions := change_first session_waiting g (tr_sessions tr)\<rparr>" "room' = room" "sts = []"
      using assms(1) 2 Some unfolding move_session_def later_def g_def Let_def by auto
    have g: "se_urls (g s) = se_urls s" "session_waiting s \<Longrightarrow> \<not> session_in_flight (g s)"
      "session_waiting (g s) \<Longrightarrow> se_at (g s) < tr_window_end tr" "se_at (g s) = later" for s
      by (auto simp: g_def session_waiting_def session_in_flight_def)
    have fl: "track_in_flight tr' = 0"
      using change_first_count_same [of session_waiting session_in_flight g] g(2) waiting_not_in_flight assms(3)
      by (fastforce simp: track_in_flight_def tr')
    have "day_ok sp z d (tr_window_end tr) (change_first session_waiting g (tr_sessions tr))"
    proof (rule day_ok_map [OF d(3)])
      show "map se_urls (change_first session_waiting g (tr_sessions tr)) = map se_urls (tr_sessions tr)"
        by (rule change_first_urls) (rule g(1))
      fix s' assume "s' \<in> set (change_first session_waiting g (tr_sessions tr))"
      then consider "s' \<in> set (tr_sessions tr)" | "s' = g s"
        using Some by (cases rule: change_first_cases [of "tr_sessions tr" session_waiting g]) auto
      then show "s' \<in> set (tr_sessions tr) \<or> (\<exists>s \<in> set (tr_sessions tr). se_at s \<le> se_at s' \<and> (session_waiting s' \<longrightarrow> se_at s' < tr_window_end tr))"
      proof cases
        case 2
        then have "se_at s \<le> se_at s'" using \<open>se_at s \<le> ms now\<close> by (simp add: g(4) later_def)
        then show ?thesis using 2 s g(3) by blast
      qed simp
    qed
    then show ?thesis
      using fl assms(2) d(1,2) by (simp add: tr' track_ok_def)
  next
    case 4
    then have tr': "tr' = start_session (ms now) tr" "room' = room - 1"
      "sts = [\<lparr>st_profile = t_id t, st_name = t_name t, st_plan = session_plan sp farm (se_urls s)\<rparr>]"
      using assms(1) Some by (auto simp: move_session_def)
    note start = start_waiting [OF assms(2) Some assms(3), of "ms now"]
    have "ms (zone_at z d (fst (sp_hours sp))) \<le> se_at s" "tr_window_end tr = ms (zone_at z d (snd (sp_hours sp)))"
      using d(3) s by (auto simp: day_ok_def)
    then have hours: "in_hours z sp d (ms now)" using 4(1) assms(4) d(1) by (simp add: in_hours_def)
    have "s\<lparr>se_started := Some (ms now)\<rparr> \<in> set (tr_sessions tr')"
      using Some by (cases rule: change_first_cases [of "tr_sessions tr" session_waiting "\<lambda>s. s\<lparr>se_started := Some (ms now)\<rparr>"])
        (auto simp: tr'(1) start_session_def)
    moreover have "session_in_flight (s\<lparr>se_started := Some (ms now)\<rparr>)" using s by simp
    moreover have "tr_day tr' = Some d" "tr_days_done tr' = tr_days_done tr" "tr_last_day tr' = tr_last_day tr"
      using d(1) by (simp_all add: tr'(1) start_session_def)
    ultimately show ?thesis
      using start 4 hours by (auto simp: tr' good_start_def intro!: bexI [of _ "s\<lparr>se_started := Some (ms now)\<rparr>"])
  qed (use assms Some in \<open>auto simp: move_session_def\<close>)
qed

text \<open>Days are planned forward.\<close>

definition moved_on :: "clock \<Rightarrow> int option \<Rightarrow> int option \<Rightarrow> bool" where
  "moved_on z l l' \<longleftrightarrow> (case l of None \<Rightarrow> True | Some a \<Rightarrow> a < last_date z \<longrightarrow> (\<exists>d. l' = Some d \<and> a \<le> d))"

lemma moved_on_refl [simp]: "moved_on z l l"
  by (auto simp: moved_on_def split: option.split)

lemma step_track_ok:
  assumes "step_track zs sp farm now opened dr t room tr = Some (tr', room', sts)" and "spec_sane sp" and "0 \<le> now"
    and "track_ok z0 sp tr"
  shows "\<exists>z \<in> {z0, zone_of zs (t_timezone t)}. track_ok z sp tr' \<and> track_in_flight tr' + room' = track_in_flight tr + room
    \<and> tr_days_done tr \<le> tr_days_done tr' \<and> tr_days_done tr' \<le> tr_days_done tr + 1
    \<and> moved_on (zone_of zs (t_timezone t)) (tr_last_day tr) (tr_last_day tr')
    \<and> (\<forall>st \<in> set sts. good_start z sp farm now opened t tr' st)"
proof (cases "sp_days sp \<le> tr_days_done tr")
  case True
  with assms(1,4) show ?thesis by (auto simp: step_track_def split: option.split)
next
  case False
  show ?thesis
  proof (cases "List.find session_in_flight (tr_sessions tr)")
    case (Some s)
    have "1 \<le> track_in_flight tr" using Some none_in_flight [of tr] by (cases "track_in_flight tr") auto
    with Some False assms(1,4) end_in_flight [OF assms(4), of "Failed ''the session never reported back''"] show ?thesis
      by (auto simp: step_track_def split: if_splits option.split)
  next
    case None
    then have fl: "track_in_flight tr = 0" using none_in_flight by blast
    define closed where "closed = close_day sp (ms now) tr"
    have ok: "track_ok z0 sp closed" "track_in_flight closed = 0" "tr_last_day closed = tr_last_day tr"
      "tr_days_done tr \<le> tr_days_done closed" "tr_days_done closed \<le> tr_days_done tr + 1"
      unfolding closed_def using close_day_ok [OF assms(4) fl] fl False close_day_days [where t = "ms now" and tr = tr]
      by simp_all
    show ?thesis
    proof (cases "tr_day tr \<noteq> None \<and> tr_day closed = None \<and> sp_days sp \<le> tr_days_done closed")
      case True
      with False None assms(1) ok fl show ?thesis
        by (auto simp: step_track_def Let_def closed_def [symmetric] split: option.split)
    next
      case not_over: False
      then obtain tr1 where tr1: "open_day sp (zone_of zs (t_timezone t)) now dr closed = Some tr1"
        and move: "move_session sp farm t (ms now) (t_id t \<in> opened) dr room tr1 = (tr', room', sts)"
        using False None assms(1) by (auto simp: step_track_def Let_def closed_def [symmetric] split: if_splits)
      note opened = open_day_ok [OF tr1 assms(2,3) ok(1,2)]
      show ?thesis
      proof (cases "tr_day closed")
        case None
        then have t1: "track_ok (zone_of zs (t_timezone t)) sp tr1" "track_in_flight tr1 = 0" "ms now < tr_window_end tr1"
          "tr_days_done tr1 = tr_days_done closed"
          "case tr_last_day tr of None \<Rightarrow> True
           | Some l \<Rightarrow> l < last_date (zone_of zs (t_timezone t)) \<longrightarrow> (\<exists>d. tr_day tr1 = Some d \<and> l < d)"
          using opened ok(3) by auto
        have "moved_on (zone_of zs (t_timezone t)) (tr_last_day tr) (tr_last_day tr1)"
          using t1(1,5) by (fastforce simp: track_ok_def moved_on_def split: option.splits)
        then show ?thesis
          using move_session_ok [OF move t1(1,2) t1(3)] t1(4) ok fl by (intro bexI [of _ "zone_of zs (t_timezone t)"]) simp_all
      next
        case (Some d)
        have "closed = tr \<and> (tr_day tr = None \<or> ms now < tr_window_end tr)"
          by (rule close_day_cases [of sp "ms now" tr]) (use Some in \<open>simp_all add: closed_def\<close>)
        then have "closed = tr" "ms now < tr_window_end tr" using Some by auto
        moreover have "tr1 = closed" using opened Some by simp
        ultimately show ?thesis
          using move_session_ok [OF move, of z0] ok fl by simp
      qed
    qed
  qed
qed


section \<open>Plans\<close>

definition track_for :: "farm \<Rightarrow> str \<Rightarrow> track" where
  "track_for f k = (case map_of (fm_tracks f) k of Some tr \<Rightarrow> tr | None \<Rightarrow> new_track)"

abbreviation put_track :: "str \<Rightarrow> track \<Rightarrow> farm \<Rightarrow> farm" where
  "put_track k tr f \<equiv> f\<lparr>fm_tracks := AList.update k tr (fm_tracks f)\<rparr>"

definition tracks_ok :: "zones \<Rightarrow> farm \<Rightarrow> bool" where
  "tracks_ok zs f \<longleftrightarrow> distinct (map fst (fm_tracks f))
     \<and> (\<forall>(k, tr) \<in> set (fm_tracks f). \<exists>t \<in> set (fm_targets f). t_id t = k
          \<and> track_ok (zone_of zs (t_timezone t)) (fm_spec f) tr)"

definition farm_ok :: "zones \<Rightarrow> farm \<Rightarrow> bool" where
  "farm_ok zs f \<longleftrightarrow> spec_sane (fm_spec f) \<and> tracks_ok zs f \<and> farm_in_flight f \<le> sp_at_once (fm_spec f)"

text \<open>What no operation changes of a plan, and that a finished one stays finished.\<close>

definition evolves :: "farm \<Rightarrow> farm \<Rightarrow> bool" where
  "evolves f f' \<longleftrightarrow> fm_id f' = fm_id f \<and> fm_spec f' = fm_spec f \<and> fm_targets f' = fm_targets f
     \<and> (farm_finished f \<longrightarrow> farm_finished f')"

lemma evolves_refl [simp]: "evolves f f"
  by (simp add: evolves_def)

lemma evolves_trans: "evolves f g \<Longrightarrow> evolves g h \<Longrightarrow> evolves f h"
  by (simp add: evolves_def)

lemma in_flight_new [simp]: "track_in_flight new_track = 0"
  by (simp add: track_in_flight_def new_track_def)

lemma sum_update:
  assumes "distinct (map fst xs)"
  shows "sum_list (map (\<lambda>(_, v). n v) (AList.update k v' xs)) + (case map_of xs k of Some v \<Rightarrow> n v | None \<Rightarrow> (0::nat))
    = sum_list (map (\<lambda>(_, v). n v) xs) + n v'"
  using assms
proof (induction xs)
  case (Cons p xs)
  then show ?case by (cases p) (auto split: option.splits)
qed simp

lemma in_flight_put:
  assumes "distinct (map fst (fm_tracks f))"
  shows "farm_in_flight (put_track k tr f) + track_in_flight (track_for f k) = farm_in_flight f + track_in_flight tr"
  using sum_update [OF assms, of track_in_flight k tr]
  by (auto simp: farm_in_flight_def track_for_def split: option.splits)

lemma evolves_put:
  assumes "tr_days_done (track_for f k) \<le> tr_days_done tr"
  shows "evolves f (put_track k tr f)"
proof -
  have "farm_finished (put_track k tr f)" if fin: "farm_finished f"
    unfolding farm_finished_def list_all_iff
  proof
    fix t assume t: "t \<in> set (fm_targets (put_track k tr f))"
    then obtain old where "map_of (fm_tracks f) (t_id t) = Some old" "sp_days (fm_spec f) \<le> tr_days_done old"
      using fin by (cases "map_of (fm_tracks f) (t_id t)") (auto simp: farm_finished_def list_all_iff)
    then show "case map_of (fm_tracks (put_track k tr f)) (t_id t) of None \<Rightarrow> False
      | Some tr' \<Rightarrow> sp_days (fm_spec (put_track k tr f)) \<le> tr_days_done tr'"
      using assms by (auto simp: update_conv track_for_def)
  qed
  then show ?thesis by (simp add: evolves_def)
qed

lemma set_update: "(a, b) \<in> set (AList.update k v xs) \<Longrightarrow> (a = k \<and> b = v) \<or> (a, b) \<in> set xs"
proof (induction xs)
  case (Cons p xs)
  then show ?case by (cases p) (auto split: if_splits)
qed simp

lemma tracks_ok_put:
  assumes "tracks_ok zs f" and "t \<in> set (fm_targets f)" and "t_id t = k"
    and "track_ok (zone_of zs (t_timezone t)) (fm_spec f) tr"
  shows "tracks_ok zs (put_track k tr f)"
  using assms unfolding tracks_ok_def
  by (auto simp: distinct_update dest!: set_update)

lemma track_for_ok:
  assumes "tracks_ok zs f" and "t \<in> set (fm_targets f)"
  obtains t' where "t' \<in> set (fm_targets f)" and "t_id t' = t_id t"
    and "track_ok (zone_of zs (t_timezone t')) (fm_spec f) (track_for f (t_id t))"
proof (cases "map_of (fm_tracks f) (t_id t)")
  case None
  then show thesis using that [of t] assms(2) track_ok_new by (simp add: track_for_def)
next
  case (Some tr)
  then have "(t_id t, tr) \<in> set (fm_tracks f)" by (rule map_of_SomeD)
  then show thesis using assms(1) that Some by (fastforce simp: tracks_ok_def track_for_def)
qed

lemma step_targets_ok:
  assumes "step_targets zs now opened x ts (f, room) = Some (f', sts)" and "set ts \<subseteq> set (fm_targets f)"
    and "spec_sane (fm_spec f)" and "0 \<le> now" and "tracks_ok zs f"
  shows "evolves f f' \<and> fm_paused f' = fm_paused f \<and> tracks_ok zs f' \<and> farm_in_flight f' \<le> farm_in_flight f + room
    \<and> (\<forall>st \<in> set sts. \<exists>t \<in> set ts. \<exists>t' \<in> set (fm_targets f). t_id t' = t_id t
         \<and> (\<exists>tr. track_ok (zone_of zs (t_timezone t')) (fm_spec f) tr
              \<and> good_start (zone_of zs (t_timezone t')) (fm_spec f) (fm_id f) now opened t tr st))"
  using assms
proof (induction ts arbitrary: f room sts)
  case (Cons t ts)
  from Cons.prems(1) obtain tr room' st f1 sts' where
    s: "step_track zs (fm_spec f) (fm_id f) now opened (x (length ts)) t room (track_for f (t_id t)) = Some (tr, room', st)"
    and r: "step_targets zs now opened x ts (put_track (t_id t) tr f, room') = Some (f', sts')" and sts: "sts = st @ sts'"
    by (auto simp: track_for_def split: option.splits)
  have t: "t \<in> set (fm_targets f)" using Cons.prems(2) by simp
  obtain t0 where t0: "t0 \<in> set (fm_targets f)" "t_id t0 = t_id t"
    "track_ok (zone_of zs (t_timezone t0)) (fm_spec f) (track_for f (t_id t))"
    by (rule track_for_ok [OF Cons.prems(5) t])
  obtain t' where t': "t' \<in> set (fm_targets f)" "t_id t' = t_id t" "track_ok (zone_of zs (t_timezone t')) (fm_spec f) tr"
    and fl: "track_in_flight tr + room' = track_in_flight (track_for f (t_id t)) + room"
    and days: "tr_days_done (track_for f (t_id t)) \<le> tr_days_done tr"
    and starts: "\<forall>st' \<in> set st. good_start (zone_of zs (t_timezone t')) (fm_spec f) (fm_id f) now opened t tr st'"
    using step_track_ok [OF s Cons.prems(3,4) t0(3)] t0 t by blast
  have ok: "tracks_ok zs (put_track (t_id t) tr f)"
    by (rule tracks_ok_put [OF Cons.prems(5) t'])
  have room: "farm_in_flight (put_track (t_id t) tr f) + room' = farm_in_flight f + room"
    using in_flight_put [of f "t_id t" tr] Cons.prems(5) fl by (simp add: tracks_ok_def)
  have ev: "evolves f (put_track (t_id t) tr f)" by (rule evolves_put [OF days])
  from Cons.IH [OF r] Cons.prems(2-4) ok
  have ih: "evolves (put_track (t_id t) tr f) f'" "fm_paused f' = fm_paused f" "tracks_ok zs f'"
    "farm_in_flight f' \<le> farm_in_flight f + room"
    "\<forall>st \<in> set sts'. \<exists>t \<in> set ts. \<exists>t' \<in> set (fm_targets f). t_id t' = t_id t
         \<and> (\<exists>tr. track_ok (zone_of zs (t_timezone t')) (fm_spec f) tr
              \<and> good_start (zone_of zs (t_timezone t')) (fm_spec f) (fm_id f) now opened t tr st)"
    using room by auto
  have "\<exists>t1 \<in> set (t # ts). \<exists>t2 \<in> set (fm_targets f). t_id t2 = t_id t1
         \<and> (\<exists>tr. track_ok (zone_of zs (t_timezone t2)) (fm_spec f) tr
              \<and> good_start (zone_of zs (t_timezone t2)) (fm_spec f) (fm_id f) now opened t1 tr st')"
    if "st' \<in> set sts" for st'
    using that ih(5) t' starts unfolding sts set_append by (metis Un_iff list.set_intros)
  with ih evolves_trans [OF ev] show ?case by blast
qed simp

end
