(* ===== verification/Farm_Runs.thy ===== *)
theory Farm_Runs
  imports Farm_Protocol
begin

text \<open>
  What holds of the farming plans over any run of requests, reports, passes and restarts: the limit
  on browsers, the hours of each profile, one plan for a profile, one claim for a session, and that a
  pass returns.
\<close>

section \<open>Every operation on the plans\<close>

definition follows :: "zones \<Rightarrow> farm \<Rightarrow> farm \<Rightarrow> bool" where
  "follows zs f f' \<longleftrightarrow> evolves f f' \<and> (farm_ok zs f \<longrightarrow> farm_ok zs f')"

lemma follows_refl [simp]: "follows zs f f"
  by (simp add: follows_def)

lemma change_first_follows:
  assumes "\<And>f. f \<in> set fs \<Longrightarrow> P f \<Longrightarrow> follows zs f (g f)"
  shows "list_all2 (follows zs) fs (change_first P g fs)"
  using assms by (induction fs) (auto intro: list.rel_refl)

text \<open>A change of one track that keeps it what it is, starts nothing and keeps its days.\<close>

lemma with_track_follows:
  assumes "\<And>z sp tr. track_ok z sp tr \<Longrightarrow> track_ok z sp (g tr) \<and> track_in_flight (g tr) \<le> track_in_flight tr"
    and "\<And>tr. tr_days_done (g tr) = tr_days_done tr"
  shows "list_all2 (follows zs) fs (with_track farm profile g fs)"
  unfolding with_track_def
proof (rule change_first_follows)
  fix f
  show "follows zs f (case map_of (fm_tracks f) profile of None \<Rightarrow> f | Some tr \<Rightarrow> put_track profile (g tr) f)"
  proof (cases "map_of (fm_tracks f) profile")
    case (Some tr)
    have "evolves f (put_track profile (g tr) f)"
      by (rule evolves_put) (simp add: track_for_def Some assms(2))
    moreover have "farm_ok zs (put_track profile (g tr) f)" if ok: "farm_ok zs f"
    proof -
      have tr: "tracks_ok zs f" "(profile, tr) \<in> set (fm_tracks f)"
        using ok map_of_SomeD [OF Some] by (simp_all add: farm_ok_def)
      then obtain t where t: "t \<in> set (fm_targets f)" "t_id t = profile" "track_ok (zone_of zs (t_timezone t)) (fm_spec f) tr"
        by (auto simp: tracks_ok_def)
      have "tracks_ok zs (put_track profile (g tr) f)"
        by (rule tracks_ok_put [OF tr(1) t(1,2)]) (use assms(1) t(3) in blast)
      moreover have "farm_in_flight (put_track profile (g tr) f) \<le> farm_in_flight f"
        using in_flight_put [of f profile "g tr"] tr(1) assms(1) [OF t(3)] by (simp add: track_for_def Some tracks_ok_def)
      ultimately show ?thesis using ok by (simp add: farm_ok_def)
    qed
    ultimately show ?thesis by (simp add: follows_def Some)
  qed simp
qed

lemma end_in_flight_le:
  assumes "track_ok z sp tr"
  shows "track_in_flight (tr\<lparr>tr_sessions := change_first session_in_flight (end_session out) (tr_sessions tr)\<rparr>) \<le> track_in_flight tr"
  using end_in_flight(2) [OF assms, of out] by simp

text \<open>Fields of a track that no invariant reads.\<close>

lemma track_ok_other [simp]:
  "track_ok z sp (tr\<lparr>tr_sites := a\<rparr>) = track_ok z sp tr" "track_ok z sp (tr\<lparr>tr_cookies := b\<rparr>) = track_ok z sp tr"
  "track_ok z sp (tr\<lparr>tr_last_error := c\<rparr>) = track_ok z sp tr" "track_ok z sp (tr\<lparr>tr_stage_pending := d\<rparr>) = track_ok z sp tr"
  "track_in_flight (tr\<lparr>tr_sites := a\<rparr>) = track_in_flight tr" "track_in_flight (tr\<lparr>tr_cookies := b\<rparr>) = track_in_flight tr"
  "track_in_flight (tr\<lparr>tr_last_error := c\<rparr>) = track_in_flight tr" "track_in_flight (tr\<lparr>tr_stage_pending := d\<rparr>) = track_in_flight tr"
  by (simp_all add: track_ok_def track_in_flight_def cong: option.case_cong)

lemma report_follows: "list_all2 (follows zs) fs (report farm profile p fs)"
  unfolding report_def
proof (rule with_track_follows)
  fix z sp tr assume ok: "track_ok z sp tr"
  from end_in_flight(1) [OF ok, of "ended_as p"] end_in_flight_le [OF ok, of "ended_as p"] ok
  show "track_ok z sp (report_track p tr) \<and> track_in_flight (report_track p tr) \<le> track_in_flight tr"
    by (simp add: report_track_def)
qed (simp add: report_track_def)

lemma fail_follows: "list_all2 (follows zs) fs (fail_run farm profile e fs)"
  unfolding fail_run_def
proof (rule with_track_follows)
  fix z sp tr assume ok: "track_ok z sp tr"
  from end_in_flight(1) [OF ok, of "Failed e"] end_in_flight_le [OF ok, of "Failed e"]
  show "track_ok z sp (tr\<lparr>tr_sessions := change_first session_in_flight (end_session (Failed e)) (tr_sessions tr), tr_last_error := Some e\<rparr>)
      \<and> track_in_flight (tr\<lparr>tr_sessions := change_first session_in_flight (end_session (Failed e)) (tr_sessions tr), tr_last_error := Some e\<rparr>)
        \<le> track_in_flight tr"
    by simp
qed simp

lemma stage_follows: "list_all2 (follows zs) fs (stage_applied farm profile fs)"
  unfolding stage_applied_def by (rule with_track_follows) simp_all

lemma pause_follows: "list_all2 (follows zs) fs (fst (pause i b fs))"
  unfolding pause_def fst_conv
  by (rule change_first_follows)
    (simp add: follows_def evolves_def farm_finished_def farm_ok_def tracks_ok_def farm_in_flight_def cong: option.case_cong)

lemma load_follows: "list_all2 (follows zs) fs (load_farms fs)"
proof -
  define g where "g = (\<lambda>s. if session_in_flight s then end_session (Failed ''Fury stopped during the session'') s else s)"
  define h where "h = (\<lambda>tr :: track. tr\<lparr>tr_sessions := map g (tr_sessions tr)\<rparr>)"
  have g: "se_urls (g s) = se_urls s" "se_at (g s) = se_at s" "\<not> session_in_flight (g s)" "session_waiting (g s) \<longleftrightarrow> session_waiting s" for s
    by (auto simp: g_def waiting_not_in_flight)
  have h: "track_ok z sp tr \<Longrightarrow> track_ok z sp (h tr)" "track_in_flight (h tr) = 0" "tr_days_done (h tr) = tr_days_done tr" for z sp tr
  proof -
    show fl: "track_in_flight (h tr) = 0" using g(3) by (auto simp: h_def track_in_flight_def filter_empty_conv)
    have "map se_urls (map g ss) = map se_urls ss" for ss using g(1) by simp
    then show "track_ok z sp tr \<Longrightarrow> track_ok z sp (h tr)"
      using fl g by (auto simp: track_ok_def h_def list_all_iff day_ok_def comp_def split: option.splits)
  qed (simp add: h_def)
  have "follows zs f (f\<lparr>fm_tracks := map (\<lambda>(k, tr). (k, h tr)) (fm_tracks f)\<rparr>)" for f
  proof -
    have keys: "map fst (map (\<lambda>(k, tr). (k, h tr)) xs) = map fst xs" for xs :: "(str \<times> track) list"
      by (induction xs) auto
    have look: "map_of (map (\<lambda>(k, tr). (k, h tr)) xs) k = map_option h (map_of xs k)" for xs k
      by (induction xs) auto
    have "farm_in_flight (f\<lparr>fm_tracks := map (\<lambda>(k, tr). (k, h tr)) (fm_tracks f)\<rparr>) = 0"
    proof -
      have "sum_list (map (\<lambda>(_, tr). track_in_flight tr) (map (\<lambda>(k, tr). (k, h tr)) xs)) = 0" for xs :: "(str \<times> track) list"
        using h(2) by (induction xs) auto
      then show ?thesis by (simp add: farm_in_flight_def)
    qed
    moreover have "evolves f (f\<lparr>fm_tracks := map (\<lambda>(k, tr). (k, h tr)) (fm_tracks f)\<rparr>)"
      using h(3) by (fastforce simp: evolves_def farm_finished_def look list_all_iff split: option.splits)
    moreover have "tracks_ok zs f \<Longrightarrow> tracks_ok zs (f\<lparr>fm_tracks := map (\<lambda>(k, tr). (k, h tr)) (fm_tracks f)\<rparr>)"
    proof -
      assume ok: "tracks_ok zs f"
      have "\<exists>t \<in> set (fm_targets f). t_id t = k \<and> track_ok (zone_of zs (t_timezone t)) (fm_spec f) tr"
        if mem: "(k, tr) \<in> set (map (\<lambda>(k, tr). (k, h tr)) (fm_tracks f))" for k tr
      proof -
        obtain old where "(k, old) \<in> set (fm_tracks f)" "tr = h old" using mem by auto
        then show ?thesis using ok h(1) unfolding tracks_ok_def by blast
      qed
      moreover have "distinct (map fst (map (\<lambda>(k, tr). (k, h tr)) (fm_tracks f)))"
        using ok unfolding keys tracks_ok_def by simp
      ultimately show "tracks_ok zs (f\<lparr>fm_tracks := map (\<lambda>(k, tr). (k, h tr)) (fm_tracks f)\<rparr>)"
        by (cases f) (simp only: tracks_ok_def farm.select_convs farm.update_convs, blast)
    qed
    ultimately show ?thesis by (simp add: follows_def farm_ok_def)
  qed
  moreover have "load_farms fs = map (\<lambda>f. f\<lparr>fm_tracks := map (\<lambda>(k, tr). (k, h tr)) (fm_tracks f)\<rparr>) fs"
    by (simp add: load_farms_def g_def h_def)
  ultimately show ?thesis by (simp add: list.rel_map list_all2_same)
qed

lemma create_Inr:
  assumes "create i sp ts now fs = Inr fs'"
  shows "\<exists>f. fs' = fs @ [f] \<and> fm_id f = i \<and> farm_ok zs f \<and> \<not> farm_finished f
    \<and> (\<forall>g \<in> set fs. \<not> farm_finished g \<longrightarrow> t_id ` set (fm_targets g) \<inter> t_id ` set (fm_targets f) = {})"
proof -
  let ?urls = "List.filter (\<lambda>u. u \<noteq> []) (map trim (sp_urls sp))"
  let ?f = "\<lparr>fm_id = i, fm_created = now, fm_spec = sp\<lparr>sp_urls := ?urls\<rparr>, fm_targets = ts, fm_tracks = [], fm_paused = False\<rparr>"
  have checked: "check_spec sp = Inr ()" and ts: "ts \<noteq> []" and fs': "fs' = fs @ [?f]"
    and clash: "List.map_filter (\<lambda>t. map_option (Pair t)
           (List.find (\<lambda>f. \<not> farm_finished f \<and> t_id t \<in> t_id ` set (fm_targets f)) fs)) ts = []"
    using assms by (auto simp: create_def split: list.splits)
  have none: "List.find (\<lambda>f. \<not> farm_finished f \<and> t_id t \<in> t_id ` set (fm_targets f)) fs = None" if "t \<in> set ts" for t
    using clash that by (auto simp: map_filter_def filter_empty_conv)
  have "\<forall>g \<in> set fs. \<not> farm_finished g \<longrightarrow> t_id ` set (fm_targets g) \<inter> t_id ` set ts = {}"
  proof (intro ballI impI)
    fix g assume g: "g \<in> set fs" "\<not> farm_finished g"
    have "t_id t \<notin> t_id ` set (fm_targets g)" if "t \<in> set ts" for t
      using none [OF that] g unfolding find_None_set by blast
    then have "\<forall>y \<in> t_id ` set ts. y \<notin> t_id ` set (fm_targets g)" by simp
    then show "t_id ` set (fm_targets g) \<inter> t_id ` set ts = {}" by blast
  qed
  moreover have "?urls \<noteq> []" using checked by (auto simp: check_spec_def filter_empty_conv list_all_iff)
  then have "spec_sane (fm_spec ?f)"
    using checked by (auto simp: check_spec_def spec_sane_def Let_def split: prod.splits)
  then have "farm_ok zs ?f"
    by (simp add: farm_ok_def tracks_ok_def farm_in_flight_def)
  moreover have "\<not> farm_finished ?f" using ts by (cases ts) (simp_all add: farm_finished_def)
  ultimately show ?thesis unfolding fs' by auto
qed

lemma due_targets_set:
  "(a, p) \<in> set (due_targets f n opened room ts) \<Longrightarrow>
     a = fm_id f \<and> 0 < room \<and> p \<notin> opened \<and> (\<exists>tr. map_of (fm_tracks f) p = Some tr \<and> track_due n tr)
     \<and> (\<exists>t \<in> set ts. t_id t = p \<and> \<not> target_is_local t)"
proof (induction f n opened room ts rule: due_targets.induct)
  case (2 f n opened room t ts)
  consider "target_is_local t" | "\<not> target_is_local t" "room = 0"
    | "\<not> target_is_local t" "0 < room" "map_of (fm_tracks f) (t_id t) = None"
    | tr where "\<not> target_is_local t" "0 < room" "map_of (fm_tracks f) (t_id t) = Some tr" "track_due n tr \<and> t_id t \<notin> opened"
    | tr where "\<not> target_is_local t" "0 < room" "map_of (fm_tracks f) (t_id t) = Some tr" "\<not> (track_due n tr \<and> t_id t \<notin> opened)"
    by (cases "map_of (fm_tracks f) (t_id t)") auto
  then show ?case
  proof cases
    case 1
    then show ?thesis using "2.IH"(1) [OF 1] "2.prems" by auto
  next
    case 2
    then show ?thesis using "2.prems" by simp
  next
    case 3
    then show ?thesis using "2.IH"(2) [OF 3(1) _ 3(3)] "2.prems" by auto
  next
    case (4 tr)
    then have "(a, p) = (fm_id f, t_id t) \<or> (a, p) \<in> set (due_targets f n opened (room - 1) ts)"
      using "2.prems" by simp
    then show ?thesis
    proof
      assume "(a, p) = (fm_id f, t_id t)"
      then show ?thesis using 4 by auto
    next
      assume rest: "(a, p) \<in> set (due_targets f n opened (room - 1) ts)"
      show ?thesis using "2.IH"(3) [OF 4(1) _ 4(3,4) rest] 4(2) by auto
    qed
  next
    case (5 tr)
    then have rest: "(a, p) \<in> set (due_targets f n opened room ts)" using "2.prems" by (simp only: due_targets.simps if_False option.case split: if_splits)
    show ?thesis using "2.IH"(4) [OF 5(1) _ 5(3,4) rest] 5(2) by auto
  qed
qed simp

lemma due_set:
  "(a, p) \<in> set (due now opened fs) \<Longrightarrow> \<exists>f \<in> set fs. fm_id f = a \<and> \<not> fm_paused f
     \<and> farm_in_flight f < sp_at_once (fm_spec f) \<and> p \<notin> opened
     \<and> (\<exists>tr. map_of (fm_tracks f) p = Some tr \<and> track_due (ms now) tr)"
  by (fastforce simp: due_def dest: due_targets_set)

lemma claim_follows:
  assumes "claim farm profile now opened fs = Inr (fs', plan)" and "distinct (map fm_id fs)"
  shows "list_all2 (follows zs) fs fs'"
proof -
  have fs': "fs' = with_track farm profile (start_session (ms now)) fs" and d: "(farm, profile) \<in> set (due now opened fs)"
    using assms(1) by (auto simp: claim_def split: if_splits option.splits)
  obtain f0 tr where f0: "f0 \<in> set fs" "fm_id f0 = farm" "farm_in_flight f0 < sp_at_once (fm_spec f0)"
    and tr: "map_of (fm_tracks f0) profile = Some tr" "track_due (ms now) tr"
    using due_set [OF d] by blast
  obtain s where s: "List.find session_waiting (tr_sessions tr) = Some s" and fl: "track_in_flight tr = 0"
    using tr(2) by (auto simp: track_due_def track_in_flight_def filter_empty_conv list_ex_iff split: option.splits)
  show ?thesis
    unfolding fs' with_track_def
  proof (rule change_first_follows)
    fix f assume f: "f \<in> set fs" "fm_id f = farm"
    then have "f = f0" using f0 assms(2) by (metis distinct_map inj_onD)
    have "evolves f (put_track profile (start_session (ms now) tr) f)"
      by (rule evolves_put) (simp add: track_for_def tr(1) \<open>f = f0\<close> start_session_def)
    moreover have "farm_ok zs (put_track profile (start_session (ms now) tr) f)" if ok: "farm_ok zs f"
    proof -
      have "(profile, tr) \<in> set (fm_tracks f)" using map_of_SomeD [OF tr(1)] \<open>f = f0\<close> by simp
      then obtain t where t: "t \<in> set (fm_targets f)" "t_id t = profile" "track_ok (zone_of zs (t_timezone t)) (fm_spec f) tr"
        using ok by (auto simp: farm_ok_def tracks_ok_def)
      note start = start_waiting [OF t(3) s fl, of "ms now"]
      have "tracks_ok zs (put_track profile (start_session (ms now) tr) f)"
        using ok by (intro tracks_ok_put [OF _ t(1,2) start(1)]) (simp add: farm_ok_def)
      moreover have "farm_in_flight (put_track profile (start_session (ms now) tr) f) \<le> sp_at_once (fm_spec f)"
        using in_flight_put [of f profile "start_session (ms now) tr"] ok start(2) fl f0(3)
        by (simp add: farm_ok_def tracks_ok_def track_for_def tr(1) \<open>f = f0\<close>)
      ultimately show ?thesis using ok by (simp add: farm_ok_def)
    qed
    ultimately show "follows zs f (case map_of (fm_tracks f) profile of None \<Rightarrow> f | Some tr \<Rightarrow> put_track profile (start_session (ms now) tr) f)"
      by (simp add: follows_def tr(1) \<open>f = f0\<close>)
  qed
qed

lemma step_farm_ok:
  assumes "step_farm zs now opened x f = Some (f', sts)" and "0 \<le> now" and "farm_ok zs f"
  shows "follows zs f f'"
proof (cases "fm_paused f")
  case True
  with assms show ?thesis by (simp add: step_farm_def)
next
  case False
  then have s: "step_targets zs now opened x (fm_targets f) (f, sp_at_once (fm_spec f) - farm_in_flight f) = Some (f', sts)"
    using assms(1) by (simp add: step_farm_def)
  have ok: "spec_sane (fm_spec f)" "tracks_ok zs f" "farm_in_flight f \<le> sp_at_once (fm_spec f)"
    using assms(3) by (simp_all add: farm_ok_def)
  from step_targets_ok [OF s order_refl ok(1) assms(2) ok(2)] ok show ?thesis
    by (auto simp: follows_def farm_ok_def evolves_def)
qed

lemma step_follows:
  assumes "farm_step zs now opened x fs = Some (fs', sts)" and "0 \<le> now" and "\<forall>f \<in> set fs. farm_ok zs f"
  shows "list_all2 (follows zs) fs fs'"
  using assms
proof (induction fs arbitrary: fs' sts)
  case (Cons f fs)
  then show ?case by (auto split: option.splits dest!: step_farm_ok)
qed simp

section \<open>Plans over a run\<close>

inductive reached :: "zones \<Rightarrow> farm list \<Rightarrow> bool" for zs where
  nothing_yet: "reached zs []"
| created: "reached zs fs \<Longrightarrow> i \<notin> fm_id ` set fs \<Longrightarrow> create i sp ts t fs = Inr fs' \<Longrightarrow> reached zs fs'"
| deleted: "reached zs fs \<Longrightarrow> reached zs (fst (delete_farm i fs))"
| paused: "reached zs fs \<Longrightarrow> reached zs (fst (pause i b fs))"
| reported: "reached zs fs \<Longrightarrow> reached zs (report i p r fs)"
| run_failed: "reached zs fs \<Longrightarrow> reached zs (fail_run i p e fs)"
| staged: "reached zs fs \<Longrightarrow> reached zs (stage_applied i p fs)"
| loaded: "reached zs fs \<Longrightarrow> reached zs (load_farms fs)"
| claimed: "reached zs fs \<Longrightarrow> claim i p now opened fs = Inr (fs', plan) \<Longrightarrow> reached zs fs'"
| stepped: "reached zs fs \<Longrightarrow> 0 \<le> now \<Longrightarrow> farm_step zs now opened x fs = Some (fs', sts) \<Longrightarrow> reached zs fs'"

text \<open>Two plans of which one is finished, or that share no profile.\<close>

definition apart :: "farm \<Rightarrow> farm \<Rightarrow> bool" where
  "apart f g \<longleftrightarrow> farm_finished f \<or> farm_finished g \<or> t_id ` set (fm_targets f) \<inter> t_id ` set (fm_targets g) = {}"

definition plans_ok :: "zones \<Rightarrow> farm list \<Rightarrow> bool" where
  "plans_ok zs fs \<longleftrightarrow> distinct (map fm_id fs) \<and> (\<forall>f \<in> set fs. farm_ok zs f) \<and> sorted_wrt apart fs"

lemma apart_follows: "apart f g \<Longrightarrow> follows zs f f' \<Longrightarrow> follows zs g g' \<Longrightarrow> apart f' g'"
  by (auto simp: apart_def follows_def evolves_def)

lemma follows_ids: "list_all2 (follows zs) fs fs' \<Longrightarrow> map fm_id fs' = map fm_id fs"
  by (induction rule: list_all2_induct) (simp_all add: follows_def evolves_def)

lemma list_all2_right: "list_all2 R xs ys \<Longrightarrow> y \<in> set ys \<Longrightarrow> \<exists>x \<in> set xs. R x y"
  by (induction rule: list_all2_induct) auto

lemma plans_ok_follows:
  assumes "list_all2 (follows zs) fs fs'" and "plans_ok zs fs"
  shows "plans_ok zs fs'"
proof -
  have "farm_ok zs f'" if "f' \<in> set fs'" for f'
    using list_all2_right [OF assms(1) that] assms(2) by (auto simp: plans_ok_def follows_def)
  moreover have "sorted_wrt apart fs'"
    using assms(1) assms(2) [unfolded plans_ok_def, THEN conjunct2, THEN conjunct2]
  proof (induction rule: list_all2_induct)
    case (Cons f fs f' fs')
    then show ?case
      using list_all2_right [OF Cons.hyps(2)] apart_follows [OF _ Cons.hyps(1)] by (metis list.set_intros(2) sorted_wrt.simps(2))
  qed simp
  ultimately show ?thesis using assms follows_ids [OF assms(1)] by (simp add: plans_ok_def)
qed

lemma apart_sym: "apart f g \<Longrightarrow> apart g f"
  by (auto simp: apart_def)

lemma plans_ok_reached: "reached zs fs \<Longrightarrow> plans_ok zs fs"
proof (induction rule: reached.induct)
  case nothing_yet
  show ?case by (simp add: plans_ok_def)
next
  case (created fs i sp ts t fs')
  obtain f where "fs' = fs @ [f]" "fm_id f = i" "farm_ok zs f"
    "\<forall>g \<in> set fs. \<not> farm_finished g \<longrightarrow> t_id ` set (fm_targets g) \<inter> t_id ` set (fm_targets f) = {}"
    using create_Inr [OF created.hyps(3)] by blast
  then show ?case using created by (auto simp: plans_ok_def sorted_wrt_append apart_def)
next
  case (deleted fs i)
  then show ?case by (auto simp: plans_ok_def delete_farm_def Let_def distinct_map_filter sorted_wrt_filter)
next
  case (claimed fs i p now opened fs' plan)
  have "distinct (map fm_id fs)" using claimed.IH by (simp add: plans_ok_def)
  from plans_ok_follows [OF claim_follows [OF claimed.hyps(2) this] claimed.IH] show ?case .
next
  case (stepped fs now opened x fs' sts)
  have "\<forall>f \<in> set fs. farm_ok zs f" using stepped.IH by (simp add: plans_ok_def)
  from plans_ok_follows [OF step_follows [OF stepped.hyps(3,2) this] stepped.IH] show ?case .
qed (simp_all add: plans_ok_follows [OF report_follows] plans_ok_follows [OF fail_follows]
  plans_ok_follows [OF stage_follows] plans_ok_follows [OF load_follows] plans_ok_follows [OF pause_follows])

text \<open>
  C25. Whatever order plans are made, deleted, paused, stepped, claimed from, reported to and read back in, the
  records of a plan never hold more sessions in flight (started, and neither reported, failed nor given up) than it
  was given browsers, which are at most six, and never two of one profile; and no profile has more days done than the
  plan asks for. A session given up after two hours without a report leaves the count whether or not its browser
  still runs, so the bound is one on the records, not on the processes.
\<close>

theorem no_more_browsers_than_asked:
  assumes "reached zs fs" and "f \<in> set fs"
  shows "farm_in_flight f \<le> sp_at_once (fm_spec f) \<and> sp_at_once (fm_spec f) \<le> 6
    \<and> list_all (\<lambda>(_, tr). track_in_flight tr \<le> 1 \<and> tr_days_done tr \<le> sp_days (fm_spec f)) (fm_tracks f)"
proof -
  have ok: "farm_ok zs f" using plans_ok_reached [OF assms(1)] assms(2) by (simp add: plans_ok_def)
  then show ?thesis
    by (fastforce simp: farm_ok_def spec_sane_def max_at_once_def tracks_ok_def track_ok_def list_all_iff)
qed

text \<open>
  No profile is ever in two plans that are both still to be finished.
\<close>

theorem one_plan_per_profile:
  assumes "reached zs fs" and "i < length fs" and "j < length fs" and "i \<noteq> j"
    and "\<not> farm_finished (fs ! i)" and "\<not> farm_finished (fs ! j)"
  shows "t_id ` set (fm_targets (fs ! i)) \<inter> t_id ` set (fm_targets (fs ! j)) = {} \<and> fm_id (fs ! i) \<noteq> fm_id (fs ! j)"
proof -
  have ok: "distinct (map fm_id fs)" "sorted_wrt apart fs" using plans_ok_reached [OF assms(1)] by (simp_all add: plans_ok_def)
  have "apart (fs ! i) (fs ! j)"
  proof (cases "i < j")
    case True
    then show ?thesis using sorted_wrt_nth_less [OF ok(2) _ assms(3)] by blast
  next
    case False
    then show ?thesis using sorted_wrt_nth_less [OF ok(2), of j i] assms apart_sym by simp
  qed
  moreover have "fm_id (fs ! i) \<noteq> fm_id (fs ! j)"
    using ok(1) assms(2-4) by (metis distinct_conv_nth length_map nth_map)
  ultimately show ?thesis using assms(5,6) by (simp add: apart_def)
qed

text \<open>
  What a start is, over one profile: the first session that waits in the day that is open, due, inside its hours, of
  a local profile nobody uses and in which nothing runs. A day that is planned in a pass starts nothing in that pass.
\<close>

definition starts_from :: "clock \<Rightarrow> spec \<Rightarrow> str \<Rightarrow> int \<Rightarrow> str set \<Rightarrow> target \<Rightarrow> track \<Rightarrow> track \<Rightarrow> start \<Rightarrow> bool" where
  "starts_from z sp farm now opened t tr tr' st \<longleftrightarrow>
     t_origin t = ''local'' \<and> t_id t \<notin> opened \<and> st_profile st = t_id t
     \<and> (\<exists>d s. tr_day tr = Some d \<and> List.find session_waiting (tr_sessions tr) = Some s \<and> track_in_flight tr = 0
          \<and> se_at s \<le> ms now \<and> ms now < tr_window_end tr \<and> in_hours z sp d (ms now)
          \<and> st_plan st = session_plan sp farm (se_urls s) \<and> set (se_urls s) \<subseteq> set (sp_urls sp))
     \<and> tr' = start_session (ms now) tr"

lemma move_session_start:
  assumes "move_session sp farm t now_ms o' dr room tr = (tr', room', sts)" and "st \<in> set sts"
  shows "\<exists>s. List.find session_waiting (tr_sessions tr) = Some s \<and> se_at s \<le> now_ms \<and> \<not> o' \<and> target_is_local t
    \<and> tr' = start_session now_ms tr \<and> st_profile st = t_id t \<and> st_plan st = session_plan sp farm (se_urls s)"
  using assms by (auto simp: move_session_def Let_def split: option.splits if_splits)

lemma step_track_start:
  assumes "step_track zs sp farm now opened dr t room tr = Some (tr', room', sts)" and "spec_sane sp" and "0 \<le> now"
    and "track_ok z0 sp tr" and "st \<in> set sts"
  shows "starts_from z0 sp farm now opened t tr tr' st"
proof -
  define closed where "closed = close_day sp (ms now) tr"
  have days: "\<not> sp_days sp \<le> tr_days_done tr" and none: "List.find session_in_flight (tr_sessions tr) = None"
    using assms(1,5) by (auto simp: step_track_def split: if_splits option.splits)
  obtain tr1 where tr1: "open_day sp (zone_of zs (t_timezone t)) now dr closed = Some tr1"
    and move: "move_session sp farm t (ms now) (t_id t \<in> opened) dr room tr1 = (tr', room', sts)"
    using assms(1,5) days none by (auto simp: step_track_def Let_def closed_def [symmetric] split: if_splits)
  obtain s where s: "List.find session_waiting (tr_sessions tr1) = Some s" "se_at s \<le> ms now" "t_id t \<notin> opened"
    "target_is_local t" "tr' = start_session (ms now) tr1" "st_profile st = t_id t" "st_plan st = session_plan sp farm (se_urls s)"
    using move_session_start [OF move assms(5)] by blast
  have "tr_day closed \<noteq> None"
  proof
    assume "tr_day closed = None"
    then obtain day finish ss where p: "plan_day sp (zone_of zs (t_timezone t)) (tr_last_day closed) now dr = Some (day, finish, ss)"
      and "tr_sessions tr1 = ss"
      using tr1 by (auto simp: open_day_def)
    then have "s \<in> set ss" using find_Some_set [OF s(1)] by simp
    then show False using planned_day [OF p assms(2,3)] s(2) by (meson not_le)
  qed
  then obtain d where d: "tr_day closed = Some d" by auto
  have "closed = tr \<and> (tr_day tr = None \<or> ms now < tr_window_end tr)"
    by (rule close_day_cases [of sp "ms now" tr]) (use d in \<open>simp_all add: closed_def\<close>)
  then have day: "tr_day tr = Some d" "ms now < tr_window_end tr" "tr1 = tr" using d tr1 by (auto simp: open_day_def)
  then have ok: "day_ok sp z0 d (tr_window_end tr) (tr_sessions tr)" using assms(4) by (simp add: track_ok_def)
  have mem: "s \<in> set (tr_sessions tr)" using find_Some_set [OF s(1)] day(3) by simp
  then have "ms (zone_at z0 d (fst (sp_hours sp))) \<le> se_at s" "tr_window_end tr = ms (zone_at z0 d (snd (sp_hours sp)))"
    using ok by (auto simp: day_ok_def)
  then have hours: "in_hours z0 sp d (ms now)" using s(2) day(2) by (simp add: in_hours_def)
  have "set (concat (map se_urls (tr_sessions tr))) \<subseteq> set (sp_urls sp)"
    using ok unfolding day_ok_def by (metis set_mset_mono set_mset_mset)
  then have "set (se_urls s) \<subseteq> set (sp_urls sp)" using mem by auto
  then show ?thesis
    using s day hours none by (auto simp: starts_from_def target_is_local_def none_in_flight)
qed

lemma track_for_put: "track_for (put_track k tr f) k' = (if k' = k then tr else track_for f k')"
  by (simp add: track_for_def update_conv)

lemma step_targets_frame:
  "step_targets zs now opened x ts (f, room) = Some (f', sts) \<Longrightarrow> k \<notin> t_id ` set ts \<Longrightarrow> track_for f' k = track_for f k"
proof (induction ts arbitrary: f room sts)
  case (Cons t ts)
  then obtain tr room' st sts' where "step_targets zs now opened x ts (put_track (t_id t) tr f, room') = Some (f', sts')"
    by (auto split: option.splits)
  from Cons.IH [OF this] Cons.prems(2) show ?case by (simp add: track_for_put)
qed simp

lemma step_targets_start:
  assumes "step_targets zs now opened x ts (f, room) = Some (f', sts)" and "st \<in> set sts" and "distinct (map t_id ts)"
    and "spec_sane (fm_spec f)" and "0 \<le> now"
    and "\<forall>t \<in> set ts. track_ok (zone_of zs (t_timezone t)) (fm_spec f) (track_for f (t_id t))"
  shows "\<exists>t \<in> set ts. starts_from (zone_of zs (t_timezone t)) (fm_spec f) (fm_id f) now opened t
    (track_for f (t_id t)) (track_for f' (t_id t)) st"
  using assms
proof (induction ts arbitrary: f room sts)
  case (Cons t ts)
  obtain tr room' st1 sts1 where
      one: "step_track zs (fm_spec f) (fm_id f) now opened (x (length ts)) t room (track_for f (t_id t)) = Some (tr, room', st1)"
    and rest: "step_targets zs now opened x ts (put_track (t_id t) tr f, room') = Some (f', sts1)" and sts: "sts = st1 @ sts1"
    using Cons.prems(1) by (auto simp: track_for_def split: option.splits)
  have new: "t_id t \<notin> t_id ` set ts" using Cons.prems(3) by simp
  show ?case
  proof (cases "st \<in> set st1")
    case True
    have "track_for f' (t_id t) = tr" using step_targets_frame [OF rest new] by (simp add: track_for_put)
    moreover have "track_ok (zone_of zs (t_timezone t)) (fm_spec f) (track_for f (t_id t))" using Cons.prems(6) by simp
    ultimately show ?thesis using step_track_start [OF one Cons.prems(4,5) _ True] by auto
  next
    case False
    have same: "track_for (put_track (t_id t) tr f) (t_id u) = track_for f (t_id u)" if "u \<in> set ts" for u
    proof -
      have "t_id u \<noteq> t_id t" using new that by (metis image_eqI)
      then show ?thesis by (simp add: track_for_put)
    qed
    have "\<exists>u \<in> set ts. starts_from (zone_of zs (t_timezone u)) (fm_spec f) (fm_id f) now opened u
      (track_for (put_track (t_id t) tr f) (t_id u)) (track_for f' (t_id u)) st"
      using Cons.IH [OF rest] False sts Cons.prems(2-6) same by simp
    then show ?thesis using same by auto
  qed
qed simp

lemma step_starts:
  assumes "farm_step zs now opened x fs = Some (fs', sts)" and "0 \<le> now" and "\<forall>f \<in> set fs. farm_ok zs f" and "st \<in> set sts"
    and "\<forall>f \<in> set fs. distinct (map t_id (fm_targets f))"
  shows "\<exists>(f, f') \<in> set (zip fs fs'). \<not> fm_paused f \<and> (\<exists>t \<in> set (fm_targets f).
    starts_from (zone_of zs (t_timezone t)) (fm_spec f) (fm_id f) now opened t (track_for f (t_id t)) (track_for f' (t_id t)) st)"
  using assms
proof (induction fs arbitrary: fs' sts)
  case (Cons f fs)
  obtain f1 st1 fs1 sts1 where f: "step_farm zs now opened (x (length fs)) f = Some (f1, st1)"
    and r: "farm_step zs now opened x fs = Some (fs1, sts1)" and sts: "sts = st1 @ sts1" "fs' = f1 # fs1"
    using Cons.prems(1) by (auto split: option.splits)
  show ?case
  proof (cases "st \<in> set sts1")
    case True
    then show ?thesis using Cons.IH [OF r Cons.prems(2)] Cons.prems(3,5) sts(2) by auto
  next
    case False
    then have st: "st \<in> set st1" using Cons.prems(4) sts by simp
    then have np: "\<not> fm_paused f" using f by (auto simp: step_farm_def)
    then have s: "step_targets zs now opened (x (length fs)) (fm_targets f) (f, sp_at_once (fm_spec f) - farm_in_flight f) = Some (f1, st1)"
      using f by (simp add: step_farm_def)
    have ok: "spec_sane (fm_spec f)" "tracks_ok zs f" using Cons.prems(3) by (simp_all add: farm_ok_def)
    have d: "distinct (map t_id (fm_targets f))" using Cons.prems(5) by simp
    have "track_ok (zone_of zs (t_timezone t)) (fm_spec f) (track_for f (t_id t))" if t: "t \<in> set (fm_targets f)" for t
    proof (rule track_for_ok [OF ok(2) t])
      fix t' assume t': "t' \<in> set (fm_targets f)" "t_id t' = t_id t"
        "track_ok (zone_of zs (t_timezone t')) (fm_spec f) (track_for f (t_id t))"
      then have "t' = t" using d t by (auto simp: distinct_map inj_on_def)
      then show ?thesis using t'(3) by simp
    qed
    then show ?thesis using step_targets_start [OF s st d ok(1) Cons.prems(2)] np sts(2) by auto
  qed
qed simp

text \<open>
  C26. A pass starts only sessions that wait: each is the first of its plan's open day for that profile that was
  neither started nor ended, its time has come, the day's hours in the profile's time zone are not over and have
  begun, nothing of the profile is in flight, the profile is of this machine and nobody has it open, the plan is not
  paused; the pages are that session's, and the pass leaves exactly that session marked as started now. (No plan
  names a profile twice.)
\<close>

theorem starts_in_the_profiles_hours:
  assumes "reached zs fs" and "0 \<le> now" and "farm_step zs now opened x fs = Some (fs', sts)" and "st \<in> set sts"
    and "\<forall>f \<in> set fs. distinct (map t_id (fm_targets f))"
  shows "\<exists>(f, f') \<in> set (zip fs fs'). \<exists>t \<in> set (fm_targets f). \<exists>day s.
    \<not> fm_paused f \<and> t_origin t = ''local'' \<and> t_id t \<notin> opened \<and> st_profile st = t_id t
    \<and> tr_day (track_for f (t_id t)) = Some day
    \<and> List.find session_waiting (tr_sessions (track_for f (t_id t))) = Some s
    \<and> track_in_flight (track_for f (t_id t)) = 0
    \<and> se_at s \<le> ms now \<and> ms now < tr_window_end (track_for f (t_id t))
    \<and> in_hours (zone_of zs (t_timezone t)) (fm_spec f) day (ms now)
    \<and> st_plan st = session_plan (fm_spec f) (fm_id f) (se_urls s) \<and> set (se_urls s) \<subseteq> set (sp_urls (fm_spec f))
    \<and> track_for f' (t_id t) = start_session (ms now) (track_for f (t_id t))"
proof -
  have "\<forall>f \<in> set fs. farm_ok zs f" using plans_ok_reached [OF assms(1)] by (simp add: plans_ok_def)
  from step_starts [OF assms(3,2) this assms(4,5)] show ?thesis unfolding starts_from_def by fast
qed

lemma change_first_new: "List.find P xs = Some x \<Longrightarrow> g x \<in> set (change_first P g xs)"
  by (rule change_first_cases [of xs P g]) auto

lemma claim_panic_free:
  assumes "(a, p) \<in> set (due now opened fs)" and "distinct (map fm_id fs)"
  shows "\<exists>f tr s. List.find (\<lambda>f. fm_id f = a) fs = Some f \<and> f \<in> set fs \<and> map_of (fm_tracks f) p = Some tr
    \<and> List.find session_waiting (tr_sessions tr) = Some s \<and> track_due (ms now) tr"
proof -
  obtain f tr where f: "f \<in> set fs" "fm_id f = a" "map_of (fm_tracks f) p = Some tr" "track_due (ms now) tr"
    using due_set [OF assms(1)] by blast
  obtain g where g: "List.find (\<lambda>f. fm_id f = a) fs = Some g"
    using f by (cases "List.find (\<lambda>f. fm_id f = a) fs") (auto simp: find_None_set)
  then have "g = f" using find_Some_set [OF g] f assms(2) by (auto simp: distinct_map inj_on_def)
  then show ?thesis using f g by (auto simp: track_due_def split: option.splits)
qed

text \<open>
  Claiming a session of a team profile never meets what the code says cannot happen, and of two
  windows that ask for the same session only the first gets it, until it has ended.
\<close>

theorem a_session_is_claimed_once:
  assumes "reached zs fs"
  shows "claim farm profile now opened fs \<noteq> Inl ''due found it''
    \<and> (\<forall>fs' plan now' opened'. claim farm profile now opened fs = Inr (fs', plan)
         \<longrightarrow> claim farm profile now' opened' fs' = Inl ''that session is not due'')"
proof -
  have ids: "distinct (map fm_id fs)" using plans_ok_reached [OF assms] by (simp add: plans_ok_def)
  have no_panic: "claim farm profile now opened fs \<noteq> Inl ''due found it''"
  proof (cases "(farm, profile) \<in> set (due now opened fs)")
    case True
    with claim_panic_free [OF True ids] show ?thesis by (auto simp: claim_def)
  qed (simp add: claim_def)
  have "(farm, profile) \<notin> set (due now' opened' fs')"
    if c: "claim farm profile now opened fs = Inr (fs', plan)" for fs' plan now' opened'
  proof
    assume "(farm, profile) \<in> set (due now' opened' fs')"
    then obtain f' tr' where f': "f' \<in> set fs'" "fm_id f' = farm" "map_of (fm_tracks f') profile = Some tr'"
      "track_due (ms now') tr'" using due_set by blast
    have d: "(farm, profile) \<in> set (due now opened fs)"
      and fs': "fs' = with_track farm profile (start_session (ms now)) fs"
      using c by (auto simp: claim_def split: if_splits option.splits)
    obtain f tr s where f: "List.find (\<lambda>f. fm_id f = farm) fs = Some f" "f \<in> set fs" "map_of (fm_tracks f) profile = Some tr"
      "List.find session_waiting (tr_sessions tr) = Some s" using claim_panic_free [OF d ids] by blast
    have new: "put_track profile (start_session (ms now) tr) f \<in> set fs'"
      using change_first_new [OF f(1), of "\<lambda>f. case map_of (fm_tracks f) profile of None \<Rightarrow> f
          | Some tr \<Rightarrow> put_track profile (start_session (ms now) tr) f"]
      by (simp add: fs' with_track_def f(3))
    have "distinct (map fm_id fs')" using follows_ids [OF claim_follows [OF c ids]] ids by simp
    moreover have "fm_id f = farm" using find_Some_set [OF f(1)] by simp
    ultimately have "f' = put_track profile (start_session (ms now) tr) f"
      using new f'(1,2) by (auto simp: distinct_map inj_on_def)
    then have "tr' = start_session (ms now) tr" using f'(3) by (simp add: update_conv)
    moreover have "s\<lparr>se_started := Some (ms now)\<rparr> \<in> set (tr_sessions (start_session (ms now) tr))"
      unfolding start_session_def using change_first_new [OF f(4), of "\<lambda>s. s\<lparr>se_started := Some (ms now)\<rparr>"] by simp
    moreover have "session_in_flight (s\<lparr>se_started := Some (ms now)\<rparr>)" using find_Some_set [OF f(4)] by simp
    ultimately have "list_ex session_in_flight (tr_sessions tr')" unfolding list_ex_iff by blast
    then show False using f'(4) by (simp add: track_due_def)
  qed
  then have again: "claim farm profile now' opened' fs' = Inl ''that session is not due''"
    if c: "claim farm profile now opened fs = Inr (fs', plan)" for fs' plan now' opened'
    using c unfolding claim_def [of farm profile now' opened' fs'] by simp
  show ?thesis
    by (intro conjI allI impI no_panic) (rule again)
qed

section \<open>A pass returns\<close>

definition good_day :: "clock \<Rightarrow> nat \<times> nat \<Rightarrow> int \<Rightarrow> int \<Rightarrow> bool" where
  "good_day z hours now d \<longleftrightarrow> min_window_ms \<le> zone_at z d (snd hours) - max (zone_at z d (fst hours)) (now + 60000)"

lemma find_day_returns:
  assumes "good_day z hours now d" and "date \<le> d" and "d \<le> last_date z"
  shows "\<exists>r. find_day z hours now date = Some r"
  using assms(2)
proof (induction "nat (d - date)" arbitrary: date)
  case 0
  then have "date = d" by simp
  then show ?case using assms(1) by (subst find_day.simps) (simp add: good_day_def Let_def)
next
  case (Suc n)
  then have "date < d" by simp
  then have next_date: "succ_date z date = date + 1" using assms(3) by (simp add: succ_date_def)
  have "\<exists>r. find_day z hours now (date + 1) = Some r" using Suc.hyps(1) [of "date + 1"] Suc.hyps(2) \<open>date < d\<close> by simp
  then show ?case by (subst find_day.simps) (simp add: Let_def next_date)
qed

text \<open>A day of the calendar still to come on which the hours of a profile are long enough.\<close>

definition days_left :: "zones \<Rightarrow> int \<Rightarrow> farm \<Rightarrow> target \<Rightarrow> bool" where
  "days_left zs now f t \<longleftrightarrow> (let z = zone_of zs (t_timezone t) in
     \<exists>d. d \<le> last_date z \<and> date_of z now \<le> d \<and> good_day z (sp_hours (fm_spec f)) now d
       \<and> (case tr_last_day (track_for f (t_id t)) of None \<Rightarrow> True | Some l \<Rightarrow> l < d))"

lemma plan_day_returns:
  assumes "good_day z (sp_hours sp) now d" and "d \<le> last_date z" and "date_of z now \<le> d"
    and "case after of None \<Rightarrow> True | Some l \<Rightarrow> l < d"
  shows "\<exists>r. plan_day sp z after now dr = Some r"
proof -
  have "(case after of None \<Rightarrow> date_of z now | Some l \<Rightarrow> if date_of z now \<le> l then succ_date z l else date_of z now) \<le> d"
    using assms(2-4) by (auto simp: succ_date_def split: option.splits)
  then show ?thesis using find_day_returns [OF assms(1) _ assms(2)] by (fastforce simp: plan_day_def Let_def)
qed

lemma step_targets_returns:
  assumes "distinct (map t_id ts)" and "\<forall>t \<in> set ts. days_left zs now f t"
  shows "\<exists>r. step_targets zs now opened x ts (f, room) = Some r"
  using assms
proof (induction ts arbitrary: f room)
  case (Cons t ts)
  let ?z = "zone_of zs (t_timezone t)" and ?tr = "track_for f (t_id t)"
  obtain d where d: "d \<le> last_date ?z" "date_of ?z now \<le> d" "good_day ?z (sp_hours (fm_spec f)) now d"
    "case tr_last_day ?tr of None \<Rightarrow> True | Some l \<Rightarrow> l < d"
    using Cons.prems(2) by (auto simp: days_left_def Let_def)
  have "\<exists>r. open_day (fm_spec f) ?z now (x (length ts)) (close_day (fm_spec f) (ms now) ?tr) = Some r"
    using plan_day_returns [OF d(3,1,2,4)] by (auto simp: open_day_def)
  then obtain tr room' st where s: "step_track zs (fm_spec f) (fm_id f) now opened (x (length ts)) t room ?tr = Some (tr, room', st)"
    by (cases "step_track zs (fm_spec f) (fm_id f) now opened (x (length ts)) t room ?tr")
      (auto simp: step_track_def Let_def split: option.splits if_splits)
  have "track_for (put_track (t_id t) tr f) (t_id u) = track_for f (t_id u)" if "u \<in> set ts" for u
  proof -
    have "t_id u \<noteq> t_id t" using Cons.prems(1) that by (metis distinct.simps(2) image_eqI list.set_map list.simps(9))
    then show ?thesis by (simp add: track_for_def update_conv)
  qed
  then have "\<forall>u \<in> set ts. days_left zs now (put_track (t_id t) tr f) u"
    using Cons.prems(2) by (simp add: days_left_def)
  moreover have "distinct (map t_id ts)" using Cons.prems(1) by simp
  ultimately obtain r where "step_targets zs now opened x ts (put_track (t_id t) tr f, room') = Some r"
    using Cons.IH by blast
  then show ?case using s [unfolded track_for_def] by (cases r) simp
qed simp

text \<open>
  C27. A pass over the plans returns: the search for the next day of a profile, a loop with no other
  end, stops when the calendar still has one day on which the hours leave ten minutes.
\<close>

theorem a_pass_returns:
  assumes "\<forall>f \<in> set fs. distinct (map t_id (fm_targets f)) \<and> (\<forall>t \<in> set (fm_targets f). days_left zs now f t)"
  shows "\<exists>fs' sts. farm_step zs now opened x fs = Some (fs', sts)"
  using assms
proof (induction fs)
  case (Cons f fs)
  then obtain fs' sts where r: "farm_step zs now opened x fs = Some (fs', sts)" by auto
  have "\<exists>r. step_farm zs now opened (x (length fs)) f = Some r"
    using step_targets_returns [of "fm_targets f" zs now f] Cons.prems by (simp add: step_farm_def)
  then show ?case using r by auto
qed simp

section \<open>A plan at work\<close>

definition here :: zones where
  "here = \<lparr>named_zone = (\<lambda>_. None), host_zone = utc\<rparr>"

definition one_profile :: farm where
  "one_profile = \<lparr>fm_id = ''f'', fm_created = 0, fm_spec = two_sites,
     fm_targets = [\<lparr>t_id = ''p'', t_name = ''P'', t_origin = ''local'', t_timezone = None\<rparr>], fm_tracks = [], fm_paused = False\<rparr>"

definition day_planned :: track where
  "day_planned = new_track\<lparr>tr_day := Some 0, tr_last_day := Some 0, tr_window_end := 79200000,
     tr_sessions := [\<lparr>se_at = 36000000, se_urls = [''https://b/'', ''https://a/''], se_started = None, se_ended = None\<rparr>]\<rparr>"

definition planned_profile :: farm where
  "planned_profile = put_track ''p'' day_planned one_profile"

definition running_profile :: farm where
  "running_profile = put_track ''p'' (start_session 36000000 day_planned) one_profile"

lemma made: "create ''f'' two_sites (fm_targets one_profile) 0 [] = Inr [one_profile]"
  by (simp add: create_def check_spec_def two_sites_def one_profile_def max_days_def max_sites_per_day_def max_at_once_def
      demand_def map_filter_def)

lemma one_profile_simps [simp]:
  "fm_id one_profile = ''f''" "fm_spec one_profile = two_sites" "fm_tracks one_profile = []" "fm_paused one_profile = False"
  "fm_targets one_profile = [\<lparr>t_id = ''p'', t_name = ''P'', t_origin = ''local'', t_timezone = None\<rparr>]"
  by (simp_all add: one_profile_def)

lemma zone_here [simp]: "zone_of here None = utc"
  by (simp add: zone_of_def here_def)

lemma first_pass: "farm_step here 0 {} (\<lambda>_ _. draws) [one_profile] = Some ([planned_profile], [])"
proof -
  have "step_track here two_sites ''f'' 0 {} draws \<lparr>t_id = ''p'', t_name = ''P'', t_origin = ''local'', t_timezone = None\<rparr> 1 new_track
    = Some (day_planned, 1, [])"
    by (simp add: step_track_def new_track_def close_day_def open_day_def utc_day move_session_def day_planned_def
        session_waiting_def ms_def) (simp add: two_sites_def)
  moreover have "sp_at_once two_sites = 1" by (simp add: two_sites_def)
  ultimately show ?thesis by (simp add: step_farm_def farm_in_flight_def planned_profile_def)
qed

lemma second_pass: "farm_step here 36000000 {} (\<lambda>_ _. draws) [planned_profile] = Some ([running_profile],
    [\<lparr>st_profile = ''p'', st_name = ''P'', st_plan = session_plan two_sites ''f'' [''https://b/'', ''https://a/'']\<rparr>])"
proof -
  have "step_track here two_sites ''f'' 36000000 {} draws \<lparr>t_id = ''p'', t_name = ''P'', t_origin = ''local'', t_timezone = None\<rparr> 1 day_planned
    = Some (start_session 36000000 day_planned, 0, [\<lparr>st_profile = ''p'', st_name = ''P'', st_plan = session_plan two_sites ''f'' [''https://b/'', ''https://a/'']\<rparr>])"
    by (simp add: step_track_def new_track_def close_day_def open_day_def move_session_def day_planned_def target_is_local_def
        session_waiting_def session_in_flight_def ms_def) (simp add: two_sites_def)
  moreover have "sp_at_once two_sites = 1" by (simp add: two_sites_def)
  moreover have "track_in_flight day_planned = 0" by (simp add: day_planned_def track_in_flight_def session_in_flight_def)
  ultimately show ?thesis by (simp add: step_farm_def farm_in_flight_def planned_profile_def running_profile_def)
qed

lemma reached_made: "reached here [one_profile]"
  by (rule reached.created [OF reached.nothing_yet _ made]) simp

lemma reached_planned: "reached here [planned_profile]"
  by (rule reached.stepped [OF reached_made _ first_pass]) simp

lemma reached_running: "reached here [running_profile]"
  by (rule reached.stepped [OF reached_planned _ second_pass]) simp

theorem no_more_browsers_than_asked_witness: "farm_in_flight running_profile \<le> 1 \<and> farm_in_flight running_profile = 1"
  using no_more_browsers_than_asked [OF reached_running, of running_profile]
  by (simp add: running_profile_def two_sites_def farm_in_flight_def track_in_flight_def day_planned_def start_session_def
      session_waiting_def session_in_flight_def)

definition other_profile :: farm where
  "other_profile = one_profile\<lparr>fm_id := ''g'', fm_targets := [\<lparr>t_id = ''q'', t_name = ''Q'', t_origin = ''team'', t_timezone = None\<rparr>]\<rparr>"

lemma made_beside: "create ''g'' two_sites (fm_targets other_profile) 0 [one_profile] = Inr [one_profile, other_profile]"
  by (simp add: create_def check_spec_def two_sites_def one_profile_def other_profile_def max_days_def max_sites_per_day_def
      max_at_once_def demand_def map_filter_def farm_finished_def)

theorem one_plan_per_profile_witness:
  "t_id ` set (fm_targets one_profile) \<inter> t_id ` set (fm_targets other_profile) = {} \<and> \<not> farm_finished one_profile"
proof -
  have "reached here [one_profile, other_profile]" by (rule reached.created [OF reached_made _ made_beside]) simp
  from one_plan_per_profile [OF this, of 0 1] show ?thesis
    by (simp add: farm_finished_def other_profile_def)
qed

theorem starts_in_the_profiles_hours_witness:
  "\<exists>day s. tr_day (track_for planned_profile ''p'') = Some day \<and> in_hours utc two_sites day 36000000
     \<and> List.find session_waiting (tr_sessions (track_for planned_profile ''p'')) = Some s
     \<and> se_urls s = [''https://b/'', ''https://a/'']
     \<and> track_for running_profile ''p'' = start_session 36000000 (track_for planned_profile ''p'')"
  using starts_in_the_profiles_hours [OF reached_planned _ second_pass]
  by (auto simp: planned_profile_def running_profile_def ms_def session_plan_def)

lemma made_alone: "create ''g'' two_sites (fm_targets other_profile) 0 [] = Inr [other_profile]"
  by (simp add: create_def check_spec_def two_sites_def one_profile_def other_profile_def max_days_def max_sites_per_day_def
      max_at_once_def demand_def map_filter_def)

lemma first_team_pass: "farm_step here 0 {} (\<lambda>_ _. draws) [other_profile] = Some ([put_track ''q'' day_planned other_profile], [])"
proof -
  have "step_track here two_sites ''g'' 0 {} draws \<lparr>t_id = ''q'', t_name = ''Q'', t_origin = ''team'', t_timezone = None\<rparr> 1 new_track
    = Some (day_planned, 1, [])"
    by (simp add: step_track_def new_track_def close_day_def open_day_def utc_day move_session_def day_planned_def
        session_waiting_def ms_def) (simp add: two_sites_def)
  moreover have "sp_at_once two_sites = 1" by (simp add: two_sites_def)
  ultimately show ?thesis by (simp add: step_farm_def farm_in_flight_def other_profile_def)
qed

lemma team_claim: "claim ''g'' ''q'' 36000000 {} [put_track ''q'' day_planned other_profile] =
  Inr ([put_track ''q'' (start_session 36000000 day_planned) other_profile], session_plan two_sites ''g'' [''https://b/'', ''https://a/''])"
  by (simp add: claim_def due_def other_profile_def with_track_def track_due_def day_planned_def new_track_def ms_def
      session_waiting_def session_in_flight_def farm_in_flight_def track_in_flight_def target_is_local_def update_conv)
    (simp add: two_sites_def)

theorem a_session_is_claimed_once_witness:
  "claim ''g'' ''q'' 36000001 {} [put_track ''q'' (start_session 36000000 day_planned) other_profile] = Inl ''that session is not due''"
proof -
  have "reached here [other_profile]" by (rule reached.created [OF reached.nothing_yet _ made_alone]) simp
  then have "reached here [put_track ''q'' day_planned other_profile]"
    by (rule reached.stepped [OF _ _ first_team_pass]) simp
  from a_session_is_claimed_once [OF this] team_claim show ?thesis by blast
qed

theorem a_pass_returns_witness: "\<exists>fs' sts. farm_step here 36000000 {''p''} (\<lambda>_ _. draws) [one_profile] = Some (fs', sts)"
proof (rule a_pass_returns)
  have "days_left here 36000000 one_profile \<lparr>t_id = ''p'', t_name = ''P'', t_origin = ''local'', t_timezone = None\<rparr>"
    by (simp add: days_left_def track_for_def new_track_def)
      (rule exI [of _ 0], simp add: good_day_def two_sites_def min_window_ms_def)
  then show "\<forall>f \<in> set [one_profile]. distinct (map t_id (fm_targets f)) \<and> (\<forall>t \<in> set (fm_targets f). days_left here 36000000 f t)"
    by simp
qed

end
