(* ===== verification/Locale.thy ===== *)
theory Locale
  imports Prelude "HOL-Library.Char_ord" "HOL-Library.List_Lexorder"
begin

text \<open>
  What a browser in a country says about its languages (\<open>shared-rs/src/locale.rs\<close>): the table by
  country, the interface languages Chrome ships, and the resolution of a language tag to one of them.
  \<open>binary_search\<close> is the one of the standard library; strings are ordered by their bytes.
\<close>

section \<open>Searching a sorted table\<close>

text \<open>\<open>slice::binary_search_by\<close>: the part of the table that is left is halved until one element is.\<close>

function narrow :: "('a \<Rightarrow> bool) \<Rightarrow> 'a list \<Rightarrow> nat \<Rightarrow> nat \<Rightarrow> nat" where
  "narrow gt xs base n =
     (if n \<le> 1 then base
      else let half = n div 2; mid = base + half
           in narrow gt xs (if gt (xs ! mid) then base else mid) (n - half))"
  by pat_completeness auto
termination by (relation "measure (\<lambda>(_, _, _, n). n)") auto

declare narrow.simps [simp del]

definition binary_search :: "('a \<Rightarrow> 'k::linorder) \<Rightarrow> 'a list \<Rightarrow> 'k \<Rightarrow> nat option" where
  "binary_search key xs k =
     (if xs = [] then None
      else let i = narrow (\<lambda>x. k < key x) xs 0 (length xs) in if key (xs ! i) = k then Some i else None)"

section \<open>The tables\<close>

record country_locale =
  lo_ui :: str
  lo_languages :: "str list"

definition by_country :: "(str \<times> str \<times> str list) list" where
  "by_country =
    [(''AD'', ''ca'', [''ca-ES'', ''ca'']), (''AE'', ''ar'', [''ar'', ''en-US'', ''en'']), (''AF'', ''fa'', [''fa'', ''en-US'', ''en'']),
     (''AG'', ''en-GB'', [''en-GB'', ''en-US'', ''en'']), (''AI'', ''en-GB'', [''en-GB'', ''en-US'', ''en'']), (''AL'', ''en-US'', [''en-US'', ''en'']),
     (''AM'', ''en-US'', [''en-US'', ''en'']), (''AO'', ''pt-PT'', [''pt-PT'', ''pt'', ''en-US'', ''en'']), (''AR'', ''es-419'', [''es-419'', ''es'']),
     (''AS'', ''en-GB'', [''en-GB'', ''en-US'', ''en'']), (''AT'', ''de'', [''de-DE'', ''de'', ''en-US'', ''en'']),
     (''AU'', ''en-GB'', [''en-GB'', ''en-US'', ''en'']), (''AW'', ''nl'', [''nl-NL'', ''nl'', ''en-US'', ''en'']),
     (''AX'', ''sv'', [''sv-SE'', ''sv'', ''en-US'', ''en'']), (''AZ'', ''en-US'', [''en-US'', ''en'']),
     (''BA'', ''hr'', [''hr-HR'', ''hr'', ''en-US'', ''en'']), (''BB'', ''en-GB'', [''en-GB'', ''en-US'', ''en'']),
     (''BD'', ''bn'', [''bn-IN'', ''bn'', ''en-US'', ''en'']), (''BE'', ''nl'', [''nl-NL'', ''nl'', ''en-US'', ''en'']),
     (''BF'', ''fr'', [''fr-FR'', ''fr'', ''en-US'', ''en'']), (''BG'', ''bg'', [''bg-BG'', ''bg'']), (''BH'', ''ar'', [''ar'', ''en-US'', ''en'']),
     (''BI'', ''fr'', [''fr-FR'', ''fr'', ''en-US'', ''en'']), (''BJ'', ''fr'', [''fr-FR'', ''fr'', ''en-US'', ''en'']),
     (''BL'', ''fr'', [''fr-FR'', ''fr'', ''en-US'', ''en'']), (''BM'', ''en-GB'', [''en-GB'', ''en-US'', ''en'']), (''BN'', ''ms'', [''en-US'', ''en'']),
     (''BO'', ''es-419'', [''es-419'', ''es'']), (''BQ'', ''nl'', [''nl-NL'', ''nl'', ''en-US'', ''en'']),
     (''BR'', ''pt-BR'', [''pt-BR'', ''pt'', ''en-US'', ''en'']), (''BS'', ''en-GB'', [''en-GB'', ''en-US'', ''en'']),
     (''BT'', ''en-US'', [''en-US'', ''en'']), (''BW'', ''en-GB'', [''en-GB'', ''en-US'', ''en'']),
     (''BY'', ''ru'', [''ru-RU'', ''ru'', ''en-US'', ''en'']), (''BZ'', ''en-GB'', [''en-GB'', ''en-US'', ''en'']),
     (''CA'', ''en-GB'', [''en-GB'', ''en-US'', ''en'']), (''CC'', ''en-GB'', [''en-GB'', ''en-US'', ''en'']),
     (''CD'', ''fr'', [''fr-FR'', ''fr'', ''en-US'', ''en'']), (''CF'', ''fr'', [''fr-FR'', ''fr'', ''en-US'', ''en'']),
     (''CG'', ''fr'', [''fr-FR'', ''fr'', ''en-US'', ''en'']), (''CH'', ''de'', [''de-DE'', ''de'', ''en-US'', ''en'']),
     (''CI'', ''fr'', [''fr-FR'', ''fr'', ''en-US'', ''en'']), (''CK'', ''en-GB'', [''en-GB'', ''en-US'', ''en'']),
     (''CL'', ''es-419'', [''es-419'', ''es'']), (''CM'', ''fr'', [''fr-FR'', ''fr'', ''en-US'', ''en'']), (''CN'', ''zh-CN'', [''zh-CN'', ''zh'']),
     (''CO'', ''es-419'', [''es-419'', ''es'']), (''CQ'', ''en-GB'', [''en-GB'', ''en-US'', ''en'']), (''CR'', ''es-419'', [''es-419'', ''es'']),
     (''CU'', ''es-419'', [''es-419'', ''es'']), (''CV'', ''pt-PT'', [''pt-PT'', ''pt'', ''en-US'', ''en'']),
     (''CW'', ''nl'', [''nl-NL'', ''nl'', ''en-US'', ''en'']), (''CX'', ''en-GB'', [''en-GB'', ''en-US'', ''en'']), (''CY'', ''el'', [''el-GR'', ''el'']),
     (''CZ'', ''cs'', [''cs-CZ'', ''cs'']), (''DE'', ''de'', [''de-DE'', ''de'', ''en-US'', ''en'']), (''DG'', ''en-GB'', [''en-GB'', ''en-US'', ''en'']),
     (''DJ'', ''fr'', [''fr-FR'', ''fr'', ''en-US'', ''en'']), (''DK'', ''da'', [''da-DK'', ''da'', ''en-US'', ''en'']),
     (''DM'', ''en-GB'', [''en-GB'', ''en-US'', ''en'']), (''DO'', ''es-419'', [''es-419'', ''es'']), (''DZ'', ''ar'', [''ar'', ''en-US'', ''en'']),
     (''EA'', ''es-419'', [''es-419'', ''es'']), (''EC'', ''es-419'', [''es-419'', ''es'']), (''EE'', ''et'', [''et-EE'', ''et'', ''en-US'', ''en'']),
     (''EG'', ''ar'', [''ar'', ''en-US'', ''en'']), (''EH'', ''ar'', [''ar'', ''en-US'', ''en'']), (''ER'', ''en-GB'', [''en-GB'', ''en-US'', ''en'']),
     (''ES'', ''es'', [''es-ES'', ''es'']), (''ET'', ''am'', [''am'', ''en-GB'', ''en'']), (''FI'', ''fi'', [''fi-FI'', ''fi'', ''en-US'', ''en'']),
     (''FJ'', ''en-GB'', [''en-GB'', ''en-US'', ''en'']), (''FK'', ''en-GB'', [''en-GB'', ''en-US'', ''en'']),
     (''FM'', ''en-GB'', [''en-GB'', ''en-US'', ''en'']), (''FO'', ''en-US'', [''en-US'', ''en'']),
     (''FR'', ''fr'', [''fr-FR'', ''fr'', ''en-US'', ''en'']), (''GA'', ''fr'', [''fr-FR'', ''fr'', ''en-US'', ''en'']),
     (''GB'', ''en-GB'', [''en-GB'', ''en-US'', ''en'']), (''GD'', ''en-GB'', [''en-GB'', ''en-US'', ''en'']), (''GE'', ''en-US'', [''en-US'', ''en'']),
     (''GF'', ''fr'', [''fr-FR'', ''fr'', ''en-US'', ''en'']), (''GG'', ''en-GB'', [''en-GB'', ''en-US'', ''en'']),
     (''GH'', ''en-GB'', [''en-GB'', ''en-US'', ''en'']), (''GI'', ''en-GB'', [''en-GB'', ''en-US'', ''en'']), (''GL'', ''en-US'', [''en-US'', ''en'']),
     (''GM'', ''en-GB'', [''en-GB'', ''en-US'', ''en'']), (''GN'', ''fr'', [''fr-FR'', ''fr'', ''en-US'', ''en'']),
     (''GP'', ''fr'', [''fr-FR'', ''fr'', ''en-US'', ''en'']), (''GQ'', ''es-419'', [''es-419'', ''es'']), (''GR'', ''el'', [''el-GR'', ''el'']),
     (''GS'', ''en-GB'', [''en-GB'', ''en-US'', ''en'']), (''GT'', ''es-419'', [''es-419'', ''es'']), (''GU'', ''en-GB'', [''en-GB'', ''en-US'', ''en'']),
     (''GW'', ''pt-PT'', [''pt-PT'', ''pt'', ''en-US'', ''en'']), (''GY'', ''en-GB'', [''en-GB'', ''en-US'', ''en'']),
     (''HK'', ''zh-TW'', [''zh-TW'', ''zh'', ''en-US'', ''en'']), (''HN'', ''es-419'', [''es-419'', ''es'']),
     (''HR'', ''hr'', [''hr-HR'', ''hr'', ''en-US'', ''en'']), (''HT'', ''fr'', [''fr-FR'', ''fr'', ''en-US'', ''en'']),
     (''HU'', ''hu'', [''hu-HU'', ''hu'', ''en-US'', ''en'']), (''IC'', ''es-419'', [''es-419'', ''es'']),
     (''ID'', ''id'', [''id-ID'', ''id'', ''en-US'', ''en'']), (''IE'', ''en-GB'', [''en-GB'', ''en-US'', ''en'']),
     (''IL'', ''he'', [''he-IL'', ''he'', ''en-US'', ''en'']), (''IM'', ''en-GB'', [''en-GB'', ''en-US'', ''en'']),
     (''IN'', ''hi'', [''hi-IN'', ''hi'', ''en-US'', ''en'']), (''IO'', ''en-GB'', [''en-GB'', ''en-US'', ''en'']),
     (''IQ'', ''ar'', [''ar'', ''en-US'', ''en'']), (''IR'', ''fa'', [''fa'', ''en-US'', ''en'']), (''IS'', ''en-US'', [''en-US'', ''en'']),
     (''IT'', ''it'', [''it-IT'', ''it'', ''en-US'', ''en'']), (''JE'', ''en-GB'', [''en-GB'', ''en-US'', ''en'']),
     (''JM'', ''en-GB'', [''en-GB'', ''en-US'', ''en'']), (''JO'', ''ar'', [''ar'', ''en-US'', ''en'']), (''JP'', ''ja'', [''ja'', ''en-US'', ''en'']),
     (''KE'', ''sw'', [''sw'', ''en-GB'', ''en'']), (''KG'', ''ru'', [''ru-RU'', ''ru'', ''en-US'', ''en'']), (''KH'', ''en-US'', [''en-US'', ''en'']),
     (''KI'', ''en-GB'', [''en-GB'', ''en-US'', ''en'']), (''KM'', ''ar'', [''ar'', ''en-US'', ''en'']),
     (''KN'', ''en-GB'', [''en-GB'', ''en-US'', ''en'']), (''KP'', ''ko'', [''ko-KR'', ''ko'', ''en-US'', ''en'']),
     (''KR'', ''ko'', [''ko-KR'', ''ko'', ''en-US'', ''en'']), (''KW'', ''ar'', [''ar'', ''en-US'', ''en'']),
     (''KY'', ''en-GB'', [''en-GB'', ''en-US'', ''en'']), (''KZ'', ''ru'', [''ru-RU'', ''ru'', ''en-US'', ''en'']),
     (''LA'', ''en-US'', [''en-US'', ''en'']), (''LB'', ''ar'', [''ar'', ''en-US'', ''en'']), (''LC'', ''en-GB'', [''en-GB'', ''en-US'', ''en'']),
     (''LI'', ''de'', [''de-DE'', ''de'', ''en-US'', ''en'']), (''LK'', ''ta'', [''ta-IN'', ''ta'', ''en-US'', ''en'']),
     (''LR'', ''en-US'', [''en-US'', ''en'']), (''LS'', ''en-GB'', [''en-GB'', ''en-US'', ''en'']),
     (''LT'', ''lt'', [''lt'', ''en-US'', ''en'', ''ru'', ''pl'']), (''LU'', ''fr'', [''fr-FR'', ''fr'', ''en-US'', ''en'']),
     (''LV'', ''lv'', [''lv-LV'', ''lv'', ''en-US'', ''en'']), (''LY'', ''ar'', [''ar'', ''en-US'', ''en'']),
     (''MA'', ''ar'', [''ar'', ''en-US'', ''en'']), (''MC'', ''fr'', [''fr-FR'', ''fr'', ''en-US'', ''en'']),
     (''MD'', ''ro'', [''ro-RO'', ''ro'', ''en-US'', ''en'']), (''ME'', ''sr'', [''sr-RS'', ''sr'', ''en-US'', ''en'']),
     (''MF'', ''fr'', [''fr-FR'', ''fr'', ''en-US'', ''en'']), (''MG'', ''fr'', [''fr-FR'', ''fr'', ''en-US'', ''en'']),
     (''MH'', ''en-GB'', [''en-GB'', ''en-US'', ''en'']), (''MK'', ''en-US'', [''en-US'', ''en'']),
     (''ML'', ''fr'', [''fr-FR'', ''fr'', ''en-US'', ''en'']), (''MM'', ''en-US'', [''en-US'', ''en'']), (''MN'', ''en-US'', [''en-US'', ''en'']),
     (''MO'', ''zh-TW'', [''zh-TW'', ''zh'', ''en-US'', ''en'']), (''MP'', ''en-GB'', [''en-GB'', ''en-US'', ''en'']),
     (''MQ'', ''fr'', [''fr-FR'', ''fr'', ''en-US'', ''en'']), (''MR'', ''ar'', [''ar'', ''en-US'', ''en'']),
     (''MS'', ''en-GB'', [''en-GB'', ''en-US'', ''en'']), (''MT'', ''en-GB'', [''en-GB'', ''en-US'', ''en'']),
     (''MU'', ''fr'', [''fr-FR'', ''fr'', ''en-US'', ''en'']), (''MV'', ''en-US'', [''en-US'', ''en'']),
     (''MW'', ''en-GB'', [''en-GB'', ''en-US'', ''en'']), (''MX'', ''es-419'', [''es-419'', ''es'']), (''MY'', ''ms'', [''en-US'', ''en'']),
     (''MZ'', ''pt-PT'', [''pt-PT'', ''pt'', ''en-US'', ''en'']), (''NA'', ''en-GB'', [''en-GB'', ''en-US'', ''en'']),
     (''NC'', ''fr'', [''fr-FR'', ''fr'', ''en-US'', ''en'']), (''NE'', ''fr'', [''fr-FR'', ''fr'', ''en-US'', ''en'']),
     (''NF'', ''en-GB'', [''en-GB'', ''en-US'', ''en'']), (''NG'', ''en-GB'', [''en-GB'', ''en-US'', ''en'']), (''NI'', ''es-419'', [''es-419'', ''es'']),
     (''NL'', ''nl'', [''nl-NL'', ''nl'', ''en-US'', ''en'']), (''NO'', ''nb'', [''nb-NO'', ''nb'', ''no'', ''nn'', ''en-US'', ''en'']),
     (''NP'', ''en-US'', [''en-US'', ''en'']), (''NR'', ''en-GB'', [''en-GB'', ''en-US'', ''en'']), (''NU'', ''en-GB'', [''en-GB'', ''en-US'', ''en'']),
     (''NZ'', ''en-GB'', [''en-GB'', ''en-US'', ''en'']), (''OM'', ''ar'', [''ar'', ''en-US'', ''en'']), (''PA'', ''es-419'', [''es-419'', ''es'']),
     (''PE'', ''es-419'', [''es-419'', ''es'']), (''PF'', ''fr'', [''fr-FR'', ''fr'', ''en-US'', ''en'']),
     (''PG'', ''en-GB'', [''en-GB'', ''en-US'', ''en'']), (''PH'', ''en-US'', [''en-US'', ''en'']), (''PK'', ''ur'', [''en-US'', ''en'']),
     (''PL'', ''pl'', [''pl-PL'', ''pl'', ''en-US'', ''en'']), (''PM'', ''fr'', [''fr-FR'', ''fr'', ''en-US'', ''en'']),
     (''PN'', ''en-GB'', [''en-GB'', ''en-US'', ''en'']), (''PR'', ''es-419'', [''es-419'', ''es'']), (''PS'', ''ar'', [''ar'', ''en-US'', ''en'']),
     (''PT'', ''pt-PT'', [''pt-PT'', ''pt'', ''en-US'', ''en'']), (''PW'', ''en-GB'', [''en-GB'', ''en-US'', ''en'']),
     (''PY'', ''es-419'', [''es-419'', ''es'']), (''QA'', ''ar'', [''ar'', ''en-US'', ''en'']), (''RE'', ''fr'', [''fr-FR'', ''fr'', ''en-US'', ''en'']),
     (''RO'', ''ro'', [''ro-RO'', ''ro'', ''en-US'', ''en'']), (''RS'', ''sr'', [''sr-RS'', ''sr'', ''en-US'', ''en'']),
     (''RU'', ''ru'', [''ru-RU'', ''ru'', ''en-US'', ''en'']), (''RW'', ''en-GB'', [''en-GB'', ''en-US'', ''en'']),
     (''SA'', ''ar'', [''ar'', ''en-US'', ''en'']), (''SB'', ''en-GB'', [''en-GB'', ''en-US'', ''en'']),
     (''SC'', ''fr'', [''fr-FR'', ''fr'', ''en-US'', ''en'']), (''SD'', ''ar'', [''ar'', ''en-US'', ''en'']),
     (''SE'', ''sv'', [''sv-SE'', ''sv'', ''en-US'', ''en'']), (''SG'', ''en-GB'', [''en-GB'', ''en-US'', ''en'']),
     (''SH'', ''en-GB'', [''en-GB'', ''en-US'', ''en'']), (''SI'', ''sl'', [''sl-SI'', ''sl'', ''en-GB'', ''en'']),
     (''SJ'', ''nb'', [''nb-NO'', ''nb'', ''no'', ''nn'', ''en-US'', ''en'']), (''SK'', ''sk'', [''sk-SK'', ''sk'', ''cs'', ''en-US'', ''en'']),
     (''SL'', ''en-GB'', [''en-GB'', ''en-US'', ''en'']), (''SM'', ''it'', [''it-IT'', ''it'', ''en-US'', ''en'']),
     (''SN'', ''fr'', [''fr-FR'', ''fr'', ''en-US'', ''en'']), (''SO'', ''ar'', [''ar'', ''en-US'', ''en'']),
     (''SR'', ''nl'', [''nl-NL'', ''nl'', ''en-US'', ''en'']), (''SS'', ''en-GB'', [''en-GB'', ''en-US'', ''en'']),
     (''ST'', ''pt-PT'', [''pt-PT'', ''pt'', ''en-US'', ''en'']), (''SV'', ''es-419'', [''es-419'', ''es'']),
     (''SX'', ''en-GB'', [''en-GB'', ''en-US'', ''en'']), (''SY'', ''ar'', [''ar'', ''en-US'', ''en'']),
     (''SZ'', ''en-GB'', [''en-GB'', ''en-US'', ''en'']), (''TC'', ''en-GB'', [''en-GB'', ''en-US'', ''en'']),
     (''TD'', ''ar'', [''ar'', ''en-US'', ''en'']), (''TG'', ''fr'', [''fr-FR'', ''fr'', ''en-US'', ''en'']), (''TH'', ''th'', [''th-TH'', ''th'']),
     (''TJ'', ''en-US'', [''en-US'', ''en'']), (''TK'', ''en-GB'', [''en-GB'', ''en-US'', ''en'']),
     (''TL'', ''pt-PT'', [''pt-PT'', ''pt'', ''en-US'', ''en'']), (''TM'', ''en-US'', [''en-US'', ''en'']), (''TN'', ''ar'', [''ar'', ''en-US'', ''en'']),
     (''TO'', ''en-GB'', [''en-GB'', ''en-US'', ''en'']), (''TR'', ''tr'', [''tr-TR'', ''tr'', ''en-US'', ''en'']),
     (''TT'', ''en-GB'', [''en-GB'', ''en-US'', ''en'']), (''TV'', ''en-GB'', [''en-GB'', ''en-US'', ''en'']),
     (''TW'', ''zh-TW'', [''zh-TW'', ''zh'', ''en-US'', ''en'']), (''TZ'', ''sw'', [''sw'', ''en-GB'', ''en'']),
     (''UA'', ''uk'', [''uk-UA'', ''uk'', ''en-US'', ''en'']), (''UG'', ''sw'', [''sw'', ''en-GB'', ''en'']),
     (''UM'', ''en-GB'', [''en-GB'', ''en-US'', ''en'']), (''US'', ''en-US'', [''en-US'', ''en'']), (''UY'', ''es-419'', [''es-419'', ''es'']),
     (''UZ'', ''en-US'', [''en-US'', ''en'']), (''VA'', ''it'', [''it-IT'', ''it'', ''en-US'', ''en'']),
     (''VC'', ''en-GB'', [''en-GB'', ''en-US'', ''en'']), (''VE'', ''es-419'', [''es-419'', ''es'']), (''VG'', ''en-GB'', [''en-GB'', ''en-US'', ''en'']),
     (''VI'', ''en-GB'', [''en-GB'', ''en-US'', ''en'']), (''VN'', ''vi'', [''vi-VN'', ''vi'', ''fr-FR'', ''fr'', ''en-US'', ''en'']),
     (''VU'', ''en-GB'', [''en-GB'', ''en-US'', ''en'']), (''WF'', ''fr'', [''fr-FR'', ''fr'', ''en-US'', ''en'']),
     (''WS'', ''en-GB'', [''en-GB'', ''en-US'', ''en'']), (''XK'', ''sr'', [''sr-RS'', ''sr'', ''en-US'', ''en'']),
     (''YE'', ''ar'', [''ar'', ''en-US'', ''en'']), (''YT'', ''fr'', [''fr-FR'', ''fr'', ''en-US'', ''en'']),
     (''ZA'', ''en-GB'', [''en-GB'', ''en-US'', ''en'']), (''ZM'', ''en-GB'', [''en-GB'', ''en-US'', ''en'']),
     (''ZW'', ''en-GB'', [''en-GB'', ''en-US'', ''en''])]"

definition fallback :: country_locale where
  "fallback = \<lparr>lo_ui = ''en-US'', lo_languages = [''en-US'', ''en'']\<rparr>"

text \<open>The list of the generator, with two entries that are no language.\<close>

definition shipped :: "str list" where
  "shipped =
    [CHR '','' # CHR 0x0A # ''  '', CHR '','' # CHR '' '' # CHR '' '' # CHR 0x0A # ''  '',
    ''af'', ''am'', ''ar'', ''bg'', ''bn'', ''ca'', ''cs'', ''da'', ''de'', ''el'', ''en-GB'', ''en-US'', ''es'', ''es-419'', ''et'', ''fa'', ''fi'',
     ''fil'', ''fr'', ''gu'', ''he'', ''hi'', ''hr'', ''hu'', ''id'', ''it'', ''ja'', ''kn'', ''ko'', ''lt'', ''lv'', ''ml'', ''mr'', ''ms'', ''nb'',
     ''nl'', ''pl'', ''pt-BR'', ''pt-PT'', ''ro'', ''ru'', ''sk'', ''sl'', ''sr'', ''sv'', ''sw'', ''ta'', ''te'', ''th'', ''tr'', ''uk'', ''ur'', ''vi'',
     ''zh-CN'', ''zh-TW'']"

definition shipped_ui_locales :: "str list" where
  "shipped_ui_locales = List.filter (\<lambda>l. l \<noteq> [] \<and> list_all (\<lambda>b. is_alnum b \<or> b = CHR ''-'') l) shipped"

definition is_shipped_ui_locale :: "str \<Rightarrow> bool" where
  "is_shipped_ui_locale tag \<longleftrightarrow> tag \<in> set shipped_ui_locales"

section \<open>From a country or a language tag\<close>

definition for_country :: "str \<Rightarrow> country_locale option" where
  "for_country c =
     (if length (trim c) \<noteq> 2 then None
      else map_option (\<lambda>i. let (_, ui, languages) = by_country ! i in \<lparr>lo_ui = ui, lo_languages = languages\<rparr>)
             (binary_search fst by_country (upper (trim c))))"

definition ships :: "str \<Rightarrow> bool" where
  "ships tag \<longleftrightarrow> binary_search (\<lambda>t. t) shipped tag \<noteq> None"

definition narrowed :: "str \<Rightarrow> str \<Rightarrow> str" where
  "narrowed lang region =
     (if lang = ''es'' \<and> region \<noteq> ''es'' then ''es-419''
      else if lang = ''pt'' \<and> region \<noteq> ''br'' then ''pt-PT''
      else if lang = ''zh'' then (if region = ''hk'' \<or> region = ''mo'' then ''zh-TW'' else ''zh-CN'')
      else if lang = ''en'' then (if region = ''lr'' \<or> region = ''ph'' then ''en-US'' else ''en-GB'')
      else lang)"

definition aliased :: "str \<Rightarrow> str option" where
  "aliased lang =
     map_of [(''en'', ''en-US''), (''iw'', ''he''), (''no'', ''nb''), (''pt'', ''pt-BR''), (''tl'', ''fil''), (''zh'', ''zh-CN'')] lang"

definition by_language :: "str \<Rightarrow> str" where
  "by_language lang =
     (case aliased lang of
        Some a \<Rightarrow> if ships a then a else if ships lang then lang else lo_ui fallback
      | None \<Rightarrow> if ships lang then lang else lo_ui fallback)"

definition dashes :: "str \<Rightarrow> str" where
  "dashes s = map (\<lambda>c. if c = CHR ''_'' then CHR ''-'' else c) s"

definition ui_locale_for :: "str option \<Rightarrow> str" where
  "ui_locale_for given =
     (case Option.bind given (\<lambda>t. if trim t = [] then None else Some (trim t)) of
        None \<Rightarrow> lo_ui fallback
      | Some t \<Rightarrow>
          let tag = dashes t
          in if ships tag then tag
             else (case split_once (CHR ''-'') tag of
                 None \<Rightarrow> by_language (lower tag)
               | Some (l, r) \<Rightarrow>
                   let n = narrowed (lower l) (lower r)
                   in if ships n then n else by_language (lower l)))"

section \<open>A search of a sorted table finds what it holds\<close>

lemma narrow_finds:
  fixes key :: "'a \<Rightarrow> 'k::linorder"
  assumes "sorted_wrt (\<lambda>x y. key x < key y) xs" and "base \<le> j" and "j < base + n" and "base + n \<le> length xs"
  shows "narrow (\<lambda>x. key (xs ! j) < key x) xs base n = j"
  using assms(2-)
proof (induction n arbitrary: base rule: less_induct)
  case (less n)
  show ?case
  proof (cases "n \<le> 1")
    case True
    then show ?thesis using less.prems by (simp add: narrow.simps [of _ _ _ n])
  next
    case False
    define half where "half = n div 2"
    have half: "0 < half" "half < n" using False by (simp_all add: half_def)
    have above: "key (xs ! j) < key (xs ! (base + half)) \<longleftrightarrow> j < base + half"
    proof (cases "j < base + half")
      case True
      then show ?thesis using sorted_wrt_nth_less [OF assms(1) True] half less.prems by simp
    next
      case ge: False
      then show ?thesis
        using sorted_wrt_nth_less [OF assms(1), of "base + half" j] less.prems by (cases "j = base + half") auto
    qed
    have "narrow (\<lambda>x. key (xs ! j) < key x) xs (if j < base + half then base else base + half) (n - half) = j"
      using less.prems half False half_def by (intro less.IH) (auto simp: half_def)
    then show ?thesis
      using False by (subst narrow.simps) (simp add: Let_def above flip: half_def)
  qed
qed

lemma binary_search_Some:
  assumes "sorted_wrt (\<lambda>x y. key x < key y) xs" and "j < length xs"
  shows "binary_search key xs (key (xs ! j)) = Some j"
  using narrow_finds [OF assms(1), of 0 j "length xs"] assms(2) by (auto simp: binary_search_def)

lemma binary_search_None:
  fixes xs :: "'a list"
  assumes "k \<notin> key ` set xs"
  shows "binary_search key xs k = None"
proof -
  have "narrow gt xs base n < base + n \<or> n = 0" for gt and base n
  proof (induction n arbitrary: base rule: less_induct)
    case (less n)
    show ?case
    proof (cases "n \<le> 1")
      case True
      then show ?thesis by (auto simp: narrow.simps [of _ _ _ n])
    next
      case False
      then have half: "0 < n div 2" "n div 2 < n" by simp_all
      have "narrow gt xs b (n - n div 2) < b + (n - n div 2)" for b using less.IH [of "n - n div 2" b] half by auto
      from this [of base] this [of "base + n div 2"] show ?thesis
        using False half by (subst narrow.simps) (auto simp: Let_def)
    qed
  qed
  from this [of _ 0 "length xs"] have "xs \<noteq> [] \<Longrightarrow> narrow (\<lambda>x. k < key x) xs 0 (length xs) < length xs" by simp
  then have "key (xs ! narrow (\<lambda>x. k < key x) xs 0 (length xs)) \<noteq> k" if "xs \<noteq> []" using assms that by (metis image_eqI nth_mem)
  then show ?thesis by (simp add: binary_search_def Let_def)
qed

section \<open>The tables are sorted\<close>

lemma sorted_steps: "successively (\<lambda>x y. key x < key y) xs \<Longrightarrow> sorted_wrt (\<lambda>x y. key x < (key y :: 'a::linorder)) xs"
  by (rule iffD1 [OF successively_conv_sorted_wrt]) (auto simp: transp_def)

lemma by_country_sorted: "sorted_wrt (\<lambda>x y. fst x < fst y) by_country"
  by (rule sorted_steps) code_simp

lemma shipped_sorted: "sorted_wrt (\<lambda>x y. x < y) shipped"
  by (rule sorted_steps [where key = "\<lambda>t. t"]) code_simp

lemma rows_ship: "list_all (\<lambda>(_, ui, languages). ui \<in> set shipped_ui_locales \<and> languages \<noteq> []) by_country"
  by code_simp

lemma lookup_sorted:
  assumes "sorted_wrt (\<lambda>x y. fst x < fst y) xs"
  shows "map_option (\<lambda>i. snd (xs ! i)) (binary_search fst xs k) = map_of xs k"
proof (cases "k \<in> fst ` set xs")
  case True
  then obtain j where j: "j < length xs" "fst (xs ! j) = k" by (auto simp: in_set_conv_nth)
  have "distinct (map fst xs)"
    using assms by (simp add: distinct_conv_nth sorted_wrt_iff_nth_less) (metis less_irrefl nat_neq_iff)
  moreover have "(k, snd (xs ! j)) \<in> set xs" using j by (metis nth_mem prod.collapse)
  ultimately have "map_of xs k = Some (snd (xs ! j))" by (rule map_of_is_SomeI)
  then show ?thesis using binary_search_Some [OF assms j(1)] j(2) by simp
next
  case False
  then have "map_of xs k = None" by (simp add: map_of_eq_None_iff)
  then show ?thesis using binary_search_None [OF False] by simp
qed

lemma ships_iff: "ships t \<longleftrightarrow> t \<in> set shipped"
proof
  assume "ships t"
  then show "t \<in> set shipped" using binary_search_None [of t "\<lambda>t. t" shipped] by (fastforce simp: ships_def)
next
  assume "t \<in> set shipped"
  then obtain j where "j < length shipped" "shipped ! j = t" by (auto simp: in_set_conv_nth)
  then show "ships t" using binary_search_Some [where key = "\<lambda>t. t", OF shipped_sorted, of j] by (auto simp: ships_def)
qed

lemma shipped_iff: "is_shipped_ui_locale t \<longleftrightarrow> t \<in> set shipped \<and> CHR '','' \<notin> set t"
proof -
  have "list_all (\<lambda>t. (t \<noteq> [] \<and> list_all (\<lambda>b. is_alnum b \<or> b = CHR ''-'') t) \<longleftrightarrow> CHR '','' \<notin> set t) shipped" by code_simp
  then show ?thesis by (auto simp: is_shipped_ui_locale_def shipped_ui_locales_def list_all_iff)
qed

section \<open>What a country says\<close>

lemma for_country_table:
  "for_country c = (if length (trim c) \<noteq> 2 then None
     else map_option (\<lambda>(ui, languages). \<lparr>lo_ui = ui, lo_languages = languages\<rparr>) (map_of by_country (upper (trim c))))"
  unfolding for_country_def lookup_sorted [OF by_country_sorted, symmetric]
  by (simp add: option.map_comp comp_def Let_def case_prod_beta)

lemma shipped_resolve: "list_all (\<lambda>u. ui_locale_for (Some u) = u) shipped_ui_locales"
  by code_simp

lemma shipped_fixed: "is_shipped_ui_locale u \<Longrightarrow> ui_locale_for (Some u) = u"
  using shipped_resolve by (simp add: is_shipped_ui_locale_def list_all_iff)

lemma country_ships:
  assumes "for_country c = Some l"
  shows "is_shipped_ui_locale (lo_ui l) \<and> ui_locale_for (Some (lo_ui l)) = lo_ui l \<and> lo_languages l \<noteq> []"
proof -
  obtain k where "(k, lo_ui l, lo_languages l) \<in> set by_country"
    using assms by (auto simp: for_country_table split: if_splits dest!: map_of_SomeD)
  then have "is_shipped_ui_locale (lo_ui l)" "lo_languages l \<noteq> []"
    using rows_ship by (auto simp: list_all_iff is_shipped_ui_locale_def)
  then show ?thesis using shipped_fixed by simp
qed

section \<open>What a language tag resolves to\<close>

lemma dashes_comma [simp]: "CHR '','' \<in> set (dashes s) \<longleftrightarrow> CHR '','' \<in> set s"
  by (auto simp: dashes_def)

lemma to_lower_comma: "to_lower c = CHR '','' \<longleftrightarrow> c = CHR '',''"
proof (cases "is_upper c")
  case True
  then have c: "code (to_lower c) = code c + 32" "65 \<le> code c" by (simp_all add: to_lower_def is_upper_def code_char_of)
  have "to_lower c \<noteq> CHR '',''"
  proof
    assume "to_lower c = CHR '',''"
    with c(1) have "code c + 32 = 44" by simp
    with c(2) show False by simp
  qed
  moreover have "c \<noteq> CHR '',''" using c(2) by auto
  ultimately show ?thesis by simp
qed (simp add: to_lower_def)

lemma lower_comma [simp]: "CHR '','' \<in> set (lower s) \<longleftrightarrow> CHR '','' \<in> set s"
  by (induction s) (simp_all add: lower_def to_lower_comma eq_commute [of "CHR '',''"])

lemma by_language_shipped: "by_language l \<in> set shipped \<and> (CHR '','' \<in> set (by_language l) \<longrightarrow> CHR '','' \<in> set l)"
proof -
  have "lo_ui fallback \<in> set shipped" by code_simp
  moreover have "CHR '','' \<notin> set (lo_ui fallback)" by (simp add: fallback_def)
  moreover have "aliased l = Some a \<Longrightarrow> CHR '','' \<notin> set a" for a
    by (auto simp: aliased_def split: if_splits)
  ultimately show ?thesis by (auto simp: by_language_def ships_iff split: option.split)
qed

lemma narrowed_comma: "CHR '','' \<in> set (narrowed l r) \<Longrightarrow> CHR '','' \<in> set l"
  by (auto simp: narrowed_def split: if_splits)

lemma ui_locale_shipped:
  "ui_locale_for given \<in> set shipped \<and> (CHR '','' \<in> set (ui_locale_for given) \<longrightarrow> (\<exists>t. given = Some t \<and> CHR '','' \<in> set t))"
proof (cases "Option.bind given (\<lambda>t. if trim t = [] then None else Some (trim t))")
  case None
  then show ?thesis using by_language_shipped [of "[]"] by (simp add: ui_locale_for_def fallback_def shipped_def)
next
  case (Some tr)
  then obtain t where t: "given = Some t" "tr = trim t" by (cases given) (auto split: if_splits)
  have trimmed: "CHR '','' \<in> set (dashes tr) \<Longrightarrow> CHR '','' \<in> set t" using t trim_set [of t] by auto
  show ?thesis
  proof (cases "ships (dashes tr)")
    case True
    then show ?thesis using Some t trimmed by (simp add: ui_locale_for_def Let_def ships_iff)
  next
    case False
    show ?thesis
    proof (cases "split_once (CHR ''-'') (dashes tr)")
      case None
      then show ?thesis using Some t trimmed False by_language_shipped [of "lower (dashes tr)"] by (auto simp: ui_locale_for_def Let_def)
    next
      case lr: (Some lr)
      obtain l r where [simp]: "lr = (l, r)" by (cases lr)
      have "set l \<subseteq> set (dashes tr)" using lr by (auto simp: split_once_Some)
      then show ?thesis
        using Some t trimmed False lr by_language_shipped [of "lower l"] narrowed_comma [of "lower l" "lower r"]
        by (auto simp: ui_locale_for_def Let_def ships_iff)
    qed
  qed
qed

lemmas tag_simps = ui_locale_for_def Let_def ships_iff shipped_def dashes_def narrowed_def by_language_def aliased_def lower_def
  to_lower_def is_upper_def fallback_def char_of_def bit_Suc_0_iff

text \<open>
  C15. The languages of a profile are ones Chrome ships. A pinned tag without a comma is resolved to a shipped
  language, and resolving that again changes nothing (a tag with a comma can reach an entry that is no language,
  \<open>junk_is_reached\<close>); the country of an exit is looked up in the table whatever its case, found exactly when it has a
  row, and what the row says is shipped and resolves to itself.
\<close>

theorem profiles_speak_shipped_languages:
  assumes "CHR '','' \<notin> set tag"
  shows "is_shipped_ui_locale (ui_locale_for (Some tag)) \<and> is_shipped_ui_locale (ui_locale_for None)
    \<and> ui_locale_for (Some (ui_locale_for (Some tag))) = ui_locale_for (Some tag)
    \<and> for_country c = (if length (trim c) = 2
        then map_option (\<lambda>(ui, languages). \<lparr>lo_ui = ui, lo_languages = languages\<rparr>) (map_of by_country (upper (trim c))) else None)
    \<and> (case for_country c of None \<Rightarrow> True
       | Some l \<Rightarrow> is_shipped_ui_locale (lo_ui l) \<and> ui_locale_for (Some (lo_ui l)) = lo_ui l \<and> lo_languages l \<noteq> [])"
proof -
  have "is_shipped_ui_locale (ui_locale_for (Some tag))" "is_shipped_ui_locale (ui_locale_for None)"
    using ui_locale_shipped [of "Some tag"] ui_locale_shipped [of None] assms by (auto simp: shipped_iff)
  then show ?thesis using shipped_fixed country_ships [of c] by (auto simp: for_country_table split: option.split)
qed

theorem profiles_speak_shipped_languages_witness: "is_shipped_ui_locale (ui_locale_for (Some ''de_AT'')) \<and> ui_locale_for (Some ''de_AT'') = ''de''"
proof -
  have "ui_locale_for (Some ''de_AT'') = ''de''" by (simp add: tag_simps trim_graphic graphic_def)
  then show ?thesis using profiles_speak_shipped_languages [of "''de_AT''"] by simp
qed

text \<open>What the resolution makes of some tags.\<close>

lemma tags:
  "ui_locale_for (Some ''es-MX'') = ''es-419''" "ui_locale_for (Some ''pt-AO'') = ''pt-PT''" "ui_locale_for (Some ''zh-MO'') = ''zh-TW''"
  "ui_locale_for (Some ''en-IE'') = ''en-GB''" "ui_locale_for (Some ''no'') = ''nb''" "ui_locale_for (Some ''tlh'') = ''en-US''"
  by (simp_all add: tag_simps trim_graphic graphic_def)

text \<open>The comparison with the shipped list is exact, the rules for a region are not: in lower case Taiwan and the United States are lost.\<close>

lemma case_is_lost: "ui_locale_for (Some ''zh-tw'') = ''zh-CN''" "ui_locale_for (Some ''en-us'') = ''en-GB''"
  by (simp_all add: tag_simps trim_graphic graphic_def)

text \<open>The entries of the generator that are no language can be reached.\<close>

lemma junk_is_reached: "\<not> is_shipped_ui_locale (ui_locale_for (Some (CHR '','' # CHR 0x0A # ''  -x'')))"
proof -
  have "trim (CHR '','' # CHR 0x0A # ''  -x'') = CHR '','' # CHR 0x0A # ''  -x''"
    by (rule trim_id) (simp_all add: ws_head_def ws_last_def ws1_def ws2_def ws3_def)
  then have "ui_locale_for (Some (CHR '','' # CHR 0x0A # ''  -x'')) = CHR '','' # CHR 0x0A # ''  ''"
    by (simp add: tag_simps)
  then show ?thesis by (simp add: shipped_iff)
qed

text \<open>Three countries whose interface language is not the one their first language resolves to.\<close>

lemma rows_that_disagree:
  "\<forall>c \<in> {''BN'', ''MY'', ''PK''}. map_option snd (map_of by_country c) = Some [''en-US'', ''en'']
     \<and> map_option fst (map_of by_country c) \<noteq> Some (ui_locale_for (Some ''en-US''))"
proof -
  have "ui_locale_for (Some ''en-US'') = ''en-US''" by code_simp
  moreover have "list_all (\<lambda>c. map_option snd (map_of by_country c) = Some [''en-US'', ''en'']
      \<and> map_option fst (map_of by_country c) \<noteq> Some ''en-US'') [''BN'', ''MY'', ''PK'']" by code_simp
  ultimately show ?thesis by simp
qed

end
