(* ===== verification/Persona.thy ===== *)
theory Persona
  imports Complex_Main Persona_Seed "HOL-Library.Char_ord" "HOL-Library.List_Lexorder"
begin

text \<open>
  A persona, one real machine, and what makes it a machine that exists (\<open>shared-rs/src/persona.rs\<close>,
  \<open>fonts.rs\<close>). A number of type \<open>f64\<close> is the rational it is; how the result of an operation on two of
  them is rounded, and how letters outside ASCII are lowered, is the argument \<open>machine_env\<close>. The
  sentences of the errors are short names here. A slice that ends inside a character panics in the
  code and is an error of its own.
\<close>

unbundle bit_operations_syntax

section \<open>A persona\<close>

type_synonym f64 = rat

text \<open>\<open>serde_json::Value\<close>.\<close>

datatype json = JNull | JBool bool | JNum f64 | JStr str | JArr "json list" | JObj "(str \<times> json) list"

record machine_env =
  rounded :: "rat \<Rightarrow> f64"
  lowercase :: "str \<Rightarrow> str"

record persona_os =
  os_name :: str
  os_version :: str
  os_arch :: str
  os_user_agent_template :: str
  os_platform :: str
  os_ch_platform :: str
  os_ch_platform_version :: str
  os_ch_architecture :: str
  os_ch_bitness :: str

record persona_webgpu =
  wg_vendor :: str
  wg_architecture :: str
  wg_device :: str
  wg_description :: str
  wg_limits :: "(str \<times> f64) list"
  wg_features :: "str list"

record persona_gpu =
  gp_webgl_vendor :: str
  gp_webgl_renderer :: str
  gp_webgl_params :: "(str \<times> json) list"
  gp_webgl_extensions :: "str list"
  gp_webgl1_extensions :: "str list"
  gp_webgl2_extensions :: "str list"
  gp_shader_precision :: "(str \<times> str) list"
  gp_webgpu :: "persona_webgpu option"

record persona_screen =
  sn_width :: nat
  sn_height :: nat
  sn_avail_width :: nat
  sn_avail_height :: nat
  sn_color_depth :: nat
  sn_device_pixel_ratio :: f64
  sn_avail_top :: "nat option"

record persona_chrome_metrics =
  cm_outer_minus_inner_height :: nat
  cm_outer_minus_inner_width :: nat
  cm_scrollbar_width :: nat

record persona_cpu =
  cp_cores :: nat
  cp_model :: "str option"

record persona_audio =
  au_sample_rate :: nat
  au_base_latency :: f64
  au_output_latency :: f64

record persona_mobile =
  mo_model :: str
  mo_form_factor :: str
  mo_connection :: str
  mo_voices :: "str list"

record persona =
  pe_id :: str
  pe_weight :: f64
  pe_source :: "str option"
  pe_contributed_by :: "str option"
  pe_machine :: "str option"
  pe_os :: persona_os
  pe_gpu :: persona_gpu
  pe_screen :: persona_screen
  pe_chrome_metrics :: persona_chrome_metrics
  pe_cpu :: persona_cpu
  pe_memory_gb :: nat
  pe_max_touch_points :: nat
  pe_fonts :: "str list"
  pe_audio :: persona_audio
  pe_voices :: "str list"
  pe_media_devices :: "str list"
  pe_mobile :: "persona_mobile option"

definition audio_sample_rates :: "nat list" where
  "audio_sample_rates = [8000, 11025, 16000, 22050, 32000, 44100, 48000, 88200, 96000, 176400, 192000]"

definition android_platforms :: "str list" where
  "android_platforms = [''Linux armv81'', ''Linux armv8l'', ''Linux armv7l'', ''Linux aarch64'']"

definition android_gpu_families :: "str list" where
  "android_gpu_families = [''Adreno'', ''Mali'', ''PowerVR'', ''Xclipse'', ''Immortalis'', ''Maleoon'', ''IMG'']"

definition desktop_only_fonts :: "str list" where
  "desktop_only_fonts =
     [''Segoe UI'', ''Bahnschrift'', ''Calibri'', ''Helvetica Neue'', ''Menlo'', ''SF Pro'', ''Apple Color Emoji'']"

definition is_android :: "persona \<Rightarrow> bool" where
  "is_android p \<longleftrightarrow> os_name (pe_os p) = ''Android''"

definition is_phone :: "persona \<Rightarrow> bool" where
  "is_phone p \<longleftrightarrow> is_android p \<and> (case pe_mobile p of None \<Rightarrow> False | Some m \<Rightarrow> mo_form_factor m = ''phone'')"

section \<open>A machine that exists\<close>

abbreviation err :: "bool \<Rightarrow> str \<Rightarrow> str list" where
  "err b e \<equiv> if b then [e] else []"

text \<open>The PCI device id in a renderer; none where the slice of eight bytes ends inside a character.\<close>

definition at_boundary :: "str \<Rightarrow> nat \<Rightarrow> bool" where
  "at_boundary s n \<longleftrightarrow> (case drop n s of [] \<Rightarrow> n = length s | c # _ \<Rightarrow> code c < 128 \<or> 192 \<le> code c)"

fun has_pci_device_id :: "str \<Rightarrow> bool option" where
  "has_pci_device_id [] = Some False"
| "has_pci_device_id (c # s) =
     (case strip_prefix ''(0x'' (c # s) of
        None \<Rightarrow> has_pci_device_id s
      | Some h \<Rightarrow>
          if length h \<le> 8 then has_pci_device_id s
          else if \<not> at_boundary h 8 then None
          else if list_all is_hexdigit (take 8 h) \<and> prefix '')'' (drop 8 h) then Some True
          else has_pci_device_id s)"

definition validate_mobile :: "persona \<Rightarrow> str list" where
  "validate_mobile p =
     (case pe_mobile p of
        None \<Rightarrow> err (is_android p) ''an Android persona needs its mobile block''
      | Some m \<Rightarrow>
          if \<not> is_android p then [''a mobile block''] else
          let ua = os_user_agent_template (pe_os p); r = gp_webgl_renderer (pe_gpu p);
              phone = (mo_form_factor m \<noteq> ''tablet'')
          in err (os_ch_platform (pe_os p) \<noteq> ''Android'') ''ch_platform''
           @ err (trim (mo_model m) = []) ''mobile.model is empty''
           @ err (mo_form_factor m \<noteq> ''phone'' \<and> mo_form_factor m \<noteq> ''tablet'') ''mobile.form_factor''
           @ err (mo_connection m \<noteq> ''cellular'' \<and> mo_connection m \<noteq> ''wifi'') ''mobile.connection''
           @ err (\<not> contains_str ''Android'' ua) ''the user agent does not say Android''
           @ err (phone \<noteq> contains_str '' Mobile '' ua) ''Mobile in the user agent''
           @ err (cm_scrollbar_width (pe_chrome_metrics p) \<noteq> 0) ''scrollbar_width on Android''
           @ err (pe_max_touch_points p < 1 \<or> 10 < pe_max_touch_points p) ''max_touch_points''
           @ err (sn_color_depth (pe_screen p) \<noteq> 24) ''color_depth''
           @ err (8 < pe_memory_gb p) ''memory_gb on Android''
           @ err (contains_str ''Direct3D'' r \<or> contains_str ''D3D11'' r \<or> contains_str ''Metal'' r) ''a desktop driver stack''
           @ err (\<not> list_ex (\<lambda>f. contains_str f r) android_gpu_families) ''no handset GPU family''
           @ err (list_ex (\<lambda>f. f \<in> set desktop_only_fonts) (pe_fonts p)) ''a desktop font'')"

definition allowed_ratios :: "bool \<Rightarrow> f64 list" where
  "allowed_ratios is_mac = (if is_mac then [1, 2] else [1, 5/4, 3/2, 7/4, 2, 9/4, 5/2, 3])"

text \<open>\<open>f64::round\<close>: half away from zero; the products it is used on are not negative.\<close>

definition round_half_up :: "rat \<Rightarrow> rat" where
  "round_half_up x = of_int \<lfloor>x + 1/2\<rfloor>"

definition fractional_pixels :: "machine_env \<Rightarrow> nat \<Rightarrow> f64 \<Rightarrow> bool" where
  "fractional_pixels E logical dpr =
     (let physical = rounded E (of_nat logical * dpr)
      in rounded E (1 / 1000000) < \<bar>rounded E (physical - round_half_up physical)\<bar>)"

definition validate :: "machine_env \<Rightarrow> persona \<Rightarrow> str list" where
  "validate E p =
     (let is_mac = (os_name (pe_os p) = ''macOS''); is_win = (os_name (pe_os p) = ''Windows'');
          r = gp_webgl_renderer (pe_gpu p); sn = pe_screen p; dpr = sn_device_pixel_ratio sn; m = pe_memory_gb p
      in err (\<not> is_mac \<and> \<not> is_win \<and> \<not> is_android p) ''unknown os.name''
       @ (if is_android p then err (os_platform (pe_os p) \<notin> set android_platforms) ''os.platform on Android''
          else err (os_platform (pe_os p) \<noteq> (if is_mac then ''MacIntel'' else ''Win32'')) ''os.platform'')
       @ validate_mobile p
       @ err (is_mac \<and> cm_scrollbar_width (pe_chrome_metrics p) \<noteq> 0) ''overlay scrollbars''
       @ err (is_win \<and> cm_scrollbar_width (pe_chrome_metrics p) = 0) ''Windows reserves scrollbar width''
       @ err (is_mac \<and> pe_max_touch_points p \<noteq> 0) ''no Mac has a touchscreen''
       @ err (is_mac \<and> (contains_str ''Direct3D'' r \<or> contains_str ''D3D11'' r)) ''macOS with a Direct3D renderer''
       @ err (is_win \<and> contains_str ''Metal'' r) ''Windows with a Metal renderer''
       @ (if is_win \<and> contains_str ''Direct3D11'' r
          then (case has_pci_device_id r of None \<Rightarrow> [''panic''] | Some b \<Rightarrow> err (\<not> b) ''no PCI device id'') else [])
       @ (case gp_webgpu (pe_gpu p) of
            None \<Rightarrow> []
          | Some w \<Rightarrow> err (\<not> contains_str (lowercase E (wg_vendor w)) (lowercase E r)) ''WebGPU vendor'')
       @ err (sn_width sn < sn_avail_width sn \<or> sn_height sn < sn_avail_height sn) ''available area''
       @ err (is_mac \<and> sn_avail_height sn = sn_height sn) ''macOS reserves the menu bar''
       @ err (m = 0 \<or> m AND (m - 1) \<noteq> 0) ''memory_gb''
       @ (if is_android p then err (dpr < 1 \<or> 9/2 < dpr) ''devicePixelRatio on Android''
          else err (\<not> list_ex (\<lambda>a. \<bar>rounded E (a - dpr)\<bar> < rounded E (1 / 1000000000)) (allowed_ratios is_mac)) ''devicePixelRatio'')
       @ err (fractional_pixels E (sn_width sn) dpr) ''screen.width''
       @ err (fractional_pixels E (sn_height sn) dpr) ''screen.height''
       @ err (cp_cores (pe_cpu p) = 0 \<or> cp_cores (pe_cpu p) mod 2 \<noteq> 0 \<or> 128 < cp_cores (pe_cpu p)) ''cpu.cores''
       @ err (m < 4 \<and> 8 < cp_cores (pe_cpu p)) ''memory with cores''
       @ err (au_sample_rate (pe_audio p) \<notin> set audio_sample_rates) ''sample rate''
       @ err (pe_fonts p = []) ''an empty font list''
       @ err (is_mac \<and> list_ex (\<lambda>f. f = ''Segoe UI'' \<or> f = ''Bahnschrift'') (pe_fonts p)) ''Windows-only fonts''
       @ err (is_win \<and> list_ex (\<lambda>f. f = ''Helvetica Neue'' \<or> f = ''Menlo'') (pe_fonts p)) ''macOS-only fonts''
       @ err (pe_weight p < 0 \<or> 1 < pe_weight p) ''weight'')"

section \<open>Fonts to hide\<close>

definition probed :: "str list" where
  "probed =
    [''Bahnschrift'', ''Calibri'', ''Cambria'', ''Candara'', ''Consolas'', ''Constantia'', ''Corbel'', ''Ebrima'', ''Gadugi'', ''Leelawadee UI'',
     ''Malgun Gothic'', ''Microsoft JhengHei'', ''Microsoft YaHei'', ''MS Gothic'', ''MV Boli'', ''Nirmala UI'', ''Segoe UI'',
     ''Segoe UI Emoji'', ''Segoe UI Variable'', ''Sitka'', ''Sylfaen'', ''Tahoma'', ''Yu Gothic'', ''Al Bayan'', ''American Typewriter'',
     ''Apple Chancery'', ''Apple Color Emoji'', ''AppleGothic'', ''Avenir'', ''Avenir Next'', ''Baskerville'', ''Big Caslon'', ''Chalkboard'',
     ''Chalkduster'', ''Cochin'', ''Copperplate'', ''Didot'', ''Futura'', ''Geneva'', ''Gill Sans'', ''Helvetica Neue'', ''Herculanum'',
     ''Hoefler Text'', ''Lucida Grande'', ''Marker Felt'', ''Menlo'', ''Monaco'', ''Optima'', ''Papyrus'', ''Phosphate'', ''Rockwell'',
     ''SF Pro'', ''Skia'', ''Snell Roundhand'', ''Zapfino'', ''Arial'', ''Arial Black'', ''Comic Sans MS'', ''Courier New'', ''Georgia'',
     ''Impact'', ''Times New Roman'', ''Trebuchet MS'', ''Verdana'', ''Webdings'', ''Wingdings'', ''Roboto'', ''Open Sans'', ''Inter'']"

definition mac_only :: "str list" where
  "mac_only =
    [''Helvetica'', ''Times'', ''Courier'', ''PingFang SC'', ''PingFang TC'', ''PingFang HK'', ''Hiragino Sans'', ''Hiragino Kaku Gothic ProN'',
     ''Hiragino Mincho ProN'', ''Hiragino Sans GB'', ''Apple SD Gothic Neo'', ''Apple Symbols'', ''Heiti SC'', ''Heiti TC'', ''STHeiti'',
     ''Songti SC'', ''Songti TC'', ''Kaiti SC'', ''Thonburi'', ''Kohinoor Devanagari'', ''Kohinoor Bangla'', ''Kailasa'', ''Noteworthy'',
     ''Savoye LET'', ''Luminari'', ''Trattatello'', ''SignPainter'', ''Bradley Hand'', ''Charter'', ''Iowan Old Style'', ''Palatino'',
     ''Seravek'', ''Superclarendon'', ''SF Mono'', ''SF Pro Text'', ''SF Pro Display'', ''New York'', ''Galvji'', ''Academy Engraved LET'',
     ''Party LET'', ''Krungthep'', ''Sathu'', ''Silom'']"

definition windows_only :: "str list" where
  "windows_only =
    [''Segoe UI Symbol'', ''Segoe UI Historic'', ''Segoe Print'', ''Segoe Script'', ''Segoe MDL2 Assets'', ''Segoe Fluent Icons'',
     ''Lucida Console'', ''Lucida Sans Unicode'', ''MS Sans Serif'', ''MS Serif'', ''MS PGothic'', ''MS UI Gothic'', ''Meiryo'', ''Meiryo UI'',
     ''SimSun'', ''NSimSun'', ''SimHei'', ''KaiTi'', ''FangSong'', ''Microsoft Himalaya'', ''Microsoft New Tai Lue'', ''Microsoft PhagsPa'',
     ''Microsoft Tai Le'', ''Microsoft Yi Baiti'', ''Mongolian Baiti'', ''Myanmar Text'', ''Javanese Text'', ''Ink Free'',
     ''HoloLens MDL2 Assets'', ''Marlett'', ''Franklin Gothic Medium'', ''Gabriola'', ''Palatino Linotype'', ''Batang'', ''Gulim'', ''Dotum'',
     ''Gungsuh'', ''Cascadia Code'', ''Cascadia Mono'', ''Yu Mincho'', ''Leelawadee'']"

definition other_fonts :: "str \<Rightarrow> str list" where
  "other_fonts os =
     (if os = ''Windows'' then mac_only else if os = ''macOS'' then windows_only
      else if os = ''Android'' then mac_only @ windows_only else [])"

definition hidden :: "str \<Rightarrow> str list \<Rightarrow> str list" where
  "hidden os present =
     remdups_adj (sort (List.filter (\<lambda>f. \<not> list_ex (\<lambda>p. eq_ignore_case p f) present) (probed @ other_fonts os)))"

text \<open>
  What a profile hides: the families a capture asks about and did not find, and those only the other
  operating systems have, each once and in order; never a family the persona has, whatever its case.
\<close>

lemma hidden_fonts:
  "set (hidden os present) = {f \<in> set probed \<union> set (other_fonts os). \<forall>p \<in> set present. \<not> eq_ignore_case p f}
   \<and> sorted (hidden os present) \<and> distinct (hidden os present)"
proof -
  have "sorted xs \<Longrightarrow> sorted_wrt (<) (remdups_adj xs)" for xs :: "str list"
    by (induction xs rule: remdups_adj.induct) (auto simp: less_le dest: order_antisym)
  from this [of "sort xs" for xs] have "sorted_wrt (<) (remdups_adj (sort xs))" for xs :: "str list" by simp
  then show ?thesis by (auto simp: hidden_def list_ex_iff strict_sorted_iff)
qed

section \<open>A phone\<close>

definition exact_env :: machine_env where
  "exact_env = \<lparr>rounded = (\<lambda>x. x), lowercase = lower\<rparr>"

definition demo_phone :: persona where
  "demo_phone =
     \<lparr>pe_id = ''android-14-mali-360x780'', pe_weight = 1 / 100, pe_source = Some ''capture'', pe_contributed_by = None, pe_machine = None,
      pe_os = \<lparr>os_name = ''Android'', os_version = ''10'', os_arch = ''arm64'',
        os_user_agent_template = ''Mozilla/5.0 (Linux; Android 10; K) AppleWebKit/537.36 (KHTML, like Gecko) Chrome/{CHROME_MAJOR}.0.0.0 Mobile Safari/537.36'',
        os_platform = ''Linux armv81'', os_ch_platform = ''Android'', os_ch_platform_version = ''10.0.0'', os_ch_architecture = [],
        os_ch_bitness = []\<rparr>,
      pe_gpu = \<lparr>gp_webgl_vendor = ''ARM'', gp_webgl_renderer = ''Mali-G76'', gp_webgl_params = [], gp_webgl_extensions = [],
        gp_webgl1_extensions = [], gp_webgl2_extensions = [], gp_shader_precision = [], gp_webgpu = None\<rparr>,
      pe_screen = \<lparr>sn_width = 360, sn_height = 780, sn_avail_width = 360, sn_avail_height = 780, sn_color_depth = 24,
        sn_device_pixel_ratio = 3, sn_avail_top = None\<rparr>,
      pe_chrome_metrics = \<lparr>cm_outer_minus_inner_height = 0, cm_outer_minus_inner_width = 0, cm_scrollbar_width = 0\<rparr>,
      pe_cpu = \<lparr>cp_cores = 8, cp_model = None\<rparr>, pe_memory_gb = 8, pe_max_touch_points = 5,
      pe_fonts = [''Roboto''], pe_audio = \<lparr>au_sample_rate = 48000, au_base_latency = 1 / 100, au_output_latency = 0\<rparr>,
      pe_voices = [], pe_media_devices = [],
      pe_mobile = Some \<lparr>mo_model = ''ELE-L29'', mo_form_factor = ''phone'', mo_connection = ''cellular'', mo_voices = []\<rparr>\<rparr>"

lemma round_half_up_numeral: "round_half_up (numeral n) = numeral n"
proof -
  have "\<lfloor>numeral n + 1 / 2 :: rat\<rfloor> = numeral n" by (simp add: floor_eq_iff)
  then show ?thesis by (simp only: round_half_up_def of_int_numeral)
qed

lemma demo_phone_valid: "validate exact_env demo_phone = []"
  by (simp add: validate_def validate_mobile_def demo_phone_def exact_env_def Let_def is_android_def audio_sample_rates_def
      android_platforms_def android_gpu_families_def desktop_only_fonts_def fractional_pixels_def round_half_up_numeral trim_graphic graphic_def)

end
