(* ===== verification/Overrides.thy ===== *)
theory Overrides
  imports Persona Locale
begin

text \<open>
  What a profile changes of its persona (\<open>shared-rs/src/overrides.rs\<close>): the values a picker offers, and
  the persona with the pinned fields replaced, checked as a whole.
\<close>

datatype canvas_mode = Canvas_Noise | Canvas_Real

record screen_override =
  so_width :: nat
  so_height :: nat
  so_device_pixel_ratio :: f64

record machine_overrides =
  ov_ui_locale :: "str option"
  ov_screen :: "screen_override option"
  ov_cores :: "nat option"
  ov_memory_gb :: "nat option"
  ov_gpu :: "str option"
  ov_geolocation :: "(f64 \<times> f64) option"
  ov_canvas :: "canvas_mode option"

definition no_overrides :: machine_overrides where
  "no_overrides = \<lparr>ov_ui_locale = None, ov_screen = None, ov_cores = None, ov_memory_gb = None, ov_gpu = None,
     ov_geolocation = None, ov_canvas = None\<rparr>"

text \<open>What comes from the exit and the profile, not from the device.\<close>

record profile_context =
  pc_timezone :: str
  pc_languages :: "str list"
  pc_ui_locale :: str
  pc_geolocation :: "(f64 \<times> f64) option"
  pc_chrome_major :: nat
  pc_chrome_full_version :: str

section \<open>What a picker offers\<close>

definition mac_screens :: "(nat \<times> nat) list" where
  "mac_screens = [(1280, 800), (1440, 900), (1470, 956), (1512, 982), (1680, 1050), (1710, 1112), (1728, 1117), (1920, 1080), (2560, 1440)]"

definition windows_screens :: "(nat \<times> nat) list" where
  "windows_screens =
     [(1280, 720), (1280, 1024), (1366, 768), (1440, 900), (1536, 864), (1600, 900), (1680, 1050), (1920, 1080), (1920, 1200),
      (2560, 1080), (2560, 1440), (3440, 1440), (3840, 2160)]"

definition mac_dpr :: "f64 list" where
  "mac_dpr = [1, 2]"

definition windows_dpr :: "f64 list" where
  "windows_dpr = [1, 5/4, 3/2, 7/4, 2]"

definition core_counts :: "nat list" where
  "core_counts = [2, 4, 6, 8, 10, 12, 14, 16, 20, 24, 32]"

definition memory_sizes :: "nat list" where
  "memory_sizes = [2, 4, 8, 16, 32]"

record override_options =
  oo_screens :: "(nat \<times> nat) list"
  oo_device_pixel_ratios :: "f64 list"
  oo_cores :: "nat list"
  oo_memory_gb :: "nat list"
  oo_gpus :: "(str \<times> str) list"
  oo_ui_locales :: "str list"

definition gpus_of :: "persona \<Rightarrow> persona list \<Rightarrow> (str \<times> str) list" where
  "gpus_of p catalogue =
     fold (\<lambda>q gs. if list_ex (\<lambda>g. snd g = gp_webgl_renderer (pe_gpu q)) gs then gs
                 else gs @ [(pe_id q, gp_webgl_renderer (pe_gpu q))])
       (List.filter (\<lambda>q. os_name (pe_os q) = os_name (pe_os p)) catalogue) []"

definition options_for :: "persona \<Rightarrow> persona list \<Rightarrow> override_options" where
  "options_for p catalogue =
     (let mac = (os_name (pe_os p) = ''macOS''); sn = pe_screen p
      in \<lparr>oo_screens = (if is_android p then [(sn_width sn, sn_height sn)] else if mac then mac_screens else windows_screens),
          oo_device_pixel_ratios = (if is_android p then [sn_device_pixel_ratio sn] else if mac then mac_dpr else windows_dpr),
          oo_cores = core_counts,
          oo_memory_gb = List.filter (\<lambda>m. \<not> is_android p \<or> m \<le> 8) memory_sizes,
          oo_gpus = sort_key snd (gpus_of p catalogue),
          oo_ui_locales = shipped_ui_locales\<rparr>)"

section \<open>A persona as a profile presents it\<close>

definition apply_context :: "machine_overrides \<Rightarrow> profile_context \<Rightarrow> profile_context" where
  "apply_context ov ctx =
     ctx\<lparr>pc_ui_locale := (case ov_ui_locale ov of Some ui \<Rightarrow> ui | None \<Rightarrow> pc_ui_locale ctx),
         pc_geolocation := (case ov_geolocation ov of Some g \<Rightarrow> Some g | None \<Rightarrow> pc_geolocation ctx)\<rparr>"

definition apply_gpu :: "machine_overrides \<Rightarrow> persona \<Rightarrow> persona list \<Rightarrow> persona \<times> str list" where
  "apply_gpu ov base catalogue =
     (case ov_gpu ov of
        None \<Rightarrow> (base, [])
      | Some donor_id \<Rightarrow>
          (case List.find (\<lambda>d. pe_id d = donor_id) catalogue of
             None \<Rightarrow> (base, [''no machine to take a GPU from''])
           | Some d \<Rightarrow>
               if os_name (pe_os d) \<noteq> os_name (pe_os base) then (base, [''the GPU is of another system''])
               else (base\<lparr>pe_gpu := pe_gpu d\<rparr>, [])))"

definition resized :: "screen_override \<Rightarrow> persona_screen \<Rightarrow> persona_screen" where
  "resized s sn =
     sn\<lparr>sn_width := so_width s, sn_height := so_height s,
        sn_avail_width := so_width s - (sn_width sn - sn_avail_width sn),
        sn_avail_height := so_height s - (sn_height sn - sn_avail_height sn),
        sn_device_pixel_ratio := so_device_pixel_ratio s\<rparr>"

definition apply_screen :: "machine_env \<Rightarrow> machine_overrides \<Rightarrow> persona \<Rightarrow> persona \<Rightarrow> persona \<times> str list" where
  "apply_screen E ov base p =
     (case ov_screen ov of
        None \<Rightarrow> (p, [])
      | Some s \<Rightarrow>
          if is_android base then
            (p, err ((so_width s, so_height s) \<noteq> (sn_width (pe_screen base), sn_height (pe_screen base))
                   \<or> rounded E (1 / 1000000000) < \<bar>rounded E (so_device_pixel_ratio s - sn_device_pixel_ratio (pe_screen base))\<bar>)
                ''the screen comes with the phone'')
          else if \<not> (640 \<le> so_width s \<and> so_width s \<le> 7680) \<or> \<not> (480 \<le> so_height s \<and> so_height s \<le> 4320)
          then (p, [''not a monitor''])
          else (p\<lparr>pe_screen := resized s (pe_screen base)\<rparr>, []))"

definition apply_overrides :: "machine_env \<Rightarrow> machine_overrides \<Rightarrow> persona \<Rightarrow> persona list \<Rightarrow> str list + persona" where
  "apply_overrides E ov base catalogue =
     (let (p1, e1) = apply_gpu ov base catalogue;
          (p2, e2) = apply_screen E ov base p1;
          p3 = p2\<lparr>pe_cpu := (case ov_cores ov of Some n \<Rightarrow> (pe_cpu p2)\<lparr>cp_cores := n\<rparr> | None \<Rightarrow> pe_cpu p2),
                  pe_memory_gb := (case ov_memory_gb ov of Some m \<Rightarrow> m | None \<Rightarrow> pe_memory_gb p2)\<rparr>;
          e3 = (case ov_ui_locale ov of Some ui \<Rightarrow> err (\<not> is_shipped_ui_locale ui) ''not a language of the interface'' | None \<Rightarrow> []);
          e4 = (case ov_geolocation ov of
                  Some (lat, lng) \<Rightarrow> err (\<not> (-90 \<le> lat \<and> lat \<le> 90) \<or> \<not> (-180 \<le> lng \<and> lng \<le> 180)) ''not a place on Earth''
                | None \<Rightarrow> []);
          errs = e1 @ e2 @ e3 @ e4 @ validate E p3
      in if errs = [] then Inr p3 else Inl errs)"

section \<open>What a pinned machine still is\<close>

lemma err_Nil [simp]: "err b e = [] \<longleftrightarrow> \<not> b"
  by simp

text \<open>
  C13. Whatever a profile pins, the machine it presents is checked as a whole and is still the persona's:
  its system, user agent, fonts, sound and handset are untouched, its graphics are the persona's or come
  whole from one machine of the same system, and the language and place pinned with it are real ones.
\<close>

theorem a_pinned_machine_is_a_machine:
  assumes "apply_overrides E ov base catalogue = Inr p"
  shows "validate E p = [] \<and> pe_os p = pe_os base \<and> pe_id p = pe_id base \<and> pe_fonts p = pe_fonts base
    \<and> pe_audio p = pe_audio base \<and> pe_mobile p = pe_mobile base \<and> pe_voices p = pe_voices base
    \<and> pe_chrome_metrics p = pe_chrome_metrics base \<and> pe_max_touch_points p = pe_max_touch_points base
    \<and> (pe_gpu p = pe_gpu base \<or> (\<exists>d \<in> set catalogue. os_name (pe_os d) = os_name (pe_os base) \<and> pe_gpu p = pe_gpu d))
    \<and> (is_android base \<longrightarrow> pe_screen p = pe_screen base)
    \<and> is_shipped_ui_locale (pc_ui_locale (apply_context ov (ctx\<lparr>pc_ui_locale := ui_locale_for None\<rparr>)))"
proof -
  obtain p1 e1 where g: "apply_gpu ov base catalogue = (p1, e1)" by fastforce
  obtain p2 e2 where s: "apply_screen E ov base p1 = (p2, e2)" by fastforce
  have none: "e1 = []" "e2 = []" "ov_ui_locale ov = Some ui \<Longrightarrow> is_shipped_ui_locale ui" for ui
    using assms by (auto simp: apply_overrides_def g s Let_def split: if_splits)
  have p: "p = p2\<lparr>pe_cpu := (case ov_cores ov of Some n \<Rightarrow> (pe_cpu p2)\<lparr>cp_cores := n\<rparr> | None \<Rightarrow> pe_cpu p2),
                  pe_memory_gb := (case ov_memory_gb ov of Some m \<Rightarrow> m | None \<Rightarrow> pe_memory_gb p2)\<rparr>" and "validate E p = []"
    using assms by (auto simp: apply_overrides_def g s Let_def split: if_splits)
  have "p1 = base \<or> (\<exists>d \<in> set catalogue. os_name (pe_os d) = os_name (pe_os base) \<and> p1 = base\<lparr>pe_gpu := pe_gpu d\<rparr>)"
    using g none(1) by (auto simp: apply_gpu_def find_Some_iff split: option.splits if_splits)
  moreover have "p2 = p1 \<or> (\<not> is_android base \<and> (\<exists>sn. p2 = p1\<lparr>pe_screen := sn\<rparr>))"
    using s none(2) by (auto simp: apply_screen_def split: option.splits if_splits)
  moreover have "is_shipped_ui_locale (ui_locale_for None)" using ui_locale_shipped [of None] by (auto simp: shipped_iff)
  ultimately show ?thesis using none(3) \<open>validate E p = []\<close>
    by (auto simp: p apply_context_def split: option.split)
qed

text \<open>A phone that takes its memory and its place from the profile.\<close>

theorem a_pinned_machine_is_a_machine_witness:
  "\<exists>p. apply_overrides exact_env (no_overrides\<lparr>ov_memory_gb := Some 4, ov_geolocation := Some (52, 13)\<rparr>) demo_phone [demo_phone] = Inr p
     \<and> pe_memory_gb p = 4 \<and> pe_screen p = pe_screen demo_phone"
proof -
  let ?ov = "no_overrides\<lparr>ov_memory_gb := Some 4, ov_geolocation := Some (52, 13)\<rparr>" and ?p = "demo_phone\<lparr>pe_memory_gb := 4\<rparr>"
  have "validate exact_env ?p = []"
    by (simp add: validate_def validate_mobile_def demo_phone_def exact_env_def Let_def is_android_def audio_sample_rates_def
        android_platforms_def android_gpu_families_def desktop_only_fonts_def fractional_pixels_def round_half_up_numeral trim_graphic graphic_def)
  then have "apply_overrides exact_env ?ov demo_phone [demo_phone] = Inr ?p"
    by (simp add: apply_overrides_def apply_gpu_def apply_screen_def no_overrides_def)
  from a_pinned_machine_is_a_machine [OF this] this show ?thesis by (auto simp: demo_phone_def is_android_def)
qed

text \<open>Two values a picker offers for a Windows machine and no such machine has: a screen of 1707 and a half pixels.\<close>

lemma the_picker_offers_half_a_pixel:
  assumes "os_name (pe_os p) = ''Windows''" and "\<And>x. rounded E x = x"
    and "ov_screen ov = Some \<lparr>so_width = 1366, so_height = 768, so_device_pixel_ratio = 5 / 4\<rparr>"
  shows "(1366, 768) \<in> set (oo_screens (options_for p catalogue)) \<and> 5 / 4 \<in> set (oo_device_pixel_ratios (options_for p catalogue))
    \<and> (\<exists>errs. apply_overrides E ov p catalogue = Inl errs)"
proof -
  have offered: "(1366, 768) \<in> set (oo_screens (options_for p catalogue))" "5 / 4 \<in> set (oo_device_pixel_ratios (options_for p catalogue))"
    using assms(1) by (simp_all add: options_for_def Let_def is_android_def windows_screens_def windows_dpr_def)
  have "\<exists>errs. apply_overrides E ov p catalogue = Inl errs"
  proof (rule ccontr)
    assume "\<not> ?thesis"
    then obtain q where q: "apply_overrides E ov p catalogue = Inr q" by (cases "apply_overrides E ov p catalogue") auto
    then have "validate E q = []" by (auto simp: apply_overrides_def Let_def split: prod.splits if_splits)
    then have whole: "\<not> fractional_pixels E (sn_width (pe_screen q)) (sn_device_pixel_ratio (pe_screen q))"
      by (simp add: validate_def Let_def)
    have w: "sn_width (pe_screen q) = 1366" "sn_device_pixel_ratio (pe_screen q) = 5 / 4"
      using q assms(1,3) by (auto simp: apply_overrides_def Let_def apply_screen_def is_android_def resized_def split: prod.splits if_splits)
    have "fractional_pixels E 1366 (5 / 4)"
    proof -
      have "\<lfloor>1707 + 1 / 2 + 1 / 2 :: rat\<rfloor> = 1708" by simp
      then have "round_half_up (3415 / 2) = 1708" by (simp add: round_half_up_def)
      then show ?thesis by (simp add: fractional_pixels_def assms(2))
    qed
    then show False using whole unfolding w by simp
  qed
  then show ?thesis using offered by blast
qed

end
