(* ===== verification/Core_Config.thy ===== *)
theory Core_Config
  imports Overrides "HOL-Library.AList"
begin

text \<open>
  The configuration the patched browser reads (\<open>derive_core_config\<close> of \<open>persona.rs\<close>, \<open>apply_config\<close> of
  \<open>overrides.rs\<close>) and the check that refuses to launch with an incomplete one (\<open>fingerprint.rs\<close>). An
  object is an association list; the code fills it key by key, here it is written in one piece with
  the optional branches in place.
\<close>

section \<open>Objects\<close>

fun get_key :: "str \<Rightarrow> json \<Rightarrow> json option" where
  "get_key k (JObj o') = map_of o' k"
| "get_key k _ = None"

definition lookup :: "json \<Rightarrow> str \<Rightarrow> json option" where
  "lookup config path =
     (case fold (\<lambda>part node. Option.bind node (get_key part)) (split_on (CHR ''.'') path) (Some config) of
        Some JNull \<Rightarrow> None | r \<Rightarrow> r)"

fun as_str :: "json \<Rightarrow> str option" where
  "as_str (JStr s) = Some s"
| "as_str _ = None"

definition modify_obj :: "str \<Rightarrow> ((str \<times> json) list \<Rightarrow> (str \<times> json) list) \<Rightarrow> json \<Rightarrow> json" where
  "modify_obj k f config =
     (case config of
        JObj o' \<Rightarrow> (case map_of o' k of Some (JObj n) \<Rightarrow> JObj (AList.update k (JObj (f n)) o') | _ \<Rightarrow> config)
      | _ \<Rightarrow> config)"

definition num :: "nat \<Rightarrow> json" where
  "num n = JNum (of_nat n)"

definition strs :: "str list \<Rightarrow> json" where
  "strs ss = JArr (map JStr ss)"

abbreviation opt :: "bool \<Rightarrow> str \<Rightarrow> json \<Rightarrow> (str \<times> json) list" where
  "opt b k v \<equiv> if b then [(k, v)] else []"

section \<open>Deriving a configuration\<close>

text \<open>The levels of \<open>VERTEX_SHADER.LOW_FLOAT\<close>.\<close>

definition precision_json :: "(str \<times> str) list \<Rightarrow> (str \<times> json) list" where
  "precision_json sp =
     fold (\<lambda>(key, value) out.
         case split_once (CHR ''.'') key of
           None \<Rightarrow> out
         | Some (shader, kind) \<Rightarrow>
             AList.update shader (JObj (AList.update kind (JStr value)
               (case map_of out shader of Some (JObj n) \<Rightarrow> n | _ \<Rightarrow> []))) out) sp []"

definition webgl_params_json :: "persona_gpu \<Rightarrow> (str \<times> json) list" where
  "webgl_params_json g =
     AList.update ''UNMASKED_RENDERER_WEBGL'' (JStr (gp_webgl_renderer g))
       (AList.update ''UNMASKED_VENDOR_WEBGL'' (JStr (gp_webgl_vendor g))
         (AList.update ''RENDERER'' (JStr ''WebKit WebGL'')
           (AList.update ''VENDOR'' (JStr ''WebKit'') (gp_webgl_params g))))"

definition webgpu_json :: "persona_webgpu \<Rightarrow> json" where
  "webgpu_json w =
     JObj [(''vendor'', JStr (wg_vendor w)), (''architecture'', JStr (wg_architecture w)), (''device'', JStr (wg_device w)),
           (''description'', JStr (wg_description w)), (''limits'', JObj (map (\<lambda>(k, v). (k, JNum v)) (wg_limits w))),
           (''features'', strs (wg_features w))]"

definition gpu_json :: "persona_gpu \<Rightarrow> json" where
  "gpu_json g =
     JObj ([(''webglParams'', JObj (webgl_params_json g)), (''webglExtensions'', strs (gp_webgl_extensions g))]
       @ opt (gp_webgl1_extensions g \<noteq> []) ''webgl1Extensions'' (strs (gp_webgl1_extensions g))
       @ opt (gp_webgl2_extensions g \<noteq> []) ''webgl2Extensions'' (strs (gp_webgl2_extensions g))
       @ opt (gp_shader_precision g \<noteq> []) ''shaderPrecision'' (JObj (precision_json (gp_shader_precision g)))
       @ (case gp_webgpu g of None \<Rightarrow> [] | Some w \<Rightarrow> [(''webgpu'', webgpu_json w)]))"

definition mobile_voices :: "persona \<Rightarrow> str list" where
  "mobile_voices p = (case pe_mobile p of None \<Rightarrow> [] | Some m \<Rightarrow> mo_voices m)"

definition stream :: "u64 \<Rightarrow> str \<Rightarrow> json" where
  "stream seed purpose = num (unat (sub_seed seed purpose))"

text \<open>The branches that not every machine has.\<close>

definition speech_branch :: "persona \<Rightarrow> (str \<times> json) list" where
  "speech_branch p =
     opt (pe_voices p \<noteq> [] \<or> mobile_voices p \<noteq> []) ''speech''
       (JObj (opt (pe_voices p \<noteq> []) ''voices'' (strs (pe_voices p))
            @ opt (mobile_voices p \<noteq> []) ''androidVoices'' (strs (mobile_voices p))))"

definition devices_branch :: "persona \<Rightarrow> (str \<times> json) list" where
  "devices_branch p =
     (let count = (\<lambda>kind. num (length (List.filter (\<lambda>d. d = kind) (pe_media_devices p))))
      in opt (pe_media_devices p \<noteq> []) ''mediaDevices''
           (JObj [(''audioInputCount'', count ''audioinput''), (''audioOutputCount'', count ''audiooutput''),
                  (''videoInputCount'', count ''videoinput'')]))"

definition place_branch :: "profile_context \<Rightarrow> (str \<times> json) list" where
  "place_branch ctx =
     (case pc_geolocation ctx of
        None \<Rightarrow> []
      | Some (lat, lng) \<Rightarrow> [(''geolocation'', JObj [(''latitude'', JNum lat), (''longitude'', JNum lng), (''accuracy'', JNum 20000)])])"

definition handset_branch :: "u64 \<Rightarrow> persona \<Rightarrow> (str \<times> json) list" where
  "handset_branch seed p =
     (case pe_mobile p of
        None \<Rightarrow> []
      | Some m \<Rightarrow> [(''mobile'', JObj [(''enabled'', JBool True), (''formFactor'', JStr (mo_form_factor m)),
            (''connectionType'', JStr (mo_connection m)), (''touchSeed'', stream seed ''touch'')])])"

definition derive_core_config :: "persona \<Rightarrow> u64 \<Rightarrow> profile_context \<Rightarrow> json" where
  "derive_core_config p seed ctx =
     (let sn = pe_screen p; major = show_nat (pc_chrome_major ctx)
      in JObj (
       [(''schema_version'', num 1),
        (''navigator'', JObj
          [(''userAgent'', JStr (replace_str ''{CHROME_MAJOR}'' major (os_user_agent_template (pe_os p)))),
           (''platform'', JStr (os_platform (pe_os p))), (''languages'', strs (pc_languages ctx)),
           (''hardwareConcurrency'', num (cp_cores (pe_cpu p))), (''deviceMemory'', num (pe_memory_gb p)),
           (''maxTouchPoints'', num (pe_max_touch_points p))]),
        (''clientHints'', JObj
          [(''brands'', strs (chrome_brand_list (pc_chrome_major ctx) major False)),
           (''fullVersionList'', strs (chrome_brand_list (pc_chrome_major ctx) (pc_chrome_full_version ctx) True)),
           (''platform'', JStr (os_ch_platform (pe_os p))), (''platformVersion'', JStr (os_ch_platform_version (pe_os p))),
           (''architecture'', JStr (os_ch_architecture (pe_os p))), (''bitness'', JStr (os_ch_bitness (pe_os p))),
           (''model'', JStr (case pe_mobile p of None \<Rightarrow> [] | Some m \<Rightarrow> mo_model m)), (''mobile'', JBool (is_phone p)),
           (''wow64'', JBool False), (''fullVersion'', JStr (pc_chrome_full_version ctx)),
           (''formFactors'', strs (if is_phone p then [''Mobile''] else [''Desktop'']))]),
        (''screen'', JObj
          [(''width'', num (sn_width sn)), (''height'', num (sn_height sn)), (''availWidth'', num (sn_avail_width sn)),
           (''availHeight'', num (sn_avail_height sn)), (''availLeft'', num 0),
           (''availTop'', num (case sn_avail_top sn of Some t \<Rightarrow> t | None \<Rightarrow> if os_name (pe_os p) = ''macOS'' then 33 else 0)),
           (''colorDepth'', num (sn_color_depth sn)), (''devicePixelRatio'', JNum (sn_device_pixel_ratio sn)),
           (''chromeHeightDelta'', num (cm_outer_minus_inner_height (pe_chrome_metrics p))),
           (''chromeWidthDelta'', num (cm_outer_minus_inner_width (pe_chrome_metrics p))),
           (''scrollbarWidth'', num (cm_scrollbar_width (pe_chrome_metrics p)))]),
        (''gpu'', gpu_json (pe_gpu p)),
        (''audio'', JObj [(''sampleRate'', num (au_sample_rate (pe_audio p))), (''baseLatency'', JNum (au_base_latency (pe_audio p))),
           (''outputLatency'', JNum (au_output_latency (pe_audio p)))]),
        (''fonts'', strs (pe_fonts p)),
        (''fontsHidden'', strs (hidden (os_name (pe_os p)) (pe_fonts p))),
        (''locale'', JObj [(''timezone'', JStr (pc_timezone ctx)), (''locale'', JStr (pc_ui_locale ctx))]),
        (''noise'', JObj [(''canvasSeed'', stream seed ''canvas''), (''audioSeed'', stream seed ''audio''), (''clientRects'', JStr ''real''),
           (''deviceIdSalt'', stream seed ''deviceId'')])]
       @ speech_branch p @ devices_branch p
       @ [(''permissions'', JObj [(''notifications'', JStr ''prompt''), (''geolocation'', JStr ''prompt'')]),
          (''engine'', JObj [(''jsHeapSizeLimit'',
             num (if is_android p then js_heap_limit_android (pe_memory_gb p) else js_heap_limit (pe_memory_gb p)))])]
       @ place_branch ctx
       @ [(''automation'', JObj [(''hideTraces'', JBool True)]),
          (''webrtc'', JObj [(''ipHandlingPolicy'', JStr ''disable_non_proxied_udp'')]),
          (''battery'', JObj [(''charging'', JBool True), (''level'', JNum 1), (''chargingTime'', JNum 0), (''dischargingTime'', JNum (- 1))])]
       @ handset_branch seed p))"

section \<open>What a profile changes of it\<close>

definition monitor_keys :: "str list" where
  "monitor_keys = [''width'', ''height'', ''availWidth'', ''availHeight'', ''availLeft'', ''availTop'', ''devicePixelRatio'']"

definition real_canvas :: "json \<Rightarrow> json" where
  "real_canvas config = modify_obj ''noise'' (\<lambda>n. AList.update ''canvas'' (JStr ''real'') (AList.delete ''canvasSeed'' n)) config"

definition real_screen :: "json \<Rightarrow> json" where
  "real_screen config = modify_obj ''screen'' (\<lambda>s. AList.update ''size'' (JStr ''real'') (fold AList.delete monitor_keys s)) config"

definition apply_config :: "machine_overrides \<Rightarrow> json \<Rightarrow> json" where
  "apply_config ov config =
     (let c1 = (if ov_canvas ov = Some Canvas_Real then real_canvas config else config);
          handset = (case get_key ''mobile'' c1 of None \<Rightarrow> False | Some v \<Rightarrow> v \<noteq> JNull)
      in if ov_screen ov = None \<and> \<not> handset then real_screen c1 else c1)"

section \<open>What the browser reads\<close>

definition core_config_keys :: "str list" where
  "core_config_keys =
    [''audio.baseLatency'', ''audio.outputLatency'', ''automation.hideTraces'', ''battery.charging'', ''battery.chargingTime'',
     ''battery.dischargingTime'', ''battery.level'', ''clientHints.formFactors'', ''clientHints.mobile'', ''clientHints.wow64'',
     ''engine.jsHeapSizeLimit'', ''fonts'', ''fontsHidden'', ''geolocation.accuracy'', ''geolocation.latitude'', ''geolocation.longitude'',
     ''gpu.shaderPrecision.'', ''gpu.webgl1Extensions'', ''gpu.webgl2Extensions'', ''gpu.webglExtensions'', ''gpu.webglParams.'',
     ''gpu.webgpu.architecture'', ''gpu.webgpu.description'', ''gpu.webgpu.device'', ''gpu.webgpu.features'', ''gpu.webgpu.limits.'',
     ''gpu.webgpu.vendor'', ''locale.locale'', ''locale.timezone'', ''mediaDevices.'', ''mobile.connectionType'', ''mobile.enabled'',
     ''mobile.touchSeed'', ''navigator.deviceMemory'', ''navigator.hardwareConcurrency'', ''navigator.languages'', ''navigator.maxTouchPoints'',
     ''navigator.platform'', ''navigator.userAgent'', ''noise.audioSeed'', ''noise.canvasSeed'', ''noise.clientRectsSeed'', ''permissions.'',
     ''permissions.notifications'', ''screen.availLeft'', ''screen.availTop'', ''screen.chromeHeightDelta'', ''screen.chromeWidthDelta'',
     ''screen.colorDepth'', ''screen.devicePixelRatio'', ''screen.height'', ''screen.scrollbarWidth'', ''screen.width'',
     ''speech.androidVoices'', ''speech.voices'', ''webrtc.ipHandlingPolicy'', ''window.profileName'']"

definition optional_branches :: "(str \<times> str list) list" where
  "optional_branches =
    [
     (''gpu.webgpu'', [''gpu.webgpu.architecture'', ''gpu.webgpu.description'', ''gpu.webgpu.device'', ''gpu.webgpu.features'', ''gpu.webgpu.limits.'', ''gpu.webgpu.vendor'']),
     (''speech'', [''speech.voices'']), (''gpu.webgl1Extensions'', [''gpu.webgl1Extensions'']),
     (''gpu.webgl2Extensions'', [''gpu.webgl2Extensions'']), (''gpu.shaderPrecision'', [''gpu.shaderPrecision.'']),
     (''speech.androidVoices'', [''speech.androidVoices'']), (''mobile'', [''mobile.connectionType'', ''mobile.enabled'', ''mobile.touchSeed'']),
     (''mediaDevices'', [''mediaDevices.'']), (''geolocation'', [''geolocation.accuracy'', ''geolocation.latitude'', ''geolocation.longitude'']),
     (''window'', [''window.profileName''])]"

definition says_real :: "json \<Rightarrow> str \<Rightarrow> bool" where
  "says_real config path \<longleftrightarrow> Option.bind (lookup config path) as_str = Some ''real''"

definition skipped_keys :: "json \<Rightarrow> str list" where
  "skipped_keys config = concat (map snd (List.filter (\<lambda>(branch, _). lookup config branch = None) optional_branches))"

definition answers :: "json \<Rightarrow> str \<Rightarrow> bool" where
  "answers config path \<longleftrightarrow>
     (case strip_suffix ''.'' path of
        Some pre \<Rightarrow> (case lookup config pre of Some (JObj o') \<Rightarrow> o' \<noteq> [] | _ \<Rightarrow> False)
      | None \<Rightarrow> lookup config path \<noteq> None)"

definition check_core_config :: "json \<Rightarrow> str list" where
  "check_core_config config =
     List.filter (\<lambda>path.
         path \<notin> set (skipped_keys config)
       \<and> \<not> (says_real config ''noise.canvas'' \<and> path = ''noise.canvasSeed'')
       \<and> \<not> (says_real config ''noise.clientRects'' \<and> path = ''noise.clientRectsSeed'')
       \<and> \<not> (says_real config ''screen.size'' \<and> list_ex (\<lambda>k. strip_prefix ''screen.'' path = Some k) monitor_keys)
       \<and> \<not> answers config path) core_config_keys"

section \<open>Reading what was written\<close>

lemma get_key_modify:
  "get_key k (modify_obj k' f c) =
     (if k = k' then (case get_key k' c of Some (JObj n) \<Rightarrow> Some (JObj (f n)) | r \<Rightarrow> r) else get_key k c)"
  by (cases c) (auto simp: modify_obj_def update_conv split: option.split json.split)

lemma get_key_apply:
  "get_key k (apply_config ov c) =
     (if k = ''noise'' \<and> ov_canvas ov = Some Canvas_Real then get_key k (real_canvas c)
      else if k = ''screen'' \<and> ov_screen ov = None \<and> (get_key ''mobile'' c = None \<or> get_key ''mobile'' c = Some JNull) then get_key k (real_screen c)
      else get_key k c)"
  by (auto simp: apply_config_def Let_def real_canvas_def real_screen_def get_key_modify split: option.splits)

definition fulfilled :: "json \<Rightarrow> str \<Rightarrow> bool" where
  "fulfilled c path \<longleftrightarrow>
     (\<exists>(branch, keys) \<in> set optional_branches. lookup c branch = None \<and> path \<in> set keys)
   \<or> (says_real c ''noise.canvas'' \<and> path = ''noise.canvasSeed'')
   \<or> (says_real c ''noise.clientRects'' \<and> path = ''noise.clientRectsSeed'')
   \<or> (says_real c ''screen.size'' \<and> list_ex (\<lambda>k. strip_prefix ''screen.'' path = Some k) monitor_keys)
   \<or> answers c path"

lemma check_Nil: "check_core_config c = [] \<longleftrightarrow> list_all (fulfilled c) core_config_keys"
  by (auto simp: check_core_config_def filter_empty_conv list_all_iff fulfilled_def skipped_keys_def)

lemma num_not_null [simp]: "num n \<noteq> JNull" "strs ss \<noteq> JNull"
  by (simp_all add: num_def strs_def)

lemma stream_not_null [simp]: "stream seed k \<noteq> JNull"
  by (simp add: stream_def)

lemma branch_keys [simp]:
  "k \<noteq> ''speech'' \<Longrightarrow> map_of (speech_branch p) k = None" "k \<noteq> ''mediaDevices'' \<Longrightarrow> map_of (devices_branch p) k = None"
  "k \<noteq> ''geolocation'' \<Longrightarrow> map_of (place_branch ctx) k = None" "k \<noteq> ''mobile'' \<Longrightarrow> map_of (handset_branch seed p) k = None"
  by (auto simp: speech_branch_def devices_branch_def place_branch_def handset_branch_def Let_def split: option.split)

lemma derive_top:
  "get_key ''gpu'' (derive_core_config p seed ctx) = Some (gpu_json (pe_gpu p))"
  "get_key ''mobile'' (derive_core_config p seed ctx) = map_of (handset_branch seed p) ''mobile''"
  "get_key ''speech'' (derive_core_config p seed ctx) = map_of (speech_branch p) ''speech''"
  "get_key ''mediaDevices'' (derive_core_config p seed ctx) = map_of (devices_branch p) ''mediaDevices''"
  "get_key ''geolocation'' (derive_core_config p seed ctx) = map_of (place_branch ctx) ''geolocation''"
  "get_key ''window'' (derive_core_config p seed ctx) = None"
  by (simp_all add: derive_core_config_def Let_def map_add_def split: option.split)

end
