(* ===== verification/Core_Complete.thy ===== *)
theory Core_Complete
  imports Core_Config
begin

text \<open>
  The configuration a launch hands to the browser (\<open>launch\<close> of \<open>agent/src/ipc.rs\<close>) and when the check of
  \<open>fingerprint.rs\<close> lets it through: key by key, what was written is what is read.
\<close>

section \<open>Reading a key\<close>

definition window_named :: "str option \<Rightarrow> json \<Rightarrow> json" where
  "window_named name c =
     (case (name, c) of
        (Some n, JObj o') \<Rightarrow> JObj (AList.update ''window'' (JObj [(''profileName'', JStr n)]) o')
      | _ \<Rightarrow> c)"

lemma get_key_window:
  "get_key k (window_named name c) =
     (case (name, c) of (Some n, JObj _) \<Rightarrow> if k = ''window'' then Some (JObj [(''profileName'', JStr n)]) else get_key k c
      | _ \<Rightarrow> get_key k c)"
  by (auto simp: window_named_def update_conv split: option.split json.split)

text \<open>A key of a branch, and a branch, that are there and not null.\<close>

definition has_key :: "json \<Rightarrow> str \<Rightarrow> str \<Rightarrow> bool" where
  "has_key c a b \<longleftrightarrow> (case Option.bind (get_key a c) (get_key b) of None \<Rightarrow> False | Some v \<Rightarrow> v \<noteq> JNull)"

lemma strip_dot: "strip_suffix ''.'' s = (if s \<noteq> [] \<and> last s = CHR ''.'' then Some (butlast s) else None)"
proof (cases s rule: rev_cases)
  case (snoc u c)
  then show ?thesis by (simp add: strip_suffix_def)
qed (simp add: strip_suffix_def)

lemma lookup_two: "split_on (CHR ''.'') path = [a, b] \<Longrightarrow> lookup c path \<noteq> None \<longleftrightarrow> has_key c a b"
  by (auto simp: lookup_def has_key_def split: option.splits json.splits)

lemma answers_two:
  "split_on (CHR ''.'') path = [a, b] \<Longrightarrow> last path \<noteq> CHR ''.'' \<Longrightarrow> answers c path = has_key c a b"
  by (auto simp: answers_def strip_dot lookup_two [symmetric])

lemma answers_keys:
  "answers c ''audio.baseLatency'' = has_key c ''audio'' ''baseLatency''"
  "answers c ''audio.outputLatency'' = has_key c ''audio'' ''outputLatency''"
  "answers c ''automation.hideTraces'' = has_key c ''automation'' ''hideTraces''"
  "answers c ''battery.charging'' = has_key c ''battery'' ''charging''"
  "answers c ''battery.chargingTime'' = has_key c ''battery'' ''chargingTime''"
  "answers c ''battery.dischargingTime'' = has_key c ''battery'' ''dischargingTime''"
  "answers c ''battery.level'' = has_key c ''battery'' ''level''"
  "answers c ''clientHints.formFactors'' = has_key c ''clientHints'' ''formFactors''"
  "answers c ''clientHints.mobile'' = has_key c ''clientHints'' ''mobile''"
  "answers c ''clientHints.wow64'' = has_key c ''clientHints'' ''wow64''"
  "answers c ''engine.jsHeapSizeLimit'' = has_key c ''engine'' ''jsHeapSizeLimit''"
  "answers c ''geolocation.accuracy'' = has_key c ''geolocation'' ''accuracy''"
  "answers c ''geolocation.latitude'' = has_key c ''geolocation'' ''latitude''"
  "answers c ''geolocation.longitude'' = has_key c ''geolocation'' ''longitude''"
  "answers c ''gpu.webgl1Extensions'' = has_key c ''gpu'' ''webgl1Extensions''"
  "answers c ''gpu.webgl2Extensions'' = has_key c ''gpu'' ''webgl2Extensions''"
  "answers c ''gpu.webglExtensions'' = has_key c ''gpu'' ''webglExtensions''"
  "answers c ''locale.locale'' = has_key c ''locale'' ''locale''"
  "answers c ''locale.timezone'' = has_key c ''locale'' ''timezone''"
  "answers c ''mobile.connectionType'' = has_key c ''mobile'' ''connectionType''"
  "answers c ''mobile.enabled'' = has_key c ''mobile'' ''enabled''"
  "answers c ''mobile.touchSeed'' = has_key c ''mobile'' ''touchSeed''"
  "answers c ''navigator.deviceMemory'' = has_key c ''navigator'' ''deviceMemory''"
  "answers c ''navigator.hardwareConcurrency'' = has_key c ''navigator'' ''hardwareConcurrency''"
  "answers c ''navigator.languages'' = has_key c ''navigator'' ''languages''"
  "answers c ''navigator.maxTouchPoints'' = has_key c ''navigator'' ''maxTouchPoints''"
  "answers c ''navigator.platform'' = has_key c ''navigator'' ''platform''"
  "answers c ''navigator.userAgent'' = has_key c ''navigator'' ''userAgent''"
  "answers c ''noise.audioSeed'' = has_key c ''noise'' ''audioSeed''"
  "answers c ''noise.canvasSeed'' = has_key c ''noise'' ''canvasSeed''"
  "answers c ''noise.clientRectsSeed'' = has_key c ''noise'' ''clientRectsSeed''"
  "answers c ''permissions.notifications'' = has_key c ''permissions'' ''notifications''"
  "answers c ''screen.availLeft'' = has_key c ''screen'' ''availLeft''"
  "answers c ''screen.availTop'' = has_key c ''screen'' ''availTop''"
  "answers c ''screen.chromeHeightDelta'' = has_key c ''screen'' ''chromeHeightDelta''"
  "answers c ''screen.chromeWidthDelta'' = has_key c ''screen'' ''chromeWidthDelta''"
  "answers c ''screen.colorDepth'' = has_key c ''screen'' ''colorDepth''"
  "answers c ''screen.devicePixelRatio'' = has_key c ''screen'' ''devicePixelRatio''"
  "answers c ''screen.height'' = has_key c ''screen'' ''height''"
  "answers c ''screen.scrollbarWidth'' = has_key c ''screen'' ''scrollbarWidth''"
  "answers c ''screen.width'' = has_key c ''screen'' ''width''"
  "answers c ''speech.androidVoices'' = has_key c ''speech'' ''androidVoices''"
  "answers c ''speech.voices'' = has_key c ''speech'' ''voices''"
  "answers c ''webrtc.ipHandlingPolicy'' = has_key c ''webrtc'' ''ipHandlingPolicy''"
  "answers c ''window.profileName'' = has_key c ''window'' ''profileName''"
  by (rule answers_two; simp)+

lemma derived_keys:
  "has_key (derive_core_config p seed ctx) ''audio'' ''baseLatency''"
  "has_key (derive_core_config p seed ctx) ''audio'' ''outputLatency''"
  "has_key (derive_core_config p seed ctx) ''automation'' ''hideTraces''"
  "has_key (derive_core_config p seed ctx) ''battery'' ''charging''"
  "has_key (derive_core_config p seed ctx) ''battery'' ''chargingTime''"
  "has_key (derive_core_config p seed ctx) ''battery'' ''dischargingTime''"
  "has_key (derive_core_config p seed ctx) ''battery'' ''level''"
  "has_key (derive_core_config p seed ctx) ''clientHints'' ''formFactors''"
  "has_key (derive_core_config p seed ctx) ''clientHints'' ''mobile''"
  "has_key (derive_core_config p seed ctx) ''clientHints'' ''wow64''"
  "has_key (derive_core_config p seed ctx) ''engine'' ''jsHeapSizeLimit''"
  "has_key (derive_core_config p seed ctx) ''locale'' ''locale''"
  "has_key (derive_core_config p seed ctx) ''locale'' ''timezone''"
  "has_key (derive_core_config p seed ctx) ''navigator'' ''deviceMemory''"
  "has_key (derive_core_config p seed ctx) ''navigator'' ''hardwareConcurrency''"
  "has_key (derive_core_config p seed ctx) ''navigator'' ''languages''"
  "has_key (derive_core_config p seed ctx) ''navigator'' ''maxTouchPoints''"
  "has_key (derive_core_config p seed ctx) ''navigator'' ''platform''"
  "has_key (derive_core_config p seed ctx) ''navigator'' ''userAgent''"
  "has_key (derive_core_config p seed ctx) ''noise'' ''audioSeed''"
  "has_key (derive_core_config p seed ctx) ''noise'' ''canvasSeed''"
  "has_key (derive_core_config p seed ctx) ''permissions'' ''notifications''"
  "has_key (derive_core_config p seed ctx) ''screen'' ''availLeft''"
  "has_key (derive_core_config p seed ctx) ''screen'' ''availTop''"
  "has_key (derive_core_config p seed ctx) ''screen'' ''chromeHeightDelta''"
  "has_key (derive_core_config p seed ctx) ''screen'' ''chromeWidthDelta''"
  "has_key (derive_core_config p seed ctx) ''screen'' ''colorDepth''"
  "has_key (derive_core_config p seed ctx) ''screen'' ''devicePixelRatio''"
  "has_key (derive_core_config p seed ctx) ''screen'' ''height''"
  "has_key (derive_core_config p seed ctx) ''screen'' ''scrollbarWidth''"
  "has_key (derive_core_config p seed ctx) ''screen'' ''width''"
  "has_key (derive_core_config p seed ctx) ''webrtc'' ''ipHandlingPolicy''"
  by (simp_all add: has_key_def derive_core_config_def Let_def map_add_def)

section \<open>The configuration of a launch\<close>

definition launched :: "str option \<Rightarrow> machine_overrides \<Rightarrow> persona \<Rightarrow> u64 \<Rightarrow> profile_context \<Rightarrow> json" where
  "launched name ov p seed ctx = window_named name (apply_config ov (derive_core_config p seed ctx))"

lemma derive_obj: "\<exists>o'. derive_core_config p seed ctx = JObj o'"
  by (simp add: derive_core_config_def Let_def)

lemma modify_obj_obj: "\<exists>o'. modify_obj k f (JObj os) = JObj o'"
  by (auto simp: modify_obj_def split: option.split json.split)

lemma apply_obj: "\<exists>o'. apply_config ov (derive_core_config p seed ctx) = JObj o'"
proof -
  obtain d where d: "derive_core_config p seed ctx = JObj d" using derive_obj by blast
  obtain d1 where d1: "real_canvas (JObj d) = JObj d1" using modify_obj_obj unfolding real_canvas_def by blast
  obtain d2 where "real_screen (JObj d) = JObj d2" using modify_obj_obj unfolding real_screen_def by blast
  moreover obtain d3 where "real_screen (JObj d1) = JObj d3" using modify_obj_obj unfolding real_screen_def by blast
  ultimately show ?thesis by (auto simp: apply_config_def Let_def d d1)
qed

lemma launched_top:
  assumes "a \<noteq> ''noise''" and "a \<noteq> ''screen''" and "a \<noteq> ''window''"
  shows "get_key a (launched name ov p seed ctx) = get_key a (derive_core_config p seed ctx)"
proof -
  obtain d where "apply_config ov (derive_core_config p seed ctx) = JObj d" using apply_obj by blast
  then show ?thesis
    using get_key_apply [of a ov "derive_core_config p seed ctx"] assms
    by (auto simp: launched_def get_key_window split: option.split)
qed

definition noise_of :: "u64 \<Rightarrow> (str \<times> json) list" where
  "noise_of seed = [(''canvasSeed'', stream seed ''canvas''), (''audioSeed'', stream seed ''audio''), (''clientRects'', JStr ''real''),
     (''deviceIdSalt'', stream seed ''deviceId'')]"

definition takes_monitor :: "machine_overrides \<Rightarrow> persona \<Rightarrow> bool" where
  "takes_monitor ov p \<longleftrightarrow> ov_screen ov = None \<and> pe_mobile p = None"

lemma launched_noise:
  "get_key ''noise'' (launched name ov p seed ctx) = Some (JObj
     (if ov_canvas ov = Some Canvas_Real then AList.update ''canvas'' (JStr ''real'') (AList.delete ''canvasSeed'' (noise_of seed))
      else noise_of seed))"
proof -
  obtain d where "apply_config ov (derive_core_config p seed ctx) = JObj d" using apply_obj by blast
  moreover have "get_key ''noise'' (derive_core_config p seed ctx) = Some (JObj (noise_of seed))"
    by (simp add: derive_core_config_def noise_of_def Let_def map_add_def)
  ultimately show ?thesis
    using get_key_apply [of "''noise''" ov "derive_core_config p seed ctx"]
    by (auto simp: launched_def get_key_window real_canvas_def get_key_modify split: option.split)
qed

lemma launched_screen:
  "\<exists>s. get_key ''screen'' (derive_core_config p seed ctx) = Some (JObj s)
     \<and> get_key ''screen'' (launched name ov p seed ctx) = Some (JObj
         (if takes_monitor ov p then AList.update ''size'' (JStr ''real'') (fold AList.delete monitor_keys s) else s))"
proof -
  obtain d where "apply_config ov (derive_core_config p seed ctx) = JObj d" using apply_obj by blast
  moreover obtain s where s: "get_key ''screen'' (derive_core_config p seed ctx) = Some (JObj s)"
    by (simp add: derive_core_config_def Let_def map_add_def)
  moreover have "(get_key ''mobile'' (derive_core_config p seed ctx) = None \<or> get_key ''mobile'' (derive_core_config p seed ctx) = Some JNull)
      \<longleftrightarrow> pe_mobile p = None"
    by (auto simp: derive_top handset_branch_def split: option.split)
  ultimately show ?thesis
    using get_key_apply [of "''screen''" ov "derive_core_config p seed ctx"]
    by (auto simp: launched_def get_key_window real_screen_def get_key_modify takes_monitor_def split: option.split)
qed

lemma has_launched:
  assumes "a \<noteq> ''noise''" and "a \<noteq> ''screen''" and "a \<noteq> ''window''"
  shows "has_key (launched name ov p seed ctx) a b = has_key (derive_core_config p seed ctx) a b"
  by (simp add: has_key_def launched_top [OF assms])

lemma has_noise:
  "has_key (launched name ov p seed ctx) ''noise'' ''audioSeed''"
  "has_key (launched name ov p seed ctx) ''noise'' ''canvasSeed'' \<or> says_real (launched name ov p seed ctx) ''noise.canvas''"
  "says_real (launched name ov p seed ctx) ''noise.clientRects''"
  by (simp_all add: has_key_def says_real_def lookup_def launched_noise noise_of_def update_conv delete_conv')

lemma delete_all: "map_of (fold AList.delete ks s) k = (if k \<in> set ks then None else map_of s k)"
  by (induction ks arbitrary: s) (auto simp: delete_conv')

lemma has_screen:
  assumes "has_key (derive_core_config p seed ctx) ''screen'' k" and "k \<noteq> ''size''"
  shows "has_key (launched name ov p seed ctx) ''screen'' k
    \<or> (says_real (launched name ov p seed ctx) ''screen.size'' \<and> k \<in> set monitor_keys)"
proof -
  obtain s where s: "get_key ''screen'' (derive_core_config p seed ctx) = Some (JObj s)"
    "get_key ''screen'' (launched name ov p seed ctx) = Some (JObj
         (if takes_monitor ov p then AList.update ''size'' (JStr ''real'') (fold AList.delete monitor_keys s) else s))"
    using launched_screen by blast
  then have "takes_monitor ov p \<Longrightarrow> says_real (launched name ov p seed ctx) ''screen.size''"
    by (simp add: says_real_def lookup_def update_conv)
  then show ?thesis using assms s by (auto simp: has_key_def update_conv delete_all)
qed

lemma precision_nonempty:
  "precision_json sp \<noteq> [] \<longleftrightarrow> (\<exists>(k, v) \<in> set sp. CHR ''.'' \<in> set k)"
proof -
  define f where "f = (\<lambda>(key, value) out.
         case split_once (CHR ''.'') key of
           None \<Rightarrow> out
         | Some (shader, kind) \<Rightarrow>
             AList.update shader (JObj (AList.update kind (JStr value)
               (case map_of out shader of Some (JObj n) \<Rightarrow> n | _ \<Rightarrow> []))) out)"
  have upd: "AList.update k v xs \<noteq> []" for k v and xs :: "(str \<times> json) list"
    by (induction xs) auto
  have "fold f sp out \<noteq> [] \<longleftrightarrow> out \<noteq> [] \<or> (\<exists>(k, v) \<in> set sp. CHR ''.'' \<in> set k)" for out
  proof (induction sp arbitrary: out)
    case (Cons kv sp)
    obtain k v where [simp]: "kv = (k, v)" by fastforce
    have "f kv out \<noteq> [] \<longleftrightarrow> out \<noteq> [] \<or> CHR ''.'' \<in> set k"
      using upd by (auto simp: f_def split_once_None split_once_Some split: option.split)
    then show ?case using Cons.IH [of "f kv out"] by auto
  qed simp
  then show ?thesis by (simp add: precision_json_def f_def)
qed

lemma answers_prefix: "strip_suffix ''.'' path = Some pre \<Longrightarrow>
    answers c path = (case lookup c pre of Some (JObj o') \<Rightarrow> o' \<noteq> [] | _ \<Rightarrow> False)"
  by (simp add: answers_def)

text \<open>What the browser would miss: the limits of a graphics device, a precision without a dot in its name, voices of a handset alone.\<close>

definition has_everything :: "persona \<Rightarrow> bool" where
  "has_everything p \<longleftrightarrow>
     (case gp_webgpu (pe_gpu p) of None \<Rightarrow> True | Some w \<Rightarrow> wg_limits w \<noteq> [])
   \<and> (gp_shader_precision (pe_gpu p) = [] \<or> (\<exists>(k, v) \<in> set (gp_shader_precision (pe_gpu p)). CHR ''.'' \<in> set k))
   \<and> (mobile_voices p = [] \<or> pe_voices p \<noteq> [])"

lemma skipped_branch: "(b, ks) \<in> set optional_branches \<Longrightarrow> lookup c b = None \<Longrightarrow> path \<in> set ks \<Longrightarrow> fulfilled c path"
  by (auto simp: fulfilled_def)

lemma answered: "answers c path \<Longrightarrow> fulfilled c path"
  by (simp add: fulfilled_def)

lemma gpu_lookups:
  "get_key ''gpu'' (launched name ov p seed ctx) = Some (gpu_json (pe_gpu p))"
  by (simp add: launched_top derive_top)

lemma required_keys:
  "fulfilled (launched name ov p seed ctx) ''audio.baseLatency''"
  "fulfilled (launched name ov p seed ctx) ''audio.outputLatency''"
  "fulfilled (launched name ov p seed ctx) ''automation.hideTraces''"
  "fulfilled (launched name ov p seed ctx) ''battery.charging''"
  "fulfilled (launched name ov p seed ctx) ''battery.chargingTime''"
  "fulfilled (launched name ov p seed ctx) ''battery.dischargingTime''"
  "fulfilled (launched name ov p seed ctx) ''battery.level''"
  "fulfilled (launched name ov p seed ctx) ''clientHints.formFactors''"
  "fulfilled (launched name ov p seed ctx) ''clientHints.mobile''"
  "fulfilled (launched name ov p seed ctx) ''clientHints.wow64''"
  "fulfilled (launched name ov p seed ctx) ''engine.jsHeapSizeLimit''"
  "fulfilled (launched name ov p seed ctx) ''locale.locale''"
  "fulfilled (launched name ov p seed ctx) ''locale.timezone''"
  "fulfilled (launched name ov p seed ctx) ''navigator.deviceMemory''"
  "fulfilled (launched name ov p seed ctx) ''navigator.hardwareConcurrency''"
  "fulfilled (launched name ov p seed ctx) ''navigator.languages''"
  "fulfilled (launched name ov p seed ctx) ''navigator.maxTouchPoints''"
  "fulfilled (launched name ov p seed ctx) ''navigator.platform''"
  "fulfilled (launched name ov p seed ctx) ''navigator.userAgent''"
  "fulfilled (launched name ov p seed ctx) ''permissions.notifications''"
  "fulfilled (launched name ov p seed ctx) ''webrtc.ipHandlingPolicy''"
  by (rule answered, simp add: answers_keys has_launched derived_keys)+

lemma required_noise:
  "fulfilled (launched name ov p seed ctx) ''noise.audioSeed''" "fulfilled (launched name ov p seed ctx) ''noise.canvasSeed''"
  "fulfilled (launched name ov p seed ctx) ''noise.clientRectsSeed''"
  using has_noise [of name ov p seed ctx] by (auto simp: fulfilled_def answers_keys)

lemma required_screen:
  "fulfilled (launched name ov p seed ctx) ''screen.availLeft''"
  "fulfilled (launched name ov p seed ctx) ''screen.availTop''"
  "fulfilled (launched name ov p seed ctx) ''screen.chromeHeightDelta''"
  "fulfilled (launched name ov p seed ctx) ''screen.chromeWidthDelta''"
  "fulfilled (launched name ov p seed ctx) ''screen.colorDepth''"
  "fulfilled (launched name ov p seed ctx) ''screen.devicePixelRatio''"
  "fulfilled (launched name ov p seed ctx) ''screen.height''"
  "fulfilled (launched name ov p seed ctx) ''screen.scrollbarWidth''"
  "fulfilled (launched name ov p seed ctx) ''screen.width''"
  subgoal using has_screen [OF derived_keys(23), of name ov] by (auto simp: fulfilled_def answers_keys strip_prefix_def list_ex_iff)
  subgoal using has_screen [OF derived_keys(24), of name ov] by (auto simp: fulfilled_def answers_keys strip_prefix_def list_ex_iff)
  subgoal using has_screen [OF derived_keys(25), of name ov] by (auto simp: fulfilled_def answers_keys strip_prefix_def list_ex_iff)
  subgoal using has_screen [OF derived_keys(26), of name ov] by (auto simp: fulfilled_def answers_keys strip_prefix_def list_ex_iff)
  subgoal using has_screen [OF derived_keys(27), of name ov] by (auto simp: fulfilled_def answers_keys strip_prefix_def list_ex_iff)
  subgoal using has_screen [OF derived_keys(28), of name ov] by (auto simp: fulfilled_def answers_keys strip_prefix_def list_ex_iff)
  subgoal using has_screen [OF derived_keys(29), of name ov] by (auto simp: fulfilled_def answers_keys strip_prefix_def list_ex_iff)
  subgoal using has_screen [OF derived_keys(30), of name ov] by (auto simp: fulfilled_def answers_keys strip_prefix_def list_ex_iff)
  subgoal using has_screen [OF derived_keys(31), of name ov] by (auto simp: fulfilled_def answers_keys strip_prefix_def list_ex_iff)
  done

lemma fulfilled_unreal:
  assumes "path \<noteq> ''noise.canvasSeed''" and "path \<noteq> ''noise.clientRectsSeed''" and "strip_prefix ''screen.'' path = None"
  shows "fulfilled c path \<longleftrightarrow> (\<exists>(branch, keys) \<in> set optional_branches. lookup c branch = None \<and> path \<in> set keys) \<or> answers c path"
  using assms by (auto simp: fulfilled_def list_ex_iff)

lemma required_lists:
  "fulfilled (launched name ov p seed ctx) ''fonts''" "fulfilled (launched name ov p seed ctx) ''fontsHidden''"
  "fulfilled (launched name ov p seed ctx) ''gpu.webglExtensions''" "fulfilled (launched name ov p seed ctx) ''gpu.webglParams.''"
  "fulfilled (launched name ov p seed ctx) ''permissions.''"
proof -
  have lists: "get_key ''fonts'' (launched name ov p seed ctx) = Some (strs (pe_fonts p))"
    "get_key ''fontsHidden'' (launched name ov p seed ctx) = Some (strs (hidden (os_name (pe_os p)) (pe_fonts p)))"
    "get_key ''permissions'' (launched name ov p seed ctx) = Some (JObj [(''notifications'', JStr ''prompt''), (''geolocation'', JStr ''prompt'')])"
    by (simp_all add: launched_top derive_core_config_def Let_def map_add_def)
  have upd: "AList.update k v xs \<noteq> []" for k v and xs :: "(str \<times> json) list"
    by (induction xs) auto
  show "fulfilled (launched name ov p seed ctx) ''fonts''" "fulfilled (launched name ov p seed ctx) ''fontsHidden''"
    "fulfilled (launched name ov p seed ctx) ''permissions.''"
    by (rule answered, simp add: answers_def strip_dot lookup_def lists strs_def)+
  show "fulfilled (launched name ov p seed ctx) ''gpu.webglExtensions''"
    by (rule answered, simp add: answers_def strip_dot lookup_def gpu_lookups gpu_json_def strs_def)
  show "fulfilled (launched name ov p seed ctx) ''gpu.webglParams.''"
    by (rule answered, simp add: answers_def strip_dot lookup_def gpu_lookups gpu_json_def webgl_params_json_def upd)
qed

lemma branch_skipped:
  assumes "map_of optional_branches b = Some ks" and "path \<in> set ks" and "lookup c b \<noteq> None \<Longrightarrow> answers c path"
  shows "fulfilled c path"
  using assms(2,3) map_of_SomeD [OF assms(1)] by (auto simp: fulfilled_def)

lemma optional_skip:
  assumes "map_of optional_branches b = Some ks" and "path \<in> set ks" and "path \<noteq> ''noise.canvasSeed''" and "path \<noteq> ''noise.clientRectsSeed''"
    and "strip_prefix ''screen.'' path = None" and "list_all (\<lambda>(b', ks'). b' = b \<or> path \<notin> set ks') optional_branches"
  shows "fulfilled c path \<longleftrightarrow> lookup c b = None \<or> answers c path"
  using assms(2-) map_of_SomeD [OF assms(1)] by (auto simp: fulfilled_def list_ex_iff list_all_iff)

lemma launched_branches:
  "get_key ''speech'' (launched name ov p seed ctx) = map_of (speech_branch p) ''speech''"
  "get_key ''mediaDevices'' (launched name ov p seed ctx) = map_of (devices_branch p) ''mediaDevices''"
  "get_key ''geolocation'' (launched name ov p seed ctx) = map_of (place_branch ctx) ''geolocation''"
  "get_key ''mobile'' (launched name ov p seed ctx) = map_of (handset_branch seed p) ''mobile''"
  by (simp_all add: launched_top derive_top)

lemma launched_window:
  "get_key ''window'' (launched name ov p seed ctx) =
     (case name of None \<Rightarrow> None | Some n \<Rightarrow> Some (JObj [(''profileName'', JStr n)]))"
proof -
  obtain d where d: "apply_config ov (derive_core_config p seed ctx) = JObj d" using apply_obj by blast
  have "get_key ''window'' (apply_config ov (derive_core_config p seed ctx)) = None"
    by (simp add: get_key_apply derive_top)
  then show ?thesis by (simp add: launched_def get_key_window d split: option.split)
qed

lemmas branch_simps = answers_def strip_dot lookup_def launched_branches launched_window gpu_lookups gpu_json_def webgpu_json_def
  devices_branch_def place_branch_def handset_branch_def speech_branch_def strs_def stream_def num_def Let_def

lemma required_optional:
  "fulfilled (launched name ov p seed ctx) ''gpu.webgl1Extensions''" "fulfilled (launched name ov p seed ctx) ''gpu.webgl2Extensions''"
  "fulfilled (launched name ov p seed ctx) ''mediaDevices.''" "fulfilled (launched name ov p seed ctx) ''window.profileName''"
  "fulfilled (launched name ov p seed ctx) ''geolocation.accuracy''" "fulfilled (launched name ov p seed ctx) ''geolocation.latitude''"
  "fulfilled (launched name ov p seed ctx) ''geolocation.longitude''" "fulfilled (launched name ov p seed ctx) ''mobile.connectionType''"
  "fulfilled (launched name ov p seed ctx) ''mobile.enabled''" "fulfilled (launched name ov p seed ctx) ''mobile.touchSeed''"
  subgoal by (rule branch_skipped [of "''gpu.webgl1Extensions''"], simp add: optional_branches_def, simp) (auto simp: branch_simps split: if_splits option.splits)
  subgoal by (rule branch_skipped [of "''gpu.webgl2Extensions''"], simp add: optional_branches_def, simp) (auto simp: branch_simps split: if_splits option.splits)
  subgoal by (rule branch_skipped [of "''mediaDevices''"], simp add: optional_branches_def, simp) (auto simp: branch_simps split: if_splits option.splits)
  subgoal by (rule branch_skipped [of "''window''"], simp add: optional_branches_def, simp) (auto simp: branch_simps split: if_splits option.splits)
  subgoal by (rule branch_skipped [of "''geolocation''"], simp add: optional_branches_def, simp) (cases "pc_geolocation ctx"; auto simp: branch_simps)
  subgoal by (rule branch_skipped [of "''geolocation''"], simp add: optional_branches_def, simp) (cases "pc_geolocation ctx"; auto simp: branch_simps)
  subgoal by (rule branch_skipped [of "''geolocation''"], simp add: optional_branches_def, simp) (cases "pc_geolocation ctx"; auto simp: branch_simps)
  subgoal by (rule branch_skipped [of "''mobile''"], simp add: optional_branches_def, simp) (cases "pe_mobile p"; auto simp: branch_simps)
  subgoal by (rule branch_skipped [of "''mobile''"], simp add: optional_branches_def, simp) (cases "pe_mobile p"; auto simp: branch_simps)
  subgoal by (rule branch_skipped [of "''mobile''"], simp add: optional_branches_def, simp) (cases "pe_mobile p"; auto simp: branch_simps)
  done

lemma required_webgpu:
  "list_all (fulfilled (launched name ov p seed ctx))
     [''gpu.webgpu.architecture'', ''gpu.webgpu.description'', ''gpu.webgpu.device'', ''gpu.webgpu.features'', ''gpu.webgpu.vendor'']"
  "fulfilled (launched name ov p seed ctx) ''gpu.webgpu.limits.'' \<longleftrightarrow>
     (case gp_webgpu (pe_gpu p) of None \<Rightarrow> True | Some w \<Rightarrow> wg_limits w \<noteq> [])"
proof -
  have gpu: "lookup (launched name ov p seed ctx) ''gpu.webgpu'' = map_option webgpu_json (gp_webgpu (pe_gpu p))"
    by (simp add: lookup_def gpu_lookups gpu_json_def webgpu_json_def split: option.split)
  show "list_all (fulfilled (launched name ov p seed ctx))
     [''gpu.webgpu.architecture'', ''gpu.webgpu.description'', ''gpu.webgpu.device'', ''gpu.webgpu.features'', ''gpu.webgpu.vendor'']"
    by (cases "gp_webgpu (pe_gpu p)")
      (simp_all add: fulfilled_def optional_branches_def gpu, simp_all add: branch_simps)
  show "fulfilled (launched name ov p seed ctx) ''gpu.webgpu.limits.'' \<longleftrightarrow>
     (case gp_webgpu (pe_gpu p) of None \<Rightarrow> True | Some w \<Rightarrow> wg_limits w \<noteq> [])"
    by (subst optional_skip [where b = "''gpu.webgpu''"], simp add: optional_branches_def, simp_all add: optional_branches_def strip_prefix_def gpu)
       (simp add: answers_def strip_dot lookup_def gpu_lookups gpu_json_def webgpu_json_def split: option.split)
qed

lemma required_precision:
  "fulfilled (launched name ov p seed ctx) ''gpu.shaderPrecision.'' \<longleftrightarrow>
     (gp_shader_precision (pe_gpu p) = [] \<or> (\<exists>(k, v) \<in> set (gp_shader_precision (pe_gpu p)). CHR ''.'' \<in> set k))"
  unfolding precision_nonempty [symmetric]
  by (subst optional_skip [where b = "''gpu.shaderPrecision''"], simp add: optional_branches_def, simp_all add: optional_branches_def strip_prefix_def)
     (auto simp: answers_def strip_dot lookup_def gpu_lookups gpu_json_def split: option.split)

lemma required_voices:
  "fulfilled (launched name ov p seed ctx) ''speech.androidVoices''"
  "fulfilled (launched name ov p seed ctx) ''speech.voices'' \<longleftrightarrow> mobile_voices p = [] \<or> pe_voices p \<noteq> []"
  subgoal
    by (rule branch_skipped [of "''speech.androidVoices''"], simp add: optional_branches_def, simp) (auto simp: branch_simps split: if_splits)
  subgoal
    by (subst optional_skip [where b = "''speech''"], simp add: optional_branches_def, simp_all add: optional_branches_def strip_prefix_def)
       (auto simp: branch_simps split: if_splits)
  done

lemma everything_passes:
  "check_core_config (launched name ov p seed ctx) = [] \<longleftrightarrow> has_everything p"
proof -
  note webgpu = required_webgpu(1) [of name ov p seed ctx, unfolded list.pred_inject]
  show ?thesis
    unfolding check_Nil core_config_keys_def has_everything_def list.pred_inject
    by (simp only: webgpu required_keys required_noise required_screen required_lists required_optional
      required_webgpu(2) required_precision required_voices simp_thms conj_ac)
qed

text \<open>
  C11. The check before a launch passes exactly the configurations of personas with nothing left out: a
  graphics device with its limits, shader precisions of which one has a level, and a handset's voices
  only beside the machine's own. Nothing a profile changes of its machine, neither the real canvas nor
  the real monitor nor a name for the window, makes a configuration incomplete.
\<close>

theorem complete_configurations:
  "check_core_config (launched name ov p seed ctx) = [] \<longleftrightarrow> has_everything p"
  by (rule everything_passes)

end
