(* ===== verification/Core_Story.thy ===== *)
theory Core_Story
  imports Core_Complete
begin

text \<open>
  What a machine that passed \<open>validate\<close> tells a page: the parts of a derived configuration that a detector
  compares with each other.
\<close>

section \<open>The user agent\<close>

lemma contains_nil [simp]: "contains_str [] s"
  by (cases s) simp_all

lemma contains_iff: "contains_str n s \<longleftrightarrow> (\<exists>a b. s = a @ n @ b)"
proof (induction s)
  case (Cons x s)
  have "(\<exists>a b. x # s = a @ n @ b) \<longleftrightarrow> prefix n (x # s) \<or> (\<exists>a b. s = a @ n @ b)"
    by (auto simp: prefix_def Cons_eq_append_conv)
  then show ?case using Cons by simp
qed simp

lemma contains_over:
  assumes "c \<notin> set n" and "n \<noteq> []"
  shows "contains_str n (xs @ c # ys) \<longleftrightarrow> contains_str n xs \<or> contains_str n ys"
proof
  assume "contains_str n (xs @ c # ys)"
  then obtain a b where "xs @ c # ys = a @ n @ b" by (auto simp: contains_iff)
  then consider (early) us where "xs = a @ us" "us @ c # ys = n @ b" | (late) us where "a = xs @ us" "c # ys = us @ n @ b"
    by (auto simp: append_eq_append_conv2)
  then show "contains_str n xs \<or> contains_str n ys"
  proof cases
    case early
    then consider vs where "us = n @ vs" | vs where "n = us @ vs" "c # ys = vs @ b" by (auto simp: append_eq_append_conv2)
    then show ?thesis
    proof cases
      case 1
      then show ?thesis using early(1) by (auto simp: contains_iff)
    next
      case 2
      then have "vs = []" using assms(1) by (cases vs) auto
      then have "xs = a @ n @ []" using 2 early(1) by simp
      then show ?thesis unfolding contains_iff by blast
    qed
  next
    case late
    then show ?thesis using assms by (cases us) (auto simp: contains_iff Cons_eq_append_conv)
  qed
next
  assume "contains_str n xs \<or> contains_str n ys"
  then show "contains_str n (xs @ c # ys)"
    by (auto simp: contains_iff) (metis append.assoc append_Cons)+
qed

lemma contains_after:
  assumes "\<forall>c \<in> set r. c \<notin> set n" and "n \<noteq> []"
  shows "contains_str n (r @ s) \<longleftrightarrow> contains_str n s"
  using assms(1)
proof (induction r)
  case (Cons c r)
  then show ?case using contains_over [of c n "[]" "r @ s"] assms(2) by (auto simp: contains_iff)
qed simp

lemma replace_prefix:
  assumes "\<forall>c \<in> set r. c \<notin> set n" and "r \<noteq> []" and "p \<noteq> []" and "hd p \<notin> set n"
  shows "prefix n (replace_str p r s) \<longleftrightarrow> prefix n s"
  using assms
proof (induction p r s arbitrary: n rule: replace_str.induct)
  case (2 p r x xs)
  show ?case
  proof (cases "prefix p (x # xs)")
    case True
    then obtain t where t: "x # xs = p @ t" by (auto simp: prefix_def)
    then have "prefix n (x # xs) \<longleftrightarrow> n = []" using "2.prems"(3,4) by (cases p; cases n) auto
    moreover have "prefix n (r @ u) \<longleftrightarrow> n = []" for u using "2.prems"(1,2) by (cases r; cases n) auto
    ultimately show ?thesis using True "2.prems"(3) by simp
  next
    case False
    show ?thesis
    proof (cases n)
      case (Cons y n')
      then show ?thesis using False "2.IH"(2) [of n'] "2.prems" by auto
    qed simp
  qed
qed simp

lemma replace_contains:
  assumes "\<forall>c \<in> set r. c \<notin> set n" and "r \<noteq> []" and "p \<noteq> []" and "hd p \<notin> set n" and "last p \<notin> set n"
    and "\<not> contains_str n (butlast p)" and "n \<noteq> []"
  shows "contains_str n (replace_str p r s) \<longleftrightarrow> contains_str n s"
proof (induction s rule: length_induct)
  case (1 s)
  show ?case
  proof (cases s)
    case (Cons x xs)
    show ?thesis
    proof (cases "prefix p s")
      case True
      then obtain t where t: "s = p @ t" by (auto simp: prefix_def)
      have "s = butlast p @ last p # t" using t assms(3) by simp
      then have "contains_str n s \<longleftrightarrow> contains_str n t" using contains_over [OF assms(5,7), of "butlast p" t] assms(6) by simp
      moreover have "drop (length p) (x # xs) = t" using t Cons by (metis append_eq_conv_conj)
      then have "replace_str p r s = r @ replace_str p r t" using True Cons assms(3) by simp
      moreover have "contains_str n (replace_str p r t) = contains_str n t" using 1 t assms(3) by simp
      ultimately show ?thesis using contains_after [OF assms(1,7)] by simp
    next
      case False
      then have "replace_str p r s = x # replace_str p r xs" using Cons by simp
      moreover have "contains_str n (replace_str p r xs) = contains_str n xs" using 1 Cons by simp
      moreover have "prefix n (replace_str p r s) = prefix n s" using replace_prefix assms(1-4) by blast
      ultimately show ?thesis using Cons by simp
    qed
  qed (use assms(7) in simp)
qed

definition full_user_agent :: "nat \<Rightarrow> persona \<Rightarrow> str" where
  "full_user_agent major p = replace_str ''{CHROME_MAJOR}'' (show_nat major) (os_user_agent_template (pe_os p))"

lemma full_user_agent_words:
  "contains_str ''Android'' (full_user_agent major p) \<longleftrightarrow> contains_str ''Android'' (os_user_agent_template (pe_os p))"
  "contains_str '' Mobile '' (full_user_agent major p) \<longleftrightarrow> contains_str '' Mobile '' (os_user_agent_template (pe_os p))"
proof -
  have "\<not> is_digit c" if "c \<in> set ''Android'' \<union> set '' Mobile ''" for c
    using \<open>c \<in> _\<close> by (auto simp: is_digit_def)
  then have "\<forall>c \<in> set (show_nat major). c \<notin> set ''Android'' \<and> c \<notin> set '' Mobile ''" using show_nat_digits [of major] by (auto simp: list_all_iff)
  then show "contains_str ''Android'' (full_user_agent major p) \<longleftrightarrow> contains_str ''Android'' (os_user_agent_template (pe_os p))"
    "contains_str '' Mobile '' (full_user_agent major p) \<longleftrightarrow> contains_str '' Mobile '' (os_user_agent_template (pe_os p))"
    unfolding full_user_agent_def by (intro replace_contains; simp)+
qed

section \<open>One story\<close>

lemma lookup_get_two:
  "split_on (CHR ''.'') path = [a, b] \<Longrightarrow> Option.bind (get_key a c) (get_key b) = Some v \<Longrightarrow> v \<noteq> JNull \<Longrightarrow> lookup c path = Some v"
  by (auto simp: lookup_def split: json.split)

lemma derived_values:
  fixes p seed ctx
  defines "c \<equiv> derive_core_config p seed ctx"
  shows "lookup c ''navigator.userAgent'' = Some (JStr (full_user_agent (pc_chrome_major ctx) p))"
    "lookup c ''navigator.platform'' = Some (JStr (os_platform (pe_os p)))"
    "lookup c ''navigator.maxTouchPoints'' = Some (num (pe_max_touch_points p))"
    "lookup c ''navigator.deviceMemory'' = Some (num (pe_memory_gb p))"
    "lookup c ''clientHints.platform'' = Some (JStr (os_ch_platform (pe_os p)))"
    "lookup c ''clientHints.mobile'' = Some (JBool (is_phone p))"
    "lookup c ''clientHints.formFactors'' = Some (strs (if is_phone p then [''Mobile''] else [''Desktop'']))"
    "lookup c ''screen.width'' = Some (num (sn_width (pe_screen p)))"
    "lookup c ''screen.availWidth'' = Some (num (sn_avail_width (pe_screen p)))"
    "lookup c ''screen.height'' = Some (num (sn_height (pe_screen p)))"
    "lookup c ''screen.availHeight'' = Some (num (sn_avail_height (pe_screen p)))"
    "lookup c ''screen.scrollbarWidth'' = Some (num (cm_scrollbar_width (pe_chrome_metrics p)))"
    "lookup c ''fonts'' = Some (strs (pe_fonts p))"
    "lookup c ''fontsHidden'' = Some (strs (hidden (os_name (pe_os p)) (pe_fonts p)))"
    "lookup c ''mobile'' \<noteq> None \<longleftrightarrow> pe_mobile p \<noteq> None"
  unfolding c_def
  by ((rule lookup_get_two, simp, simp add: derive_core_config_def Let_def map_add_def full_user_agent_def, simp)
      | (simp add: lookup_def derive_core_config_def Let_def map_add_def strs_def handset_branch_def split: option.split))+

lemma power_of_two:
  fixes m :: nat
  assumes "m \<noteq> 0" and "m AND (m - 1) = 0"
  shows "\<exists>k. m = 2 ^ k"
  using assms
proof (induction m rule: less_induct)
  case (less m)
  show ?case
  proof (cases "even m")
    case True
    then obtain q where q: "m = 2 * q" by blast
    have "(2 * q) AND (2 * q - 1) = 2 * (q AND (q - 1))"
    proof (cases q)
      case (Suc r)
      then have "2 * q - 1 = 2 * r + 1" by simp
      then show ?thesis using Suc by (simp only:) (subst and_rec, simp)
    qed simp
    then have "q AND (q - 1) = 0" using less.prems q by simp
    then obtain k where "q = 2 ^ k" using less.IH [of q] less.prems(1) q by auto
    then show ?thesis using q by (intro exI [of _ "Suc k"]) simp
  next
    case False
    then obtain q where q: "m = 2 * q + 1" by (rule oddE)
    then have "m AND (m - 1) = 2 * q" by (simp only:) (subst and_rec, simp)
    then show ?thesis using q less.prems by (intro exI [of _ 0]) simp
  qed
qed

lemma validated:
  assumes "validate E p = []"
  shows "os_name (pe_os p) \<in> {''macOS'', ''Windows'', ''Android''}"
    "os_name (pe_os p) = ''macOS'' \<Longrightarrow> os_platform (pe_os p) = ''MacIntel'' \<and> cm_scrollbar_width (pe_chrome_metrics p) = 0
       \<and> pe_max_touch_points p = 0 \<and> sn_avail_height (pe_screen p) \<noteq> sn_height (pe_screen p)"
    "os_name (pe_os p) = ''Windows'' \<Longrightarrow> os_platform (pe_os p) = ''Win32'' \<and> cm_scrollbar_width (pe_chrome_metrics p) \<noteq> 0"
    "os_name (pe_os p) = ''Android'' \<Longrightarrow> os_platform (pe_os p) \<in> set android_platforms"
    "sn_avail_width (pe_screen p) \<le> sn_width (pe_screen p)" "sn_avail_height (pe_screen p) \<le> sn_height (pe_screen p)"
    "pe_memory_gb p \<noteq> 0" "pe_memory_gb p AND (pe_memory_gb p - 1) = 0" "validate_mobile p = []"
  using assms by (simp_all add: validate_def Let_def is_android_def)

lemma valid_handset:
  assumes "validate_mobile p = []"
  shows "pe_mobile p \<noteq> None \<longleftrightarrow> is_android p"
    "is_android p \<Longrightarrow> os_ch_platform (pe_os p) = ''Android'' \<and> contains_str ''Android'' (os_user_agent_template (pe_os p))
       \<and> (contains_str '' Mobile '' (os_user_agent_template (pe_os p)) \<longleftrightarrow> is_phone p)
       \<and> cm_scrollbar_width (pe_chrome_metrics p) = 0 \<and> 1 \<le> pe_max_touch_points p \<and> pe_max_touch_points p \<le> 10"
  using assms by (cases "pe_mobile p"; cases "is_android p"; auto simp: validate_mobile_def Let_def is_phone_def)+

lemma hides_no_font: "h \<in> set (hidden os present) \<Longrightarrow> f \<in> set present \<Longrightarrow> \<not> eq_ignore_case f h"
  by (auto simp: hidden_def list_ex_iff)

text \<open>
  C10. The configuration of a machine that passed the check tells one story on these points, whatever the seed and
  the exit: the user agent is the template's with the version put in; the platform is one of the system's; a mobile
  block is there exactly on Android; the mobile bit and the form factor are one decision, which on Android is also the
  word Mobile of the user agent, with a user agent that says Android and Android as the platform hint, and which is
  negative elsewhere; the free area fits the screen; the touch points and the width of the scrollbar are the
  system's; the memory is a power of two; and no font is both present and hidden. Nothing is said of the user agent or
  the platform hint of a desktop against its system, of the renderer, WebGPU, the languages or the time zone.
\<close>

theorem a_valid_machine_tells_one_story:
  assumes "validate E p = []"
  shows "let c = derive_core_config p seed ctx; os = os_name (pe_os p); ua = full_user_agent (pc_chrome_major ctx) p
    in os \<in> {''macOS'', ''Windows'', ''Android''}
     \<and> lookup c ''navigator.userAgent'' = Some (JStr ua)
     \<and> lookup c ''navigator.platform'' \<in> (\<lambda>n. Some (JStr n)) `
         (if os = ''macOS'' then {''MacIntel''} else if os = ''Windows'' then {''Win32''} else set android_platforms)
     \<and> (lookup c ''mobile'' \<noteq> None \<longleftrightarrow> os = ''Android'')
     \<and> (\<exists>phone. lookup c ''clientHints.mobile'' = Some (JBool phone)
          \<and> lookup c ''clientHints.formFactors'' = Some (strs (if phone then [''Mobile''] else [''Desktop'']))
          \<and> (if os = ''Android'' then lookup c ''clientHints.platform'' = Some (JStr ''Android'') \<and> contains_str ''Android'' ua
                \<and> (contains_str '' Mobile '' ua \<longleftrightarrow> phone) else \<not> phone))
     \<and> (\<exists>w h aw ah. lookup c ''screen.width'' = Some (num w) \<and> lookup c ''screen.height'' = Some (num h)
          \<and> lookup c ''screen.availWidth'' = Some (num aw) \<and> lookup c ''screen.availHeight'' = Some (num ah) \<and> aw \<le> w \<and> ah \<le> h)
     \<and> (\<exists>t b. lookup c ''navigator.maxTouchPoints'' = Some (num t) \<and> lookup c ''screen.scrollbarWidth'' = Some (num b)
          \<and> (if os = ''macOS'' then t = 0 \<and> b = 0 else if os = ''Windows'' then b \<noteq> 0 else 1 \<le> t \<and> t \<le> 10 \<and> b = 0))
     \<and> (\<exists>k. lookup c ''navigator.deviceMemory'' = Some (num (2 ^ k)))
     \<and> (\<exists>fs hs. lookup c ''fonts'' = Some (strs fs) \<and> lookup c ''fontsHidden'' = Some (strs hs)
          \<and> list_all (\<lambda>h. \<not> list_ex (\<lambda>f. eq_ignore_case f h) fs) hs)"
proof -
  note v = validated [OF assms]
  obtain k where k: "pe_memory_gb p = 2 ^ k" using power_of_two v(7,8) by blast
  have hides: "list_all (\<lambda>h. \<not> list_ex (\<lambda>f. eq_ignore_case f h) (pe_fonts p)) (hidden (os_name (pe_os p)) (pe_fonts p))"
    using hides_no_font by (fastforce simp: list_all_iff list_ex_iff)
  note h = valid_handset [OF v(9)]
  let ?os = "os_name (pe_os p)" and ?ua = "full_user_agent (pc_chrome_major ctx) p"
  have phone: "\<exists>phone. Some (JBool (is_phone p)) = Some (JBool phone)
      \<and> Some (strs (if is_phone p then [''Mobile''] else [''Desktop''])) = Some (strs (if phone then [''Mobile''] else [''Desktop'']))
      \<and> (if ?os = ''Android'' then Some (JStr (os_ch_platform (pe_os p))) = Some (JStr ''Android'') \<and> contains_str ''Android'' ?ua
          \<and> (contains_str '' Mobile '' ?ua \<longleftrightarrow> phone) else \<not> phone)"
    using h by (intro exI [of _ "is_phone p"]) (simp add: full_user_agent_words is_android_def, simp add: is_phone_def is_android_def)
  have touch: "\<exists>t b. Some (num (pe_max_touch_points p)) = Some (num t) \<and> Some (num (cm_scrollbar_width (pe_chrome_metrics p))) = Some (num b)
      \<and> (if ?os = ''macOS'' then t = 0 \<and> b = 0 else if ?os = ''Windows'' then b \<noteq> 0 else 1 \<le> t \<and> t \<le> 10 \<and> b = 0)"
    using v(1-3) h(2) by (intro exI [of _ "pe_max_touch_points p"] exI [of _ "cm_scrollbar_width (pe_chrome_metrics p)"]) (auto simp: is_android_def)
  have platform: "Some (JStr (os_platform (pe_os p))) \<in> (\<lambda>n. Some (JStr n)) `
      (if ?os = ''macOS'' then {''MacIntel''} else if ?os = ''Windows'' then {''Win32''} else set android_platforms)"
    using v(1-4) by auto
  have mobile: "pe_mobile p \<noteq> None \<longleftrightarrow> ?os = ''Android''" using h(1) by (simp add: is_android_def)
  have area: "\<exists>w h aw ah. Some (num (sn_width (pe_screen p))) = Some (num w) \<and> Some (num (sn_height (pe_screen p))) = Some (num h)
      \<and> Some (num (sn_avail_width (pe_screen p))) = Some (num aw) \<and> Some (num (sn_avail_height (pe_screen p))) = Some (num ah) \<and> aw \<le> w \<and> ah \<le> h"
    using v(5,6) by blast
  have memory: "\<exists>k. Some (num (pe_memory_gb p)) = Some (num (2 ^ k))" using k by auto
  have fonts: "\<exists>fs hs. Some (strs (pe_fonts p)) = Some (strs fs) \<and> Some (strs (hidden ?os (pe_fonts p))) = Some (strs hs)
      \<and> list_all (\<lambda>h. \<not> list_ex (\<lambda>f. eq_ignore_case f h) fs) hs"
    using hides by blast
  show ?thesis
    unfolding Let_def derived_values
    by (intro conjI v(1) refl platform mobile phone area touch memory fonts)
qed

theorem a_valid_machine_tells_one_story_witness:
  "\<forall>ctx. lookup (derive_core_config demo_phone 7 ctx) ''mobile'' \<noteq> None
     \<and> contains_str '' Mobile '' (full_user_agent (pc_chrome_major ctx) demo_phone)
     \<and> lookup (derive_core_config demo_phone 7 ctx) ''clientHints.mobile'' = Some (JBool True)"
proof
  fix ctx
  have "os_name (pe_os demo_phone) = ''Android''" "is_phone demo_phone" by (simp_all add: demo_phone_def is_phone_def is_android_def)
  then show "lookup (derive_core_config demo_phone 7 ctx) ''mobile'' \<noteq> None
      \<and> contains_str '' Mobile '' (full_user_agent (pc_chrome_major ctx) demo_phone)
      \<and> lookup (derive_core_config demo_phone 7 ctx) ''clientHints.mobile'' = Some (JBool True)"
    using a_valid_machine_tells_one_story [OF demo_phone_valid, of 7 ctx] derived_values(6) [of demo_phone 7 ctx] by (auto simp: Let_def)
qed

end
