(* ===== verification/Catalogue.thy ===== *)
theory Catalogue
  imports Core_Story
begin

text \<open>
  The machines a build knows (\<open>shared-rs/src/catalogue.rs\<close>): the table of documented models, each a
  measured base (two files under \<open>shared/personas\<close>) with a model put in, the captures that were
  contributed, and the draw of a machine in proportion to its share. A number with a decimal point in a
  file or in the table is that decimal; the \<open>f64\<close> nearest to a weight is \<open>rounded\<close> of it. The files that
  \<open>build.rs\<close> bakes in are an argument.
\<close>

section \<open>The measured bases\<close>

definition macos_base :: persona where
  "macos_base =
     \<lparr>pe_id = ''macos-15-m-series-1728x1117'', pe_weight = (3 / 250), pe_source = Some ''measured'', pe_contributed_by = None, pe_machine = None,
      pe_os = \<lparr>os_name = ''macOS'', os_version = ''15.2'', os_arch = ''arm64'',
        os_user_agent_template = ''Mozilla/5.0 (Macintosh; Intel Mac OS X 10_15_7) AppleWebKit/537.36 (KHTML, like Gecko) Chrome/{CHROME_MAJOR}.0.0.0 Safari/537.36'',
        os_platform = ''MacIntel'', os_ch_platform = ''macOS'', os_ch_platform_version = ''15.2.0'',
        os_ch_architecture = ''arm'', os_ch_bitness = ''64''\<rparr>,
      pe_gpu = \<lparr>gp_webgl_vendor = ''Google Inc. (Apple)'', gp_webgl_renderer = ''ANGLE (Apple, ANGLE Metal Renderer: Apple M5, Unspecified Version)'',
        gp_webgl_params = [(''ALIASED_LINE_WIDTH_RANGE'', JStr ''1,1''), (''ALIASED_POINT_SIZE_RANGE'', JStr ''1,511''), (''ALPHA_BITS'', JNum 8),
        (''BLUE_BITS'', JNum 8), (''DEPTH_BITS'', JNum 24), (''GREEN_BITS'', JNum 8),
        (''MAX_COMBINED_TEXTURE_IMAGE_UNITS'', JNum 32), (''MAX_CUBE_MAP_TEXTURE_SIZE'', JNum 16384),
        (''MAX_FRAGMENT_UNIFORM_VECTORS'', JNum 1024), (''MAX_RENDERBUFFER_SIZE'', JNum 16384),
        (''MAX_TEXTURE_IMAGE_UNITS'', JNum 16), (''MAX_TEXTURE_SIZE'', JNum 16384), (''MAX_VARYING_VECTORS'', JNum 30),
        (''MAX_VERTEX_ATTRIBS'', JNum 16), (''MAX_VERTEX_TEXTURE_IMAGE_UNITS'', JNum 16),
        (''MAX_VERTEX_UNIFORM_VECTORS'', JNum 1024), (''MAX_VIEWPORT_DIMS'', JStr ''16384,16384''), (''RED_BITS'', JNum 8),
        (''SAMPLES'', JNum 4), (''SAMPLE_BUFFERS'', JNum 1), (''STENCIL_BITS'', JNum 0), (''SUBPIXEL_BITS'', JNum 4)],
        gp_webgl_extensions = [''ANGLE_instanced_arrays'', ''EXT_blend_minmax'', ''EXT_clip_control'', ''EXT_color_buffer_half_float'', ''EXT_depth_clamp'',
        ''EXT_disjoint_timer_query'', ''EXT_float_blend'', ''EXT_frag_depth'', ''EXT_polygon_offset_clamp'', ''EXT_sRGB'',
        ''EXT_shader_texture_lod'', ''EXT_texture_compression_bptc'', ''EXT_texture_compression_rgtc'',
        ''EXT_texture_filter_anisotropic'', ''EXT_texture_mirror_clamp_to_edge'', ''KHR_parallel_shader_compile'',
        ''OES_element_index_uint'', ''OES_fbo_render_mipmap'', ''OES_standard_derivatives'', ''OES_texture_float'',
        ''OES_texture_float_linear'', ''OES_texture_half_float'', ''OES_texture_half_float_linear'', ''OES_vertex_array_object'',
        ''WEBGL_blend_func_extended'', ''WEBGL_color_buffer_float'', ''WEBGL_compressed_texture_astc'',
        ''WEBGL_compressed_texture_etc'', ''WEBGL_compressed_texture_etc1'', ''WEBGL_compressed_texture_pvrtc'',
        ''WEBGL_compressed_texture_s3tc'', ''WEBGL_compressed_texture_s3tc_srgb'', ''WEBGL_debug_renderer_info'',
        ''WEBGL_debug_shaders'', ''WEBGL_depth_texture'', ''WEBGL_draw_buffers'', ''WEBGL_lose_context'', ''WEBGL_multi_draw'',
        ''WEBGL_polygon_mode''],
        gp_webgl1_extensions = [''ANGLE_instanced_arrays'', ''EXT_blend_minmax'', ''EXT_clip_control'', ''EXT_color_buffer_half_float'', ''EXT_depth_clamp'',
        ''EXT_disjoint_timer_query'', ''EXT_float_blend'', ''EXT_frag_depth'', ''EXT_polygon_offset_clamp'', ''EXT_sRGB'',
        ''EXT_shader_texture_lod'', ''EXT_texture_compression_bptc'', ''EXT_texture_compression_rgtc'',
        ''EXT_texture_filter_anisotropic'', ''EXT_texture_mirror_clamp_to_edge'', ''KHR_parallel_shader_compile'',
        ''OES_element_index_uint'', ''OES_fbo_render_mipmap'', ''OES_standard_derivatives'', ''OES_texture_float'',
        ''OES_texture_float_linear'', ''OES_texture_half_float'', ''OES_texture_half_float_linear'', ''OES_vertex_array_object'',
        ''WEBGL_blend_func_extended'', ''WEBGL_color_buffer_float'', ''WEBGL_compressed_texture_astc'',
        ''WEBGL_compressed_texture_etc'', ''WEBGL_compressed_texture_etc1'', ''WEBGL_compressed_texture_pvrtc'',
        ''WEBGL_compressed_texture_s3tc'', ''WEBGL_compressed_texture_s3tc_srgb'', ''WEBGL_debug_renderer_info'',
        ''WEBGL_debug_shaders'', ''WEBGL_depth_texture'', ''WEBGL_draw_buffers'', ''WEBGL_lose_context'', ''WEBGL_multi_draw'',
        ''WEBGL_polygon_mode''],
        gp_webgl2_extensions = [''EXT_clip_control'', ''EXT_color_buffer_float'', ''EXT_color_buffer_half_float'', ''EXT_conservative_depth'',
        ''EXT_depth_clamp'', ''EXT_disjoint_timer_query_webgl2'', ''EXT_float_blend'', ''EXT_polygon_offset_clamp'',
        ''EXT_render_snorm'', ''EXT_texture_compression_bptc'', ''EXT_texture_compression_rgtc'',
        ''EXT_texture_filter_anisotropic'', ''EXT_texture_mirror_clamp_to_edge'', ''EXT_texture_norm16'',
        ''KHR_parallel_shader_compile'', ''NV_shader_noperspective_interpolation'', ''OES_draw_buffers_indexed'',
        ''OES_sample_variables'', ''OES_shader_multisample_interpolation'', ''OES_texture_float_linear'',
        ''WEBGL_blend_func_extended'', ''WEBGL_clip_cull_distance'', ''WEBGL_compressed_texture_astc'',
        ''WEBGL_compressed_texture_etc'', ''WEBGL_compressed_texture_etc1'', ''WEBGL_compressed_texture_pvrtc'',
        ''WEBGL_compressed_texture_s3tc'', ''WEBGL_compressed_texture_s3tc_srgb'', ''WEBGL_debug_renderer_info'',
        ''WEBGL_debug_shaders'', ''WEBGL_lose_context'', ''WEBGL_multi_draw'', ''WEBGL_polygon_mode'',
        ''WEBGL_provoking_vertex'', ''WEBGL_render_shared_exponent'', ''WEBGL_stencil_texturing''],
        gp_shader_precision = [],
        gp_webgpu = Some \<lparr>wg_vendor = ''apple'', wg_architecture = ''metal-3'', wg_device = [],
          wg_description = [],
          wg_limits = [(''maxBindGroups'', 4), (''maxBindGroupsPlusVertexBuffers'', 24), (''maxBindingsPerBindGroup'', 1000),
        (''maxBufferSize'', 4294967292), (''maxColorAttachmentBytesPerSample'', 128), (''maxColorAttachments'', 8),
        (''maxComputeInvocationsPerWorkgroup'', 1024), (''maxComputeWorkgroupSizeX'', 1024),
        (''maxComputeWorkgroupSizeY'', 1024), (''maxComputeWorkgroupSizeZ'', 64), (''maxComputeWorkgroupStorageSize'', 32768),
        (''maxComputeWorkgroupsPerDimension'', 65535), (''maxDynamicStorageBuffersPerPipelineLayout'', 8),
        (''maxDynamicUniformBuffersPerPipelineLayout'', 10), (''maxImmediateSize'', 64), (''maxInterStageShaderVariables'', 28),
        (''maxSampledTexturesPerShaderStage'', 48), (''maxSamplersPerShaderStage'', 16),
        (''maxStorageBufferBindingSize'', 4294967292), (''maxStorageBuffersInFragmentStage'', 10),
        (''maxStorageBuffersInVertexStage'', 10), (''maxStorageBuffersPerShaderStage'', 10),
        (''maxStorageTexturesInFragmentStage'', 8), (''maxStorageTexturesInVertexStage'', 8),
        (''maxStorageTexturesPerShaderStage'', 8), (''maxTextureArrayLayers'', 2048), (''maxTextureDimension1D'', 16384),
        (''maxTextureDimension2D'', 16384), (''maxTextureDimension3D'', 2048), (''maxUniformBufferBindingSize'', 65536),
        (''maxUniformBuffersPerShaderStage'', 12), (''maxVertexAttributes'', 30), (''maxVertexBufferArrayStride'', 2048),
        (''maxVertexBuffers'', 8), (''minStorageBufferOffsetAlignment'', 256), (''minUniformBufferOffsetAlignment'', 256)],
          wg_features = [''bgra8unorm-storage'', ''clip-distances'', ''core-features-and-limits'', ''depth-clip-control'', ''depth32float-stencil8'',
        ''dual-source-blending'', ''float32-blendable'', ''float32-filterable'', ''indirect-first-instance'',
        ''primitive-index'', ''rg11b10ufloat-renderable'', ''shader-f16'', ''subgroups'', ''texture-component-swizzle'',
        ''texture-compression-astc'', ''texture-compression-astc-sliced-3d'', ''texture-compression-bc'',
        ''texture-compression-bc-sliced-3d'', ''texture-compression-etc2'', ''texture-formats-tier1'', ''texture-formats-tier2'',
        ''timestamp-query'']\<rparr>\<rparr>,
      pe_screen = \<lparr>sn_width = 1470, sn_height = 956, sn_avail_width = 1470, sn_avail_height = 833,
        sn_color_depth = 30, sn_device_pixel_ratio = 2, sn_avail_top = None\<rparr>,
      pe_chrome_metrics = \<lparr>cm_outer_minus_inner_height = 87, cm_outer_minus_inner_width = 0,
        cm_scrollbar_width = 0\<rparr>,
      pe_cpu = \<lparr>cp_cores = 10, cp_model = Some ''Apple M-series''\<rparr>, pe_memory_gb = 16,
      pe_max_touch_points = 0,
      pe_fonts = [''Al Bayan'', ''American Typewriter'', ''Apple Chancery'', ''Apple Color Emoji'', ''AppleGothic'', ''Arial'', ''Arial Black'',
        ''Avenir'', ''Avenir Next'', ''Baskerville'', ''Big Caslon'', ''Chalkboard'', ''Chalkduster'', ''Cochin'',
        ''Comic Sans MS'', ''Copperplate'', ''Courier New'', ''Didot'', ''Futura'', ''Geneva'', ''Georgia'', ''Gill Sans'',
        ''Helvetica Neue'', ''Herculanum'', ''Hoefler Text'', ''Impact'', ''Lucida Grande'', ''Marker Felt'', ''Menlo'',
        ''Monaco'', ''Optima'', ''Papyrus'', ''Phosphate'', ''Rockwell'', ''Skia'', ''Snell Roundhand'', ''Tahoma'',
        ''Times New Roman'', ''Trebuchet MS'', ''Verdana'', ''Webdings'', ''Wingdings'', ''Zapfino''],
      pe_audio = \<lparr>au_sample_rate = 48000, au_base_latency = (5333333333333333 / 1000000000000000000), au_output_latency = 0\<rparr>,
      pe_voices = [], pe_media_devices = [], pe_mobile = None\<rparr>"

definition windows_base :: persona where
  "windows_base =
     \<lparr>pe_id = ''windows-11-rtx4060-1920x1080'', pe_weight = (31 / 1000), pe_source = Some ''public-dataset'', pe_contributed_by = None, pe_machine = None,
      pe_os = \<lparr>os_name = ''Windows'', os_version = ''11'', os_arch = ''x86_64'',
        os_user_agent_template = ''Mozilla/5.0 (Windows NT 10.0; Win64; x64) AppleWebKit/537.36 (KHTML, like Gecko) Chrome/{CHROME_MAJOR}.0.0.0 Safari/537.36'',
        os_platform = ''Win32'', os_ch_platform = ''Windows'', os_ch_platform_version = ''15.0.0'',
        os_ch_architecture = ''x86'', os_ch_bitness = ''64''\<rparr>,
      pe_gpu = \<lparr>gp_webgl_vendor = ''Google Inc. (NVIDIA)'', gp_webgl_renderer = ''ANGLE (NVIDIA, NVIDIA GeForce RTX 4060 (0x00002882) Direct3D11 vs_5_0 ps_5_0, D3D11)'',
        gp_webgl_params = [(''ALIASED_LINE_WIDTH_RANGE'', JStr ''1,1''), (''ALIASED_POINT_SIZE_RANGE'', JStr ''1,1024''), (''ALPHA_BITS'', JNum 8),
        (''BLUE_BITS'', JNum 8), (''DEPTH_BITS'', JNum 24), (''GREEN_BITS'', JNum 8),
        (''MAX_COMBINED_TEXTURE_IMAGE_UNITS'', JNum 32), (''MAX_CUBE_MAP_TEXTURE_SIZE'', JNum 16384),
        (''MAX_FRAGMENT_UNIFORM_VECTORS'', JNum 1024), (''MAX_RENDERBUFFER_SIZE'', JNum 16384),
        (''MAX_TEXTURE_IMAGE_UNITS'', JNum 16), (''MAX_TEXTURE_SIZE'', JNum 16384), (''MAX_VARYING_VECTORS'', JNum 30),
        (''MAX_VERTEX_ATTRIBS'', JNum 16), (''MAX_VERTEX_TEXTURE_IMAGE_UNITS'', JNum 16),
        (''MAX_VERTEX_UNIFORM_VECTORS'', JNum 4096), (''MAX_VIEWPORT_DIMS'', JStr ''32767,32767''), (''RED_BITS'', JNum 8),
        (''SAMPLES'', JNum 0), (''SAMPLE_BUFFERS'', JNum 0), (''STENCIL_BITS'', JNum 0), (''SUBPIXEL_BITS'', JNum 4)],
        gp_webgl_extensions = [''ANGLE_instanced_arrays'', ''EXT_blend_minmax'', ''EXT_clip_control'', ''EXT_color_buffer_half_float'', ''EXT_depth_clamp'',
        ''EXT_float_blend'', ''EXT_frag_depth'', ''EXT_polygon_offset_clamp'', ''EXT_shader_texture_lod'',
        ''EXT_texture_compression_bptc'', ''EXT_texture_compression_rgtc'', ''EXT_texture_filter_anisotropic'',
        ''EXT_texture_mirror_clamp_to_edge'', ''EXT_sRGB'', ''OES_element_index_uint'', ''OES_fbo_render_mipmap'',
        ''OES_standard_derivatives'', ''OES_texture_float'', ''OES_texture_float_linear'', ''OES_texture_half_float'',
        ''OES_texture_half_float_linear'', ''OES_vertex_array_object'', ''WEBGL_blend_func_extended'',
        ''WEBGL_color_buffer_float'', ''WEBGL_compressed_texture_s3tc'', ''WEBGL_compressed_texture_s3tc_srgb'',
        ''WEBGL_debug_renderer_info'', ''WEBGL_debug_shaders'', ''WEBGL_depth_texture'', ''WEBGL_draw_buffers'',
        ''WEBGL_lose_context'', ''WEBGL_multi_draw'', ''WEBGL_polygon_mode''],
        gp_webgl1_extensions = [''ANGLE_instanced_arrays'', ''EXT_blend_minmax'', ''EXT_clip_control'', ''EXT_color_buffer_half_float'', ''EXT_depth_clamp'',
        ''EXT_disjoint_timer_query'', ''EXT_float_blend'', ''EXT_frag_depth'', ''EXT_polygon_offset_clamp'', ''EXT_sRGB'',
        ''EXT_shader_texture_lod'', ''EXT_texture_compression_bptc'', ''EXT_texture_compression_rgtc'',
        ''EXT_texture_filter_anisotropic'', ''EXT_texture_mirror_clamp_to_edge'', ''KHR_parallel_shader_compile'',
        ''OES_element_index_uint'', ''OES_fbo_render_mipmap'', ''OES_standard_derivatives'', ''OES_texture_float'',
        ''OES_texture_float_linear'', ''OES_texture_half_float'', ''OES_texture_half_float_linear'', ''OES_vertex_array_object'',
        ''WEBGL_blend_func_extended'', ''WEBGL_color_buffer_float'', ''WEBGL_compressed_texture_s3tc'',
        ''WEBGL_compressed_texture_s3tc_srgb'', ''WEBGL_debug_renderer_info'', ''WEBGL_debug_shaders'', ''WEBGL_depth_texture'',
        ''WEBGL_draw_buffers'', ''WEBGL_lose_context'', ''WEBGL_multi_draw'', ''WEBGL_polygon_mode''],
        gp_webgl2_extensions = [''EXT_clip_control'', ''EXT_color_buffer_float'', ''EXT_color_buffer_half_float'', ''EXT_conservative_depth'',
        ''EXT_depth_clamp'', ''EXT_disjoint_timer_query_webgl2'', ''EXT_float_blend'', ''EXT_polygon_offset_clamp'',
        ''EXT_render_snorm'', ''EXT_texture_compression_bptc'', ''EXT_texture_compression_rgtc'',
        ''EXT_texture_filter_anisotropic'', ''EXT_texture_mirror_clamp_to_edge'', ''EXT_texture_norm16'',
        ''KHR_parallel_shader_compile'', ''NV_shader_noperspective_interpolation'', ''OES_draw_buffers_indexed'',
        ''OES_sample_variables'', ''OES_shader_multisample_interpolation'', ''OES_texture_float_linear'', ''OVR_multiview2'',
        ''WEBGL_blend_func_extended'', ''WEBGL_clip_cull_distance'', ''WEBGL_compressed_texture_s3tc'',
        ''WEBGL_compressed_texture_s3tc_srgb'', ''WEBGL_debug_renderer_info'', ''WEBGL_debug_shaders'', ''WEBGL_lose_context'',
        ''WEBGL_multi_draw'', ''WEBGL_polygon_mode'', ''WEBGL_provoking_vertex'', ''WEBGL_stencil_texturing''],
        gp_shader_precision = [],
        gp_webgpu = Some \<lparr>wg_vendor = ''nvidia'', wg_architecture = ''ada'', wg_device = [],
          wg_description = [],
          wg_limits = [(''maxBindGroups'', 4), (''maxBindingsPerBindGroup'', 1000), (''maxBufferSize'', 2147483648), (''maxColorAttachments'', 8),
        (''maxStorageBufferBindingSize'', 2147483644), (''maxTextureArrayLayers'', 2048), (''maxTextureDimension1D'', 16384),
        (''maxTextureDimension2D'', 16384), (''maxTextureDimension3D'', 2048), (''maxUniformBufferBindingSize'', 65536),
        (''maxVertexAttributes'', 16), (''maxVertexBuffers'', 8), (''minStorageBufferOffsetAlignment'', 256),
        (''minUniformBufferOffsetAlignment'', 256)],
          wg_features = [''depth-clip-control'', ''depth32float-stencil8'', ''texture-compression-bc'', ''timestamp-query'', ''indirect-first-instance'',
        ''shader-f16'', ''rg11b10ufloat-renderable'', ''float32-filterable'']\<rparr>\<rparr>,
      pe_screen = \<lparr>sn_width = 1920, sn_height = 1080, sn_avail_width = 1920, sn_avail_height = 1032,
        sn_color_depth = 24, sn_device_pixel_ratio = 1, sn_avail_top = None\<rparr>,
      pe_chrome_metrics = \<lparr>cm_outer_minus_inner_height = 139, cm_outer_minus_inner_width = 0,
        cm_scrollbar_width = 15\<rparr>,
      pe_cpu = \<lparr>cp_cores = 12, cp_model = Some ''Intel Core i5-13400F''\<rparr>, pe_memory_gb = 16,
      pe_max_touch_points = 0,
      pe_fonts = [''Arial'', ''Arial Black'', ''Bahnschrift'', ''Calibri'', ''Cambria'', ''Candara'', ''Comic Sans MS'', ''Consolas'',
        ''Constantia'', ''Corbel'', ''Courier New'', ''Ebrima'', ''Gadugi'', ''Georgia'', ''Impact'', ''Leelawadee UI'',
        ''MS Gothic'', ''MV Boli'', ''Malgun Gothic'', ''Microsoft JhengHei'', ''Microsoft YaHei'', ''Nirmala UI'', ''Segoe UI'',
        ''Segoe UI Emoji'', ''Segoe UI Variable'', ''Sitka'', ''Sylfaen'', ''Tahoma'', ''Times New Roman'', ''Trebuchet MS'',
        ''Verdana'', ''Webdings'', ''Wingdings'', ''Yu Gothic''],
      pe_audio = \<lparr>au_sample_rate = 48000, au_base_latency = (1 / 100), au_output_latency = (1 / 50)\<rparr>,
      pe_voices = [], pe_media_devices = [], pe_mobile = None\<rparr>"

section \<open>The table\<close>

record variant =
  va_id :: str
  va_weight :: rat
  va_gpu_model :: str
  va_pci_device :: nat
  va_gpu_vendor :: "str option"
  va_webgpu_arch :: str
  va_width :: nat
  va_height :: nat
  va_cores :: nat
  va_memory_gb :: nat
  va_cpu_model :: str
  va_os_version :: "str option"

abbreviation variant :: "str \<Rightarrow> rat \<Rightarrow> str \<Rightarrow> nat \<Rightarrow> str option \<Rightarrow> str \<Rightarrow> nat \<Rightarrow> nat \<Rightarrow> nat \<Rightarrow> nat \<Rightarrow> str \<Rightarrow> str option \<Rightarrow> variant" where
  "variant i w gpu pci vendor arch width height cores memory cpu os \<equiv>
     \<lparr>va_id = i, va_weight = w, va_gpu_model = gpu, va_pci_device = pci, va_gpu_vendor = vendor, va_webgpu_arch = arch,
      va_width = width, va_height = height, va_cores = cores, va_memory_gb = memory, va_cpu_model = cpu, va_os_version = os\<rparr>"

definition macos_variants :: "variant list" where
  "macos_variants =
    [
     variant ''macos-m5-1470x956'' (3 / 250) ''Apple M5'' 0 None ''metal-3''
       1470 956 10 16 ''Apple M-series'' None,
     variant ''macos-m1-1440x900'' (41 / 1000) ''Apple M1'' 0 None ''metal-3''
       1440 900 8 8 ''Apple M-series'' (Some ''14.7''),
     variant ''macos-m2-1512x982'' (17 / 500) ''Apple M2'' 0 None ''metal-3''
       1512 982 8 16 ''Apple M-series'' (Some ''15.1''),
     variant ''macos-m3-pro-1728x1117'' (19 / 1000) ''Apple M3 Pro'' 0 None ''metal-3''
       1728 1117 12 16 ''Apple M-series'' None,
     variant ''macos-m4-1710x1112'' (2 / 125) ''Apple M4'' 0 None ''metal-3''
       1710 1112 10 16 ''Apple M-series'' None,
     variant ''macos-m1pro-1512x982'' (11 / 1000) ''Apple M1 Pro'' 0 None ''metal-3''
       1512 982 10 16 ''Apple M-series'' None,
     variant ''macos-m2pro-1728x1117'' (9 / 1000) ''Apple M2 Pro'' 0 None ''metal-3''
       1728 1117 12 16 ''Apple M-series'' None,
     variant ''macos-m4pro-1728x1117'' (1 / 125) ''Apple M4 Pro'' 0 None ''metal-3''
       1728 1117 12 16 ''Apple M-series'' None]"

definition windows_variants :: "variant list" where
  "windows_variants =
    [
     variant ''win11-rtx4060-1920x1080'' (31 / 1000) ''NVIDIA GeForce RTX 4060'' 10370 None ''ada''
       1920 1080 12 16 ''Intel Core i5-13400F'' None,
     variant ''win11-rtx3060-1920x1080'' (11 / 250) ''NVIDIA GeForce RTX 3060'' 9476 None ''ampere''
       1920 1080 12 16 ''Intel Core i5-12400F'' None,
     variant ''win11-rtx4070-2560x1440'' (21 / 1000) ''NVIDIA GeForce RTX 4070'' 10118 None ''ada''
       2560 1440 16 32 ''AMD Ryzen 7 7700X'' None,
     variant ''win11-gtx1650-1920x1080'' (19 / 500) ''NVIDIA GeForce GTX 1650'' 8066 None ''turing''
       1920 1080 8 8 ''Intel Core i5-10400'' None,
     variant ''win11-rtx3050-1366x768'' (3 / 125) ''NVIDIA GeForce RTX 3050 Laptop GPU'' 9634 None ''ampere''
       1366 768 8 8 ''Intel Core i5-11400H'' None,
     variant ''win11-rx6600-1920x1080'' (23 / 1000) ''AMD Radeon RX 6600'' 29695 (Some ''Google Inc. (AMD)'') ''rdna-2''
       1920 1080 12 16 ''AMD Ryzen 5 5600'' None,
     variant ''win11-iris-xe-1920x1080'' (13 / 250) ''Intel(R) Iris(R) Xe Graphics'' 39497 (Some ''Google Inc. (Intel)'') ''gen-12lp''
       1920 1080 8 16 ''Intel Core i5-1235U'' None,
     variant ''win11-uhd620-1366x768'' (29 / 1000) ''Intel(R) UHD Graphics 620'' 22807 (Some ''Google Inc. (Intel)'') ''gen-9''
       1366 768 8 8 ''Intel Core i5-8265U'' None,
     variant ''win10-gtx1060-1920x1080'' (9 / 500) ''NVIDIA GeForce GTX 1060 6GB'' 7171 None ''pascal''
       1920 1080 6 16 ''Intel Core i5-9400F'' (Some ''10''),
     variant ''win11-gtx1660-1920x1080'' (7 / 200) ''NVIDIA GeForce GTX 1660'' 8580 None ''turing''
       1920 1080 6 16 ''Intel Core i5-13400F'' None,
     variant ''win11-rtx3070-2560x1440'' (1 / 50) ''NVIDIA GeForce RTX 3070'' 9348 None ''ampere''
       2560 1440 8 32 ''Intel Core i5-13400F'' None,
     variant ''win11-rtx2060-1920x1080'' (13 / 500) ''NVIDIA GeForce RTX 2060'' 7944 None ''turing''
       1920 1080 6 16 ''Intel Core i5-13400F'' None,
     variant ''win11-rtx4060laptop-1920x1080'' (11 / 500) ''NVIDIA GeForce RTX 4060 Laptop GPU'' 10464 None ''ada''
       1920 1080 8 16 ''Intel Core i5-13400F'' None,
     variant ''win11-rtx3060laptop-1920x1080'' (3 / 125) ''NVIDIA GeForce RTX 3060 Laptop GPU'' 9504 None ''ampere''
       1920 1080 8 16 ''Intel Core i5-13400F'' None,
     variant ''win10-rx580-1920x1080'' (17 / 1000) ''AMD Radeon RX 580'' 26591 (Some ''Google Inc. (AMD)'') ''gcn-4''
       1920 1080 6 16 ''Intel Core i5-13400F'' (Some ''10.0.0''),
     variant ''win11-rx7600-2560x1440'' (11 / 1000) ''AMD Radeon RX 7600'' 29824 (Some ''Google Inc. (AMD)'') ''rdna-3''
       2560 1440 12 32 ''Intel Core i5-13400F'' None,
     variant ''win11-uhd630-1920x1080'' (41 / 1000) ''Intel(R) UHD Graphics 630'' 16018 (Some ''Google Inc. (Intel)'') ''gen-9''
       1920 1080 8 16 ''Intel Core i5-13400F'' None,
     variant ''win11-iris-xe-1536x864'' (33 / 1000) ''Intel(R) Iris(R) Xe Graphics'' 39497 (Some ''Google Inc. (Intel)'') ''gen-12''
       1536 864 8 8 ''Intel Core i5-13400F'' None]"

section \<open>A machine of the table\<close>

datatype family = Mac_Family | Windows_Family

definition upper_hex_digit :: "nat \<Rightarrow> char" where
  "upper_hex_digit n = ''0123456789ABCDEF'' ! n"

text \<open>\<open>{:08X}\<close>.\<close>

fun hex_fixed :: "nat \<Rightarrow> nat \<Rightarrow> str" where
  "hex_fixed 0 n = []"
| "hex_fixed (Suc k) n = hex_fixed k (n div 16) @ [upper_hex_digit (n mod 16)]"

definition windows_vendor_word :: "str option \<Rightarrow> str" where
  "windows_vendor_word vendor =
     (case vendor of
        None \<Rightarrow> ''NVIDIA''
      | Some v \<Rightarrow> if contains_str ''AMD'' v then ''AMD'' else if contains_str ''Intel'' v then ''Intel'' else ''NVIDIA'')"

definition webgpu_vendor :: "str \<Rightarrow> str" where
  "webgpu_vendor v =
     (if contains_str ''AMD'' v then ''amd'' else if contains_str ''Intel'' v then ''intel''
      else if contains_str ''Apple'' v then ''apple'' else ''nvidia'')"

definition renderer :: "family \<Rightarrow> variant \<Rightarrow> str" where
  "renderer fam v =
     (case fam of
        Mac_Family \<Rightarrow> ''ANGLE (Apple, ANGLE Metal Renderer: '' @ va_gpu_model v @ '', Unspecified Version)''
      | Windows_Family \<Rightarrow> ''ANGLE ('' @ windows_vendor_word (va_gpu_vendor v) @ '', '' @ va_gpu_model v @ '' (0x''
          @ hex_fixed 8 (va_pci_device v) @ '') Direct3D11 vs_5_0 ps_5_0, D3D11)'')"

definition os_of :: "family \<Rightarrow> variant \<Rightarrow> persona_os \<Rightarrow> persona_os" where
  "os_of fam v os =
     (case va_os_version v of
        None \<Rightarrow> os
      | Some version \<Rightarrow> os\<lparr>os_version := version,
          os_ch_platform_version :=
            (case fam of Mac_Family \<Rightarrow> version @ ''.0'' | Windows_Family \<Rightarrow> if version = ''10'' then ''10.0.0'' else ''15.0.0'')\<rparr>)"

definition gpu_of :: "family \<Rightarrow> variant \<Rightarrow> persona_gpu \<Rightarrow> persona_gpu" where
  "gpu_of fam v g =
     (let vendor = (case va_gpu_vendor v of None \<Rightarrow> gp_webgl_vendor g | Some n \<Rightarrow> n)
      in g\<lparr>gp_webgl_renderer := renderer fam v, gp_webgl_vendor := vendor,
           gp_webgpu := map_option (\<lambda>w. w\<lparr>wg_architecture := va_webgpu_arch v, wg_vendor := webgpu_vendor vendor\<rparr>) (gp_webgpu g)\<rparr>)"

text \<open>The free height is a difference of \<open>u32\<close>; no row is lower than the bars it takes off.\<close>

definition expand :: "machine_env \<Rightarrow> persona \<Rightarrow> family \<Rightarrow> variant \<Rightarrow> persona" where
  "expand E base fam v =
     base\<lparr>pe_id := va_id v, pe_weight := rounded E (va_weight v),
       pe_source := Some (if va_id v = ''macos-m5-1470x956'' \<or> va_id v = ''win11-rtx4060-1920x1080'' then ''measured'' else ''derived''),
       pe_os := os_of fam v (pe_os base), pe_gpu := gpu_of fam v (pe_gpu base),
       pe_screen := (pe_screen base)\<lparr>sn_width := va_width v, sn_height := va_height v, sn_avail_width := va_width v,
         sn_avail_height := va_height v - (case fam of Mac_Family \<Rightarrow> 123 | Windows_Family \<Rightarrow> 48)\<rparr>,
       pe_cpu := \<lparr>cp_cores = va_cores v, cp_model = Some (va_cpu_model v)\<rparr>, pe_memory_gb := va_memory_gb v\<rparr>"

definition table_of :: "machine_env \<Rightarrow> persona list" where
  "table_of E = map (expand E macos_base Mac_Family) macos_variants @ map (expand E windows_base Windows_Family) windows_variants"

text \<open>A contributed file that does not parse is skipped.\<close>

definition all_machines :: "machine_env \<Rightarrow> persona option list \<Rightarrow> persona list" where
  "all_machines E contributed = table_of E @ List.map_filter id contributed"

section \<open>A draw\<close>

fun walk :: "machine_env \<Rightarrow> f64 \<Rightarrow> persona list \<Rightarrow> persona option" where
  "walk E cursor [] = None"
| "walk E cursor (p # ps) =
     (let c = rounded E (cursor - pe_weight p) in if c < 0 then Some p else walk E c ps)"

definition total_weight :: "machine_env \<Rightarrow> persona list \<Rightarrow> f64" where
  "total_weight E ps = foldl (\<lambda>s p. rounded E (s + pe_weight p)) 0 ps"

definition unit_draw :: "u64 \<Rightarrow> f64" where
  "unit_draw roll = of_nat (unat (drop_bit 11 roll)) / 2 ^ 53"

text \<open>No machine to draw from is a panic.\<close>

definition pick_weighted_from :: "machine_env \<Rightarrow> persona list \<Rightarrow> u64 \<Rightarrow> persona option" where
  "pick_weighted_from E ps roll =
     (if ps = [] then None
      else if total_weight E ps \<le> 0 then Some (hd ps)
      else (case walk E (rounded E (unit_draw roll * total_weight E ps)) ps of
              Some p \<Rightarrow> Some p | None \<Rightarrow> Some (last ps)))"

definition pick_weighted :: "machine_env \<Rightarrow> persona option list \<Rightarrow> u64 \<Rightarrow> persona option" where
  "pick_weighted E contributed roll = pick_weighted_from E (all_machines E contributed) roll"

definition pick_weighted_on :: "machine_env \<Rightarrow> persona option list \<Rightarrow> u64 \<Rightarrow> str option \<Rightarrow> persona option" where
  "pick_weighted_on E contributed roll os =
     (let all = all_machines E contributed
      in case os of
           None \<Rightarrow> pick_weighted_from E all roll
         | Some name \<Rightarrow>
             let same = List.filter (\<lambda>p. os_name (pe_os p) = name) all
             in pick_weighted_from E (if same = [] then all else same) roll)"

section \<open>What the table holds\<close>

text \<open>What rounding to the nearest does, and what lowering does to ASCII letters.\<close>

definition rounds :: "machine_env \<Rightarrow> bool" where
  "rounds E \<longleftrightarrow> (\<forall>n \<le> 2 ^ 53. rounded E (of_nat n) = of_nat n) \<and> mono (rounded E)
     \<and> 0 < rounded E (1 / 1000000000) \<and> 0 \<le> rounded E (1 / 1000000)
     \<and> (\<forall>s. list_all (\<lambda>c. \<not> digit7 c) s \<longrightarrow> lowercase E s = lower s)"

text \<open>Rounding decides nothing about a machine with whole pixels.\<close>

lemma whole_pixels:
  assumes "rounds E" and "dpr = 1 \<or> dpr = 2" and "n \<le> 2 ^ 52"
  shows "\<not> fractional_pixels E n dpr"
proof -
  obtain k where k: "of_nat n * dpr = of_nat k" "k \<le> 2 ^ 53"
    using assms(2,3) by (elim disjE; intro that [of "n"] that [of "2 * n"]) (auto simp: mult.commute)
  have "round_half_up (of_nat k) = of_nat k"
  proof -
    have "\<lfloor>of_nat k + 1 / 2 :: rat\<rfloor> = int k" by (simp add: floor_eq_iff)
    then show ?thesis by (simp add: round_half_up_def)
  qed
  moreover have "rounded E (of_nat k) = of_nat k" "rounded E (of_nat 0) = of_nat 0"
    using assms(1) k(2) unfolding rounds_def by (blast, metis zero_le)
  ultimately show ?thesis using assms(1) k(1) by (simp add: fractional_pixels_def Let_def rounds_def)
qed

text \<open>What a row must satisfy, in numbers and in words.\<close>

definition sized :: "variant \<Rightarrow> bool" where
  "sized v \<longleftrightarrow> 0 \<le> va_weight v \<and> va_weight v \<le> 1 \<and> va_width v \<le> 10000 \<and> 200 \<le> va_height v \<and> va_height v \<le> 10000
     \<and> va_memory_gb v \<in> {8, 16, 32} \<and> va_cores v \<in> {6, 8, 10, 12, 16}"

definition worded :: "family \<Rightarrow> str \<Rightarrow> bool" where
  "worded fam r \<longleftrightarrow>
     (case fam of
        Mac_Family \<Rightarrow> \<not> contains_str ''Direct3D'' r \<and> \<not> contains_str ''D3D11'' r
      | Windows_Family \<Rightarrow> \<not> contains_str ''Metal'' r \<and> has_pci_device_id r = Some True)
   \<and> list_all (\<lambda>c. \<not> digit7 c) r"

definition vendors :: "(str \<times> str) list" where
  "vendors = [(''NVIDIA'', ''nvidia''), (''AMD'', ''amd''), (''Intel'', ''intel''), (''Apple'', ''apple'')]"

definition named :: "str \<Rightarrow> family \<Rightarrow> variant \<Rightarrow> bool" where
  "named vendor fam v \<longleftrightarrow>
     list_ex (\<lambda>(word, w). w = webgpu_vendor (case va_gpu_vendor v of None \<Rightarrow> vendor | Some n \<Rightarrow> n) \<and> contains_str word (renderer fam v)) vendors"

lemma rows_are_sized: "list_all sized macos_variants" "list_all sized windows_variants"
  by (simp_all add: sized_def macos_variants_def windows_variants_def)

lemma mac_renderers:
  "map (renderer Mac_Family) macos_variants =
    [''ANGLE (Apple, ANGLE Metal Renderer: Apple M5, Unspecified Version)'',
     ''ANGLE (Apple, ANGLE Metal Renderer: Apple M1, Unspecified Version)'',
     ''ANGLE (Apple, ANGLE Metal Renderer: Apple M2, Unspecified Version)'',
     ''ANGLE (Apple, ANGLE Metal Renderer: Apple M3 Pro, Unspecified Version)'',
     ''ANGLE (Apple, ANGLE Metal Renderer: Apple M4, Unspecified Version)'',
     ''ANGLE (Apple, ANGLE Metal Renderer: Apple M1 Pro, Unspecified Version)'',
     ''ANGLE (Apple, ANGLE Metal Renderer: Apple M2 Pro, Unspecified Version)'',
     ''ANGLE (Apple, ANGLE Metal Renderer: Apple M4 Pro, Unspecified Version)'']"
  by (simp add: macos_variants_def renderer_def)

lemma hex_eight:
  "hex_fixed 8 n = map (\<lambda>d. upper_hex_digit (n div d mod 16))
     [268435456, 16777216, 1048576, 65536, 4096, 256, 16, 1]"
proof -
  have eight: "8 = Suc (Suc (Suc (Suc (Suc (Suc (Suc (Suc 0)))))))" by simp
  show ?thesis unfolding eight hex_fixed.simps by (simp add: div_mult2_eq [symmetric])
qed

lemma windows_renderers:
  "map (renderer Windows_Family) windows_variants =
    [''ANGLE (NVIDIA, NVIDIA GeForce RTX 4060 (0x00002882) Direct3D11 vs_5_0 ps_5_0, D3D11)'',
     ''ANGLE (NVIDIA, NVIDIA GeForce RTX 3060 (0x00002504) Direct3D11 vs_5_0 ps_5_0, D3D11)'',
     ''ANGLE (NVIDIA, NVIDIA GeForce RTX 4070 (0x00002786) Direct3D11 vs_5_0 ps_5_0, D3D11)'',
     ''ANGLE (NVIDIA, NVIDIA GeForce GTX 1650 (0x00001F82) Direct3D11 vs_5_0 ps_5_0, D3D11)'',
     ''ANGLE (NVIDIA, NVIDIA GeForce RTX 3050 Laptop GPU (0x000025A2) Direct3D11 vs_5_0 ps_5_0, D3D11)'',
     ''ANGLE (AMD, AMD Radeon RX 6600 (0x000073FF) Direct3D11 vs_5_0 ps_5_0, D3D11)'',
     ''ANGLE (Intel, Intel(R) Iris(R) Xe Graphics (0x00009A49) Direct3D11 vs_5_0 ps_5_0, D3D11)'',
     ''ANGLE (Intel, Intel(R) UHD Graphics 620 (0x00005917) Direct3D11 vs_5_0 ps_5_0, D3D11)'',
     ''ANGLE (NVIDIA, NVIDIA GeForce GTX 1060 6GB (0x00001C03) Direct3D11 vs_5_0 ps_5_0, D3D11)'',
     ''ANGLE (NVIDIA, NVIDIA GeForce GTX 1660 (0x00002184) Direct3D11 vs_5_0 ps_5_0, D3D11)'',
     ''ANGLE (NVIDIA, NVIDIA GeForce RTX 3070 (0x00002484) Direct3D11 vs_5_0 ps_5_0, D3D11)'',
     ''ANGLE (NVIDIA, NVIDIA GeForce RTX 2060 (0x00001F08) Direct3D11 vs_5_0 ps_5_0, D3D11)'',
     ''ANGLE (NVIDIA, NVIDIA GeForce RTX 4060 Laptop GPU (0x000028E0) Direct3D11 vs_5_0 ps_5_0, D3D11)'',
     ''ANGLE (NVIDIA, NVIDIA GeForce RTX 3060 Laptop GPU (0x00002520) Direct3D11 vs_5_0 ps_5_0, D3D11)'',
     ''ANGLE (AMD, AMD Radeon RX 580 (0x000067DF) Direct3D11 vs_5_0 ps_5_0, D3D11)'',
     ''ANGLE (AMD, AMD Radeon RX 7600 (0x00007480) Direct3D11 vs_5_0 ps_5_0, D3D11)'',
     ''ANGLE (Intel, Intel(R) UHD Graphics 630 (0x00003E92) Direct3D11 vs_5_0 ps_5_0, D3D11)'',
     ''ANGLE (Intel, Intel(R) Iris(R) Xe Graphics (0x00009A49) Direct3D11 vs_5_0 ps_5_0, D3D11)'']"
  by (simp add: windows_variants_def renderer_def windows_vendor_word_def hex_eight upper_hex_digit_def)

lemma mac_words:
  "list_all (\<lambda>r. \<not> contains_str ''Direct3D'' r \<and> \<not> contains_str ''D3D11'' r) (map (renderer Mac_Family) macos_variants)"
  "list_all (list_all (\<lambda>c. \<not> digit7 c)) (map (renderer Mac_Family) macos_variants)"
  unfolding mac_renderers by code_simp (simp only: list.pred_inject; simp)

lemma windows_words:
  "list_all (\<lambda>r. \<not> contains_str ''Metal'' r) (map (renderer Windows_Family) windows_variants)"
  "list_all (\<lambda>r. has_pci_device_id r = Some True) (map (renderer Windows_Family) windows_variants)"
  "list_all (list_all (\<lambda>c. \<not> digit7 c)) (map (renderer Windows_Family) windows_variants)"
  unfolding windows_renderers
  subgoal by code_simp
  subgoal by code_simp
  subgoal by (simp only: list.pred_inject; simp)
  done

lemma rows_are_worded:
  "list_all (\<lambda>v. worded Mac_Family (renderer Mac_Family v)) macos_variants"
  "list_all (\<lambda>v. worded Windows_Family (renderer Windows_Family v)) windows_variants"
  using mac_words windows_words by (simp_all add: worded_def list_all_iff)

lemma rows_name_their_vendor:
  "list_all (named ''Google Inc. (Apple)'' Mac_Family) macos_variants"
  "list_all (named ''Google Inc. (NVIDIA)'' Windows_Family) windows_variants"
  by (simp_all add: macos_variants_def windows_variants_def named_def vendors_def webgpu_vendor_def renderer_def windows_vendor_word_def)

lemma rounded_weight:
  assumes "rounds E" and "0 \<le> w" and "w \<le> 1"
  shows "0 \<le> rounded E w" and "rounded E w \<le> 1"
proof -
  have "rounded E (of_nat 0) = of_nat 0" "rounded E (of_nat 1) = of_nat 1" using assms(1) unfolding rounds_def by (simp_all only: zero_le one_le_numeral one_le_power)
  then show "0 \<le> rounded E w" "rounded E w \<le> 1"
    using assms monoD [of "rounded E" 0 w] monoD [of "rounded E" w 1] by (auto simp: rounds_def)
qed

lemma ratio_allowed:
  assumes "rounds E" and "dpr \<in> set rs"
  shows "list_ex (\<lambda>a. \<bar>rounded E (a - dpr)\<bar> < rounded E (1 / 1000000000)) rs"
proof -
  have "rounded E (of_nat 0) = of_nat 0" using assms(1) unfolding rounds_def by blast
  then show ?thesis using assms by (auto simp: list_ex_iff rounds_def intro!: bexI [of _ dpr])
qed

lemma expanded_fields:
  "pe_gpu (expand E base fam v) = gpu_of fam v (pe_gpu base)" "gp_webgl_renderer (gpu_of fam v g) = renderer fam v"
  "os_name (pe_os (expand E base fam v)) = os_name (pe_os base)" "os_platform (pe_os (expand E base fam v)) = os_platform (pe_os base)"
  "pe_fonts (expand E base fam v) = pe_fonts base" "pe_audio (expand E base fam v) = pe_audio base"
  "pe_mobile (expand E base fam v) = pe_mobile base" "pe_chrome_metrics (expand E base fam v) = pe_chrome_metrics base"
  "pe_max_touch_points (expand E base fam v) = pe_max_touch_points base" "pe_weight (expand E base fam v) = rounded E (va_weight v)"
  "pe_memory_gb (expand E base fam v) = va_memory_gb v" "cp_cores (pe_cpu (expand E base fam v)) = va_cores v"
  "sn_width (pe_screen (expand E base fam v)) = va_width v" "sn_avail_width (pe_screen (expand E base fam v)) = va_width v"
  "sn_height (pe_screen (expand E base fam v)) = va_height v"
  "sn_avail_height (pe_screen (expand E base fam v)) = va_height v - (case fam of Mac_Family \<Rightarrow> 123 | Windows_Family \<Rightarrow> 48)"
  "sn_device_pixel_ratio (pe_screen (expand E base fam v)) = sn_device_pixel_ratio (pe_screen base)"
  "pe_voices (expand E base fam v) = pe_voices base" "pe_id (expand E base fam v) = va_id v"
  by (simp_all add: expand_def gpu_of_def os_of_def Let_def split: option.split)

lemma webgpu_of: "gp_webgpu (gpu_of fam v g) = map_option (\<lambda>w. w\<lparr>wg_architecture := va_webgpu_arch v,
    wg_vendor := webgpu_vendor (case va_gpu_vendor v of None \<Rightarrow> gp_webgl_vendor g | Some n \<Rightarrow> n)\<rparr>) (gp_webgpu g)"
  "gp_shader_precision (gpu_of fam v g) = gp_shader_precision g"
  by (simp_all add: gpu_of_def Let_def)

definition base_facts :: "str \<Rightarrow> str \<Rightarrow> str \<Rightarrow> nat \<Rightarrow> rat \<Rightarrow> persona \<Rightarrow> bool" where
  "base_facts os platform vendor bar dpr p \<longleftrightarrow>
     os_name (pe_os p) = os \<and> os_platform (pe_os p) = platform \<and> gp_webgl_vendor (pe_gpu p) = vendor
   \<and> cm_scrollbar_width (pe_chrome_metrics p) = bar \<and> sn_device_pixel_ratio (pe_screen p) = dpr \<and> pe_max_touch_points p = 0
   \<and> pe_mobile p = None \<and> au_sample_rate (pe_audio p) = 48000 \<and> pe_fonts p \<noteq> [] \<and> pe_voices p = []
   \<and> gp_shader_precision (pe_gpu p) = [] \<and> (case gp_webgpu (pe_gpu p) of None \<Rightarrow> False | Some w \<Rightarrow> wg_limits w \<noteq> [])
   \<and> (os = ''macOS'' \<longrightarrow> \<not> list_ex (\<lambda>f. f = ''Segoe UI'' \<or> f = ''Bahnschrift'') (pe_fonts p))
   \<and> (os = ''Windows'' \<longrightarrow> \<not> list_ex (\<lambda>f. f = ''Helvetica Neue'' \<or> f = ''Menlo'') (pe_fonts p))"

lemma bases:
  "base_facts ''macOS'' ''MacIntel'' ''Google Inc. (Apple)'' 0 2 macos_base"
  "base_facts ''Windows'' ''Win32'' ''Google Inc. (NVIDIA)'' 15 1 windows_base"
  by (simp_all add: base_facts_def macos_base_def windows_base_def)

lemma vendor_ok:
  assumes "rounds E" and "named (gp_webgl_vendor g) fam v" and "list_all (\<lambda>c. \<not> digit7 c) (renderer fam v)"
  shows "(case gp_webgpu (gpu_of fam v g) of None \<Rightarrow> []
    | Some w \<Rightarrow> err (\<not> contains_str (lowercase E (wg_vendor w)) (lowercase E (renderer fam v))) ''WebGPU vendor'') = []"
proof -
  let ?r = "renderer fam v" and ?w = "webgpu_vendor (case va_gpu_vendor v of None \<Rightarrow> gp_webgl_vendor g | Some n \<Rightarrow> n)"
  obtain word where word: "(word, ?w) \<in> set vendors" "contains_str word ?r"
    using assms(2) by (auto simp: named_def list_ex_iff)
  have "list_all (\<lambda>(word, w). lower word = w \<and> lower w = w \<and> list_all (\<lambda>c. \<not> digit7 c) w) vendors"
    by (simp add: vendors_def lower_def to_lower_def is_upper_def char_of_def bit_Suc_0_iff)
  then have lower: "lower word = ?w" "lower ?w = ?w" "list_all (\<lambda>c. \<not> digit7 c) ?w" using word(1) by (auto simp: list_all_iff)
  obtain a b where "?r = a @ word @ b" using word(2) by (auto simp: contains_iff)
  then have "lower ?r = lower a @ ?w @ lower b" using lower(1) by (simp add: lower_def)
  then have "contains_str (lower ?w) (lower ?r)" unfolding contains_iff lower(2) by blast
  moreover have "lowercase E ?w = lower ?w" "lowercase E ?r = lower ?r" using assms(1,3) lower(3) by (auto simp: rounds_def)
  ultimately show ?thesis by (simp add: webgpu_of split: option.split)
qed

lemma windows_row_valid:
  assumes E: "rounds E" and v: "sized v" "worded Windows_Family (renderer Windows_Family v)" "named ''Google Inc. (NVIDIA)'' Windows_Family v"
  shows "validate E (expand E windows_base Windows_Family v) = []"
proof -
  note base = bases(2) [unfolded base_facts_def]
  have memory: "va_memory_gb v AND (va_memory_gb v - Suc 0) = 0" "va_cores v mod 2 = 0" "8 \<le> va_memory_gb v" "0 < va_cores v" "va_cores v \<le> 128"
    "\<not> va_height v < va_height v - 123" "\<not> va_height v < va_height v - 48" "va_height v - 123 \<noteq> va_height v" "0 \<le> va_weight v" "va_weight v \<le> 1" using v(1) by (auto simp: sized_def)
  have pixels: "\<not> fractional_pixels E (va_width v) 1" "\<not> fractional_pixels E (va_height v) 1"
    using E v(1) by (intro whole_pixels; simp add: sized_def)+
  have gpu: "(case gp_webgpu (gpu_of Windows_Family v (pe_gpu windows_base)) of None \<Rightarrow> []
    | Some w \<Rightarrow> err (\<not> contains_str (lowercase E (wg_vendor w)) (lowercase E (renderer Windows_Family v))) ''WebGPU vendor'') = []"
    using base v by (intro vendor_ok E) (simp_all add: worded_def)
  show ?thesis
    unfolding validate_def Let_def append_is_Nil_conv expanded_fields gpu
    using base v(2) memory pixels ratio_allowed [OF E, of 1 "allowed_ratios False"] rounded_weight [OF E, of "va_weight v"]
    by (simp add: is_android_def validate_mobile_def expanded_fields worded_def audio_sample_rates_def allowed_ratios_def)
qed

lemma mac_row_valid:
  assumes E: "rounds E" and v: "sized v" "worded Mac_Family (renderer Mac_Family v)" "named ''Google Inc. (Apple)'' Mac_Family v"
  shows "validate E (expand E macos_base Mac_Family v) = []"
proof -
  note base = bases(1) [unfolded base_facts_def]
  have memory: "va_memory_gb v AND (va_memory_gb v - Suc 0) = 0" "va_cores v mod 2 = 0" "8 \<le> va_memory_gb v" "0 < va_cores v" "va_cores v \<le> 128"
    "\<not> va_height v < va_height v - 123" "\<not> va_height v < va_height v - 48" "va_height v - 123 \<noteq> va_height v" "0 \<le> va_weight v" "va_weight v \<le> 1" using v(1) by (auto simp: sized_def)
  have pixels: "\<not> fractional_pixels E (va_width v) 2" "\<not> fractional_pixels E (va_height v) 2"
    using E v(1) by (intro whole_pixels; simp add: sized_def)+
  have gpu: "(case gp_webgpu (gpu_of Mac_Family v (pe_gpu macos_base)) of None \<Rightarrow> []
    | Some w \<Rightarrow> err (\<not> contains_str (lowercase E (wg_vendor w)) (lowercase E (renderer Mac_Family v))) ''WebGPU vendor'') = []"
    using base v by (intro vendor_ok E) (simp_all add: worded_def)
  show ?thesis
    unfolding validate_def Let_def append_is_Nil_conv expanded_fields gpu
    using base v(2) memory pixels ratio_allowed [OF E, of 2 "allowed_ratios True"] rounded_weight [OF E, of "va_weight v"]
    by (simp add: is_android_def validate_mobile_def expanded_fields worded_def audio_sample_rates_def allowed_ratios_def)
qed

lemma row_complete: "base_facts os platform vendor bar dpr base \<Longrightarrow> has_everything (expand E base fam v)"
  by (auto simp: base_facts_def has_everything_def expanded_fields webgpu_of mobile_voices_def split: option.splits)

lemma table_valid:
  assumes "rounds E" and p: "p \<in> set (table_of E)"
  shows "validate E p = [] \<and> has_everything p"
  using p unfolding table_of_def
proof (elim set_append [THEN equalityD1, THEN subsetD, THEN UnE])
  assume "p \<in> set (map (expand E macos_base Mac_Family) macos_variants)"
  then show ?thesis using mac_row_valid [OF assms(1)] row_complete [OF bases(1)] rows_are_sized(1) rows_are_worded(1) rows_name_their_vendor(1)
    by (auto simp: list_all_iff)
next
  assume "p \<in> set (map (expand E windows_base Windows_Family) windows_variants)"
  then show ?thesis using windows_row_valid [OF assms(1)] row_complete [OF bases(2)] rows_are_sized(2) rows_are_worded(2) rows_name_their_vendor(2)
    by (auto simp: list_all_iff)
qed

text \<open>
  C12. Every machine of the built-in table exists: whatever the rounding and the letters outside ASCII do,
  the persona that is made of a row passes every check of a persona, has a configuration with nothing
  missing, and an id no other row has.
\<close>

theorem every_machine_of_the_table_exists:
  assumes "rounds E"
  shows "list_all (\<lambda>p. validate E p = [] \<and> check_core_config (launched name no_overrides p seed ctx) = []) (table_of E)
    \<and> distinct (map pe_id (table_of E))"
proof
  show "list_all (\<lambda>p. validate E p = [] \<and> check_core_config (launched name no_overrides p seed ctx) = []) (table_of E)"
    using table_valid [OF assms] by (simp add: list_all_iff everything_passes)
  have "distinct (map va_id (macos_variants @ windows_variants))" by (simp add: macos_variants_def windows_variants_def)
  then show "distinct (map pe_id (table_of E))" by (simp add: table_of_def expanded_fields comp_def)
qed

lemma exact_rounds: "rounds exact_env"
  by (auto simp: rounds_def exact_env_def mono_def)

theorem every_machine_of_the_table_exists_witness:
  "rounds exact_env \<and> list_all (\<lambda>p. validate exact_env p = []) (table_of exact_env)"
  using exact_rounds every_machine_of_the_table_exists [OF exact_rounds, of None 0 undefined] by (auto simp: list_all_iff)

end
