(* ===== verification/Draw.thy ===== *)
theory Draw
  imports Catalogue
begin

section \<open>Who is drawn\<close>

lemma walk_member: "walk E c ps = Some p \<Longrightarrow> p \<in> set ps"
  by (induction E c ps rule: walk.induct) (auto simp: Let_def split: if_splits)

lemma pick_member:
  assumes "ps \<noteq> []"
  shows "\<exists>p \<in> set ps. pick_weighted_from E ps roll = Some p"
  using assms by (auto simp: pick_weighted_from_def walk_member split: option.split)

lemma table_systems:
  "\<exists>q \<in> set (table_of E). os_name (pe_os q) = ''macOS''" "\<exists>q \<in> set (table_of E). os_name (pe_os q) = ''Windows''"
  using bases by (auto simp: table_of_def expanded_fields base_facts_def macos_variants_def windows_variants_def)

definition drawn_from :: "persona list \<Rightarrow> str option \<Rightarrow> persona list" where
  "drawn_from all os =
     (case os of
        None \<Rightarrow> all
      | Some name \<Rightarrow> if list_ex (\<lambda>p. os_name (pe_os p) = name) all then List.filter (\<lambda>p. os_name (pe_os p) = name) all else all)"

lemma pick_on_drawn:
  "pick_weighted_on E contributed roll os = pick_weighted_from E (drawn_from (all_machines E contributed) os) roll"
  by (auto simp: pick_weighted_on_def drawn_from_def Let_def list_ex_iff filter_empty_conv split: option.split)

lemma drawn_systems:
  assumes "name = ''macOS'' \<or> name = ''Windows''"
  shows "list_all (\<lambda>p. os_name (pe_os p) = name) (drawn_from (all_machines E contributed) (Some name))"
proof -
  have "list_ex (\<lambda>p. os_name (pe_os p) = name) (all_machines E contributed)"
    using table_systems [of E] assms by (auto simp: all_machines_def list_ex_iff)
  then show ?thesis by (simp add: drawn_from_def list_all_iff)
qed

lemma drawn_not_Nil: "drawn_from (all_machines E contributed) os \<noteq> []"
proof -
  have "all_machines E contributed \<noteq> []" using table_systems(1) [of E] by (auto simp: all_machines_def)
  then show ?thesis by (auto simp: drawn_from_def list_ex_iff filter_empty_conv split: option.split)
qed

abbreviation share :: "persona list \<Rightarrow> rat" where
  "share ps \<equiv> sum_list (map pe_weight ps)"

lemma total_exact:
  assumes "\<And>x. rounded E x = x"
  shows "total_weight E ps = share ps"
proof -
  have "foldl (\<lambda>s p. rounded E (s + pe_weight p)) a ps = a + share ps" for a
    by (induction ps arbitrary: a) (simp_all add: assms)
  then show ?thesis by (simp add: total_weight_def)
qed

lemma walk_exact:
  assumes "\<And>x. rounded E x = x" and "0 \<le> c" and "c < share ps"
  shows "\<exists>i < length ps. walk E c ps = Some (ps ! i) \<and> share (take i ps) \<le> c \<and> c < share (take (Suc i) ps)"
  using assms(2,3)
proof (induction ps arbitrary: c)
  case (Cons p ps)
  show ?case
  proof (cases "c < pe_weight p")
    case True
    then show ?thesis using Cons.prems by (intro exI [of _ 0]) (simp add: assms(1))
  next
    case False
    then obtain i where "i < length ps" "walk E (c - pe_weight p) ps = Some (ps ! i)"
      "share (take i ps) \<le> c - pe_weight p" "c - pe_weight p < share (take (Suc i) ps)"
      using Cons.IH [of "c - pe_weight p"] Cons.prems by auto
    then show ?thesis using False by (intro exI [of _ "Suc i"]) (auto simp: assms(1) Let_def)
  qed
qed simp

lemma unit_draw_bounds: "0 \<le> unit_draw roll \<and> unit_draw roll < 1"
proof -
  have "unat (drop_bit 11 roll) < 2 ^ 53"
  proof -
    have "unat roll < 2 ^ 64" using unsigned_less [where w = roll and ?'a = nat] by simp
    then have "unat roll div 2 ^ 11 < 2 ^ 53" by (simp add: div_less_iff_less_mult)
    then show ?thesis by (simp add: unsigned_drop_bit_eq drop_bit_eq_div unat_div)
  qed
  then obtain k where "unat (drop_bit 11 roll) = k" "k < 2 ^ 53" by blast
  moreover from this(2) have "(of_nat k :: rat) < of_nat (2 ^ 53)" by (simp only: of_nat_less_iff)
  ultimately show ?thesis unfolding unit_draw_def by (simp only:) simp
qed

lemma pick_exact:
  assumes "\<And>x. rounded E x = x" and "0 < total_weight E ps"
  shows "\<exists>i < length ps. pick_weighted_from E ps roll = Some (ps ! i)
     \<and> share (take i ps) \<le> unit_draw roll * share ps \<and> unit_draw roll * share ps < share (take (Suc i) ps)"
proof -
  have pos: "0 < share ps" using assms(2) by (simp add: total_exact [OF assms(1)])
  then have "0 \<le> unit_draw roll * share ps" "unit_draw roll * share ps < share ps"
    using unit_draw_bounds [of roll] by (simp_all add: mult_less_cancel_right1)
  from walk_exact [OF assms(1) this] obtain i where "i < length ps" "walk E (unit_draw roll * share ps) ps = Some (ps ! i)"
    "share (take i ps) \<le> unit_draw roll * share ps" "unit_draw roll * share ps < share (take (Suc i) ps)" by blast
  then show ?thesis using pos by (intro exI [of _ i]) (auto simp: pick_weighted_from_def total_exact [OF assms(1)] assms(1))
qed

text \<open>
  C14. A draw never panics and gives a machine of the catalogue, whatever rounding does to the shares; a
  profile made on a Mac or on Windows gets a machine of that system. Without rounding the draw is the
  distribution of the shares: the 53 high bits of the roll are a point of the total share, and the machine
  is the one whose stretch of it the point falls in.
\<close>

theorem a_draw_follows_the_shares_of_this_system:
  "let ps = drawn_from (all_machines E contributed) os
   in (\<exists>i < length ps. pick_weighted_on E contributed roll os = Some (ps ! i)
        \<and> ((\<forall>x. rounded E x = x) \<and> 0 < total_weight E ps \<longrightarrow>
             share (take i ps) \<le> unit_draw roll * share ps \<and> unit_draw roll * share ps < share (take (Suc i) ps)))
    \<and> (\<forall>name \<in> {''macOS'', ''Windows''}. os = Some name \<longrightarrow> list_all (\<lambda>p. os_name (pe_os p) = name) ps)"
proof -
  let ?ps = "drawn_from (all_machines E contributed) os"
  have "\<exists>i < length ?ps. pick_weighted_from E ?ps roll = Some (?ps ! i)
        \<and> ((\<forall>x. rounded E x = x) \<and> 0 < total_weight E ?ps \<longrightarrow>
             share (take i ?ps) \<le> unit_draw roll * share ?ps \<and> unit_draw roll * share ?ps < share (take (Suc i) ?ps))"
  proof (cases "(\<forall>x. rounded E x = x) \<and> 0 < total_weight E ?ps")
    case True
    then show ?thesis using pick_exact [of E ?ps roll] by blast
  next
    case False
    obtain i where "i < length ?ps" "pick_weighted_from E ?ps roll = Some (?ps ! i)"
      using pick_member [OF drawn_not_Nil [of E contributed os], of E roll] by (auto simp: in_set_conv_nth)
    then show ?thesis using False by blast
  qed
  then show ?thesis using drawn_systems [of _ E contributed] unfolding Let_def pick_on_drawn by auto
qed

theorem a_draw_follows_the_shares_of_this_system_witness:
  "\<exists>p. pick_weighted_on exact_env [] 0 (Some ''macOS'') = Some p \<and> os_name (pe_os p) = ''macOS''"
  using a_draw_follows_the_shares_of_this_system [of exact_env "[]" "Some ''macOS''" 0] by (auto simp: Let_def list_all_iff)

end
