(* ===== verification/Start.thy ===== *)
theory Start
  imports Catalogue Rbac
begin

text \<open>
  What a launch hands to the browser: where the exit is (\<open>agent/src/ipc.rs\<close>), the name of its window
  (\<open>dock.rs\<close>), the arguments of the process and the check before it (\<open>launcher.rs\<close>), and the slots its
  configuration and its cookie key arrive in (\<open>platform-rs/src/carrier.rs\<close>).
\<close>

section \<open>Where the exit is\<close>

text \<open>\<open>f64::from_str\<close>: \<open>inf\<close> and \<open>nan\<close>, which are no place, are None here.\<close>

definition sign_of :: "str \<Rightarrow> bool \<times> str" where
  "sign_of s = (case s of [] \<Rightarrow> (False, []) | c # t \<Rightarrow> if c = CHR ''-'' then (True, t) else if c = CHR ''+'' then (False, t) else (False, s))"

definition exponent_of :: "str \<Rightarrow> int option" where
  "exponent_of s =
     (case s of
        [] \<Rightarrow> Some 0
      | c # t \<Rightarrow>
          if c = CHR ''e'' \<or> c = CHR ''E'' then
            (let (neg, d) = sign_of t
             in if d = [] \<or> \<not> list_all is_digit d then None
                else Some (if neg then - int (digits_value 0 d) else int (digits_value 0 d)))
          else None)"

definition parse_decimal :: "str \<Rightarrow> rat option" where
  "parse_decimal s =
     (let (neg, body) = sign_of s;
          whole = takeWhile is_digit body; rest = dropWhile is_digit body;
          (frac, tail) = (case rest of
              [] \<Rightarrow> ([], [])
            | c # t \<Rightarrow> if c = CHR ''.'' then (takeWhile is_digit t, dropWhile is_digit t) else ([], rest));
          m = (if neg then -1 else 1) * of_nat (digits_value 0 (whole @ frac))
      in if whole = [] \<and> frac = [] then None
         else map_option (\<lambda>e. if e < 0 then m / 10 ^ (length frac + nat (- e)) else m * 10 ^ nat e / 10 ^ length frac) (exponent_of tail))"

definition parse_f64 :: "machine_env \<Rightarrow> str \<Rightarrow> f64 option" where
  "parse_f64 E s = map_option (rounded E) (parse_decimal s)"

definition parse_location :: "machine_env \<Rightarrow> str \<Rightarrow> (f64 \<times> f64) option" where
  "parse_location E raw =
     (case split_once (CHR '','') (trim raw) of
        None \<Rightarrow> None
      | Some (a, b) \<Rightarrow>
          (case (parse_f64 E (trim a), parse_f64 E (trim b)) of
             (Some lat, Some lng) \<Rightarrow>
               if \<not> (-90 \<le> lat \<and> lat \<le> 90) \<or> \<not> (-180 \<le> lng \<and> lng \<le> 180) then None else Some (lat, lng)
           | _ \<Rightarrow> None))"

text \<open>What is known of an exit, remembered with the proxy or answered now.\<close>

record exit_facts =
  xf_country :: "str option"
  xf_timezone :: "str option"
  xf_location :: "str option"

definition nothing_known :: exit_facts where
  "nothing_known = \<lparr>xf_country = None, xf_timezone = None, xf_location = None\<rparr>"

record exit_proxy =
  xp_url :: str
  xp_last :: exit_facts

record start_profile =
  sf_id :: str
  sf_title :: str
  sf_persona_id :: str
  sf_fp_seed :: u64
  sf_timezone :: "str option"
  sf_languages :: "str list option"
  sf_start_urls :: "str list"
  sf_overrides :: machine_overrides
  sf_proxy :: "exit_proxy option"
  sf_allow_no_proxy :: bool

definition remembered :: "start_profile \<Rightarrow> exit_facts" where
  "remembered f = (case sf_proxy f of None \<Rightarrow> nothing_known | Some x \<Rightarrow> xp_last x)"

definition asks_exit :: "start_profile \<Rightarrow> bool" where
  "asks_exit f \<longleftrightarrow>
     (sf_timezone f = None \<and> xf_timezone (remembered f) = None)
   \<or> (sf_languages f = None \<and> xf_country (remembered f) = None)
   \<or> xf_location (remembered f) = None"

definition first_known :: "'a option \<Rightarrow> 'a option \<Rightarrow> 'a option" where
  "first_known a b = (case a of None \<Rightarrow> b | Some _ \<Rightarrow> a)"

definition exit_of :: "start_profile \<Rightarrow> exit_facts option \<Rightarrow> exit_facts" where
  "exit_of f answer =
     (let known = remembered f
      in if asks_exit f then
           (case answer of
              None \<Rightarrow> known
            | Some a \<Rightarrow> \<lparr>xf_country = first_known (xf_country a) (xf_country known),
                xf_timezone = first_known (xf_timezone a) (xf_timezone known), xf_location = first_known (xf_location a) (xf_location known)\<rparr>)
         else known)"

definition context_of :: "machine_env \<Rightarrow> nat \<Rightarrow> str \<Rightarrow> start_profile \<Rightarrow> exit_facts option \<Rightarrow> profile_context" where
  "context_of E major full f answer =
     (let x = exit_of f answer;
          locale = (case Option.bind (xf_country x) for_country of Some l \<Rightarrow> l | None \<Rightarrow> fallback)
      in \<lparr>pc_timezone = (case sf_timezone f of Some t \<Rightarrow> t | None \<Rightarrow> (case xf_timezone x of Some t \<Rightarrow> t | None \<Rightarrow> ''UTC'')),
          pc_languages = (case sf_languages f of Some ls \<Rightarrow> ls | None \<Rightarrow> lo_languages locale),
          pc_ui_locale = (case sf_languages f of
             Some ls \<Rightarrow> ui_locale_for (case ls of [] \<Rightarrow> None | l # _ \<Rightarrow> Some l) | None \<Rightarrow> lo_ui locale),
          pc_geolocation = Option.bind (xf_location x) (parse_location E),
          pc_chrome_major = major, pc_chrome_full_version = full\<rparr>)"

section \<open>The name of the window\<close>

text \<open>\<open>str::chars\<close>: a byte that starts a character and those that continue it.\<close>

definition continues :: "char \<Rightarrow> bool" where
  "continues c \<longleftrightarrow> 128 \<le> code c \<and> code c < 192"

function chars_of :: "str \<Rightarrow> str list" where
  "chars_of [] = []"
| "chars_of (c # s) = (c # takeWhile continues s) # chars_of (dropWhile continues s)"
  by pat_completeness auto
termination by (relation "measure length") (auto simp: le_imp_less_Suc length_dropWhile_le)

definition is_control :: "str \<Rightarrow> bool" where
  "is_control ch =
     (case ch of
        [a] \<Rightarrow> code a < 32 \<or> code a = 127
      | [a, b] \<Rightarrow> code a = 194 \<and> 128 \<le> code b \<and> code b < 160
      | _ \<Rightarrow> False)"

definition display_name :: "str \<Rightarrow> str option" where
  "display_name name =
     (let cleaned = concat (take 80 (map (\<lambda>ch. if ch = ''/'' \<or> ch = '':'' then ''-'' else ch)
            (List.filter (\<lambda>ch. \<not> is_control ch) (chars_of name))));
          t = trim (dropWhile (\<lambda>c. c = CHR ''.'') (trim cleaned))
      in if t = [] then None else Some t)"

section \<open>The process\<close>

datatype slot = Descriptor nat | Handle nat

definition carrier_switch :: "str \<Rightarrow> slot \<Rightarrow> str" where
  "carrier_switch stem s =
     ''--'' @ stem @ (case s of Descriptor n \<Rightarrow> ''-fd='' @ show_nat n | Handle n \<Rightarrow> ''-file-handle='' @ show_nat n)"

record process_spec =
  ps_user_data_dir :: str
  ps_config :: json
  ps_relay_port :: nat
  ps_restrictions :: launch_restrictions
  ps_start_urls :: "str list"
  ps_extensions :: "str list"
  ps_debug_port :: "nat option"
  ps_os_crypt_key :: "bytes option"
  ps_ui_locale :: str

definition debug_args :: "process_spec \<Rightarrow> str list" where
  "debug_args spec =
     (case ps_debug_port spec of
        Some p \<Rightarrow> if deny_cdp (ps_restrictions spec) then [] else [''--remote-debugging-port='' @ show_nat p, ''--remote-allow-origins=*'']
      | None \<Rightarrow> [])"

definition own_args :: "process_spec \<Rightarrow> str list" where
  "own_args spec =
     [''--user-data-dir='' @ ps_user_data_dir spec,
      ''--proxy-server=http://127.0.0.1:'' @ show_nat (ps_relay_port spec),
      ''--proxy-bypass-list=<-loopback>'', ''--no-default-browser-check'', ''--no-first-run'', ''--restore-last-session'',
      ''--disable-background-networking'', ''--disable-domain-reliability'', ''--disable-breakpad'',
      ''--safebrowsing-disable-auto-update'', ''--disable-quic'', ''--disable-field-trial-config'',
      ''--lang='' @ ps_ui_locale spec]
     @ (if ps_extensions spec \<noteq> [] then
          [''--disable-extensions-except='' @ join '','' (ps_extensions spec), ''--load-extension='' @ join '','' (ps_extensions spec)]
        else [])
     @ (if lock_devtools (ps_restrictions spec) then [''--fury-lock-devtools''] else [])
     @ (if lock_data_export (ps_restrictions spec) then [''--fury-lock-data-export''] else [])
     @ debug_args spec"

definition build_args :: "process_spec \<Rightarrow> str list" where
  "build_args spec = own_args spec @ ps_start_urls spec"

definition carrier_switches :: "slot \<Rightarrow> slot option \<Rightarrow> str list" where
  "carrier_switches config oscrypt =
     carrier_switch ''fury-fp'' config # (case oscrypt of None \<Rightarrow> [] | Some k \<Rightarrow> [carrier_switch ''fury-oscrypt'' k])"

datatype launch_error = Inconsistent "str list" | Core_Missing | Io

text \<open>A browser that runs: its arguments, and what it reads from the two inherited files.\<close>

record browser =
  br_args :: "str list"
  br_config :: json
  br_key :: "bytes option"

text \<open>\<open>works\<close>: the files are made and the process starts.\<close>

definition spawn :: "bool \<Rightarrow> bool \<Rightarrow> slot \<Rightarrow> slot \<Rightarrow> process_spec \<Rightarrow> launch_error + browser" where
  "spawn core_exists works config_slot key_slot spec =
     (if check_core_config (ps_config spec) \<noteq> [] then Inl (Inconsistent (check_core_config (ps_config spec)))
      else if \<not> core_exists then Inl Core_Missing
      else if \<not> works then Inl Io
      else Inr \<lparr>br_args = build_args spec @ carrier_switches config_slot (map_option (\<lambda>_. key_slot) (ps_os_crypt_key spec)),
                br_config = ps_config spec, br_key = ps_os_crypt_key spec\<rparr>)"

definition demo_context :: profile_context where
  "demo_context = \<lparr>pc_timezone = ''Europe/Berlin'', pc_languages = [''de-DE'', ''de''], pc_ui_locale = ''de'', pc_geolocation = None,
     pc_chrome_major = 155, pc_chrome_full_version = ''155.0.8059.39''\<rparr>"

section \<open>What a browser is started with\<close>

abbreviation switches :: "str \<Rightarrow> str list \<Rightarrow> str list" where
  "switches p args \<equiv> List.filter (prefix p) args"

lemma spawn_Inr:
  "spawn ex works cs ks spec = Inr b \<longleftrightarrow>
     check_core_config (ps_config spec) = [] \<and> ex \<and> works
   \<and> b = \<lparr>br_args = build_args spec @ carrier_switches cs (map_option (\<lambda>_. ks) (ps_os_crypt_key spec)), br_config = ps_config spec,
           br_key = ps_os_crypt_key spec\<rparr>"
  by (auto simp: spawn_def)

lemma filter_if: "List.filter P (if c then xs else ys) = (if c then List.filter P xs else List.filter P ys)"
  by simp

lemma own_switches:
  "switches ''--proxy-server'' (own_args spec) = [''--proxy-server=http://127.0.0.1:'' @ show_nat (ps_relay_port spec)]"
  "switches ''--lang='' (own_args spec) = [''--lang='' @ ps_ui_locale spec]"
  "switches ''--fury-oscrypt'' (own_args spec) = []"
  "switches ''--remote-debugging'' (own_args spec) = switches ''--remote-debugging'' (debug_args spec)"
proof -
  have d: "switches ''--proxy-server'' (debug_args spec) = []" "switches ''--lang='' (debug_args spec) = []"
    "switches ''--fury-oscrypt'' (debug_args spec) = []"
    by (auto simp: debug_args_def split: option.split)
  show "switches ''--proxy-server'' (own_args spec) = [''--proxy-server=http://127.0.0.1:'' @ show_nat (ps_relay_port spec)]"
    by (simp add: own_args_def d filter_if)
  show "switches ''--lang='' (own_args spec) = [''--lang='' @ ps_ui_locale spec]"
    by (simp add: own_args_def d filter_if)
  show "switches ''--fury-oscrypt'' (own_args spec) = []"
    by (simp add: own_args_def d filter_if)
  show "switches ''--remote-debugging'' (own_args spec) = switches ''--remote-debugging'' (debug_args spec)"
    by (simp add: own_args_def filter_if)
qed

lemma slot_switches:
  "switches ''--proxy-server'' (carrier_switches c k) = []" "switches ''--lang='' (carrier_switches c k) = []"
  "switches ''--remote-debugging'' (carrier_switches c k) = []"
  "switches ''--fury-oscrypt'' (carrier_switches c k) = (case k of None \<Rightarrow> [] | Some x \<Rightarrow> [carrier_switch ''fury-oscrypt'' x])"
  by (cases k; simp add: carrier_switches_def carrier_switch_def)+

text \<open>The switches a browser that runs has for the relay and the language.\<close>

lemma spawn_switches:
  assumes "spawn core_exists works config_slot key_slot spec = Inr b"
  shows "switches ''--proxy-server'' (br_args b) =
      (''--proxy-server=http://127.0.0.1:'' @ show_nat (ps_relay_port spec)) # switches ''--proxy-server'' (ps_start_urls spec)"
    and "switches ''--lang='' (br_args b) = (''--lang='' @ ps_ui_locale spec) # switches ''--lang='' (ps_start_urls spec)"
  using assms by (simp_all add: spawn_Inr build_args_def own_switches slot_switches)

text \<open>
  C9. A browser only runs with a configuration it can read in full, and every switch of its address, its
  debugger, its language and its cookie key is the agent's own: one relay on this machine, a debugging
  port only when one was asked for and is allowed, the language it was given, a slot for a key exactly
  when there is one. What can add to them is a start URL of the profile, which is passed behind the
  switches as it is.
\<close>

theorem what_a_browser_is_started_with:
  assumes "spawn core_exists works config_slot key_slot spec = Inr b"
  shows "check_core_config (br_config b) = [] \<and> br_config b = ps_config spec \<and> br_key b = ps_os_crypt_key spec
    \<and> switches ''--proxy-server'' (br_args b) =
        (''--proxy-server=http://127.0.0.1:'' @ show_nat (ps_relay_port spec)) # switches ''--proxy-server'' (ps_start_urls spec)
    \<and> switches ''--remote-debugging'' (br_args b) =
        (case ps_debug_port spec of
           Some p \<Rightarrow> if deny_cdp (ps_restrictions spec) then [] else [''--remote-debugging-port='' @ show_nat p]
         | None \<Rightarrow> []) @ switches ''--remote-debugging'' (ps_start_urls spec)
    \<and> switches ''--lang='' (br_args b) = (''--lang='' @ ps_ui_locale spec) # switches ''--lang='' (ps_start_urls spec)
    \<and> switches ''--fury-oscrypt'' (br_args b) = switches ''--fury-oscrypt'' (ps_start_urls spec)
        @ (case ps_os_crypt_key spec of None \<Rightarrow> [] | Some _ \<Rightarrow> [carrier_switch ''fury-oscrypt'' key_slot])"
proof -
  have "switches ''--remote-debugging'' (debug_args spec) = (case ps_debug_port spec of
      Some p \<Rightarrow> if deny_cdp (ps_restrictions spec) then [] else [''--remote-debugging-port='' @ show_nat p] | None \<Rightarrow> [])"
    by (simp add: debug_args_def split: option.split)
  then show ?thesis
    using assms spawn_switches [OF assms]
    by (simp add: spawn_Inr build_args_def own_switches slot_switches split: option.split)
qed

definition demo_spec :: process_spec where
  "demo_spec =
     \<lparr>ps_user_data_dir = ''/p'', ps_config = launched None no_overrides demo_phone 7 demo_context, ps_relay_port = 41000,
      ps_restrictions = for_perms full_profile_work, ps_start_urls = [''--proxy-server=socks5://198.51.100.7:1080''],
      ps_extensions = [], ps_debug_port = None, ps_os_crypt_key = None, ps_ui_locale = ''de''\<rparr>"

lemma demo_phone_complete: "has_everything demo_phone"
  by (simp add: has_everything_def demo_phone_def mobile_voices_def)

theorem what_a_browser_is_started_with_witness:
  "\<exists>b. spawn True True (Descriptor 3) (Descriptor 4) demo_spec = Inr b
     \<and> switches ''--proxy-server'' (br_args b) = [''--proxy-server=http://127.0.0.1:41000'', ''--proxy-server=socks5://198.51.100.7:1080'']"
proof -
  have "check_core_config (ps_config demo_spec) = []" using demo_phone_complete by (simp add: demo_spec_def everything_passes)
  then obtain b where b: "spawn True True (Descriptor 3) (Descriptor 4) demo_spec = Inr b" by (simp add: spawn_def)
  have "show_nat 41000 = ''41000''" by (simp add: show_nat.simps digit_char_def char_of_def bit_Suc_0_iff)
  then show ?thesis using b what_a_browser_is_started_with [OF b] by (simp add: demo_spec_def)
qed

end
