(* ===== verification/Launch.thy ===== *)
theory Launch
  imports Start Sync Keys Proxy_Lines
begin

text \<open>
  Opening a profile (\<open>launch\<close> of \<open>agent/src/ipc.rs\<close>) from the request to the running browser: what refuses
  it, in which order, and what is left when something does. The network, the disk and the process are what
  they answered (\<open>outside\<close>); the pull of the bundle is \<open>launch_pull\<close> of \<open>Sync\<close>.
\<close>

section \<open>The request and the machine\<close>

record team_keys =
  tk_profile_key :: bytes
  tk_cookie_key :: "bytes option"

record start_request =
  sr_team_profile :: "start_profile option"
  sr_stored :: "start_profile option"
  sr_server :: bool
  sr_team :: "team_keys option"
  sr_cdp :: bool

text \<open>
  What is on this machine for the profile: the copy and its records, the key the cookies are under
  (\<open>Fury Key Id\<close>, which travels in a bundle), a session to restore; the relays that listen, what the row of its
  proxy remembers of the exit, when it was opened, whether its lock is renewed, and the browser.
\<close>

datatype entry = Not_Running | Open_Now | Closed_Unseen

record start_state =
  ss_copy :: local_copy
  ss_key_id :: "str option"
  ss_sessions :: bool
  ss_relays :: nat
  ss_exit_row :: exit_facts
  ss_opened_at :: "time option"
  ss_heartbeat :: bool
  ss_entry :: entry
  ss_browser :: "browser option"

record 'w outside =
  ou_env :: machine_env
  ou_crypto :: crypto
  ou_personas :: "persona list"
  ou_major :: nat
  ou_full_version :: str
  ou_wireguard :: "str \<Rightarrow> 'w option"
  ou_core :: bool
  ou_core_exists :: bool
  ou_works :: bool
  ou_tidied :: "(int \<times> (unit + int)) option"
  ou_relay_port :: "nat option"
  ou_start_page :: str
  ou_exit :: "exit_facts option"
  ou_now :: time
  ou_fetch :: "int option \<Rightarrow> sync_error + fetched"
  ou_bundle_key_id :: "str option"
  ou_bundle_sessions :: bool
  ou_dir :: str
  ou_extensions :: "str list"
  ou_config_slot :: slot
  ou_key_slot :: slot

datatype refusal =
    Already_Open | No_Such_Profile | No_Proxy | No_Proxy_Team | No_Core | No_Persona | Impossible "str list"
  | Bad_Proxy | No_Relay | Cookie_Key_Changed | Not_Pulled sync_error | Not_Started launch_error

section \<open>The steps\<close>

definition profile_of :: "start_request \<Rightarrow> refusal + start_profile" where
  "profile_of r =
     (case sr_team_profile r of
        Some f \<Rightarrow> Inr f
      | None \<Rightarrow> (case sr_stored r of None \<Rightarrow> Inl No_Such_Profile | Some f \<Rightarrow> Inr f))"

definition may_open :: "start_request \<Rightarrow> start_profile \<Rightarrow> refusal + unit" where
  "may_open r f =
     (if sf_proxy f = None \<and> (sr_team_profile r \<noteq> None \<or> \<not> sf_allow_no_proxy f)
      then Inl (if sr_team_profile r \<noteq> None then No_Proxy_Team else No_Proxy) else Inr ())"

definition machine_of :: "'w outside \<Rightarrow> start_profile \<Rightarrow> refusal + persona" where
  "machine_of w f =
     (case List.find (\<lambda>p. pe_id p = sf_persona_id f) (ou_personas w) of
        None \<Rightarrow> Inl No_Persona
      | Some base \<Rightarrow>
          (case apply_overrides (ou_env w) (sf_overrides f) base (ou_personas w) of
             Inl errs \<Rightarrow> Inl (Impossible errs)
           | Inr p \<Rightarrow> if validate (ou_env w) p \<noteq> [] then Inl (Impossible (validate (ou_env w) p)) else Inr p))"

definition upstream_of :: "'w outside \<Rightarrow> start_profile \<Rightarrow> refusal + 'w upstream" where
  "upstream_of w f =
     (case sf_proxy f of
        None \<Rightarrow> Inr Direct
      | Some x \<Rightarrow> (case parse_upstream (ou_wireguard w) (xp_url x) of None \<Rightarrow> Inl Bad_Proxy | Some u \<Rightarrow> Inr u))"

text \<open>The language is read back out of the context for the arguments.\<close>

definition config_of :: "'w outside \<Rightarrow> start_profile \<Rightarrow> persona \<Rightarrow> json \<times> str" where
  "config_of w f p =
     (let ctx = apply_context (sf_overrides f) (context_of (ou_env w) (ou_major w) (ou_full_version w) f (ou_exit w))
      in (launched (display_name (sf_title f)) (sf_overrides f) p (sf_fp_seed f) ctx, pc_ui_locale ctx))"

definition cookie_key :: "'w outside \<Rightarrow> start_request \<Rightarrow> start_profile \<Rightarrow> bytes option" where
  "cookie_key w r f =
     map_option (\<lambda>t. case tk_cookie_key t of
         Some k \<Rightarrow> k | None \<Rightarrow> os_crypt_key (ou_crypto w) (tk_profile_key t) (sf_id f)) (sr_team r)"

definition same_key :: "'w outside \<Rightarrow> bytes option \<Rightarrow> start_state \<Rightarrow> refusal + unit" where
  "same_key w key s =
     (case (key, ss_key_id s) of
        (Some k, Some found) \<Rightarrow>
          if trim found \<noteq> [] \<and> trim found \<noteq> key_fingerprint (ou_crypto w) k then Inl Cookie_Key_Changed else Inr ()
      | _ \<Rightarrow> Inr ())"

text \<open>A bundle is written over the directory, or into an empty one when the old one was moved away.\<close>

definition pull_into :: "'w outside \<Rightarrow> start_state \<Rightarrow> start_state \<times> (sync_error + int)" where
  "pull_into w s =
     (let m = ss_copy s;
          response = ou_fetch w (held m);
          (m', result) = launch_pull (ou_now w) response m;
          s' = s\<lparr>ss_copy := m'\<rparr>
      in (case (response, result) of
            (Inr (Fetched version (Some _)), Inr _) \<Rightarrow>
              if held m = Some version \<or> decide (unsent_base m) version = KeepLocal then (s', result)
              else (let moved = (decide (unsent_base m) version = SetAsideThenUnpack)
                    in (s'\<lparr>ss_key_id := first_known (ou_bundle_key_id w) (if moved then None else ss_key_id s),
                           ss_sessions := (ou_bundle_sessions w \<or> (\<not> moved \<and> ss_sessions s))\<rparr>, result))
          | (Inr (Fetched version None), _) \<Rightarrow>
              if aside m' = aside m then (s', result) else (s'\<lparr>ss_key_id := None, ss_sessions := False\<rparr>, result)
          | _ \<Rightarrow> (s', result)))"

definition start_urls_for :: "bool \<Rightarrow> str list \<Rightarrow> str \<Rightarrow> str list" where
  "start_urls_for sessions configured start_page =
     (if sessions then [] else if configured = [] then [start_page] else configured)"

definition spec_of :: "'w outside \<Rightarrow> start_request \<Rightarrow> start_profile \<Rightarrow> nat \<Rightarrow> json \<times> str \<Rightarrow> start_state \<Rightarrow> process_spec" where
  "spec_of w r f port config s =
     (let restrictions = for_perms full_profile_work
      in \<lparr>ps_user_data_dir = ou_dir w, ps_config = fst config, ps_relay_port = port, ps_restrictions = restrictions,
          ps_start_urls = start_urls_for (ss_sessions s) (sf_start_urls f) (ou_start_page w), ps_extensions = ou_extensions w,
          ps_debug_port = (if sr_cdp r \<and> \<not> deny_cdp restrictions then Some 0 else None),
          ps_os_crypt_key = cookie_key w r f, ps_ui_locale = snd config\<rparr>)"

section \<open>A launch\<close>

text \<open>Closed from its own window: the whole teardown first, with the relay of that run.\<close>

definition tidied :: "'w outside \<Rightarrow> start_state \<Rightarrow> start_state" where
  "tidied w s =
     (if ss_entry s = Closed_Unseen then
        s\<lparr>ss_copy := (case ou_tidied w of None \<Rightarrow> ss_copy s | Some (base, pushed) \<Rightarrow> close_push base pushed (ss_copy s)),
          ss_entry := Not_Running, ss_relays := ss_relays s - 1, ss_heartbeat := False, ss_browser := None\<rparr>
      else s)"

definition checks :: "'w outside \<Rightarrow> start_request \<Rightarrow> refusal + start_profile \<times> persona \<times> 'w upstream" where
  "checks w r =
     and_then (profile_of r) (\<lambda>f.
     and_then (may_open r f) (\<lambda>_.
     and_then (demand (ou_core w) No_Core) (\<lambda>_.
     and_then (machine_of w f) (\<lambda>p.
     and_then (upstream_of w f) (\<lambda>u. Inr (f, p, u))))))"

text \<open>
  The relay listens, the exit is asked and written to the row of a proxy of this machine, and the directory
  exists. \<open>record_exit\<close> writes what was answered, also where nothing was.
\<close>

definition relay_up :: "'w outside \<Rightarrow> start_request \<Rightarrow> start_profile \<Rightarrow> start_state \<Rightarrow> start_state" where
  "relay_up w r f s =
     s\<lparr>ss_relays := ss_relays s + 1, ss_copy := prepare (ss_copy s),
       ss_exit_row := (if sr_team_profile r = None \<and> sf_proxy f \<noteq> None \<and> asks_exit f
         then (case ou_exit w of None \<Rightarrow> ss_exit_row s | Some a \<Rightarrow> a) else ss_exit_row s)\<rparr>"

text \<open>From the listening relay on; only \<open>stop\<close> takes it down.\<close>

definition start_with :: "'w outside \<Rightarrow> start_request \<Rightarrow> nat \<Rightarrow> start_profile \<Rightarrow> persona \<Rightarrow> start_state \<Rightarrow> start_state \<times> (refusal + browser)" where
  "start_with w r port f p s =
     (let s1 = relay_up w r f s;
          config = config_of w f p; key = cookie_key w r f
      in (case same_key w key s1 of
            Inl e \<Rightarrow> (s1, Inl e)
          | Inr _ \<Rightarrow>
              let (s2, pulled) = (if sr_server r then pull_into w s1 else (s1, Inr 0))
              in (case pulled of
                    Inl e \<Rightarrow> (s2, Inl (Not_Pulled e))
                  | Inr _ \<Rightarrow>
                      (case spawn (ou_core_exists w) (ou_works w) (ou_config_slot w) (ou_key_slot w) (spec_of w r f port config s2) of
                         Inl e \<Rightarrow> (s2, Inl (Not_Started e))
                       | Inr b \<Rightarrow> (s2\<lparr>ss_entry := Open_Now, ss_browser := Some b, ss_heartbeat := sr_server r,
                           ss_opened_at := (if sr_team_profile r = None then Some (ou_now w) else ss_opened_at s2),
                           ss_key_id := (case key of None \<Rightarrow> ss_key_id s2 | Some k \<Rightarrow> Some (key_fingerprint (ou_crypto w) k))\<rparr>, Inr b)))))"

definition launch :: "'w outside \<Rightarrow> start_request \<Rightarrow> start_state \<Rightarrow> start_state \<times> (refusal + browser)" where
  "launch w r s =
     (if ss_entry s = Open_Now then (s, Inl Already_Open)
      else let s0 = tidied w s
           in (case checks w r of
                 Inl e \<Rightarrow> (s0, Inl e)
               | Inr (f, p, _) \<Rightarrow>
                   (case ou_relay_port w of
                      None \<Rightarrow> (s0, Inl No_Relay)
                    | Some port \<Rightarrow> start_with w r port f p s0)))"

section \<open>What a launch that succeeds has shown\<close>

lemma checks_Inr:
  "checks w r = Inr (f, p, u) \<longleftrightarrow>
     profile_of r = Inr f \<and> may_open r f = Inr () \<and> ou_core w \<and> machine_of w f = Inr p \<and> upstream_of w f = Inr u"
  by (auto simp: checks_def)

lemma launch_Inr:
  assumes "launch w r s = (s', Inr b)"
  obtains f p u port where "checks w r = Inr (f, p, u)" "ou_relay_port w = Some port"
    "start_with w r port f p (tidied w s) = (s', Inr b)"
  using assms by (auto simp: launch_def Let_def split: if_splits sum.splits option.splits prod.splits)

lemma start_Inr:
  assumes "start_with w r port f p s = (s', Inr b)"
  obtains s2 where "same_key w (cookie_key w r f) s = Inr ()"
    "spawn (ou_core_exists w) (ou_works w) (ou_config_slot w) (ou_key_slot w) (spec_of w r f port (config_of w f p) s2) = Inr b"
    "s' = s2\<lparr>ss_entry := Open_Now, ss_browser := Some b, ss_heartbeat := sr_server r,
      ss_opened_at := (if sr_team_profile r = None then Some (ou_now w) else ss_opened_at s2),
      ss_key_id := (case cookie_key w r f of None \<Rightarrow> ss_key_id s2 | Some k \<Rightarrow> Some (key_fingerprint (ou_crypto w) k))\<rparr>"
    "ss_relays s2 = ss_relays s + 1"
proof -
  have relays: "ss_relays (fst (pull_into w x)) = ss_relays x" for x
    by (auto simp: pull_into_def Let_def split: prod.splits sum.splits fetched.splits option.splits)
  have key: "same_key w k (relay_up w r f s) = same_key w k s" for k by (simp add: same_key_def relay_up_def)
  have up: "ss_relays (relay_up w r f s) = ss_relays s + 1" by (simp add: relay_up_def)
  show thesis
    using assms that relays [of "relay_up w r f s"] up
    by (cases "same_key w (cookie_key w r f) s")
      (auto simp: start_with_def Let_def key split: if_splits sum.splits prod.splits)
qed

lemma machine_of_Inr:
  assumes "machine_of w f = Inr p"
  obtains base where "base \<in> set (ou_personas w)" "pe_id base = sf_persona_id f"
    "apply_overrides (ou_env w) (sf_overrides f) base (ou_personas w) = Inr p" "validate (ou_env w) p = []"
proof -
  obtain base where "List.find (\<lambda>p. pe_id p = sf_persona_id f) (ou_personas w) = Some base"
    "apply_overrides (ou_env w) (sf_overrides f) base (ou_personas w) = Inr p" "validate (ou_env w) p = []"
    using assms by (auto simp: machine_of_def split: option.splits sum.splits if_splits)
  moreover from this(1) have "base \<in> set (ou_personas w)" "pe_id base = sf_persona_id f" by (auto simp: find_Some_iff)
  ultimately show thesis using that by blast
qed

lemma derived_language: "get_key ''locale'' (derive_core_config p seed ctx) =
    Some (JObj [(''timezone'', JStr (pc_timezone ctx)), (''locale'', JStr (pc_ui_locale ctx))])"
  by (simp add: derive_core_config_def Let_def map_add_def)

lemma launched_language: "lookup (launched name ov p seed ctx) ''locale.locale'' = Some (JStr (pc_ui_locale ctx))"
  by (rule lookup_get_two [where a = "''locale''" and b = "''locale''"]; simp add: launched_top derived_language)

lemma context_language:
  assumes "case sf_languages f of Some (l # _) \<Rightarrow> CHR '','' \<notin> set l | _ \<Rightarrow> True"
  shows "is_shipped_ui_locale (pc_ui_locale (context_of E major full f answer))"
proof (cases "sf_languages f")
  case None
  have "is_shipped_ui_locale (lo_ui fallback)" by (simp add: shipped_iff fallback_def shipped_def)
  moreover have "is_shipped_ui_locale (lo_ui l)" if "for_country c = Some l" for c l
    using country_ships [OF that] by simp
  ultimately have "is_shipped_ui_locale (lo_ui (case Option.bind c for_country of Some l \<Rightarrow> l | None \<Rightarrow> fallback))" for c
    by (cases c; cases "for_country (the c)") auto
  then show ?thesis using None by (simp add: context_of_def Let_def)
next
  case (Some ls)
  then show ?thesis
    using assms ui_locale_shipped [of None] ui_locale_shipped [of "Some (hd ls)"]
    by (cases ls) (auto simp: context_of_def Let_def shipped_iff)
qed

lemma config_language:
  "lookup (fst (config_of w f p)) ''locale.locale'' = Some (JStr (snd (config_of w f p)))"
  by (simp add: config_of_def Let_def launched_language)

lemma config_complete: "check_core_config (fst (config_of w f p)) = [] \<longleftrightarrow> has_everything p"
  by (simp add: config_of_def Let_def everything_passes)

lemma config_shipped:
  assumes "apply_overrides E (sf_overrides f) base catalogue = Inr p"
    and "case sf_languages f of Some (l # _) \<Rightarrow> CHR '','' \<notin> set l | _ \<Rightarrow> True"
  shows "is_shipped_ui_locale (snd (config_of w f p))"
proof (cases "ov_ui_locale (sf_overrides f)")
  case None
  then show ?thesis using context_language [OF assms(2)] by (simp add: config_of_def Let_def apply_context_def)
next
  case (Some ui)
  then have "is_shipped_ui_locale ui"
    using assms(1) by (auto simp: apply_overrides_def Let_def split: prod.splits if_splits)
  then show ?thesis using Some by (simp add: config_of_def Let_def apply_context_def)
qed

lemma pull_relays: "ss_relays (fst (pull_into w s)) = ss_relays s" "ss_browser (fst (pull_into w s)) = ss_browser s"
  "ss_entry (fst (pull_into w s)) = ss_entry s"
  by (auto simp: pull_into_def Let_def split: prod.splits sum.splits fetched.splits option.splits)

definition before_the_relay :: "refusal \<Rightarrow> bool" where
  "before_the_relay e \<longleftrightarrow> (case e of Cookie_Key_Changed \<Rightarrow> False | Not_Pulled _ \<Rightarrow> False | Not_Started _ \<Rightarrow> False | _ \<Rightarrow> True)"

lemma relay_up_fields: "ss_relays (relay_up w r f s) = ss_relays s + 1" "ss_entry (relay_up w r f s) = ss_entry s"
  "ss_browser (relay_up w r f s) = ss_browser s"
  by (simp_all add: relay_up_def)

lemma same_key_refuses: "same_key w k s = Inl e \<Longrightarrow> e = Cookie_Key_Changed"
  by (auto simp: same_key_def split: option.splits if_splits)

lemma start_relays:
  "ss_relays (fst (start_with w r port f p s)) = ss_relays s + 1"
  "snd (start_with w r port f p s) = Inl e \<Longrightarrow> \<not> before_the_relay e \<and> ss_entry (fst (start_with w r port f p s)) = ss_entry s
     \<and> ss_browser (fst (start_with w r port f p s)) = ss_browser s"
  using pull_relays [of w "relay_up w r f s"] relay_up_fields [of w r f s]
  by (cases "same_key w (cookie_key w r f) (relay_up w r f s)";
      auto simp: start_with_def Let_def before_the_relay_def dest!: same_key_refuses split: if_splits sum.splits prod.splits)+

lemma checks_before: "checks w r = Inl e \<Longrightarrow> before_the_relay e \<and> e \<noteq> Already_Open"
  by (auto simp: checks_def and_then_def demand_def before_the_relay_def profile_of_def may_open_def machine_of_def upstream_of_def
      split: if_splits sum.splits option.splits)

lemma start_other_key:
  "snd (start_with w r port f p s) = Inl Cookie_Key_Changed \<Longrightarrow>
     fst (start_with w r port f p s) = relay_up w r f s"
  by (auto simp: start_with_def Let_def split: sum.splits prod.splits)

lemma launch_cases:
  obtains (early) e where "before_the_relay e" "e \<noteq> Already_Open" "ss_entry s \<noteq> Open_Now" "launch w r s = (tidied w s, Inl e)"
  | (twice) "ss_entry s = Open_Now" "launch w r s = (s, Inl Already_Open)"
  | (late) f p u port where "ss_entry s \<noteq> Open_Now" "checks w r = Inr (f, p, u)" "ou_relay_port w = Some port"
      "launch w r s = start_with w r port f p (tidied w s)"
proof (cases "ss_entry s = Open_Now")
  case True
  then show ?thesis using twice by (simp add: launch_def)
next
  case False
  show ?thesis
  proof (cases "checks w r")
    case (Inl e)
    then show ?thesis using early [of e] checks_before [OF Inl] False by (simp add: launch_def Let_def)
  next
    case (Inr c)
    obtain f p u where c: "c = (f, p, u)" by (cases c)
    show ?thesis
    proof (cases "ou_relay_port w")
      case None
      then show ?thesis using early [of No_Relay] Inr c False by (simp add: launch_def Let_def before_the_relay_def)
    next
      case (Some port)
      then show ?thesis using late [of f p u port] Inr c False by (simp add: launch_def Let_def)
    qed
  qed
qed

text \<open>
  C5. Only a checked machine is started: the persona is in the catalogue by the profile's id, or is what the
  profile pins of it; it passed every check and its configuration, which is the one the browser is given, has
  everything the browser reads. The profile has a proxy, or is this machine's own and its owner allowed it to go
  without. The only proxy and the only language the agent names in the arguments are the relay that listens and the
  language of the configuration, which is one Chrome ships unless the profile pins a tag with a comma. What else may
  begin with these switches is a start URL of the profile, which is passed behind them as it is.
\<close>

theorem only_checked_machines_start:
  assumes "launch w r s = (s', Inr b)"
  shows "\<exists>f p base port ui restored.
      profile_of r = Inr f \<and> base \<in> set (ou_personas w) \<and> pe_id base = sf_persona_id f
    \<and> apply_overrides (ou_env w) (sf_overrides f) base (ou_personas w) = Inr p \<and> validate (ou_env w) p = [] \<and> has_everything p
    \<and> br_config b = fst (config_of w f p)
    \<and> (sf_proxy f = None \<longrightarrow> sr_team_profile r = None \<and> sf_allow_no_proxy f)
    \<and> ou_relay_port w = Some port
    \<and> switches ''--proxy-server'' (br_args b) = (''--proxy-server=http://127.0.0.1:'' @ show_nat port)
        # switches ''--proxy-server'' (start_urls_for restored (sf_start_urls f) (ou_start_page w))
    \<and> lookup (br_config b) ''locale.locale'' = Some (JStr ui)
    \<and> switches ''--lang='' (br_args b) = (''--lang='' @ ui)
        # switches ''--lang='' (start_urls_for restored (sf_start_urls f) (ou_start_page w))
    \<and> ((case sf_languages f of Some (l # _) \<Rightarrow> CHR '','' \<notin> set l | _ \<Rightarrow> True) \<longrightarrow> is_shipped_ui_locale ui)"
proof -
  obtain f p u port where f: "checks w r = Inr (f, p, u)" "ou_relay_port w = Some port"
    and "start_with w r port f p (tidied w s) = (s', Inr b)" using launch_Inr [OF assms] by blast
  then obtain s2 where b: "spawn (ou_core_exists w) (ou_works w) (ou_config_slot w) (ou_key_slot w)
      (spec_of w r f port (config_of w f p) s2) = Inr b" using start_Inr by blast
  have f': "profile_of r = Inr f" "may_open r f = Inr ()" "machine_of w f = Inr p" using f(1) by (simp_all add: checks_Inr)
  obtain base where base: "base \<in> set (ou_personas w)" "pe_id base = sf_persona_id f"
    "apply_overrides (ou_env w) (sf_overrides f) base (ou_personas w) = Inr p" "validate (ou_env w) p = []"
    using machine_of_Inr [OF f'(3)] by blast
  have proxy: "sf_proxy f = None \<longrightarrow> sr_team_profile r = None \<and> sf_allow_no_proxy f"
    using f'(2) by (auto simp: may_open_def split: if_splits)
  have config: "br_config b = fst (config_of w f p)" "has_everything p"
    using b config_complete [of w f p] by (simp_all add: spawn_Inr spec_of_def Let_def)
  have args: "switches ''--proxy-server'' (br_args b) = (''--proxy-server=http://127.0.0.1:'' @ show_nat port)
      # switches ''--proxy-server'' (start_urls_for (ss_sessions s2) (sf_start_urls f) (ou_start_page w))"
    "switches ''--lang='' (br_args b) = (''--lang='' @ snd (config_of w f p))
      # switches ''--lang='' (start_urls_for (ss_sessions s2) (sf_start_urls f) (ou_start_page w))"
    unfolding spawn_switches [OF b] by (simp_all add: spec_of_def Let_def)
  have ui: "lookup (br_config b) ''locale.locale'' = Some (JStr (snd (config_of w f p)))"
    by (simp only: config config_language)
  show ?thesis
    by (rule exI [of _ f], rule exI [of _ p], rule exI [of _ base], rule exI [of _ port],
        rule exI [of _ "snd (config_of w f p)"], rule exI [of _ "ss_sessions s2"])
      (use f' f(2) base proxy config args ui config_shipped [OF base(3), of w] in blast)
qed

text \<open>
  C6. A browser starts with a team's cookie key only where the directory of this machine, as it is before the
  server is asked, names no key or this one, and from then on it names this one; when it names another, nothing is
  pulled, nothing is started, and what was there is as it was. A browser without a key is not under this guard, nor
  is the key a bundle that arrives was written under (\<open>the_guard_is_before_the_pull\<close>).
\<close>

theorem cookies_stay_under_their_key:
  "case snd (launch w r s) of
     Inr b \<Rightarrow> (case br_key b of None \<Rightarrow> True | Some k \<Rightarrow>
         ss_key_id (fst (launch w r s)) = Some (key_fingerprint (ou_crypto w) k)
       \<and> (case ss_key_id s of None \<Rightarrow> True | Some i \<Rightarrow> trim i = [] \<or> trim i = key_fingerprint (ou_crypto w) k))
   | Inl e \<Rightarrow> (if e = Cookie_Key_Changed then
         ss_copy (fst (launch w r s)) = prepare (ss_copy (tidied w s)) \<and> ss_key_id (fst (launch w r s)) = ss_key_id s
       \<and> ss_browser (fst (launch w r s)) = ss_browser (tidied w s) else True)"
proof (cases "snd (launch w r s)")
  case (Inr b)
  obtain s' where l: "launch w r s = (s', Inr b)" using Inr by (cases "launch w r s") simp
  obtain f p u port where "checks w r = Inr (f, p, u)" "ou_relay_port w = Some port" and "start_with w r port f p (tidied w s) = (s', Inr b)"
    using launch_Inr [OF l] by blast
  then obtain s2 where b: "same_key w (cookie_key w r f) (tidied w s) = Inr ()"
    "spawn (ou_core_exists w) (ou_works w) (ou_config_slot w) (ou_key_slot w) (spec_of w r f port (config_of w f p) s2) = Inr b"
    "s' = s2\<lparr>ss_entry := Open_Now, ss_browser := Some b, ss_heartbeat := sr_server r,
      ss_opened_at := (if sr_team_profile r = None then Some (ou_now w) else ss_opened_at s2),
      ss_key_id := (case cookie_key w r f of None \<Rightarrow> ss_key_id s2 | Some k \<Rightarrow> Some (key_fingerprint (ou_crypto w) k))\<rparr>"
    using start_Inr by blast
  have "br_key b = cookie_key w r f" using b(2) by (simp add: spawn_Inr spec_of_def Let_def)
  moreover have "ss_key_id (tidied w s) = ss_key_id s" by (simp add: tidied_def)
  ultimately show ?thesis using b(1,3) l by (auto simp: same_key_def split: option.splits if_splits)
next
  case (Inl e)
  show ?thesis
  proof (cases "e = Cookie_Key_Changed")
    case True
    show ?thesis
    proof (cases rule: launch_cases [of s w r])
      case (late f p u port)
      then have "fst (launch w r s) = relay_up w r f (tidied w s)"
        using start_other_key [of w r port f p "tidied w s"] Inl True by simp
      then show ?thesis using Inl True by (simp add: relay_up_def tidied_def)
    qed (use Inl True in \<open>simp_all add: before_the_relay_def\<close>)
  qed (use Inl in simp)
qed

section \<open>What a refused launch leaves\<close>

text \<open>
  C8. A refusal costs what was done before it. One that comes before the relay listens (the profile is open,
  unknown or without a proxy, the machine impossible, the proxy unreadable) leaves the profile as the tidying
  left it; one that comes after (the cookie key, the pull, the process) leaves a relay to the profile's
  proxy listening that no entry knows of, because only \<open>stop\<close> takes a relay down.
\<close>

theorem a_refusal_leaves_a_relay:
  "case snd (launch w r s) of
     Inl e \<Rightarrow>
       (if e = Already_Open then fst (launch w r s) = s
        else if before_the_relay e then fst (launch w r s) = tidied w s
        else ss_relays (fst (launch w r s)) = ss_relays (tidied w s) + 1 \<and> ss_entry (fst (launch w r s)) = Not_Running
           \<and> ss_browser (fst (launch w r s)) = ss_browser (tidied w s))
   | Inr b \<Rightarrow> ss_relays (fst (launch w r s)) = ss_relays (tidied w s) + 1 \<and> ss_entry (fst (launch w r s)) = Open_Now
       \<and> ss_browser (fst (launch w r s)) = Some b"
proof (cases rule: launch_cases [of s w r])
  case (late f p u port)
  have "ss_entry (tidied w s) = Not_Running" using late(1) by (cases "ss_entry s") (simp_all add: tidied_def)
  moreover have "ss_entry (fst (start_with w r port f p (tidied w s))) = Open_Now \<and> ss_browser (fst (start_with w r port f p (tidied w s))) = Some b"
    if started: "snd (start_with w r port f p (tidied w s)) = Inr b" for b
  proof -
    have l: "start_with w r port f p (tidied w s) = (fst (start_with w r port f p (tidied w s)), Inr b)"
      using started by (simp add: prod_eq_iff)
    show ?thesis by (rule start_Inr [OF l]) simp
  qed
  moreover have "\<not> before_the_relay e \<and> e \<noteq> Already_Open \<and> ss_entry (fst (start_with w r port f p (tidied w s))) = ss_entry (tidied w s)
      \<and> ss_browser (fst (start_with w r port f p (tidied w s))) = ss_browser (tidied w s)"
    if "snd (start_with w r port f p (tidied w s)) = Inl e" for e
    using start_relays(2) [OF that] by (auto simp: before_the_relay_def)
  ultimately show ?thesis
    using late(4) start_relays(1) [of w r port f p "tidied w s"] by (cases "snd (launch w r s)") simp_all
qed simp_all

section \<open>What the guard does not see\<close>

lemma pull_other_key:
  "snd (pull_into (w\<lparr>ou_bundle_key_id := i\<rparr>) s) = snd (pull_into w s)"
  "ss_sessions (fst (pull_into (w\<lparr>ou_bundle_key_id := i\<rparr>) s)) = ss_sessions (fst (pull_into w s))"
  by (auto simp: pull_into_def Let_def split: prod.splits sum.splits fetched.splits option.splits)

lemma spec_of_sessions: "ss_sessions s = ss_sessions s' \<Longrightarrow> spec_of w r f port c s = spec_of w r f port c s'"
  by (simp add: spec_of_def)

lemma cookie_key_elsewhere: "cookie_key (w\<lparr>ou_bundle_key_id := i\<rparr>) r f = cookie_key w r f"
  by (cases "sr_team r") (auto simp: cookie_key_def split: option.split)

lemma machine_elsewhere: "machine_of (w\<lparr>ou_bundle_key_id := i\<rparr>) f = machine_of w f" "upstream_of (w\<lparr>ou_bundle_key_id := i\<rparr>) f = upstream_of w f"
  by (auto simp: machine_of_def upstream_of_def split: option.split sum.split)

lemma other_key_elsewhere:
  "checks (w\<lparr>ou_bundle_key_id := i\<rparr>) r = checks w r" "config_of (w\<lparr>ou_bundle_key_id := i\<rparr>) f p = config_of w f p"
  "same_key (w\<lparr>ou_bundle_key_id := i\<rparr>) k s = same_key w k s"
  "spec_of (w\<lparr>ou_bundle_key_id := i\<rparr>) r f port c s = spec_of w r f port c s" "tidied (w\<lparr>ou_bundle_key_id := i\<rparr>) s = tidied w s"
  "relay_up (w\<lparr>ou_bundle_key_id := i\<rparr>) r f s = relay_up w r f s"
  by (simp_all add: checks_def machine_elsewhere config_of_def same_key_def spec_of_def tidied_def relay_up_def cookie_key_elsewhere cong: option.case_cong)

lemma start_other_bundle:
  "snd (start_with (w\<lparr>ou_bundle_key_id := i\<rparr>) r port f p s) = snd (start_with w r port f p s)"
proof -
  let ?s1 = "relay_up w r f s"
  obtain a x where a: "pull_into w ?s1 = (a, x)" by fastforce
  obtain b y where b: "pull_into (w\<lparr>ou_bundle_key_id := i\<rparr>) ?s1 = (b, y)" by fastforce
  have "y = x" "ss_sessions b = ss_sessions a" using pull_other_key [where w = w and i = i and s = ?s1] unfolding a b by simp_all
  then have "spec_of w r f port c b = spec_of w r f port c a" for c by (intro spec_of_sessions)
  then show ?thesis
    unfolding start_with_def Let_def other_key_elsewhere cookie_key_elsewhere a b \<open>y = x\<close>
    by (simp add: other_key_elsewhere split: sum.split prod.split)
qed

text \<open>
  The guard runs before the pull and reads the directory of this machine only: whatever key the bundle
  that arrives says its cookies are under, the answer of the launch is the same, so a bundle saved under
  another key is opened, with this key, on a machine that never had the profile.
\<close>

lemma the_guard_is_before_the_pull:
  "snd (launch (w\<lparr>ou_bundle_key_id := i\<rparr>) r s) = snd (launch w r s)"
proof (cases rule: launch_cases [of s w r])
  case (late f p u port)
  then have "launch (w\<lparr>ou_bundle_key_id := i\<rparr>) r s = start_with (w\<lparr>ou_bundle_key_id := i\<rparr>) r port f p (tidied w s)"
    by (simp add: launch_def Let_def other_key_elsewhere)
  then show ?thesis using late(4) by (simp add: start_other_bundle)
qed (auto simp: launch_def Let_def other_key_elsewhere start_other_bundle split: sum.splits option.splits)

text \<open>
  What a launch is told of its exit overwrites the row of the proxy with blanks, though it goes on with what it
  knew: the next launch does not know the country any more.
\<close>

lemma an_answer_without_a_country_blanks_it:
  assumes "sr_team_profile r = None" and "sf_proxy f = Some x" and "asks_exit f" and "ou_exit w = Some a" and "xf_country a = None"
  shows "xf_country (exit_of f (ou_exit w)) = xf_country (xp_last x) \<and> xf_country (ss_exit_row (relay_up w r f s)) = None"
  using assms by (auto simp: exit_of_def remembered_def first_known_def relay_up_def Let_def)

section \<open>A launch comes through\<close>

lemma pull_comes_through:
  assumes "profile_dir m \<noteq> None" and "now \<notin> fst ` set (aside m)"
    and "response = Inr Nothing \<or> (\<exists>v. response = Inr (Unchanged v)) \<or> (\<exists>v c. response = Inr (Fetched v (Some c)))"
  shows "\<exists>v. snd (launch_pull now response m) = Inr v"
  using assms by (auto simp: launch_pull_def unpack_over_def set_aside_def split: pull.split)

lemma pull_into_result: "snd (pull_into w s) = snd (launch_pull (ou_now w) (ou_fetch w (held (ss_copy s))) (ss_copy s))"
  by (auto simp: pull_into_def Let_def split: prod.splits sum.splits fetched.splits option.splits)

lemma machine_of_table:
  assumes "rounds (ou_env w)" and "ou_personas w = table_of (ou_env w) @ others" and "sf_overrides f = no_overrides"
    and "sf_persona_id f \<in> pe_id ` set (table_of (ou_env w))"
  shows "\<exists>p. machine_of w f = Inr p \<and> has_everything p"
proof -
  obtain p where p: "List.find (\<lambda>p. pe_id p = sf_persona_id f) (table_of (ou_env w)) = Some p"
    using assms(4) by (cases "List.find (\<lambda>p. pe_id p = sf_persona_id f) (table_of (ou_env w))") (auto simp: find_None_iff)
  then have "p \<in> set (table_of (ou_env w))" by (auto simp: find_Some_iff)
  then have valid: "validate (ou_env w) p = []" "has_everything p" using table_valid [OF assms(1)] by auto
  have "List.find P (xs @ ys) = Some x" if "List.find P xs = Some x" for P xs ys and x :: persona
    using that by (induction xs) (auto split: if_splits)
  then have "List.find (\<lambda>p. pe_id p = sf_persona_id f) (ou_personas w) = Some p" using p assms(2) by simp
  moreover have "apply_overrides (ou_env w) no_overrides p (ou_personas w) = Inr p"
    using valid(1) by (simp add: apply_overrides_def apply_gpu_def apply_screen_def no_overrides_def)
  ultimately show ?thesis using valid assms(3) by (auto simp: machine_of_def)
qed

lemma comes_through:
  assumes "rounds (ou_env w)" and "ou_personas w = table_of (ou_env w) @ others"
    and "profile_of r = Inr f" and "may_open r f = Inr ()" and "upstream_of w f = Inr u"
    and "sf_overrides f = no_overrides" and "sf_persona_id f \<in> pe_id ` set (table_of (ou_env w))"
    and "ou_core w" and "ou_core_exists w" and "ou_works w" and "ou_relay_port w \<noteq> None"
    and "ss_entry s = Not_Running"
    and "case (cookie_key w r f, ss_key_id s) of
        (Some k, Some i) \<Rightarrow> trim i = [] \<or> trim i = key_fingerprint (ou_crypto w) k | _ \<Rightarrow> True"
    and "ou_now w \<notin> fst ` set (aside (ss_copy s))"
    and "\<And>h. ou_fetch w h = Inr Nothing \<or> (\<exists>v. ou_fetch w h = Inr (Unchanged v)) \<or> (\<exists>v c. ou_fetch w h = Inr (Fetched v (Some c)))"
  shows "\<exists>s' b. launch w r s = (s', Inr b) \<and> ss_browser s' = Some b \<and> ss_entry s' = Open_Now"
proof -
  obtain p where p: "machine_of w f = Inr p" "has_everything p" using machine_of_table assms(1,2,6,7) by blast
  obtain port where port: "ou_relay_port w = Some port" using assms(11) by blast
  let ?s1 = "relay_up w r f s"
  have launch: "launch w r s = start_with w r port f p s"
    using assms(3-5,8,12) p(1) port by (simp add: launch_def Let_def checks_Inr [THEN iffD2] tidied_def)
  have key: "same_key w (cookie_key w r f) ?s1 = Inr ()"
    using assms(13) by (auto simp: same_key_def relay_up_def split: option.splits)
  have "\<exists>v. snd (pull_into w ?s1) = Inr v"
    unfolding pull_into_result using assms(14,15) by (intro pull_comes_through) (auto simp: prepare_def relay_up_def)
  then obtain s2 v where pull: "(if sr_server r then pull_into w ?s1 else (?s1, Inr 0)) = (s2, Inr v)"
    by (cases "sr_server r"; cases "pull_into w ?s1") auto
  have "\<exists>b. spawn (ou_core_exists w) (ou_works w) (ou_config_slot w) (ou_key_slot w) (spec_of w r f port (config_of w f p) s2) = Inr b"
    using p(2) assms(9,10) config_complete [of w f p] by (simp add: spawn_Inr spec_of_def Let_def)
  then obtain b where "spawn (ou_core_exists w) (ou_works w) (ou_config_slot w) (ou_key_slot w)
      (spec_of w r f port (config_of w f p) s2) = Inr b" by blast
  then show ?thesis unfolding launch start_with_def Let_def key pull by simp
qed

section \<open>A machine with one profile\<close>

definition demo_start_profile :: start_profile where
  "demo_start_profile =
     \<lparr>sf_id = ''p1'', sf_title = ''shop'', sf_persona_id = ''macos-m1-1440x900'', sf_fp_seed = 7, sf_timezone = None, sf_languages = None,
      sf_start_urls = [], sf_overrides = no_overrides, sf_proxy = None, sf_allow_no_proxy = True\<rparr>"

definition demo_request :: start_request where
  "demo_request = \<lparr>sr_team_profile = None, sr_stored = Some demo_start_profile, sr_server = False, sr_team = None, sr_cdp = False\<rparr>"

definition demo_outside :: "unit outside" where
  "demo_outside =
     \<lparr>ou_env = exact_env, ou_crypto = toy_crypto, ou_personas = table_of exact_env, ou_major = 155, ou_full_version = ''155.0.8059.39'',
      ou_wireguard = (\<lambda>_. None), ou_core = True, ou_core_exists = True, ou_works = True, ou_tidied = None, ou_relay_port = Some 9,
      ou_start_page = ''http://fury.invalid/t/'', ou_exit = None, ou_now = 0, ou_fetch = (\<lambda>_. Inr Nothing), ou_bundle_key_id = None,
      ou_bundle_sessions = False, ou_dir = ''/p'', ou_extensions = [], ou_config_slot = Descriptor 3, ou_key_slot = Descriptor 4\<rparr>"

definition demo_state :: start_state where
  "demo_state =
     \<lparr>ss_copy = \<lparr>profile_dir = None, marker = None, held_file = None, aside = []\<rparr>, ss_key_id = None, ss_sessions = False,
      ss_relays = 0, ss_exit_row = nothing_known, ss_opened_at = None, ss_heartbeat = False, ss_entry = Not_Running, ss_browser = None\<rparr>"

lemma demo_facts:
  "rounds (ou_env demo_outside)" "ou_personas demo_outside = table_of (ou_env demo_outside) @ []"
  "profile_of demo_request = Inr demo_start_profile" "may_open demo_request demo_start_profile = Inr ()"
  "upstream_of demo_outside demo_start_profile = Inr Direct" "sf_overrides demo_start_profile = no_overrides"
  "sf_persona_id demo_start_profile \<in> pe_id ` set (table_of (ou_env demo_outside))"
  "ou_core demo_outside" "ou_core_exists demo_outside" "ou_works demo_outside" "ou_relay_port demo_outside \<noteq> None"
  "ss_entry demo_state = Not_Running"
  "case (cookie_key demo_outside demo_request demo_start_profile, ss_key_id demo_state) of
     (Some k, Some i) \<Rightarrow> trim i = [] \<or> trim i = key_fingerprint (ou_crypto demo_outside) k | _ \<Rightarrow> True"
  "ou_now demo_outside \<notin> fst ` set (aside (ss_copy demo_state))"
  "\<And>h. ou_fetch demo_outside h = Inr Nothing \<or> (\<exists>v. ou_fetch demo_outside h = Inr (Unchanged v))
     \<or> (\<exists>v c. ou_fetch demo_outside h = Inr (Fetched v (Some c)))"
  using exact_rounds
  by (simp_all add: demo_outside_def demo_request_def demo_start_profile_def demo_state_def profile_of_def may_open_def upstream_of_def
      cookie_key_def table_of_def expanded_fields image_Un image_comp macos_variants_def)

text \<open>
  C7. A profile on a built-in machine opens, where nothing outside stands against it: the persona is one of the
  table and nothing of it is pinned; the profile has a proxy, or is this machine's own and allowed to go without, and
  the proxy can be read; the core is there, its file exists and the process starts; a port was found for the relay;
  the profile is not open; the directory names no cookie key or this one; the server, where it is asked, answers with
  nothing new or a bundle that can be unpacked, and no directory was moved aside at this very instant. Then a
  launch ends with a running browser, whatever the exit answers and whatever else is in the catalogue.
\<close>

theorem a_profile_on_a_built_in_machine_opens:
  assumes "rounds (ou_env w)" and "ou_personas w = table_of (ou_env w) @ others"
    and "profile_of r = Inr f" and "may_open r f = Inr ()" and "upstream_of w f = Inr u"
    and "sf_overrides f = no_overrides" and "sf_persona_id f \<in> pe_id ` set (table_of (ou_env w))"
    and "ou_core w" and "ou_core_exists w" and "ou_works w" and "ou_relay_port w \<noteq> None"
    and "ss_entry s = Not_Running"
    and "case (cookie_key w r f, ss_key_id s) of
        (Some k, Some i) \<Rightarrow> trim i = [] \<or> trim i = key_fingerprint (ou_crypto w) k | _ \<Rightarrow> True"
    and "ou_now w \<notin> fst ` set (aside (ss_copy s))"
    and "\<And>h. ou_fetch w h = Inr Nothing \<or> (\<exists>v. ou_fetch w h = Inr (Unchanged v)) \<or> (\<exists>v c. ou_fetch w h = Inr (Fetched v (Some c)))"
  shows "\<exists>s' b. launch w r s = (s', Inr b) \<and> ss_browser s' = Some b \<and> ss_entry s' = Open_Now"
  using assms by (rule comes_through)

theorem a_profile_on_a_built_in_machine_opens_witness:
  "\<exists>s' b. launch demo_outside demo_request demo_state = (s', Inr b)"
  using a_profile_on_a_built_in_machine_opens [OF demo_facts] by blast

theorem only_checked_machines_start_witness:
  "\<exists>s' b restored. launch demo_outside demo_request demo_state = (s', Inr b)
     \<and> switches ''--proxy-server'' (br_args b) = ''--proxy-server=http://127.0.0.1:9''
         # switches ''--proxy-server'' (start_urls_for restored (sf_start_urls demo_start_profile) (ou_start_page demo_outside))"
proof -
  obtain s' b where l: "launch demo_outside demo_request demo_state = (s', Inr b)" using comes_through [OF demo_facts] by blast
  have "show_nat 9 = ''9''" "ou_relay_port demo_outside = Some 9" "profile_of demo_request = Inr demo_start_profile"
    by (simp_all add: show_nat.simps digit_char_def char_of_def bit_Suc_0_iff demo_outside_def profile_of_def demo_request_def)
  then show ?thesis using l only_checked_machines_start [OF l] by auto
qed

end
