(* ===== verification/Spec2Isabelle.thy ===== *)
theory Spec2Isabelle
  imports Rbac Guard Persona_Seed Locks Lock_Protocol Keys Profile_Bundle Sync Domains Totp Step_Up
    Rotation_Spec Role_Links Listings Server_Runs Relay Farm_Runs Locale Draw Core_Story Start Launch
begin

text \<open>
  A verification development of the Fury antidetect browser, for a reader of its repository.
  Paths are relative to \<open>src/\<close>.

  \<^bold>\<open>The program.\<close> Fury runs browser profiles, each with a synthetic identity (persona), on the
  machines of a team. A server (\<open>server/src\<close>, a PostgreSQL database behind HTTP handlers) keeps
  the team: users, members with a role, projects with grants, profiles, proxies, locks and the
  encrypted bundles of profile directories. An agent on every machine (\<open>agent/src\<close>) takes the
  lock of a profile, fetches and opens its bundle, launches the browser and uploads the bundle
  again. The rules both sides share are in \<open>shared-rs/src\<close>. The server never sees a key in the
  clear: the organisation key is sealed to each member, and what it protects is wrapped.

  \<^bold>\<open>Theories and what they model.\<close>
  \<^item> \<open>Prelude\<close>: machine integers, Rust strings as bytes, the string operations of the standard
    library, numbers in decimal and hexadecimal, and the locale \<open>codec\<close> of an encoder with its
    partial decoder, interpreted wherever the code has one.
  \<^item> \<open>Rbac\<close>: the permission mask, the role ceilings and the effective set (\<open>shared-rs/src/rbac.rs\<close>).
  \<^item> \<open>Server_Db\<close>: the tables the handlers read and write (\<open>server/migrations\<close>) as association
    lists by primary key, the errors of a handler and their status (\<open>server/src/error.rs\<close>).
  \<^item> \<open>Guard\<close>: resolving rights, sharing a profile, granting and revoking access
    (\<open>rbac_guard.rs\<close>, \<open>shares.rs\<close>, \<open>api.rs\<close>).
  \<^item> \<open>Locks\<close> and \<open>Lock_Protocol\<close>: the distributed lock and the bundle store of \<open>api.rs\<close>, and what
    holds over any sequence of requests.
  \<^item> \<open>Security\<close>, \<open>Sign_In\<close>, \<open>Sign_In_Protocol\<close>, \<open>Step_Up\<close>: addresses and allowlists, passwords,
    parked sign-ins, codes, sessions and policies (\<open>auth.rs\<close>, \<open>security.rs\<close>, \<open>api.rs\<close>).
  \<^item> \<open>Enrolment\<close>, \<open>Access_Roles\<close>, \<open>Key_Rotation\<close>, with \<open>Team_Protocol\<close>, \<open>Rotation_Spec\<close> and
    \<open>Role_Links\<close>: invitations and their codes (\<open>enroll.rs\<close>), enrolment and open sign-up, what a
    member is, the organisation's own roles, handing over and replacing the organisation key
    (\<open>api.rs\<close>).
  \<^item> \<open>Inventory\<close>: projects, profiles, proxies, saved logins, domain lists and captured machines, and
    every handler of \<open>api.rs\<close> that writes them, with the listings of projects, profiles, the trash and
    proxies. \<open>Tenants\<close> serves these requests one after the other and says what belongs to an
    organisation; \<open>Isolation\<close> shows that others leave it alone; \<open>Shelf\<close> refines a run to five moves of
    the table of profiles, which carry the ceiling and the machine of a profile; \<open>Listings\<close> compares
    what a listing shows with what the guards admit. The catalogue of machines and its rules
    (\<open>machine_rules\<close>) and SHA-256 are arguments; rows are listed in the table's order, where the code
    leaves the order to the collation of the database.
  \<^item> \<open>Server_Frames\<close>, \<open>Server_Runs\<close>: the whole server. A run is a list of requests of every kind above (sign-ins, the
    team, locks and bundles, the inventory), each behind the extractor that authenticates it; what each handler
    leaves alone of locks, bundles and sessions is in \<open>Server_Frames\<close>, and \<open>Server_Runs\<close> has what holds over any run:
    which requests may end a live lock, what keeps the store of bundles, where a session comes from and when what
    can not be undone is served.
  \<^item> \<open>Keys\<close>: wrapping, sealing and deriving keys (\<open>shared-rs/src/keys.rs\<close>) and the vault of the
    machine (\<open>agent/src/vault.rs\<close>).
  \<^item> \<open>Profile_Bundle\<close>: packing and unpacking a profile directory (\<open>agent/src/bundle.rs\<close>).
  \<^item> \<open>Sync\<close>: the marker of an unsent session, the pull before a launch and the push after a close
    (\<open>unsynced.rs\<close>, \<open>sync.rs\<close>, \<open>ipc.rs\<close> of the agent).
  \<^item> \<open>Ip_Addr\<close>, \<open>Domains\<close>: addresses, and the lists of refused and local hosts
    (\<open>shared-rs/src/domains.rs\<close>).
  \<^item> \<open>Base32\<close>, \<open>Totp\<close>: one-time codes and their links (\<open>shared-rs/src/totp.rs\<close>).
  \<^item> \<open>Persona_Seed\<close>: the seed of a persona, its streams and the small tables drawn from them
    (\<open>shared-rs/src/persona.rs\<close>).
  \<^item> \<open>Locale\<close>: the languages of a profile from the country of its exit, and the language of the
    browser's interface (\<open>shared-rs/src/locale.rs\<close>).
  \<^item> \<open>Persona\<close>, \<open>Core_Config\<close>: the record of a machine, the checks it must pass, and the configuration the
    browser core is given for it (\<open>validate\<close> and \<open>derive_core_config\<close> of \<open>persona.rs\<close>,
    \<open>check_core_config\<close> of \<open>fingerprint.rs\<close>, \<open>fonts.rs\<close>), with a JSON tree of that configuration.
    \<open>Core_Complete\<close> says for which machines the configuration is complete; \<open>Core_Story\<close> that what a
    checked machine tells a page hangs together.
  \<^item> \<open>Overrides\<close>: what a profile may pin of its machine, and what it is offered (\<open>overrides.rs\<close>).
  \<^item> \<open>Catalogue\<close>, \<open>Draw\<close>: the machines that are built in, expanded from two measured ones and a
    table, and the weighted draw of one (\<open>catalogue.rs\<close>).
  \<^item> \<open>Start\<close>, \<open>Launch\<close>: opening a profile: the exit it goes through and what is known of it, the switches and the
    environment of the browser (\<open>launcher.rs\<close>, \<open>carrier.rs\<close>, \<open>dock.rs\<close>), and the handler \<open>launch\<close> of
    \<open>agent/src/ipc.rs\<close> from the request to the running browser, over the pull of \<open>Sync\<close>, the rights of
    \<open>Rbac\<close>, the keys of \<open>Keys\<close> and the machines of \<open>Catalogue\<close>.
  \<^item> \<open>Proxy_Lines\<close>: pasted lists of proxies in all their shapes (\<open>shared-rs/src/proxy_list.rs\<close>) and
    what the agent dials for one (\<open>parse_upstream\<close> of \<open>agent/src/main.rs\<close>).
  \<^item> \<open>Relay_Wire\<close>, \<open>Relay\<close>: the relay every browser goes through (\<open>agent/src/relay.rs\<close>). A connection is
    what each read of it finds, what the far end does then, and what was written; \<open>Relay_Wire\<close> has the
    handshakes with SOCKS5 and HTTP proxies over it, with the servers of the RFCs as readers of what
    was sent, \<open>Relay\<close> a request from its head to the connection opened for it. Resolver, proxies and
    tunnels are arguments.
  \<^item> \<open>Farm\<close>, \<open>Farm_Day\<close>, \<open>Farm_Protocol\<close>, \<open>Farm_Runs\<close>: plans that warm profiles a little every day
    (\<open>agent/src/farm.rs\<close>): the plans and the pass over them, the day planned for a profile, what a pass
    keeps of one, and what holds over any run of requests, reports, passes and restarts. The calendar
    of a time zone (\<open>chrono\<close>) and the draws are arguments; the search for a day, a loop with no other
    end than success, is a \<open>partial_function\<close>, shown to return while the calendar has a day left.
  \<^item> \<open>Events\<close>: the locale of a machine that handles a list of events, with the induction
    principles of the protocols; each protocol interprets it.

  \<^bold>\<open>How the model corresponds to the code.\<close> A handler is a function from the tables, the clock
  (seconds), the caller and the request to the new tables and its answer or error. A query with a
  join is a lookup in each table; a transaction is \<open>commit\<close>, which drops the tables on an error.
  What is drawn at random, ids included, is an argument, and a draw that collides with a primary
  key fails the insert. Requests are served one after the other. For a handler that works in a transaction and
  locks the rows it reads (an upload, a rotation, an enrolment, a code), or writes in a single statement (taking,
  renewing or releasing a lock), the database gives that; for one that reads and
  writes outside a transaction (\<open>grant_access\<close>, \<open>set_member_role\<close>, \<open>share_profile\<close>, \<open>totp_setup\<close>, \<open>create_profile\<close>,
  \<open>clone_profile\<close> and what else has no \<open>begin\<close>) it is an assumption of the model, and the theorems over runs hold
  under it. Where it matters most the parts are separate definitions and the effect of interleaving them is
  stated: \<open>check_code\<close> and \<open>settle_code\<close> of a sign-in, \<open>checked_profile\<close> and \<open>insert_profile\<close> of a new profile
  (\<open>creations_at_once_go_over\<close>), the parts of \<open>upload_bundle\<close>, and \<open>stop\<close> and \<open>settle\<close> of a close on the agent, between
  which it may be killed and a launch may begin. On the agent, moving a directory aside together with its records,
  writing or removing a marker, noting when a profile was opened and making its directory are taken to succeed. Cryptographic primitives, base64, tar, zstd, the operating system's
  key store and HTTP are parameters; what a theorem needs of them (decryption inverts encryption
  under the same key, and the like) is a hypothesis with a witness. Widths are kept where the code
  can wrap: words of 8, 32 and 64 bits in \<open>Rbac\<close>, \<open>Persona_Seed\<close>, \<open>Base32\<close>, \<open>Totp\<close>, \<open>Ip_Addr\<close>. Versions
  and generations are unbounded integers where the column is a 32-bit or 64-bit integer. A
  floating-point number of a machine is a rational, and its arithmetic goes through a rounding that
  is an argument (hypothesis \<open>rounds\<close>); how a number is printed, and the lower case of letters outside ASCII,
  are arguments too.

  \<^bold>\<open>What the lemmas show.\<close> For each component, the behaviour of its operations on every branch; for
  each protocol, frame lemmas (which tables a handler leaves alone), an invariant or an abstract
  machine, and the properties over runs. Loops of the code are structural recursions, or carry a
  termination measure (trimming, splitting at white space, emitting base32 digits; for the two parsers of a
  proxy line that call one another the commas, the length and which of the two); no fuel is used.

  \<^bold>\<open>Not modelled.\<close> Row-level security in the database (a second line of defence below the
  handlers), but for the policy of the domain lists, which is the only thing that keeps a list with its organisation; mail and its letters, logs, start-up and configuration, failures of the disk and of
  the database; the journal and the listings of members, roles, lists and machines; a write that fails in the middle of a SOCKS5 handshake, which is seen at the next read; what the relay copies once a
  connection is open and the time its steps take; WireGuard, the TCP shape and the stealth
  measurements of the agent (packets and floating point); the processes themselves (a launch
  ends with what the process is started with), the answers of disk, exit and server to a launch
  (arguments), the machines read from files at build time beside the table, the fingerprint
  captured from a browser and its validation; archives and databases of other programs; the
  desktop shell and the patches to Chromium.
\<close>

end
